(* ===== verification/MAD_Prelude.thy ===== *)
theory MAD_Prelude
  imports Complex_Main "HOL-Library.AList" "HOL-Library.Multiset"
begin

text \<open>
  What every component of the model shares: the Python exceptions the code can raise, the
  insertion-ordered dictionary, decoded JSON payloads, Python truth values, and the
  get-or-create table that several classes of the code base implement
  (\<open>__ensure_worker_data\<close>, \<open>__ensure_player_stat\<close>, \<open>__ensure_entry_available\<close>).
  A \<open>float\<close> of the code is a \<open>real\<close> here: rounding, infinities and NaN are not modelled.
  A Python \<open>int\<close> is an \<open>int\<close>, a \<open>str\<close> is a \<open>string\<close>.
\<close>

named_theorems dict_simps \<open>lookup, domain and distinctness of ordered dictionaries\<close>

section \<open>Exceptions\<close>

datatype py_error =
    TypeError
  | ValueError
  | KeyError
  | IndexError
  | AttributeError
  | ZeroDivisionError
  | RuntimeError
  | FileNotFoundError
  | ConnectionError
  | NoMaddevApiTokenError
  | WizardError
  | SearchError
  | InvalidFile
  | InvalidDownload
  | NameError
  | BadZipFile
  | IntegrityError
  | ResponseError
  | UnboundLocalError
  | WrongAreaInWalker

type_synonym 'a result = "py_error + 'a"

section \<open>Insertion-ordered dictionaries\<close>

text \<open>
  A \<open>dict\<close> is an association list: \<open>AList.update\<close> overwrites a known key in place and
  appends a new one, \<open>AList.delete\<close> removes a key, which is what a \<open>dict\<close> does with its
  insertion order. The well-formed ones have every key once.
\<close>

type_synonym ('k, 'v) dict = "('k \<times> 'v) list"

definition dict_wf :: "('k, 'v) dict \<Rightarrow> bool" where
  "dict_wf d \<longleftrightarrow> distinct (map fst d)"

lemma dict_wf_empty [simp, intro]: "dict_wf []"
  by (simp add: dict_wf_def)

lemma dict_wf_update [simp, intro]: "dict_wf d \<Longrightarrow> dict_wf (AList.update k v d)"
  by (simp add: dict_wf_def distinct_update)

lemma dict_wf_delete [simp, intro]: "dict_wf d \<Longrightarrow> dict_wf (AList.delete k d)"
  by (simp add: dict_wf_def distinct_delete)

lemma map_of_update [dict_simps]: "map_of (AList.update k v d) x = (if x = k then Some v else map_of d x)"
  by (simp add: update_conv)

lemma map_of_delete [dict_simps]: "map_of (AList.delete k d) x = (if x = k then None else map_of d x)"
  by (simp add: delete_conv)

lemma keys_update [dict_simps]: "fst ` set (AList.update k v d) = insert k (fst ` set d)"
  by (simp add: dom_update)

lemma update_new_key: "map_of d k = None \<Longrightarrow> AList.update k v d = d @ [(k, v)]"
  by (induction d) (auto split: if_splits)

lemma in_dict_iff: "dict_wf d \<Longrightarrow> (k, v) \<in> set d \<longleftrightarrow> map_of d k = Some v"
  by (auto simp: dict_wf_def intro: map_of_is_SomeI dest: map_of_SomeD)

lemma map_of_None_keys: "map_of d k = None \<longleftrightarrow> k \<notin> fst ` set d"
  by (simp add: map_of_eq_None_iff)

section \<open>Decoded JSON\<close>

datatype json =
    JNull
  | JBool bool
  | JInt int
  | JFloat real
  | JStr string
  | JList "json list"
  | JDict "(string \<times> json) list"

text \<open>\<open>bool(x)\<close> of a decoded value.\<close>

fun truthy :: "json \<Rightarrow> bool" where
  "truthy JNull = False"
| "truthy (JBool b) = b"
| "truthy (JInt i) = (i \<noteq> 0)"
| "truthy (JFloat x) = (x \<noteq> 0)"
| "truthy (JStr s) = (s \<noteq> [])"
| "truthy (JList xs) = (xs \<noteq> [])"
| "truthy (JDict d) = (d \<noteq> [])"

text \<open>\<open>x.get(k, default)\<close>: only a dictionary has the method.\<close>

fun json_get :: "json \<Rightarrow> string \<Rightarrow> json \<Rightarrow> json result" where
  "json_get (JDict d) k dflt = Inr (case map_of d k of None \<Rightarrow> dflt | Some v \<Rightarrow> v)"
| "json_get _ k dflt = Inl AttributeError"

text \<open>\<open>x[k]\<close> with a string key.\<close>

fun json_index :: "json \<Rightarrow> string \<Rightarrow> json result" where
  "json_index (JDict d) k = (case map_of d k of None \<Rightarrow> Inl KeyError | Some v \<Rightarrow> Inr v)"
| "json_index _ k = Inl TypeError"

text \<open>\<open>bool(x)\<close> of an \<open>Optional[int]\<close>.\<close>

definition truthy_int :: "int option \<Rightarrow> bool" where
  "truthy_int x = (case x of None \<Rightarrow> False | Some i \<Rightarrow> i \<noteq> 0)"

lemma truthy_int_simps [simp]:
  "truthy_int None = False" "truthy_int (Some i) = (i \<noteq> 0)"
  by (simp_all add: truthy_int_def)

lemma truthy_int_Some: "truthy_int x \<longleftrightarrow> (\<exists>i. x = Some i \<and> i \<noteq> 0)"
  by (cases x) simp_all

text \<open>Sequencing of computations that may raise.\<close>

fun res_bind :: "'a result \<Rightarrow> ('a \<Rightarrow> 'b result) \<Rightarrow> 'b result" where
  "res_bind (Inl e) f = Inl e"
| "res_bind (Inr x) f = f x"

fun res_map :: "('a \<Rightarrow> 'b result) \<Rightarrow> 'a list \<Rightarrow> 'b list result" where
  "res_map f [] = Inr []"
| "res_map f (x # xs) = res_bind (f x) (\<lambda>y. res_bind (res_map f xs) (\<lambda>ys. Inr (y # ys)))"

lemma res_bind_Inr: "res_bind m f = Inr y \<longleftrightarrow> (\<exists>x. m = Inr x \<and> f x = Inr y)"
  by (cases m) simp_all

lemma res_bind_Inl: "res_bind m f = Inl e \<longleftrightarrow> m = Inl e \<or> (\<exists>x. m = Inr x \<and> f x = Inl e)"
  by (cases m) simp_all

lemma res_map_Inr_length: "res_map f xs = Inr ys \<Longrightarrow> length ys = length xs"
  by (induction xs arbitrary: ys) (auto simp: res_bind_Inr)

section \<open>Actions\<close>

text \<open>
  A method that may raise, as a function of the state: what it changed before the exception is kept. \<open>act_finally\<close> is
  \<open>try ... finally\<close>, \<open>act_catch\<close> an \<open>except\<close> clause that chooses by the exception.
\<close>

type_synonym ('s, 'e, 'a) act = "'s \<Rightarrow> ('e + 'a) \<times> 's"

definition finish :: "'a \<Rightarrow> ('s, 'e, 'a) act" where "finish x s = (Inr x, s)"

definition raise_error :: "'e \<Rightarrow> ('s, 'e, 'a) act" where "raise_error e s = (Inl e, s)"

definition give :: "'e + 'a \<Rightarrow> ('s, 'e, 'a) act" where "give r s = (r, s)"

definition act_bind :: "('s, 'e, 'a) act \<Rightarrow> ('a \<Rightarrow> ('s, 'e, 'b) act) \<Rightarrow> ('s, 'e, 'b) act" where
  "act_bind f k s = (case f s of (Inl e, s') \<Rightarrow> (Inl e, s') | (Inr x, s') \<Rightarrow> k x s')"

definition act_catch :: "('s, 'e, 'a) act \<Rightarrow> ('e \<Rightarrow> ('s, 'e, 'a) act option) \<Rightarrow> ('s, 'e, 'a) act" where
  "act_catch f h s = (case f s of
       (Inl e, s') \<Rightarrow> (case h e of None \<Rightarrow> (Inl e, s') | Some k \<Rightarrow> k s')
     | (Inr x, s') \<Rightarrow> (Inr x, s'))"

definition act_finally :: "('s, 'e, 'a) act \<Rightarrow> ('s, 'e, unit) act \<Rightarrow> ('s, 'e, 'a) act" where
  "act_finally f c s = (case f s of (r, s') \<Rightarrow> (case c s' of (Inl e, s2) \<Rightarrow> (Inl e, s2) | (Inr u, s2) \<Rightarrow> (r, s2)))"

definition act_do :: "('s \<Rightarrow> 's) \<Rightarrow> ('s, 'e, unit) act" where "act_do f s = (Inr (), f s)"

definition act_read :: "('s \<Rightarrow> 'a) \<Rightarrow> ('s, 'e, 'a) act" where "act_read f s = (Inr (f s), s)"

lemma act_bind_Inr: "act_bind f k s = (Inr y, s') \<longleftrightarrow> (\<exists>x s1. f s = (Inr x, s1) \<and> k x s1 = (Inr y, s'))"
  by (cases "f s") (auto simp: act_bind_def split: sum.splits)

lemma act_bind_ok: "f s = (Inr x, s1) \<Longrightarrow> act_bind f k s = k x s1"
  by (simp add: act_bind_def)

lemma act_bind_fail: "f s = (Inl e, s1) \<Longrightarrow> act_bind f k s = (Inl e, s1)"
  by (simp add: act_bind_def)

lemma act_finally_snd: "act_finally f (act_do c) s = (fst (f s), c (snd (f s)))"
  by (simp add: act_finally_def act_do_def split_beta)

named_theorems act_simps \<open>running an action\<close>

lemmas [act_simps] = finish_def raise_error_def give_def act_do_def act_read_def act_finally_snd

section \<open>Get-or-create tables\<close>

text \<open>
  The shared pattern \<open>if k not in d: d[k] = C(k)\<close> followed by an operation on \<open>d[k]\<close>.
  \<open>ensure\<close> is the first part, \<open>at\<close> the entry it returns.
\<close>

definition ensure :: "('k \<Rightarrow> 'v) \<Rightarrow> 'k \<Rightarrow> ('k, 'v) dict \<Rightarrow> ('k, 'v) dict" where
  "ensure mk k d = (case map_of d k of None \<Rightarrow> AList.update k (mk k) d | Some _ \<Rightarrow> d)"

definition entry_at :: "('k \<Rightarrow> 'v) \<Rightarrow> 'k \<Rightarrow> ('k, 'v) dict \<Rightarrow> 'v" where
  "entry_at mk k d = (case map_of d k of None \<Rightarrow> mk k | Some v \<Rightarrow> v)"

definition with_entry :: "('k \<Rightarrow> 'v) \<Rightarrow> ('v \<Rightarrow> 'v) \<Rightarrow> 'k \<Rightarrow> ('k, 'v) dict \<Rightarrow> ('k, 'v) dict" where
  "with_entry mk f k d = AList.update k (f (entry_at mk k d)) (ensure mk k d)"

text \<open>
  The contract a client of such a table relies on: a fresh entry satisfies the entry's
  invariant and every operation keeps it.
\<close>

locale entry_table =
  fixes mk :: "'k \<Rightarrow> 'v"
    and ok :: "'k \<Rightarrow> 'v \<Rightarrow> bool"
    and op_ok :: "('v \<Rightarrow> 'v) \<Rightarrow> bool"
  assumes mk_ok: "ok k (mk k)"
    and op_keeps: "op_ok f \<Longrightarrow> ok k v \<Longrightarrow> ok k (f v)"
begin

definition table_ok :: "('k, 'v) dict \<Rightarrow> bool" where
  "table_ok d \<longleftrightarrow> dict_wf d \<and> (\<forall>k v. map_of d k = Some v \<longrightarrow> ok k v)"

lemma table_ok_empty: "table_ok []"
  by (simp add: table_ok_def)

lemma entry_ok: "table_ok d \<Longrightarrow> ok k (entry_at mk k d)"
  by (auto simp: table_ok_def entry_at_def mk_ok split: option.splits)

lemma table_ok_ensure: "table_ok d \<Longrightarrow> table_ok (ensure mk k d)"
  by (auto simp: table_ok_def ensure_def dict_simps mk_ok split: option.splits if_splits)

lemma table_ok_with_entry:
  assumes "table_ok d" and "op_ok f"
  shows "table_ok (with_entry mk f k d)"
  using table_ok_ensure [OF assms(1), of k] entry_ok [OF assms(1), of k] assms(2)
  by (auto simp: table_ok_def with_entry_def dict_simps op_keeps split: if_splits)

end

lemma map_of_ensure [dict_simps]:
  "map_of (ensure mk k d) x = (if x = k then Some (entry_at mk k d) else map_of d x)"
  by (auto simp: ensure_def entry_at_def dict_simps split: option.splits)

lemma map_of_with_entry [dict_simps]:
  "map_of (with_entry mk f k d) x = (if x = k then Some (f (entry_at mk k d)) else map_of d x)"
  by (simp add: with_entry_def dict_simps)

lemma entry_at_with_entry [dict_simps]:
  "entry_at mk x (with_entry mk f k d) = (if x = k then f (entry_at mk k d) else entry_at mk x d)"
  by (simp add: entry_at_def [of mk x] dict_simps)

lemma dict_wf_ensure [simp, intro]: "dict_wf d \<Longrightarrow> dict_wf (ensure mk k d)"
  by (auto simp: ensure_def split: option.splits)

lemma dict_wf_with_entry [simp, intro]: "dict_wf d \<Longrightarrow> dict_wf (with_entry mk f k d)"
  by (auto simp: with_entry_def)

end
