(* ===== verification/PyStr.thy ===== *)
theory PyStr
  imports MAD_Prelude
begin

text \<open>
  The string methods of Python the code uses, on ASCII strings: \<open>strip\<close>, \<open>split\<close> on a
  one- or two-character separator, \<open>replace(c, "")\<close>, \<open>int(s)\<close> and \<open>str(i)\<close>, with the laws the
  parsers and printers of the components rest on. \<open>int\<close> is modelled on optional white space,
  an optional sign and decimal digits (no underscores, no non-ASCII digits).
\<close>

section \<open>White space, splitting, removal\<close>

definition is_ws :: "char \<Rightarrow> bool" where
  "is_ws c \<longleftrightarrow> of_char c \<in> {9, 10, 11, 12, 13, 28, 29, 30, 31, 32 :: nat}"

definition lstrip :: "string \<Rightarrow> string" where
  "lstrip s = dropWhile is_ws s"

definition strip :: "string \<Rightarrow> string" where
  "strip s = rev (lstrip (rev (lstrip s)))"

fun split_char :: "char \<Rightarrow> string \<Rightarrow> string list" where
  "split_char c [] = [[]]"
| "split_char c (x # xs) =
     (if x = c then [] # split_char c xs
      else (case split_char c xs of y # ys \<Rightarrow> (x # y) # ys | [] \<Rightarrow> [[x]]))"

text \<open>\<open>s.split(c, 1)\<close>: at most one cut.\<close>

fun split_once :: "char \<Rightarrow> string \<Rightarrow> string list" where
  "split_once c [] = [[]]"
| "split_once c (x # xs) =
     (if x = c then [[], xs]
      else (case split_once c xs of y # ys \<Rightarrow> (x # y) # ys | [] \<Rightarrow> [[x]]))"

text \<open>\<open>s.split(ab)\<close> for a separator of two distinct characters.\<close>

fun split_two :: "char \<Rightarrow> char \<Rightarrow> string \<Rightarrow> string list" where
  "split_two a b [] = [[]]"
| "split_two a b [x] = [[x]]"
| "split_two a b (x # y # xs) =
     (if x = a \<and> y = b then [] # split_two a b xs
      else (case split_two a b (y # xs) of z # zs \<Rightarrow> (x # z) # zs | [] \<Rightarrow> [[x]]))"

definition remove_char :: "char \<Rightarrow> string \<Rightarrow> string" where
  "remove_char c s = filter (\<lambda>x. x \<noteq> c) s"

lemma split_char_nonempty [simp]: "split_char c s \<noteq> []"
  by (induction s) (auto split: list.splits)

lemma split_once_nonempty [simp]: "split_once c s \<noteq> []"
  by (induction s) (auto split: list.splits)

lemma split_two_nonempty [simp]: "split_two a b s \<noteq> []"
  by (induction a b s rule: split_two.induct) (auto split: list.splits)

lemma split_char_no_sep: "c \<notin> set s \<Longrightarrow> split_char c s = [s]"
  by (induction s) auto

lemma split_char_cons: "c \<notin> set s \<Longrightarrow> split_char c (s @ c # t) = s # split_char c t"
  by (induction s) auto

lemma split_once_no_sep: "c \<notin> set s \<Longrightarrow> split_once c s = [s]"
  by (induction s) auto

lemma split_once_cons: "c \<notin> set s \<Longrightarrow> split_once c (s @ c # t) = [s, t]"
  by (induction s) auto

lemma split_two_no_fst: "a \<notin> set s \<Longrightarrow> split_two a b s = [s]"
proof (induction s)
  case (Cons x xs)
  then show ?case by (cases xs) auto
qed simp

lemma split_two_cons: "a \<notin> set s \<Longrightarrow> split_two a b (s @ a # b # t) = s # split_two a b t"
proof (induction s)
  case (Cons x xs)
  then show ?case by (cases xs) auto
qed simp

lemma remove_char_id: "c \<notin> set s \<Longrightarrow> remove_char c s = s"
  by (auto simp: remove_char_def intro: filter_True)

lemma remove_char_simps [simp]:
  "remove_char c [] = []"
  "remove_char c (x # s) = (if x = c then remove_char c s else x # remove_char c s)"
  "remove_char c (s @ t) = remove_char c s @ remove_char c t"
  by (simp_all add: remove_char_def)

lemma lstrip_id: "s = [] \<or> \<not> is_ws (hd s) \<Longrightarrow> lstrip s = s"
  by (cases s) (auto simp: lstrip_def)

lemma strip_id: "\<forall>c \<in> set s. \<not> is_ws c \<Longrightarrow> strip s = s"
proof -
  assume c: "\<forall>c \<in> set s. \<not> is_ws c"
  then have "lstrip s = s"
    by (intro lstrip_id) (cases s; auto)
  moreover from c have "lstrip (rev s) = rev s"
    by (intro lstrip_id) (cases s rule: rev_cases; auto)
  ultimately show "strip s = s" by (simp add: strip_def)
qed

lemma strip_space: "\<forall>c \<in> set s. \<not> is_ws c \<Longrightarrow> strip (CHR '' '' # s) = s"
  using strip_id [of s] by (simp add: strip_def lstrip_def is_ws_def)

section \<open>Substrings\<close>

definition lower :: "string \<Rightarrow> string" where
  "lower s = map (\<lambda>c. let n = of_char c :: nat in if 65 \<le> n \<and> n \<le> 90 then char_of (n + 32) else c) s"

fun starts_with :: "string \<Rightarrow> string \<Rightarrow> bool" where
  "starts_with [] s = True"
| "starts_with (p # ps) [] = False"
| "starts_with (p # ps) (c # cs) = (p = c \<and> starts_with ps cs)"

definition ends_with :: "string \<Rightarrow> string \<Rightarrow> bool" where
  "ends_with p s = starts_with (rev p) (rev s)"

fun contains_str :: "string \<Rightarrow> string \<Rightarrow> bool" where
  "contains_str p [] = (p = [])"
| "contains_str p (c # cs) = (starts_with p (c # cs) \<or> contains_str p cs)"

section \<open>Decimal numbers\<close>

definition digit_val :: "char \<Rightarrow> int option" where
  "digit_val c = (let n = of_char c in if 48 \<le> n \<and> n \<le> (57 :: int) then Some (n - 48) else None)"

fun digits_acc :: "int \<Rightarrow> string \<Rightarrow> int option" where
  "digits_acc a [] = Some a"
| "digits_acc a (c # cs) = (case digit_val c of None \<Rightarrow> None | Some d \<Rightarrow> digits_acc (10 * a + d) cs)"

definition parse_digits :: "string \<Rightarrow> int result" where
  "parse_digits s = (if s = [] then Inl ValueError
     else case digits_acc 0 s of None \<Rightarrow> Inl ValueError | Some n \<Rightarrow> Inr n)"

definition parse_int :: "string \<Rightarrow> int result" where
  "parse_int s = (case strip s of
       [] \<Rightarrow> Inl ValueError
     | c # cs \<Rightarrow>
         if c = CHR ''-'' then res_bind (parse_digits cs) (\<lambda>n. Inr (- n))
         else if c = CHR ''+'' then parse_digits cs
         else parse_digits (c # cs))"

definition digit_char :: "nat \<Rightarrow> char" where
  "digit_char d = char_of (48 + d)"

fun show_nat :: "nat \<Rightarrow> string" where
  "show_nat n = (if n < 10 then [digit_char n] else show_nat (n div 10) @ [digit_char (n mod 10)])"

declare show_nat.simps [simp del]

definition show_int :: "int \<Rightarrow> string" where
  "show_int i = (if i < 0 then CHR ''-'' # show_nat (nat (- i)) else show_nat (nat i))"

lemma of_char_digit_char: "d < 10 \<Longrightarrow> of_char (digit_char d) = (48 + of_nat d :: int)"
proof -
  assume "d < 10"
  then have "of_char (digit_char d) = (48 + d :: nat)"
    by (simp add: digit_char_def)
  then show ?thesis
    by (metis of_nat_add of_nat_numeral of_nat_of_char)
qed

lemma digit_val_digit_char: "d < 10 \<Longrightarrow> digit_val (digit_char d) = Some (int d)"
  by (simp add: digit_val_def of_char_digit_char Let_def)

lemma digits_acc_append:
  "digits_acc a (s @ t) = (case digits_acc a s of None \<Rightarrow> None | Some b \<Rightarrow> digits_acc b t)"
  by (induction s arbitrary: a) (auto split: option.splits)

lemma digits_acc_show_nat: "digits_acc 0 (show_nat n) = Some (int n)"
proof (induction n rule: show_nat.induct)
  case (1 n)
  show ?case
  proof (cases "n < 10")
    case True
    then show ?thesis by (subst show_nat.simps) (simp add: digit_val_digit_char)
  next
    case False
    then show ?thesis
      using "1.IH" by (subst show_nat.simps)
        (simp add: digits_acc_append digit_val_digit_char zmod_int zdiv_int)
  qed
qed

lemma show_nat_nonempty [simp]: "show_nat n \<noteq> []"
  by (subst show_nat.simps) simp

lemma show_nat_digits: "c \<in> set (show_nat n) \<Longrightarrow> digit_val c \<noteq> None"
  using digits_acc_show_nat [of n]
proof -
  have "digits_acc a s \<noteq> None \<Longrightarrow> c \<in> set s \<Longrightarrow> digit_val c \<noteq> None" for a s
    by (induction s arbitrary: a) (auto split: option.splits)
  then show "c \<in> set (show_nat n) \<Longrightarrow> digit_val c \<noteq> None"
    using digits_acc_show_nat [of n] by blast
qed

lemma digit_val_not_special:
  assumes "digit_val c \<noteq> None"
  shows "\<not> is_ws c \<and> c \<noteq> CHR ''-'' \<and> c \<noteq> CHR ''+'' \<and> c \<noteq> CHR '';'' \<and> c \<noteq> CHR '':'' \<and> c \<noteq> CHR '',''"
proof -
  have b: "48 \<le> (of_char c :: int)" "(of_char c :: int) \<le> 57"
    using assms by (auto simp: digit_val_def Let_def split: if_splits)
  then have n: "48 \<le> (of_char c :: nat)" "(of_char c :: nat) \<le> 57"
    by (metis of_nat_le_iff of_nat_numeral of_nat_of_char)+
  then have "\<not> is_ws c" by (auto simp: is_ws_def)
  with n show ?thesis by auto
qed

lemma show_nat_clean: "c \<in> set (show_nat n) \<Longrightarrow> \<not> is_ws c \<and> c \<noteq> CHR ''-'' \<and> c \<noteq> CHR ''+'' \<and> c \<noteq> CHR '';''"
  using show_nat_digits digit_val_not_special by blast

lemma parse_digits_show_nat: "parse_digits (show_nat n) = Inr (int n)"
  by (simp add: parse_digits_def digits_acc_show_nat)

lemma show_int_clean: "c \<in> set (show_int i) \<Longrightarrow> \<not> is_ws c \<and> c \<noteq> CHR '';''"
  using show_nat_clean by (auto simp: show_int_def is_ws_def split: if_splits)

lemma parse_int_show_int: "parse_int (show_int i) = Inr i"
proof -
  have s: "strip (show_int i) = show_int i"
    by (rule strip_id) (auto dest: show_int_clean)
  obtain c cs where c: "show_nat (nat i) = c # cs"
    by (cases "show_nat (nat i)") auto
  then have "c \<noteq> CHR ''-''" "c \<noteq> CHR ''+''"
    using show_nat_clean [of c "nat i"] by auto
  with c show ?thesis
    using parse_digits_show_nat [of "nat i"]
    by (simp add: parse_int_def s) (simp add: show_int_def parse_digits_show_nat)
qed

end
