(* ===== verification/Geo.thy ===== *)
theory Geo
  imports MAD_Prelude
begin

text \<open>
  Locations and the spherical geometry of \<open>mapadroid/utils/geo.py\<close> and
  \<open>mapadroid/utils/collections.py\<close>, over the reals. \<open>atan2\<close>, \<open>radians\<close> and \<open>degrees\<close> are the
  functions of Python's \<open>math\<close> module that the code calls.
\<close>

record location =
  lat :: real
  lng :: real

text \<open>\<open>Location.__getitem__\<close>\<close>

definition location_getitem :: "location \<Rightarrow> int \<Rightarrow> real" where
  "location_getitem l index = (if index = 0 then lat l else lng l)"

definition Loc :: "real \<Rightarrow> real \<Rightarrow> location" where
  "Loc a b = \<lparr>lat = a, lng = b\<rparr>"

lemma Loc_simps [simp]: "lat (Loc a b) = a" "lng (Loc a b) = b"
  by (simp_all add: Loc_def)

lemma Loc_eq_iff [simp]: "Loc a b = Loc c d \<longleftrightarrow> a = c \<and> b = d"
  by (simp add: Loc_def)

lemma Loc_collapse [simp]: "Loc (lat l) (lng l) = l"
  by (simp add: Loc_def)

section \<open>Python's math functions\<close>

definition radians :: "real \<Rightarrow> real" where
  "radians x = x * pi / 180"

definition degrees :: "real \<Rightarrow> real" where
  "degrees x = x * 180 / pi"

definition atan2 :: "real \<Rightarrow> real \<Rightarrow> real" where
  "atan2 y x =
     (if 0 < x then arctan (y / x)
      else if x < 0 then (if 0 \<le> y then arctan (y / x) + pi else arctan (y / x) - pi)
      else if 0 < y then pi / 2 else if y < 0 then - (pi / 2) else 0)"

lemma degrees_radians [simp]: "degrees (radians x) = x"
  by (simp add: degrees_def radians_def)

lemma atan2_range: "0 \<le> y \<Longrightarrow> 0 \<le> x \<Longrightarrow> 0 \<le> atan2 y x \<and> atan2 y x \<le> pi / 2"
  using arctan_ubound [of "y / x"] by (auto simp: atan2_def)

lemma atan2_sin_cos:
  assumes "0 \<le> t" and "t \<le> pi / 2"
  shows "atan2 (sin t) (cos t) = t"
proof (cases "t = pi / 2")
  case True
  then show ?thesis by (simp only: sin_pi_half cos_pi_half) (simp add: atan2_def)
next
  case False
  with assms have "0 < cos t" by (intro cos_gt_zero_pi) auto
  moreover have "arctan (tan t) = t" using assms False by (intro arctan_tan) auto
  ultimately show ?thesis by (simp add: atan2_def tan_def)
qed

section \<open>Distance\<close>

definition get_lat_lng_offsets_by_distance :: "real \<Rightarrow> real \<times> real" where
  "get_lat_lng_offsets_by_distance distance =
     (let earth = 6373;
          meters = (1 / ((2 * pi / 360) * earth)) / 1000;
          lat_offset = distance * meters;
          lng_offset = (distance * meters) / cos (pi / 180)
      in (lat_offset, lng_offset))"

text \<open>The haversine term under the square root.\<close>

definition hav_angle :: "real \<Rightarrow> real \<Rightarrow> real \<Rightarrow> real \<Rightarrow> real" where
  "hav_angle lat1 lon1 lat2 lon2 =
     (let dlon = lon2 - lon1; dlat = lat2 - lat1
      in (sin (dlat / 2))\<^sup>2 + cos lat1 * cos lat2 * (sin (dlon / 2))\<^sup>2)"

definition get_distance_of_two_points_in_meters :: "real \<Rightarrow> real \<Rightarrow> real \<Rightarrow> real \<Rightarrow> real" where
  "get_distance_of_two_points_in_meters start_lat start_lon dest_lat dest_lon =
     (let earth_radius = 6373;
          angle = hav_angle (radians start_lat) (radians start_lon) (radians dest_lat) (radians dest_lon);
          circ = 2 * atan2 (sqrt angle) (sqrt (1 - angle));
          distance = earth_radius * circ
      in distance * 1000)"

abbreviation dist_loc :: "location \<Rightarrow> location \<Rightarrow> real" where
  "dist_loc a b \<equiv> get_distance_of_two_points_in_meters (lat a) (lng a) (lat b) (lng b)"

text \<open>
  The term is a convex combination of two squares, so both square roots of the code have a
  non-negative argument: \<open>math.sqrt\<close> does not raise.
\<close>

lemma cos_mult_half: "cos a * cos b = (cos ((a + b) / 2))\<^sup>2 - (sin ((b - a) / 2))\<^sup>2" for a b :: real
proof -
  have "cos a * cos b = (cos (a - b) + cos (a + b)) / 2"
    by (rule cos_times_cos)
  also have "cos (a - b) = 1 - 2 * (sin ((b - a) / 2))\<^sup>2"
  proof -
    have "cos (a - b) = cos (b - a)"
      by (metis cos_minus minus_diff_eq)
    moreover have "b - a = 2 * ((b - a) / 2)"
      by simp
    ultimately have "cos (a - b) = cos (2 * ((b - a) / 2))"
      by metis
    then show ?thesis by (simp only: cos_double_sin)
  qed
  also have "cos (a + b) = 2 * (cos ((a + b) / 2))\<^sup>2 - 1"
  proof -
    have "a + b = 2 * ((a + b) / 2)"
      by simp
    then show ?thesis by (metis cos_double_cos)
  qed
  finally show ?thesis by (simp add: field_simps)
qed

lemma hav_angle_convex:
  "hav_angle a x b y = (1 - (sin ((y - x) / 2))\<^sup>2) * (sin ((b - a) / 2))\<^sup>2
     + (sin ((y - x) / 2))\<^sup>2 * (cos ((a + b) / 2))\<^sup>2"
  unfolding hav_angle_def Let_def cos_mult_half [of a b] by algebra

lemma hav_angle_bounds: "0 \<le> hav_angle a x b y \<and> hav_angle a x b y \<le> 1"
proof -
  let ?s = "(sin ((y - x) / 2))\<^sup>2" and ?p = "(sin ((b - a) / 2))\<^sup>2" and ?q = "(cos ((a + b) / 2))\<^sup>2"
  have s: "0 \<le> ?s" "?s \<le> 1" and p: "0 \<le> ?p" "?p \<le> 1" and q: "0 \<le> ?q" "?q \<le> 1"
    by (simp_all add: abs_square_le_1)
  have "(1 - ?s) * ?p + ?s * ?q \<le> (1 - ?s) * 1 + ?s * 1"
    using s p q by (intro add_mono mult_left_mono) auto
  with s p q show ?thesis by (simp add: hav_angle_convex)
qed

lemma hav_angle_sym: "hav_angle a x b y = hav_angle b y a x"
proof -
  have "sin ((b - a) / 2) = - sin ((a - b) / 2)" and "sin ((y - x) / 2) = - sin ((x - y) / 2)"
    using sin_minus [of "(a - b) / 2"] sin_minus [of "(x - y) / 2"] by (simp_all add: minus_divide_left)
  then show ?thesis by (simp add: hav_angle_def Let_def mult.commute)
qed

lemma distance_sym:
  "get_distance_of_two_points_in_meters a x b y = get_distance_of_two_points_in_meters b y a x"
  by (simp add: get_distance_of_two_points_in_meters_def hav_angle_sym Let_def)

lemma distance_bounds:
  "0 \<le> get_distance_of_two_points_in_meters a x b y \<and>
   get_distance_of_two_points_in_meters a x b y \<le> 6373000 * pi"
  using hav_angle_bounds [of "radians a" "radians x" "radians b" "radians y"]
    atan2_range [of "sqrt (hav_angle (radians a) (radians x) (radians b) (radians y))"
      "sqrt (1 - hav_angle (radians a) (radians x) (radians b) (radians y))"]
  by (simp add: get_distance_of_two_points_in_meters_def Let_def)

lemma distance_nonneg [simp]: "0 \<le> get_distance_of_two_points_in_meters a x b y"
  using distance_bounds by blast

lemma distance_refl [simp]: "get_distance_of_two_points_in_meters a x a x = 0"
  by (simp add: get_distance_of_two_points_in_meters_def hav_angle_def atan2_def)

text \<open>Along a meridian the distance is the arc length.\<close>

lemma distance_meridian:
  assumes "\<bar>b - a\<bar> \<le> 180"
  shows "get_distance_of_two_points_in_meters a x b x = 6373000 * radians \<bar>b - a\<bar>"
proof -
  let ?t = "radians \<bar>b - a\<bar> / 2"
  have t: "0 \<le> ?t" "?t \<le> pi / 2"
    using assms by (auto simp: radians_def field_simps)
  have "(radians b - radians a) / 2 = ?t \<or> (radians b - radians a) / 2 = - ?t"
    by (cases "a \<le> b") (auto simp: radians_def field_simps)
  then have "sin ((radians b - radians a) / 2) = sin ?t \<or> sin ((radians b - radians a) / 2) = - sin ?t"
    by (metis sin_minus)
  then have "(sin ((radians b - radians a) / 2))\<^sup>2 = (sin ?t)\<^sup>2" by auto
  moreover have "sqrt ((sin ?t)\<^sup>2) = sin ?t"
    using t by (simp add: sin_ge_zero)
  moreover have "sqrt (1 - (sin ?t)\<^sup>2) = cos ?t"
    using t by (simp add: cos_squared_eq [symmetric] cos_ge_zero)
  ultimately show ?thesis
    using atan2_sin_cos [OF t] by (simp add: get_distance_of_two_points_in_meters_def hav_angle_def)
qed

section \<open>Middle of a list of coordinates\<close>

definition sum_xyz :: "location list \<Rightarrow> real \<times> real \<times> real" where
  "sum_xyz cs = fold (\<lambda>coord (x, y, z).
       (let lat_rad = radians (lat coord); lng_rad = radians (lng coord)
        in (x + cos lat_rad * cos lng_rad, y + cos lat_rad * sin lng_rad, z + sin lat_rad)))
     cs (0, 0, 0)"

definition get_middle_of_coord_list :: "location list \<Rightarrow> location result" where
  "get_middle_of_coord_list list_of_coords =
     (case list_of_coords of
        [c] \<Rightarrow> Inr c
      | [] \<Rightarrow> Inl ZeroDivisionError
      | _ \<Rightarrow>
        (let (sx, sy, sz) = sum_xyz list_of_coords;
             amount_of_coords = real (length list_of_coords);
             coord_x = sx / amount_of_coords;
             coord_y = sy / amount_of_coords;
             coord_z = sz / amount_of_coords;
             central_lng = atan2 coord_y coord_x;
             central_square_root = sqrt (coord_x * coord_x + coord_y * coord_y);
             central_lat = atan2 coord_z central_square_root
         in Inr (Loc (degrees central_lat) (degrees central_lng))))"

section \<open>The middle of two coordinates is half way\<close>

text \<open>The cosine of the central angle of two points given in radians.\<close>

definition cos_angle :: "real \<Rightarrow> real \<Rightarrow> real \<Rightarrow> real \<Rightarrow> real" where
  "cos_angle a x b y = cos a * cos b * (cos x * cos y + sin x * sin y) + sin a * sin b"

lemma hav_angle_cos: "hav_angle a x b y = (1 - cos_angle a x b y) / 2"
proof -
  have half: "(sin (h / 2))\<^sup>2 = (1 - cos h) / 2" for h :: real
    using cos_double_sin [of "h / 2"] by simp
  have "cos (b - a) = cos a * cos b + sin a * sin b" and "cos (y - x) = cos x * cos y + sin x * sin y"
    by (simp_all add: cos_diff mult.commute)
  then show ?thesis
    by (simp add: hav_angle_def Let_def half cos_angle_def) (simp add: field_simps)
qed

lemma cos_angle_bounds: "- 1 \<le> cos_angle a x b y \<and> cos_angle a x b y \<le> 1"
  using hav_angle_bounds [of a x b y] by (simp add: hav_angle_cos)

lemma distance_arccos:
  "get_distance_of_two_points_in_meters a x b y
     = 6373000 * arccos (cos_angle (radians a) (radians x) (radians b) (radians y))"
proof -
  let ?C = "cos_angle (radians a) (radians x) (radians b) (radians y)"
  let ?t = "arccos ?C / 2"
  have C: "- 1 \<le> ?C" "?C \<le> 1" using cos_angle_bounds by blast+
  have t: "0 \<le> ?t" "?t \<le> pi / 2"
    using arccos_lbound [OF C] arccos_ubound [OF C] by auto
  have dbl: "cos (2 * ?t) = ?C" using C by (simp add: cos_arccos)
  have s: "(1 - ?C) / 2 = (sin ?t)\<^sup>2" and c: "1 - (1 - ?C) / 2 = (cos ?t)\<^sup>2"
    using cos_double_sin [of ?t] cos_double_cos [of ?t] dbl by (simp_all add: field_simps)
  have "sqrt ((sin ?t)\<^sup>2) = sin ?t" and "sqrt ((cos ?t)\<^sup>2) = cos ?t"
    using t by (simp_all add: sin_ge_zero cos_ge_zero)
  with s c show ?thesis
    using atan2_sin_cos [OF t]
    by (simp only: get_distance_of_two_points_in_meters_def hav_angle_cos Let_def)
qed

lemma atan2_polar:
  "cos (atan2 y x) * sqrt (x\<^sup>2 + y\<^sup>2) = x \<and> sin (atan2 y x) * sqrt (x\<^sup>2 + y\<^sup>2) = y"
proof (cases "x = 0")
  case True
  then show ?thesis by (auto simp: atan2_def)
next
  case False
  let ?q = "sqrt (1 + (y / x)\<^sup>2)"
  have q: "0 < ?q" by (simp add: add_pos_nonneg)
  have "sqrt (x\<^sup>2 + y\<^sup>2) = sqrt (x\<^sup>2 * (1 + (y / x)\<^sup>2))"
    using False by (simp add: field_simps)
  then have n: "sqrt (x\<^sup>2 + y\<^sup>2) = \<bar>x\<bar> * ?q"
    by (simp add: real_sqrt_mult)
  have "cos (arctan (y / x)) * ?q = 1" and "sin (arctan (y / x)) * ?q = y / x"
    using q by (simp_all add: cos_arctan sin_arctan)
  then have cs: "cos (arctan (y / x)) * (\<bar>x\<bar> * ?q) = \<bar>x\<bar>" "sin (arctan (y / x)) * (\<bar>x\<bar> * ?q) = \<bar>x\<bar> * (y / x)"
    by (metis mult.left_commute mult.right_neutral)+
  show ?thesis
  proof (cases "0 < x")
    case True
    then show ?thesis using cs by (simp add: n atan2_def)
  next
    case neg: False
    with False have "x < 0" by simp
    then show ?thesis using cs unfolding n by (auto simp: atan2_def cos_diff sin_diff)
  qed
qed

lemma middle_two_angle:
  assumes "get_middle_of_coord_list [p, q] = Inr m"
    and "c = cos_angle (radians (lat p)) (radians (lng p)) (radians (lat q)) (radians (lng q))"
    and "- 1 < c"
  shows "cos_angle (radians (lat m)) (radians (lng m)) (radians (lat p)) (radians (lng p)) = sqrt ((1 + c) / 2)"
proof -
  let ?a = "radians (lat p)" and ?x = "radians (lng p)" and ?b = "radians (lat q)" and ?y = "radians (lng q)"
  define X Y Z where "X = (cos ?a * cos ?x + cos ?b * cos ?y) / 2"
    and "Y = (cos ?a * sin ?x + cos ?b * sin ?y) / 2" and "Z = (sin ?a + sin ?b) / 2"
  define r where "r = sqrt (X * X + Y * Y)"
  define N where "N = sqrt (r\<^sup>2 + Z\<^sup>2)"
  have m: "m = Loc (degrees (atan2 Z r)) (degrees (atan2 Y X))"
    using assms(1)
    by (simp add: get_middle_of_coord_list_def sum_xyz_def Let_def X_def Y_def Z_def r_def)
  have rad: "radians (degrees z) = z" for z by (simp add: radians_def degrees_def)
  have sq: "(cos z)\<^sup>2 + (sin z)\<^sup>2 = 1" for z :: real by simp
  have rr: "r\<^sup>2 = X\<^sup>2 + Y\<^sup>2" by (simp add: r_def power2_eq_square)
  have pol: "cos (atan2 Y X) * r = X" "sin (atan2 Y X) * r = Y" "cos (atan2 Z r) * N = r" "sin (atan2 Z r) * N = Z"
    using atan2_polar [of Y X] atan2_polar [of Z r] by (simp_all add: r_def N_def power2_eq_square)
  have c: "c = cos ?a * cos ?b * (cos ?x * cos ?y + sin ?x * sin ?y) + sin ?a * sin ?b"
    using assms(2) by (simp add: cos_angle_def)
  have unit: "(cos u * cos v)\<^sup>2 + (cos u * sin v)\<^sup>2 + (sin u)\<^sup>2 = 1" for u v :: real
    using sq [of u] sq [of v] by algebra
  have XYZ: "2 * X = cos ?a * cos ?x + cos ?b * cos ?y" "2 * Y = cos ?a * sin ?x + cos ?b * sin ?y"
    "2 * Z = sin ?a + sin ?b"
    by (simp_all add: X_def Y_def Z_def)
  have "4 * (r\<^sup>2 + Z\<^sup>2) = 2 + 2 * c"
    unfolding c using unit [of ?a ?x] unit [of ?b ?y] XYZ rr by algebra
  then have N2: "r\<^sup>2 + Z\<^sup>2 = (1 + c) / 2" by simp
  then have N: "N = sqrt ((1 + c) / 2)" "0 < N" using assms(3) by (simp_all add: N_def)
  have NN: "N * N = (1 + c) / 2" using N assms(3) by simp
  let ?C = "cos_angle (atan2 Z r) (atan2 Y X) ?a ?x"
  have "N * ?C = X * (cos ?a * cos ?x) + Y * (cos ?a * sin ?x) + Z * sin ?a"
  proof -
    let ?A = "cos (atan2 Y X)" and ?B = "sin (atan2 Y X)"
    have "N * ?C = (cos (atan2 Z r) * N) * cos ?a * (?A * cos ?x + ?B * sin ?x) + (sin (atan2 Z r) * N) * sin ?a"
      by (simp add: cos_angle_def algebra_simps)
    also have "\<dots> = cos ?a * ((?A * r) * cos ?x + (?B * r) * sin ?x) + Z * sin ?a"
      unfolding pol(3,4) by (simp add: algebra_simps)
    finally show ?thesis unfolding pol(1,2) by (simp add: algebra_simps)
  qed
  also have "\<dots> = (1 + c) / 2"
  proof -
    have "2 * (X * (cos ?a * cos ?x) + Y * (cos ?a * sin ?x) + Z * sin ?a) = 1 + c"
      unfolding c using XYZ unit [of ?a ?x] by algebra
    then show ?thesis by simp
  qed
  finally have "N * ?C = N * N" by (simp only: NN)
  then have "?C = N" using N(2) by (metis mult_left_cancel less_irrefl)
  then show ?thesis by (simp add: m rad N(1))
qed

lemma arccos_half:
  assumes "- 1 \<le> c" and "c \<le> 1"
  shows "arccos (sqrt ((1 + c) / 2)) = arccos c / 2"
proof -
  have t: "0 \<le> arccos c / 2" "arccos c / 2 \<le> pi / 2" "arccos c / 2 \<le> pi"
    using arccos_lbound [OF assms] arccos_ubound [OF assms] by auto
  have "(1 + c) / 2 = (cos (arccos c / 2))\<^sup>2"
    using cos_double_cos [of "arccos c / 2"] assms by (simp add: cos_arccos)
  then have "sqrt ((1 + c) / 2) = cos (arccos c / 2)"
    using t by (simp add: cos_ge_zero)
  with t show ?thesis by (simp add: arccos_cos)
qed

lemma middle_two_halfway:
  assumes "get_middle_of_coord_list [p, q] = Inr m"
    and "dist_loc p q < 6373000 * pi"
  shows "dist_loc m p = dist_loc p q / 2"
proof -
  define c where "c = cos_angle (radians (lat p)) (radians (lng p)) (radians (lat q)) (radians (lng q))"
  have b: "- 1 \<le> c" "c \<le> 1" using cos_angle_bounds c_def by auto
  have "c \<noteq> - 1" using assms(2) by (auto simp: distance_arccos c_def [symmetric])
  with b have "- 1 < c" by simp
  from middle_two_angle [OF assms(1) c_def this] arccos_half [OF b]
  show ?thesis by (simp add: distance_arccos c_def [symmetric])
qed

end
