(* ===== verification/GameMechanics.thy ===== *)
theory GameMechanics
  imports PyStr Geo
begin

text \<open>
  \<open>mapadroid/utils/gamemechanicutil.py\<close>: level and IV arithmetic, the quest layer of a device,
  the despawn time of a spawn point, the form table, the Ditto check and the soft-ban cooldown.
  Decimal literals are the exact decimals of the source.
\<close>

section \<open>Level and IV\<close>

text \<open>\<open>round(x)\<close>: to the nearest integer, ties to the even one.\<close>

definition py_round :: "real \<Rightarrow> int" where
  "py_round x = (let n = \<lfloor>x\<rfloor>; r = x - of_int n
     in if r < 1/2 then n else if 1/2 < r then n + 1 else if even n then n else n + 1)"

definition mon_level_raw :: "real \<Rightarrow> real" where
  "mon_level_raw cp_multiplier =
     (if cp_multiplier < 0.734
      then 58.35178527 * cp_multiplier * cp_multiplier - 2.838007664 * cp_multiplier + 0.8539209906
      else 171.0112688 * cp_multiplier - 95.20425243)"

definition calculate_mon_level :: "real \<Rightarrow> real" where
  "calculate_mon_level cp_multiplier = of_int (py_round (mon_level_raw cp_multiplier)) * 2 / 2"

definition calculate_iv :: "int \<Rightarrow> int \<Rightarrow> int \<Rightarrow> real" where
  "calculate_iv ind_atk ind_def ind_stm = 100 * of_int (ind_atk + ind_def + ind_stm) / 45"

lemma py_round_mono: "x \<le> y \<Longrightarrow> py_round x \<le> py_round y"
proof -
  assume le: "x \<le> y"
  then have "\<lfloor>x\<rfloor> \<le> \<lfloor>y\<rfloor>" by (rule floor_mono)
  then show ?thesis
  proof (cases "\<lfloor>x\<rfloor> = \<lfloor>y\<rfloor>")
    case True
    with le show ?thesis by (auto simp: py_round_def Let_def)
  next
    case False
    with \<open>\<lfloor>x\<rfloor> \<le> \<lfloor>y\<rfloor>\<close> have "\<lfloor>x\<rfloor> + 1 \<le> \<lfloor>y\<rfloor>" by simp
    then show ?thesis by (auto simp: py_round_def Let_def)
  qed
qed

lemma py_round_near: "\<bar>of_int (py_round x) - x\<bar> \<le> 1 / 2"
proof -
  define n where "n = \<lfloor>x\<rfloor>"
  have "of_int n \<le> x" "x < of_int n + 1" by (simp_all add: n_def)
  then show ?thesis by (auto simp: py_round_def Let_def abs_if simp flip: n_def)
qed

lemma mon_level_raw_mono: "0.03 \<le> a \<Longrightarrow> a \<le> b \<Longrightarrow> mon_level_raw a \<le> mon_level_raw b"
proof -
  assume a: "0.03 \<le> a" and ab: "a \<le> b"
  have quad: "58.35178527 * x * x - 2.838007664 * x \<le> 58.35178527 * y * y - 2.838007664 * y"
    if "0.03 \<le> x" "x \<le> y" for x y :: real
  proof -
    have "(y - x) * (c * (x + y) - k) = (c * y * y - k * y) - (c * x * x - k * x)" for c k :: real
      by (simp add: algebra_simps)
    moreover have "0 \<le> (y - x) * (58.35178527 * (x + y) - 2.838007664)"
      using that by (intro mult_nonneg_nonneg) auto
    ultimately show ?thesis by (metis diff_ge_0_iff_ge)
  qed
  show ?thesis
  proof (cases "b < 0.734 \<or> 0.734 \<le> a")
    case True
    with a ab quad [of a b] show ?thesis by (auto simp: mon_level_raw_def)
  next
    case False
    with a ab quad [of a "0.734"] show ?thesis by (simp add: mon_level_raw_def)
  qed
qed

section \<open>Quest layer\<close>

datatype quest_layer = UNKNOWN | AR | NON_AR

definition determine_current_quest_layer :: "int list option \<Rightarrow> quest_layer result" where
  "determine_current_quest_layer quests_held =
     (case quests_held of
        None \<Rightarrow> Inl ValueError
      | Some qs \<Rightarrow> if 46 \<in> set qs then Inr NON_AR else Inr AR)"

section \<open>Despawn time\<close>

text \<open>
  \<open>datetime.replace(minute, second)\<close> on an aware UTC date-time given by its epoch second, then
  \<open>int(despawn.timestamp())\<close>. Values outside 0..59 raise.
\<close>

definition replace_min_sec :: "int \<Rightarrow> int \<Rightarrow> int \<Rightarrow> int result" where
  "replace_min_sec ts m s =
     (if 0 \<le> m \<and> m < 60 \<and> 0 \<le> s \<and> s < 60 then Inr (ts div 3600 * 3600 + m * 60 + s) else Inl ValueError)"

definition minute_of :: "int \<Rightarrow> int" where
  "minute_of ts = ts div 60 mod 60"

definition despawn_at :: "int \<Rightarrow> int \<Rightarrow> int \<Rightarrow> int result" where
  "despawn_at ts m s =
     res_bind (replace_min_sec ts m s)
       (\<lambda>despawn. if minute_of ts > minute_of despawn then Inr (despawn + 3600) else Inr despawn)"

text \<open>\<open>now\<close> is \<open>time.time()\<close>; \<open>timestamp\<close> is in whole seconds. \<open>hrmi[1]\<close> needs a second field.\<close>

definition gen_despawn_timestamp :: "real \<Rightarrow> string option \<Rightarrow> int \<Rightarrow> int \<Rightarrow> int result" where
  "gen_despawn_timestamp now known_despawn timestamp default_time_left_minutes =
     (case known_despawn of
        None \<Rightarrow> Inr (\<lfloor>now + of_int (default_time_left_minutes * 60)\<rfloor> div 60 * 60)
      | Some k \<Rightarrow>
          if k = [] then Inr (\<lfloor>now + of_int (default_time_left_minutes * 60)\<rfloor> div 60 * 60)
          else (case split_char (CHR '':'') k of
                  h # mi # _ \<Rightarrow>
                    res_bind (parse_int h) (\<lambda>m. res_bind (parse_int mi) (\<lambda>s. despawn_at timestamp m s))
                | [h] \<Rightarrow> res_bind (parse_int h) (\<lambda>_. Inl IndexError)
                | [] \<Rightarrow> Inl IndexError))"

section \<open>Forms\<close>

text \<open>The table keeps the decimal strings of the source as the numbers they spell.\<close>

definition form_table :: "(int \<times> (int \<times> int) list) list" where
  "form_table =
    [
     (19, [(45, 0), (46, 61)]),
     (20, [(47, 0), (48, 61)]),
     (26, [(49, 0), (50, 61)]),
     (27, [(51, 0), (52, 61)]),
     (28, [(53, 0), (54, 61)]),
     (37, [(55, 0), (56, 61)]),
     (38, [(57, 0), (58, 61)]),
     (50, [(59, 0), (60, 61)]),
     (51, [(61, 0), (62, 61)]),
     (52, [(63, 0), (64, 61)]),
     (53, [(65, 0), (66, 61)]),
     (74, [(67, 0), (68, 61)]),
     (75, [(69, 0), (70, 61)]),
     (76, [(71, 0), (72, 61)]),
     (88, [(73, 0), (74, 61)]),
     (89, [(75, 0), (76, 61)]),
     (103, [(77, 0), (78, 61)]),
     (105, [(79, 0), (80, 61)]),
     (150, [(133, 0), (134, 0), (135, 0)]),
     (201, [(1, 11), (2, 12), (3, 13), (4, 14), (5, 15), (6, 16), (7, 17), (8, 18), (9, 19),
         (10, 20), (11, 21), (12, 22), (13, 23), (14, 24), (15, 25), (16, 26), (17, 27),
         (18, 28), (19, 29), (20, 30), (21, 31), (22, 32), (23, 33), (24, 34), (25, 35),
         (26, 36), (27, 37), (28, 38)]),
     (327, [(121, 0), (122, 11), (123, 12), (124, 13), (125, 14), (126, 15), (127, 16),
         (128, 17), (129, 18), (130, 19), (131, 0), (132, 0)]),
     (351, [(29, 11), (30, 12), (31, 13), (32, 14)]),
     (386, [(33, 11), (34, 12), (35, 13), (36, 14)]),
     (412, [(118, 11), (119, 12), (120, 13)]),
     (413, [(87, 11), (88, 12), (89, 13)]),
     (421, [(94, 11), (95, 12)]),
     (422, [(96, 11), (97, 12)]),
     (423, [(98, 11), (99, 12)]),
     (479, [(81, 0), (82, 14), (83, 15), (84, 16), (85, 13), (86, 12)]),
     (487, [(90, 11), (91, 12)]),
     (492, [(92, 11), (93, 12)]),
     (493, [(100, 0), (101, 12), (102, 13), (103, 14), (104, 15), (105, 16), (106, 17),
         (107, 18), (108, 19), (109, 20), (110, 21), (111, 22), (112, 23), (113, 24),
         (114, 25), (115, 26), (116, 27), (117, 28)])]"

definition form_mapper :: "int \<Rightarrow> int \<Rightarrow> int" where
  "form_mapper mon_id form_id =
     (case map_of form_table mon_id of
        None \<Rightarrow> 0
      | Some mon \<Rightarrow> (case map_of mon form_id of None \<Rightarrow> 0 | Some f \<Rightarrow> f))"

section \<open>Ditto check\<close>

text \<open>What the check reads of the encounter; a missing field is \<open>None\<close>.\<close>

record encounter_mon =
  weather_boosted_value :: "int option"
  individual_attack :: "int option"
  individual_defense :: "int option"
  individual_stamina :: "int option"
  cp_multiplier :: "real option"

definition lt_opt :: "'a::ord option \<Rightarrow> 'a \<Rightarrow> bool result" where
  "lt_opt x b = (case x of None \<Rightarrow> Inl TypeError | Some a \<Rightarrow> Inr (a < b))"

definition gt_opt :: "'a::ord option \<Rightarrow> 'a \<Rightarrow> bool result" where
  "gt_opt x b = (case x of None \<Rightarrow> Inl TypeError | Some a \<Rightarrow> Inr (b < a))"

definition is_mon_ditto :: "encounter_mon \<Rightarrow> bool result" where
  "is_mon_ditto p =
     res_bind (lt_opt (individual_attack p) 4) (\<lambda>valid_atk.
     res_bind (lt_opt (individual_defense p) 4) (\<lambda>valid_def.
     res_bind (lt_opt (individual_stamina p) 4) (\<lambda>valid_sta.
     res_bind (if valid_atk \<or> valid_def \<or> valid_sta then Inr True else lt_opt (cp_multiplier p) 0.3) (\<lambda>valid_boost_attrs.
       (case weather_boosted_value p of
          None \<Rightarrow> Inr False
        | Some weather_boost \<Rightarrow>
            if weather_boost > 0 \<and> valid_boost_attrs then Inr True
            else if weather_boost = 0
            then res_bind (gt_opt (cp_multiplier p) 0.733) (\<lambda>b. Inr b)
            else Inr False)))))"

section \<open>Cooldown\<close>

text \<open>The \<open>if\<close>/\<open>elif\<close> chain: the first threshold at or below the distance gives the speed.\<close>

definition cooldown_table :: "(real \<times> real) list" where
  "cooldown_table =
    [(1335000, 180.43),
     (1100000, 176.2820513),
     (1020000, 168.3168317),
     (1007000, 171.2585034),
     (948000, 166.3157895),
     (900000, 164.8351648),
     (897000, 166.1111111),
     (839000, 158.9015152),
     (802000, 159.1269841),
     (751000, 152.6422764),
     (700000, 151.5151515),
     (650000, 146.3963964),
     (600000, 142.8571429),
     (550000, 138.8888889),
     (500000, 134.4086022),
     (450000, 129.3103448),
     (400000, 123.4567901),
     (350000, 116.6666667),
     (328000, 113.8888889),
     (300000, 108.6956522),
     (250000, 101.6260163),
     (201000, 90.54054054),
     (175000, 85.78431373),
     (150000, 78.125),
     (125000, 71.83908046),
     (100000, 64.1025641),
     (90000, 60),
     (80000, 55.55555556),
     (70000, 50.72463768),
     (60000, 47.61904762),
     (45000, 39.47368421),
     (40000, 35.0877193),
     (35000, 32.40740741),
     (30000, 29.41176471),
     (25000, 27.77777778),
     (20000, 27.77777778),
     (15000, 27.77777778),
     (10000, 23.80952381),
     (8000, 26.66666667),
     (5000, 22.34137623),
     (4000, 22.22222222)]"

definition cooldown_speed :: "real \<Rightarrow> real \<Rightarrow> real" where
  "cooldown_speed distance speed =
     (case find (\<lambda>(t, v). t \<le> distance) cooldown_table of None \<Rightarrow> speed | Some (t, v) \<Rightarrow> v)"

definition calculate_cooldown :: "real \<Rightarrow> real \<Rightarrow> real result" where
  "calculate_cooldown distance speed =
     (let speed = cooldown_speed distance speed
      in if speed = 0 then Inl ZeroDivisionError
         else let delay_used = distance / speed
              in Inr (if delay_used > 7200 then 7200 else delay_used))"

lemma cooldown_table_speeds: "(t, v) \<in> set cooldown_table \<Longrightarrow> 22 \<le> v \<and> v \<le> 180.43 \<and> 4000 \<le> t"
  by (auto simp: cooldown_table_def)

lemma cooldown_speed_long:
  assumes "4000 \<le> d"
  shows "22 \<le> cooldown_speed d s \<and> cooldown_speed d s \<le> 180.43"
proof -
  have "(4000, 22.22222222) \<in> set cooldown_table"
    by (simp add: cooldown_table_def)
  with assms have "find (\<lambda>(t, v). t \<le> d) cooldown_table \<noteq> None"
    by (auto simp: find_None_iff)
  then obtain t v where f: "find (\<lambda>(t, v). t \<le> d) cooldown_table = Some (t, v)" by auto
  then have "(t, v) \<in> set cooldown_table"
    by (auto simp: find_Some_iff in_set_conv_nth)
  with f show ?thesis using cooldown_table_speeds by (simp add: cooldown_speed_def)
qed

lemma cooldown_speed_short:
  assumes "d < 4000"
  shows "cooldown_speed d s = s"
proof -
  have "\<forall>(t, v) \<in> set cooldown_table. \<not> t \<le> d"
    using cooldown_table_speeds assms by fastforce
  then have "find (\<lambda>(t, v). t \<le> d) cooldown_table = None"
    by (auto simp: find_None_iff)
  then show ?thesis by (simp add: cooldown_speed_def)
qed

lemma cooldown_speed_pos: "0 < s \<Longrightarrow> 0 < cooldown_speed d s"
  using cooldown_speed_long [of d s] cooldown_speed_short [of d s] by (cases "4000 \<le> d") auto

lemma calculate_cooldown_returns: "0 < s \<Longrightarrow> calculate_cooldown d s = Inr (min 7200 (d / cooldown_speed d s))"
  using cooldown_speed_pos [of s d] by (auto simp: calculate_cooldown_def Let_def min_def)

text \<open>
  The cooldown lies between zero and two hours: a short way is walked at the given speed, a long one
  at between 22 and 180.43 m/s, and from 1299096 m on it is the full two hours.
\<close>

theorem cooldown_bounds:
  assumes "0 < s" "0 \<le> d"
  shows "\<exists>c. calculate_cooldown d s = Inr c \<and> 0 \<le> c \<and> c \<le> 7200 \<and>
    (if d < 4000 then c = min 7200 (d / s) else min 7200 (d / 180.43) \<le> c \<and> c \<le> min 7200 (d / 22))
    \<and> (1299096 \<le> d \<longrightarrow> c = 7200)"
proof -
  let ?v = "cooldown_speed d s"
  have v: "0 < ?v" using cooldown_speed_pos [OF assms(1)] .
  have long: "d / 180.43 \<le> d / ?v \<and> d / ?v \<le> d / 22" if "4000 \<le> d"
    using cooldown_speed_long [OF that, of s] assms(2) v by (intro conjI divide_left_mono mult_pos_pos) simp_all
  have "7200 \<le> d / ?v" if "1299096 \<le> d"
  proof -
    have "7200 \<le> d / 180.43" using that by (simp add: field_simps)
    with long that show ?thesis by linarith
  qed
  note full = this
  have c: "calculate_cooldown d s = Inr (min 7200 (d / ?v))" by (rule calculate_cooldown_returns [OF assms(1)])
  show ?thesis
  proof (cases "d < 4000")
    case True
    with c v assms show ?thesis by (simp add: cooldown_speed_short)
  next
    case False
    then have l: "d / 180.43 \<le> d / ?v" "d / ?v \<le> d / 22" using long by simp_all
    have "min 7200 (d / 180.43) \<le> min 7200 (d / ?v)" by (rule min.mono [OF order_refl l(1)])
    moreover have "min 7200 (d / ?v) \<le> min 7200 (d / 22)" by (rule min.mono [OF order_refl l(2)])
    ultimately show ?thesis
      using c v full False assms(2) by (intro exI [of _ "min 7200 (d / ?v)"]) simp
  qed
qed

lemma cooldown_bounds_witness:
  "\<exists>c. calculate_cooldown 2000000 16.67 = Inr c \<and> c = 7200"
  using cooldown_bounds [of "16.67" 2000000] by auto

text \<open>
  A longer way can have the shorter cooldown: the table steps up the speed at 897000 m, so that one
  metre more takes off about four minutes.
\<close>

theorem cooldown_not_monotone:
  "\<exists>d d' c c'. d < d' \<and> calculate_cooldown d 16.67 = Inr c \<and> calculate_cooldown d' 16.67 = Inr c' \<and> c' + 240 < c"
proof -
  have "calculate_cooldown 896999 16.67 = Inr (min 7200 (896999 / cooldown_speed 896999 16.67))"
    "calculate_cooldown 897000 16.67 = Inr (min 7200 (897000 / cooldown_speed 897000 16.67))"
    by (simp_all add: calculate_cooldown_returns)
  moreover have "min 7200 (897000 / cooldown_speed 897000 16.67) + 240 < min 7200 (896999 / cooldown_speed 896999 16.67)"
    by (simp add: cooldown_speed_def cooldown_table_def)
  ultimately show ?thesis
    by (intro exI [of _ 896999] exI [of _ 897000] exI [of _ "min 7200 (896999 / cooldown_speed 896999 16.67)"]
        exI [of _ "min 7200 (897000 / cooldown_speed 897000 16.67)"] conjI) simp_all
qed

text \<open>
  A despawn time known as minute and second is put into the hour of the sighting or the next one: it has that minute and
  second, lies less than an hour ahead, and is in the past only within the minute of the sighting.
\<close>

theorem despawn_within_hour:
  assumes "despawn_at ts m s = Inr r"
  shows "r mod 3600 = m * 60 + s \<and> r < ts + 3600 \<and> ts - 60 < r \<and> (ts \<le> r \<or> minute_of ts = m)"
proof -
  have v: "0 \<le> m" "m < 60" "0 \<le> s" "s < 60"
    using assms by (auto simp: despawn_at_def replace_min_sec_def split: if_splits)
  define h where "h = ts div 3600"
  define b where "b = ts mod 3600 div 60"
  define c where "c = ts mod 60"
  have ts: "ts = h * 3600 + b * 60 + c" 
  proof -
    have "ts mod 3600 mod 60 = ts mod 60" by (rule mod_mod_cancel) simp
    then have "ts mod 3600 = b * 60 + c" unfolding b_def c_def using div_mult_mod_eq [of "ts mod 3600" 60] by simp
    then show ?thesis unfolding h_def using div_mult_mod_eq [of ts 3600] by simp
  qed
  have c: "0 \<le> c" "c < 60" unfolding c_def by simp_all
  have b: "0 \<le> b" "b < 60"
  proof -
    have "0 \<le> ts mod 3600" "ts mod 3600 < 3600" by simp_all
    then show "0 \<le> b" "b < 60" unfolding b_def by linarith+
  qed
  have "ts = c + (h * 60 + b) * 60" using ts by simp
  then have "ts div 60 = h * 60 + b" using c by (simp only: div_mult_self1)
  then have mo: "minute_of ts = b" using b by (simp add: minute_of_def)
  have "h * 3600 + m * 60 + s = s + (h * 60 + m) * 60" by simp
  then have "(h * 3600 + m * 60 + s) div 60 = h * 60 + m" using v by (simp only: div_mult_self1)
  then have "(h * 3600 + m * 60 + s) div 60 mod 60 = m" using v by simp
  then have md: "minute_of (h * 3600 + m * 60 + s) = m" by (simp add: minute_of_def)
  have r: "r = (if m < b then h * 3600 + m * 60 + s + 3600 else h * 3600 + m * 60 + s)"
    using assms v by (simp add: despawn_at_def replace_min_sec_def mo md flip: h_def split: if_splits)
  have "(m * 60 + s) mod 3600 = m * 60 + s" using v by (simp add: mod_pos_pos_trivial)
  moreover have "r = (m * 60 + s) + (if m < b then h + 1 else h) * 3600" unfolding r by simp
  ultimately have "r mod 3600 = m * 60 + s" by (simp only: mod_mult_self1)
  moreover have "r < ts + 3600" "ts - 60 < r" using v b c ts r by (auto split: if_splits)
  moreover have "ts \<le> r \<or> b = m" using v b c ts r by (auto split: if_splits)
  ultimately show ?thesis by (simp add: mo)
qed

lemma despawn_within_hour_witness:
  "despawn_at 7000 30 15 = Inr 9015 \<and> (9015::int) mod 3600 = 30 * 60 + 15 \<and> (9015::int) < 7000 + 3600"
proof -
  have d: "despawn_at 7000 30 15 = Inr 9015" by (simp add: despawn_at_def replace_min_sec_def minute_of_def)
  from despawn_within_hour [OF d] d show ?thesis by simp
qed

end
