(* ===== verification/MitmData.thy ===== *)
theory MitmData
  imports Geo PyStr
begin

text \<open>
  The latest data a device sent: \<open>LatestMitmDataEntry\<close>, \<open>LatestMitmDataHolder\<close>, \<open>PlayerData\<close> and
  \<open>MitmDataHandler\<close> of \<open>mapadroid/data_handler/mitm_data\<close>. An operation that can raise returns the
  state it leaves behind together with the exception, since Python keeps the mutations made before
  a raise. \<open>MitmMapper\<close> only forwards to the handler.
\<close>

section \<open>LatestMitmDataEntry and LatestMitmDataHolder\<close>

record latest_entry =
  e_location :: "location option"
  timestamp_received :: "int option"
  timestamp_of_data_retrieval :: "int option"
  e_data :: json

type_synonym 'k holder = "('k, latest_entry) dict"

definition mk_entry :: "location option \<Rightarrow> int option \<Rightarrow> int option \<Rightarrow> json \<Rightarrow> latest_entry" where
  "mk_entry loc rec retr data =
     \<lparr>e_location = loc, timestamp_received = rec, timestamp_of_data_retrieval = retr, e_data = data\<rparr>"

text \<open>
  The guard of \<open>update\<close>: \<open>Inr True\<close> ignores the update, and comparing \<open>None\<close> with a number raises.
\<close>

definition holder_ignores :: "latest_entry option \<Rightarrow> int option \<Rightarrow> bool result" where
  "holder_ignores latest retr =
     (case latest of
        None \<Rightarrow> Inr False
      | Some e \<Rightarrow>
          if \<not> truthy_int (timestamp_received e) then Inr False
          else if \<not> truthy_int retr then Inr True
          else (case (timestamp_of_data_retrieval e, retr) of
                  (Some old, Some new) \<Rightarrow> Inr (old > new)
                | _ \<Rightarrow> Inl TypeError))"

definition holder_update ::
    "'k \<Rightarrow> json \<Rightarrow> int option \<Rightarrow> int option \<Rightarrow> location option \<Rightarrow> 'k holder \<Rightarrow> 'k holder result" where
  "holder_update key value rec retr loc entries =
     (case holder_ignores (map_of entries key) retr of
        Inl e \<Rightarrow> Inl e
      | Inr True \<Rightarrow> Inr entries
      | Inr False \<Rightarrow>
          (let entries' = (if key \<in> fst ` set entries then AList.delete key entries else entries)
           in Inr (AList.update key (mk_entry loc rec retr value) entries')))"

definition holder_get_latest :: "'k \<Rightarrow> 'k holder \<Rightarrow> latest_entry option" where
  "holder_get_latest key entries = map_of entries key"

definition holder_get_all :: "'k holder \<Rightarrow> 'k holder" where
  "holder_get_all entries = entries"

lemma holder_update_other:
  "holder_update key v rec retr loc h = Inr h' \<Longrightarrow> x \<noteq> key \<Longrightarrow> map_of h' x = map_of h x"
  by (auto simp: holder_update_def dict_simps Let_def split: sum.splits bool.splits if_splits)

lemma holder_update_wf: "holder_update key v rec retr loc h = Inr h' \<Longrightarrow> dict_wf h \<Longrightarrow> dict_wf h'"
  by (auto simp: holder_update_def Let_def split: sum.splits bool.splits if_splits)

lemma holder_update_at:
  assumes "holder_update key v rec retr loc h = Inr h'"
  shows "map_of h' key =
    (if holder_ignores (map_of h key) retr = Inr True then map_of h key else Some (mk_entry loc rec retr v))"
  using assms by (auto simp: holder_update_def dict_simps Let_def split: sum.splits bool.splits if_splits)

text \<open>Stamped entries carry a reception time and a retrieval time, as those the handler writes do.\<close>

definition stamped :: "latest_entry \<Rightarrow> bool" where
  "stamped e \<longleftrightarrow> truthy_int (timestamp_received e) \<and> truthy_int (timestamp_of_data_retrieval e)"

definition retrieval :: "latest_entry \<Rightarrow> int" where
  "retrieval e = (case timestamp_of_data_retrieval e of None \<Rightarrow> 0 | Some t \<Rightarrow> t)"

lemma holder_update_stamped:
  assumes "truthy_int rec" and "truthy_int retr"
    and "\<And>e. map_of h key = Some e \<Longrightarrow> stamped e"
  shows "\<exists>h'. holder_update key v rec retr loc h = Inr h' \<and>
    map_of h' key = (let new = mk_entry loc rec retr v in
      case map_of h key of None \<Rightarrow> Some new
      | Some e \<Rightarrow> Some (if retrieval e > retrieval new then e else new))"
proof (cases "map_of h key")
  case None
  then show ?thesis
    using assms by (auto simp: holder_update_def holder_ignores_def Let_def dict_simps)
next
  case (Some e)
  with assms(3) obtain old where "stamped e" "timestamp_of_data_retrieval e = Some old" "old \<noteq> 0"
    "truthy_int (timestamp_received e)"
    by (auto simp: stamped_def truthy_int_Some)
  with Some assms(1,2) show ?thesis
    by (cases retr) (auto simp: holder_update_def holder_ignores_def Let_def dict_simps
        retrieval_def mk_entry_def)
qed

section \<open>PlayerData\<close>

record player_data =
  pd_worker :: string
  pd_level :: int
  poke_stop_visits :: int
  injected :: bool
  latest_data_holder :: "string holder"
  last_cell_ids :: "json list"
  last_possibly_moved :: "int option"
  last_known_location :: "location option"
  quests_held :: "int list option"

definition PlayerData_init :: "string \<Rightarrow> player_data" where
  "PlayerData_init origin =
     \<lparr>pd_worker = origin, pd_level = 0, poke_stop_visits = 0, injected = False, latest_data_holder = [],
      last_cell_ids = [], last_possibly_moved = Some 0, last_known_location = None, quests_held = None\<rparr>"

definition pd_set_injection_status :: "bool \<Rightarrow> player_data \<Rightarrow> player_data" where
  "pd_set_injection_status status p = p\<lparr>injected := status\<rparr>"

definition pd_set_level :: "int \<Rightarrow> player_data \<Rightarrow> player_data" where
  "pd_set_level level p = p\<lparr>pd_level := level\<rparr>"

definition pd_set_pokestop_visits :: "int \<Rightarrow> player_data \<Rightarrow> player_data" where
  "pd_set_pokestop_visits visits p = p\<lparr>poke_stop_visits := visits\<rparr>"

definition pd_set_quests_held :: "int list option \<Rightarrow> player_data \<Rightarrow> player_data" where
  "pd_set_quests_held qs p = p\<lparr>quests_held := qs\<rparr>"

definition get_specific_latest_data :: "string \<Rightarrow> int option \<Rightarrow> player_data \<Rightarrow> latest_entry option" where
  "get_specific_latest_data key timestamp_earliest p =
     (case holder_get_latest key (latest_data_holder p) of
        None \<Rightarrow> None
      | Some e \<Rightarrow>
          if (case (timestamp_earliest, timestamp_of_data_retrieval e) of
                (Some a, Some b) \<Rightarrow> a \<noteq> 0 \<and> b \<noteq> 0 \<and> a \<ge> b
              | _ \<Rightarrow> False)
          then None else Some e)"

text \<open>The cell ids of a GMO: \<open>[cell['id'] for cell in cells]\<close>.\<close>

definition cell_ids_of :: "json \<Rightarrow> json list result" where
  "cell_ids_of cells =
     (case cells of
        JList cs \<Rightarrow> res_map (\<lambda>cell. json_index cell ''id'') cs
      | JStr _ \<Rightarrow> Inl TypeError
      | JDict _ \<Rightarrow> Inl TypeError
      | _ \<Rightarrow> Inl TypeError)"

definition parse_gmo_for_location ::
    "json \<Rightarrow> int option \<Rightarrow> location option \<Rightarrow> player_data \<Rightarrow> player_data result" where
  "parse_gmo_for_location gmo_payload timestamp location p =
     res_bind (json_get gmo_payload ''cells'' JNull) (\<lambda>cells.
       if \<not> truthy cells then Inr p
       else res_bind (cell_ids_of cells) (\<lambda>cell_ids.
         let p1 = (if set cell_ids \<inter> set (last_cell_ids p) = {}
                   then p\<lparr>last_cell_ids := cell_ids, last_possibly_moved := timestamp\<rparr> else p)
         in Inr (case location of None \<Rightarrow> p1 | Some l \<Rightarrow> p1\<lparr>last_known_location := Some l\<rparr>)))"

definition GMO_KEY :: string where
  "GMO_KEY = ''106''"

definition pd_update_latest ::
    "string \<Rightarrow> json \<Rightarrow> int option \<Rightarrow> int option \<Rightarrow> location option \<Rightarrow> player_data \<Rightarrow>
     player_data \<times> py_error option" where
  "pd_update_latest key value rec retr location p =
     (case holder_update key value rec retr location (latest_data_holder p) of
        Inl e \<Rightarrow> (p, Some e)
      | Inr h \<Rightarrow>
          (let p1 = p\<lparr>latest_data_holder := h\<rparr>
           in if key = GMO_KEY
              then (case parse_gmo_for_location value rec location p1 of
                      Inl e \<Rightarrow> (p1, Some e)
                    | Inr p2 \<Rightarrow> (p2\<lparr>injected := True\<rparr>, None))
              else (p1, None)))"

lemma parse_gmo_holder:
  "parse_gmo_for_location v t l p = Inr p' \<Longrightarrow> latest_data_holder p' = latest_data_holder p \<and>
     pd_level p' = pd_level p \<and> poke_stop_visits p' = poke_stop_visits p \<and> quests_held p' = quests_held p \<and>
     pd_worker p' = pd_worker p"
  by (auto simp: parse_gmo_for_location_def res_bind_Inr Let_def split: if_splits option.splits)

lemma pd_update_latest_holder:
  "latest_data_holder (fst (pd_update_latest key v rec retr l p)) =
     (case holder_update key v rec retr l (latest_data_holder p) of
        Inl _ \<Rightarrow> latest_data_holder p | Inr h \<Rightarrow> h)"
  by (auto simp: pd_update_latest_def Let_def parse_gmo_holder split: sum.splits)

section \<open>MitmDataHandler\<close>

type_synonym mitm_state = "(string, player_data) dict"

definition handler_set_injection_status :: "string \<Rightarrow> bool \<Rightarrow> mitm_state \<Rightarrow> mitm_state" where
  "handler_set_injection_status worker status = with_entry PlayerData_init (pd_set_injection_status status) worker"

definition handler_set_pokestop_visits :: "string \<Rightarrow> int \<Rightarrow> mitm_state \<Rightarrow> mitm_state" where
  "handler_set_pokestop_visits worker visits = with_entry PlayerData_init (pd_set_pokestop_visits visits) worker"

definition handler_set_level :: "string \<Rightarrow> int \<Rightarrow> mitm_state \<Rightarrow> mitm_state" where
  "handler_set_level worker level = with_entry PlayerData_init (pd_set_level level) worker"

definition handler_set_quests_held :: "string \<Rightarrow> int list option \<Rightarrow> mitm_state \<Rightarrow> mitm_state" where
  "handler_set_quests_held worker qs = with_entry PlayerData_init (pd_set_quests_held qs) worker"

text \<open>The getters create the entry as well, so they return the new table.\<close>

definition handler_get :: "(player_data \<Rightarrow> 'a) \<Rightarrow> string \<Rightarrow> mitm_state \<Rightarrow> 'a \<times> mitm_state" where
  "handler_get read worker d = (read (entry_at PlayerData_init worker d), ensure PlayerData_init worker d)"

definition handler_get_injection_status :: "string \<Rightarrow> mitm_state \<Rightarrow> bool \<times> mitm_state" where
  "handler_get_injection_status = handler_get injected"

definition handler_get_level :: "string \<Rightarrow> mitm_state \<Rightarrow> int \<times> mitm_state" where
  "handler_get_level = handler_get pd_level"

definition handler_get_poke_stop_visits :: "string \<Rightarrow> mitm_state \<Rightarrow> int \<times> mitm_state" where
  "handler_get_poke_stop_visits = handler_get poke_stop_visits"

definition handler_get_last_possibly_moved :: "string \<Rightarrow> mitm_state \<Rightarrow> int option \<times> mitm_state" where
  "handler_get_last_possibly_moved = handler_get last_possibly_moved"

definition handler_get_last_known_location :: "string \<Rightarrow> mitm_state \<Rightarrow> location option \<times> mitm_state" where
  "handler_get_last_known_location = handler_get last_known_location"

definition handler_get_quests_held :: "string \<Rightarrow> mitm_state \<Rightarrow> int list option \<times> mitm_state" where
  "handler_get_quests_held = handler_get quests_held"

definition handler_request_latest ::
    "string \<Rightarrow> string \<Rightarrow> int option \<Rightarrow> mitm_state \<Rightarrow> latest_entry option \<times> mitm_state" where
  "handler_request_latest worker key timestamp_earliest =
     handler_get (get_specific_latest_data key timestamp_earliest) worker"

definition handler_get_full_latest_data :: "string \<Rightarrow> mitm_state \<Rightarrow> string holder \<times> mitm_state" where
  "handler_get_full_latest_data = handler_get (\<lambda>p. holder_get_all (latest_data_holder p))"

text \<open>\<open>now\<close> is \<open>int(time.time())\<close>; a missing time stamp is replaced by it.\<close>

definition stamp_or_now :: "int \<Rightarrow> int option \<Rightarrow> int option" where
  "stamp_or_now now t = (case t of None \<Rightarrow> Some now | Some _ \<Rightarrow> t)"

definition handler_update_latest ::
    "int \<Rightarrow> string \<Rightarrow> string \<Rightarrow> json \<Rightarrow> int option \<Rightarrow> int option \<Rightarrow> location option \<Rightarrow> mitm_state \<Rightarrow>
     mitm_state \<times> py_error option" where
  "handler_update_latest now worker key value raw receiver location d =
     (let d1 = ensure PlayerData_init worker d;
          (p, err) = pd_update_latest key value (stamp_or_now now raw) (stamp_or_now now receiver) location
                       (entry_at PlayerData_init worker d)
      in (AList.update worker p d1, err))"

lemma handler_update_latest_table:
  "fst (handler_update_latest now w k v raw recv l d) =
     with_entry PlayerData_init
       (\<lambda>p. fst (pd_update_latest k v (stamp_or_now now raw) (stamp_or_now now recv) l p)) w d"
  by (simp add: handler_update_latest_def with_entry_def Let_def split_beta)

text \<open>
  Invariant of a worker's entry: the name it was created for, a well-formed holder, and no pending
  exception source: every stored entry is stamped.
\<close>

definition pd_ok :: "string \<Rightarrow> player_data \<Rightarrow> bool" where
  "pd_ok w p \<longleftrightarrow> pd_worker p = w \<and> dict_wf (latest_data_holder p) \<and>
     (\<forall>k e. map_of (latest_data_holder p) k = Some e \<longrightarrow> stamped e)"

definition pd_op :: "(player_data \<Rightarrow> player_data) \<Rightarrow> bool" where
  "pd_op f \<longleftrightarrow> (\<exists>b. f = pd_set_injection_status b) \<or> (\<exists>i. f = pd_set_level i) \<or>
     (\<exists>i. f = pd_set_pokestop_visits i) \<or> (\<exists>q. f = pd_set_quests_held q) \<or>
     (\<exists>k v rec retr l. truthy_int rec \<and> truthy_int retr \<and> f = (\<lambda>p. fst (pd_update_latest k v rec retr l p)))"

lemma stamped_mk_entry: "truthy_int rec \<Longrightarrow> truthy_int retr \<Longrightarrow> stamped (mk_entry l rec retr v)"
  by (simp add: stamped_def mk_entry_def)

lemma holder_update_stamped_all:
  assumes h: "holder_update k v rec retr l h = Inr h'" and s: "truthy_int rec" "truthy_int retr"
    and inv: "\<forall>k e. map_of h k = Some e \<longrightarrow> stamped e"
  shows "\<forall>k e. map_of h' k = Some e \<longrightarrow> stamped e"
proof (intro allI impI)
  fix k' e
  assume "map_of h' k' = Some e"
  then show "stamped e"
    using holder_update_other [OF h, of k'] holder_update_at [OF h] inv stamped_mk_entry [OF s]
    by (cases "k' = k") (auto split: if_splits)
qed

lemma pd_update_latest_worker: "pd_worker (fst (pd_update_latest k v rec retr l p)) = pd_worker p"
  by (auto simp: pd_update_latest_def Let_def parse_gmo_holder split: sum.splits)

lemma pd_update_latest_ok:
  assumes "truthy_int rec" "truthy_int retr" "pd_ok w p"
  shows "pd_ok w (fst (pd_update_latest k v rec retr l p))"
proof (cases "holder_update k v rec retr l (latest_data_holder p)")
  case (Inl e)
  then show ?thesis using assms by (simp add: pd_update_latest_def)
next
  case (Inr h)
  with assms show ?thesis
    using holder_update_wf [OF Inr] holder_update_stamped_all [OF Inr assms(1,2)]
    by (simp add: pd_ok_def pd_update_latest_holder pd_update_latest_worker)
qed

interpretation mitm_table: entry_table PlayerData_init pd_ok pd_op
proof unfold_locales
  show "pd_ok k (PlayerData_init k)" for k
    by (simp add: pd_ok_def PlayerData_init_def)
  show "pd_op f \<Longrightarrow> pd_ok k v \<Longrightarrow> pd_ok k (f v)" for f k v
    by (auto simp: pd_op_def pd_update_latest_ok)
      (simp_all add: pd_ok_def pd_set_injection_status_def pd_set_level_def pd_set_pokestop_visits_def
        pd_set_quests_held_def)
qed

lemma pd_op_intros [intro, simp]:
  "pd_op (pd_set_injection_status b)" "pd_op (pd_set_level i)" "pd_op (pd_set_pokestop_visits j)"
  "pd_op (pd_set_quests_held q)"
  "truthy_int rec \<Longrightarrow> truthy_int retr \<Longrightarrow> pd_op (\<lambda>p. fst (pd_update_latest k v rec retr l p))"
  unfolding pd_op_def by blast+

section \<open>Runs of the handler\<close>

text \<open>The messages the other components send to the handler, and a run over a list of them.\<close>

datatype mitm_op =
    SetInjection string bool
  | SetLevel string int
  | SetVisits string int
  | SetQuests string "int list option"
  | Update int string string json "int option" "int option" "location option"
  | Read string

fun mitm_step :: "mitm_op \<Rightarrow> mitm_state \<Rightarrow> mitm_state" where
  "mitm_step (SetInjection w b) d = handler_set_injection_status w b d"
| "mitm_step (SetLevel w i) d = handler_set_level w i d"
| "mitm_step (SetVisits w i) d = handler_set_pokestop_visits w i d"
| "mitm_step (SetQuests w q) d = handler_set_quests_held w q d"
| "mitm_step (Update now w k v raw recv l) d = fst (handler_update_latest now w k v raw recv l d)"
| "mitm_step (Read w) d = snd (handler_get injected w d)"

fun op_worker :: "mitm_op \<Rightarrow> string" where
  "op_worker (SetInjection w b) = w"
| "op_worker (SetLevel w i) = w"
| "op_worker (SetVisits w i) = w"
| "op_worker (SetQuests w q) = w"
| "op_worker (Update now w k v raw recv l) = w"
| "op_worker (Read w) = w"

text \<open>Clock and stamps are non-zero.\<close>

fun op_stamped :: "mitm_op \<Rightarrow> bool" where
  "op_stamped (Update now w k v raw recv l) =
     (truthy_int (stamp_or_now now raw) \<and> truthy_int (stamp_or_now now recv))"
| "op_stamped _ = True"

lemmas handler_defs = handler_set_injection_status_def handler_set_level_def
  handler_set_pokestop_visits_def handler_set_quests_held_def handler_get_def

lemma mitm_step_other: "op_worker x \<noteq> w \<Longrightarrow> map_of (mitm_step x d) w = map_of d w"
  by (cases x) (auto simp: handler_defs handler_update_latest_table dict_simps)

lemma mitm_step_ok: "mitm_table.table_ok d \<Longrightarrow> op_stamped x \<Longrightarrow> mitm_table.table_ok (mitm_step x d)"
  by (cases x) (auto simp: handler_defs handler_update_latest_table
      intro!: mitm_table.table_ok_with_entry mitm_table.table_ok_ensure)

section \<open>Properties\<close>

text \<open>A sequence of updates of one key, as the calls arrive.\<close>

fun holder_updates :: "'k \<Rightarrow> (json \<times> int \<times> int \<times> location option) list \<Rightarrow> 'k holder \<Rightarrow> 'k holder result" where
  "holder_updates key [] h = Inr h"
| "holder_updates key ((v, rec, retr, l) # us) h =
     res_bind (holder_update key v (Some rec) (Some retr) l h) (holder_updates key us)"

definition entry_of :: "json \<times> int \<times> int \<times> location option \<Rightarrow> latest_entry" where
  "entry_of u = (case u of (v, rec, retr, l) \<Rightarrow> mk_entry l (Some rec) (Some retr) v)"

text \<open>The specification: the last element among those with the greatest retrieval time.\<close>

fun newest :: "latest_entry list \<Rightarrow> latest_entry \<Rightarrow> latest_entry" where
  "newest [] e = e"
| "newest (x # xs) e = newest xs (if retrieval e > retrieval x then e else x)"

lemma newest_max: "retrieval (newest xs e) = Max (insert (retrieval e) (retrieval ` set xs))"
proof (induction xs arbitrary: e)
  case (Cons x xs)
  have "Max (insert (retrieval (if retrieval e > retrieval x then e else x)) (retrieval ` set xs)) =
      Max (insert (retrieval e) (retrieval ` set (x # xs)))"
    by (cases "xs = []") (auto simp: max_def)
  with Cons.IH show ?case by simp
qed simp

lemma newest_in: "newest xs e \<in> insert e (set xs)"
  by (induction xs arbitrary: e) (auto split: if_splits)

lemma holder_updates_newest:
  assumes "\<forall>u \<in> set us. fst (snd u) \<noteq> 0 \<and> fst (snd (snd u)) \<noteq> 0"
    and "map_of h key = Some e" and "stamped e"
  shows "\<exists>h'. holder_updates key us h = Inr h' \<and> map_of h' key = Some (newest (map entry_of us) e)"
  using assms
proof (induction us arbitrary: h e)
  case (Cons u us)
  obtain v rec retr l where u: "u = (v, rec, retr, l)" by (cases u)
  with Cons.prems(1) have nz: "truthy_int (Some rec)" "truthy_int (Some retr)" by auto
  let ?e = "if retrieval e > retrieval (entry_of u) then e else entry_of u"
  obtain h1 where h1: "holder_update key v (Some rec) (Some retr) l h = Inr h1"
    and m1: "map_of h1 key = Some ?e"
    using holder_update_stamped [OF nz, of h key v l] Cons.prems(2,3) u
    by (auto simp: entry_of_def Let_def)
  have "stamped ?e"
    using Cons.prems(3) stamped_mk_entry [OF nz] u by (auto simp: entry_of_def)
  with Cons.IH [OF _ m1] Cons.prems(1) h1 u show ?case by auto
qed auto

text \<open>
  Whatever the order in which the payloads of one key arrive, the holder keeps the newest: after a
  non-empty sequence of updates with non-zero stamps on a fresh holder, no update raises, and the
  stored entry is one of those received, with the greatest retrieval time of all of them.
\<close>

theorem holder_keeps_newest:
  assumes "us \<noteq> []" and "\<forall>u \<in> set us. fst (snd u) \<noteq> 0 \<and> fst (snd (snd u)) \<noteq> 0"
  shows "\<exists>h e. holder_updates key us [] = Inr h \<and> holder_get_latest key h = Some e \<and>
    e \<in> entry_of ` set us \<and> retrieval e = Max ((\<lambda>u. fst (snd (snd u))) ` set us)"
proof -
  obtain u us' where us: "us = u # us'" using assms(1) by (cases us) auto
  obtain v rec retr l where u: "u = (v, rec, retr, l)" by (cases u)
  define h1 where "h1 = [(key, entry_of u)]"
  have h1: "holder_update key v (Some rec) (Some retr) l [] = Inr h1"
    by (simp add: holder_update_def holder_ignores_def h1_def u entry_of_def)
  have st: "stamped (entry_of u)"
    using assms(2) us u by (auto simp: entry_of_def stamped_def mk_entry_def)
  have all: "\<forall>u \<in> set us'. fst (snd u) \<noteq> 0 \<and> fst (snd (snd u)) \<noteq> 0"
    using assms(2) us by auto
  obtain h where h: "holder_updates key us' h1 = Inr h"
      "map_of h key = Some (newest (map entry_of us') (entry_of u))"
    using holder_updates_newest [OF all _ st, of h1 key] by (auto simp: h1_def)
  have r: "retrieval (entry_of x) = fst (snd (snd x))" for x
    by (cases x) (simp add: entry_of_def retrieval_def mk_entry_def)
  have "newest (map entry_of us') (entry_of u) \<in> entry_of ` set us"
    using newest_in [of "map entry_of us'" "entry_of u"] us by auto
  moreover have "retrieval (newest (map entry_of us') (entry_of u)) = Max ((\<lambda>u. fst (snd (snd u))) ` set us)"
    by (simp add: newest_max r us image_image)
  ultimately show ?thesis
    using h h1 us u by (auto simp: holder_get_latest_def)
qed

theorem holder_keeps_newest_witness:
  "\<exists>h e. holder_updates ''106'' [(JInt 1, 5, 20, None), (JInt 2, 6, 10, None)] [] = Inr h \<and>
     holder_get_latest ''106'' h = Some e \<and> retrieval e = 20"
  using holder_keeps_newest [of "[(JInt 1, 5, 20, None), (JInt 2, 6, 10, None)]" "''106''"] by auto

text \<open>
  Requests are fresh: on every table the handler can reach, a request with a non-zero earliest time
  returns an entry only if it is the stored one and was retrieved strictly later than asked for.
\<close>

theorem request_latest_fresh:
  assumes "mitm_table.table_ok d" and "handler_request_latest w k (Some earliest) d = (Some e, d')"
    and "earliest \<noteq> 0"
  shows "map_of (latest_data_holder (entry_at PlayerData_init w d)) k = Some e \<and> retrieval e > earliest"
proof -
  have r: "map_of (latest_data_holder (entry_at PlayerData_init w d)) k = Some e"
    and n: "\<not> (case timestamp_of_data_retrieval e of Some b \<Rightarrow> b \<noteq> 0 \<and> earliest \<ge> b | None \<Rightarrow> False)"
    using assms(2,3)
    by (auto simp: handler_request_latest_def handler_get_def get_specific_latest_data_def
        holder_get_latest_def split: option.splits if_splits)
  have "stamped e"
    using mitm_table.entry_ok [OF assms(1), of w] r by (auto simp: pd_ok_def)
  with r n show ?thesis
    by (auto simp: stamped_def truthy_int_Some retrieval_def)
qed

theorem request_latest_fresh_witness:
  "let d = fst (handler_update_latest 9 ''dev'' ''102'' (JInt 1) (Some 5) (Some 7) None [])
   in \<exists>e. fst (handler_request_latest ''dev'' ''102'' (Some 6) d) = Some e \<and> retrieval e > 6"
proof -
  let ?d = "fst (handler_update_latest 9 ''dev'' ''102'' (JInt 1) (Some 5) (Some 7) None [])"
  have ok: "mitm_table.table_ok ?d"
    using mitm_step_ok [OF mitm_table.table_ok_empty,
        of "Update 9 ''dev'' ''102'' (JInt 1) (Some 5) (Some 7) None"]
    by (simp add: stamp_or_now_def)
  obtain e d' where "handler_request_latest ''dev'' ''102'' (Some 6) ?d = (Some e, d')"
    by (simp add: handler_request_latest_def handler_get_def handler_update_latest_table dict_simps
        get_specific_latest_data_def holder_get_latest_def pd_update_latest_def GMO_KEY_def
        holder_update_def holder_ignores_def entry_at_def PlayerData_init_def stamp_or_now_def mk_entry_def)
  with request_latest_fresh [OF ok this] show ?thesis
    by (simp add: Let_def)
qed

lemma update_retrieval_mono:
  assumes ok: "pd_ok w p" and s: "truthy_int rec" "truthy_int retr"
    and e: "map_of (latest_data_holder p) k = Some e"
  shows "\<exists>e'. map_of (latest_data_holder (fst (pd_update_latest k' v rec retr l p))) k = Some e' \<and>
    retrieval e \<le> retrieval e'"
proof -
  let ?h = "latest_data_holder p"
  obtain h' where h': "holder_update k' v rec retr l ?h = Inr h'"
    and at: "map_of h' k' = (let new = mk_entry l rec retr v in
      case map_of ?h k' of None \<Rightarrow> Some new | Some e \<Rightarrow> Some (if retrieval e > retrieval new then e else new))"
    using holder_update_stamped [OF s, of ?h k' v l] ok by (auto simp: pd_ok_def)
  show ?thesis
  proof (cases "k = k'")
    case True
    with e at h' show ?thesis by (auto simp: pd_update_latest_holder Let_def)
  next
    case False
    with e holder_update_other [OF h', of k] h' show ?thesis by (simp add: pd_update_latest_holder)
  qed
qed

lemma step_retrieval_mono:
  assumes ok: "mitm_table.table_ok d" and s: "op_stamped x"
    and e: "map_of (latest_data_holder (entry_at PlayerData_init w d)) k = Some e"
  shows "\<exists>e'. map_of (latest_data_holder (entry_at PlayerData_init w (mitm_step x d))) k = Some e' \<and>
    retrieval e \<le> retrieval e'"
proof (cases "op_worker x = w")
  case False
  then show ?thesis using e mitm_step_other [of x w d] by (simp add: entry_at_def)
next
  case True
  show ?thesis
  proof (cases x)
    case (Update now w' k' v raw recv l)
    with True s have w': "w' = w" and st: "truthy_int (stamp_or_now now raw)" "truthy_int (stamp_or_now now recv)"
      by auto
    show ?thesis
      using update_retrieval_mono [OF mitm_table.entry_ok [OF ok] st e, of k' v l]
      by (simp add: Update w' handler_update_latest_table dict_simps)
  qed (use True e in \<open>auto simp: handler_defs dict_simps entry_at_def pd_set_injection_status_def
      pd_set_level_def pd_set_pokestop_visits_def pd_set_quests_held_def\<close>)
qed

text \<open>
  C30. Runs of the handler: over any sequence of stamped operations, a worker's stored entry for a key
  never disappears and its retrieval time never goes back, whatever the other workers do.
\<close>

theorem handler_run_retrieval_mono:
  assumes "mitm_table.table_ok d" and "\<forall>x \<in> set xs. op_stamped x"
    and "map_of (latest_data_holder (entry_at PlayerData_init w d)) k = Some e"
  shows "\<exists>e'. map_of (latest_data_holder (entry_at PlayerData_init w (fold mitm_step xs d))) k = Some e' \<and>
    retrieval e \<le> retrieval e'"
  using assms
proof (induction xs arbitrary: d e)
  case (Cons x xs)
  obtain e1 where e1: "map_of (latest_data_holder (entry_at PlayerData_init w (mitm_step x d))) k = Some e1"
    and le: "retrieval e \<le> retrieval e1"
    using step_retrieval_mono [OF Cons.prems(1) _ Cons.prems(3)] Cons.prems(2) by fastforce
  have "mitm_table.table_ok (mitm_step x d)"
    using Cons.prems by (auto intro: mitm_step_ok)
  from Cons.IH [OF this _ e1] Cons.prems(2) le show ?case by fastforce
qed auto

theorem handler_run_retrieval_mono_witness:
  "let d = mitm_step (Update 9 ''a'' ''102'' (JInt 1) (Some 5) (Some 7) None) []
   in \<exists>e'. map_of (latest_data_holder (entry_at PlayerData_init ''a''
        (fold mitm_step [Update 9 ''a'' ''102'' (JInt 2) (Some 5) (Some 3) None, SetLevel ''b'' 30] d))) ''102'' = Some e'
      \<and> 7 \<le> retrieval e'"
proof -
  let ?d = "mitm_step (Update 9 ''a'' ''102'' (JInt 1) (Some 5) (Some 7) None) []"
  have ok: "mitm_table.table_ok ?d"
    by (rule mitm_step_ok [OF mitm_table.table_ok_empty]) (simp add: stamp_or_now_def)
  have e: "map_of (latest_data_holder (entry_at PlayerData_init ''a'' ?d)) ''102'' =
      Some (mk_entry None (Some 5) (Some 7) (JInt 1))"
    by (simp add: handler_update_latest_table dict_simps pd_update_latest_def GMO_KEY_def
        holder_update_def holder_ignores_def entry_at_def PlayerData_init_def stamp_or_now_def)
  show ?thesis
    using handler_run_retrieval_mono [OF ok _ e,
        of "[Update 9 ''a'' ''102'' (JInt 2) (Some 5) (Some 3) None, SetLevel ''b'' 30]"]
    by (simp add: stamp_or_now_def retrieval_def mk_entry_def Let_def del: mitm_step.simps)
qed

text \<open>
  When a GMO arrives, the time the device possibly moved changes only if the new cells share no id
  with the last ones, and then it is the reception time of that GMO and its cells become the last ones.
\<close>

theorem gmo_moves_only_on_disjoint_cells:
  assumes "pd_update_latest GMO_KEY (JDict [(''cells'', JList cells)]) rec retr loc p = (p', None)"
    and "res_map (\<lambda>cell. json_index cell ''id'') cells = Inr ids" and "cells \<noteq> []"
  shows "injected p' \<and>
    (if set ids \<inter> set (last_cell_ids p) = {}
     then last_cell_ids p' = ids \<and> last_possibly_moved p' = rec
     else last_cell_ids p' = last_cell_ids p \<and> last_possibly_moved p' = last_possibly_moved p)"
  using assms
  by (auto simp: pd_update_latest_def parse_gmo_for_location_def cell_ids_of_def Let_def
      split: sum.splits option.splits if_splits)

theorem gmo_moves_only_on_disjoint_cells_witness:
  "let cells = [JDict [(''id'', JInt 7)]];
       p' = fst (pd_update_latest GMO_KEY (JDict [(''cells'', JList cells)]) (Some 5) (Some 6) None
              (PlayerData_init ''a''))
   in injected p' \<and> last_cell_ids p' = [JInt 7] \<and> last_possibly_moved p' = Some 5"
proof -
  have u: "pd_update_latest GMO_KEY (JDict [(''cells'', JList [JDict [(''id'', JInt 7)]])]) (Some 5) (Some 6) None
      (PlayerData_init ''a'') =
      (fst (pd_update_latest GMO_KEY (JDict [(''cells'', JList [JDict [(''id'', JInt 7)]])]) (Some 5) (Some 6) None
        (PlayerData_init ''a'')), None)"
    by (simp add: pd_update_latest_def parse_gmo_for_location_def cell_ids_of_def holder_update_def
        holder_ignores_def PlayerData_init_def)
  show ?thesis
    using gmo_moves_only_on_disjoint_cells [OF u, of "[JInt 7]"]
    by (simp add: Let_def PlayerData_init_def)
qed

end
