(* ===== verification/Stats.thy ===== *)
theory Stats
  imports Geo
begin

text \<open>
  Statistics of \<open>mapadroid/data_handler/stats\<close>: the entries and holders per worker, \<open>PlayerStats\<close>,
  \<open>StatsHandler\<close>, and the row merge of \<open>TrsStatsDetectWildMonRawHelper.create_or_update\<close>.
  Date-times are epoch seconds; \<open>now\<close> is \<open>int(time.time())\<close> where an entry is created.
  The submission hands the holders to the database: here it returns them.
\<close>

section \<open>Entries and holders\<close>

record stats_detect =
  sd_worker :: string
  sd_timestamp_scan :: int
  sd_mon :: int
  sd_raid :: int
  sd_mon_iv :: int
  sd_quest :: int

definition StatsDetectEntry_init :: "int \<Rightarrow> string \<Rightarrow> stats_detect" where
  "StatsDetectEntry_init now w =
     \<lparr>sd_worker = w, sd_timestamp_scan = now, sd_mon = 0, sd_raid = 0, sd_mon_iv = 0, sd_quest = 0\<rparr>"

definition StatsDetectEntry_update :: "int \<Rightarrow> int \<Rightarrow> int \<Rightarrow> int \<Rightarrow> int \<Rightarrow> stats_detect \<Rightarrow> stats_detect" where
  "StatsDetectEntry_update time_scanned new_mons new_raids new_mon_ivs new_quests e =
     (let e1 = e\<lparr>sd_mon := sd_mon e + new_mons, sd_raid := sd_raid e + new_raids,
                 sd_mon_iv := sd_mon_iv e + new_mon_ivs, sd_quest := sd_quest e + new_quests\<rparr>
      in if time_scanned > sd_timestamp_scan e1 then e1\<lparr>sd_timestamp_scan := time_scanned\<rparr> else e1)"

definition detect_add_mon :: "int \<Rightarrow> stats_detect \<Rightarrow> stats_detect" where
  "detect_add_mon t = StatsDetectEntry_update t 1 0 0 0"

definition detect_add_raid :: "int \<Rightarrow> int \<Rightarrow> stats_detect \<Rightarrow> stats_detect" where
  "detect_add_raid t amount = StatsDetectEntry_update t 0 amount 0 0"

definition detect_add_mon_iv :: "int \<Rightarrow> stats_detect \<Rightarrow> stats_detect" where
  "detect_add_mon_iv t = StatsDetectEntry_update t 0 0 1 0"

definition detect_add_quest :: "int \<Rightarrow> stats_detect \<Rightarrow> stats_detect" where
  "detect_add_quest t = StatsDetectEntry_update t 0 0 0 1"

definition StatsDetectHolder_submit :: "int \<Rightarrow> stats_detect \<Rightarrow> stats_detect" where
  "StatsDetectHolder_submit now e = e\<lparr>sd_timestamp_scan := now\<rparr>"

record stats_location =
  sl_worker :: string
  sl_timestamp_scan :: int
  location_ok :: int
  location_nok :: int

definition StatsLocationEntry_init :: "int \<Rightarrow> string \<Rightarrow> stats_location" where
  "StatsLocationEntry_init now w = \<lparr>sl_worker = w, sl_timestamp_scan = now, location_ok = 0, location_nok = 0\<rparr>"

definition StatsLocationEntry_update :: "int \<Rightarrow> bool \<Rightarrow> stats_location \<Rightarrow> stats_location" where
  "StatsLocationEntry_update time_of_scan ok e =
     (let e1 = e\<lparr>sl_timestamp_scan := time_of_scan\<rparr>
      in if ok then e1\<lparr>location_ok := location_ok e1 + 1\<rparr> else e1\<lparr>location_nok := location_nok e1 + 1\<rparr>)"

definition add_location_ok :: "int \<Rightarrow> stats_location \<Rightarrow> stats_location" where
  "add_location_ok t = StatsLocationEntry_update t True"

definition add_location_not_ok :: "int \<Rightarrow> stats_location \<Rightarrow> stats_location" where
  "add_location_not_ok t = StatsLocationEntry_update t False"

text \<open>Raw location rows; an absent position or transport type takes the default.\<close>

datatype position_type = PT_NORMAL | PT_PRIOQ | PT_STARTUP | PT_REBOOT | PT_RESTART

fun position_type_value :: "position_type \<Rightarrow> int" where
  "position_type_value PT_NORMAL = 0"
| "position_type_value PT_PRIOQ = 1"
| "position_type_value PT_STARTUP = 2"
| "position_type_value PT_REBOOT = 3"
| "position_type_value PT_RESTART = 4"

datatype transport_type = TELEPORT | WALK

fun transport_type_value :: "transport_type \<Rightarrow> int" where
  "transport_type_value TELEPORT = 0"
| "transport_type_value WALK = 1"

record location_raw =
  lr_worker :: string
  fix_ts :: int
  lr_lat :: real
  lr_lng :: real
  data_ts :: int
  lr_type :: int
  lr_walker :: string
  lr_success :: int
  lr_period :: int
  transporttype :: int

text \<open>\<open>PositionType\<close> and \<open>TransportType\<close> are \<open>IntEnum\<close>s: the member of value 0 is falsy as \<open>None\<close> is.\<close>

definition raw_position_type :: "position_type option \<Rightarrow> int" where
  "raw_position_type p = (case p of
       Some v \<Rightarrow> (if position_type_value v \<noteq> 0 then position_type_value v else position_type_value PT_STARTUP)
     | None \<Rightarrow> position_type_value PT_STARTUP)"

definition raw_transport_type :: "transport_type option \<Rightarrow> int" where
  "raw_transport_type p = (case p of
       Some v \<Rightarrow> (if transport_type_value v \<noteq> 0 then transport_type_value v else transport_type_value TELEPORT)
     | None \<Rightarrow> transport_type_value TELEPORT)"

definition raw_add_location ::
    "string \<Rightarrow> location \<Rightarrow> bool \<Rightarrow> int \<Rightarrow> position_type option \<Rightarrow> int \<Rightarrow> string \<Rightarrow> transport_type option \<Rightarrow> int \<Rightarrow>
     location_raw list \<Rightarrow> location_raw list" where
  "raw_add_location worker loc success fix_timestamp ptype data_timestamp wtype ttype period rows =
     rows @ [\<lparr>lr_worker = worker, fix_ts = fix_timestamp, lr_lat = lat loc, lr_lng = lng loc,
              data_ts = data_timestamp, lr_type = raw_position_type ptype, lr_walker = wtype,
              lr_success = (if success then 1 else 0), lr_period = period,
              transporttype = raw_transport_type ttype\<rparr>]"

section \<open>Wild mons\<close>

record wild_mon =
  wm_worker :: string
  wm_encounter_id :: int
  wm_count :: int
  wm_is_shiny :: bool
  wm_first_scanned :: int
  wm_last_scanned :: int

definition WildMonStatsEntry_init :: "string \<Rightarrow> int \<Rightarrow> int \<Rightarrow> wild_mon" where
  "WildMonStatsEntry_init w enc first =
     \<lparr>wm_worker = w, wm_encounter_id = enc, wm_count = 0, wm_is_shiny = False,
      wm_first_scanned = first, wm_last_scanned = first\<rparr>"

definition WildMonStatsEntry_update :: "int \<Rightarrow> bool \<Rightarrow> wild_mon \<Rightarrow> wild_mon" where
  "WildMonStatsEntry_update t shiny e =
     (let e1 = (if shiny then e\<lparr>wm_is_shiny := True\<rparr> else e)
      in e1\<lparr>wm_count := wm_count e1 + 1, wm_last_scanned := t\<rparr>)"

definition wild_add :: "string \<Rightarrow> int \<Rightarrow> int \<Rightarrow> bool \<Rightarrow> (int, wild_mon) dict \<Rightarrow> (int, wild_mon) dict" where
  "wild_add worker enc scanned shiny d =
     (case map_of d enc of
        None \<Rightarrow> AList.update enc (WildMonStatsEntry_init worker enc scanned) d
      | Some e \<Rightarrow> AList.update enc (WildMonStatsEntry_update scanned shiny e) d)"

text \<open>\<open>TrsStatsDetectWildMonRawHelper.create_or_update\<close> on the table keyed by worker and encounter.\<close>

definition wild_create_or_update ::
    "wild_mon \<Rightarrow> (string \<times> int, wild_mon) dict \<Rightarrow> (string \<times> int, wild_mon) dict" where
  "wild_create_or_update inst table =
     (let key = (wm_worker inst, wm_encounter_id inst)
      in case map_of table key of
           None \<Rightarrow> AList.update key inst table
         | Some ex \<Rightarrow>
             (let e1 = (if wm_first_scanned ex > wm_first_scanned inst
                        then ex\<lparr>wm_first_scanned := wm_first_scanned inst\<rparr> else ex);
                  e2 = (if wm_last_scanned e1 < wm_last_scanned inst
                        then e1\<lparr>wm_last_scanned := wm_last_scanned inst\<rparr> else e1);
                  e3 = e2\<lparr>wm_count := wm_count inst + wm_count e2\<rparr>;
                  e4 = (if wm_is_shiny inst then e3\<lparr>wm_is_shiny := wm_is_shiny inst\<rparr> else e3)
              in AList.update key e4 table))"

section \<open>Seen types\<close>

datatype mon_seen_type = wild | encounter | lure_encounter | lure_wild | nearby_stop | nearby_cell

record seen_entry =
  se_encounter_id :: int
  se_encounter :: "int option"
  se_wild :: "int option"
  se_nearby_stop :: "int option"
  se_nearby_cell :: "int option"
  se_lure_encounter :: "int option"
  se_lure_wild :: "int option"

definition SeenTypeEntry_init :: "int \<Rightarrow> seen_entry" where
  "SeenTypeEntry_init enc =
     \<lparr>se_encounter_id = enc, se_encounter = None, se_wild = None, se_nearby_stop = None,
      se_nearby_cell = None, se_lure_encounter = None, se_lure_wild = None\<rparr>"

fun SeenTypeEntry_update :: "mon_seen_type \<Rightarrow> int \<Rightarrow> seen_entry \<Rightarrow> seen_entry" where
  "SeenTypeEntry_update encounter t e = e\<lparr>se_encounter := Some t\<rparr>"
| "SeenTypeEntry_update wild t e = e\<lparr>se_wild := Some t\<rparr>"
| "SeenTypeEntry_update nearby_stop t e = e\<lparr>se_nearby_stop := Some t\<rparr>"
| "SeenTypeEntry_update nearby_cell t e = e\<lparr>se_nearby_cell := Some t\<rparr>"
| "SeenTypeEntry_update lure_encounter t e = e\<lparr>se_lure_encounter := Some t\<rparr>"
| "SeenTypeEntry_update lure_wild t e = e\<lparr>se_lure_wild := Some t\<rparr>"

fun seen_time :: "mon_seen_type \<Rightarrow> seen_entry \<Rightarrow> int option" where
  "seen_time encounter e = se_encounter e"
| "seen_time wild e = se_wild e"
| "seen_time nearby_stop e = se_nearby_stop e"
| "seen_time nearby_cell e = se_nearby_cell e"
| "seen_time lure_encounter e = se_lure_encounter e"
| "seen_time lure_wild e = se_lure_wild e"

type_synonym seen_holder = "(int, seen_entry) dict"

definition seen_add :: "int \<Rightarrow> mon_seen_type \<Rightarrow> int \<Rightarrow> seen_holder \<Rightarrow> seen_holder" where
  "seen_add enc ty t = with_entry SeenTypeEntry_init (SeenTypeEntry_update ty t) enc"

interpretation seen_table: entry_table SeenTypeEntry_init
  "\<lambda>enc e. se_encounter_id e = enc" "\<lambda>f. \<exists>ty t. f = SeenTypeEntry_update ty t"
proof unfold_locales
  show "se_encounter_id (SeenTypeEntry_init k) = k" for k
    by (simp add: SeenTypeEntry_init_def)
  show "\<exists>ty t. f = SeenTypeEntry_update ty t \<Longrightarrow> se_encounter_id v = k \<Longrightarrow> se_encounter_id (f v) = k" for f k v
    by (elim exE, hypsubst) (rename_tac ty t, case_tac ty; simp)
qed

lemma seen_time_update: "seen_time ty' (SeenTypeEntry_update ty t e) = (if ty' = ty then Some t else seen_time ty' e)"
  by (cases ty; cases ty') simp_all

section \<open>PlayerStats\<close>

record player_stats =
  ps_worker :: string
  ps_detect :: stats_detect
  ps_location :: stats_location
  ps_wild :: "(int, wild_mon) dict option"
  ps_raw :: "location_raw list option"

text \<open>\<open>raw\<close> is the argument \<open>game_stats_raw\<close>.\<close>

definition PlayerStats_init :: "bool \<Rightarrow> int \<Rightarrow> string \<Rightarrow> player_stats" where
  "PlayerStats_init raw now w =
     \<lparr>ps_worker = w, ps_detect = StatsDetectEntry_init now w, ps_location = StatsLocationEntry_init now w,
      ps_wild = (if raw then Some [] else None), ps_raw = (if raw then Some [] else None)\<rparr>"

definition ps_collect_wild_mon :: "int \<Rightarrow> int \<Rightarrow> player_stats \<Rightarrow> player_stats" where
  "ps_collect_wild_mon enc t p =
     (let p1 = p\<lparr>ps_wild := map_option (wild_add (ps_worker p) enc t False) (ps_wild p)\<rparr>
      in p1\<lparr>ps_detect := detect_add_mon t (ps_detect p1)\<rparr>)"

definition ps_collect_mon_iv :: "int \<Rightarrow> int \<Rightarrow> bool \<Rightarrow> player_stats \<Rightarrow> player_stats" where
  "ps_collect_mon_iv enc t shiny p =
     (let p1 = p\<lparr>ps_wild := map_option (wild_add (ps_worker p) enc t shiny) (ps_wild p)\<rparr>
      in p1\<lparr>ps_detect := detect_add_mon_iv t (ps_detect p1)\<rparr>)"

definition ps_collect_quest :: "int \<Rightarrow> player_stats \<Rightarrow> player_stats" where
  "ps_collect_quest t p = p\<lparr>ps_detect := detect_add_quest t (ps_detect p)\<rparr>"

definition ps_collect_raid :: "int \<Rightarrow> int \<Rightarrow> player_stats \<Rightarrow> player_stats" where
  "ps_collect_raid t amount p = p\<lparr>ps_detect := detect_add_raid t amount (ps_detect p)\<rparr>"

definition ps_collect_location_data ::
    "location option \<Rightarrow> bool \<Rightarrow> int \<Rightarrow> position_type option \<Rightarrow> int \<Rightarrow> string \<Rightarrow> transport_type option \<Rightarrow> int \<Rightarrow>
     player_stats \<Rightarrow> player_stats" where
  "ps_collect_location_data loc success fix ptype data wtype ttype period p =
     (let p1 = (case (ps_raw p, loc) of
          (Some rows, Some l) \<Rightarrow>
            p\<lparr>ps_raw := Some (raw_add_location (ps_worker p) l success fix ptype data wtype ttype period rows)\<rparr>
        | _ \<Rightarrow> p)
      in if success then p1\<lparr>ps_location := add_location_ok period (ps_location p1)\<rparr>
         else p1\<lparr>ps_location := add_location_not_ok period (ps_location p1)\<rparr>)"

section \<open>StatsHandler\<close>

record stats_state =
  worker_stats :: "(string, player_stats) dict"
  seen_types :: "seen_holder option"

record stats_args =
  game_stats_raw :: bool
  game_stats_mon_seen :: bool

definition init_stats_holders :: "stats_args \<Rightarrow> stats_state" where
  "init_stats_holders a =
     \<lparr>worker_stats = [], seen_types = (if game_stats_mon_seen a then Some [] else None)\<rparr>"

definition on_player :: "stats_args \<Rightarrow> int \<Rightarrow> string \<Rightarrow> (player_stats \<Rightarrow> player_stats) \<Rightarrow> stats_state \<Rightarrow> stats_state" where
  "on_player a now w f s =
     s\<lparr>worker_stats := with_entry (PlayerStats_init (game_stats_raw a) now) f w (worker_stats s)\<rparr>"

definition on_seen :: "int \<Rightarrow> mon_seen_type \<Rightarrow> int \<Rightarrow> stats_state \<Rightarrow> stats_state" where
  "on_seen enc ty t s = s\<lparr>seen_types := map_option (seen_add enc ty t) (seen_types s)\<rparr>"

definition sh_collect_wild_mon :: "stats_args \<Rightarrow> int \<Rightarrow> string \<Rightarrow> int list \<Rightarrow> int \<Rightarrow> stats_state \<Rightarrow> stats_state" where
  "sh_collect_wild_mon a now w encs t s =
     fold (\<lambda>enc s. on_seen enc wild t (on_player a now w (ps_collect_wild_mon enc t) s)) encs
       (on_player a now w id s)"

definition sh_collect_mon_iv :: "stats_args \<Rightarrow> int \<Rightarrow> string \<Rightarrow> int \<Rightarrow> int \<Rightarrow> bool \<Rightarrow> stats_state \<Rightarrow> stats_state" where
  "sh_collect_mon_iv a now w enc t shiny s =
     on_seen enc encounter t (on_player a now w (ps_collect_mon_iv enc t shiny) s)"

definition sh_collect_quest :: "stats_args \<Rightarrow> int \<Rightarrow> string \<Rightarrow> int \<Rightarrow> stats_state \<Rightarrow> stats_state" where
  "sh_collect_quest a now w t = on_player a now w (ps_collect_quest t)"

definition sh_collect_raid :: "stats_args \<Rightarrow> int \<Rightarrow> string \<Rightarrow> int \<Rightarrow> int \<Rightarrow> stats_state \<Rightarrow> stats_state" where
  "sh_collect_raid a now w t amount = on_player a now w (ps_collect_raid t amount)"

definition sh_collect_location_data ::
    "stats_args \<Rightarrow> int \<Rightarrow> string \<Rightarrow> location option \<Rightarrow> bool \<Rightarrow> int \<Rightarrow> position_type option \<Rightarrow> int \<Rightarrow> string \<Rightarrow>
     transport_type option \<Rightarrow> int \<Rightarrow> stats_state \<Rightarrow> stats_state" where
  "sh_collect_location_data a now w loc success fix ptype data wtype ttype period =
     on_player a now w (ps_collect_location_data loc success fix ptype data wtype ttype period)"

definition sh_collect_seen_type :: "int list \<Rightarrow> mon_seen_type \<Rightarrow> int \<Rightarrow> stats_state \<Rightarrow> stats_state" where
  "sh_collect_seen_type encs ty t s = fold (\<lambda>enc. on_seen enc ty t) encs s"

text \<open>
  \<open>__process_stats\<close>: the live holders are taken out and replaced by fresh ones before anything is
  submitted; the holders taken are what the database receives.
\<close>

record submission =
  sub_seen :: "seen_holder option"
  sub_players :: "player_stats list"

definition process_stats :: "stats_args \<Rightarrow> stats_state \<Rightarrow> submission \<times> stats_state" where
  "process_stats a s =
     (\<lparr>sub_seen = seen_types s, sub_players = map snd (worker_stats s)\<rparr>, init_stats_holders a)"

section \<open>Runs\<close>

datatype stats_op =
    WildMon int string "int list" int
  | MonIv int string int int bool
  | Quest int string int
  | Raid int string int int
  | LocationData int string "location option" bool int "position_type option" int string "transport_type option" int
  | SeenType "int list" mon_seen_type int
  | Process

fun stats_step :: "stats_args \<Rightarrow> stats_op \<Rightarrow> submission list \<times> stats_state \<Rightarrow> submission list \<times> stats_state" where
  "stats_step a (WildMon now w encs t) (subs, s) = (subs, sh_collect_wild_mon a now w encs t s)"
| "stats_step a (MonIv now w enc t shiny) (subs, s) = (subs, sh_collect_mon_iv a now w enc t shiny s)"
| "stats_step a (Quest now w t) (subs, s) = (subs, sh_collect_quest a now w t s)"
| "stats_step a (Raid now w t n) (subs, s) = (subs, sh_collect_raid a now w t n s)"
| "stats_step a (LocationData now w loc ok fix pt dat wt tt per) (subs, s) =
     (subs, sh_collect_location_data a now w loc ok fix pt dat wt tt per s)"
| "stats_step a (SeenType encs ty t) (subs, s) = (subs, sh_collect_seen_type encs ty t s)"
| "stats_step a Process (subs, s) = (case process_stats a s of (sub, s') \<Rightarrow> (subs @ [sub], s'))"

text \<open>What a counter of a worker adds up to, over everything submitted and what is still live.\<close>

definition live_count :: "(player_stats \<Rightarrow> int) \<Rightarrow> (string, player_stats) dict \<Rightarrow> int" where
  "live_count c d = sum_list (map (\<lambda>kv. c (snd kv)) d)"

definition total_count :: "(player_stats \<Rightarrow> int) \<Rightarrow> submission list \<times> stats_state \<Rightarrow> int" where
  "total_count c st = sum_list (map (\<lambda>sub. sum_list (map c (sub_players sub))) (fst st)) +
     live_count c (worker_stats (snd st))"

text \<open>How much an operation adds to a counter that weighs the five kinds of events by \<open>k1\<close>, ..., \<open>k5\<close>.\<close>

fun op_amount :: "int \<Rightarrow> int \<Rightarrow> int \<Rightarrow> int \<Rightarrow> int \<Rightarrow> stats_op \<Rightarrow> int" where
  "op_amount k1 k2 k3 k4 k5 (WildMon now w encs t) = k1 * int (length encs)"
| "op_amount k1 k2 k3 k4 k5 (MonIv now w enc t shiny) = k2"
| "op_amount k1 k2 k3 k4 k5 (Quest now w t) = k3"
| "op_amount k1 k2 k3 k4 k5 (Raid now w t n) = k4 * n"
| "op_amount k1 k2 k3 k4 k5 (LocationData now w loc ok fix pt dat wt tt per) = k5"
| "op_amount k1 k2 k3 k4 k5 (SeenType encs ty t) = 0"
| "op_amount k1 k2 k3 k4 k5 Process = 0"

definition tallies :: "(player_stats \<Rightarrow> int) \<Rightarrow> int \<Rightarrow> int \<Rightarrow> int \<Rightarrow> int \<Rightarrow> int \<Rightarrow> bool" where
  "tallies c k1 k2 k3 k4 k5 \<longleftrightarrow>
     (\<forall>raw now w. c (PlayerStats_init raw now w) = 0) \<and>
     (\<forall>enc t p. c (ps_collect_wild_mon enc t p) = c p + k1) \<and>
     (\<forall>enc t sh p. c (ps_collect_mon_iv enc t sh p) = c p + k2) \<and>
     (\<forall>t p. c (ps_collect_quest t p) = c p + k3) \<and>
     (\<forall>t n p. c (ps_collect_raid t n p) = c p + k4 * n) \<and>
     (\<forall>loc ok fix pt dat wt tt per p. c (ps_collect_location_data loc ok fix pt dat wt tt per p) = c p + k5)"

lemmas stats_op_defs = ps_collect_wild_mon_def ps_collect_mon_iv_def ps_collect_quest_def ps_collect_raid_def
  ps_collect_location_data_def detect_add_mon_def detect_add_raid_def detect_add_mon_iv_def detect_add_quest_def
  StatsDetectEntry_update_def add_location_ok_def add_location_not_ok_def StatsLocationEntry_update_def

text \<open>An operation on one worker's entry changes the sum of a counter by what it adds to that entry.\<close>

lemma live_count_update:
  assumes "dict_wf d" and "map_of d w = Some p"
  shows "live_count c (AList.update w q d) = live_count c d - c p + c q"
  using assms
proof (induction d)
  case (Cons kv d)
  then show ?case
    by (cases kv) (auto simp: live_count_def dict_wf_def rev_image_eqI dest: map_of_SomeD)
qed simp

lemma live_count_append: "map_of d w = None \<Longrightarrow> live_count c (AList.update w q d) = live_count c d + c q"
  by (induction d) (auto simp: live_count_def split: if_splits)

lemma live_count_with_entry:
  assumes "dict_wf d" and "\<And>p. c (f p) = c p + n" and "c (mk w) = 0"
  shows "live_count c (with_entry mk f w d) = live_count c d + n"
proof (cases "map_of d w")
  case None
  then have "live_count c (ensure mk w d) = live_count c d" and m: "map_of (ensure mk w d) w = Some (mk w)"
    using assms(3) by (simp_all add: ensure_def live_count_append dict_simps)
  then show ?thesis
    using live_count_update [OF dict_wf_ensure [OF assms(1)] m] None assms(2,3)
    by (simp add: with_entry_def entry_at_def)
next
  case (Some p)
  then show ?thesis
    using live_count_update [OF assms(1) Some] assms(2) by (simp add: with_entry_def ensure_def entry_at_def)
qed

section \<open>Properties\<close>

definition stats_wf :: "stats_state \<Rightarrow> bool" where
  "stats_wf s \<longleftrightarrow> dict_wf (worker_stats s)"

lemma on_seen_stats [simp]: "worker_stats (on_seen enc ty t s) = worker_stats s"
  by (simp add: on_seen_def)

lemma on_player_wf [simp]: "stats_wf s \<Longrightarrow> stats_wf (on_player a now w f s)"
  by (simp add: on_player_def stats_wf_def)

lemma on_seen_wf [simp]: "stats_wf (on_seen enc ty t s) = stats_wf s"
  by (simp add: stats_wf_def)

lemma on_player_count:
  assumes "stats_wf s" and "\<And>p. c (f p) = c p + n" and "\<And>w. c (PlayerStats_init (game_stats_raw a) now w) = 0"
  shows "live_count c (worker_stats (on_player a now w f s)) = live_count c (worker_stats s) + n"
  using live_count_with_entry [of "worker_stats s" c f n] assms by (simp add: on_player_def stats_wf_def)

lemma wild_loop_count:
  assumes t: "tallies c k1 k2 k3 k4 k5" and "stats_wf s"
  shows "stats_wf (fold (\<lambda>enc s. on_seen enc wild t (on_player a now w (ps_collect_wild_mon enc t) s)) encs s) \<and>
    live_count c (worker_stats (fold (\<lambda>enc s. on_seen enc wild t (on_player a now w (ps_collect_wild_mon enc t) s)) encs s)) =
    live_count c (worker_stats s) + k1 * int (length encs)"
  using assms(2)
proof (induction encs arbitrary: s)
  case (Cons enc encs)
  have "live_count c (worker_stats (on_player a now w (ps_collect_wild_mon enc t) s)) =
      live_count c (worker_stats s) + k1"
    using t by (intro on_player_count [OF Cons.prems]) (auto simp: tallies_def)
  with Cons show ?case by (simp add: algebra_simps)
qed simp

lemma seen_loop [simp]: "worker_stats (fold (\<lambda>enc. on_seen enc ty t) encs s) = worker_stats s"
  by (induction encs arbitrary: s) simp_all

lemma stats_step_count:
  assumes t: "tallies c k1 k2 k3 k4 k5" and wf: "stats_wf (snd st)"
  shows "stats_wf (snd (stats_step a x st)) \<and> total_count c (stats_step a x st) = total_count c st + op_amount k1 k2 k3 k4 k5 x"
proof -
  obtain subs s where st: "st = (subs, s)" by (cases st)
  with wf have s: "stats_wf s" by simp
  have pl: "live_count c (worker_stats (on_player a now w f s)) = live_count c (worker_stats s) + n"
    if "\<And>p. c (f p) = c p + n" for now w f n
    by (rule on_player_count [OF s]) (use t that in \<open>auto simp: tallies_def\<close>)
  show ?thesis
  proof (cases x)
    case (WildMon now w encs t')
    have "live_count c (worker_stats (on_player a now w id s)) = live_count c (worker_stats s) + 0"
      by (rule pl) simp
    then show ?thesis
      using wild_loop_count [OF t, of "on_player a now w id s" t' a now w encs] s
      by (simp add: WildMon st sh_collect_wild_mon_def total_count_def)
  next
    case (MonIv now w enc t' sh)
    have "live_count c (worker_stats (on_player a now w (ps_collect_mon_iv enc t' sh) s)) =
        live_count c (worker_stats s) + k2"
      using t by (intro pl) (simp add: tallies_def)
    then show ?thesis using s by (simp add: MonIv st sh_collect_mon_iv_def total_count_def)
  next
    case (Quest now w t')
    have "live_count c (worker_stats (on_player a now w (ps_collect_quest t') s)) =
        live_count c (worker_stats s) + k3"
      using t by (intro pl) (simp add: tallies_def)
    then show ?thesis using s by (simp add: Quest st sh_collect_quest_def total_count_def)
  next
    case (Raid now w t' n)
    have "live_count c (worker_stats (on_player a now w (ps_collect_raid t' n) s)) =
        live_count c (worker_stats s) + k4 * n"
      using t by (intro pl) (simp add: tallies_def)
    then show ?thesis using s by (simp add: Raid st sh_collect_raid_def total_count_def)
  next
    case (LocationData now w loc ok fx pt dat wt tt per)
    have "live_count c (worker_stats (on_player a now w
          (ps_collect_location_data loc ok fx pt dat wt tt per) s)) = live_count c (worker_stats s) + k5"
      using t by (intro pl) (simp add: tallies_def)
    then show ?thesis using s by (simp add: LocationData st sh_collect_location_data_def total_count_def)
  next
    case (SeenType encs ty t')
    then show ?thesis
      using s by (simp add: st sh_collect_seen_type_def total_count_def stats_wf_def)
  next
    case Process
    then show ?thesis
      by (simp add: st total_count_def process_stats_def init_stats_holders_def stats_wf_def live_count_def o_def)
  qed
qed

lemma stats_run_count:
  assumes "tallies c k1 k2 k3 k4 k5" and "stats_wf (snd st)"
  shows "total_count c (fold (stats_step a) xs st) = total_count c st + sum_list (map (op_amount k1 k2 k3 k4 k5) xs)"
  using assms(2)
proof (induction xs arbitrary: st)
  case (Cons x xs)
  then show ?case using stats_step_count [OF assms(1) Cons.prems, of a x] by simp
qed simp

lemma tallies_detect:
  "tallies (\<lambda>p. sd_mon (ps_detect p)) 1 0 0 0 0" "tallies (\<lambda>p. sd_mon_iv (ps_detect p)) 0 1 0 0 0"
  "tallies (\<lambda>p. sd_quest (ps_detect p)) 0 0 1 0 0" "tallies (\<lambda>p. sd_raid (ps_detect p)) 0 0 0 1 0"
  "tallies (\<lambda>p. location_ok (ps_location p) + location_nok (ps_location p)) 0 0 0 0 1"
  by (auto simp: tallies_def stats_op_defs PlayerStats_init_def StatsDetectEntry_init_def
      StatsLocationEntry_init_def Let_def split: option.splits)


text \<open>
  Merging a worker's sightings into the stored row of an encounter keeps the earliest first sighting,
  the latest last sighting, adds the counts and never forgets that the mon was shiny; other rows stay.
\<close>

theorem wild_merge:
  "map_of (wild_create_or_update inst table) key =
     (if key = (wm_worker inst, wm_encounter_id inst)
      then Some (case map_of table key of None \<Rightarrow> inst
        | Some ex \<Rightarrow> ex\<lparr>wm_first_scanned := min (wm_first_scanned ex) (wm_first_scanned inst),
                       wm_last_scanned := max (wm_last_scanned ex) (wm_last_scanned inst),
                       wm_count := wm_count ex + wm_count inst,
                       wm_is_shiny := (wm_is_shiny ex \<or> wm_is_shiny inst)\<rparr>)
      else map_of table key)"
  by (auto simp: wild_create_or_update_def Let_def dict_simps min_def max_def split: option.splits)

text \<open>Sightings of one encounter, in order: time and whether it was reported shiny.\<close>

definition wild_adds :: "string \<Rightarrow> int \<Rightarrow> (int \<times> bool) list \<Rightarrow> (int, wild_mon) dict \<Rightarrow> (int, wild_mon) dict" where
  "wild_adds w enc xs = fold (\<lambda>(t, sh). wild_add w enc t sh) xs"

lemma wild_adds_known:
  assumes "map_of d enc = Some e"
  shows "\<exists>e'. map_of (wild_adds w enc xs d) enc = Some e' \<and> wm_count e' = wm_count e + int (length xs) \<and>
    wm_is_shiny e' = (wm_is_shiny e \<or> (\<exists>x \<in> set xs. snd x)) \<and> wm_first_scanned e' = wm_first_scanned e"
  using assms
proof (induction xs arbitrary: d e)
  case Nil
  then show ?case by (simp add: wild_adds_def)
next
  case (Cons x xs)
  obtain t sh where x: "x = (t, sh)" by (cases x)
  let ?d = "wild_add w enc t sh d" and ?e = "WildMonStatsEntry_update t sh e"
  have "map_of ?d enc = Some ?e"
    using Cons.prems by (simp add: wild_add_def dict_simps)
  from Cons.IH [OF this] show ?case
    by (auto simp: wild_adds_def x WildMonStatsEntry_update_def Let_def)
qed

text \<open>
  The holder of wild mons counts re-sightings: after the sightings of an encounter the worker had not
  seen, its count is one less than their number, the first sighting time is the first one's, and it is
  marked shiny only if a sighting after the first was reported shiny.
\<close>

theorem wild_holder_counts_resightings:
  assumes "map_of d enc = None"
  shows "\<exists>e. map_of (wild_adds w enc ((t, sh) # xs) d) enc = Some e \<and> wm_count e = int (length xs) \<and>
    wm_first_scanned e = t \<and> wm_is_shiny e = (\<exists>x \<in> set xs. snd x)"
proof -
  let ?d = "wild_add w enc t sh d"
  have "map_of ?d enc = Some (WildMonStatsEntry_init w enc t)"
    using assms by (simp add: wild_add_def dict_simps)
  from wild_adds_known [OF this, of w xs] show ?thesis
    by (auto simp: wild_adds_def WildMonStatsEntry_init_def)
qed

theorem wild_holder_counts_resightings_witness:
  "\<exists>e. map_of (wild_adds ''a'' 1 [(10, True)] []) 1 = Some e \<and> wm_count e = 0 \<and> \<not> wm_is_shiny e"
  using wild_holder_counts_resightings [of "[]" 1 "''a''" 10 True "[]"] by auto

text \<open>
  The seen-type holder keeps, for every encounter and kind of detection, the time of the last report of
  that kind, and reports of other encounters or kinds do not touch it.
\<close>

theorem seen_holder_last_report:
  "map_option (seen_time ty) (map_of (fold (\<lambda>(enc, ty, t). seen_add enc ty t) xs []) enc) =
     (if \<exists>x \<in> set xs. fst x = enc
      then Some (case filter (\<lambda>x. fst x = enc \<and> fst (snd x) = ty) xs of
          [] \<Rightarrow> None | ys \<Rightarrow> Some (snd (snd (last ys))))
      else None)"
proof (induction xs rule: rev_induct)
  case (snoc x xs)
  obtain e ty' t where x: "x = (e, ty', t)" by (cases x)
  let ?d = "fold (\<lambda>(enc, ty, t). seen_add enc ty t) xs []"
  show ?case
  proof (cases "e = enc")
    case False
    then show ?thesis using snoc x by (simp add: seen_add_def dict_simps)
  next
    case True
    have base: "seen_time ty (SeenTypeEntry_init enc) = None"
      by (cases ty) (simp_all add: SeenTypeEntry_init_def)
    have none: "\<not> (\<exists>x \<in> set xs. fst x = enc) \<Longrightarrow> filter (\<lambda>x. fst x = enc \<and> fst (snd x) = ty) xs = []"
      by (auto simp: filter_empty_conv)
    show ?thesis
      using snoc True x base none
      by (cases "map_of ?d enc")
        (auto simp: seen_add_def dict_simps seen_time_update entry_at_def split: list.splits if_splits)
  qed
qed simp

text \<open>
  Raw location rows: a report at a normal route position is stored with the code of a start-up position,
  because the enumeration member of value 0 is falsy; every other position keeps its own code.
\<close>

theorem raw_location_position_code:
  "lr_type (last (raw_add_location w loc ok fix ptype dat wt tt per rows)) =
     (case ptype of None \<Rightarrow> 2 | Some PT_NORMAL \<Rightarrow> 2 | Some p \<Rightarrow> position_type_value p)"
  by (auto simp: raw_add_location_def raw_position_type_def split: option.splits position_type.splits)

end
