(* ===== verification/Clustering.thy ===== *)
theory Clustering
  imports Geo
begin

text \<open>
  Clustering of events in space and time: \<open>mapadroid/route/routecalc/ClusteringHelper.py\<close>.
  An event is the tuple \<open>(timestamp, location)\<close>, or the four-tuple of a merged event. The dict of
  relations keeps its insertion order, which the choice of the next event depends on. The recursion
  of \<open>_get_circle\<close> that would repeat itself with the same arguments is the \<open>RecursionError\<close> it ends
  in (a \<open>RuntimeError\<close>); the loop of \<open>_sum_up_relations\<close>, which swallows every exception and tries
  again, is a partial function. \<open>s2_contains\<close> stands for the cell cover of \<open>s2sphere\<close>.
\<close>

section \<open>Data\<close>

datatype event =
    Event (ev_ts: int) (ev_loc: location)
  | Clustered (ev_ts: int) (ev_loc: location) (ev_delta: int) (ev_flag: bool)

record relation =
  rel_other :: event
  rel_distance :: real
  rel_timedelta :: int

type_synonym relations = "(event, relation list) dict"

type_synonym s2_cover = "real \<Rightarrow> real \<Rightarrow> real \<Rightarrow> int \<Rightarrow> location \<Rightarrow> bool"

record clustering_helper =
  max_radius :: real
  max_count_per_circle :: int
  max_timedelta_seconds :: int
  useS2 :: bool
  S2level :: int

text \<open>\<open>len(event) == 4 and event[3]\<close>\<close>

fun previously_clustered :: "event \<Rightarrow> bool" where
  "previously_clustered (Event _ _) = False"
| "previously_clustered (Clustered _ _ _ flag) = flag"

section \<open>Relations\<close>

definition relate :: "clustering_helper \<Rightarrow> real \<Rightarrow> event \<Rightarrow> event \<Rightarrow> relations \<Rightarrow> relations" where
  "relate self max_r event other relations0 =
     (let relations =
            (if lat (ev_loc event) = lat (ev_loc other) \<and> lng (ev_loc event) = lng (ev_loc other)
               \<and> map_of relations0 event = None
             then AList.update event [] relations0 else relations0);
          distance = dist_loc (ev_loc event) (ev_loc other);
          timedelta = ev_ts event - ev_ts other
      in if 0 \<le> distance \<and> distance \<le> max_r * 2 \<and> 0 \<le> timedelta \<and> timedelta \<le> max_timedelta_seconds self
         then (let known = (case map_of relations event of None \<Rightarrow> [] | Some rs \<Rightarrow> rs);
                   already_present = list_ex (\<lambda>r. lat (ev_loc (rel_other r)) = lat (ev_loc other)
                     \<and> lng (ev_loc (rel_other r)) = lng (ev_loc other)) known
               in AList.update event
                    (if already_present then known
                     else known @ [\<lparr>rel_other = other, rel_distance = distance, rel_timedelta = timedelta\<rparr>]) relations)
         else relations)"

definition get_relations_in_range_within_time :: "clustering_helper \<Rightarrow> event list \<Rightarrow> real \<Rightarrow> relations" where
  "get_relations_in_range_within_time self queue max_r =
     fold (\<lambda>event relations. fold (relate self max_r event) queue relations) queue []"

definition more_west :: "event \<Rightarrow> event \<Rightarrow> event" where
  "more_west event selected =
     (if lng (ev_loc event) < lng (ev_loc selected) then event
      else if lng (ev_loc event) = lng (ev_loc selected) \<and> lat (ev_loc selected) < lat (ev_loc event) then event
      else selected)"

definition get_most_west_amongst_relations :: "relations \<Rightarrow> event result" where
  "get_most_west_amongst_relations relations =
     (case map fst relations of
        [] \<Rightarrow> Inl IndexError
      | k # ks \<Rightarrow> Inr (fold more_west (k # ks) k))"

text \<open>A \<open>Relation\<close> has three fields, so \<open>len(relation) < 4\<close> holds of every one.\<close>

definition get_farthest_in_relation :: "clustering_helper \<Rightarrow> relation list \<Rightarrow> (event \<times> real) result" where
  "get_farthest_in_relation self to_be_inspected =
     (let (distance, farthest) = fold (\<lambda>relation (distance, farthest).
            if rel_timedelta relation \<le> max_timedelta_seconds self \<and> distance < rel_distance relation
            then (rel_distance relation, Some relation) else (distance, farthest))
          to_be_inspected (- 1, None)
      in case farthest of
           None \<Rightarrow> Inl AttributeError
         | Some relation \<Rightarrow> Inr (rel_other relation, distance))"

section \<open>Circles\<close>

type_synonym circle_state = "event list \<times> int \<times> int \<times> int"

text \<open>One event of the loop; the state is the circle, the time gained, the latest and the earliest timestamp.\<close>

definition count_step ::
    "clustering_helper \<Rightarrow> s2_cover \<Rightarrow> location \<Rightarrow> real \<Rightarrow> event \<Rightarrow> circle_state \<Rightarrow> circle_state" where
  "count_step self s2_contains middle max_r event = (\<lambda>(inside_circle, highest_timedelta, latest, earliest).
     if previously_clustered event then (inside_circle @ [event], highest_timedelta, latest, earliest)
     else
       (let distance = dist_loc middle (ev_loc event);
            event_in_range = (if useS2 self
              then s2_contains (lat middle) (lng middle) (max_radius self) (S2level self) (ev_loc event)
              else 0 \<le> distance \<and> distance \<le> max_r);
            timedelta_end = latest - ev_ts event;
            timedelta_start = ev_ts event - earliest
        in if timedelta_end < 0 \<and> event_in_range
           then (let latest_temp = latest + \<bar>timedelta_end\<bar>
                 in if latest_temp - earliest \<le> max_timedelta_seconds self
                    then (inside_circle @ [event], highest_timedelta + \<bar>timedelta_end\<bar>, latest_temp, earliest)
                    else (inside_circle, highest_timedelta, latest, earliest))
           else if timedelta_start < 0 \<and> event_in_range
           then (let earliest_temp = earliest - \<bar>timedelta_start\<bar>
                 in if latest - earliest_temp \<le> max_timedelta_seconds self
                    then (inside_circle @ [event], highest_timedelta + \<bar>timedelta_start\<bar>, latest, earliest_temp)
                    else (inside_circle, highest_timedelta, latest, earliest))
           else if timedelta_end \<ge> 0 \<and> timedelta_start \<ge> 0 \<and> event_in_range
           then (inside_circle @ [event], highest_timedelta, latest, earliest)
           else (inside_circle, highest_timedelta, latest, earliest)))"

definition get_count_and_coords_in_circle_within_timedelta ::
    "clustering_helper \<Rightarrow> s2_cover \<Rightarrow> location \<Rightarrow> event list \<Rightarrow> int \<Rightarrow> int \<Rightarrow> real \<Rightarrow> circle_state" where
  "get_count_and_coords_in_circle_within_timedelta self s2_contains middle keys earliest latest max_r =
     fold (count_step self s2_contains middle max_r) keys ([], 0, latest, earliest)"

definition get_earliest_timestamp_in_queue :: "event list \<Rightarrow> int result" where
  "get_earliest_timestamp_in_queue queue =
     (case queue of [] \<Rightarrow> Inl IndexError
      | e # _ \<Rightarrow> Inr (fold (\<lambda>item earliest. if earliest > ev_ts item then ev_ts item else earliest) queue (ev_ts e)))"

definition get_latest_timestamp_in_queue :: "event list \<Rightarrow> int result" where
  "get_latest_timestamp_in_queue queue =
     (case queue of [] \<Rightarrow> Inl IndexError
      | e # _ \<Rightarrow> Inr (fold (\<lambda>item latest. if latest < ev_ts item then ev_ts item else latest) queue (ev_ts e)))"

text \<open>
  The start of a circle: the middle, its earliest and latest timestamp, the event farthest away
  and its distance.
\<close>

definition circle_start ::
    "clustering_helper \<Rightarrow> event \<Rightarrow> relation list \<Rightarrow> real \<Rightarrow> (location \<times> int \<times> int \<times> event \<times> real) result" where
  "circle_start self event to_be_inspected max_r =
     (if previously_clustered event
      then Inr (ev_loc event, ev_ts event - ev_delta event, ev_ts event, event, max_r)
      else res_bind (get_farthest_in_relation self to_be_inspected) (\<lambda>(farthest_away, distance_to_farthest).
           res_bind (get_earliest_timestamp_in_queue [event, farthest_away]) (\<lambda>earliest.
           res_bind (get_latest_timestamp_in_queue [event, farthest_away]) (\<lambda>latest.
           res_bind (get_middle_of_coord_list [ev_loc event, ev_loc farthest_away]) (\<lambda>middle.
             Inr (middle, earliest, latest, farthest_away, distance_to_farthest))))))"

function get_circle ::
    "clustering_helper \<Rightarrow> s2_cover \<Rightarrow> event \<Rightarrow> relation list \<Rightarrow> event list \<Rightarrow> real \<Rightarrow> (event \<times> event list) result" where
  "get_circle self s2_contains event to_be_inspected keys max_r =
     (if length to_be_inspected \<le> 1 then Inr (event, [event])
      else (case circle_start self event to_be_inspected max_r of
        Inl e \<Rightarrow> Inl e
      | Inr (middle, earliest, latest, farthest_away, distance_to_farthest) \<Rightarrow>
          (let (events_in_circle, highest_timedelta, latest', _) =
                 get_count_and_coords_in_circle_within_timedelta self s2_contains middle keys earliest latest max_r;
               count_inside = int (length events_in_circle);
               middle_event = Clustered latest' middle highest_timedelta True
           in if count_inside \<le> max_count_per_circle self \<and> count_inside = int (length to_be_inspected)
              then Inr (middle_event, events_in_circle)
              else if count_inside > max_count_per_circle self
              then (let rest = filter (\<lambda>to_keep. rel_other to_keep \<noteq> farthest_away) to_be_inspected
                    in if length rest < length to_be_inspected
                       then get_circle self s2_contains event rest keys distance_to_farthest
                       else Inl RuntimeError)
              else Inr (middle_event, events_in_circle))))"
  by pat_completeness auto
termination
  by (relation "measure (\<lambda>(self, s2, event, tbi, keys, r). length tbi)") auto

declare get_circle.simps [simp del]

section \<open>Removing what was clustered\<close>

text \<open>
  \<open>for relation in relations_to_source: if ...: relations[source_event].remove(relation)\<close>: both
  names are the same list, so the iteration skips the element after a removed one.
\<close>

function prune_relations :: "location \<Rightarrow> nat \<Rightarrow> relation list \<Rightarrow> relation list" where
  "prune_relations l i rs =
     (if i < length rs
      then prune_relations l (Suc i) (if ev_loc (rel_other (rs ! i)) = l then remove1 (rs ! i) rs else rs)
      else rs)"
  by pat_completeness auto
termination
proof (relation "measure (\<lambda>(l, i, rs). length rs - i)")
  fix l :: location and i :: nat and rs :: "relation list"
  assume "i < length rs"
  moreover have "length (if ev_loc (rel_other (rs ! i)) = l then remove1 (rs ! i) rs else rs) \<le> length rs"
    by (auto simp: length_remove1)
  ultimately show "((l, Suc i, if ev_loc (rel_other (rs ! i)) = l then remove1 (rs ! i) rs else rs), (l, i, rs))
      \<in> measure (\<lambda>(l, i, rs). length rs - i)"
    by simp
qed simp

declare prune_relations.simps [simp del]

text \<open>\<open>None\<close> when the source itself is popped.\<close>

fun remove_from_source :: "event \<Rightarrow> event list \<Rightarrow> relation list \<Rightarrow> relation list option" where
  "remove_from_source source [] rs = Some rs"
| "remove_from_source source (event # events) rs =
     (if event = source then None else remove_from_source source events (prune_relations (ev_loc event) 0 rs))"

definition remove_coords_from_relations :: "relations \<Rightarrow> event list \<Rightarrow> relations" where
  "remove_coords_from_relations relations events =
     List.map_filter (\<lambda>(source, rs). map_option (Pair source) (remove_from_source source events rs)) relations"

partial_function (option) sum_up_relations ::
    "clustering_helper \<Rightarrow> s2_cover \<Rightarrow> relations \<Rightarrow> (int \<times> location) list \<Rightarrow> (int \<times> location) list option" where
  "sum_up_relations self s2_contains relations final_set =
     (case get_most_west_amongst_relations relations of
        Inl _ \<Rightarrow> Some final_set
      | Inr west_next \<Rightarrow>
         (case get_circle self s2_contains west_next (the (map_of relations west_next)) (map fst relations)
                 (max_radius self) of
            Inl _ \<Rightarrow> sum_up_relations self s2_contains relations final_set
          | Inr (middle_event, events_to_be_removed) \<Rightarrow>
              sum_up_relations self s2_contains (remove_coords_from_relations relations events_to_be_removed)
                (final_set @ [(ev_ts middle_event, ev_loc middle_event)])))"

definition get_clustered :: "clustering_helper \<Rightarrow> s2_cover \<Rightarrow> (int \<times> location) list \<Rightarrow> (int \<times> location) list option" where
  "get_clustered self s2_contains queue =
     sum_up_relations self s2_contains
       (get_relations_in_range_within_time self (map (\<lambda>(t, l). Event t l) queue) (max_radius self)) []"

section \<open>The relations are complete and within bounds\<close>

definition relation_ok :: "clustering_helper \<Rightarrow> real \<Rightarrow> event set \<Rightarrow> event \<Rightarrow> relation \<Rightarrow> bool" where
  "relation_ok self max_r Q e r \<longleftrightarrow> rel_other r \<in> Q
     \<and> rel_distance r = dist_loc (ev_loc e) (ev_loc (rel_other r)) \<and> rel_distance r \<le> 2 * max_r
     \<and> rel_timedelta r = ev_ts e - ev_ts (rel_other r) \<and> 0 \<le> rel_timedelta r \<and> rel_timedelta r \<le> max_timedelta_seconds self"

definition relations_ok :: "clustering_helper \<Rightarrow> real \<Rightarrow> event set \<Rightarrow> relations \<Rightarrow> bool" where
  "relations_ok self max_r Q rels \<longleftrightarrow> dict_wf rels \<and>
     (\<forall>e rs. map_of rels e = Some rs \<longrightarrow> e \<in> Q \<and> (\<forall>r \<in> set rs. relation_ok self max_r Q e r))"

lemma relations_ok_update:
  "relations_ok self max_r Q rels \<Longrightarrow> e \<in> Q \<Longrightarrow> (\<forall>r \<in> set rs. relation_ok self max_r Q e r) \<Longrightarrow>
   relations_ok self max_r Q (AList.update e rs rels)"
  by (simp add: relations_ok_def dict_simps)

lemma relations_ok_known:
  "relations_ok self max_r Q rels \<Longrightarrow>
   \<forall>r \<in> set (case map_of rels e of None \<Rightarrow> [] | Some rs \<Rightarrow> rs). relation_ok self max_r Q e r"
  by (cases "map_of rels e") (auto simp: relations_ok_def)

lemma relate_ok:
  assumes "relations_ok self max_r Q rels" and "e \<in> Q" and "other \<in> Q"
  shows "relations_ok self max_r Q (relate self max_r e other rels)"
proof -
  define rels1 where "rels1 = (if lat (ev_loc e) = lat (ev_loc other) \<and> lng (ev_loc e) = lng (ev_loc other)
               \<and> map_of rels e = None then AList.update e [] rels else rels)"
  have ok1: "relations_ok self max_r Q rels1"
    using assms by (simp add: rels1_def relations_ok_update)
  let ?new = "\<lparr>rel_other = other, rel_distance = dist_loc (ev_loc e) (ev_loc other), rel_timedelta = ev_ts e - ev_ts other\<rparr>"
  have new: "relation_ok self max_r Q e ?new"
    if "dist_loc (ev_loc e) (ev_loc other) \<le> max_r * 2" "0 \<le> ev_ts e - ev_ts other"
      "ev_ts e - ev_ts other \<le> max_timedelta_seconds self"
    using that assms(3) by (simp add: relation_ok_def)
  show ?thesis
    unfolding relate_def rels1_def [symmetric] Let_def
    using ok1 relations_ok_known [OF ok1, of e] new assms(2)
    by (simp add: relations_ok_update ball_Un)
qed

lemma relate_keys: "fst ` set rels \<subseteq> fst ` set (relate self max_r e other rels)"
  by (auto simp: relate_def Let_def keys_update)

lemma relate_self_key: "ev_loc e = ev_loc other \<Longrightarrow> e \<in> fst ` set (relate self max_r e other rels)"
  by (auto simp: relate_def Let_def keys_update map_of_None_keys)

lemma fold_relate_ok:
  "relations_ok self max_r Q rels \<Longrightarrow> e \<in> Q \<Longrightarrow> set others \<subseteq> Q \<Longrightarrow>
   relations_ok self max_r Q (fold (relate self max_r e) others rels)"
  by (induction others arbitrary: rels) (auto intro: relate_ok)

lemma fold_relate_keys: "fst ` set rels \<subseteq> fst ` set (fold (relate self max_r e) others rels)"
proof (induction others arbitrary: rels)
  case (Cons x xs)
  show ?case using relate_keys [of rels self max_r e x] Cons.IH [of "relate self max_r e x rels"] by simp
qed simp

lemma fold_relate_self: "e \<in> set others \<Longrightarrow> e \<in> fst ` set (fold (relate self max_r e) others rels)"
proof (induction others arbitrary: rels)
  case (Cons x xs)
  show ?case
  proof (cases "x = e")
    case True
    then show ?thesis
      using relate_self_key [of e x self max_r rels] fold_relate_keys [of "relate self max_r e x rels" self max_r e xs] by auto
  next
    case False
    with Cons show ?thesis by simp
  qed
qed simp

lemma get_relations_ok:
  "relations_ok self max_r (set queue) (get_relations_in_range_within_time self queue max_r)"
proof -
  have "relations_ok self max_r (set queue)
      (fold (\<lambda>event relations. fold (relate self max_r event) queue relations) es rels)"
    if "relations_ok self max_r (set queue) rels" "set es \<subseteq> set queue" for es rels
    using that by (induction es arbitrary: rels) (auto intro: fold_relate_ok)
  moreover have "relations_ok self max_r (set queue) []" by (simp add: relations_ok_def)
  ultimately show ?thesis by (simp add: get_relations_in_range_within_time_def)
qed

lemma get_relations_keys: "fst ` set (get_relations_in_range_within_time self queue max_r) = set queue"
proof
  show "fst ` set (get_relations_in_range_within_time self queue max_r) \<subseteq> set queue"
    using get_relations_ok [of self max_r queue] by (auto simp: relations_ok_def in_dict_iff)
  let ?f = "\<lambda>event relations. fold (relate self max_r event) queue relations"
  have mono: "fst ` set rels \<subseteq> fst ` set (fold ?f es rels)" for es rels
  proof (induction es arbitrary: rels)
    case (Cons x xs)
    from subset_trans [OF fold_relate_keys [of rels self max_r x queue] Cons.IH [of "?f x rels"]]
    show ?case by (simp only: fold_simps(2))
  qed simp
  have "e \<in> fst ` set (fold ?f es rels)" if "e \<in> set es" "set es \<subseteq> set queue" for e es rels
    using that
  proof (induction es arbitrary: rels)
    case (Cons x xs)
    show ?case
    proof (cases "e = x")
      case True
      have "x \<in> fst ` set (?f x rels)" using Cons.prems(2) by (intro fold_relate_self) simp
      with True mono [of "?f x rels" xs] show ?thesis by (simp only: fold_simps(2)) (rule subsetD)
    next
      case False
      with Cons.prems Cons.IH [of "?f x rels"] show ?thesis by (simp only: fold_simps(2)) simp
    qed
  qed simp
  then show "set queue \<subseteq> fst ` set (get_relations_in_range_within_time self queue max_r)"
    by (auto simp: get_relations_in_range_within_time_def)
qed

section \<open>One circle\<close>

lemma fold_choice:
  assumes "\<And>x y. f x y = x \<or> f x y = y"
  shows "fold f xs z \<in> insert z (set xs)"
proof (induction xs arbitrary: z)
  case (Cons x xs)
  from Cons.IH [of "f x z"] assms [of x z] show ?case by auto
qed simp

lemma most_west_key:
  assumes "get_most_west_amongst_relations rels = Inr e"
  shows "e \<in> fst ` set rels"
proof -
  obtain k ks where k: "map fst rels = k # ks" and e: "e = fold more_west (k # ks) k"
    using assms by (auto simp: get_most_west_amongst_relations_def split: list.splits)
  have "e \<in> insert k (set (k # ks))"
    unfolding e by (rule fold_choice) (simp add: more_west_def)
  then have "e \<in> set (map fst rels)" using k by auto
  then show ?thesis by simp
qed

lemma most_west_fails: "get_most_west_amongst_relations rels = Inl err \<longleftrightarrow> rels = [] \<and> err = IndexError"
  by (cases rels) (auto simp: get_most_west_amongst_relations_def)

lemma farthest_some:
  assumes "tbi \<noteq> []" and "\<forall>r \<in> set tbi. 0 \<le> rel_distance r \<and> rel_timedelta r \<le> max_timedelta_seconds self"
  shows "\<exists>r \<in> set tbi. get_farthest_in_relation self tbi = Inr (rel_other r, rel_distance r) \<and>
    (\<forall>q \<in> set tbi. rel_distance q \<le> rel_distance r)"
proof -
  let ?f = "\<lambda>relation (distance, farthest).
            if rel_timedelta relation \<le> max_timedelta_seconds self \<and> distance < rel_distance relation
            then (rel_distance relation, Some relation) else (distance, farthest)"
  have step: "\<exists>r. fold ?f rs (rel_distance r0, Some r0) = (rel_distance r, Some r) \<and> r \<in> insert r0 (set rs) \<and>
      (\<forall>q \<in> insert r0 (set rs). rel_distance q \<le> rel_distance r)"
    if "\<forall>r \<in> set rs. rel_timedelta r \<le> max_timedelta_seconds self" for rs r0
    using that
  proof (induction rs arbitrary: r0)
    case (Cons a rs)
    then have a: "rel_timedelta a \<le> max_timedelta_seconds self" by simp
    show ?case
    proof (cases "rel_distance r0 < rel_distance a")
      case True
      with Cons.IH [of a] Cons.prems a show ?thesis by fastforce
    next
      case False
      with Cons.IH [of r0] Cons.prems a show ?thesis by fastforce
    qed
  qed simp
  obtain x xs where x: "tbi = x # xs" using assms(1) by (cases tbi) auto
  with assms(2) have "fold ?f tbi (- 1, None) = fold ?f xs (rel_distance x, Some x)" by simp
  moreover obtain r where "fold ?f xs (rel_distance x, Some x) = (rel_distance r, Some r)"
      and "r \<in> set tbi" and "\<forall>q \<in> set tbi. rel_distance q \<le> rel_distance r"
    using step [of xs x] assms(2) x by auto
  ultimately show ?thesis by (auto simp: get_farthest_in_relation_def)
qed

text \<open>The loop over the keys when no event was merged before and no cell cover is used.\<close>

lemma count_loop:
  assumes "\<not> useS2 self" and "\<forall>e \<in> set keys. \<not> previously_clustered e"
    and "fold (count_step self s2 middle max_r) keys (ins, hi, la, ea) = (ins', hi', la', ea')"
    and "ea \<le> la" and "la - ea \<le> max_timedelta_seconds self"
  shows "ea' \<le> ea \<and> la \<le> la' \<and> la' - ea' \<le> max_timedelta_seconds self \<and>
    (\<exists>new. ins' = ins @ new \<and> set new \<subseteq> set keys \<and>
       (\<forall>e \<in> set new. dist_loc middle (ev_loc e) \<le> max_r \<and> ea' \<le> ev_ts e \<and> ev_ts e \<le> la') \<and>
       (\<forall>e \<in> set keys. dist_loc middle (ev_loc e) \<le> max_r \<longrightarrow> ea \<le> ev_ts e \<longrightarrow> ev_ts e \<le> la \<longrightarrow> e \<in> set new))"
  using assms(2-)
proof (induction keys arbitrary: ins hi la ea)
  case Nil
  then show ?case by simp
next
  case (Cons x xs)
  obtain ins1 hi1 la1 ea1 where st: "count_step self s2 middle max_r x (ins, hi, la, ea) = (ins1, hi1, la1, ea1)"
    by (cases "count_step self s2 middle max_r x (ins, hi, la, ea)") auto
  have one: "ea1 \<le> ea \<and> la \<le> la1 \<and> la1 - ea1 \<le> max_timedelta_seconds self \<and>
      (ins1 = ins \<and> \<not> (dist_loc middle (ev_loc x) \<le> max_r \<and> ea \<le> ev_ts x \<and> ev_ts x \<le> la) \<or>
       ins1 = ins @ [x] \<and> dist_loc middle (ev_loc x) \<le> max_r \<and> ea1 \<le> ev_ts x \<and> ev_ts x \<le> la1)"
    using st Cons.prems(1,3,4) assms(1)
    by (auto simp: count_step_def Let_def split: if_splits)
  have "fold (count_step self s2 middle max_r) xs (ins1, hi1, la1, ea1) = (ins', hi', la', ea')"
    using Cons.prems(2) st by simp
  from Cons.IH [OF _ this] Cons.prems(1) one Cons.prems(3)
  have rec: "ea' \<le> ea1 \<and> la1 \<le> la' \<and> la' - ea' \<le> max_timedelta_seconds self"
    and "\<exists>new. ins' = ins1 @ new \<and> set new \<subseteq> set xs \<and>
       (\<forall>e \<in> set new. dist_loc middle (ev_loc e) \<le> max_r \<and> ea' \<le> ev_ts e \<and> ev_ts e \<le> la') \<and>
       (\<forall>e \<in> set xs. dist_loc middle (ev_loc e) \<le> max_r \<longrightarrow> ea1 \<le> ev_ts e \<longrightarrow> ev_ts e \<le> la1 \<longrightarrow> e \<in> set new)"
    by auto
  then obtain new where new: "ins' = ins1 @ new" "set new \<subseteq> set xs"
       "\<forall>e \<in> set new. dist_loc middle (ev_loc e) \<le> max_r \<and> ea' \<le> ev_ts e \<and> ev_ts e \<le> la'"
       "\<forall>e \<in> set xs. dist_loc middle (ev_loc e) \<le> max_r \<longrightarrow> ea1 \<le> ev_ts e \<longrightarrow> ev_ts e \<le> la1 \<longrightarrow> e \<in> set new"
    by blast
  from one consider (out) "ins1 = ins" "\<not> (dist_loc middle (ev_loc x) \<le> max_r \<and> ea \<le> ev_ts x \<and> ev_ts x \<le> la)"
    | (inn) "ins1 = ins @ [x]" "dist_loc middle (ev_loc x) \<le> max_r \<and> ea1 \<le> ev_ts x \<and> ev_ts x \<le> la1"
    by blast
  then show ?case
  proof cases
    case out
    with new one rec show ?thesis by (intro conjI exI [of _ new]) auto
  next
    case inn
    with new one rec show ?thesis by (intro conjI exI [of _ "x # new"]) auto
  qed
qed

text \<open>What a circle promises about the event it was built for.\<close>

definition circle_ok :: "clustering_helper \<Rightarrow> real \<Rightarrow> event \<Rightarrow> event list \<Rightarrow> event \<times> event list \<Rightarrow> bool" where
  "circle_ok self R e keys = (\<lambda>(mid, evs). e \<in> set evs \<and> set evs \<subseteq> set keys
     \<and> int (length evs) \<le> max 1 (max_count_per_circle self)
     \<and> (\<forall>x \<in> set evs. dist_loc (ev_loc mid) (ev_loc x) \<le> R
          \<and> 0 \<le> ev_ts mid - ev_ts x \<and> ev_ts mid - ev_ts x \<le> max_timedelta_seconds self))"

lemma circle_start_ok:
  assumes "\<not> previously_clustered e" and "tbi \<noteq> []"
    and "\<forall>r \<in> set tbi. relation_ok self max_r Q e r" and "2 * max_r < 6373000 * pi"
  shows "\<exists>m r. circle_start self e tbi rad = Inr (m, ev_ts (rel_other r), ev_ts e, rel_other r, rel_distance r) \<and>
    r \<in> set tbi \<and> (\<forall>q \<in> set tbi. rel_distance q \<le> rel_distance r) \<and> dist_loc m (ev_loc e) = rel_distance r / 2"
proof -
  have "\<forall>r \<in> set tbi. 0 \<le> rel_distance r \<and> rel_timedelta r \<le> max_timedelta_seconds self"
    using assms(3) unfolding relation_ok_def by (metis distance_nonneg)
  from farthest_some [OF assms(2) this]
  obtain r where r: "r \<in> set tbi" "get_farthest_in_relation self tbi = Inr (rel_other r, rel_distance r)"
      "\<forall>q \<in> set tbi. rel_distance q \<le> rel_distance r"
    by blast
  have ok: "relation_ok self max_r Q e r" using r(1) assms(3) by blast
  obtain m where m: "get_middle_of_coord_list [ev_loc e, ev_loc (rel_other r)] = Inr m"
    by (simp add: get_middle_of_coord_list_def split_beta Let_def)
  have "dist_loc m (ev_loc e) = rel_distance r / 2"
    using middle_two_halfway [OF m] ok assms(4) by (simp add: relation_ok_def)
  with r m ok assms(1) show ?thesis
    by (intro exI [of _ m] exI [of _ r])
      (simp add: circle_start_def get_earliest_timestamp_in_queue_def get_latest_timestamp_in_queue_def relation_ok_def)
qed

lemma get_circle_ok:
  assumes "\<not> useS2 self" and "\<forall>k \<in> set keys. \<not> previously_clustered k" and "e \<in> set keys"
    and "\<forall>r \<in> set tbi. relation_ok self max_r Q e r" and "2 * max_r < 6373000 * pi" and "0 \<le> max_r"
    and "0 \<le> max_timedelta_seconds self" and "\<forall>r \<in> set tbi. rel_distance r / 2 \<le> rad" and "rad \<le> 2 * max_r"
  shows "\<exists>res. get_circle self s2 e tbi keys rad = Inr res \<and> circle_ok self (2 * max_r) e keys res"
  using assms(4,8,9)
proof (induction tbi arbitrary: rad rule: measure_induct_rule [of length])
  case (less tbi)
  show ?case
  proof (cases "length tbi \<le> 1")
    case True
    then show ?thesis
      using assms(3,6,7) by (intro exI [of _ "(e, [e])"]) (simp add: get_circle.simps [of self s2 e tbi] circle_ok_def)
  next
    case False
    then have "tbi \<noteq> []" by auto
    from circle_start_ok [OF _ this less.prems(1) assms(5)] assms(2,3)
    obtain m r where st: "circle_start self e tbi rad = Inr (m, ev_ts (rel_other r), ev_ts e, rel_other r, rel_distance r)"
      and r: "r \<in> set tbi" "\<forall>q \<in> set tbi. rel_distance q \<le> rel_distance r" and mid: "dist_loc m (ev_loc e) = rel_distance r / 2"
      by blast
    obtain ev hi la ea where cnt:
        "get_count_and_coords_in_circle_within_timedelta self s2 m keys (ev_ts (rel_other r)) (ev_ts e) rad = (ev, hi, la, ea)"
      by (cases "get_count_and_coords_in_circle_within_timedelta self s2 m keys (ev_ts (rel_other r)) (ev_ts e) rad") auto
    have rok: "relation_ok self max_r Q e r" using r(1) less.prems(1) by blast
    from count_loop [OF assms(1,2) cnt [unfolded get_count_and_coords_in_circle_within_timedelta_def]] rok
    have bnd: "la - ea \<le> max_timedelta_seconds self" "set ev \<subseteq> set keys"
        "\<forall>x \<in> set ev. dist_loc m (ev_loc x) \<le> rad \<and> ea \<le> ev_ts x \<and> ev_ts x \<le> la"
        "\<forall>x \<in> set keys. dist_loc m (ev_loc x) \<le> rad \<longrightarrow> ev_ts (rel_other r) \<le> ev_ts x \<longrightarrow> ev_ts x \<le> ev_ts e \<longrightarrow> x \<in> set ev"
      by (auto simp: relation_ok_def)
    have "rel_distance r / 2 \<le> rad" using r(1) less.prems(2) by blast
    then have "dist_loc m (ev_loc e) \<le> rad" by (simp only: mid)
    then have ein: "e \<in> set ev" using bnd(4) assms(3) rok by (simp add: relation_ok_def)
    have fin: "circle_ok self (2 * max_r) e keys (Clustered la m hi True, ev)"
      if "int (length ev) \<le> max_count_per_circle self"
      using that bnd(1,2,3) ein less.prems(3) by (fastforce simp: circle_ok_def)
    let ?rest = "filter (\<lambda>to_keep. rel_other to_keep \<noteq> rel_other r) tbi"
    have shrink: "length ?rest < length tbi" using r(1) by (intro length_filter_less) auto
    have "rel_distance q / 2 \<le> rel_distance r" if "q \<in> set tbi" for q
    proof -
      have "0 \<le> rel_distance q" and "rel_distance q \<le> rel_distance r"
        using r(2) that less.prems(1) unfolding relation_ok_def by (metis distance_nonneg, blast)
      then show ?thesis by simp
    qed
    then have "\<exists>res. get_circle self s2 e ?rest keys (rel_distance r) = Inr res \<and> circle_ok self (2 * max_r) e keys res"
      using shrink less.prems(1) rok by (intro less.IH) (auto simp: relation_ok_def)
    moreover have "get_circle self s2 e tbi keys rad =
        (if int (length ev) \<le> max_count_per_circle self then Inr (Clustered la m hi True, ev)
         else get_circle self s2 e ?rest keys (rel_distance r))"
      using False shrink by (subst get_circle.simps) (simp add: st cnt Let_def)
    ultimately show ?thesis using fin by auto
  qed
qed

section \<open>The loop\<close>

lemma prune_relations_subset: "set (prune_relations l i rs) \<subseteq> set rs"
proof (induction l i rs rule: prune_relations.induct)
  case (1 l i rs)
  let ?rs = "if ev_loc (rel_other (rs ! i)) = l then remove1 (rs ! i) rs else rs"
  have "set ?rs \<subseteq> set rs" using set_remove1_subset [of "rs ! i" rs] by simp
  show ?case
  proof (cases "i < length rs")
    case True
    have "set (prune_relations l (Suc i) ?rs) \<subseteq> set rs"
      by (rule subset_trans [OF "1.IH" [OF True] \<open>set ?rs \<subseteq> set rs\<close>])
    then show ?thesis by (subst prune_relations.simps) (simp only: True if_True)
  next
    case False
    then show ?thesis by (subst prune_relations.simps) simp
  qed
qed

lemma remove_from_source_None: "remove_from_source source events rs = None \<longleftrightarrow> source \<in> set events"
  by (induction source events rs rule: remove_from_source.induct) auto

lemma remove_from_source_subset: "remove_from_source source events rs = Some rs' \<Longrightarrow> set rs' \<subseteq> set rs"
proof (induction source events rs rule: remove_from_source.induct)
  case (2 source event events rs)
  then show ?case using prune_relations_subset [of "ev_loc event" 0 rs] by (auto split: if_splits)
qed simp

lemma map_of_map_filter_pair:
  "distinct (map fst rels) \<Longrightarrow>
   map_of (List.map_filter (\<lambda>(k, v). map_option (Pair k) (g k v)) rels) x = Option.bind (map_of rels x) (g x) \<and>
   map fst (List.map_filter (\<lambda>(k, v). map_option (Pair k) (g k v)) rels)
     = filter (\<lambda>k. Option.bind (map_of rels k) (g k) \<noteq> None) (map fst rels)"
proof (induction rels)
  case (Cons kv rels)
  obtain k v where kv: "kv = (k, v)" by (cases kv)
  have "map_of rels k = None" using Cons.prems kv by (simp add: map_of_eq_None_iff)
  moreover have "filter (\<lambda>j. Option.bind (map_of rels j) (g j) \<noteq> None) (map fst rels)
      = filter (\<lambda>j. Option.bind (if j = k then Some v else map_of rels j) (g j) \<noteq> None) (map fst rels)"
    using Cons.prems kv by (intro filter_cong) auto
  ultimately show ?case
    using Cons kv by (cases "g k v") (auto simp: map_filter_simps)
qed (simp add: map_filter_simps)

lemma map_of_remove_coords:
  "dict_wf rels \<Longrightarrow> map_of (remove_coords_from_relations rels events) x
     = Option.bind (map_of rels x) (remove_from_source x events)"
  using map_of_map_filter_pair [of rels "\<lambda>source. remove_from_source source events" x]
  by (simp add: remove_coords_from_relations_def dict_wf_def)

lemma keys_remove_coords:
  assumes "dict_wf rels"
  shows "map fst (remove_coords_from_relations rels events) = filter (\<lambda>k. k \<notin> set events) (map fst rels)"
proof -
  have "Option.bind (map_of rels k) (remove_from_source k events) \<noteq> None \<longleftrightarrow> k \<notin> set events" if "k \<in> set (map fst rels)" for k
    using that by (cases "map_of rels k") (auto simp: map_of_eq_None_iff remove_from_source_None)
  then have "filter (\<lambda>k. Option.bind (map_of rels k) (remove_from_source k events) \<noteq> None) (map fst rels)
      = filter (\<lambda>k. k \<notin> set events) (map fst rels)"
    by (intro filter_cong) auto
  with assms map_of_map_filter_pair [of rels "\<lambda>source. remove_from_source source events"] show ?thesis
    by (simp add: remove_coords_from_relations_def dict_wf_def)
qed

lemma remove_coords_ok:
  assumes "relations_ok self max_r Q rels"
  shows "relations_ok self max_r Q (remove_coords_from_relations rels events)"
proof -
  have "dict_wf rels" using assms by (simp add: relations_ok_def)
  moreover from this have "dict_wf (remove_coords_from_relations rels events)"
    by (simp add: dict_wf_def keys_remove_coords)
  ultimately show ?thesis
    using assms remove_from_source_subset
    by (fastforce simp: relations_ok_def map_of_remove_coords bind_eq_Some_conv)
qed

text \<open>
  What the loop promises of its result \<open>out\<close>, started with the keys \<open>ks\<close>: every key is within reach
  of a cluster, and clusters are neither empty nor too big.
\<close>

definition covered :: "clustering_helper \<Rightarrow> event list \<Rightarrow> (int \<times> location) list \<Rightarrow> bool" where
  "covered self ks out \<longleftrightarrow> length out \<le> length ks
     \<and> int (length ks) \<le> max 1 (max_count_per_circle self) * int (length out)
     \<and> (\<forall>e \<in> set ks. \<exists>(ct, cl) \<in> set out. dist_loc cl (ev_loc e) \<le> 2 * max_radius self
          \<and> 0 \<le> ct - ev_ts e \<and> ct - ev_ts e \<le> max_timedelta_seconds self)"

lemma covered_step:
  assumes "circle_ok self (2 * max_radius self) w ks (mid, evs)" and "w \<in> set ks" and "distinct ks"
    and "covered self (filter (\<lambda>k. k \<notin> set evs) ks) out"
  shows "covered self ks ((ev_ts mid, ev_loc mid) # out)"
proof -
  let ?in = "filter (\<lambda>k. k \<in> set evs) ks" and ?out = "filter (\<lambda>k. k \<notin> set evs) ks" and ?M = "max 1 (max_count_per_circle self)"
  have sum: "length ?in + length ?out = length ks" by (rule sum_length_filter_compl)
  have w: "w \<in> set ?in" using assms(1,2) by (simp add: circle_ok_def)
  then have pos: "0 < length ?in" by (cases ?in) auto
  have "length ?in \<le> length evs"
  proof -
    have "length ?in = card (set ?in)" using distinct_card [OF distinct_filter [OF assms(3)], of "\<lambda>k. k \<in> set evs"] by (rule sym)
    also have "\<dots> \<le> card (set evs)" by (rule card_mono) auto
    also have "\<dots> \<le> length evs" by (rule card_length)
    finally show ?thesis .
  qed
  then have bnd: "int (length ?in) \<le> ?M" using assms(1) by (simp add: circle_ok_def)
  have rest: "length out \<le> length ?out" "int (length ?out) \<le> ?M * int (length out)"
    using assms(4) by (simp_all only: covered_def)
  have "int (length ks) = int (length ?in) + int (length ?out)" using sum by simp
  also have "\<dots> \<le> ?M + ?M * int (length out)" using bnd rest(2) by (rule add_mono)
  also have "\<dots> = ?M * int (Suc (length out))" by (simp add: algebra_simps)
  finally have "int (length ks) \<le> ?M * int (Suc (length out))" .
  moreover have "Suc (length out) \<le> length ks" using pos rest(1) sum by linarith
  moreover have "\<exists>(ct, cl) \<in> set ((ev_ts mid, ev_loc mid) # out). dist_loc cl (ev_loc e) \<le> 2 * max_radius self
          \<and> 0 \<le> ct - ev_ts e \<and> ct - ev_ts e \<le> max_timedelta_seconds self" if "e \<in> set ks" for e
  proof (cases "e \<in> set evs")
    case True
    with assms(1) show ?thesis by (auto simp: circle_ok_def)
  next
    case False
    with assms(4) that show ?thesis by (auto simp: covered_def)
  qed
  ultimately show ?thesis unfolding covered_def by simp
qed

lemma sum_up_covers:
  assumes "\<not> useS2 self" and "0 \<le> max_radius self" and "2 * max_radius self < 6373000 * pi"
    and "0 \<le> max_timedelta_seconds self" and "\<forall>e \<in> Q. \<not> previously_clustered e"
    and "relations_ok self (max_radius self) Q rels"
  shows "\<exists>out. sum_up_relations self s2 rels acc = Some (acc @ out) \<and> covered self (map fst rels) out"
  using assms(6)
proof (induction rels arbitrary: acc rule: measure_induct_rule [of length])
  case (less rels)
  show ?case
  proof (cases "get_most_west_amongst_relations rels")
    case (Inl err)
    then show ?thesis
      by (subst sum_up_relations.simps) (simp add: Inl, use Inl in \<open>simp add: most_west_fails covered_def\<close>)
  next
    case (Inr w)
    have wk: "w \<in> set (map fst rels)" using most_west_key [OF Inr] by simp
    have wf: "dict_wf rels" and mem: "\<And>e rs. map_of rels e = Some rs \<Longrightarrow> e \<in> Q \<and> (\<forall>r \<in> set rs. relation_ok self (max_radius self) Q e r)"
      using less.prems by (auto simp: relations_ok_def)
    have keys: "k \<in> Q" if "k \<in> set (map fst rels)" for k
      using that mem by (metis list.set_map map_of_eq_None_iff option.exhaust)
    obtain rs where rs: "map_of rels w = Some rs" using wk by (metis list.set_map map_of_eq_None_iff option.exhaust)
    have near: "\<forall>r \<in> set rs. rel_distance r / 2 \<le> max_radius self"
    proof
      fix r assume "r \<in> set rs"
      then have "rel_distance r \<le> 2 * max_radius self" using mem [OF rs] unfolding relation_ok_def by blast
      then show "rel_distance r / 2 \<le> max_radius self" by simp
    qed
    have "\<exists>res. get_circle self s2 w rs (map fst rels) (max_radius self) = Inr res \<and>
        circle_ok self (2 * max_radius self) w (map fst rels) res"
      using assms(1-5) wk keys mem [OF rs] near by (intro get_circle_ok) auto
    then obtain mid evs where circ: "get_circle self s2 w rs (map fst rels) (max_radius self) = Inr (mid, evs)"
        and ok: "circle_ok self (2 * max_radius self) w (map fst rels) (mid, evs)"
      by auto
    let ?rels = "remove_coords_from_relations rels evs"
    have ks: "map fst ?rels = filter (\<lambda>k. k \<notin> set evs) (map fst rels)"
      by (rule keys_remove_coords [OF wf])
    have "length (filter (\<lambda>k. k \<notin> set evs) (map fst rels)) < length (map fst rels)"
      using wk ok by (intro length_filter_less [of w]) (auto simp: circle_ok_def)
    then have "length ?rels < length rels" by (metis ks length_map)
    from less.IH [OF this remove_coords_ok [OF less.prems], of "acc @ [(ev_ts mid, ev_loc mid)]"]
    obtain out where out: "sum_up_relations self s2 ?rels (acc @ [(ev_ts mid, ev_loc mid)])
          = Some ((acc @ [(ev_ts mid, ev_loc mid)]) @ out)" "covered self (map fst ?rels) out"
      by blast
    have "covered self (map fst rels) ((ev_ts mid, ev_loc mid) # out)"
      using covered_step [OF ok wk] wf out(2) ks by (simp add: dict_wf_def)
    moreover have "sum_up_relations self s2 rels acc = Some (acc @ (ev_ts mid, ev_loc mid) # out)"
      by (subst sum_up_relations.simps) (simp add: Inr rs circ out(1))
    ultimately show ?thesis by blast
  qed
qed

lemma get_clustered_covered:
  assumes "\<not> useS2 self" and "0 \<le> max_radius self" and "2 * max_radius self < 6373000 * pi"
    and "0 \<le> max_timedelta_seconds self"
  shows "\<exists>out ks. get_clustered self s2 queue = Some out \<and> covered self ks out \<and> distinct ks \<and>
    set ks = (\<lambda>(t, l). Event t l) ` set queue"
proof -
  let ?q = "map (\<lambda>(t, l). Event t l) queue"
  let ?rels = "get_relations_in_range_within_time self ?q (max_radius self)"
  have "\<forall>e \<in> set ?q. \<not> previously_clustered e" by auto
  from sum_up_covers [OF assms this get_relations_ok, of s2 "[]"]
  obtain out where "sum_up_relations self s2 ?rels [] = Some out" "covered self (map fst ?rels) out" by auto
  moreover have "distinct (map fst ?rels)"
    using get_relations_ok [of self "max_radius self" ?q] by (simp add: relations_ok_def dict_wf_def)
  moreover have "set (map fst ?rels) = (\<lambda>(t, l). Event t l) ` set queue"
    using get_relations_keys [of self ?q "max_radius self"] by simp
  ultimately show ?thesis unfolding get_clustered_def by blast
qed

section \<open>Properties\<close>

text \<open>
  C19. Clustering always returns, and it loses no event: every event of the input is within twice the
  radius of a cluster whose timestamp is not before the event and at most the allowed time after it.
  The loop of \<open>_sum_up_relations\<close> retries for ever on an exception, so returning is part of the claim.
\<close>

theorem get_clustered_covers:
  assumes "\<not> useS2 self" and "0 \<le> max_radius self" and "2 * max_radius self < 6373000 * pi"
    and "0 \<le> max_timedelta_seconds self"
  shows "\<exists>out. get_clustered self s2_contains queue = Some out \<and>
    (\<forall>(t, l) \<in> set queue. \<exists>(ct, cl) \<in> set out. dist_loc cl l \<le> 2 * max_radius self \<and>
       t \<le> ct \<and> ct \<le> t + max_timedelta_seconds self)"
proof -
  obtain out ks where out: "get_clustered self s2_contains queue = Some out" "covered self ks out"
      "set ks = (\<lambda>(t, l). Event t l) ` set queue"
    using get_clustered_covered [OF assms] by blast
  have "\<exists>(ct, cl) \<in> set out. dist_loc cl l \<le> 2 * max_radius self \<and> t \<le> ct \<and> ct \<le> t + max_timedelta_seconds self"
    if "(t, l) \<in> set queue" for t l
  proof -
    have "Event t l \<in> set ks" using that out(3) by force
    with out(2) show ?thesis by (fastforce simp: covered_def)
  qed
  with out(1) show ?thesis by auto
qed

text \<open>
  A cluster is never empty and never holds more than the allowed number of events (one, when the
  bound is smaller): the number of clusters is at most the number of distinct events and at least that
  number divided by the bound.
\<close>

theorem get_clustered_count:
  assumes "\<not> useS2 self" and "0 \<le> max_radius self" and "2 * max_radius self < 6373000 * pi"
    and "0 \<le> max_timedelta_seconds self"
  shows "\<exists>out. get_clustered self s2_contains queue = Some out \<and> length out \<le> card (set queue) \<and>
    int (card (set queue)) \<le> max 1 (max_count_per_circle self) * int (length out)"
proof -
  obtain out ks where out: "get_clustered self s2_contains queue = Some out" "covered self ks out" "distinct ks"
      "set ks = (\<lambda>(t, l). Event t l) ` set queue"
    using get_clustered_covered [OF assms] by blast
  have "inj_on (\<lambda>(t, l). Event t l) (set queue)" by (auto simp: inj_on_def)
  then have "length ks = card (set queue)"
    using out(3,4) by (metis card_image distinct_card)
  with out(1,2) show ?thesis by (auto simp: covered_def)
qed

definition witness_helper :: clustering_helper where
  "witness_helper = \<lparr>max_radius = 490, max_count_per_circle = 2, max_timedelta_seconds = 60, useS2 = False, S2level = 30\<rparr>"

lemma witness_radius: "2 * max_radius witness_helper < 6373000 * pi"
proof -
  have "980 < 6373000 * pi" using pi_ge_two by simp
  then show ?thesis by (simp add: witness_helper_def)
qed

lemma get_clustered_covers_witness:
  "\<exists>out. get_clustered witness_helper (\<lambda>_ _ _ _ _. False) [(10, Loc 1 2), (20, Loc 1 2)] = Some out \<and>
    (\<exists>(ct, cl) \<in> set out. dist_loc cl (Loc 1 2) \<le> 980 \<and> 10 \<le> ct \<and> ct \<le> 70)"
  using get_clustered_covers [of witness_helper "\<lambda>_ _ _ _ _. False" "[(10, Loc 1 2), (20, Loc 1 2)]"] witness_radius
  by (auto simp: witness_helper_def)

lemma get_clustered_count_witness:
  "\<exists>out. get_clustered witness_helper (\<lambda>_ _ _ _ _. False) [(10, Loc 1 2), (20, Loc 1 2), (30, Loc 1 2)] = Some out \<and>
    2 \<le> length out \<and> length out \<le> 3"
  using get_clustered_count [of witness_helper "\<lambda>_ _ _ _ _. False" "[(10, Loc 1 2), (20, Loc 1 2), (30, Loc 1 2)]"] witness_radius
  by (auto simp: witness_helper_def)

text \<open>A single event is its own cluster.\<close>

lemma get_clustered_single:
  assumes "0 \<le> max_radius self" and "0 \<le> max_timedelta_seconds self"
  shows "get_clustered self s2 [(t, l)] = Some [(t, l)]"
proof -
  let ?e = "Event t l"
  let ?rels = "[(?e, [\<lparr>rel_other = ?e, rel_distance = 0, rel_timedelta = 0\<rparr>])]"
  have "get_relations_in_range_within_time self [?e] (max_radius self) = ?rels"
    using assms by (simp add: get_relations_in_range_within_time_def relate_def Let_def)
  moreover have "get_most_west_amongst_relations ?rels = Inr ?e"
    by (simp add: get_most_west_amongst_relations_def more_west_def)
  moreover have "get_circle self s2 ?e [\<lparr>rel_other = ?e, rel_distance = 0, rel_timedelta = 0\<rparr>] [?e] (max_radius self) = Inr (?e, [?e])"
    by (subst get_circle.simps) simp
  moreover have "remove_coords_from_relations ?rels [?e] = []"
    by (simp add: remove_coords_from_relations_def map_filter_simps)
  moreover have "sum_up_relations self s2 [] fs = Some fs" for fs
    by (subst sum_up_relations.simps) (simp add: get_most_west_amongst_relations_def)
  ultimately show ?thesis
    by (simp add: get_clustered_def) (subst sum_up_relations.simps, simp)
qed

end
