(* ===== verification/HeapQ.thy ===== *)
theory HeapQ
  imports MAD_Prelude
begin

text \<open>
  Python's \<open>heapq\<close> on a list, in the algorithm of the standard library: \<open>_siftdown\<close>, \<open>_siftup\<close>
  (the hole goes to a leaf along the smaller children, then the item rises), \<open>heapify\<close> and
  \<open>heappop\<close>. Elements compare by an integer key, as the entries of the route priority queue do.
  The locale \<open>min_queue\<close> is the interface the queue's clients use; it is interpreted here.
\<close>

section \<open>The algorithm\<close>

definition parent :: "nat \<Rightarrow> nat" where
  "parent i = (i - 1) div 2"

function siftdown :: "('a \<Rightarrow> int) \<Rightarrow> 'a \<Rightarrow> nat \<Rightarrow> nat \<Rightarrow> 'a list \<Rightarrow> 'a list" where
  "siftdown key newitem startpos pos heap =
     (if startpos < pos \<and> key newitem < key (heap ! parent pos)
      then siftdown key newitem startpos (parent pos) (heap[pos := heap ! parent pos])
      else heap[pos := newitem])"
  by pat_completeness auto
termination
  by (relation "measure (\<lambda>(key, x, s, p, h). p)") (auto simp: parent_def)

definition smaller_child :: "('a \<Rightarrow> int) \<Rightarrow> 'a list \<Rightarrow> nat \<Rightarrow> nat" where
  "smaller_child key heap pos =
     (let childpos = 2 * pos + 1; rightpos = childpos + 1
      in if rightpos < length heap \<and> \<not> key (heap ! childpos) < key (heap ! rightpos) then rightpos else childpos)"

function sink :: "('a \<Rightarrow> int) \<Rightarrow> nat \<Rightarrow> 'a list \<Rightarrow> nat \<times> 'a list" where
  "sink key pos heap =
     (if 2 * pos + 1 < length heap
      then sink key (smaller_child key heap pos) (heap[pos := heap ! smaller_child key heap pos])
      else (pos, heap))"
  by pat_completeness auto
termination
  by (relation "measure (\<lambda>(key, pos, heap). length heap - pos)") (auto simp: smaller_child_def Let_def)

declare siftdown.simps [simp del] sink.simps [simp del]

definition siftup :: "('a \<Rightarrow> int) \<Rightarrow> nat \<Rightarrow> 'a list \<Rightarrow> 'a list" where
  "siftup key pos heap =
     (let newitem = heap ! pos; (leaf, heap') = sink key pos heap
      in siftdown key newitem pos leaf (heap'[leaf := newitem]))"

definition heapify :: "('a \<Rightarrow> int) \<Rightarrow> 'a list \<Rightarrow> 'a list" where
  "heapify key heap = fold (siftup key) (rev [0..<length heap div 2]) heap"

definition heappop :: "('a \<Rightarrow> int) \<Rightarrow> 'a list \<Rightarrow> ('a \<times> 'a list) result" where
  "heappop key heap =
     (if heap = [] then Inl IndexError
      else let lastelt = last heap; rest = butlast heap
           in if rest = [] then Inr (lastelt, [])
              else Inr (rest ! 0, siftup key 0 (rest[0 := lastelt])))"

section \<open>Correctness\<close>

text \<open>Edges of the tree whose parent is at or after \<open>s\<close> are in order.\<close>

definition heap_from :: "('a \<Rightarrow> int) \<Rightarrow> nat \<Rightarrow> 'a list \<Rightarrow> bool" where
  "heap_from key s h \<longleftrightarrow> (\<forall>c < length h. 0 < c \<longrightarrow> s \<le> parent c \<longrightarrow> key (h ! parent c) \<le> key (h ! c))"

definition is_heap :: "('a \<Rightarrow> int) \<Rightarrow> 'a list \<Rightarrow> bool" where
  "is_heap key h \<longleftrightarrow> heap_from key 0 h"

text \<open>The same except at a hole \<open>pos\<close>, whose parent and children are in order across it.\<close>

definition heap_hole :: "('a \<Rightarrow> int) \<Rightarrow> nat \<Rightarrow> nat \<Rightarrow> 'a list \<Rightarrow> bool" where
  "heap_hole key s pos h \<longleftrightarrow>
     (\<forall>c < length h. 0 < c \<longrightarrow> s \<le> parent c \<longrightarrow> c \<noteq> pos \<longrightarrow> parent c \<noteq> pos \<longrightarrow> key (h ! parent c) \<le> key (h ! c)) \<and>
     (s < pos \<longrightarrow> (\<forall>c < length h. 0 < c \<longrightarrow> parent c = pos \<longrightarrow> key (h ! parent pos) \<le> key (h ! c)))"

text \<open>Positions below \<open>s\<close> in the tree.\<close>

inductive below :: "nat \<Rightarrow> nat \<Rightarrow> bool" for s where
  here: "below s s"
| child: "below s p \<Longrightarrow> 0 < c \<Longrightarrow> parent c = p \<Longrightarrow> below s c"

lemma parent_less: "0 < c \<Longrightarrow> parent c < c"
  by (simp add: parent_def)

lemma parent_eq_iff: "0 < c \<Longrightarrow> parent c = p \<longleftrightarrow> c = 2 * p + 1 \<or> c = 2 * p + 2"
  by (auto simp: parent_def)

lemma below_ge: "below s p \<Longrightarrow> s \<le> p"
proof (induction rule: below.induct)
  case (child p c)
  then show ?case using parent_less [of c] by simp
qed simp

lemma below_parent:
  assumes "below s p" and "s < p"
  shows "below s (parent p) \<and> s \<le> parent p"
  using assms(1)
proof (cases rule: below.cases)
  case here
  with assms(2) show ?thesis by simp
next
  case (child q)
  then show ?thesis using below_ge by simp
qed

text \<open>Moving the hole keeps the items: the list update that both loops perform.\<close>

lemma mset_move_hole:
  assumes "i < length h" and "j < length h" and "i \<noteq> j"
  shows "mset (h[i := h ! j, j := x]) = mset (h[i := x])"
proof -
  have "h[i := h ! j, j := x] = (h[i := x])[j := h[i := x] ! i, i := h[i := x] ! j]"
    using assms by (intro nth_equalityI) (auto simp: nth_list_update)
  then show ?thesis using assms by (simp only: mset_swap length_list_update)
qed

lemma smaller_child_props:
  assumes "2 * pos + 1 < length h"
  shows "smaller_child key h pos < length h \<and> 0 < smaller_child key h pos \<and> parent (smaller_child key h pos) = pos \<and>
    pos < smaller_child key h pos \<and>
    (\<forall>c < length h. 0 < c \<longrightarrow> parent c = pos \<longrightarrow> key (h ! smaller_child key h pos) \<le> key (h ! c))"
proof -
  have "0 < smaller_child key h pos" by (simp add: smaller_child_def Let_def)
  with assms show ?thesis
    by (auto simp: smaller_child_def Let_def parent_eq_iff)
qed

lemma siftdown_mset:
  "pos < length h \<Longrightarrow> mset (siftdown key x s pos h) = mset (h[pos := x])"
proof (induction key x s pos h rule: siftdown.induct)
  case (1 key x s pos h)
  show ?case
  proof (cases "s < pos \<and> key x < key (h ! parent pos)")
    case True
    then have p: "parent pos < length h" "parent pos \<noteq> pos"
      using parent_less [of pos] "1.prems" by auto
    from mset_move_hole [OF "1.prems" p(1) p(2) [symmetric], of x]
    show ?thesis using True "1.IH" p by (subst siftdown.simps) simp
  next
    case False
    then show ?thesis by (subst siftdown.simps) (simp only: if_False)
  qed
qed

lemma siftdown_length [simp]: "length (siftdown key x s pos h) = length h"
  by (induction key x s pos h rule: siftdown.induct) (subst siftdown.simps, auto)

lemma sink_props:
  assumes "pos < length h"
  shows "fst (sink key pos h) < length h \<and> length (snd (sink key pos h)) = length h \<and>
    mset ((snd (sink key pos h))[fst (sink key pos h) := x]) = mset (h[pos := x])"
  using assms
proof (induction key pos h rule: sink.induct)
  case (1 key pos h)
  show ?case
  proof (cases "2 * pos + 1 < length h")
    case True
    let ?c = "smaller_child key h pos"
    have c: "?c < length h" "?c \<noteq> pos"
      using smaller_child_props [OF True, of key] by auto
    from mset_move_hole [OF "1.prems" c(1) c(2) [symmetric], of x]
    show ?thesis using True "1.IH" c by (subst (1 2 3 4) sink.simps) simp
  next
    case False
    with "1.prems" show ?thesis by (subst (1 2 3 4) sink.simps) simp
  qed
qed

lemma sink_hole:
  assumes "pos < length h" and "below s pos" and "heap_hole key s pos h"
  shows "heap_hole key s (fst (sink key pos h)) (snd (sink key pos h)) \<and> below s (fst (sink key pos h)) \<and>
    length h \<le> 2 * fst (sink key pos h) + 1"
  using assms
proof (induction key pos h rule: sink.induct)
  case (1 key pos h)
  show ?case
  proof (cases "2 * pos + 1 < length h")
    case True
    let ?c = "smaller_child key h pos"
    note c = smaller_child_props [OF True, of key]
    have s: "s \<le> pos" using "1.prems"(2) by (rule below_ge)
    have b: "below s ?c"
      using c "1.prems"(2) below.child by blast
    have "heap_hole key s ?c (h[pos := h ! ?c])"
      unfolding heap_hole_def
    proof (intro conjI allI impI)
      fix d assume d: "d < length (h[pos := h ! ?c])" "0 < d" "s \<le> parent d" "d \<noteq> ?c" "parent d \<noteq> ?c"
      show "key (h[pos := h ! ?c] ! parent d) \<le> key (h[pos := h ! ?c] ! d)"
      proof (cases "d = pos")
        case True
        have pd: "parent pos < pos" using d(2) True parent_less by simp
        then have "s < pos" using d(3) True by simp
        moreover have "parent ?c = pos" "?c < length h" "0 < ?c" using c by auto
        ultimately have "key (h ! parent pos) \<le> key (h ! ?c)"
          using "1.prems"(3) by (auto simp: heap_hole_def)
        with True pd d show ?thesis by simp
      next
        case False
        with d c "1.prems"(3) parent_less [OF d(2)] show ?thesis
          by (cases "parent d = pos") (auto simp: heap_hole_def)
      qed
    next
      fix d assume d: "s < ?c" "d < length (h[pos := h ! ?c])" "0 < d" "parent d = ?c"
      have "d \<noteq> pos" using d(3,4) c parent_less [OF d(3)] by auto
      moreover have "key (h ! ?c) \<le> key (h ! d)"
        using "1.prems"(3) d c s \<open>d \<noteq> pos\<close> by (auto simp: heap_hole_def)
      ultimately show "key (h[pos := h ! ?c] ! parent ?c) \<le> key (h[pos := h ! ?c] ! d)"
        using c d "1.prems"(1) by simp
    qed
    with True "1.IH" c b show ?thesis by (subst (1 2 3 4) sink.simps) simp
  next
    case False
    with "1.prems" show ?thesis by (subst (1 2 3 4) sink.simps) simp
  qed
qed

lemma heap_hole_fill:
  assumes "heap_hole key s pos h" and "pos < length h"
    and "\<forall>c < length h. 0 < c \<longrightarrow> parent c = pos \<longrightarrow> key x \<le> key (h ! c)"
    and "s < pos \<longrightarrow> s \<le> parent pos \<longrightarrow> key (h ! parent pos) \<le> key x"
  shows "heap_from key s (h[pos := x])"
  unfolding heap_from_def
proof (intro allI impI)
  fix c assume c: "c < length (h[pos := x])" "0 < c" "s \<le> parent c"
  have pc: "parent c < c" using c(2) by (rule parent_less)
  show "key (h[pos := x] ! parent c) \<le> key (h[pos := x] ! c)"
  proof (cases "c = pos")
    case True
    with c pc assms(2,4) show ?thesis by auto
  next
    case False
    with c pc assms(1,2,3) show ?thesis
      by (cases "parent c = pos") (auto simp: heap_hole_def)
  qed
qed

lemma siftdown_heap:
  assumes "pos < length h" and "below s pos" and "heap_hole key s pos h"
    and "\<forall>c < length h. 0 < c \<longrightarrow> parent c = pos \<longrightarrow> key x \<le> key (h ! c)"
  shows "heap_from key s (siftdown key x s pos h)"
  using assms
proof (induction key x s pos h rule: siftdown.induct)
  case (1 key x s pos h)
  show ?case
  proof (cases "s < pos \<and> key x < key (h ! parent pos)")
    case True
    let ?p = "parent pos" and ?h = "h[pos := h ! parent pos]"
    have p: "?p < pos" "s \<le> ?p" "below s ?p" "?p < length h"
      using True below_parent "1.prems"(1,2) parent_less [of pos] by auto
    have hole: "heap_hole key s ?p ?h"
      unfolding heap_hole_def
    proof (intro conjI allI impI)
      fix c assume c: "c < length ?h" "0 < c" "s \<le> parent c" "c \<noteq> ?p" "parent c \<noteq> ?p"
      then have "c \<noteq> pos" by auto
      with c "1.prems"(1,3) True show "key (?h ! parent c) \<le> key (?h ! c)"
        by (cases "parent c = pos") (auto simp: heap_hole_def)
    next
      fix c assume c: "s < ?p" "c < length ?h" "0 < c" "parent c = ?p"
      have pp: "parent ?p < ?p" "s \<le> parent ?p"
        using c(1) p(3) below_parent parent_less [of ?p] by auto
      have up: "key (h ! parent ?p) \<le> key (h ! ?p)"
        using "1.prems"(3) p pp c(1) by (auto simp: heap_hole_def)
      show "key (?h ! parent ?p) \<le> key (?h ! c)"
      proof (cases "c = pos")
        case True
        with up pp p c show ?thesis by simp
      next
        case False
        then have "key (h ! ?p) \<le> key (h ! c)"
          using "1.prems"(3) c p by (auto simp: heap_hole_def)
        with up False pp p show ?thesis by simp
      qed
    qed
    have kids: "\<forall>c < length ?h. 0 < c \<longrightarrow> parent c = ?p \<longrightarrow> key x \<le> key (?h ! c)"
    proof (intro allI impI)
      fix c assume c: "c < length ?h" "0 < c" "parent c = ?p"
      show "key x \<le> key (?h ! c)"
      proof (cases "c = pos")
        case True
        with \<open>s < pos \<and> key x < key (h ! parent pos)\<close> c show ?thesis by simp
      next
        case False
        then have "key (h ! ?p) \<le> key (h ! c)"
          using "1.prems"(3) c p by (auto simp: heap_hole_def)
        with True False show ?thesis by simp
      qed
    qed
    from "1.IH" [OF True _ p(3) hole kids] p(4) True show ?thesis
      by (subst siftdown.simps) simp
  next
    case False
    then have "heap_from key s (h[pos := x])"
      using "1.prems" by (intro heap_hole_fill) auto
    then show ?thesis using False by (subst siftdown.simps) auto
  qed
qed

lemma siftup_mset: "pos < length h \<Longrightarrow> mset (siftup key pos h) = mset h"
  using sink_props [of pos h key "h ! pos"]
  by (auto simp: siftup_def Let_def split_beta siftdown_mset)

lemma siftup_length [simp]: "length (siftup key pos h) = length h" if "pos < length h"
  using sink_props [OF that, of key] by (simp add: siftup_def Let_def split_beta)

lemma heap_hole_update:
  assumes "heap_hole key s pos h"
  shows "heap_hole key s pos (h[pos := x])"
  unfolding heap_hole_def
proof (intro conjI allI impI)
  fix c assume c: "s < pos" "c < length (h[pos := x])" "0 < c" "parent c = pos"
  have "parent pos < pos" and "pos < c"
    using c(1) parent_less [of pos] parent_less [OF c(3)] c(4) by auto
  with c assms show "key (h[pos := x] ! parent pos) \<le> key (h[pos := x] ! c)"
    by (simp add: heap_hole_def)
qed (use assms in \<open>simp add: heap_hole_def\<close>)

lemma siftup_heap:
  assumes "pos < length h" and "heap_from key (Suc pos) h"
  shows "heap_from key pos (siftup key pos h)"
proof -
  obtain leaf g where g: "sink key pos h = (leaf, g)" by (cases "sink key pos h")
  have "heap_hole key pos pos h"
    using assms(2) by (auto simp: heap_hole_def heap_from_def le_eq_less_or_eq Suc_le_eq)
  from sink_hole [OF assms(1) below.here this] g
  have hole: "heap_hole key pos leaf g" and b: "below pos leaf" and lf: "length h \<le> 2 * leaf + 1"
    by auto
  have len: "leaf < length h" "length g = length h"
    using sink_props [OF assms(1), of key] g by auto
  have "heap_from key pos (siftdown key (h ! pos) pos leaf (g[leaf := h ! pos]))"
    using b len lf heap_hole_update [OF hole]
    by (intro siftdown_heap) (auto simp: parent_eq_iff)
  then show ?thesis by (simp add: siftup_def g Let_def)
qed

lemma heap_from_leaves: "heap_from key (length h div 2) h"
  by (auto simp: heap_from_def parent_def)

lemma heapify_loop:
  assumes "n \<le> length h div 2" and "heap_from key n h"
  shows "heap_from key 0 (fold (siftup key) (rev [0..<n]) h) \<and> mset (fold (siftup key) (rev [0..<n]) h) = mset h"
  using assms
proof (induction n arbitrary: h)
  case (Suc n)
  have n: "n < length h" using Suc.prems(1) by linarith
  have "heap_from key n (siftup key n h)"
    by (rule siftup_heap [OF n Suc.prems(2)])
  with Suc.IH [of "siftup key n h"] Suc.prems(1) siftup_mset [OF n] n show ?case by simp
qed simp

lemma is_heap_heapify [simp]: "is_heap key (heapify key h)"
  using heapify_loop [OF order_refl heap_from_leaves, of key h] by (simp add: heapify_def is_heap_def)

lemma mset_heapify [simp]: "mset (heapify key h) = mset h"
  using heapify_loop [OF order_refl heap_from_leaves, of key h] by (simp add: heapify_def)

lemma heap_root_min:
  assumes "is_heap key h" and "i < length h"
  shows "key (h ! 0) \<le> key (h ! i)"
  using assms(2)
proof (induction i rule: less_induct)
  case (less i)
  show ?case
  proof (cases "i = 0")
    case False
    then have "parent i < i" by (simp add: parent_less)
    with less.IH [of "parent i"] less.prems have "key (h ! 0) \<le> key (h ! parent i)" by simp
    also have "\<dots> \<le> key (h ! i)"
      using assms(1) less.prems False by (simp add: is_heap_def heap_from_def)
    finally show ?thesis .
  qed simp
qed

lemma heappop_heap:
  assumes "is_heap key h" and "heappop key h = Inr (x, h')"
  shows "is_heap key h' \<and> mset h = add_mset x (mset h') \<and> x = h ! 0"
proof (cases "butlast h = []")
  case True
  with assms show ?thesis
    by (cases h) (auto simp: heappop_def Let_def is_heap_def heap_from_def split: if_splits)
next
  case False
  let ?r = "butlast h" and ?l = "last h"
  have h: "h = ?r @ [?l]" using False by (metis append_butlast_last_id butlast.simps(1))
  have x: "x = ?r ! 0" and h': "h' = siftup key 0 (?r[0 := ?l])"
    using assms(2) False by (auto simp: heappop_def Let_def split: if_splits)
  have pos: "0 < length ?r" using False length_greater_0_conv by blast
  have "heap_from key 1 (?r[0 := ?l])"
    using assms(1) by (auto simp: is_heap_def heap_from_def nth_butlast nth_list_update parent_def)
  then have "is_heap key h'"
    using siftup_heap [of 0 "?r[0 := ?l]" key] pos h' by (simp add: is_heap_def)
  moreover have "mset h = add_mset x (mset h')"
  proof -
    have "mset h = add_mset ?l (mset ?r)" by (subst h) simp
    also have "\<dots> = add_mset x (mset (?r[0 := ?l]))"
      using pos x by (cases ?r) auto
    finally show ?thesis using siftup_mset [of 0 "?r[0 := ?l]" key] pos h' by simp
  qed
  moreover have "x = h ! 0" using x pos by (simp add: nth_butlast)
  ultimately show ?thesis by blast
qed

section \<open>The interface and its interpretation\<close>

locale min_queue =
  fixes key :: "'a \<Rightarrow> int"
    and build :: "'a list \<Rightarrow> 'q"
    and pop :: "'q \<Rightarrow> ('a \<times> 'q) result"
    and items :: "'q \<Rightarrow> 'a multiset"
    and inv :: "'q \<Rightarrow> bool"
  assumes build_inv: "inv (build xs)"
    and build_items: "items (build xs) = mset xs"
    and pop_inv: "inv q \<Longrightarrow> pop q = Inr (x, q') \<Longrightarrow> inv q'"
    and pop_items: "inv q \<Longrightarrow> pop q = Inr (x, q') \<Longrightarrow> items q = add_mset x (items q')"
    and pop_min: "inv q \<Longrightarrow> pop q = Inr (x, q') \<Longrightarrow> y \<in># items q \<Longrightarrow> key x \<le> key y"
    and pop_fails: "inv q \<Longrightarrow> pop q = Inl e \<Longrightarrow> items q = {#}"
begin

lemma pop_some: "inv q \<Longrightarrow> items q \<noteq> {#} \<Longrightarrow> \<exists>x q'. pop q = Inr (x, q')"
  using pop_fails [of q] by (cases "pop q") auto

text \<open>Draining a queue, as the copy of the queue for display is made.\<close>

fun drain :: "nat \<Rightarrow> 'q \<Rightarrow> 'a list" where
  "drain 0 q = []"
| "drain (Suc n) q = (case pop q of Inl _ \<Rightarrow> [] | Inr (x, q') \<Rightarrow> x # drain n q')"

lemma drain_all:
  assumes "inv q" and "size (items q) \<le> n"
  shows "mset (drain n q) = items q \<and> sorted (map key (drain n q))"
  using assms
proof (induction n arbitrary: q)
  case (Suc n)
  show ?case
  proof (cases "pop q")
    case (Inl e)
    with pop_fails [OF Suc.prems(1)] show ?thesis by simp
  next
    case (Inr xq)
    obtain x q' where p: "pop q = Inr (x, q')" using Inr by (cases xq) auto
    note it = pop_items [OF Suc.prems(1) p]
    have IH: "mset (drain n q') = items q'" "sorted (map key (drain n q'))"
      using Suc.IH [OF pop_inv [OF Suc.prems(1) p]] Suc.prems(2) it by auto
    have "key x \<le> key y" if "y \<in> set (drain n q')" for y
      using pop_min [OF Suc.prems(1) p] IH(1) it that by (metis set_mset_mset union_iff add_mset_add_single)
    with IH it p show ?thesis by simp
  qed
qed simp

end

interpretation hq: min_queue key "heapify key" "heappop key" mset "is_heap key" for key :: "'a \<Rightarrow> int"
proof unfold_locales
  fix q x q' y e
  show "is_heap key (heapify key xs)" and "mset (heapify key xs) = mset xs" for xs :: "'a list" by simp_all
  show "is_heap key q \<Longrightarrow> heappop key q = Inr (x, q') \<Longrightarrow> is_heap key q'"
    and "is_heap key q \<Longrightarrow> heappop key q = Inr (x, q') \<Longrightarrow> mset q = add_mset x (mset q')"
    by (auto dest: heappop_heap)
  show "is_heap key q \<Longrightarrow> heappop key q = Inr (x, q') \<Longrightarrow> y \<in># mset q \<Longrightarrow> key x \<le> key y"
    by (auto simp: in_set_conv_nth dest: heappop_heap heap_root_min)
  show "is_heap key q \<Longrightarrow> heappop key q = Inl e \<Longrightarrow> mset q = {#}"
    by (auto simp: heappop_def Let_def split: if_splits)
qed

end
