(* ===== verification/PrioQueue.thy ===== *)
theory PrioQueue
  imports HeapQ Clustering
begin

text \<open>
  The priority queue of a route (\<open>mapadroid/route/prioq/RoutePriorityQueue.py\<close>) and its strategies
  (\<open>prioq/strategy/\<close>). The rows a strategy reads from the database are an argument of the update. The
  queue is the list \<open>heapq\<close> works on; its properties come from the interface \<open>min_queue\<close> of theory
  \<open>HeapQ\<close>. Lock contention (the one second timeout of \<open>pop_event\<close>) is not modelled: an operation here
  runs while nobody else holds the lock.
\<close>

section \<open>Strategies\<close>

record prio_entry =
  timestamp_due :: int
  due_location :: location

datatype strategy_kind = RaidSpawnPrio | IvOnlyPrio | MonSpawnPrio

record prio_strategy =
  kind :: strategy_kind
  update_interval :: int
  full_replace_queue :: bool
  max_backlog_duration :: "int option"
  delay_after_event :: int
  clustering :: clustering_helper
  encounter_ids_left :: "int list"

definition prio_clustering :: "int \<Rightarrow> real \<Rightarrow> int \<Rightarrow> clustering_helper" where
  "prio_clustering clustering_timedelta clustering_distance clustering_count_per_circle =
     \<lparr>max_radius = clustering_distance, max_count_per_circle = clustering_count_per_circle,
      max_timedelta_seconds = clustering_timedelta, useS2 = False, S2level = 30\<rparr>"

definition raid_spawn_strategy :: "int \<Rightarrow> real \<Rightarrow> int \<Rightarrow> int option \<Rightarrow> int \<Rightarrow> prio_strategy" where
  "raid_spawn_strategy timedelta distance per_circle backlog delay =
     \<lparr>kind = RaidSpawnPrio, update_interval = 600, full_replace_queue = True, max_backlog_duration = backlog,
      delay_after_event = delay, clustering = prio_clustering timedelta distance per_circle, encounter_ids_left = []\<rparr>"

definition iv_only_strategy :: "int \<Rightarrow> real \<Rightarrow> int \<Rightarrow> int option \<Rightarrow> int \<Rightarrow> prio_strategy" where
  "iv_only_strategy timedelta distance per_circle backlog delay =
     \<lparr>kind = IvOnlyPrio, update_interval = 30, full_replace_queue = False, max_backlog_duration = backlog,
      delay_after_event = delay, clustering = prio_clustering timedelta distance per_circle, encounter_ids_left = []\<rparr>"

definition mon_spawn_strategy :: "int \<Rightarrow> real \<Rightarrow> int \<Rightarrow> int option \<Rightarrow> int \<Rightarrow> prio_strategy" where
  "mon_spawn_strategy timedelta distance per_circle backlog delay =
     \<lparr>kind = MonSpawnPrio, update_interval = 600, full_replace_queue = False, max_backlog_duration = backlog,
      delay_after_event = delay, clustering = prio_clustering timedelta distance per_circle, encounter_ids_left = []\<rparr>"

text \<open>\<open>IvOnlyPrioStrategy\<close> overrides the method.\<close>

definition is_full_replace_queue :: "prio_strategy \<Rightarrow> bool" where
  "is_full_replace_queue self = (case kind self of IvOnlyPrio \<Rightarrow> True | _ \<Rightarrow> full_replace_queue self)"

definition get_max_backlog_duration :: "prio_strategy \<Rightarrow> int" where
  "get_max_backlog_duration self = (if truthy_int (max_backlog_duration self) then the (max_backlog_duration self) else 300)"

text \<open>A row is the due time, the location and, for encounters, the encounter id.\<close>

type_synonym spawn_row = "int \<times> location \<times> int"

definition spawn_entry :: "spawn_row \<Rightarrow> prio_entry" where
  "spawn_entry = (\<lambda>(ts, loc, _). \<lparr>timestamp_due = ts, due_location = loc\<rparr>)"

definition iv_retrieve_new_coords :: "prio_strategy \<Rightarrow> spawn_row list \<Rightarrow> prio_strategy \<times> prio_entry list" where
  "iv_retrieve_new_coords self rows =
     (self\<lparr>encounter_ids_left := map (\<lambda>(_, _, encounter_id). encounter_id) rows\<rparr>, map spawn_entry rows)"

definition mon_retrieve_new_coords :: "prio_strategy \<Rightarrow> spawn_row list \<Rightarrow> prio_strategy \<times> prio_entry list" where
  "mon_retrieve_new_coords self rows = (self, map spawn_entry rows)"

definition raid_retrieve_new_coords :: "prio_strategy \<Rightarrow> spawn_row list \<Rightarrow> prio_strategy \<times> prio_entry list" where
  "raid_retrieve_new_coords self rows = (self, map spawn_entry rows)"

definition retrieve_new_coords :: "prio_strategy \<Rightarrow> spawn_row list \<Rightarrow> prio_strategy \<times> prio_entry list" where
  "retrieve_new_coords self rows =
     (case kind self of
        RaidSpawnPrio \<Rightarrow> raid_retrieve_new_coords self rows
      | IvOnlyPrio \<Rightarrow> iv_retrieve_new_coords self rows
      | MonSpawnPrio \<Rightarrow> mon_retrieve_new_coords self rows)"

text \<open>
  The three strategies cluster the same way. \<open>get_clustered\<close> swallows exceptions itself, so the
  \<open>except\<close> branch of \<open>MonSpawnPrioStrategy\<close> is not reached; \<open>None\<close> is a clustering that does not return.
\<close>

definition postprocess_coords :: "prio_strategy \<Rightarrow> s2_cover \<Rightarrow> prio_entry list \<Rightarrow> prio_entry list option" where
  "postprocess_coords self s2_contains coords =
     map_option (map (\<lambda>(ts, loc). \<lparr>timestamp_due = ts + delay_after_event self, due_location = loc\<rparr>))
       (get_clustered (clustering self) s2_contains (map (\<lambda>e. (timestamp_due e, due_location e)) coords))"

definition filter_queue :: "prio_strategy \<Rightarrow> prio_entry list \<Rightarrow> prio_entry list" where
  "filter_queue self queue = queue"

section \<open>The queue\<close>

record prio_queue =
  strategy :: "prio_strategy option"
  queue :: "prio_entry list"
  stop_updates :: bool
  update_task :: bool

definition new_prio_queue :: "prio_strategy option \<Rightarrow> prio_queue" where
  "new_prio_queue s = \<lparr>strategy = s, queue = [], stop_updates = False, update_task = False\<rparr>"

definition pq_start :: "prio_queue \<Rightarrow> prio_queue" where
  "pq_start self = self\<lparr>stop_updates := False, update_task := True\<rparr>"

definition pq_stop :: "prio_queue \<Rightarrow> prio_queue" where
  "pq_stop self = self\<lparr>stop_updates := True, update_task := False\<rparr>"

definition set_strategy :: "prio_strategy option \<Rightarrow> prio_queue \<Rightarrow> prio_queue" where
  "set_strategy s self =
     (let self = (pq_stop self)\<lparr>strategy := s\<rparr> in if s = None then self else pq_start self)"

datatype prio_error = PrioQueueNoDueEntry string

definition pop_event :: "int \<Rightarrow> prio_queue \<Rightarrow> prio_error + (prio_entry \<times> prio_queue)" where
  "pop_event now self =
     (if queue self = [] then Inl (PrioQueueNoDueEntry ''No items in queue'')
      else if timestamp_due (queue self ! 0) > now
      then Inl (PrioQueueNoDueEntry ''No item available that is due at this time'')
      else (case heappop timestamp_due (queue self) of
              Inl _ \<Rightarrow> Inl (PrioQueueNoDueEntry '''')
            | Inr (coord, rest) \<Rightarrow> Inr (coord, self\<lparr>queue := rest\<rparr>)))"

definition merge_queues :: "int \<Rightarrow> prio_strategy \<Rightarrow> prio_entry list \<Rightarrow> prio_entry list \<Rightarrow> prio_entry list" where
  "merge_queues now strat old_coords new_coords =
     filter (\<lambda>coord. now \<ge> timestamp_due coord \<and>
       (get_max_backlog_duration strat = 0 \<or> timestamp_due coord > now - get_max_backlog_duration strat)) old_coords
     @ new_coords"

definition merge_filter_queue :: "int \<Rightarrow> prio_strategy \<Rightarrow> prio_entry list \<Rightarrow> prio_entry list \<Rightarrow> prio_entry list" where
  "merge_filter_queue now strat old_coords new_coords =
     (let merged = (if is_full_replace_queue strat then new_coords else merge_queues now strat old_coords new_coords)
      in heapify timestamp_due (filter_queue strat merged))"

definition update_queue :: "int \<Rightarrow> s2_cover \<Rightarrow> spawn_row list \<Rightarrow> prio_queue \<Rightarrow> prio_queue option" where
  "update_queue now s2_contains rows self =
     (case strategy self of
        None \<Rightarrow> Some self
      | Some strat \<Rightarrow>
          (let (strat', new_coords) = retrieve_new_coords strat rows
           in map_option (\<lambda>post. self\<lparr>strategy := Some strat', queue := merge_filter_queue now strat' (queue self) post\<rparr>)
                (postprocess_coords strat' s2_contains new_coords)))"

text \<open>One turn of \<open>_update_priority_queue_loop\<close>; without an interval the task ends at once.\<close>

definition update_loop_turn :: "int \<Rightarrow> s2_cover \<Rightarrow> spawn_row list \<Rightarrow> prio_queue \<Rightarrow> prio_queue option" where
  "update_loop_turn now s2_contains rows self =
     (if \<not> update_task self \<or> stop_updates self then Some self
      else case strategy self of
        None \<Rightarrow> Some self
      | Some strat \<Rightarrow> if update_interval strat = 0 then Some self else update_queue now s2_contains rows self)"

primrec pop_all :: "nat \<Rightarrow> prio_entry list \<Rightarrow> prio_entry list" where
  "pop_all 0 q = []"
| "pop_all (Suc n) q = (case heappop timestamp_due q of Inl _ \<Rightarrow> [] | Inr (x, q') \<Rightarrow> x # pop_all n q')"

text \<open>Every turn of \<open>while copied_queue\<close> pops one entry, so the length bounds the turns.\<close>

definition get_copy_of_prioq :: "prio_queue \<Rightarrow> prio_entry list" where
  "get_copy_of_prioq self = pop_all (length (queue self)) (queue self)"

text \<open>Histories of a queue.\<close>

datatype prio_op =
    OpStart
  | OpStop
  | OpSetStrategy "prio_strategy option"
  | OpPop int
  | OpTurn int "spawn_row list"

fun pq_apply :: "s2_cover \<Rightarrow> prio_op \<Rightarrow> prio_queue \<Rightarrow> prio_queue option" where
  "pq_apply s2 OpStart q = Some (pq_start q)"
| "pq_apply s2 OpStop q = Some (pq_stop q)"
| "pq_apply s2 (OpSetStrategy s) q = Some (set_strategy s q)"
| "pq_apply s2 (OpPop now) q = Some (case pop_event now q of Inl _ \<Rightarrow> q | Inr (_, q') \<Rightarrow> q')"
| "pq_apply s2 (OpTurn now rows) q = update_loop_turn now s2 rows q"

fun pq_run :: "s2_cover \<Rightarrow> prio_op list \<Rightarrow> prio_queue \<Rightarrow> prio_queue option" where
  "pq_run s2 [] q = Some q"
| "pq_run s2 (x # xs) q = Option.bind (pq_apply s2 x q) (pq_run s2 xs)"

section \<open>Lemmas\<close>

abbreviation pq_ok :: "prio_queue \<Rightarrow> bool" where
  "pq_ok q \<equiv> is_heap timestamp_due (queue q)"

lemma is_heap_Nil [simp]: "is_heap key []"
  by (simp add: is_heap_def heap_from_def)

lemma pop_all_drain: "pop_all n q = hq.drain timestamp_due n q"
  by (induction n arbitrary: q) (simp_all add: hq.drain.simps split: sum.splits)

lemma pq_start_stop_queue [simp]: "queue (pq_start q) = queue q" "queue (pq_stop q) = queue q"
    "queue (set_strategy s q) = queue q"
  by (simp_all add: pq_start_def pq_stop_def set_strategy_def Let_def)

lemma pop_event_cases:
  assumes "pq_ok q"
  shows "(\<exists>m. pop_event now q = Inl (PrioQueueNoDueEntry m) \<and> (\<forall>e \<in># mset (queue q). now < timestamp_due e)) \<or>
    (\<exists>x q'. pop_event now q = Inr (x, q') \<and> timestamp_due x \<le> now \<and> pq_ok q' \<and>
       mset (queue q) = add_mset x (mset (queue q')) \<and> (\<forall>e \<in># mset (queue q). timestamp_due x \<le> timestamp_due e))"
proof (cases "queue q = []")
  case True
  then show ?thesis by (simp add: pop_event_def)
next
  case False
  then obtain x rest where p: "heappop timestamp_due (queue q) = Inr (x, rest)"
    using hq.pop_some [OF assms] by auto
  have x: "x = queue q ! 0" using heappop_heap [OF assms p] by blast
  have min: "timestamp_due x \<le> timestamp_due e" if "e \<in># mset (queue q)" for e
    by (rule hq.pop_min [OF assms p that])
  show ?thesis
  proof (cases "timestamp_due x > now")
    case True
    with False x min show ?thesis by (fastforce simp: pop_event_def)
  next
    case nd: False
    have "is_heap timestamp_due rest" by (rule hq.pop_inv [OF assms p])
    with False nd x p min hq.pop_items [OF assms p] show ?thesis by (simp add: pop_event_def)
  qed
qed

lemma update_queue_ok: "pq_ok q \<Longrightarrow> update_queue now s2 rows q = Some q' \<Longrightarrow> pq_ok q'"
  by (auto simp: update_queue_def merge_filter_queue_def Let_def split: option.splits prod.splits)

lemma pq_apply_ok: "pq_ok q \<Longrightarrow> pq_apply s2 x q = Some q' \<Longrightarrow> pq_ok q'"
proof (cases x)
  case (OpPop now)
  assume "pq_ok q" and "pq_apply s2 x q = Some q'"
  with OpPop pop_event_cases [of q now] show ?thesis by auto
qed (auto simp: update_loop_turn_def intro: update_queue_ok split: if_splits option.splits)

lemma pq_run_ok: "pq_ok q \<Longrightarrow> pq_run s2 xs q = Some q' \<Longrightarrow> pq_ok q'"
  by (induction xs arbitrary: q) (auto simp: bind_eq_Some_conv intro: pq_apply_ok)

section \<open>Properties\<close>

text \<open>
  C20. Whatever happened to a priority queue since it was created (updates, pops, stops, strategy changes), an
  event is popped if and only if one is due: the popped one is due, no other is due earlier, and exactly
  it leaves the queue; otherwise every queued event lies in the future.
\<close>

theorem pop_event_earliest_due:
  assumes "pq_run s2 ops (new_prio_queue s) = Some q"
  shows "case pop_event now q of
      Inl _ \<Rightarrow> \<forall>e \<in> set (queue q). now < timestamp_due e
    | Inr (x, q') \<Rightarrow> timestamp_due x \<le> now \<and> (\<forall>e \<in> set (queue q). timestamp_due x \<le> timestamp_due e)
        \<and> mset (queue q) = add_mset x (mset (queue q'))"
proof -
  have "pq_ok q" using pq_run_ok [OF _ assms] by (simp add: new_prio_queue_def)
  from pop_event_cases [OF this, of now] show ?thesis by auto
qed

text \<open>
  The copy of the queue for display holds the queued events, no more and no less, in the order of
  their due times.
\<close>

theorem copy_of_prioq_sorted:
  assumes "pq_run s2 ops (new_prio_queue s) = Some q"
  shows "mset (get_copy_of_prioq q) = mset (queue q) \<and> sorted (map timestamp_due (get_copy_of_prioq q))"
proof -
  have "pq_ok q" using pq_run_ok [OF _ assms] by (simp add: new_prio_queue_def)
  then show ?thesis
    using hq.drain_all [of timestamp_due "queue q" "length (queue q)"] by (simp add: get_copy_of_prioq_def pop_all_drain)
qed

text \<open>
  What an update leaves in the queue: the new clustered events, each delayed as configured and, unless
  the strategy replaces the whole queue, those old events that are due but not longer ago than the backlog
  allows. An old event whose time has not come is dropped even if the new batch does not hold it.
\<close>

theorem update_queue_contents:
  assumes "strategy q = Some strat" and "update_queue now s2 rows q = Some q'"
  shows "\<exists>clusters. get_clustered (clustering strat) s2 (map (\<lambda>(ts, loc, _). (ts, loc)) rows) = Some clusters \<and>
    mset (queue q') =
      mset (map (\<lambda>(ts, loc). \<lparr>timestamp_due = ts + delay_after_event strat, due_location = loc\<rparr>) clusters) +
      (if is_full_replace_queue strat then {#}
       else filter_mset (\<lambda>e. timestamp_due e \<le> now \<and> now - get_max_backlog_duration strat < timestamp_due e) (mset (queue q)))"
proof -
  obtain strat' new where r: "retrieve_new_coords strat rows = (strat', new)"
    by (cases "retrieve_new_coords strat rows")
  have st: "clustering strat' = clustering strat \<and> delay_after_event strat' = delay_after_event strat \<and>
      is_full_replace_queue strat' = is_full_replace_queue strat \<and>
      get_max_backlog_duration strat' = get_max_backlog_duration strat \<and>
      map (\<lambda>e. (timestamp_due e, due_location e)) new = map (\<lambda>(ts, loc, _). (ts, loc)) rows"
    using r by (auto simp: retrieve_new_coords_def iv_retrieve_new_coords_def mon_retrieve_new_coords_def
        raid_retrieve_new_coords_def is_full_replace_queue_def get_max_backlog_duration_def spawn_entry_def
        split: strategy_kind.splits)
  have "get_max_backlog_duration strat \<noteq> 0" by (cases "max_backlog_duration strat") (simp_all add: get_max_backlog_duration_def)
  with assms r st show ?thesis
    by (auto simp: update_queue_def postprocess_coords_def merge_filter_queue_def merge_queues_def filter_queue_def conj_commute)
qed

definition witness_strategy :: prio_strategy where
  "witness_strategy = mon_spawn_strategy 60 490 20 (Some 300) 5"

definition witness_prio_queue :: prio_queue where
  "witness_prio_queue = \<lparr>strategy = Some witness_strategy, queue = [\<lparr>timestamp_due = 95, due_location = Loc 1 2\<rparr>],
     stop_updates = False, update_task = True\<rparr>"

lemma witness_clustering: "get_clustered (clustering witness_strategy) s2 [(t, l)] = Some [(t, l)]"
  by (rule get_clustered_single) (simp_all add: witness_strategy_def mon_spawn_strategy_def prio_clustering_def)

lemmas witness_prio_defs = witness_prio_queue_def new_prio_queue_def pq_start_def update_loop_turn_def update_queue_def
  postprocess_coords_def retrieve_new_coords_def mon_retrieve_new_coords_def spawn_entry_def merge_filter_queue_def
  merge_queues_def filter_queue_def is_full_replace_queue_def heapify_def

lemma witness_strategy_simps:
  "kind witness_strategy = MonSpawnPrio" "update_interval witness_strategy = 600"
  "full_replace_queue witness_strategy = False" "max_backlog_duration witness_strategy = Some 300"
  "delay_after_event witness_strategy = 5"
  by (simp_all add: witness_strategy_def mon_spawn_strategy_def)

lemma witness_prio_run:
  "pq_run s2 [OpStart, OpTurn 100 [(90, Loc 1 2, 7)]] (new_prio_queue (Some witness_strategy)) = Some witness_prio_queue"
  by (simp add: witness_prio_defs witness_strategy_simps witness_clustering)

lemma pop_event_earliest_due_witness:
  "\<exists>x q'. pop_event 100 witness_prio_queue = Inr (x, q') \<and> timestamp_due x \<le> 100 \<and>
     mset (queue witness_prio_queue) = add_mset x (mset (queue q'))"
  using pop_event_earliest_due [OF witness_prio_run, of 100] by (auto simp: witness_prio_queue_def split: sum.splits)

lemma copy_of_prioq_sorted_witness:
  "mset (get_copy_of_prioq witness_prio_queue) = {#\<lparr>timestamp_due = 95, due_location = Loc 1 2\<rparr>#}"
  using copy_of_prioq_sorted [OF witness_prio_run] by (simp add: witness_prio_queue_def)

lemma update_queue_contents_witness:
  "\<exists>q'. update_queue 200 (\<lambda>_ _ _ _ _. False) [(300, Loc 3 4, 8)] witness_prio_queue = Some q' \<and>
     mset (queue q') = {#\<lparr>timestamp_due = 305, due_location = Loc 3 4\<rparr>, \<lparr>timestamp_due = 95, due_location = Loc 1 2\<rparr>#}"
proof -
  obtain q' where q': "update_queue 200 (\<lambda>_ _ _ _ _. False) [(300, Loc 3 4, 8)] witness_prio_queue = Some q'"
    by (simp add: witness_prio_defs witness_strategy_simps witness_clustering)
  have "strategy witness_prio_queue = Some witness_strategy" by (simp add: witness_prio_queue_def)
  from update_queue_contents [OF this q'] q' show ?thesis
    by (simp add: witness_clustering witness_strategy_simps is_full_replace_queue_def get_max_backlog_duration_def
        witness_prio_queue_def)
qed

end
