(* ===== verification/Subroutes.thy ===== *)
theory Subroutes
  imports Geo
begin

text \<open>
  The entries of a route pool (\<open>mapadroid/route/RoutePoolEntry.py\<close>) and the division of a route among the
  workers of a pool (\<open>SubrouteReplacingMixin\<close>): every worker gets a contiguous part of the round, the
  workers that joined first come first, and a worker goes on near the place its old queue led to.
\<close>

section \<open>Entries\<close>

datatype rm_position_type = NormalPos | StartupPos | RebootPos | RestartPos | PrioqPos

record route_entry =
  last_access :: real
  subroute :: "location list"
  time_added :: real
  entry_queue :: "location list"
  rounds :: int
  current_pos :: location
  prio_coord :: "location option"
  worker_sleeping :: real
  last_position_type :: rm_position_type

type_synonym routepool = "(string, route_entry) dict"

section \<open>Replacing the subroutes\<close>

definition find_closest_location :: "location option \<Rightarrow> location list \<Rightarrow> location option" where
  "find_closest_location loc route =
     (case (loc, route) of
        (Some l, closest # rest) \<Rightarrow> Some (fst (fold (\<lambda>x (closest, closest_distance).
            (let d = dist_loc l x in if d < closest_distance then (x, d) else (closest, closest_distance)))
          rest (closest, dist_loc l closest)))
      | _ \<Rightarrow> None)"

text \<open>The queue of a worker whose new subroute is \<open>new\<close> and whose old queue was \<open>old\<close>.\<close>

definition requeue :: "location list \<Rightarrow> location list \<Rightarrow> location list" where
  "requeue old new =
     (case find_closest_location (case old of [] \<Rightarrow> None | l # _ \<Rightarrow> Some l) new of
        None \<Rightarrow> new
      | Some closest \<Rightarrow> dropWhile (\<lambda>l. l \<noteq> closest) new)"

fun populate_subroutes ::
    "nat \<Rightarrow> nat \<Rightarrow> nat \<Rightarrow> routepool \<Rightarrow> string list \<Rightarrow> location list \<Rightarrow> routepool" where
  "populate_subroutes extra len i pool [] coords = pool"
| "populate_subroutes extra len i pool (origin # origins) coords =
     (let n = (if i < extra then len + 1 else len);
          new = take n coords
      in case map_of pool origin of
           None \<Rightarrow> pool
         | Some entry \<Rightarrow>
             populate_subroutes extra len (Suc i)
               (AList.update origin (entry\<lparr>subroute := new, entry_queue := requeue (entry_queue entry) new\<rparr>) pool)
               origins (drop n coords))"

text \<open>\<open>sorted(reduced_routepools, key=itemgetter(1))\<close> is stable.\<close>

definition by_time_added :: "routepool \<Rightarrow> string list" where
  "by_time_added pool = map fst (sort_key (\<lambda>(origin, entry). time_added entry) pool)"

text \<open>
  \<open>_worker_changed_update_routepools\<close> for a route that may be divided. While there are fewer coordinates
  than workers, the worker that joined last is left out.
\<close>

function divide_route :: "location list \<Rightarrow> routepool \<Rightarrow> routepool option" where
  "divide_route coords pool =
     (if pool = [] then None
      else (let new_subroute_length = length coords div length pool;
                sorted_pool = sort_key (\<lambda>(origin, entry). time_added entry) pool
            in if new_subroute_length = 0 then divide_route coords (butlast sorted_pool)
               else Some (populate_subroutes (length coords mod length pool) new_subroute_length 0 pool
                            (map fst sorted_pool) coords)))"
  by pat_completeness auto
termination
  by (relation "measure (\<lambda>(coords, pool). length pool)") auto

declare divide_route.simps [simp del]

section \<open>Correctness\<close>

lemma find_closest_member:
  assumes "find_closest_location l route = Some c"
  shows "c \<in> set route \<and> (\<forall>x \<in> set route. dist_loc (the l) c \<le> dist_loc (the l) x)"
proof -
  obtain a r rest where l: "l = Some a" and route: "route = r # rest"
    using assms by (auto simp: find_closest_location_def split: option.splits list.splits)
  have "let (c, d) = fold (\<lambda>x (closest, closest_distance).
            (let d = dist_loc a x in if d < closest_distance then (x, d) else (closest, closest_distance)))
          xs (y, dist_loc a y)
        in d = dist_loc a c \<and> c \<in> insert y (set xs) \<and> (\<forall>x \<in> insert y (set xs). dist_loc a c \<le> dist_loc a x)" for xs y
  proof (induction xs arbitrary: y)
    case (Cons x xs)
    show ?case
    proof (cases "dist_loc a x < dist_loc a y")
      case True
      with Cons.IH [of x] show ?thesis by (auto simp: Let_def split_beta)
    next
      case False
      with Cons.IH [of y] show ?thesis by (auto simp: Let_def split_beta)
    qed
  qed simp
  from this [of rest r] assms l route show ?thesis
    by (auto simp: find_closest_location_def split_beta Let_def)
qed

lemma find_closest_some: "route \<noteq> [] \<Longrightarrow> \<exists>c. find_closest_location (Some l) route = Some c"
  by (cases route) (simp_all add: find_closest_location_def)

lemma requeue_suffix: "\<exists>pre. new = pre @ requeue old new"
  by (auto simp: requeue_def split: option.splits) (metis takeWhile_dropWhile_id)

lemma requeue_nonempty:
  assumes "new \<noteq> []"
  shows "requeue old new \<noteq> []"
proof (cases "find_closest_location (case old of [] \<Rightarrow> None | l # _ \<Rightarrow> Some l) new")
  case None
  with assms show ?thesis by (simp add: requeue_def)
next
  case (Some c)
  then have "c \<in> set new" using find_closest_member by blast
  with Some show ?thesis by (auto simp: requeue_def dropWhile_eq_Nil_conv)
qed

text \<open>What the loop leaves in the pool.\<close>

lemma populate_keys: "map fst (populate_subroutes extra len i pool origins coords) = map fst pool"
proof (induction origins arbitrary: i pool coords)
  case (Cons w origins)
  show ?case
  proof (cases "map_of pool w")
    case (Some e)
    then have "w \<in> set (map fst pool)" using map_of_SomeD by force
    then have "map fst (AList.update w v pool) = map fst pool" for v by (simp add: update_keys)
    with Some Cons.IH show ?thesis by (simp add: Let_def)
  qed (simp add: Let_def)
qed simp

fun slices :: "nat \<Rightarrow> nat \<Rightarrow> nat \<Rightarrow> nat \<Rightarrow> 'a list \<Rightarrow> 'a list list" where
  "slices extra len i 0 xs = []"
| "slices extra len i (Suc n) xs =
     (let k = (if i < extra then len + 1 else len) in take k xs # slices extra len (Suc i) n (drop k xs))"

lemma length_slices [simp]: "length (slices extra len i n xs) = n"
  by (induction extra len i n xs rule: slices.induct) (simp_all add: Let_def)

lemma populate_entries:
  assumes "distinct origins" and "set origins \<subseteq> fst ` set pool"
  shows "\<forall>origin entry. map_of pool origin = Some entry \<longrightarrow>
    (origin \<notin> set origins \<longrightarrow> map_of (populate_subroutes extra len i pool origins coords) origin = Some entry) \<and>
    (\<forall>j < length origins. origins ! j = origin \<longrightarrow>
       (let new = slices extra len i (length origins) coords ! j
        in map_of (populate_subroutes extra len i pool origins coords) origin
             = Some (entry\<lparr>subroute := new, entry_queue := requeue (entry_queue entry) new\<rparr>)))"
  using assms
proof (induction origins arbitrary: i pool coords)
  case (Cons w origins)
  let ?k = "if i < extra then len + 1 else len"
  obtain e where e: "map_of pool w = Some e"
    using Cons.prems(2) by (metis insert_subset list.simps(15) map_of_eq_None_iff option.exhaust)
  define pool' where "pool' = AList.update w (e\<lparr>subroute := take ?k coords, entry_queue := requeue (entry_queue e) (take ?k coords)\<rparr>) pool"
  have step: "populate_subroutes extra len i pool (w # origins) coords
      = populate_subroutes extra len (Suc i) pool' origins (drop ?k coords)"
    by (simp add: e Let_def pool'_def)
  have keys: "set origins \<subseteq> fst ` set pool'" using Cons.prems(2) by (auto simp: pool'_def keys_update)
  note IH = Cons.IH [OF _ keys, of "Suc i" "drop ?k coords"]
  have lookup: "map_of pool' x = (if x = w then Some (e\<lparr>subroute := take ?k coords, entry_queue := requeue (entry_queue e) (take ?k coords)\<rparr>) else map_of pool x)" for x
    by (simp add: pool'_def dict_simps)
  show ?case
  proof (intro allI impI conjI)
    fix origin entry assume m: "map_of pool origin = Some entry" and n: "origin \<notin> set (w # origins)"
    then have "map_of pool' origin = Some entry" by (simp add: lookup)
    with IH n Cons.prems(1) show "map_of (populate_subroutes extra len i pool (w # origins) coords) origin = Some entry"
      unfolding step by simp
  next
    fix origin entry j assume m: "map_of pool origin = Some entry" and j: "j < length (w # origins)" "(w # origins) ! j = origin"
    show "let new = slices extra len i (length (w # origins)) coords ! j
        in map_of (populate_subroutes extra len i pool (w # origins) coords) origin
             = Some (entry\<lparr>subroute := new, entry_queue := requeue (entry_queue entry) new\<rparr>)"
    proof (cases j)
      case 0
      then have w: "origin = w" using j by simp
      then have "entry = e" using m e by simp
      moreover have "map_of pool' w = Some (e\<lparr>subroute := take ?k coords, entry_queue := requeue (entry_queue e) (take ?k coords)\<rparr>)"
        by (simp add: lookup)
      ultimately show ?thesis
        using IH Cons.prems(1) w 0 unfolding step by (simp add: Let_def)
    next
      case (Suc j')
      with j Cons.prems(1) have "origin \<noteq> w" by auto
      then have "map_of pool' origin = Some entry" using m by (simp add: lookup)
      with IH Cons.prems(1) Suc j show ?thesis unfolding step by (simp add: Let_def)
    qed
  qed
qed simp

lemma slices_concat:
  assumes "length xs = len * n + (min (extra - i) n)"
  shows "concat (slices extra len i n xs) = xs \<and> (\<forall>s \<in> set (slices extra len i n xs). length s = len \<or> length s = len + 1)"
  using assms
proof (induction extra len i n xs rule: slices.induct)
  case (2 extra len i n xs)
  let ?k = "if i < extra then len + 1 else len"
  have k: "?k \<le> length xs" using 2(2) by auto
  have "length (drop ?k xs) = len * n + min (extra - Suc i) n"
    using 2(2) by (auto simp: algebra_simps min_def)
  from 2(1) [OF refl this] k show ?case
    by (auto simp: Let_def)
qed simp

lemma sort_butlast: "sort_key f (butlast (sort_key f xs)) = butlast (sort_key f xs)"
  by (metis map_butlast sorted_butlast sorted_sort_key sort_key_id_if_sorted)

text \<open>
  The contract of the division: which workers keep an entry, what their subroutes add up to and what
  their queues hold.
\<close>

definition divided :: "location list \<Rightarrow> routepool \<Rightarrow> routepool \<Rightarrow> bool" where
  "divided coords pool pool' \<longleftrightarrow>
     (let ws = take (length coords) (by_time_added pool); n = length coords div length ws
      in set (map fst pool') = set ws \<and> dict_wf pool' \<and>
         (\<forall>w \<in> set ws. \<exists>e. map_of pool w = Some e \<and>
            (\<exists>sub. map_of pool' w = Some (e\<lparr>subroute := sub, entry_queue := requeue (entry_queue e) sub\<rparr>))) \<and>
         concat (map (\<lambda>w. subroute (the (map_of pool' w))) ws) = coords \<and>
         (\<forall>w \<in> set ws. length (subroute (the (map_of pool' w))) = n \<or> length (subroute (the (map_of pool' w))) = n + 1) \<and>
         0 < n)"

lemma by_time_added_keys: "set (by_time_added pool) = fst ` set pool" "length (by_time_added pool) = length pool"
    "dict_wf pool \<Longrightarrow> distinct (by_time_added pool)"
proof -
  show "set (by_time_added pool) = fst ` set pool" "length (by_time_added pool) = length pool"
    by (simp_all add: by_time_added_def)
  assume "dict_wf pool"
  then have "distinct (map fst pool)" by (simp add: dict_wf_def)
  moreover have "mset (by_time_added pool) = mset (map fst pool)"
    by (simp add: by_time_added_def)
  ultimately show "distinct (by_time_added pool)" by (metis mset_eq_imp_distinct_iff)
qed

lemma divide_enough:
  assumes "dict_wf pool" and "pool \<noteq> []" and "length pool \<le> length coords"
  shows "divided coords pool (populate_subroutes (length coords mod length pool) (length coords div length pool) 0 pool
           (by_time_added pool) coords)"
proof -
  let ?x = "length coords mod length pool" and ?n = "length coords div length pool" and ?ws = "by_time_added pool"
  let ?pool' = "populate_subroutes ?x ?n 0 pool ?ws coords" and ?sl = "slices ?x ?n 0 (length pool) coords"
  note bt = by_time_added_keys(1,2) [of pool] by_time_added_keys(3) [OF assms(1)]
  have pos: "0 < length pool" using assms(2) by simp
  have len: "length coords = ?n * length pool + min (?x - 0) (length pool)"
    using pos by (simp add: min_def less_imp_le)
  note sl = slices_concat [OF len]
  have ws: "take (length coords) ?ws = ?ws" using assms(3) bt(2) by simp
  have at: "\<exists>e. map_of pool (?ws ! j) = Some e \<and> map_of ?pool' (?ws ! j) = Some (e\<lparr>subroute := ?sl ! j, entry_queue := requeue (entry_queue e) (?sl ! j)\<rparr>)"
    if "j < length pool" for j
  proof -
    have "?ws ! j \<in> fst ` set pool" using that bt(1,2) nth_mem by metis
    then obtain e where "map_of pool (?ws ! j) = Some e" by (metis map_of_eq_None_iff option.exhaust)
    with populate_entries [OF bt(3), of pool ?x ?n 0 coords] bt that show ?thesis by (auto simp: Let_def)
  qed
  have "map (\<lambda>w. subroute (the (map_of ?pool' w))) ?ws = ?sl"
    using at bt(2) by (intro nth_equalityI) fastforce+
  then have subs: "concat (map (\<lambda>w. subroute (the (map_of ?pool' w))) ?ws) = coords"
      "\<forall>w \<in> set ?ws. length (subroute (the (map_of ?pool' w))) = ?n \<or> length (subroute (the (map_of ?pool' w))) = ?n + 1"
    using sl by (simp, metis (no_types, lifting) image_eqI list.set_map)
  have keep: "\<forall>w \<in> set ?ws. \<exists>e. map_of pool w = Some e \<and> (\<exists>sub. map_of ?pool' w = Some (e\<lparr>subroute := sub, entry_queue := requeue (entry_queue e) sub\<rparr>))"
    using at bt(2) by (metis in_set_conv_nth)
  have keys: "set (map fst ?pool') = set ?ws" by (simp only: populate_keys bt(1) list.set_map)
  have "0 < ?n" using pos assms(3) by (simp add: div_greater_zero_iff)
  moreover have "dict_wf ?pool'" using assms(1) by (simp add: dict_wf_def populate_keys)
  ultimately show ?thesis
    unfolding divided_def ws Let_def bt(2) using subs keep keys by blast
qed

lemma divide_route_divided:
  assumes "dict_wf pool" and "pool \<noteq> []" and "coords \<noteq> []"
  shows "\<exists>pool'. divide_route coords pool = Some pool' \<and> divided coords pool pool'"
  using assms(1,2)
proof (induction pool rule: measure_induct_rule [of length])
  case (less pool)
  let ?sorted = "sort_key (\<lambda>(origin, entry). time_added entry) pool"
  show ?case
  proof (cases "length coords < length pool")
    case False
    then show ?thesis
      using divide_enough [OF less.prems, of coords] less.prems(2)
      by (subst divide_route.simps) (auto simp: Let_def by_time_added_def div_eq_0_iff)
  next
    case True
    let ?p = "butlast ?sorted"
    have ne: "?p \<noteq> []" using True assms(3) by (cases "length pool") (auto simp flip: length_greater_0_conv)
    have wf: "dict_wf ?p"
    proof -
      have "distinct (map fst ?sorted)" using by_time_added_keys(3) [OF less.prems(1)] by (simp add: by_time_added_def)
      then show ?thesis by (simp add: dict_wf_def map_butlast distinct_butlast)
    qed
    have order: "take (length coords) (by_time_added ?p) = take (length coords) (by_time_added pool)"
    proof -
      have "by_time_added ?p = butlast (by_time_added pool)"
        by (simp only: by_time_added_def sort_butlast map_butlast)
      with True show ?thesis by (simp add: take_butlast by_time_added_keys(2))
    qed
    have lookup: "map_of ?p w = Some e \<Longrightarrow> map_of pool w = Some e" for w e
      using less.prems(1) wf by (metis in_dict_iff in_set_butlastD set_sort)
    have "length ?p < length pool" using less.prems(2) by simp
    from less.IH [OF this wf ne] obtain pool' where p: "divide_route coords ?p = Some pool'" "divided coords ?p pool'"
      by blast
    have "divided coords pool pool'"
      using p(2) lookup unfolding divided_def order Let_def by meson
    moreover have "divide_route coords pool = Some pool'"
      using True less.prems(2) p(1) by (subst divide_route.simps) (simp add: Let_def)
    ultimately show ?thesis by blast
  qed
qed

lemma divide_route_empty: "divide_route [] pool = None"
proof (induction pool rule: measure_induct_rule [of length])
  case (less pool)
  then show ?case by (cases "pool = []") (subst divide_route.simps, simp)+
qed

text \<open>
  C15. The route is divided without loss: when there is a coordinate and a worker, the subroutes of the
  workers that joined first (as many as there are coordinates, at most all) concatenate to the route in
  joining order, their lengths differ by at most one and none is empty; every such worker keeps its entry,
  whose queue is a non-empty end of its new subroute; the other workers lose theirs.
\<close>

theorem divide_route_partition:
  assumes "dict_wf pool" and "pool \<noteq> []" and "coords \<noteq> []"
  shows "\<exists>pool'. divide_route coords pool = Some pool' \<and>
    (let ws = take (length coords) (by_time_added pool); n = length coords div length ws
     in set (map fst pool') = set ws \<and>
        concat (map (\<lambda>w. subroute (the (map_of pool' w))) ws) = coords \<and>
        (\<forall>w \<in> set ws. \<exists>e e'. map_of pool w = Some e \<and> map_of pool' w = Some e' \<and>
           e' = e\<lparr>subroute := subroute e', entry_queue := entry_queue e'\<rparr> \<and>
           0 < n \<and> (length (subroute e') = n \<or> length (subroute e') = n + 1) \<and>
           entry_queue e' \<noteq> [] \<and> (\<exists>done. subroute e' = done @ entry_queue e')))"
proof -
  obtain pool' where p: "divide_route coords pool = Some pool'" and d: "divided coords pool pool'"
    using divide_route_divided [OF assms] by blast
  let ?ws = "take (length coords) (by_time_added pool)"
  let ?n = "length coords div length ?ws"
  have "\<exists>e e'. map_of pool w = Some e \<and> map_of pool' w = Some e' \<and>
           e' = e\<lparr>subroute := subroute e', entry_queue := entry_queue e'\<rparr> \<and>
           0 < ?n \<and> (length (subroute e') = ?n \<or> length (subroute e') = ?n + 1) \<and>
           entry_queue e' \<noteq> [] \<and> (\<exists>done. subroute e' = done @ entry_queue e')" if "w \<in> set ?ws" for w
  proof -
    obtain e sub where e: "map_of pool w = Some e" "map_of pool' w = Some (e\<lparr>subroute := sub, entry_queue := requeue (entry_queue e) sub\<rparr>)"
      using d \<open>w \<in> set ?ws\<close> by (auto simp: divided_def Let_def)
    have "length (subroute (the (map_of pool' w))) = ?n \<or> length (subroute (the (map_of pool' w))) = ?n + 1" and n: "0 < ?n"
      using d \<open>w \<in> set ?ws\<close> by (auto simp: divided_def Let_def)
    then have "length sub = ?n \<or> length sub = ?n + 1" using e by simp
    moreover from this n have "sub \<noteq> []" by auto
    ultimately show ?thesis using e n requeue_nonempty [of sub "entry_queue e"] requeue_suffix [of sub "entry_queue e"] by auto
  qed
  with p d show ?thesis by (auto simp: divided_def Let_def)
qed

definition witness_entry :: "real \<Rightarrow> location list \<Rightarrow> route_entry" where
  "witness_entry t q = \<lparr>last_access = t, subroute = [], time_added = t, entry_queue = q, rounds = 0, current_pos = Loc 0 0,
     prio_coord = None, worker_sleeping = 0, last_position_type = NormalPos\<rparr>"

definition witness_pool :: routepool where
  "witness_pool = [(''b'', witness_entry 20 []), (''a'', witness_entry 10 [])]"

lemma divide_route_partition_witness:
  "\<exists>pool'. divide_route [Loc 1 1, Loc 2 2, Loc 3 3] witness_pool = Some pool' \<and>
     subroute (the (map_of pool' ''a'')) @ subroute (the (map_of pool' ''b'')) = [Loc 1 1, Loc 2 2, Loc 3 3]"
  using divide_route_partition [of witness_pool "[Loc 1 1, Loc 2 2, Loc 3 3]"]
  by (auto simp: witness_pool_def witness_entry_def dict_wf_def by_time_added_def Let_def)

end
