(* ===== verification/Account.thy ===== *)
theory Account
  imports GameMechanics Geo
begin

text \<open>
  Accounts and their assignment to devices: \<open>mapadroid/account_handler/AccountHandler.py\<close> over the table
  \<open>settings_pogoauth\<close>, with the queries of \<open>SettingsPogoauthHelper\<close> as filters of the rows in table order.
  Timestamps are seconds, \<open>now\<close> is the clock. \<open>re_search\<close> stands for \<open>re.search\<close> with a user name as its
  pattern, ignoring case.
\<close>

section \<open>Tables\<close>

datatype account_purpose = IV_QUEST | LEVEL | QUEST | IV | MON_RAID

record pogoauth =
  auth_instance :: int
  account_id :: int
  auth_device :: "int option"
  login_type :: string
  username :: string
  level :: int
  last_burn :: "int option"
  last_burn_type :: "string option"
  last_softban_action :: "int option"
  last_softban_location :: "location option"

record settings_device =
  dev_instance :: int
  dev_id :: int
  dev_name :: string
  ggl_login_mail :: "string option"

text \<open>The handler's configuration: its instance and whether accounts are restricted to it.\<close>

record account_config =
  my_instance :: int
  no_restrict :: bool

definition MIN_LEVEL_RAID :: int where "MIN_LEVEL_RAID = 8"
definition MIN_LEVEL_IV :: int where "MIN_LEVEL_IV = 30"
definition MAINTENANCE_COOLDOWN_HOURS :: int where "MAINTENANCE_COOLDOWN_HOURS = 24"
definition QUEST_WALK_SPEED_CALCULATED :: real where "QUEST_WALK_SPEED_CALCULATED = 16.67"

section \<open>Queries\<close>

definition visible :: "account_config \<Rightarrow> pogoauth \<Rightarrow> bool" where
  "visible cfg auth \<longleftrightarrow> no_restrict cfg \<or> auth_instance auth = my_instance cfg"

definition get_unassigned :: "account_config \<Rightarrow> string option \<Rightarrow> pogoauth list \<Rightarrow> pogoauth list" where
  "get_unassigned cfg auth_type rows =
     filter (\<lambda>a. auth_device a = None \<and> visible cfg a \<and> (case auth_type of None \<Rightarrow> True | Some t \<Rightarrow> login_type a = t)) rows"

definition get_assigned_to_device :: "int \<Rightarrow> pogoauth list \<Rightarrow> pogoauth option" where
  "get_assigned_to_device device rows = find (\<lambda>a. auth_device a = Some device) rows"

definition get_auth :: "account_config \<Rightarrow> int \<Rightarrow> pogoauth list \<Rightarrow> pogoauth option" where
  "get_auth cfg identifier rows = find (\<lambda>a. visible cfg a \<and> account_id a = identifier) rows"

definition get_all_auths :: "account_config \<Rightarrow> pogoauth list \<Rightarrow> pogoauth list" where
  "get_all_auths cfg rows = filter (visible cfg) rows"

definition get_all_mapped :: "account_config \<Rightarrow> pogoauth list \<Rightarrow> (int, pogoauth) dict" where
  "get_all_mapped cfg rows = fold (\<lambda>a m. AList.update (account_id a) a m) (get_all_auths cfg rows) []"

definition get_avail_accounts ::
    "account_config \<Rightarrow> string option \<Rightarrow> int option \<Rightarrow> bool \<Rightarrow> pogoauth list \<Rightarrow> (int, pogoauth) dict" where
  "get_avail_accounts cfg auth_type device return_all rows =
     fold (\<lambda>a m.
         if \<not> return_all \<and> (device \<noteq> None \<and> (auth_device a \<noteq> device \<and> auth_device a \<noteq> None)
              \<or> device = None \<and> auth_device a \<noteq> None)
         then m else AList.update (account_id a) a m)
       (filter (\<lambda>a. visible cfg a \<and> (case auth_type of None \<Rightarrow> True | Some t \<Rightarrow> login_type a = t)) rows) []"

definition get_google_auth_by_username :: "account_config \<Rightarrow> string \<Rightarrow> pogoauth list \<Rightarrow> pogoauth option" where
  "get_google_auth_by_username cfg mail rows =
     find (\<lambda>a. login_type a = ''google'' \<and> username a = mail \<and> visible cfg a) rows"

text \<open>\<open>auth_id\<close> is the outcome of \<open>int(auth_id)\<close>, \<open>None\<close> when it raises.\<close>

definition get_available_devices ::
    "account_config \<Rightarrow> int option \<Rightarrow> settings_device list \<Rightarrow> pogoauth list \<Rightarrow> (int, settings_device) dict" where
  "get_available_devices cfg auth_id devices rows =
     (let pogoauths = get_all_auths cfg rows;
          device_id = (case auth_id of
              None \<Rightarrow> None
            | Some i \<Rightarrow> (case find (\<lambda>a. account_id a = i) pogoauths of None \<Rightarrow> None | Some a \<Rightarrow> auth_device a));
          invalid = List.map_filter (\<lambda>a. if auth_device a \<noteq> None \<and> device_id \<noteq> None \<and> auth_device a \<noteq> device_id
              \<or> auth_device a \<noteq> None \<and> device_id = None then auth_device a else None) pogoauths
      in fold (\<lambda>d m. if dev_id d \<in> set invalid then m else AList.update (dev_id d) d m)
           (filter (\<lambda>d. dev_instance d = my_instance cfg) devices) [])"

definition get_device :: "account_config \<Rightarrow> int \<Rightarrow> settings_device list \<Rightarrow> settings_device option" where
  "get_device cfg device devices = find (\<lambda>d. dev_instance d = my_instance cfg \<and> dev_id d = device) devices"

text \<open>Writing a row back: the account id is the primary key.\<close>

definition store_auth :: "pogoauth \<Rightarrow> pogoauth list \<Rightarrow> pogoauth list" where
  "store_auth auth rows = map (\<lambda>a. if account_id a = account_id auth then auth else a) rows"

section \<open>Burnt accounts and purposes\<close>

definition auth_is_burnt :: "int \<Rightarrow> pogoauth \<Rightarrow> bool result" where
  "auth_is_burnt now auth =
     (case last_burn_type auth of
        None \<Rightarrow> Inr False
      | Some t \<Rightarrow>
         (if t = ''ban'' then Inr True
          else if t = ''suspended''
          then (case last_burn auth of None \<Rightarrow> Inl TypeError | Some b \<Rightarrow> Inr (b + 7 * 86400 > now))
          else if t = ''maintenance''
          then (case last_burn auth of None \<Rightarrow> Inl TypeError | Some b \<Rightarrow> Inr (b + MAINTENANCE_COOLDOWN_HOURS * 3600 > now))
          else Inr False))"

definition is_usable_for_purpose :: "int \<Rightarrow> pogoauth \<Rightarrow> account_purpose \<Rightarrow> location option \<Rightarrow> bool result" where
  "is_usable_for_purpose now auth purpose location_to_scan =
     (case purpose of
        MON_RAID \<Rightarrow> Inr (level auth \<ge> MIN_LEVEL_RAID)
      | IV \<Rightarrow> Inr (level auth \<ge> MIN_LEVEL_IV)
      | _ \<Rightarrow>
         (if (purpose = IV_QUEST \<or> purpose = QUEST) \<and> level auth < MIN_LEVEL_IV then Inr False
          else if purpose = LEVEL \<and> level auth \<ge> MIN_LEVEL_IV then Inr False
          else (case last_softban_location auth of
              None \<Rightarrow> Inr True
            | Some last_action_location \<Rightarrow>
               (case location_to_scan of
                  None \<Rightarrow> Inr False
                | Some loc \<Rightarrow>
                   res_bind (calculate_cooldown (dist_loc last_action_location loc) QUEST_WALK_SPEED_CALCULATED) (\<lambda>cooldown.
                     (case last_softban_action auth of
                        None \<Rightarrow> Inl TypeError
                      | Some action \<Rightarrow> Inr (real_of_int now > real_of_int action + cooldown)))))))"

type_synonym re_search = "string \<Rightarrow> string \<Rightarrow> bool"

definition is_google_of_device :: "re_search \<Rightarrow> pogoauth \<Rightarrow> settings_device \<Rightarrow> bool" where
  "is_google_of_device re_search auth device =
     (case ggl_login_mail device of None \<Rightarrow> False | Some m \<Rightarrow> m \<noteq> [] \<and> re_search (username auth) m)"

definition is_ptc_or_ggl_of_device :: "re_search \<Rightarrow> pogoauth \<Rightarrow> settings_device \<Rightarrow> bool" where
  "is_ptc_or_ggl_of_device re_search auth device =
     (if login_type auth = ''ptc'' then True
      else if login_type auth = ''google'' then is_google_of_device re_search auth device
      else False)"

section \<open>The handler\<close>

text \<open>The filter of \<open>get_account\<close>; an exception in it leaves the method.\<close>

fun filter_usable :: "int \<Rightarrow> account_purpose \<Rightarrow> location option \<Rightarrow> pogoauth list \<Rightarrow> pogoauth list result" where
  "filter_usable now purpose loc [] = Inr []"
| "filter_usable now purpose loc (a # as) =
     res_bind (auth_is_burnt now a) (\<lambda>burnt.
     res_bind (if burnt then Inr False else is_usable_for_purpose now a purpose loc) (\<lambda>usable.
     res_bind (filter_usable now purpose loc as) (\<lambda>rest. Inr (if usable then a # rest else rest))))"

definition burn_key :: "pogoauth \<Rightarrow> int" where
  "burn_key a = (case last_burn a of None \<Rightarrow> 0 | Some b \<Rightarrow> b)"

definition select_login :: "re_search \<Rightarrow> settings_device \<Rightarrow> pogoauth list \<Rightarrow> pogoauth option" where
  "select_login re_search device logins =
     (case find (\<lambda>a. login_type a \<noteq> ''ptc'' \<and> is_google_of_device re_search a device) logins of
        Some a \<Rightarrow> Some a
      | None \<Rightarrow> (case filter (\<lambda>a. is_ptc_or_ggl_of_device re_search a device) logins of
            [] \<Rightarrow> None | a # _ \<Rightarrow> Some a))"

definition assign_login :: "int \<Rightarrow> pogoauth \<Rightarrow> pogoauth list \<Rightarrow> pogoauth list" where
  "assign_login device login rows =
     (let rows1 = (case get_assigned_to_device device rows of
            None \<Rightarrow> rows | Some current \<Rightarrow> store_auth (current\<lparr>auth_device := None\<rparr>) rows)
      in store_auth (login\<lparr>auth_device := Some device\<rparr>) rows1)"

definition get_account ::
    "account_config \<Rightarrow> re_search \<Rightarrow> settings_device list \<Rightarrow> int \<Rightarrow> int \<Rightarrow> account_purpose \<Rightarrow> location option \<Rightarrow>
     pogoauth list \<Rightarrow> (pogoauth option \<times> pogoauth list) result" where
  "get_account cfg re_search devices now device purpose loc rows =
     (case get_device cfg device devices of
        None \<Rightarrow> Inr (None, rows)
      | Some device_entry \<Rightarrow>
          res_bind (filter_usable now purpose loc (map snd (get_avail_accounts cfg None (Some device) False rows)))
            (\<lambda>logins. case select_login re_search device_entry (sort_key burn_key logins) of
                None \<Rightarrow> Inr (None, rows)
              | Some login \<Rightarrow> Inr (Some (login\<lparr>auth_device := Some device\<rparr>), assign_login device login rows)))"

definition notify_logout :: "int \<Rightarrow> pogoauth list \<Rightarrow> pogoauth list" where
  "notify_logout device rows =
     (case get_assigned_to_device device rows of
        None \<Rightarrow> rows | Some current \<Rightarrow> store_auth (current\<lparr>auth_device := None\<rparr>) rows)"

definition is_burnt :: "int \<Rightarrow> int \<Rightarrow> int option \<Rightarrow> pogoauth list \<Rightarrow> bool result" where
  "is_burnt now device account rows =
     (case get_assigned_to_device device rows of
        None \<Rightarrow> Inl ValueError
      | Some auth \<Rightarrow> if Some (account_id auth) \<noteq> account then Inl ValueError else auth_is_burnt now auth)"

definition helper_mark_burnt :: "account_config \<Rightarrow> int \<Rightarrow> int \<Rightarrow> string option \<Rightarrow> pogoauth list \<Rightarrow> pogoauth list" where
  "helper_mark_burnt cfg now account burn_type rows =
     (case get_auth cfg account rows of
        None \<Rightarrow> rows
      | Some auth \<Rightarrow> store_auth (case burn_type of
            None \<Rightarrow> auth\<lparr>last_burn := None, last_burn_type := None\<rparr>
          | Some t \<Rightarrow> auth\<lparr>last_burn := Some now, last_burn_type := Some t\<rparr>) rows)"

definition mark_burnt :: "account_config \<Rightarrow> int \<Rightarrow> int \<Rightarrow> string option \<Rightarrow> pogoauth list \<Rightarrow> pogoauth list" where
  "mark_burnt cfg now device burn_type rows =
     (case get_assigned_to_device device rows of
        None \<Rightarrow> rows | Some auth \<Rightarrow> helper_mark_burnt cfg now (account_id auth) burn_type rows)"

text \<open>A timestamp of zero is falsy and means the present.\<close>

definition set_last_softban_action :: "int \<Rightarrow> int \<Rightarrow> int \<Rightarrow> location \<Rightarrow> pogoauth list \<Rightarrow> pogoauth list" where
  "set_last_softban_action now device time_of_action loc rows =
     (case get_assigned_to_device device rows of
        None \<Rightarrow> rows
      | Some auth \<Rightarrow> store_auth (auth\<lparr>last_softban_action := Some (if time_of_action \<noteq> 0 then time_of_action else now),
            last_softban_location := Some loc\<rparr>) rows)"

definition set_level :: "int \<Rightarrow> int \<Rightarrow> pogoauth list \<Rightarrow> pogoauth list" where
  "set_level device lvl rows =
     (case get_assigned_to_device device rows of None \<Rightarrow> rows | Some auth \<Rightarrow> store_auth (auth\<lparr>level := lvl\<rparr>) rows)"

definition get_assigned_username :: "account_config \<Rightarrow> settings_device list \<Rightarrow> int \<Rightarrow> pogoauth list \<Rightarrow> string option" where
  "get_assigned_username cfg devices device rows =
     (case get_device cfg device devices of
        None \<Rightarrow> None
      | Some d \<Rightarrow> map_option username (get_assigned_to_device (dev_id d) rows))"

section \<open>Histories\<close>

datatype account_op =
    GetAccount int int account_purpose "location option"
  | Logout int
  | MarkBurnt int int "string option"
  | Softban int int int location
  | SetLevel int int

fun account_step ::
    "account_config \<Rightarrow> re_search \<Rightarrow> settings_device list \<Rightarrow> account_op \<Rightarrow> pogoauth list \<Rightarrow> pogoauth list" where
  "account_step cfg re devs (GetAccount now d p l) rows =
     (case get_account cfg re devs now d p l rows of Inl _ \<Rightarrow> rows | Inr (_, rows') \<Rightarrow> rows')"
| "account_step cfg re devs (Logout d) rows = notify_logout d rows"
| "account_step cfg re devs (MarkBurnt now d t) rows = mark_burnt cfg now d t rows"
| "account_step cfg re devs (Softban now d t l) rows = set_last_softban_action now d t l rows"
| "account_step cfg re devs (SetLevel d lvl) rows = set_level d lvl rows"

section \<open>Well-formed tables\<close>

text \<open>Account ids are unique and no device has two accounts.\<close>

definition accounts_wf :: "pogoauth list \<Rightarrow> bool" where
  "accounts_wf rows \<longleftrightarrow> distinct (map account_id rows) \<and>
     (\<forall>a \<in> set rows. \<forall>b \<in> set rows. auth_device a \<noteq> None \<longrightarrow> auth_device a = auth_device b \<longrightarrow> account_id a = account_id b)"

lemma accounts_wf_ids: "accounts_wf rows \<Longrightarrow> a \<in> set rows \<Longrightarrow> b \<in> set rows \<Longrightarrow> account_id a = account_id b \<Longrightarrow> a = b"
  by (auto simp: accounts_wf_def distinct_map inj_on_def)

lemma find_Some_mem: "find P xs = Some x \<Longrightarrow> x \<in> set xs \<and> P x"
  by (auto simp: find_Some_iff)

lemma find_None_all: "find P xs = None \<longleftrightarrow> (\<forall>x \<in> set xs. \<not> P x)"
  by (auto simp: find_None_iff)

lemma get_assigned_mem: "get_assigned_to_device d rows = Some a \<Longrightarrow> a \<in> set rows \<and> auth_device a = Some d"
  using find_Some_mem unfolding get_assigned_to_device_def by fastforce

lemma get_assigned_unique:
  assumes "accounts_wf rows" and "a \<in> set rows" and "auth_device a = Some d"
  shows "get_assigned_to_device d rows = Some a"
proof (cases "get_assigned_to_device d rows")
  case None
  with assms(2,3) show ?thesis by (auto simp: get_assigned_to_device_def find_None_all)
next
  case (Some b)
  note b = get_assigned_mem [OF Some]
  have "account_id a = account_id b"
    using assms(1) unfolding accounts_wf_def using assms(2,3) b by (metis option.distinct(1))
  then have "a = b" using accounts_wf_ids [OF assms(1)] assms(2) b by blast
  with Some show ?thesis by simp
qed

lemma store_auth_ids: "map account_id (store_auth auth rows) = map account_id rows"
  by (simp add: store_auth_def)

lemma set_store_auth:
  "distinct (map account_id rows) \<Longrightarrow> a \<in> set rows \<Longrightarrow> account_id auth = account_id a \<Longrightarrow>
   set (store_auth auth rows) = insert auth (set rows - {a})"
  by (auto simp: store_auth_def distinct_map inj_on_def)

text \<open>A row whose device did not change, or was cleared, keeps the table well-formed.\<close>

lemma store_auth_wf:
  assumes "accounts_wf rows" and "a \<in> set rows" and "account_id auth = account_id a"
    and "auth_device auth = auth_device a \<or> auth_device auth = None"
  shows "accounts_wf (store_auth auth rows)"
proof -
  have ids: "distinct (map account_id rows)" using assms(1) by (simp add: accounts_wf_def)
  have orig: "\<exists>x0 \<in> set rows. account_id x0 = account_id x \<and> (auth_device x = auth_device x0 \<or> auth_device x = None)"
    if "x \<in> set (store_auth auth rows)" for x
    using that assms(2,3,4) unfolding set_store_auth [OF ids assms(2,3)] by auto
  have "account_id x = account_id y"
    if "x \<in> set (store_auth auth rows)" "y \<in> set (store_auth auth rows)" "auth_device x \<noteq> None" "auth_device x = auth_device y" for x y
    using orig [OF that(1)] orig [OF that(2)] that(3,4) assms(1) unfolding accounts_wf_def by metis
  then show ?thesis unfolding accounts_wf_def store_auth_ids using ids by blast
qed

lemma notify_logout_wf: "accounts_wf rows \<Longrightarrow> accounts_wf (notify_logout d rows)"
proof (cases "get_assigned_to_device d rows")
  case (Some a)
  assume "accounts_wf rows"
  with Some get_assigned_mem [OF Some] show ?thesis
    by (simp add: notify_logout_def store_auth_wf [of rows a])
qed (simp add: notify_logout_def)

lemma notify_logout_free:
  assumes "accounts_wf rows" and "b \<in> set (notify_logout d rows)"
  shows "auth_device b \<noteq> Some d"
proof (cases "get_assigned_to_device d rows")
  case None
  then have "notify_logout d rows = rows" by (simp add: notify_logout_def)
  with None assms(2) show ?thesis by (auto simp: get_assigned_to_device_def find_None_all)
next
  case (Some a)
  note a = get_assigned_mem [OF Some]
  have "set (notify_logout d rows) = insert (a\<lparr>auth_device := None\<rparr>) (set rows - {a})"
    using assms(1) a Some by (auto simp: notify_logout_def accounts_wf_def set_store_auth)
  with assms(2) have "b = a\<lparr>auth_device := None\<rparr> \<or> b \<in> set rows \<and> b \<noteq> a" by auto
  with a Some get_assigned_unique [OF assms(1), of b d] show ?thesis by auto
qed

lemma notify_logout_ids: "account_id ` set (notify_logout d rows) = account_id ` set rows"
proof -
  have "map account_id (notify_logout d rows) = map account_id rows"
    by (simp add: notify_logout_def store_auth_ids split: option.splits)
  then show ?thesis by (metis list.set_map)
qed

lemma assign_login_logout: "assign_login d login rows = store_auth (login\<lparr>auth_device := Some d\<rparr>) (notify_logout d rows)"
  by (simp add: assign_login_def notify_logout_def Let_def)

lemma assign_login_wf:
  assumes "accounts_wf rows" and "login \<in> set rows"
  shows "accounts_wf (assign_login d login rows)"
    and "set (assign_login d login rows) = insert (login\<lparr>auth_device := Some d\<rparr>) {b \<in> set (notify_logout d rows). account_id b \<noteq> account_id login}"
proof -
  let ?rows = "notify_logout d rows"
  have wf: "accounts_wf ?rows" using assms(1) by (rule notify_logout_wf)
  obtain a where a: "a \<in> set ?rows" "account_id a = account_id login"
    using assms(2) notify_logout_ids [of d rows] by (metis image_iff)
  have eq: "set (store_auth (login\<lparr>auth_device := Some d\<rparr>) ?rows) = insert (login\<lparr>auth_device := Some d\<rparr>) (set ?rows - {a})"
    using wf a by (intro set_store_auth) (simp_all add: accounts_wf_def)
  moreover have "set ?rows - {a} = {b \<in> set ?rows. account_id b \<noteq> account_id login}"
    using accounts_wf_ids [OF wf] a by auto
  ultimately show set_eq: "set (assign_login d login rows) = insert (login\<lparr>auth_device := Some d\<rparr>) {b \<in> set ?rows. account_id b \<noteq> account_id login}"
    by (simp add: assign_login_logout)
  have "distinct (map account_id (assign_login d login rows))"
    using wf by (simp add: assign_login_logout store_auth_ids accounts_wf_def)
  with wf set_eq notify_logout_free [OF assms(1)] show "accounts_wf (assign_login d login rows)"
    unfolding accounts_wf_def by fastforce
qed

section \<open>Selection\<close>

text \<open>The accounts \<open>get_account\<close> may choose from.\<close>

definition eligible :: "account_config \<Rightarrow> int \<Rightarrow> int \<Rightarrow> account_purpose \<Rightarrow> location option \<Rightarrow> pogoauth \<Rightarrow> bool" where
  "eligible cfg now device purpose loc a \<longleftrightarrow> visible cfg a \<and> (auth_device a = None \<or> auth_device a = Some device)
     \<and> auth_is_burnt now a = Inr False \<and> is_usable_for_purpose now a purpose loc = Inr True"

lemma fold_update_append:
  assumes "distinct (map account_id rows)" and "fst ` set m \<inter> account_id ` set rows = {}"
  shows "fold (\<lambda>a m. if P a then m else AList.update (account_id a) a m) rows m
    = m @ map (\<lambda>a. (account_id a, a)) (filter (\<lambda>a. \<not> P a) rows)"
  using assms
proof (induction rows arbitrary: m)
  case (Cons a rows)
  have "map_of m (account_id a) = None" using Cons.prems(2) by (auto simp: map_of_eq_None_iff)
  then have "AList.update (account_id a) a m = m @ [(account_id a, a)]" by (rule update_new_key)
  with Cons show ?case by (auto simp: Int_Un_distrib2)
qed simp

lemma get_avail_accounts_rows:
  assumes "distinct (map account_id rows)"
  shows "map snd (get_avail_accounts cfg None (Some d) False rows)
    = filter (\<lambda>a. visible cfg a \<and> (auth_device a = None \<or> auth_device a = Some d)) rows"
proof -
  have "distinct (map account_id (filter (visible cfg) rows))"
    using assms by (simp add: distinct_map inj_on_def)
  note app = fold_update_append [OF this, of "[]" "\<lambda>a. auth_device a \<noteq> Some d \<and> auth_device a \<noteq> None"]
  have "get_avail_accounts cfg None (Some d) False rows
      = fold (\<lambda>a m. if auth_device a \<noteq> Some d \<and> auth_device a \<noteq> None then m else AList.update (account_id a) a m)
          (filter (visible cfg) rows) []"
    by (simp add: get_avail_accounts_def)
  then show ?thesis using app by (simp add: comp_def) (rule filter_cong, auto)
qed

lemma filter_usable_rows:
  "filter_usable now purpose loc as = Inr bs \<Longrightarrow>
   bs = filter (\<lambda>a. auth_is_burnt now a = Inr False \<and> is_usable_for_purpose now a purpose loc = Inr True) as"
proof (induction as arbitrary: bs)
  case (Cons a as)
  from Cons.prems obtain burnt usable rest where b: "auth_is_burnt now a = Inr burnt"
      and u: "(if burnt then Inr False else is_usable_for_purpose now a purpose loc) = Inr usable"
      and r: "filter_usable now purpose loc as = Inr rest" and bs: "bs = (if usable then a # rest else rest)"
    unfolding filter_usable.simps res_bind_Inr by blast
  show ?case using Cons.IH [OF r] b u bs by (cases burnt; cases usable) simp_all
qed simp

lemma select_login_mem:
  "select_login re dev logins = Some a \<Longrightarrow> a \<in> set logins"
proof (cases "find (\<lambda>a. login_type a \<noteq> ''ptc'' \<and> is_google_of_device re a dev) logins")
  case (Some b)
  assume "select_login re dev logins = Some a"
  with Some find_Some_mem [OF Some] show ?thesis by (simp add: select_login_def)
next
  case None
  assume "select_login re dev logins = Some a"
  with None obtain bs where "filter (\<lambda>a. is_ptc_or_ggl_of_device re a dev) logins = a # bs"
    by (auto simp: select_login_def split: list.splits)
  then have "a \<in> set (filter (\<lambda>a. is_ptc_or_ggl_of_device re a dev) logins)" by simp
  then show ?thesis by simp
qed

lemma select_login_None:
  assumes "\<forall>a \<in> set logins. login_type a = ''ptc'' \<or> login_type a = ''google''"
  shows "select_login re dev logins = None \<longleftrightarrow> (\<forall>a \<in> set logins. \<not> is_ptc_or_ggl_of_device re a dev)"
proof (cases "find (\<lambda>a. login_type a \<noteq> ''ptc'' \<and> is_google_of_device re a dev) logins")
  case (Some b)
  with find_Some_mem [OF Some] assms show ?thesis by (auto simp: select_login_def is_ptc_or_ggl_of_device_def)
next
  case None
  have "filter (\<lambda>a. is_ptc_or_ggl_of_device re a dev) logins = [] \<longleftrightarrow> (\<forall>a \<in> set logins. \<not> is_ptc_or_ggl_of_device re a dev)"
    by (rule filter_empty_conv)
  with None show ?thesis by (auto simp: select_login_def split: list.splits)
qed

lemma get_account_cases:
  assumes "distinct (map account_id rows)"
    and "get_account cfg re devs now device purpose loc rows = Inr (res, rows')"
    and "get_device cfg device devs = Some dev"
  shows "\<exists>logins. set logins = {a \<in> set rows. eligible cfg now device purpose loc a} \<and>
    res = map_option (\<lambda>a. a\<lparr>auth_device := Some device\<rparr>) (select_login re dev logins) \<and>
    rows' = (case select_login re dev logins of None \<Rightarrow> rows | Some a \<Rightarrow> assign_login device a rows)"
proof -
  obtain bs where bs: "filter_usable now purpose loc (map snd (get_avail_accounts cfg None (Some device) False rows)) = Inr bs"
    using assms(2,3) by (auto simp: get_account_def res_bind_Inr)
  have "set (sort_key burn_key bs) = {a \<in> set rows. eligible cfg now device purpose loc a}"
    using filter_usable_rows [OF bs] by (auto simp: get_avail_accounts_rows [OF assms(1)] eligible_def)
  with assms(2,3) bs show ?thesis
    by (intro exI [of _ "sort_key burn_key bs"]) (auto simp: get_account_def split: option.splits)
qed

section \<open>Properties\<close>

text \<open>
  C26. An account is handed out only to a device that may have it: it was free or already the device's,
  belongs to the instance unless accounts are shared, is not burnt, fits the purpose (level, soft-ban
  cooldown at the location); the table then binds it to the device, nothing else to that device, and every
  other row is as before except that a former account of the device is released.
\<close>

theorem get_account_sound:
  assumes "accounts_wf rows" and "get_account cfg re devs now device purpose loc rows = Inr (Some login, rows')"
  shows "\<exists>a \<in> set rows. login = a\<lparr>auth_device := Some device\<rparr> \<and> eligible cfg now device purpose loc a \<and>
    login \<in> set rows' \<and>
    (\<forall>b \<in> set rows'. b = login \<or> auth_device b \<noteq> Some device \<and>
       (b \<in> set rows \<or> (\<exists>c \<in> set rows. auth_device c = Some device \<and> b = c\<lparr>auth_device := None\<rparr>)))"
proof -
  obtain dev where dev: "get_device cfg device devs = Some dev"
    using assms(2) by (cases "get_device cfg device devs") (auto simp: get_account_def)
  have ids: "distinct (map account_id rows)" using assms(1) by (simp add: accounts_wf_def)
  obtain logins where l: "set logins = {a \<in> set rows. eligible cfg now device purpose loc a}"
      "Some login = map_option (\<lambda>a. a\<lparr>auth_device := Some device\<rparr>) (select_login re dev logins)"
      "rows' = (case select_login re dev logins of None \<Rightarrow> rows | Some a \<Rightarrow> assign_login device a rows)"
    using get_account_cases [OF ids assms(2) dev] by blast
  then obtain a where a: "select_login re dev logins = Some a" "login = a\<lparr>auth_device := Some device\<rparr>"
      "rows' = assign_login device a rows"
    by (cases "select_login re dev logins") auto
  have mem: "a \<in> set rows" "eligible cfg now device purpose loc a" using select_login_mem [OF a(1)] l(1) by auto
  note rows' = assign_login_wf(2) [OF assms(1) mem(1), of device]
  have "b \<in> set rows \<or> (\<exists>c \<in> set rows. auth_device c = Some device \<and> b = c\<lparr>auth_device := None\<rparr>)"
    if "b \<in> set (notify_logout device rows)" for b
  proof (cases "get_assigned_to_device device rows")
    case None
    with that show ?thesis by (simp add: notify_logout_def)
  next
    case (Some c)
    note c = get_assigned_mem [OF Some]
    have "set (notify_logout device rows) = insert (c\<lparr>auth_device := None\<rparr>) (set rows - {c})"
      using ids Some c by (simp add: notify_logout_def set_store_auth)
    with that c show ?thesis by blast
  qed
  with mem a rows' notify_logout_free [OF assms(1)] show ?thesis by (intro bexI [of _ a]) auto
qed

text \<open>
  \<open>get_account\<close> comes back empty-handed exactly when the device is unknown or there is no eligible
  account that is a PTC account or a Google account of the device; the table is then unchanged.
\<close>

theorem get_account_complete:
  assumes "accounts_wf rows" and "get_account cfg re devs now device purpose loc rows = Inr (res, rows')"
    and "\<forall>a \<in> set rows. login_type a = ''ptc'' \<or> login_type a = ''google''"
  shows "(res = None \<longleftrightarrow> (case get_device cfg device devs of None \<Rightarrow> True
      | Some dev \<Rightarrow> \<forall>a \<in> set rows. eligible cfg now device purpose loc a \<longrightarrow> \<not> is_ptc_or_ggl_of_device re a dev)) \<and>
    (res = None \<longrightarrow> rows' = rows)"
proof (cases "get_device cfg device devs")
  case None
  with assms(2) show ?thesis by (auto simp: get_account_def)
next
  case (Some dev)
  have ids: "distinct (map account_id rows)" using assms(1) by (simp add: accounts_wf_def)
  obtain logins where l: "set logins = {a \<in> set rows. eligible cfg now device purpose loc a}"
      "res = map_option (\<lambda>a. a\<lparr>auth_device := Some device\<rparr>) (select_login re dev logins)"
      "rows' = (case select_login re dev logins of None \<Rightarrow> rows | Some a \<Rightarrow> assign_login device a rows)"
    using get_account_cases [OF ids assms(2) Some] by blast
  have "\<forall>a \<in> set logins. login_type a = ''ptc'' \<or> login_type a = ''google''" using l(1) assms(3) by auto
  from select_login_None [OF this, of re dev] l Some show ?thesis by auto
qed

lemma account_step_wf: "accounts_wf rows \<Longrightarrow> accounts_wf (account_step cfg re devs x rows)"
proof (cases x)
  case (GetAccount now d p l)
  assume wf: "accounts_wf rows"
  then have ids: "distinct (map account_id rows)" by (simp add: accounts_wf_def)
  show ?thesis
  proof (cases "get_account cfg re devs now d p l rows")
    case (Inl e)
    with GetAccount wf show ?thesis by simp
  next
    case (Inr r)
    obtain res rows' where r: "r = (res, rows')" by (cases r)
    show ?thesis
    proof (cases "get_device cfg d devs")
      case None
      with wf GetAccount show ?thesis by (simp add: get_account_def)
    next
      case (Some dev)
      obtain logins where "set logins \<subseteq> set rows"
          "rows' = (case select_login re dev logins of None \<Rightarrow> rows | Some a \<Rightarrow> assign_login d a rows)"
        using get_account_cases [OF ids Inr [unfolded r] Some] by blast
      then have "accounts_wf rows'"
        using wf select_login_mem [of re dev logins] assign_login_wf(1) [OF wf] by (auto split: option.splits)
      with Inr r GetAccount show ?thesis by simp
    qed
  qed
next
  case (Logout d)
  assume "accounts_wf rows"
  with Logout show ?thesis by (simp add: notify_logout_wf)
next
  case (MarkBurnt now d t)
  assume wf: "accounts_wf rows"
  show ?thesis
  proof (cases "get_assigned_to_device d rows")
    case (Some a)
    show ?thesis
    proof (cases "get_auth cfg (account_id a) rows")
      case (Some b)
      then have "b \<in> set rows" unfolding get_auth_def using find_Some_mem by fastforce
      with Some \<open>get_assigned_to_device d rows = Some a\<close> wf MarkBurnt show ?thesis
        by (cases t) (simp_all add: mark_burnt_def helper_mark_burnt_def store_auth_wf [of rows b])
    qed (use Some wf MarkBurnt in \<open>simp add: mark_burnt_def helper_mark_burnt_def\<close>)
  qed (use wf MarkBurnt in \<open>simp add: mark_burnt_def\<close>)
next
  case (Softban now d t l)
  assume wf: "accounts_wf rows"
  with Softban show ?thesis
    by (cases "get_assigned_to_device d rows")
      (auto simp: set_last_softban_action_def dest!: get_assigned_mem intro!: store_auth_wf [of rows])
next
  case (SetLevel d lvl)
  assume wf: "accounts_wf rows"
  with SetLevel show ?thesis
    by (cases "get_assigned_to_device d rows")
      (auto simp: set_level_def dest!: get_assigned_mem intro!: store_auth_wf [of rows])
qed

lemma account_run_wf: "accounts_wf rows \<Longrightarrow> accounts_wf (fold (account_step cfg re devs) ops rows)"
  by (induction ops arbitrary: rows) (simp_all add: account_step_wf)

lemma assign_login_ids: "map account_id (assign_login d login rows) = map account_id rows"
  by (simp add: assign_login_def Let_def store_auth_ids split: option.splits)

lemma account_step_ids: "map account_id (account_step cfg re devs x rows) = map account_id rows"
proof (cases x)
  case (GetAccount now d p l)
  show ?thesis
  proof (cases "get_account cfg re devs now d p l rows")
    case (Inr r)
    then have "snd r = rows \<or> (\<exists>a. snd r = assign_login d a rows)"
      by (auto simp: get_account_def res_bind_Inr split: option.splits) blast
    with GetAccount Inr show ?thesis by (cases r) (auto simp: assign_login_ids)
  qed (simp add: GetAccount)
qed (simp_all add: notify_logout_def mark_burnt_def helper_mark_burnt_def set_last_softban_action_def set_level_def
    store_auth_ids split: option.splits)

lemma account_run_ids: "map account_id (fold (account_step cfg re devs) ops rows) = map account_id rows"
  by (induction ops arbitrary: rows) (simp_all add: account_step_ids)

text \<open>
  C27. Over any history of the handler, started from a table in which no device has two accounts, no device
  ever has two accounts, and the accounts of the table stay the same ones in the same order.
\<close>

theorem accounts_exclusive:
  assumes "accounts_wf rows"
  shows "map account_id (fold (account_step cfg re devs) ops rows) = map account_id rows \<and>
    (\<forall>a \<in> set (fold (account_step cfg re devs) ops rows). \<forall>b \<in> set (fold (account_step cfg re devs) ops rows).
       auth_device a = auth_device b \<longrightarrow> auth_device a = None \<or> a = b)"
proof -
  let ?rows = "fold (account_step cfg re devs) ops rows"
  have wf: "accounts_wf ?rows" using assms by (rule account_run_wf)
  have "a = b" if "a \<in> set ?rows" "b \<in> set ?rows" "auth_device a = auth_device b" "auth_device a \<noteq> None" for a b
    using wf accounts_wf_ids [OF wf] that unfolding accounts_wf_def by blast
  then show ?thesis using account_run_ids by blast
qed

text \<open>
  Marking the account of a device as burnt and asking for it later: a ban holds for ever, a suspension
  for seven days, maintenance for twenty-four hours after the mark, and clearing the mark clears it.
\<close>

theorem mark_burnt_expires:
  assumes "accounts_wf rows" and "get_assigned_to_device device rows = Some a" and "visible cfg a"
  shows "is_burnt later device (Some (account_id a)) (mark_burnt cfg now device burn_type rows) =
    Inr (case burn_type of None \<Rightarrow> False
      | Some t \<Rightarrow> t = ''ban'' \<or> t = ''suspended'' \<and> later < now + 7 * 86400 \<or> t = ''maintenance'' \<and> later < now + 24 * 3600)"
proof -
  note a = get_assigned_mem [OF assms(2)]
  have ids: "distinct (map account_id rows)" using assms(1) by (simp add: accounts_wf_def)
  have "get_auth cfg (account_id a) rows = Some a"
  proof (cases "get_auth cfg (account_id a) rows")
    case None
    with a assms(3) show ?thesis by (auto simp: get_auth_def find_None_all)
  next
    case (Some b)
    then have "b \<in> set rows \<and> account_id b = account_id a" unfolding get_auth_def using find_Some_mem by fastforce
    with Some accounts_wf_ids [OF assms(1), of a b] a show ?thesis by simp
  qed
  define b where "b = (case burn_type of None \<Rightarrow> a\<lparr>last_burn := None, last_burn_type := None\<rparr>
     | Some t \<Rightarrow> a\<lparr>last_burn := Some now, last_burn_type := Some t\<rparr>)"
  have rows: "mark_burnt cfg now device burn_type rows = store_auth b rows"
    using assms(2) \<open>get_auth cfg (account_id a) rows = Some a\<close> by (simp add: mark_burnt_def helper_mark_burnt_def b_def)
  have b: "account_id b = account_id a" "auth_device b = auth_device a" by (simp_all add: b_def split: option.splits)
  have "accounts_wf (store_auth b rows)" using assms(1) a b by (intro store_auth_wf) auto
  moreover have "b \<in> set (store_auth b rows)" using set_store_auth [OF ids conjunct1 [OF a] b(1)] by simp
  ultimately have "get_assigned_to_device device (store_auth b rows) = Some b"
    using a b(2) by (intro get_assigned_unique) auto
  then have "is_burnt later device (Some (account_id a)) (mark_burnt cfg now device burn_type rows) = auth_is_burnt later b"
    using b(1) by (simp add: is_burnt_def rows)
  then show ?thesis
    by (cases burn_type) (simp_all add: b_def auth_is_burnt_def MAINTENANCE_COOLDOWN_HOURS_def)
qed

section \<open>Witnesses\<close>

definition witness_auth :: "int \<Rightarrow> int option \<Rightarrow> pogoauth" where
  "witness_auth i d = \<lparr>auth_instance = 1, account_id = i, auth_device = d, login_type = ''ptc'', username = ''u'', level = 31,
     last_burn = None, last_burn_type = None, last_softban_action = None, last_softban_location = None\<rparr>"

definition witness_rows :: "pogoauth list" where
  "witness_rows = [witness_auth 1 (Some 7), witness_auth 2 (Some 8), witness_auth 3 None]"

definition witness_cfg :: account_config where
  "witness_cfg = \<lparr>my_instance = 1, no_restrict = False\<rparr>"

definition witness_devices :: "settings_device list" where
  "witness_devices = [\<lparr>dev_instance = 1, dev_id = 8, dev_name = ''d'', ggl_login_mail = None\<rparr>]"

lemma witness_rows_wf: "accounts_wf witness_rows"
  by (simp add: accounts_wf_def witness_rows_def witness_auth_def)

lemma witness_get_account:
  "get_account witness_cfg (\<lambda>_ _. False) witness_devices 100 8 IV None witness_rows =
     Inr (Some (witness_auth 2 (Some 8)), witness_rows)"
  by (simp add: get_account_def get_device_def witness_devices_def witness_cfg_def witness_rows_def witness_auth_def
      get_avail_accounts_def visible_def auth_is_burnt_def is_usable_for_purpose_def MIN_LEVEL_IV_def select_login_def
      is_ptc_or_ggl_of_device_def burn_key_def assign_login_def get_assigned_to_device_def store_auth_def)

lemma get_account_sound_witness:
  "\<exists>a \<in> set witness_rows. witness_auth 2 (Some 8) = a\<lparr>auth_device := Some 8\<rparr> \<and> eligible witness_cfg 100 8 IV None a"
  using get_account_sound [OF witness_rows_wf witness_get_account] by blast

lemma get_account_complete_witness:
  "\<not> (\<forall>a \<in> set witness_rows. eligible witness_cfg 100 8 IV None a \<longrightarrow> \<not> is_ptc_or_ggl_of_device (\<lambda>_ _. False) a (hd witness_devices))"
  using get_account_complete [OF witness_rows_wf witness_get_account]
  by (simp add: witness_rows_def witness_auth_def get_device_def witness_devices_def witness_cfg_def)

lemma accounts_exclusive_witness:
  "map account_id (fold (account_step witness_cfg (\<lambda>_ _. False) witness_devices) [GetAccount 100 8 IV None, Logout 7] witness_rows) = [1, 2, 3]"
  using accounts_exclusive [OF witness_rows_wf, of witness_cfg "\<lambda>_ _. False" witness_devices "[GetAccount 100 8 IV None, Logout 7]"]
  by (simp only:) (simp add: witness_rows_def witness_auth_def)

lemma mark_burnt_expires_witness:
  "is_burnt 604901 8 (Some 2) (mark_burnt witness_cfg 100 8 (Some ''suspended'') witness_rows) = Inr False"
proof -
  have "get_assigned_to_device 8 witness_rows = Some (witness_auth 2 (Some 8))" and "visible witness_cfg (witness_auth 2 (Some 8))"
    by (simp_all add: get_assigned_to_device_def witness_rows_def witness_auth_def visible_def witness_cfg_def)
  from mark_burnt_expires [OF witness_rows_wf this, of 604901 100 "Some ''suspended''"] show ?thesis
    by (simp add: witness_auth_def)
qed

end
