(* ===== verification/MadApk.thy ===== *)
theory MadApk
  imports PyStr "HOL-Library.List_Lexorder" "HOL-Library.Char_ord"
begin

text \<open>
  Packages of \<open>mapadroid/mad_apk\<close>: the enums and their lookups, file names, the comparison of versions
  (\<open>LooseVersion\<close> of the standard library), the supported versions and the choice of the variant to download.
  The answer of the MADdev backend and of APKMirror is an argument.
\<close>

section \<open>Enums\<close>

datatype apk_arch = noarch | armeabi_v7a | arm64_v8a

datatype apk_type = pogo | rgc | pd

text \<open>The values of \<open>APKPackage\<close>; its members have the names of \<open>APKType\<close>.\<close>

definition package_value :: "apk_type \<Rightarrow> string" where
  "package_value t = (case t of pd \<Rightarrow> ''com.mad.pogodroid'' | pogo \<Rightarrow> ''com.nianticlabs.pokemongo''
     | rgc \<Rightarrow> ''de.grennith.rgc.remotegpscontroller'')"

definition apk_package :: "string \<Rightarrow> apk_type result" where
  "apk_package s = (if s = package_value pd then Inr pd else if s = package_value pogo then Inr pogo
     else if s = package_value rgc then Inr rgc else Inl ValueError)"

definition apk_type_of_int :: "int \<Rightarrow> apk_type result" where
  "apk_type_of_int i = (if i = 0 then Inr pogo else if i = 1 then Inr rgc else if i = 2 then Inr pd else Inl ValueError)"

definition apk_arch_of_int :: "int \<Rightarrow> apk_arch result" where
  "apk_arch_of_int i =
     (if i = 0 then Inr noarch else if i = 1 then Inr armeabi_v7a else if i = 2 then Inr arm64_v8a else Inl ValueError)"

definition arch_name :: "apk_arch \<Rightarrow> string" where
  "arch_name a = (case a of noarch \<Rightarrow> ''noarch'' | armeabi_v7a \<Rightarrow> ''armeabi_v7a'' | arm64_v8a \<Rightarrow> ''arm64_v8a'')"

text \<open>A name or an id given by the user; \<open>IsNone\<close> is \<open>None\<close>.\<close>

datatype lookup_key = IsInt int | IsStr string | IsNone

definition is_digits :: "string \<Rightarrow> bool" where
  "is_digits s \<longleftrightarrow> s \<noteq> [] \<and> list_all (\<lambda>c. digit_val c \<noteq> None) s"

definition lookup_apk_enum :: "lookup_key \<Rightarrow> apk_type result" where
  "lookup_apk_enum name =
     (case (case name of
              IsInt i \<Rightarrow> apk_type_of_int i
            | IsStr s \<Rightarrow> if is_digits s then res_bind (parse_int s) apk_type_of_int else apk_package s
            | IsNone \<Rightarrow> Inl AttributeError) of
        Inr t \<Rightarrow> Inr t
      | Inl e \<Rightarrow>
          (if name = IsStr ''pogo'' then Inr pogo
           else if name = IsStr ''rgc'' then Inr rgc
           else if name = IsStr ''pogodroid'' \<or> name = IsStr ''pd'' then Inr pd
           else Inl ValueError))"

definition lookup_arch_enum :: "lookup_key \<Rightarrow> apk_arch result" where
  "lookup_arch_enum name =
     (case name of
        IsNone \<Rightarrow> Inl ValueError
      | _ \<Rightarrow>
        (case (case name of IsInt i \<Rightarrow> apk_arch_of_int i | IsStr s \<Rightarrow> res_bind (parse_int s) apk_arch_of_int) of
           Inr a \<Rightarrow> Inr a
         | Inl e \<Rightarrow>
             (if name = IsStr ''noarch'' then Inr noarch
              else if name = IsStr ''armeabi-v7a'' \<or> name = IsStr ''armeabi_v7a'' then Inr armeabi_v7a
              else if name = IsStr ''arm64-v8a'' \<or> name = IsStr ''arm64_v8a'' then Inr arm64_v8a
              else Inl ValueError)))"

definition convert_to_backend :: "lookup_key \<Rightarrow> lookup_key \<Rightarrow> (apk_type option \<times> apk_arch) result" where
  "convert_to_backend req_type req_arch =
     res_bind (if req_type = IsNone then Inr None else res_bind (lookup_apk_enum req_type) (\<lambda>t. Inr (Some t)))
       (\<lambda>t. res_bind (lookup_arch_enum (if req_arch = IsNone then IsInt 0 else req_arch)) (\<lambda>a. Inr (t, a)))"

section \<open>Packages\<close>

record mad_package =
  pkg_type :: apk_type
  pkg_arch :: apk_arch
  file_id :: "int option"
  filename :: "string option"
  mimetype :: "string option"
  pkg_size :: "int option"
  version :: "string option"

type_synonym mad_packages = "(apk_arch, mad_package) dict"

definition empty_package :: "apk_type \<Rightarrow> apk_arch \<Rightarrow> mad_package" where
  "empty_package t a = \<lparr>pkg_type = t, pkg_arch = a, file_id = None, filename = None, mimetype = None, pkg_size = None,
     version = None\<rparr>"

definition generate_filename :: "apk_type \<Rightarrow> apk_arch \<Rightarrow> string \<Rightarrow> string \<Rightarrow> string" where
  "generate_filename package architecture ver mime =
     (let ext = (if mime = ''application/zip'' then ''zip'' else ''apk'')
      in package_value package @ ''__'' @ ver @ ''__'' @ arch_name architecture @ ''.'' @ ext)"

section \<open>Comparing versions\<close>

text \<open>
  \<open>LooseVersion\<close>: runs of digits, runs of lower case letters, single dots (dropped) and whatever stands between,
  digits as numbers.
\<close>

datatype vcomp = VNum int | VText string

datatype char_class = CDigit | CLower | CDot | COther

definition class_of :: "char \<Rightarrow> char_class" where
  "class_of c = (let n = of_char c :: nat in if 48 \<le> n \<and> n \<le> 57 then CDigit else if 97 \<le> n \<and> n \<le> 122 then CLower
     else if n = 46 then CDot else COther)"

function loose_tokens :: "string \<Rightarrow> string list" where
  "loose_tokens [] = []"
| "loose_tokens (c # cs) =
     (if class_of c = CDot then loose_tokens cs
      else (c # takeWhile (\<lambda>d. class_of d = class_of c) cs) # loose_tokens (dropWhile (\<lambda>d. class_of d = class_of c) cs))"
  by pat_completeness auto

termination
  by (relation "measure length") (auto simp: le_imp_less_Suc length_dropWhile_le)

definition loose_comp :: "string \<Rightarrow> vcomp" where
  "loose_comp s = (case parse_int s of Inr i \<Rightarrow> VNum i | Inl e \<Rightarrow> VText s)"

definition loose_parse :: "string \<Rightarrow> vcomp list" where
  "loose_parse s = map loose_comp (loose_tokens s)"

text \<open>\<open>self.version < other.version\<close> on lists: a number against a text is a \<open>TypeError\<close>.\<close>

fun comp_less :: "vcomp \<Rightarrow> vcomp \<Rightarrow> bool result" where
  "comp_less (VNum a) (VNum b) = Inr (a < b)"
| "comp_less (VText a) (VText b) = Inr (a < b)"
| "comp_less _ _ = Inl TypeError"

fun version_less :: "vcomp list \<Rightarrow> vcomp list \<Rightarrow> bool result" where
  "version_less _ [] = Inr False"
| "version_less [] (_ # _) = Inr True"
| "version_less (a # as) (b # bs) = (if a = b then version_less as bs else comp_less a b)"

text \<open>\<open>_cmp\<close>, and \<open>is_newer_version\<close>, which is true when a version is missing.\<close>

definition version_cmp :: "vcomp list \<Rightarrow> vcomp list \<Rightarrow> int result" where
  "version_cmp a b =
     (if a = b then Inr 0
      else res_bind (version_less a b) (\<lambda>l. if l then Inr (- 1)
        else res_bind (version_less b a) (\<lambda>g. if g then Inr 1 else Inl TypeError)))"

definition is_newer_version :: "string option \<Rightarrow> string option \<Rightarrow> bool result" where
  "is_newer_version first second =
     (case (first, second) of
        (Some (c # cs), Some (d # ds)) \<Rightarrow>
          res_bind (version_cmp (loose_parse (c # cs)) (loose_parse (d # ds))) (\<lambda>r. Inr (r > 0))
      | _ \<Rightarrow> Inr True)"

section \<open>Supported versions\<close>

text \<open>\<open>token\<close>-protected backend and the local file \<open>version_codes.json\<close>.\<close>

record version_sources =
  backend_versions :: "(string, string list) dict result"
  version_codes :: "(string, int) dict"

definition bits_of :: "apk_arch \<Rightarrow> string" where
  "bits_of a = (if a = armeabi_v7a then ''32'' else ''64'')"

definition add_supported :: "string \<Rightarrow> (string, string list) dict result \<Rightarrow> (string, string list) dict result" where
  "add_supported composite res =
     res_bind res (\<lambda>supported. case split_once (CHR ''_'') composite of
         [ver, arch] \<Rightarrow> (case map_of supported arch of
             None \<Rightarrow> Inl KeyError
           | Some vs \<Rightarrow> Inr (AList.update arch (vs @ [ver]) supported))
       | _ \<Rightarrow> Inl ValueError)"

definition get_local_versions :: "(string, int) dict \<Rightarrow> (string, string list) dict result" where
  "get_local_versions codes =
     res_bind (fold add_supported (map fst codes) (Inr [(''32'', []), (''64'', [])]))
       (\<lambda>supported. Inr (if list_ex (\<lambda>(a, vs). list_ex (\<lambda>v. v \<noteq> []) vs) supported then supported else []))"

definition translate_pogo_versions :: "(string, string list) dict \<Rightarrow> (apk_arch, string list) dict" where
  "translate_pogo_versions supported =
     fold (\<lambda>(arch_str, vs). AList.update (if arch_str = ''32'' then armeabi_v7a else arm64_v8a) (rev (sort vs))) supported []"

definition supported_pogo_version :: "version_sources \<Rightarrow> apk_arch \<Rightarrow> string option \<Rightarrow> bool result" where
  "supported_pogo_version src a v =
     (case backend_versions src of
        Inl NoMaddevApiTokenError \<Rightarrow> Inr True
      | Inl ConnectionError \<Rightarrow> Inr True
      | Inl e \<Rightarrow> Inl e
      | Inr remote \<Rightarrow>
          (if v \<in> Some ` set (case map_of remote (bits_of a) of None \<Rightarrow> [] | Some vs \<Rightarrow> vs) then Inr True
           else res_bind (get_local_versions (version_codes src)) (\<lambda>local.
             Inr (case map_of local (bits_of a) of None \<Rightarrow> False | Some vs \<Rightarrow> v \<in> Some ` set vs))))"

definition get_supported_pogo :: "version_sources \<Rightarrow> apk_arch \<Rightarrow> (apk_arch, string list) dict result" where
  "get_supported_pogo src a =
     res_bind (get_local_versions (version_codes src)) (\<lambda>local.
       if map_of local (bits_of a) \<noteq> None then Inr (translate_pogo_versions local)
       else res_bind (backend_versions src) (\<lambda>remote. Inr (translate_pogo_versions remote)))"

section \<open>Looking up packages\<close>

text \<open>The storage's answer about a package is an argument; asking may not change it here.\<close>

definition lookup_package_infos :: "mad_packages option \<Rightarrow> mad_packages result" where
  "lookup_package_infos info = (case info of None \<Rightarrow> Inl ValueError | Some ps \<Rightarrow> Inr ps)"

definition lookup_package_info ::
  "version_sources \<Rightarrow> mad_packages option \<Rightarrow> apk_type \<Rightarrow> apk_arch \<Rightarrow> mad_package option result" where
  "lookup_package_info src info t a =
     res_bind (lookup_package_infos info) (\<lambda>ps.
       case map_of ps a of
         None \<Rightarrow> Inr None
       | Some p \<Rightarrow>
           (if t = pogo
            then res_bind (supported_pogo_version src a (version p)) (\<lambda>ok. if ok then Inr (Some p) else Inl ValueError)
            else Inr (Some p)))"

definition package_or_empty ::
  "version_sources \<Rightarrow> (apk_type \<Rightarrow> mad_packages option) \<Rightarrow> apk_type \<Rightarrow> apk_arch \<Rightarrow> mad_package result" where
  "package_or_empty src info t a =
     (case lookup_package_info src (info t) t a of
        Inl ValueError \<Rightarrow> Inr (empty_package t a)
      | Inl e \<Rightarrow> Inl e
      | Inr None \<Rightarrow> Inr (empty_package t a)
      | Inr (Some p) \<Rightarrow> Inr p)"

definition get_apk_status ::
  "version_sources \<Rightarrow> (apk_type \<Rightarrow> mad_packages option) \<Rightarrow> (apk_type, mad_packages) dict result" where
  "get_apk_status src info =
     res_bind (package_or_empty src info pogo armeabi_v7a) (\<lambda>p32.
     res_bind (package_or_empty src info pogo arm64_v8a) (\<lambda>p64.
     res_bind (package_or_empty src info rgc noarch) (\<lambda>r.
     res_bind (package_or_empty src info pd noarch) (\<lambda>d.
       Inr [(pogo, [(armeabi_v7a, p32), (arm64_v8a, p64)]), (rgc, [(noarch, r)]), (pd, [(noarch, d)])]))))"

text \<open>\<open>stream_package\<close> up to the generator of the bytes: media type, file name and version.\<close>

definition stream_package ::
  "version_sources \<Rightarrow> mad_packages option \<Rightarrow> apk_type \<Rightarrow> apk_arch \<Rightarrow> (string option \<times> string option \<times> string option) option result" where
  "stream_package src info t a =
     res_bind (lookup_package_info src info t a) (\<lambda>p.
       Inr (map_option (\<lambda>p. (mimetype p, filename p, version p)) p))"

section \<open>Laws of the lookups and of the comparison\<close>

lemma lookup_arch_name [simp]: "lookup_arch_enum (IsStr (arch_name a)) = Inr a"
proof -
  have "lookup_arch_enum (IsStr (arch_name noarch)) = Inr noarch" "lookup_arch_enum (IsStr (arch_name armeabi_v7a)) = Inr armeabi_v7a"
    "lookup_arch_enum (IsStr (arch_name arm64_v8a)) = Inr arm64_v8a" by code_simp+
  then show ?thesis by (cases a) simp_all
qed

lemma lookup_package_value [simp]: "lookup_apk_enum (IsStr (package_value t)) = Inr t"
proof -
  have "lookup_apk_enum (IsStr (package_value pogo)) = Inr pogo" "lookup_apk_enum (IsStr (package_value rgc)) = Inr rgc"
    "lookup_apk_enum (IsStr (package_value pd)) = Inr pd" by code_simp+
  then show ?thesis by (cases t) simp_all
qed

definition numeric_version :: "string \<Rightarrow> bool" where
  "numeric_version s \<longleftrightarrow> s \<noteq> [] \<and> list_all (\<lambda>c. case c of VNum i \<Rightarrow> True | VText t \<Rightarrow> False) (loose_parse s)"

definition numbers_of :: "string \<Rightarrow> int list" where
  "numbers_of s = map (\<lambda>c. case c of VNum i \<Rightarrow> i | VText _ \<Rightarrow> 0) (loose_parse s)"

lemma version_less_numbers:
  "version_less (map VNum xs) (map VNum ys) = Inr (xs < ys)"
proof (induction xs arbitrary: ys)
  case Nil
  then show ?case by (cases ys) simp_all
next
  case (Cons x xs)
  then show ?case by (cases ys) auto
qed

lemma numeric_parse: "numeric_version s \<Longrightarrow> loose_parse s = map VNum (numbers_of s)"
  unfolding numeric_version_def numbers_of_def
  by (auto simp: list_all_iff comp_def intro!: map_idI [symmetric] split: vcomp.splits)

lemma newer_numeric:
  assumes "numeric_version a" "numeric_version b"
  shows "is_newer_version (Some a) (Some b) = Inr (numbers_of b < numbers_of a)"
proof -
  obtain c cs d ds where s: "a = c # cs" "b = d # ds" using assms by (auto simp: numeric_version_def neq_Nil_conv)
  have inj: "map VNum xs = map VNum ys \<longleftrightarrow> xs = ys" for xs ys by (simp add: inj_map_eq_map inj_on_def)
  show ?thesis
    using numeric_parse [OF assms(1)] numeric_parse [OF assms(2)]
    by (auto simp: is_newer_version_def s version_cmp_def inj version_less_numbers)
qed

text \<open>
  On versions that consist of numbers, \<open>is_newer_version\<close> never raises and is the lexicographic order of the
  numbers, so of two versions with different numbers exactly one is newer, whatever their lengths as texts.
\<close>

theorem is_newer_version_numeric:
  assumes "numeric_version a" "numeric_version b"
  shows "is_newer_version (Some a) (Some b) = Inr (numbers_of b < numbers_of a)"
  using assms by (rule newer_numeric)

lemma is_newer_version_numeric_witness:
  "is_newer_version (Some ''0.241.1'') (Some ''0.99.10'') = Inr True"
proof -
  have n: "numeric_version ''0.241.1''" "numeric_version ''0.99.10''" by code_simp+
  have "numbers_of ''0.99.10'' < numbers_of ''0.241.1''" by code_simp
  with is_newer_version_numeric [OF n] show ?thesis by simp
qed

text \<open>
  The supported versions are offered in the descending order of their texts. That is not the order of the
  versions: 0.99.0 is offered before 0.241.1, which is newer.
\<close>

theorem translate_offers_older_first:
  "\<exists>older newer. is_newer_version (Some newer) (Some older) = Inr True \<and>
     translate_pogo_versions [(''32'', [newer, older])] = [(armeabi_v7a, [older, newer])]"
  by (rule exI [of _ "''0.99.0''"], rule exI [of _ "''0.241.1''"]) code_simp

end
