(* ===== verification/ApkStorage.thy ===== *)
theory ApkStorage
  imports MadApk "HOL-Library.Word"
begin

text \<open>
  The two package storages of \<open>mapadroid/mad_apk\<close>: \<open>APKStorageFilesystem\<close> (a directory and the table of what it
  holds) and \<open>APKStorageDatabase\<close> (rows of packages and of chunks). A client uses them through the interface
  \<open>AbstractAPKStorage\<close>, the locale \<open>apk_storage\<close> here: what it promises of saving, deleting and reading back, and
  what follows for any history. The configuration file of the directory is written and never read (\<open>reload\<close> always
  removes it first), so it is not part of the state; failures of the database are not modelled.
\<close>

type_synonym bytes = "8 word list"

section \<open>Names of files\<close>

text \<open>
  The cuts of a text in front of a separator, after a prefix without white space, the longest prefix first:
  what a greedy \<open>\S+\<close> followed by the separator tries.
\<close>

fun cuts :: "string \<Rightarrow> string \<Rightarrow> (string \<times> string) list" where
  "cuts sep [] = []"
| "cuts sep (c # cs) =
     (if is_ws c then [] else map (\<lambda>(g, r). (c # g, r)) (cuts sep cs)) @
     (if starts_with sep (c # cs) then [([], drop (length sep) (c # cs))] else [])"

fun first_some :: "('a \<Rightarrow> 'b option) \<Rightarrow> 'a list \<Rightarrow> 'b option" where
  "first_some f [] = None"
| "first_some f (x # xs) = (case f x of None \<Rightarrow> first_some f xs | Some y \<Rightarrow> Some y)"

text \<open>\<open>(.*)$\<close> at the end of the pattern, with the line break \<open>$\<close> may stand before.\<close>

definition rest_of_line :: "string \<Rightarrow> string option" where
  "rest_of_line s =
     (let nl = CHR 0x0A
      in if nl \<notin> set s then Some s
         else if last s = nl \<and> nl \<notin> set (butlast s) then Some (butlast s) else None)"

definition match_format :: "string \<times> string \<Rightarrow> (string \<times> string) option" where
  "match_format c = (if fst c = [] then None else map_option (Pair (fst c)) (rest_of_line (snd c)))"

definition match_filename :: "string \<Rightarrow> (string \<times> string \<times> string \<times> string) option" where
  "match_filename s =
     first_some (\<lambda>(name, r1). if name = [] then None else
       first_some (\<lambda>(ver, r2). if ver = [] then None else
         map_option (\<lambda>(arch, format). (name, ver, arch, format)) (first_some match_format (cuts ''.'' r2)))
       (cuts ''__'' r1)) (cuts ''__'' s)"

lemma cuts_none: "sep \<noteq> [] \<Longrightarrow> hd sep \<notin> set s \<Longrightarrow> cuts sep s = []"
proof (induction s)
  case (Cons c s)
  then show ?case by (cases sep) auto
qed simp

lemma cuts_append:
  "sep \<noteq> [] \<Longrightarrow> hd sep \<notin> set x \<Longrightarrow> \<forall>c \<in> set x. \<not> is_ws c \<Longrightarrow>
   cuts sep (x @ t) = map (\<lambda>(g, r). (x @ g, r)) (cuts sep t)"
proof (induction x)
  case (Cons c x)
  then show ?case by (cases sep) (auto simp: comp_def case_prod_beta)
qed (simp add: case_prod_beta)

text \<open>A version that can stand in a file name: some text without white space and underscores.\<close>

definition clean_version :: "string \<Rightarrow> bool" where
  "clean_version v \<longleftrightarrow> v \<noteq> [] \<and> list_all (\<lambda>c. \<not> is_ws c \<and> c \<noteq> CHR ''_'') v"

definition extension :: "string \<Rightarrow> string" where
  "extension mime = (if mime = ''application/zip'' then ''zip'' else ''apk'')"

lemma is_ws_underscore [simp]: "\<not> is_ws (CHR ''_'')"
  by (simp add: is_ws_def)

lemma starts_with_underscores: "starts_with ''__'' (CHR ''_'' # CHR ''_'' # t)" "starts_with ''__'' (CHR ''_'' # c # t) = (c = CHR ''_'')"
  by auto

lemma cuts_arch: "cuts ''__'' (arch_name a @ CHR ''.'' # extension m) = []"
  by (cases a) (simp_all add: arch_name_def extension_def is_ws_def)

lemma cuts_separator:
  assumes "t = c # t'" "c \<noteq> CHR ''_''"
  shows "cuts ''__'' (CHR ''_'' # CHR ''_'' # t) = map (\<lambda>(g, r). (CHR ''_'' # CHR ''_'' # g, r)) (cuts ''__'' t) @ [([], t)]"
  using assms by (simp add: comp_def case_prod_beta)

lemma package_value_chars: "CHR ''_'' \<notin> set (package_value t)" "\<forall>c \<in> set (package_value t). \<not> is_ws c" "package_value t \<noteq> []"
  by (cases t; simp add: package_value_def is_ws_def)+

lemma match_generated:
  assumes "clean_version v"
  shows "match_filename (generate_filename t a v m) = Some (package_value t, v, arch_name a, extension m)"
proof -
  let ?e = "arch_name a @ CHR ''.'' # extension m"
  have v: "hd ''__'' \<notin> set v" "\<forall>c \<in> set v. \<not> is_ws c" "v \<noteq> []"
    using assms by (auto simp: clean_version_def list_all_iff)
  obtain c v' where vc: "v = c # v'" "c \<noteq> CHR ''_''" using assms by (cases v) (auto simp: clean_version_def)
  obtain d e' where ec: "?e = d # e'" "d \<noteq> CHR ''_''" by (cases a) (simp_all add: arch_name_def)
  have inner: "cuts ''__'' (v @ CHR ''_'' # CHR ''_'' # ?e) = [(v, ?e)]"
    using cuts_separator [OF ec] cuts_append [OF _ v(1,2)] cuts_arch [of a m] by simp
  have vsep: "v @ CHR ''_'' # CHR ''_'' # ?e = c # (v' @ CHR ''_'' # CHR ''_'' # ?e)" by (simp add: vc(1))
  have outer: "cuts ''__'' (package_value t @ CHR ''_'' # CHR ''_'' # v @ CHR ''_'' # CHR ''_'' # ?e) =
      [(package_value t @ CHR ''_'' # CHR ''_'' # v, ?e), (package_value t, v @ CHR ''_'' # CHR ''_'' # ?e)]"
    using cuts_separator [OF vsep vc(2)] inner cuts_append [of "''__''" "package_value t"] package_value_chars [of t] by simp
  have dot: "first_some match_format (cuts ''.'' ?e) = Some (arch_name a, extension m)"
    by (cases a) (simp_all add: arch_name_def extension_def is_ws_def match_format_def rest_of_line_def)
  show ?thesis
    using outer inner cuts_arch [of a m] dot v(3) package_value_chars(3) [of t]
    by (simp add: match_filename_def generate_filename_def Let_def flip: extension_def)
qed

section \<open>The file system\<close>

text \<open>\<open>files\<close> is \<open>None\<close> while the directory does not exist.\<close>

record fs_storage =
  apks :: "(apk_type, mad_packages) dict"
  files :: "(string, bytes) dict option"

definition fs_apk :: "fs_storage \<Rightarrow> apk_type \<Rightarrow> apk_arch \<Rightarrow> mad_package option" where
  "fs_apk s t a = (case map_of (apks s) t of None \<Rightarrow> None | Some ps \<Rightarrow> map_of ps a)"

definition set_apk :: "apk_type \<Rightarrow> apk_arch \<Rightarrow> mad_package \<Rightarrow> fs_storage \<Rightarrow> fs_storage" where
  "set_apk t a p s = s\<lparr>apks := AList.update t
     (AList.update a p (case map_of (apks s) t of None \<Rightarrow> [] | Some ps \<Rightarrow> ps)) (apks s)\<rparr>"

definition del_apk :: "apk_type \<Rightarrow> apk_arch \<Rightarrow> fs_storage \<Rightarrow> fs_storage" where
  "del_apk t a s = (case map_of (apks s) t of None \<Rightarrow> s
     | Some ps \<Rightarrow> s\<lparr>apks := AList.update t (AList.delete a ps) (apks s)\<rparr>)"

definition stored_package :: "apk_type \<Rightarrow> apk_arch \<Rightarrow> string \<Rightarrow> string \<Rightarrow> string \<Rightarrow> bytes \<Rightarrow> mad_package" where
  "stored_package t a ver fname mime data =
     \<lparr>pkg_type = t, pkg_arch = a, file_id = None, filename = Some fname, mimetype = Some mime,
      pkg_size = Some (int (length data)), version = Some ver\<rparr>"

definition file_on_disk :: "string option \<Rightarrow> fs_storage \<Rightarrow> bytes option" where
  "file_on_disk fname s = (case fname of None \<Rightarrow> None | Some f \<Rightarrow> (case files s of None \<Rightarrow> None | Some d \<Rightarrow> map_of d f))"

text \<open>One file of the listing while the configuration is rebuilt: any failing lookup skips it.\<close>

definition scan_file :: "string \<times> bytes \<Rightarrow> fs_storage \<Rightarrow> fs_storage" where
  "scan_file entry s =
     (let (fname, data) = entry
      in case match_filename fname of
           None \<Rightarrow> s
         | Some (name, ver, arch, format) \<Rightarrow>
            (let mime = (if format = ''zip'' then ''application/zip'' else ''application/vnd.android.package-archive'')
             in case (lookup_arch_enum (IsStr arch), lookup_apk_enum (IsStr name)) of
                  (Inr a, Inr t) \<Rightarrow> set_apk t a (stored_package t a ver fname mime data) s
                | _ \<Rightarrow> s))"

definition create_config :: "fs_storage \<Rightarrow> fs_storage" where
  "create_config s = fold scan_file (case files s of None \<Rightarrow> [] | Some d \<Rightarrow> d) s"

definition create_structure :: "fs_storage \<Rightarrow> fs_storage" where
  "create_structure s = (if files s = None then s\<lparr>files := Some []\<rparr> else s)"

definition reload :: "fs_storage \<Rightarrow> fs_storage" where
  "reload s = create_config (create_structure s)"

text \<open>\<open>ensure_config_file\<close>: on a missing file the table is rebuilt and the call is made once more.\<close>

definition ensure_config_file :: "(fs_storage \<Rightarrow> 'a result \<times> fs_storage) \<Rightarrow> fs_storage \<Rightarrow> 'a result \<times> fs_storage" where
  "ensure_config_file f s = (case f s of (Inl FileNotFoundError, s1) \<Rightarrow> f (reload s1) | r \<Rightarrow> r)"

definition validate_file :: "apk_type \<Rightarrow> apk_arch \<Rightarrow> fs_storage \<Rightarrow> bool result \<times> fs_storage" where
  "validate_file t a s =
     (case fs_apk s t a of
        None \<Rightarrow> (Inl FileNotFoundError, s)
      | Some p \<Rightarrow> if file_on_disk (filename p) s = None then (Inl FileNotFoundError, del_apk t a s) else (Inr True, s))"

definition ensure_exists ::
  "apk_type \<Rightarrow> apk_arch \<Rightarrow> (fs_storage \<Rightarrow> 'a result \<times> fs_storage) \<Rightarrow> fs_storage \<Rightarrow> 'a result \<times> fs_storage" where
  "ensure_exists t a f s = (case validate_file t a s of (Inl e, s1) \<Rightarrow> (Inl e, s1) | (Inr b, s1) \<Rightarrow> f s1)"

definition unlink :: "string option \<Rightarrow> fs_storage \<Rightarrow> fs_storage" where
  "unlink fname s = (case fname of None \<Rightarrow> s | Some f \<Rightarrow> s\<lparr>files := map_option (AList.delete f) (files s)\<rparr>)"

definition remove_apk :: "apk_type \<Rightarrow> apk_arch \<Rightarrow> fs_storage \<Rightarrow> bool result \<times> fs_storage" where
  "remove_apk t a s =
     (case fs_apk s t a of None \<Rightarrow> (Inl KeyError, s) | Some p \<Rightarrow> (Inr True, del_apk t a (unlink (filename p) s)))"

definition fs_delete_file :: "apk_type \<Rightarrow> apk_arch \<Rightarrow> fs_storage \<Rightarrow> bool result \<times> fs_storage" where
  "fs_delete_file t a = ensure_config_file (ensure_exists t a (remove_apk t a))"

definition read_version :: "apk_type \<Rightarrow> apk_arch \<Rightarrow> fs_storage \<Rightarrow> string option result \<times> fs_storage" where
  "read_version t a s = (case fs_apk s t a of None \<Rightarrow> (Inl KeyError, s) | Some p \<Rightarrow> (Inr (version p), s))"

definition fs_get_current_version :: "apk_type \<Rightarrow> apk_arch \<Rightarrow> fs_storage \<Rightarrow> string option result \<times> fs_storage" where
  "fs_get_current_version t a = ensure_config_file (ensure_exists t a (read_version t a))"

text \<open>The validation of the architectures stops at the first one whose file is gone.\<close>

fun validate_all :: "apk_type \<Rightarrow> apk_arch list \<Rightarrow> fs_storage \<Rightarrow> fs_storage" where
  "validate_all t [] s = s"
| "validate_all t (a # as) s = (case validate_file t a s of (Inl e, s1) \<Rightarrow> s1 | (Inr b, s1) \<Rightarrow> validate_all t as s1)"

definition fs_get_current_package_info :: "apk_type \<Rightarrow> fs_storage \<Rightarrow> mad_packages option \<times> fs_storage" where
  "fs_get_current_package_info t s =
     (let s1 = validate_all t (case map_of (apks s) t of None \<Rightarrow> [] | Some ps \<Rightarrow> map fst ps) s
      in (case map_of (apks s1) t of None \<Rightarrow> None | Some [] \<Rightarrow> None | Some (p # ps) \<Rightarrow> Some (p # ps), s1))"

definition write_file :: "apk_type \<Rightarrow> apk_arch \<Rightarrow> string \<Rightarrow> string \<Rightarrow> bytes \<Rightarrow> fs_storage \<Rightarrow> bool \<times> fs_storage" where
  "write_file t a ver mime data s =
     (case files s of
        None \<Rightarrow> (False, s)
      | Some d \<Rightarrow>
         (let fname = generate_filename t a ver mime
          in (True, set_apk t a (stored_package t a ver fname mime data) (s\<lparr>files := Some (AList.update fname data d)\<rparr>))))"

text \<open>Saving: the old package is deleted twice, then the new file is written; with \<open>retry\<close> once more after the
  directory was created.\<close>

definition save_once :: "apk_type \<Rightarrow> apk_arch \<Rightarrow> string \<Rightarrow> string \<Rightarrow> bytes \<Rightarrow> fs_storage \<Rightarrow> bool \<times> fs_storage" where
  "save_once t a ver mime data s = write_file t a ver mime data (snd (fs_delete_file t a (snd (fs_delete_file t a s))))"

definition fs_save_file :: "apk_type \<Rightarrow> apk_arch \<Rightarrow> string \<Rightarrow> string \<Rightarrow> bytes \<Rightarrow> bool \<Rightarrow> fs_storage \<Rightarrow> bool \<times> fs_storage" where
  "fs_save_file t a ver mime data retry s =
     (case save_once t a ver mime data s of
        (True, s1) \<Rightarrow> (True, s1)
      | (False, s1) \<Rightarrow> if retry then save_once t a ver mime data (create_structure s1) else (False, s1))"

text \<open>Reading in chunks until nothing is left.\<close>

definition CHUNK_MAX_SIZE :: nat where "CHUNK_MAX_SIZE = 1024 * 1024 * 8"

function read_chunks :: "bytes \<Rightarrow> bytes list" where
  "read_chunks data = (if data = [] then [] else take CHUNK_MAX_SIZE data # read_chunks (drop CHUNK_MAX_SIZE data))"
  by pat_completeness auto
termination
  by (relation "measure length") (auto simp: CHUNK_MAX_SIZE_def)

declare read_chunks.simps [simp del]

definition fs_get_async_generator :: "mad_package \<Rightarrow> fs_storage \<Rightarrow> bytes list result" where
  "fs_get_async_generator p s =
     (case file_on_disk (filename p) s of None \<Rightarrow> Inl FileNotFoundError | Some d \<Rightarrow> Inr (read_chunks d))"

definition fs_setup :: "(string, bytes) dict option \<Rightarrow> fs_storage" where
  "fs_setup disk = reload \<lparr>apks = [], files = disk\<rparr>"

section \<open>The database\<close>

record apk_row =
  filestore_id :: nat
  row_usage :: apk_type
  row_arch :: apk_arch
  row_version :: string
  row_filename :: string
  row_size :: int
  row_mimetype :: string

record chunk_row =
  chunk_id :: nat
  chunk_store :: nat
  chunk_size :: int
  chunk_data :: bytes

record db_storage =
  mad_apks :: "apk_row list"
  chunks :: "chunk_row list"
  next_filestore :: nat
  next_chunk :: nat

definition db_get :: "apk_type \<Rightarrow> apk_arch \<Rightarrow> db_storage \<Rightarrow> apk_row option" where
  "db_get t a db = List.find (\<lambda>r. row_usage r = t \<and> row_arch r = a) (mad_apks db)"

definition db_get_current_version :: "apk_type \<Rightarrow> apk_arch \<Rightarrow> db_storage \<Rightarrow> string option" where
  "db_get_current_version t a db = map_option row_version (db_get t a db)"

definition db_get_filestore_id :: "apk_type \<Rightarrow> apk_arch \<Rightarrow> db_storage \<Rightarrow> nat option" where
  "db_get_filestore_id t a db = map_option filestore_id (db_get t a db)"

definition db_get_current_package_info :: "apk_type \<Rightarrow> db_storage \<Rightarrow> mad_packages option" where
  "db_get_current_package_info t db =
     (let data = fold (\<lambda>r. AList.update (row_arch r) \<lparr>pkg_type = t, pkg_arch = row_arch r, file_id = Some (int (filestore_id r)),
          filename = Some (row_filename r), mimetype = Some (row_mimetype r), pkg_size = Some (row_size r), version = Some (row_version r)\<rparr>)
          (filter (\<lambda>r. row_usage r = t) (mad_apks db)) []
      in if data = [] then None else Some data)"

text \<open>Deleting the file store row takes the package and its chunks with it.\<close>

definition db_delete_file :: "apk_type \<Rightarrow> apk_arch \<Rightarrow> db_storage \<Rightarrow> bool \<times> db_storage" where
  "db_delete_file t a db =
     (case db_get t a db of
        None \<Rightarrow> (False, db)
      | Some r \<Rightarrow>
          if filestore_id r = 0 then (False, db)
          else (True, db\<lparr>mad_apks := filter (\<lambda>x. filestore_id x \<noteq> filestore_id r) (mad_apks db),
                        chunks := filter (\<lambda>c. chunk_store c \<noteq> filestore_id r) (chunks db)\<rparr>))"

definition db_insert :: "apk_type \<Rightarrow> apk_arch \<Rightarrow> string \<Rightarrow> string \<Rightarrow> int \<Rightarrow> string \<Rightarrow> db_storage \<Rightarrow> nat \<times> db_storage" where
  "db_insert t a ver fname len mime db =
     (next_filestore db, db\<lparr>mad_apks := mad_apks db @ [\<lparr>filestore_id = next_filestore db, row_usage = t, row_arch = a,
        row_version = ver, row_filename = fname, row_size = len, row_mimetype = mime\<rparr>],
        next_filestore := next_filestore db + 1\<rparr>)"

definition db_insert_chunk :: "nat \<Rightarrow> bytes \<Rightarrow> db_storage \<Rightarrow> db_storage" where
  "db_insert_chunk fid data db =
     db\<lparr>chunks := chunks db @ [\<lparr>chunk_id = next_chunk db, chunk_store = fid, chunk_size = int (length data), chunk_data = data\<rparr>],
        next_chunk := next_chunk db + 1\<rparr>"

definition slices :: "nat \<Rightarrow> bytes \<Rightarrow> bytes list" where
  "slices n data = map (\<lambda>i. take n (drop (i * n) data)) [0..<(length data + n - 1) div n]"

definition db_save_file :: "apk_type \<Rightarrow> apk_arch \<Rightarrow> string \<Rightarrow> string \<Rightarrow> bytes \<Rightarrow> db_storage \<Rightarrow> bool \<times> db_storage" where
  "db_save_file t a ver mime data db =
     (let db1 = snd (db_delete_file t a db);
          (fid, db2) = db_insert t a ver (generate_filename t a ver mime) (int (length data)) mime db1
      in (True, fold (db_insert_chunk fid) (slices CHUNK_MAX_SIZE data) db2))"

text \<open>The query names no order; the rows come in the order of the table here.\<close>

definition db_get_chunk_ids :: "nat \<Rightarrow> db_storage \<Rightarrow> nat list" where
  "db_get_chunk_ids fid db = map chunk_id (filter (\<lambda>c. chunk_store c = fid) (chunks db))"

definition db_get_async_generator :: "apk_type \<Rightarrow> apk_arch \<Rightarrow> db_storage \<Rightarrow> bytes list result" where
  "db_get_async_generator t a db =
     (case db_get_filestore_id t a db of
        None \<Rightarrow> Inl ValueError
      | Some fid \<Rightarrow>
         (if fid = 0 then Inl ValueError
          else (let ids = db_get_chunk_ids fid db
                in if ids = [] then Inl ValueError
                   else Inr (map chunk_data (filter (\<lambda>c. chunk_id c \<in> set ids) (chunks db))))))"

section \<open>The interface\<close>

text \<open>
  What a client of \<open>AbstractAPKStorage\<close> relies on. \<open>load\<close> is the whole of the bytes the generator yields; a client
  that asks for a version takes a missing file as no version.
\<close>

datatype store_op = Save apk_type apk_arch string string bytes | Delete apk_type apk_arch

definition clean_op :: "store_op \<Rightarrow> bool" where
  "clean_op op = (case op of Save t a v m d \<Rightarrow> clean_version v \<and> d \<noteq> [] | Delete t a \<Rightarrow> True)"

type_synonym package_table = "apk_type \<times> apk_arch \<Rightarrow> (string \<times> bytes) option"

definition spec_step :: "store_op \<Rightarrow> package_table \<Rightarrow> package_table" where
  "spec_step op T = (case op of Save t a v m d \<Rightarrow> T((t, a) := Some (v, d)) | Delete t a \<Rightarrow> T((t, a) := None))"

locale apk_store =
  fixes inv :: "'s \<Rightarrow> bool"
    and save :: "apk_type \<Rightarrow> apk_arch \<Rightarrow> string \<Rightarrow> string \<Rightarrow> bytes \<Rightarrow> 's \<Rightarrow> bool \<times> 's"
    and delete :: "apk_type \<Rightarrow> apk_arch \<Rightarrow> 's \<Rightarrow> 's"
    and current :: "apk_type \<Rightarrow> apk_arch \<Rightarrow> 's \<Rightarrow> string option"
    and load :: "apk_type \<Rightarrow> apk_arch \<Rightarrow> 's \<Rightarrow> bytes option"
  assumes save_ok: "inv s \<Longrightarrow> clean_version v \<Longrightarrow> fst (save t a v m d s) \<and> inv (snd (save t a v m d s))"
    and delete_ok: "inv s \<Longrightarrow> inv (delete t a s)"
    and current_save: "inv s \<Longrightarrow> clean_version v \<Longrightarrow>
      current t' a' (snd (save t a v m d s)) = (if t' = t \<and> a' = a then Some v else current t' a' s)"
    and current_delete: "inv s \<Longrightarrow> current t' a' (delete t a s) = (if t' = t \<and> a' = a then None else current t' a' s)"
    and load_save: "inv s \<Longrightarrow> clean_version v \<Longrightarrow> d \<noteq> [] \<Longrightarrow>
      load t' a' (snd (save t a v m d s)) = (if t' = t \<and> a' = a then Some d else load t' a' s)"
    and load_delete: "inv s \<Longrightarrow> load t' a' (delete t a s) = (if t' = t \<and> a' = a then None else load t' a' s)"
begin

definition step :: "store_op \<Rightarrow> 's \<Rightarrow> 's" where
  "step op s = (case op of Save t a v m d \<Rightarrow> snd (save t a v m d s) | Delete t a \<Rightarrow> delete t a s)"

definition refines :: "'s \<Rightarrow> package_table \<Rightarrow> bool" where
  "refines s T \<longleftrightarrow> inv s \<and> (\<forall>t a. current t a s = map_option fst (T (t, a)) \<and> load t a s = map_option snd (T (t, a)))"

lemma step_refines: "refines s T \<Longrightarrow> clean_op op \<Longrightarrow> refines (step op s) (spec_step op T)"
  by (cases op) (auto simp: refines_def step_def spec_step_def clean_op_def save_ok delete_ok current_save current_delete load_save load_delete)

lemma run_refines: "refines s T \<Longrightarrow> list_all clean_op ops \<Longrightarrow> refines (fold step ops s) (fold spec_step ops T)"
  by (induction ops arbitrary: s T) (simp_all add: step_refines)

end

section \<open>The file system provides it\<close>

definition fs_view :: "fs_storage \<Rightarrow> apk_type \<Rightarrow> apk_arch \<Rightarrow> (string option \<times> string option) option" where
  "fs_view s t a = map_option (\<lambda>p. (filename p, version p)) (fs_apk s t a)"

definition file_info :: "string \<Rightarrow> (apk_type \<times> apk_arch \<times> string) option" where
  "file_info f = (case match_filename f of None \<Rightarrow> None | Some (name, ver, arch, format) \<Rightarrow>
     (case (lookup_arch_enum (IsStr arch), lookup_apk_enum (IsStr name)) of (Inr a, Inr t) \<Rightarrow> Some (t, a, ver) | _ \<Rightarrow> None))"

definition files_fit :: "(string, bytes) dict \<Rightarrow> (apk_type \<Rightarrow> apk_arch \<Rightarrow> (string option \<times> string option) option) \<Rightarrow> bool" where
  "files_fit d V \<longleftrightarrow> dict_wf d \<and>
     (\<forall>t a w. V t a = Some w \<longrightarrow> (\<exists>f v. w = (Some f, Some v) \<and> map_of d f \<noteq> None \<and> file_info f = Some (t, a, v))) \<and>
     (\<forall>f t a v. map_of d f \<noteq> None \<longrightarrow> file_info f = Some (t, a, v) \<longrightarrow> V t a = Some (Some f, Some v))"

definition fs_inv :: "fs_storage \<Rightarrow> bool" where
  "fs_inv s \<longleftrightarrow> (\<exists>d. files s = Some d \<and> files_fit d (fs_view s))"

lemma fs_view_set_apk: "fs_view (set_apk t a p s) t' a' = (if t' = t \<and> a' = a then Some (filename p, version p) else fs_view s t' a')"
  by (simp add: fs_view_def fs_apk_def set_apk_def dict_simps split: option.splits)

lemma fs_view_del_apk: "fs_view (del_apk t a s) t' a' = (if t' = t \<and> a' = a then None else fs_view s t' a')"
  by (auto simp: fs_view_def fs_apk_def del_apk_def dict_simps split: option.splits)

lemma files_set_del [simp]: "files (set_apk t a p s) = files s" "files (del_apk t a s) = files s"
  by (simp_all add: set_apk_def del_apk_def split: option.split)

lemma fs_view_files [simp]: "fs_view (s\<lparr>files := x\<rparr>) = fs_view s"
  by (simp add: fs_view_def fs_apk_def fun_eq_iff)

lemma file_info_generated [simp]: "clean_version v \<Longrightarrow> file_info (generate_filename t a v m) = Some (t, a, v)"
  by (simp add: file_info_def match_generated)

lemma scan_file_info:
  "scan_file (f, x) s = (case file_info f of None \<Rightarrow> s
     | Some (t, a, v) \<Rightarrow> set_apk t a (stored_package t a v f (if (case match_filename f of Some (_, _, _, fmt) \<Rightarrow> fmt = ''zip'' | _ \<Rightarrow> False)
         then ''application/zip'' else ''application/vnd.android.package-archive'') x) s)"
  by (simp add: scan_file_def file_info_def Let_def split: option.split sum.split)

lemma scan_file_keeps:
  assumes "files_fit d (fs_view s)" "map_of d f \<noteq> None"
  shows "files (scan_file (f, x) s) = files s \<and> fs_view (scan_file (f, x) s) = fs_view s"
proof (cases "file_info f")
  case (Some w)
  obtain t a v where w: "w = (t, a, v)" by (cases w) auto
  have "fs_view s t a = Some (Some f, Some v)" using assms Some w by (auto simp: files_fit_def)
  then show ?thesis by (auto simp: scan_file_info Some w fs_view_set_apk fun_eq_iff stored_package_def)
qed (simp add: scan_file_info)

lemma scan_files_keep:
  "files_fit d (fs_view s) \<Longrightarrow> set xs \<subseteq> set d \<Longrightarrow>
   files (fold scan_file xs s) = files s \<and> fs_view (fold scan_file xs s) = fs_view s"
proof (induction xs arbitrary: s)
  case (Cons e xs)
  obtain f x where e: "e = (f, x)" by (cases e)
  have "map_of d f \<noteq> None" using Cons.prems(2) e weak_map_of_SomeI [of f x d] by auto
  note k = scan_file_keeps [OF Cons.prems(1) this, of x]
  with Cons.IH [of "scan_file e s"] Cons.prems e show ?case by simp
qed simp

lemma reload_keeps: "fs_inv s \<Longrightarrow> files (reload s) = files s \<and> fs_view (reload s) = fs_view s"
  by (auto simp: fs_inv_def reload_def create_structure_def create_config_def scan_files_keep)

lemma entry_file:
  assumes "fs_inv s" "fs_apk s t a = Some p"
  shows "\<exists>f v d. filename p = Some f \<and> version p = Some v \<and> files s = Some d \<and> map_of d f \<noteq> None \<and> file_info f = Some (t, a, v)"
proof -
  obtain d where d: "files s = Some d" "files_fit d (fs_view s)" using assms(1) by (auto simp: fs_inv_def)
  have "fs_view s t a = Some (filename p, version p)" using assms(2) by (simp add: fs_view_def)
  with d show ?thesis unfolding files_fit_def by (metis Pair_inject)
qed

lemma validate_ok: "fs_inv s \<Longrightarrow> fs_view s t a \<noteq> None \<Longrightarrow> validate_file t a s = (Inr True, s)"
  using entry_file [of s t a] by (auto simp: fs_view_def validate_file_def file_on_disk_def)

lemma validate_missing: "fs_view s t a = None \<Longrightarrow> validate_file t a s = (Inl FileNotFoundError, s)"
  by (simp add: validate_file_def fs_view_def)

lemma ensured:
  assumes "fs_inv s"
  shows "ensure_config_file (ensure_exists t a f) s =
    (if fs_view s t a = None then (Inl FileNotFoundError, reload s)
     else case f s of (Inl FileNotFoundError, s1) \<Rightarrow> ensure_exists t a f (reload s1) | r \<Rightarrow> r)"
  using validate_ok [OF assms, of t a] validate_missing [of s t a] validate_missing [of "reload s" t a] reload_keeps [OF assms]
  by (auto simp: ensure_config_file_def ensure_exists_def)

definition fs_current :: "apk_type \<Rightarrow> apk_arch \<Rightarrow> fs_storage \<Rightarrow> string option" where
  "fs_current t a s = (case fst (fs_get_current_version t a s) of Inr v \<Rightarrow> v | Inl e \<Rightarrow> None)"

definition fs_load :: "apk_type \<Rightarrow> apk_arch \<Rightarrow> fs_storage \<Rightarrow> bytes option" where
  "fs_load t a s = (case fs_apk s t a of None \<Rightarrow> None
     | Some p \<Rightarrow> (case fs_get_async_generator p s of Inl e \<Rightarrow> None | Inr cs \<Rightarrow> Some (concat cs)))"

definition fs_delete :: "apk_type \<Rightarrow> apk_arch \<Rightarrow> fs_storage \<Rightarrow> fs_storage" where
  "fs_delete t a s = snd (fs_delete_file t a s)"

definition fs_save :: "apk_type \<Rightarrow> apk_arch \<Rightarrow> string \<Rightarrow> string \<Rightarrow> bytes \<Rightarrow> fs_storage \<Rightarrow> bool \<times> fs_storage" where
  "fs_save t a v m d s = fs_save_file t a v m d True s"

lemma concat_read_chunks [simp]: "concat (read_chunks d) = d"
  by (induction d rule: read_chunks.induct) (subst read_chunks.simps, simp)

definition disk_view :: "fs_storage \<Rightarrow> apk_type \<Rightarrow> apk_arch \<Rightarrow> bytes option" where
  "disk_view s t a = (case fs_view s t a of None \<Rightarrow> None | Some (f, v) \<Rightarrow> file_on_disk f s)"

lemma fs_load_view: "fs_load t a s = disk_view s t a"
  by (simp add: fs_load_def disk_view_def fs_view_def fs_get_async_generator_def split: option.split)

lemma fs_current_view: "fs_inv s \<Longrightarrow> fs_current t a s = (case fs_view s t a of None \<Rightarrow> None | Some (f, v) \<Rightarrow> v)"
  by (auto simp: fs_current_def fs_get_current_version_def ensured read_version_def fs_view_def split: option.split)

lemma file_info_unique: "file_info f = Some (t, a, v) \<Longrightarrow> file_info f = Some (t', a', v') \<Longrightarrow> t' = t \<and> a' = a \<and> v' = v"
  by simp

lemma files_fit_view: "files_fit d V \<Longrightarrow> V t a = Some w \<Longrightarrow>
    \<exists>f v. w = (Some f, Some v) \<and> map_of d f \<noteq> None \<and> file_info f = Some (t, a, v)"
  unfolding files_fit_def by blast

lemma files_fit_file: "files_fit d V \<Longrightarrow> map_of d f \<noteq> None \<Longrightarrow> file_info f = Some (t, a, v) \<Longrightarrow> V t a = Some (Some f, Some v)"
  unfolding files_fit_def by blast

lemma files_fitI:
  assumes "dict_wf d"
    and "\<And>t a w. V t a = Some w \<Longrightarrow> \<exists>f v. w = (Some f, Some v) \<and> map_of d f \<noteq> None \<and> file_info f = Some (t, a, v)"
    and "\<And>f t a v. map_of d f \<noteq> None \<Longrightarrow> file_info f = Some (t, a, v) \<Longrightarrow> V t a = Some (Some f, Some v)"
  shows "files_fit d V"
  unfolding files_fit_def using assms by blast

lemma files_fit_wf: "files_fit d V \<Longrightarrow> dict_wf d"
  unfolding files_fit_def by blast

lemma files_fit_delete:
  assumes fit: "files_fit d V" and f: "file_info f = Some (t, a, v)" "map_of d f \<noteq> None"
  shows "files_fit (AList.delete f d) (\<lambda>x y. if x = t \<and> y = a then None else V x y)"
proof (rule files_fitI)
  fix x y w
  assume w: "(if x = t \<and> y = a then None else V x y) = Some w"
  then have ne: "x \<noteq> t \<or> y \<noteq> a" and V: "V x y = Some w" by (auto split: if_splits)
  obtain f' v' where f': "w = (Some f', Some v')" "map_of d f' \<noteq> None" "file_info f' = Some (x, y, v')"
    using files_fit_view [OF fit V] by blast
  with f(1) ne have "f' \<noteq> f" by auto
  with f' show "\<exists>f' v'. w = (Some f', Some v') \<and> map_of (AList.delete f d) f' \<noteq> None \<and> file_info f' = Some (x, y, v')"
    by (intro exI [of _ f'] exI [of _ v']) (simp add: dict_simps)
next
  fix f' x y v'
  assume w: "map_of (AList.delete f d) f' \<noteq> None" "file_info f' = Some (x, y, v')"
  then have f': "f' \<noteq> f" "map_of d f' \<noteq> None" by (auto simp: dict_simps split: if_splits)
  have V: "V x y = Some (Some f', Some v')" by (rule files_fit_file [OF fit f'(2) w(2)])
  have "V t a = Some (Some f, Some v)" by (rule files_fit_file [OF fit f(2,1)])
  with V f'(1) have "\<not> (x = t \<and> y = a)" by auto
  with V show "(if x = t \<and> y = a then None else V x y) = Some (Some f', Some v')" by simp
qed (use fit in \<open>simp add: files_fit_wf\<close>)

lemma files_fit_update:
  assumes fit: "files_fit d V" and f: "V t a = None" "file_info f = Some (t, a, v)"
  shows "files_fit (AList.update f x d) (\<lambda>t' a'. if t' = t \<and> a' = a then Some (Some f, Some v) else V t' a')"
proof (rule files_fitI)
  fix p q w
  assume w: "(if p = t \<and> q = a then Some (Some f, Some v) else V p q) = Some w"
  show "\<exists>f' v'. w = (Some f', Some v') \<and> map_of (AList.update f x d) f' \<noteq> None \<and> file_info f' = Some (p, q, v')"
  proof (cases "p = t \<and> q = a")
    case True
    with w f(2) show ?thesis by (intro exI [of _ f] exI [of _ v]) (auto simp: dict_simps)
  next
    case False
    with w have "V p q = Some w" by (simp split: if_splits)
    from files_fit_view [OF fit this] show ?thesis by (auto simp: dict_simps)
  qed
next
  fix f' p q v'
  assume w: "map_of (AList.update f x d) f' \<noteq> None" "file_info f' = Some (p, q, v')"
  show "(if p = t \<and> q = a then Some (Some f, Some v) else V p q) = Some (Some f', Some v')"
  proof (cases "f' = f")
    case True
    with w(2) f(2) show ?thesis by simp
  next
    case False
    with w(1) have "map_of d f' \<noteq> None" by (simp add: dict_simps)
    from files_fit_file [OF fit this w(2)] f(1) show ?thesis by (auto split: if_splits)
  qed
qed (use fit in \<open>simp add: files_fit_wf\<close>)

lemma fs_delete_keeps:
  assumes inv: "fs_inv s"
  shows "fs_inv (fs_delete t a s) \<and> fs_view (fs_delete t a s) t' a' = (if t' = t \<and> a' = a then None else fs_view s t' a')
    \<and> (t' \<noteq> t \<or> a' \<noteq> a \<longrightarrow> disk_view (fs_delete t a s) t' a' = disk_view s t' a')"
proof (cases "fs_view s t a = None")
  case True
  then have s': "fs_delete t a s = reload s" using inv by (simp add: fs_delete_def fs_delete_file_def ensured)
  note k = reload_keeps [OF inv]
  have "fs_inv (reload s)" using k inv by (simp add: fs_inv_def)
  with k True show ?thesis by (auto simp: s' disk_view_def file_on_disk_def split: option.split)
next
  case False
  then obtain w where w: "fs_view s t a = Some w" by blast
  then obtain p where p: "fs_apk s t a = Some p" by (auto simp: fs_view_def)
  obtain f v d where f: "filename p = Some f" "version p = Some v" "files s = Some d" "map_of d f \<noteq> None" "file_info f = Some (t, a, v)"
    using entry_file [OF inv p] by blast
  have s': "fs_delete t a s = del_apk t a (s\<lparr>files := Some (AList.delete f d)\<rparr>)"
    using w inv p f by (simp add: fs_delete_def fs_delete_file_def ensured remove_apk_def unlink_def)
  have fit: "files_fit d (fs_view s)" using inv f(3) by (simp add: fs_inv_def)
  have "files_fit (AList.delete f d) (fs_view (fs_delete t a s))"
    using files_fit_delete [OF fit f(5,4)] unfolding s' by (simp only: fs_view_del_apk [abs_def] fs_view_files)
  moreover have "disk_view (fs_delete t a s) t' a' = disk_view s t' a'" if ne: "t' \<noteq> t \<or> a' \<noteq> a"
  proof (cases "fs_view s t' a'")
    case (Some w)
    then obtain f' v' where w: "w = (Some f', Some v')" "file_info f' = Some (t', a', v')" using fit unfolding files_fit_def by blast
    then have "f' \<noteq> f" using f(5) ne by auto
    with Some w ne f(3) show ?thesis by (auto simp: disk_view_def s' fs_view_del_apk file_on_disk_def dict_simps)
  qed (use ne in \<open>auto simp: disk_view_def s' fs_view_del_apk\<close>)
  ultimately show ?thesis by (simp add: fs_inv_def s' fs_view_del_apk)
qed

lemma fs_save_keeps:
  assumes inv: "fs_inv s" and v: "clean_version v"
  shows "fst (fs_save t a v m d s) \<and> fs_inv (snd (fs_save t a v m d s)) \<and>
    fs_view (snd (fs_save t a v m d s)) t' a' = (if t' = t \<and> a' = a then Some (Some (generate_filename t a v m), Some v) else fs_view s t' a')
    \<and> disk_view (snd (fs_save t a v m d s)) t' a' = (if t' = t \<and> a' = a then Some d else disk_view s t' a')"
proof -
  define s2 where "s2 = fs_delete t a (fs_delete t a s)"
  note k1 = fs_delete_keeps [OF inv] and k2 = fs_delete_keeps [OF conjunct1 [OF fs_delete_keeps [OF inv]]]
  have inv2: "fs_inv s2" unfolding s2_def using k2 by blast
  have view2: "fs_view s2 x y = (if x = t \<and> y = a then None else fs_view s x y)" for x y
    unfolding s2_def using k2 [of t a t a x y] k1 [of t a x y] by auto
  have disk2: "x \<noteq> t \<or> y \<noteq> a \<Longrightarrow> disk_view s2 x y = disk_view s x y" for x y
    unfolding s2_def using k2 [of t a t a x y] k1 [of t a x y] by auto
  obtain e where e: "files s2 = Some e" "files_fit e (fs_view s2)" using inv2 by (auto simp: fs_inv_def)
  let ?f = "generate_filename t a v m"
  define s3 where "s3 = set_apk t a (stored_package t a v ?f m d) (s2\<lparr>files := Some (AList.update ?f d e)\<rparr>)"
  have s3: "fs_save t a v m d s = (True, s3)"
    using e by (simp add: fs_save_def fs_save_file_def save_once_def write_file_def s2_def s3_def fs_delete_def Let_def)
  have view3: "fs_view s3 x y = (if x = t \<and> y = a then Some (Some ?f, Some v) else fs_view s x y)" for x y
    by (simp add: s3_def fs_view_set_apk stored_package_def view2)
  have "files_fit (AList.update ?f d e) (fs_view s3)"
    using files_fit_update [OF e(2) _ file_info_generated [OF v, of t a m], of d] by (simp add: view2 view3 [abs_def] cong: if_cong)
  then have inv3: "fs_inv s3" by (simp add: fs_inv_def) (simp add: s3_def)
  have "disk_view s3 t' a' = (if t' = t \<and> a' = a then Some d else disk_view s t' a')"
  proof (cases "t' = t \<and> a' = a")
    case True
    then show ?thesis by (simp add: disk_view_def view3 file_on_disk_def) (simp add: s3_def dict_simps)
  next
    case False
    show ?thesis
    proof (cases "fs_view s t' a'")
      case (Some w)
      with False view2 have "fs_view s2 t' a' = Some w" by auto
      then obtain f' v' where w: "w = (Some f', Some v')" "file_info f' = Some (t', a', v')" using e(2) unfolding files_fit_def by blast
      then have "f' \<noteq> ?f" using file_info_generated [OF v, of t a m] False by auto
      moreover have "files s3 = Some (AList.update ?f d e)" by (simp add: s3_def)
      ultimately show ?thesis using disk2 [of t' a'] Some w False e(1)
        by (auto simp: disk_view_def view3 view2 file_on_disk_def dict_simps)
    qed (use False in \<open>auto simp: disk_view_def view3\<close>)
  qed
  with inv3 s3 view3 show ?thesis by simp
qed

interpretation fs: apk_store fs_inv fs_save fs_delete fs_current fs_load
proof
  fix s t a v m d t' a'
  assume inv: "fs_inv s" and v: "clean_version v"
  show "fst (fs_save t a v m d s) \<and> fs_inv (snd (fs_save t a v m d s))"
    using fs_save_keeps [OF inv v, of t a m d t a] by blast
  show "fs_current t' a' (snd (fs_save t a v m d s)) = (if t' = t \<and> a' = a then Some v else fs_current t' a' s)"
    using fs_save_keeps [OF inv v, of t a m d t' a'] inv by (simp add: fs_current_view)
  show "fs_load t' a' (snd (fs_save t a v m d s)) = (if t' = t \<and> a' = a then Some d else fs_load t' a' s)"
    using fs_save_keeps [OF inv v, of t a m d t' a'] by (simp add: fs_load_view)
next
  fix s t a t' a'
  assume inv: "fs_inv s"
  show "fs_inv (fs_delete t a s)" using fs_delete_keeps [OF inv] by blast
  show "fs_current t' a' (fs_delete t a s) = (if t' = t \<and> a' = a then None else fs_current t' a' s)"
    using fs_delete_keeps [OF inv, of t a t' a'] inv by (simp add: fs_current_view)
  show "fs_load t' a' (fs_delete t a s) = (if t' = t \<and> a' = a then None else fs_load t' a' s)"
    using fs_delete_keeps [OF inv, of t a t' a'] by (auto simp: fs_load_view disk_view_def)
qed

section \<open>The database provides it\<close>

definition db_inv :: "db_storage \<Rightarrow> bool" where
  "db_inv db \<longleftrightarrow> distinct (map (\<lambda>r. (row_usage r, row_arch r)) (mad_apks db)) \<and> distinct (map filestore_id (mad_apks db)) \<and>
     (\<forall>r \<in> set (mad_apks db). 0 < filestore_id r \<and> filestore_id r < next_filestore db) \<and> 0 < next_filestore db \<and>
     distinct (map chunk_id (chunks db)) \<and>
     (\<forall>c \<in> set (chunks db). chunk_id c < next_chunk db \<and> chunk_store c < next_filestore db)"

definition db_load :: "apk_type \<Rightarrow> apk_arch \<Rightarrow> db_storage \<Rightarrow> bytes option" where
  "db_load t a db = (case db_get_async_generator t a db of Inl e \<Rightarrow> None | Inr cs \<Rightarrow> Some (concat cs))"

definition store_data :: "nat \<Rightarrow> db_storage \<Rightarrow> bytes list" where
  "store_data fid db = map chunk_data (filter (\<lambda>c. chunk_store c = fid) (chunks db))"

lemma concat_slices:
  assumes "0 < n"
  shows "concat (slices n d) = d"
proof -
  have "concat (map (\<lambda>i. take n (drop (i * n) d)) [0..<k]) = take (k * n) d" for k
  proof (induction k)
    case (Suc k)
    have "Suc k * n = k * n + n" by simp
    with Suc show ?case by (simp only: upt_Suc_append [OF le0] map_append concat_append take_add) simp
  qed simp
  moreover have "length d \<le> ((length d + n - 1) div n) * n"
  proof -
    have "length d + n - 1 < ((length d + n - 1) div n) * n + n" 
      using assms by (metis add.commute dividend_less_times_div mult.commute)
    then show ?thesis by simp
  qed
  ultimately show ?thesis by (simp add: slices_def)
qed

lemma slices_nonempty: "0 < n \<Longrightarrow> d \<noteq> [] \<Longrightarrow> slices n d \<noteq> []"
  using concat_slices [of n d] by auto

lemma db_get_Some: "db_get t a db = Some r \<Longrightarrow> r \<in> set (mad_apks db) \<and> row_usage r = t \<and> row_arch r = a"
  by (auto simp: db_get_def find_Some_iff)

lemma find_filter_keep: "\<forall>x \<in> set xs. P x \<longrightarrow> Q x \<Longrightarrow> List.find P (filter Q xs) = List.find P xs"
  by (induction xs) auto

lemma find_filter_none: "\<forall>x \<in> set xs. P x \<longrightarrow> \<not> Q x \<Longrightarrow> List.find P (filter Q xs) = None"
  by (auto simp: find_None_iff)

lemma find_snoc: "List.find P (xs @ [y]) = (case List.find P xs of None \<Rightarrow> if P y then Some y else None | Some x \<Rightarrow> Some x)"
  by (induction xs) auto

lemma distinct_map_eq: "distinct (map f xs) \<Longrightarrow> x \<in> set xs \<Longrightarrow> y \<in> set xs \<Longrightarrow> f x = f y \<Longrightarrow> x = y"
  by (auto simp: distinct_map inj_on_def)

lemma distinct_map_filter_sub: "distinct (map f xs) \<Longrightarrow> distinct (map f (filter P xs))"
  by (simp add: distinct_map_filter)

lemma db_load_data:
  assumes "db_inv db"
  shows "db_load t a db = (case db_get t a db of None \<Rightarrow> None
    | Some r \<Rightarrow> if store_data (filestore_id r) db = [] then None else Some (concat (store_data (filestore_id r) db)))"
proof (cases "db_get t a db")
  case (Some r)
  let ?ids = "db_get_chunk_ids (filestore_id r) db"
  have "chunk_id c \<in> set ?ids \<longleftrightarrow> chunk_store c = filestore_id r" if "c \<in> set (chunks db)" for c
  proof -
    have "distinct (map chunk_id (chunks db))" using assms by (simp add: db_inv_def)
    from distinct_map_eq [OF this that] that show ?thesis by (auto simp: db_get_chunk_ids_def)
  qed
  then have "filter (\<lambda>c. chunk_id c \<in> set ?ids) (chunks db) = filter (\<lambda>c. chunk_store c = filestore_id r) (chunks db)"
    by (simp cong: filter_cong)
  moreover have "0 < filestore_id r" using db_get_Some [OF Some] assms by (auto simp: db_inv_def)
  ultimately show ?thesis
    using Some by (simp add: db_load_def db_get_async_generator_def db_get_filestore_id_def store_data_def db_get_chunk_ids_def Let_def)
qed (simp add: db_load_def db_get_async_generator_def db_get_filestore_id_def)

definition db_delete :: "apk_type \<Rightarrow> apk_arch \<Rightarrow> db_storage \<Rightarrow> db_storage" where
  "db_delete t a db = snd (db_delete_file t a db)"

lemma db_delete_keeps:
  assumes inv: "db_inv db"
  shows "db_inv (db_delete t a db)" "db_get t' a' (db_delete t a db) = (if t' = t \<and> a' = a then None else db_get t' a' db)"
    and "next_filestore (db_delete t a db) = next_filestore db"
    and "db_get t' a' (db_delete t a db) = Some r' \<Longrightarrow> store_data (filestore_id r') (db_delete t a db) = store_data (filestore_id r') db"
proof -
  have *: "db_inv (db_delete t a db) \<and> (\<forall>t' a'. db_get t' a' (db_delete t a db) = (if t' = t \<and> a' = a then None else db_get t' a' db)) \<and>
    next_filestore (db_delete t a db) = next_filestore db \<and>
    (\<forall>t' a' r'. db_get t' a' (db_delete t a db) = Some r' \<longrightarrow> store_data (filestore_id r') (db_delete t a db) = store_data (filestore_id r') db)"
  proof (cases "db_get t a db")
    case (Some r)
    note r = db_get_Some [OF Some]
    have pos: "0 < filestore_id r" using r inv by (auto simp: db_inv_def)
    define Q where "Q = (\<lambda>x :: apk_row. filestore_id x \<noteq> filestore_id r)"
    have d: "db_delete t a db = db\<lparr>mad_apks := filter Q (mad_apks db),
        chunks := filter (\<lambda>c. chunk_store c \<noteq> filestore_id r) (chunks db)\<rparr>"
      using Some pos by (simp add: db_delete_def db_delete_file_def Q_def)
    have key: "distinct (map (\<lambda>r. (row_usage r, row_arch r)) (mad_apks db))" "distinct (map filestore_id (mad_apks db))"
      using inv by (simp_all add: db_inv_def)
    have eq: "Q x \<longleftrightarrow> \<not> (row_usage x = t \<and> row_arch x = a)" if "x \<in> set (mad_apks db)" for x
    proof -
      have "x = r" if "row_usage x = t \<and> row_arch x = a"
        using distinct_map_eq [OF key(1) \<open>x \<in> set (mad_apks db)\<close>, of r] r that by auto
      moreover have "x = r" if "filestore_id x = filestore_id r"
        using distinct_map_eq [OF key(2) \<open>x \<in> set (mad_apks db)\<close>, of r] r that by auto
      ultimately show ?thesis using r by (auto simp: Q_def)
    qed
    have get: "db_get t' a' (db_delete t a db) = (if t' = t \<and> a' = a then None else db_get t' a' db)" for t' a'
      unfolding db_get_def d using eq
      by (cases "t' = t \<and> a' = a") (auto intro!: find_filter_keep find_filter_none)
    have "store_data (filestore_id r') (db_delete t a db) = store_data (filestore_id r') db"
      if g: "db_get t' a' (db_delete t a db) = Some r'" for t' a' r'
    proof -
      have "filestore_id r' \<noteq> filestore_id r" using db_get_Some [OF g] by (simp add: d Q_def)
      then have "(chunk_store c \<noteq> filestore_id r \<and> chunk_store c = filestore_id r') = (chunk_store c = filestore_id r')"
        for c :: chunk_row by auto
      then show ?thesis by (simp add: store_data_def d)
    qed
    with get inv show ?thesis
      by (auto simp: d db_inv_def distinct_map_filter_sub)
  next
    case None
    then have "db_delete t a db = db" by (simp add: db_delete_def db_delete_file_def)
    with None inv show ?thesis by simp
  qed
  then show "db_inv (db_delete t a db)" "db_get t' a' (db_delete t a db) = (if t' = t \<and> a' = a then None else db_get t' a' db)"
    "next_filestore (db_delete t a db) = next_filestore db"
    "db_get t' a' (db_delete t a db) = Some r' \<Longrightarrow> store_data (filestore_id r') (db_delete t a db) = store_data (filestore_id r') db"
    by blast+
qed

lemma insert_chunks:
  "db_inv db \<Longrightarrow> fid < next_filestore db \<Longrightarrow>
   db_inv (fold (db_insert_chunk fid) ds db) \<and> mad_apks (fold (db_insert_chunk fid) ds db) = mad_apks db \<and>
   store_data g (fold (db_insert_chunk fid) ds db) = store_data g db @ (if g = fid then ds else [])"
proof (induction ds arbitrary: db)
  case (Cons d ds)
  let ?db = "db_insert_chunk fid d db"
  have "chunk_id c \<noteq> next_chunk db" if "c \<in> set (chunks db)" for c using Cons.prems(1) that by (auto simp: db_inv_def)
  then have "db_inv ?db" using Cons.prems by (auto simp: db_inv_def db_insert_chunk_def less_Suc_eq)
  with Cons.IH [of ?db] Cons.prems(2) show ?case
    by (simp add: db_insert_chunk_def store_data_def)
qed simp

lemma db_save_keeps:
  assumes inv: "db_inv db"
    and db'_def: "db' = snd (db_save_file t a v m d db)"
  shows "db_inv db'"
    and "map_option row_version (db_get t' a' db') = (if t' = t \<and> a' = a then Some v else map_option row_version (db_get t' a' db))"
    and "d \<noteq> [] \<Longrightarrow> db_load t' a' db' = (if t' = t \<and> a' = a then Some d else db_load t' a' db)"
proof -
  define db1 where "db1 = db_delete t a db"
  define fid where "fid = next_filestore db1"
  define row where "row = \<lparr>filestore_id = fid, row_usage = t, row_arch = a, row_version = v,
      row_filename = generate_filename t a v m, row_size = int (length d), row_mimetype = m\<rparr>"
  define db2 where "db2 = db1\<lparr>mad_apks := mad_apks db1 @ [row], next_filestore := fid + 1\<rparr>"
  have db': "db' = fold (db_insert_chunk fid) (slices CHUNK_MAX_SIZE d) db2"
    by (simp add: db'_def db_save_file_def db_insert_def Let_def db2_def row_def fid_def db1_def db_delete_def)
  note del = db_delete_keeps [OF inv, where t = t and a = a, folded db1_def]
  have inv1: "db_inv db1" by (rule del(1))
  have none: "db_get t a db1 = None" using del(2) [of t a] by simp
  then have fresh: "(row_usage r, row_arch r) \<noteq> (t, a)" if "r \<in> set (mad_apks db1)" for r
    using that by (auto simp: db_get_def find_None_iff)
  have ids: "filestore_id r < fid" if "r \<in> set (mad_apks db1)" for r using inv1 that by (simp add: db_inv_def fid_def)
  have st: "chunk_store c < fid" if "c \<in> set (chunks db1)" for c using inv1 that by (simp add: db_inv_def fid_def)
  have inv2: "db_inv db2" using inv1 fresh ids st by (fastforce simp: db_inv_def db2_def row_def fid_def less_Suc_eq)
  have get2: "db_get x y db2 = (if x = t \<and> y = a then Some row else db_get x y db)" for x y
    using del(2) [of x y] none by (auto simp: db_get_def db2_def find_snoc row_def split: option.split)
  have data2: "store_data g db2 = store_data g db1" for g by (simp add: store_data_def db2_def)
  have data0: "store_data fid db1 = []" using st by (auto simp: store_data_def filter_empty_conv)
  note ins = insert_chunks [OF inv2, of fid "slices CHUNK_MAX_SIZE d", folded db']
  have fid2: "fid < next_filestore db2" by (simp add: db2_def)
  show inv': "db_inv db'" using ins fid2 by blast
  have get: "db_get x y db' = (if x = t \<and> y = a then Some row else db_get x y db)" for x y
    using get2 [of x y] ins [OF fid2] by (simp add: db_get_def)
  show "map_option row_version (db_get t' a' db') = (if t' = t \<and> a' = a then Some v else map_option row_version (db_get t' a' db))"
    by (simp add: get row_def)
  have chunk: "0 < CHUNK_MAX_SIZE" by (simp add: CHUNK_MAX_SIZE_def)
  have data: "store_data g db' = (if g = fid then slices CHUNK_MAX_SIZE d else store_data g db1)" for g
    using ins [OF fid2, of g] by (simp add: data2 data0)
  show "db_load t' a' db' = (if t' = t \<and> a' = a then Some d else db_load t' a' db)" if "d \<noteq> []"
  proof (cases "t' = t \<and> a' = a")
    case True
    have row: "filestore_id row = fid" by (simp add: row_def)
    show ?thesis using True slices_nonempty [OF chunk that] concat_slices [OF chunk, of d]
      by (simp add: db_load_data [OF inv'] get data row)
  next
    case False
    have "store_data (filestore_id r) db' = store_data (filestore_id r) db" if g: "db_get t' a' db = Some r" for r
    proof -
      have g1: "db_get t' a' db1 = Some r" using del(2) [of t' a'] False g by auto
      then have "filestore_id r \<noteq> fid" using ids db_get_Some by blast
      then show ?thesis using del(4) [OF g1] by (simp add: data)
    qed
    then show ?thesis using False
      by (auto simp: db_load_data [OF inv'] db_load_data [OF inv] get split: option.split)
  qed
qed

interpretation db: apk_store db_inv db_save_file db_delete db_get_current_version db_load
proof
  fix db t a v m d t' a'
  assume inv: "db_inv db"
  show "fst (db_save_file t a v m d db) \<and> db_inv (snd (db_save_file t a v m d db))"
    using db_save_keeps(1) [OF inv refl] by (simp add: db_save_file_def Let_def case_prod_beta)
  show "db_get_current_version t' a' (snd (db_save_file t a v m d db)) =
      (if t' = t \<and> a' = a then Some v else db_get_current_version t' a' db)"
    using db_save_keeps(2) [OF inv refl] by (simp add: db_get_current_version_def)
  assume "d \<noteq> []"
  then show "db_load t' a' (snd (db_save_file t a v m d db)) = (if t' = t \<and> a' = a then Some d else db_load t' a' db)"
    by (rule db_save_keeps(3) [OF inv refl])
next
  fix db t a t' a'
  assume inv: "db_inv db"
  show "db_inv (db_delete t a db)" by (rule db_delete_keeps(1) [OF inv])
  show "db_get_current_version t' a' (db_delete t a db) = (if t' = t \<and> a' = a then None else db_get_current_version t' a' db)"
    by (simp add: db_get_current_version_def db_delete_keeps(2) [OF inv])
  show "db_load t' a' (db_delete t a db) = (if t' = t \<and> a' = a then None else db_load t' a' db)"
    using db_delete_keeps(4) [OF inv, of t' a' t a]
    by (auto simp: db_load_data [OF db_delete_keeps(1) [OF inv]] db_load_data [OF inv] db_delete_keeps(2) [OF inv] split: option.split)
qed

section \<open>Properties of the storages\<close>

definition fs_step :: "store_op \<Rightarrow> fs_storage \<Rightarrow> fs_storage" where
  "fs_step op s = (case op of Save t a v m d \<Rightarrow> snd (fs_save t a v m d s) | Delete t a \<Rightarrow> fs_delete t a s)"

definition db_step :: "store_op \<Rightarrow> db_storage \<Rightarrow> db_storage" where
  "db_step op db = (case op of Save t a v m d \<Rightarrow> snd (db_save_file t a v m d db) | Delete t a \<Rightarrow> db_delete t a db)"

definition new_db :: db_storage where
  "new_db = \<lparr>mad_apks = [], chunks = [], next_filestore = 1, next_chunk = 1\<rparr>"

lemma fs_step_eq: "fs.step = fs_step"
  by (simp add: fun_eq_iff fs.step_def fs_step_def)

lemma db_step_eq: "db.step = db_step"
  by (simp add: fun_eq_iff db.step_def db_step_def)

lemma new_fs_refines: "fs.refines (fs_setup None) (\<lambda>_. None)"
proof -
  have s: "fs_setup None = \<lparr>apks = [], files = Some []\<rparr>" by (simp add: fs_setup_def reload_def create_structure_def create_config_def)
  have inv: "fs_inv (fs_setup None)" unfolding s by (simp add: fs_inv_def files_fit_def fs_view_def fs_apk_def)
  have "fs_view (fs_setup None) t a = None" for t a unfolding s by (simp add: fs_view_def fs_apk_def)
  with inv show ?thesis by (simp add: fs.refines_def fs_current_view fs_load_view disk_view_def)
qed

lemma new_db_refines: "db.refines new_db (\<lambda>_. None)"
  by (simp add: db.refines_def db_inv_def new_db_def db_get_current_version_def db_get_def db_load_def db_get_async_generator_def
      db_get_filestore_id_def)

text \<open>
  C8. The two storages are interchangeable: after any history of uploads (of a clean version and some data) and
  deletions, both report the version of the last upload of a package that was not deleted since, and both read back
  exactly its bytes, which is what the table of packages that one keeps by hand says.
\<close>

theorem storages_refine_table:
  assumes "list_all clean_op ops"
  shows "let T = fold spec_step ops (\<lambda>_. None); s = fold fs_step ops (fs_setup None); db = fold db_step ops new_db
    in fs_current t a s = map_option fst (T (t, a)) \<and> fs_load t a s = map_option snd (T (t, a)) \<and>
       db_get_current_version t a db = map_option fst (T (t, a)) \<and> db_load t a db = map_option snd (T (t, a))"
  using fs.run_refines [OF new_fs_refines assms] db.run_refines [OF new_db_refines assms]
  by (simp add: Let_def fs.refines_def db.refines_def fs_step_eq db_step_eq)

lemma storages_refine_table_witness:
  "let ops = [Save pd noarch ''1.2'' ''x'' [1, 2], Save rgc noarch ''3'' ''x'' [3], Delete rgc noarch];
       s = fold fs_step ops (fs_setup None); db = fold db_step ops new_db
   in fs_current pd noarch s = Some ''1.2'' \<and> fs_load pd noarch s = Some [1, 2] \<and>
      db_get_current_version rgc noarch db = None \<and> db_load pd noarch db = Some [1, 2]"
proof -
  let ?ops = "[Save pd noarch ''1.2'' ''x'' [1, 2], Save rgc noarch ''3'' ''x'' [3], Delete rgc noarch]"
  have c: "list_all clean_op ?ops" by (simp add: clean_op_def clean_version_def is_ws_def)
  show ?thesis
    using storages_refine_table [OF c, of pd noarch] storages_refine_table [OF c, of rgc noarch]
    by (simp add: Let_def spec_step_def)
qed

text \<open>
  The name of a stored file says which package it is: the pattern that rebuilds the table reads back the package,
  the architecture and the version that \<open>generate_filename\<close> was given, for every version without white space and
  underscores.
\<close>

theorem filename_roundtrip:
  assumes "clean_version v"
  shows "match_filename (generate_filename t a v m) = Some (package_value t, v, arch_name a, extension m) \<and>
    lookup_apk_enum (IsStr (package_value t)) = Inr t \<and> lookup_arch_enum (IsStr (arch_name a)) = Inr a"
  using assms by (simp add: match_generated)

lemma filename_roundtrip_witness:
  "match_filename ''com.mad.pogodroid__2.1__armeabi_v7a.apk'' = Some (''com.mad.pogodroid'', ''2.1'', ''armeabi_v7a'', ''apk'')"
proof -
  have c: "clean_version ''2.1''" by (simp add: clean_version_def is_ws_def)
  have "generate_filename pd armeabi_v7a ''2.1'' ''x'' = ''com.mad.pogodroid__2.1__armeabi_v7a.apk''"
    by (simp add: generate_filename_def package_value_def arch_name_def)
  with filename_roundtrip [OF c, of pd armeabi_v7a "''x''"] show ?thesis
    by (simp add: package_value_def arch_name_def extension_def)
qed

lemma scan_files_view:
  assumes fit: "files_fit d V" and "set xs \<subseteq> set d"
  shows "files (fold scan_file xs s) = files s \<and> fs_view (fold scan_file xs s) t a =
    (if \<exists>f \<in> fst ` set xs. \<exists>v. file_info f = Some (t, a, v) then V t a else fs_view s t a)"
  using assms(2)
proof (induction xs arbitrary: s)
  case (Cons e xs)
  obtain f x where e: "e = (f, x)" by (cases e)
  have fd: "map_of d f \<noteq> None" using Cons.prems e weak_map_of_SomeI [of f x d] by auto
  note IH = Cons.IH [of "scan_file e s"]
  show ?case
  proof (cases "file_info f")
    case None
    with IH Cons.prems show ?thesis by (simp add: e scan_file_info)
  next
    case (Some w)
    obtain t' a' v' where w: "w = (t', a', v')" by (cases w) auto
    have "V t' a' = Some (Some f, Some v')" using files_fit_file [OF fit fd] Some w by simp
    with IH Cons.prems Some w show ?thesis
      by (auto simp: e scan_file_info fs_view_set_apk stored_package_def)
  qed
qed simp

text \<open>
  A restart loses nothing: a storage that is set up on the directory an earlier one left behind finds every
  package with its version and its bytes.
\<close>

theorem restart_keeps_packages:
  assumes "list_all clean_op ops"
  shows "let s = fold fs_step ops (fs_setup None); s' = fs_setup (files s)
    in fs_current t a s' = fs_current t a s \<and> fs_load t a s' = fs_load t a s"
proof -
  define s where "s = fold fs_step ops (fs_setup None)"
  have inv: "fs_inv s" using fs.run_refines [OF new_fs_refines assms] by (simp add: s_def fs.refines_def fs_step_eq)
  then obtain d where d: "files s = Some d" "files_fit d (fs_view s)" by (auto simp: fs_inv_def)
  let ?s = "fs_setup (files s)"
  have run: "?s = fold scan_file d \<lparr>apks = [], files = Some d\<rparr>"
    by (simp add: fs_setup_def reload_def create_structure_def create_config_def d)
  have files: "files ?s = Some d" and view: "fs_view ?s = fs_view s"
  proof -
    show "files ?s = Some d" unfolding run using scan_files_view [OF d(2) subset_refl] by simp
    have "fs_view ?s t a = fs_view s t a" for t a
    proof (cases "fs_view s t a")
      case None
      have e: "fs_view \<lparr>apks = [], files = Some d\<rparr> t a = None" by (simp add: fs_view_def fs_apk_def)
      show ?thesis unfolding run using scan_files_view [OF d(2) subset_refl, of "\<lparr>apks = [], files = Some d\<rparr>" t a] None e by simp
    next
      case (Some w)
      then obtain f v where f: "map_of d f \<noteq> None" "file_info f = Some (t, a, v)" using files_fit_view [OF d(2) Some] by blast
      then have "f \<in> fst ` set d" by (simp add: map_of_None_keys)
      then show ?thesis unfolding run
        using scan_files_view [OF d(2) subset_refl, of "\<lparr>apks = [], files = Some d\<rparr>" t a] f(2) by auto
    qed
    then show "fs_view ?s = fs_view s" by (simp add: fun_eq_iff)
  qed
  have inv': "fs_inv ?s" using d(2) by (simp add: fs_inv_def files view)
  have disk: "file_on_disk f (fs_setup (Some d)) = file_on_disk f s" for f
    using files by (cases f) (simp_all add: file_on_disk_def d(1))
  show ?thesis
    unfolding s_def [symmetric] Let_def
    using view disk by (cases "fs_view s t a") (auto simp: fs_current_view [OF inv] fs_current_view [OF inv' [unfolded d(1)]] fs_load_view disk_view_def d(1))
qed

lemma restart_keeps_packages_witness:
  "let s = fold fs_step [Save pd noarch ''1.2'' ''x'' [1, 2]] (fs_setup None)
   in fs_current pd noarch (fs_setup (files s)) = Some ''1.2''"
proof -
  have c: "list_all clean_op [Save pd noarch ''1.2'' ''x'' [1, 2]]" by (simp add: clean_op_def clean_version_def is_ws_def)
  have "fs_current pd noarch (fold fs_step [Save pd noarch ''1.2'' ''x'' [1, 2]] (fs_setup None)) = Some ''1.2''"
    using fs.run_refines [OF new_fs_refines c] by (simp add: fs.refines_def fs_step_eq spec_step_def)
  with restart_keeps_packages [OF c, of pd noarch] show ?thesis by (simp add: Let_def)
qed

end
