(* ===== verification/WsClient.thy ===== *)
theory WsClient
  imports PyStr "HOL-Library.Word"
begin

text \<open>
  The request/response layer of \<open>WebsocketConnectedClientEntry\<close> and the decoding of incoming messages
  (\<open>WebsocketServer.__on_message\<close>): message ids, the table of awaited messages, time-outs. Several requests can be
  in flight, so a request is begun, answered and finished in steps of their own. The objects the requests
  wait on are shared between the table and the waiting task and live in a store. Requests are numbered by the object
  they wait on.
\<close>

datatype message = Text string | Binary "8 word list"

section \<open>Encoding\<close>

definition MESSAGE_IDS :: int where "MESSAGE_IDS = 100000"

definition bytes4 :: "int \<Rightarrow> 8 word list" where
  "bytes4 n = [word_of_int (n div 2 ^ 24), word_of_int (n div 2 ^ 16), word_of_int (n div 2 ^ 8), word_of_int n]"

definition from_bytes :: "8 word list \<Rightarrow> int" where
  "from_bytes bs = fold (\<lambda>b a. a * 256 + uint b) bs 0"

text \<open>\<open>__send_message\<close>: what goes over the wire; a binary message without a command is not sent.\<close>

definition encode_message :: "int \<Rightarrow> message \<Rightarrow> int option \<Rightarrow> message option" where
  "encode_message mid msg byte_command =
     (case msg of
        Text s \<Rightarrow> Some (Text (show_int mid @ '';'' @ s))
      | Binary b \<Rightarrow> map_option (\<lambda>c. Binary (bytes4 mid @ bytes4 c @ b)) byte_command)"

text \<open>\<open>__on_message\<close> up to the call of the entry: a message without separator raises an \<open>IndexError\<close> nobody catches.\<close>

definition decode_message :: "message \<Rightarrow> (int \<times> message) result" where
  "decode_message msg =
     (case msg of
        Text s \<Rightarrow>
          (case split_once (CHR '';'') s of
             a # rest \<Rightarrow> res_bind (parse_int a) (\<lambda>i. case rest of [] \<Rightarrow> Inl IndexError | b # _ \<Rightarrow> Inr (i, Text b))
           | [] \<Rightarrow> Inl ValueError)
      | Binary b \<Rightarrow> Inr (from_bytes (take 4 b), Binary (drop 4 b)))"

section \<open>The entry of a client\<close>

datatype ws_error = WorkerRemoved | ConnectionClosed | WorkerTimeout | MessageKeyError

record ws_entry =
  worker_instance :: "nat option"
  connection_open :: bool
  fail_counter :: nat
  received_messages :: "(int, nat) dict"
  message_objects :: "nat \<Rightarrow> message option"
  next_object :: nat
  message_id_counter :: int
  last_message_received_at :: int
  sent :: "message list"

definition new_ws_entry :: "nat option \<Rightarrow> ws_entry" where
  "new_ws_entry worker = \<lparr>worker_instance = worker, connection_open = True, fail_counter = 0, received_messages = [],
     message_objects = (\<lambda>_. None), next_object = 0, message_id_counter = 0, last_message_received_at = 0, sent = []\<rparr>"

definition get_new_message_id :: "ws_entry \<Rightarrow> int \<times> ws_entry" where
  "get_new_message_id e =
     (let c = (message_id_counter e + 1) mod MESSAGE_IDS; c' = (if c = MESSAGE_IDS then 1 else c)
      in (c', e\<lparr>message_id_counter := c'\<rparr>))"

definition set_message_response :: "int \<Rightarrow> int \<Rightarrow> message \<Rightarrow> ws_entry \<Rightarrow> ws_entry" where
  "set_message_response now mid msg e =
     (case map_of (received_messages e) mid of
        None \<Rightarrow> e
      | Some r \<Rightarrow> e\<lparr>message_objects := (message_objects e)(r := Some msg), last_message_received_at := now\<rparr>)"

definition on_message :: "int \<Rightarrow> message \<Rightarrow> ws_entry \<Rightarrow> py_error option \<times> ws_entry" where
  "on_message now msg e =
     (case decode_message msg of
        Inl ValueError \<Rightarrow> (None, e)
      | Inl err \<Rightarrow> (Some err, e)
      | Inr (mid, response) \<Rightarrow> (None, set_message_response now mid response e))"

text \<open>\<open>send_and_wait\<close> up to the waiting. The caller is a worker instance or the web interface.\<close>

datatype ws_caller = Madmin | Instance "nat option"

definition begin_request :: "ws_caller \<Rightarrow> message \<Rightarrow> int option \<Rightarrow> ws_entry \<Rightarrow> (ws_error + int \<times> nat) \<times> ws_entry" where
  "begin_request caller msg byte_command e =
     (if worker_instance e = None \<or> Instance (worker_instance e) \<noteq> caller \<and> caller \<noteq> Madmin then (Inl WorkerRemoved, e)
      else if \<not> connection_open e then (Inl ConnectionClosed, e)
      else (let (mid, e1) = get_new_message_id e; r = next_object e1;
                e2 = e1\<lparr>message_objects := (message_objects e1)(r := None), next_object := r + 1,
                        received_messages := AList.update mid r (received_messages e1)\<rparr>
            in (Inr (mid, r), (case encode_message mid msg byte_command of None \<Rightarrow> e2 | Some w \<Rightarrow> e2\<lparr>sent := sent e2 @ [w]\<rparr>))))"

text \<open>The \<open>finally\<close> clause; a missing key raises.\<close>

definition clean_up :: "int \<Rightarrow> ws_entry \<Rightarrow> bool \<times> ws_entry" where
  "clean_up mid e = (map_of (received_messages e) mid \<noteq> None, e\<lparr>received_messages := AList.delete mid (received_messages e)\<rparr>)"

text \<open>What a waiting request ends with: its answer when its event is set, a time-out otherwise.\<close>

definition end_request :: "int \<Rightarrow> nat \<Rightarrow> ws_entry \<Rightarrow> (ws_error + message option) \<times> ws_entry" where
  "end_request mid r e =
     (let (res, e1) =
        (case message_objects e r of
           Some msg \<Rightarrow> (Inr (Some msg), e\<lparr>fail_counter := 0\<rparr>)
         | None \<Rightarrow>
            (let e1 = e\<lparr>fail_counter := fail_counter e + 1\<rparr>
             in if fail_counter e1 > 5 then (Inl WorkerTimeout, e1\<lparr>connection_open := False\<rparr>) else (Inr None, e1)));
          (found, e2) = clean_up mid e1
      in (if found then res else Inl MessageKeyError, e2))"

section \<open>Many requests\<close>

datatype ws_op = Begin ws_caller message "int option" | Incoming int message | End nat

record ws_conn =
  entry :: ws_entry
  pending :: "(nat \<times> int) list"
  replies :: "(nat \<times> (ws_error + message option)) list"

text \<open>\<open>pending\<close> are the requests in flight with their ids, \<open>replies\<close> what the finished ones returned.\<close>

definition ws_step :: "ws_op \<Rightarrow> ws_conn \<Rightarrow> ws_conn" where
  "ws_step op c =
     (case op of
        Begin caller msg bc \<Rightarrow>
          (case begin_request caller msg bc (entry c) of
             (Inl err, e) \<Rightarrow> c\<lparr>entry := e\<rparr>
           | (Inr (mid, r), e) \<Rightarrow> c\<lparr>entry := e, pending := (r, mid) # pending c\<rparr>)
      | Incoming now msg \<Rightarrow> c\<lparr>entry := snd (on_message now msg (entry c))\<rparr>
      | End r \<Rightarrow>
          (case map_of (pending c) r of
             None \<Rightarrow> c
           | Some mid \<Rightarrow>
              (let (res, e) = end_request mid r (entry c)
               in c\<lparr>entry := e, pending := AList.delete r (pending c), replies := (r, res) # replies c\<rparr>)))"

definition ws_run :: "ws_op list \<Rightarrow> ws_conn \<Rightarrow> ws_conn" where
  "ws_run ops = fold ws_step ops"

definition new_conn :: "nat option \<Rightarrow> ws_conn" where
  "new_conn worker = \<lparr>entry = new_ws_entry worker, pending = [], replies = []\<rparr>"

section \<open>Encoding and decoding\<close>

lemma show_int_no_semicolon: "CHR '';'' \<notin> set (show_int i)"
  using show_int_clean by blast

lemma from_bytes_bytes4:
  assumes "0 \<le> n" "n < 2 ^ 32"
  shows "from_bytes (bytes4 n) = n"
proof -
  have u: "uint (word_of_int k :: 8 word) = k mod 256" for k by (simp add: uint_word_of_int take_bit_eq_mod)
  define a b c where "a = n div 256" and "b = a div 256" and "c = b div 256"
  have d: "n div 65536 = b" "n div 16777216 = c" unfolding a_def b_def c_def by (simp_all flip: zdiv_zmult2_eq)
  have "0 \<le> c" "c < 256" using assms by (simp_all add: div_less_iff_less_mult pos_imp_zdiv_nonneg_iff flip: d(2))
  then have c: "c mod 256 = c" by simp
  have "from_bytes (bytes4 n) = ((c * 256 + b mod 256) * 256 + a mod 256) * 256 + n mod 256"
    by (simp add: from_bytes_def bytes4_def u d c flip: a_def)
  moreover have "c * 256 + b mod 256 = b" unfolding c_def by (rule div_mult_mod_eq)
  moreover have "b * 256 + a mod 256 = a" unfolding b_def by (rule div_mult_mod_eq)
  moreover have "a * 256 + n mod 256 = n" unfolding a_def by (rule div_mult_mod_eq)
  ultimately show ?thesis by simp
qed

text \<open>
  What one side encodes the other side decodes: a text message comes back with its id and its text, whatever
  separators the text contains, and a binary one with its id, followed by its command and its payload.
\<close>

theorem message_roundtrip:
  "(\<forall>w. encode_message mid (Text s) bc = Some w \<longrightarrow> decode_message w = Inr (mid, Text s)) \<and>
   (0 \<le> mid \<and> mid < 2 ^ 32 \<longrightarrow> (\<forall>b c w. encode_message mid (Binary b) (Some c) = Some w \<longrightarrow>
      decode_message w = Inr (mid, Binary (bytes4 c @ b))))"
proof -
  have sep: "CHR '';'' \<notin> set (show_int mid)" by (rule show_int_no_semicolon)
  have "from_bytes (bytes4 mid) = mid" if "0 \<le> mid" "mid < 2 ^ 32"
    using that by (rule from_bytes_bytes4)
  moreover have "length (bytes4 mid) = 4" by (simp add: bytes4_def)
  ultimately show ?thesis
    using split_once_cons [OF sep, of s] by (auto simp: encode_message_def decode_message_def parse_int_show_int)
qed

lemma message_roundtrip_witness:
  "decode_message (Text ''7;a;b'') = Inr (7, Text ''a;b'')"
proof -
  have e: "encode_message 7 (Text ''a;b'') None = Some (Text ''7;a;b'')" by code_simp
  with message_roundtrip [of 7 "''a;b''" None] show ?thesis by simp
qed

section \<open>Every request gets its own answer\<close>

text \<open>The ids come round after 100000 requests; a request must not be in flight for that long.\<close>

fun window_ok :: "ws_op list \<Rightarrow> ws_conn \<Rightarrow> bool" where
  "window_ok [] c = True"
| "window_ok (op # ops) c =
     ((case op of Begin _ _ _ \<Rightarrow> list_all (\<lambda>(r, mid). int (next_object (entry c)) < int r + MESSAGE_IDS) (pending c) | _ \<Rightarrow> True)
      \<and> window_ok ops (ws_step op c))"

definition request_id :: "nat \<Rightarrow> int" where
  "request_id r = (int r + 1) mod MESSAGE_IDS"

definition ws_inv :: "ws_conn \<Rightarrow> bool" where
  "ws_inv c \<longleftrightarrow> message_id_counter (entry c) = int (next_object (entry c)) mod MESSAGE_IDS \<and>
     dict_wf (pending c) \<and> dict_wf (received_messages (entry c)) \<and>
     (\<forall>r mid. map_of (pending c) r = Some mid \<longrightarrow> mid = request_id r \<and> r < next_object (entry c) \<and>
        int (next_object (entry c)) \<le> int r + MESSAGE_IDS) \<and>
     (\<forall>r mid. map_of (received_messages (entry c)) mid = Some r \<longleftrightarrow> map_of (pending c) r = Some mid)"

lemma request_id_inj:
  assumes "request_id r = request_id r'" "\<bar>int r - int r'\<bar> < MESSAGE_IDS"
  shows "r = r'"
proof (rule ccontr)
  assume ne: "r \<noteq> r'"
  have "MESSAGE_IDS dvd int r - int r'" using assms(1) by (simp add: request_id_def mod_eq_dvd_iff)
  then have "MESSAGE_IDS \<le> \<bar>int r - int r'\<bar>" using ne by (intro zdvd_imp_le) auto
  with assms(2) show False by simp
qed

lemma new_message_id: "fst (get_new_message_id e) = (message_id_counter e + 1) mod MESSAGE_IDS"
    "snd (get_new_message_id e) = e\<lparr>message_id_counter := (message_id_counter e + 1) mod MESSAGE_IDS\<rparr>"
proof -
  have "(message_id_counter e + 1) mod MESSAGE_IDS \<noteq> MESSAGE_IDS"
    using pos_mod_bound [of MESSAGE_IDS "message_id_counter e + 1"] by (simp add: MESSAGE_IDS_def)
  then show "fst (get_new_message_id e) = (message_id_counter e + 1) mod MESSAGE_IDS"
    "snd (get_new_message_id e) = e\<lparr>message_id_counter := (message_id_counter e + 1) mod MESSAGE_IDS\<rparr>"
    by (simp_all add: get_new_message_id_def Let_def)
qed

lemma begin_request_Inr:
  assumes "begin_request caller msg bc e = (Inr (mid, r), e')"
  shows "r = next_object e \<and> mid = (message_id_counter e + 1) mod MESSAGE_IDS \<and> message_id_counter e' = mid \<and>
    next_object e' = r + 1 \<and> received_messages e' = AList.update mid r (received_messages e) \<and>
    message_objects e' = (message_objects e)(r := None)"
  using assms by (auto simp: begin_request_def Let_def new_message_id case_prod_beta split: if_splits option.split)

lemma begin_request_Inl: "begin_request caller msg bc e = (Inl err, e') \<Longrightarrow> e' = e"
  by (auto simp: begin_request_def Let_def split: if_splits prod.splits)

lemma ws_inv_begin:
  assumes inv: "ws_inv c" and win: "list_all (\<lambda>(r, mid). int (next_object (entry c)) < int r + MESSAGE_IDS) (pending c)"
    and b: "begin_request caller msg bc (entry c) = (Inr (mid, r), e)"
  shows "ws_inv (c\<lparr>entry := e, pending := (r, mid) # pending c\<rparr>) \<and> mid = request_id r \<and> r = next_object (entry c)"
proof -
  note b = begin_request_Inr [OF b]
  have cnt: "message_id_counter (entry c) = int (next_object (entry c)) mod MESSAGE_IDS" using inv by (simp add: ws_inv_def)
  have mid: "mid = request_id r" using b cnt by (simp add: request_id_def mod_add_left_eq)
  have r: "r = next_object (entry c)" using b by simp
  have old: "mid' = request_id x \<and> x < r \<and> int r < int x + MESSAGE_IDS" if "map_of (pending c) x = Some mid'" for x mid'
    using inv win that r by (auto simp: ws_inv_def list_all_iff dest: map_of_SomeD)
  have fresh: "mid' \<noteq> mid" if "map_of (pending c) x = Some mid'" for x mid'
    using old [OF that] request_id_inj [of x r] mid by auto
  have none: "map_of (pending c) r = None" using old [of r] by (cases "map_of (pending c) r") auto
  have "map_of (AList.update mid r (received_messages (entry c))) m = Some x \<longleftrightarrow> (if x = r then m = mid else map_of (pending c) x = Some m)"
    for m x
  proof (cases "m = mid")
    case True
    then show ?thesis using fresh [of x] by (auto simp: dict_simps)
  next
    case False
    moreover have "map_of (received_messages (entry c)) m = Some x \<longleftrightarrow> map_of (pending c) x = Some m"
      using inv by (simp add: ws_inv_def)
    ultimately show ?thesis using none by (auto simp: dict_simps)
  qed
  moreover have "dict_wf ((r, mid) # pending c)" using inv none by (simp add: ws_inv_def dict_wf_def map_of_eq_None_iff)
  moreover have "int (Suc r) mod MESSAGE_IDS = request_id r" by (simp add: request_id_def add.commute)
  moreover have "dict_wf (AList.update mid r (received_messages (entry c)))" using inv by (simp add: ws_inv_def)
  moreover have "m = request_id x \<and> x < Suc r \<and> int (Suc r) \<le> int x + MESSAGE_IDS"
    if "map_of ((r, mid) # pending c) x = Some m" for x m
    using that old [of x m] mid by (auto simp: MESSAGE_IDS_def split: if_splits)
  ultimately show ?thesis
    using b mid r unfolding ws_inv_def by simp blast
qed

lemma ws_inv_entry:
  assumes "ws_inv c" "message_id_counter e = message_id_counter (entry c)" "next_object e = next_object (entry c)"
    and "received_messages e = received_messages (entry c)"
  shows "ws_inv (c\<lparr>entry := e\<rparr>)"
  using assms by (simp add: ws_inv_def)

lemma on_message_fields:
  "message_id_counter (snd (on_message now m e)) = message_id_counter e" "next_object (snd (on_message now m e)) = next_object e"
  "received_messages (snd (on_message now m e)) = received_messages e"
  by (simp_all add: on_message_def set_message_response_def split: sum.split py_error.split option.split prod.split)

lemma ws_inv_end:
  assumes inv: "ws_inv c" and m: "map_of (pending c) r = Some mid" and e: "end_request mid r (entry c) = (res, e')"
  shows "ws_inv (c\<lparr>entry := e', pending := AList.delete r (pending c), replies := x\<rparr>) \<and> res \<noteq> Inl MessageKeyError"
proof -
  have "map_of (received_messages (entry c)) mid = Some r" using inv m by (simp add: ws_inv_def)
  then have e': "message_id_counter e' = message_id_counter (entry c)" "next_object e' = next_object (entry c)"
      "received_messages e' = AList.delete mid (received_messages (entry c))" "res \<noteq> Inl MessageKeyError"
    using e by (auto simp: end_request_def clean_up_def Let_def split: option.splits if_splits)
  have inj: "m' = mid \<longleftrightarrow> x = r" if "map_of (pending c) x = Some m'" for x m'
    using inv m that unfolding ws_inv_def by (metis option.inject)
  have iff: "map_of (received_messages e') m' = Some x \<longleftrightarrow> map_of (AList.delete r (pending c)) x = Some m'" for m' x
    using inv inj [of x m'] by (auto simp: e'(3) ws_inv_def dict_simps)
  have sub: "map_of (pending c) x = Some m'" if "map_of (AList.delete r (pending c)) x = Some m'" for x m'
    using that by (simp add: dict_simps split: if_splits)
  have "dict_wf (AList.delete r (pending c))" "dict_wf (received_messages e')" using inv by (simp_all add: ws_inv_def e'(3))
  then show ?thesis
    using inv iff sub e'(1,2,4) by (simp add: ws_inv_def)
qed

lemma ws_step_inv:
  assumes inv: "ws_inv c" and win: "window_ok [op] c"
  shows "ws_inv (ws_step op c)"
proof (cases op)
  case (Begin caller msg bc)
  show ?thesis
  proof (cases "begin_request caller msg bc (entry c)")
    case (Pair x e)
    show ?thesis
    proof (cases x)
      case (Inl err)
      with Pair begin_request_Inl [of caller msg bc "entry c" err e] inv show ?thesis by (simp add: Begin ws_step_def)
    next
      case (Inr y)
      obtain mid r where y: "y = (mid, r)" by (cases y)
      have "list_all (\<lambda>(r, mid). int (next_object (entry c)) < int r + MESSAGE_IDS) (pending c)" using win by (simp add: Begin)
      from conjunct1 [OF ws_inv_begin [OF inv this Pair [unfolded Inr y]]] show ?thesis by (simp add: Begin ws_step_def Pair Inr y)
    qed
  qed
next
  case (Incoming now msg)
  have "ws_inv (c\<lparr>entry := snd (on_message now msg (entry c))\<rparr>)" by (rule ws_inv_entry [OF inv]) (rule on_message_fields)+
  then show ?thesis by (simp add: Incoming ws_step_def)
next
  case (End r)
  show ?thesis
  proof (cases "map_of (pending c) r")
    case (Some mid)
    obtain res e where e: "end_request mid r (entry c) = (res, e)" by (cases "end_request mid r (entry c)")
    from ws_inv_end [OF inv Some e] show ?thesis by (simp add: End ws_step_def Some e)
  qed (simp add: End ws_step_def inv)
qed

lemma window_ok_append: "window_ok (xs @ ys) c \<longleftrightarrow> window_ok xs c \<and> window_ok ys (ws_run xs c)"
  by (induction xs arbitrary: c) (auto simp: ws_run_def)

lemma ws_run_inv: "ws_inv c \<Longrightarrow> window_ok ops c \<Longrightarrow> ws_inv (ws_run ops c)"
  by (induction ops arbitrary: c) (auto simp: ws_run_def ws_step_inv)

lemma new_conn_inv: "ws_inv (new_conn worker)"
  by (simp add: ws_inv_def new_conn_def new_ws_entry_def MESSAGE_IDS_def)

text \<open>The last message of a history that answers an id.\<close>

definition answers :: "int \<Rightarrow> ws_op \<Rightarrow> message option" where
  "answers mid op = (case op of
     Incoming now msg \<Rightarrow> (case decode_message msg of Inr (i, resp) \<Rightarrow> if i = mid then Some resp else None | Inl _ \<Rightarrow> None)
   | _ \<Rightarrow> None)"

definition last_answer :: "int \<Rightarrow> ws_op list \<Rightarrow> message option" where
  "last_answer mid ops = fold (\<lambda>op acc. case answers mid op of None \<Rightarrow> acc | Some m \<Rightarrow> Some m) ops None"

lemma last_answer_snoc: "last_answer mid (ops @ [op]) = (case answers mid op of None \<Rightarrow> last_answer mid ops | Some m \<Rightarrow> Some m)"
  by (cases "answers mid op") (simp_all add: last_answer_def)

lemma step_keeps_object:
  assumes inv: "ws_inv c" and p: "map_of (pending c) r = Some mid" "map_of (pending (ws_step op c)) r \<noteq> None"
    and win: "window_ok [op] c"
  shows "map_of (pending (ws_step op c)) r = Some mid \<and> message_objects (entry (ws_step op c)) r =
    (case answers mid op of None \<Rightarrow> message_objects (entry c) r | Some m \<Rightarrow> Some m)"
proof (cases op)
  case (Begin caller msg bc)
  have r: "r < next_object (entry c)" using inv p(1) by (simp add: ws_inv_def)
  show ?thesis
  proof (cases "begin_request caller msg bc (entry c)")
    case (Pair x e)
    show ?thesis
    proof (cases x)
      case (Inl err)
      with Pair begin_request_Inl [of caller msg bc "entry c" err e] p show ?thesis by (simp add: Begin ws_step_def answers_def)
    next
      case (Inr y)
      obtain mid' r' where y: "y = (mid', r')" by (cases y)
      from begin_request_Inr [OF Pair [unfolded Inr y]] r p(1) show ?thesis
        by (simp add: Begin ws_step_def Pair Inr y answers_def)
    qed
  qed
next
  case (Incoming now msg)
  have iff: "map_of (received_messages (entry c)) i = Some x \<longleftrightarrow> map_of (pending c) x = Some i" for i x
    using inv by (simp add: ws_inv_def)
  have s: "ws_step (Incoming now msg) c = c\<lparr>entry := snd (on_message now msg (entry c))\<rparr>" by (simp add: ws_step_def)
  show ?thesis
  proof (cases "decode_message msg")
    case (Inl err)
    then show ?thesis using p by (cases err) (simp_all add: s Incoming on_message_def answers_def)
  next
    case (Inr y)
    obtain i resp where y: "y = (i, resp)" by (cases y)
    show ?thesis
    proof (cases "map_of (received_messages (entry c)) i")
      case None
      then have "i \<noteq> mid" using iff [of mid r] p(1) by auto
      with None Inr y p(1) show ?thesis by (simp add: s Incoming on_message_def answers_def set_message_response_def)
    next
      case (Some x)
      then have "(x = r) = (i = mid)" using iff [of i x] iff [of mid r] p(1) by auto
      with Some Inr y p(1) show ?thesis by (auto simp: s Incoming on_message_def answers_def set_message_response_def)
    qed
  qed
next
  case (End r')
  show ?thesis
  proof (cases "map_of (pending c) r'")
    case (Some mid')
    obtain res e where e: "end_request mid' r' (entry c) = (res, e)" by (cases "end_request mid' r' (entry c)")
    then have "message_objects e = message_objects (entry c)"
      by (auto simp: end_request_def clean_up_def Let_def split: option.splits if_splits)
    with p Some e show ?thesis by (auto simp: End ws_step_def answers_def dict_simps split: if_splits)
  qed (use p in \<open>simp add: End ws_step_def answers_def\<close>)
qed

lemma pending_back:
  assumes "map_of (pending (ws_step op c)) r \<noteq> None" "r < next_object (entry c)"
  shows "map_of (pending c) r \<noteq> None"
proof (cases op)
  case (Begin caller msg bc)
  show ?thesis
  proof (cases "begin_request caller msg bc (entry c)")
    case (Pair x e)
    with assms show ?thesis
      by (cases x) (auto simp: Begin ws_step_def dest!: begin_request_Inr split: if_splits)
  qed
next
  case (End r')
  with assms show ?thesis
    by (cases "map_of (pending c) r'") (auto simp: ws_step_def case_prod_beta Let_def dict_simps split: if_splits)
qed (use assms in \<open>simp add: ws_step_def\<close>)

lemma next_object_mono: "next_object (entry c) \<le> next_object (entry (ws_step op c))"
proof (cases op)
  case (Begin caller msg bc)
  then show ?thesis
    by (cases "begin_request caller msg bc (entry c)"; cases "fst (begin_request caller msg bc (entry c))")
      (auto simp: ws_step_def dest: begin_request_Inr begin_request_Inl)
next
  case (Incoming now msg)
  then show ?thesis by (simp add: ws_step_def on_message_fields)
next
  case (End r)
  then show ?thesis
    by (cases "map_of (pending c) r")
      (auto simp: ws_step_def end_request_def clean_up_def Let_def split: option.split prod.split if_split)
qed

lemma next_object_run: "next_object (entry c) \<le> next_object (entry (ws_run ops c))"
proof (induction ops arbitrary: c)
  case (Cons op ops)
  from Cons.IH [of "ws_step op c"] next_object_mono [of c op] show ?case by (simp add: ws_run_def)
qed (simp add: ws_run_def)

lemma ws_run_snoc: "ws_run (ops @ [op]) c = ws_step op (ws_run ops c)"
  by (simp add: ws_run_def)

lemma object_is_last_answer:
  assumes "ws_inv c" "window_ok ops c" "map_of (pending c) r = Some mid" "message_objects (entry c) r = None"
    and "map_of (pending (ws_run ops c)) r \<noteq> None"
  shows "map_of (pending (ws_run ops c)) r = Some mid \<and> message_objects (entry (ws_run ops c)) r = last_answer mid ops"
  using assms(2,5)
proof (induction ops rule: rev_induct)
  case Nil
  then show ?case using assms by (simp add: ws_run_def last_answer_def)
next
  case (snoc op ops)
  let ?c = "ws_run ops c"
  have win: "window_ok ops c" "window_ok [op] ?c" using snoc.prems(1) by (simp_all only: window_ok_append)
  have inv: "ws_inv ?c" by (rule ws_run_inv [OF assms(1) win(1)])
  have "r < next_object (entry c)" using assms(1,3) by (simp add: ws_inv_def)
  then have "r < next_object (entry ?c)" using next_object_run [of c ops] by simp
  from pending_back [OF snoc.prems(2) [unfolded ws_run_snoc] this] have p: "map_of (pending ?c) r \<noteq> None" .
  note IH = snoc.IH [OF win(1) p]
  from step_keeps_object [OF inv conjunct1 [OF IH] snoc.prems(2) [unfolded ws_run_snoc] win(2)] IH
  show ?case unfolding ws_run_snoc last_answer_snoc by (cases "answers mid op") simp_all
qed



text \<open>
  A device that does not answer: five requests in a row come back empty, the sixth closes the connection and
  raises, and the next one is refused; an answer in between starts the count again.
\<close>

theorem six_timeouts_close:
  "(let ask = [Begin Madmin (Text ''x'') None]; silent = (\<lambda>a n. concat (map (\<lambda>i. ask @ [End i]) [a..<n]));
        c = ws_run (silent 0 6) (new_conn (Some 0));
        d = ws_run (silent 0 5 @ ask @ [Incoming 9 (Text ''6;OK''), End 5] @ silent 6 11) (new_conn (Some 0))
    in map snd (rev (replies c)) = replicate 5 (Inr None) @ [Inl WorkerTimeout] \<and> \<not> connection_open (entry c) \<and>
       fst (begin_request Madmin (Text ''x'') None (entry c)) = Inl ConnectionClosed \<and>
       connection_open (entry d) \<and> fail_counter (entry d) = 5)"
  by code_simp

end
