(* ===== verification/Updater.thy ===== *)
theory Updater
  imports MadApk
begin

text \<open>
  The device job queue of \<open>mapadroid/updater/updater.py\<close>: jobs of several sub jobs, retries, waiting times,
  automatic jobs, the log and the workers that drain the queue. Job entries are objects shared by the log,
  the queue and the table of running jobs, so they live in a store. A turn of a worker has two parts, taking
  an entry (up to the release of the lock) and working on it, which may interleave with other workers. What
  the device answers is a record of functions; times are seconds.
\<close>

section \<open>Jobs\<close>

datatype job_status = NONE | INIT | PENDING | STARTING | PROCESSING | NOT_CONNECTED | NOT_REQUIRED | NOT_SUPPORTED
  | CANCELLED | INTERRUPTED | FAILING | FAILED | FUTURE | SUCCESS

datatype job_type = INSTALLATION | REBOOT | RESTART | STOP | PASSTHROUGH | START | SMART_UPDATE | CHAIN

record sub_job =
  sj_type :: job_type
  sj_syntax :: string
  sj_waittime :: "int option"

datatype algo_type = LOOP | DAILY

datatype algo_value = AlgoInt int | AlgoStr string

record autocommand =
  ac_redo :: bool
  ac_algo_type :: algo_type
  ac_algo_value :: algo_value
  ac_origins :: string
  ac_job :: string
  ac_redo_on_error :: bool

record job_entry =
  job_id :: string
  job_origin :: string
  job_name :: string
  sub_jobs :: "sub_job list"
  last_status :: job_status
  job_counter :: int
  auto_command :: "autocommand option"
  processing_date :: "int option"
  returning :: "string option"
  sub_job_index :: nat

section \<open>State\<close>

record updater =
  jobs :: "nat \<Rightarrow> job_entry"
  next_job :: nat
  job_queue :: "nat list"
  job_log :: "(string, nat) dict"
  available_jobs :: "(string, sub_job list) dict"
  running_jobs :: "(string, nat) dict"

definition set_job :: "nat \<Rightarrow> (job_entry \<Rightarrow> job_entry) \<Rightarrow> updater \<Rightarrow> updater" where
  "set_job r f u = u\<lparr>jobs := (jobs u)(r := f (jobs u r))\<rparr>"

definition queue_put :: "nat \<Rightarrow> updater \<Rightarrow> updater" where
  "queue_put r u = u\<lparr>job_queue := job_queue u @ [r]\<rparr>"

text \<open>\<open>__update_log\<close>; writing the file is not modelled.\<close>

definition update_log :: "nat \<Rightarrow> updater \<Rightarrow> updater" where
  "update_log r u =
     (if map_of (job_log u) (job_id (jobs u r)) = None
      then u\<lparr>job_log := AList.update (job_id (jobs u r)) r (job_log u)\<rparr> else u)"

definition restart_entry :: "int \<Rightarrow> job_entry \<Rightarrow> job_entry" where
  "restart_entry now e =
     e\<lparr>job_counter := 0, sub_job_index := 0,
       processing_date := (case processing_date e of None \<Rightarrow> None | Some d \<Rightarrow> if d < now then None else Some d),
       last_status := PENDING\<rparr>"

definition restart_job :: "int \<Rightarrow> string \<Rightarrow> updater \<Rightarrow> updater" where
  "restart_job now i u =
     (case map_of (job_log u) i of
        None \<Rightarrow> u
      | Some r \<Rightarrow> update_log r (queue_put r (set_job r (restart_entry now) u)))"

definition kill_old_job :: "string \<Rightarrow> updater \<Rightarrow> updater" where
  "kill_old_job i u =
     (case map_of (job_log u) i of
        None \<Rightarrow> u
      | Some r \<Rightarrow>
          if last_status (jobs u r) \<in> {PENDING, STARTING, PROCESSING, NOT_CONNECTED, FUTURE, NOT_REQUIRED, FAILING}
          then set_job r (\<lambda>e. e\<lparr>last_status := CANCELLED\<rparr>) u
          else if auto_command (jobs u r) \<noteq> None then u\<lparr>job_log := AList.delete i (job_log u)\<rparr> else u)"

definition kill_old_jobs :: "updater \<Rightarrow> updater" where
  "kill_old_jobs u = fold kill_old_job (map fst (job_log u)) u"

definition add_job :: "string \<Rightarrow> string \<Rightarrow> string \<Rightarrow> autocommand option \<Rightarrow> updater \<Rightarrow> bool \<times> updater" where
  "add_job time origin name auto u =
     (case map_of (available_jobs u) name of
        None \<Rightarrow> (False, u)
      | Some subs \<Rightarrow>
          (let entry = \<lparr>job_id = time @ ''_'' @ origin @ ''_'' @ name, job_origin = origin, job_name = name, sub_jobs = subs,
                 last_status = INIT, job_counter = 0, auto_command = auto, processing_date = None, returning = None,
                 sub_job_index = 0\<rparr>;
               r = next_job u;
               u1 = u\<lparr>jobs := (jobs u)(r := entry), next_job := r + 1\<rparr>
           in (True, update_log r (queue_put r u1))))"

definition delete_log_id :: "string \<Rightarrow> updater \<Rightarrow> bool \<times> updater" where
  "delete_log_id i u =
     (if map_of (job_log u) i = None then (True, u)
      else if list_ex (\<lambda>(origin, r). job_id (jobs u r) = i) (running_jobs u) then (False, u)
      else (True, u\<lparr>job_log := AList.delete i (job_log u)\<rparr>))"

definition success_states :: "job_status set" where
  "success_states = {SUCCESS, NOT_REQUIRED, NOT_SUPPORTED}"

definition delete_success :: "string \<Rightarrow> updater \<Rightarrow> updater" where
  "delete_success i u =
     (case map_of (job_log u) i of
        None \<Rightarrow> u
      | Some r \<Rightarrow>
          if last_status (jobs u r) \<in> success_states
             \<and> (case auto_command (jobs u r) of None \<Rightarrow> True | Some a \<Rightarrow> \<not> ac_redo a)
          then u\<lparr>job_log := AList.delete i (job_log u)\<rparr> else u)"

definition delete_log :: "bool \<Rightarrow> updater \<Rightarrow> updater" where
  "delete_log only_success u =
     (if only_success then fold delete_success (map fst (job_log u)) u
      else fold (\<lambda>i u. snd (delete_log_id i u)) (map fst (job_log u)) u)"

definition get_log :: "bool \<Rightarrow> updater \<Rightarrow> job_entry list" where
  "get_log including_auto_jobs u =
     filter (\<lambda>e. (auto_command e \<noteq> None) = including_auto_jobs) (map (\<lambda>(i, r). jobs u r) (job_log u))"

section \<open>Sub jobs\<close>

text \<open>
  The device; \<open>None\<close> is an exception. A package that is read from the storage is sent as data, named here by its
  file name.
\<close>

record device_comm =
  install_apk :: "string \<Rightarrow> bool option"
  install_bundle :: "string \<Rightarrow> bool option"
  reboot :: "bool option"
  restart_app :: "bool option"
  stop_app :: "bool option"
  start_app :: "bool option"
  passthrough :: "string \<Rightarrow> string option"
  send_apk :: "string option \<Rightarrow> bool option"
  send_bundle :: "string option \<Rightarrow> bool option"

text \<open>What the storage answers about a package, and the sources of the supported versions.\<close>

record apk_source =
  stored_packages :: "apk_type \<Rightarrow> mad_packages option"
  version_info :: version_sources

fun remove_double_space :: "string \<Rightarrow> string" where
  "remove_double_space (a # b # cs) =
     (if a = CHR '' '' \<and> b = CHR '' '' then remove_double_space cs else a # remove_double_space (b # cs))"
| "remove_double_space cs = cs"

definition rgc_or :: "string \<Rightarrow> bool \<Rightarrow> bool" where
  "rgc_or syntax_str r = (if \<not> contains_str ''remotegpscontroller'' (lower syntax_str) then r else True)"

text \<open>
  \<open>re.search\<close> of \<open>\[(\S+)]\<close> and of \<open>versionName=([\d.]+)\<close>: the leftmost match, the group as long as it can be.
\<close>

definition bracket_group_here :: "string \<Rightarrow> string option" where
  "bracket_group_here s =
     (case dropWhile (\<lambda>c. c \<noteq> CHR '']'') (rev (takeWhile (\<lambda>c. \<not> is_ws c) s)) of
        [] \<Rightarrow> None
      | [_] \<Rightarrow> None
      | _ # g # gs \<Rightarrow> Some (rev (g # gs)))"

fun bracket_group :: "string \<Rightarrow> string option" where
  "bracket_group [] = None"
| "bracket_group (c # cs) =
     (if c = CHR ''['' then (case bracket_group_here cs of Some g \<Rightarrow> Some g | None \<Rightarrow> bracket_group cs) else bracket_group cs)"

fun version_group :: "string \<Rightarrow> string option" where
  "version_group [] = None"
| "version_group (c # cs) =
     (let g = takeWhile (\<lambda>d. class_of d = CDigit \<or> class_of d = CDot) (drop 12 (c # cs))
      in if starts_with ''versionName='' (c # cs) \<and> g \<noteq> [] then Some g else version_group cs)"

text \<open>
  The smart update: compare what is installed with what is stored and send it if it is newer. The result is the
  outcome and the status it leaves, an exception the failure of the enclosing \<open>try\<close>.
\<close>

definition send_package :: "device_comm \<Rightarrow> apk_source \<Rightarrow> string \<Rightarrow> apk_type \<Rightarrow> apk_arch \<Rightarrow> mad_package \<Rightarrow> bool" where
  "send_package comm src raw package architecture mad_apk =
     (case stream_package (version_info src) (stored_packages src package) package architecture of
        Inl e \<Rightarrow> False
      | Inr None \<Rightarrow> True
      | Inr (Some (mime, fname, ver)) \<Rightarrow>
          (case (if mimetype mad_apk = Some ''application/zip'' then send_bundle comm fname else send_apk comm fname) of
             None \<Rightarrow> False
           | Some r \<Rightarrow> rgc_or raw r))"

definition update_package ::
  "device_comm \<Rightarrow> apk_source \<Rightarrow> string \<Rightarrow> string option \<Rightarrow> apk_type \<Rightarrow> apk_arch \<Rightarrow> mad_package \<Rightarrow> bool \<times> job_status option" where
  "update_package comm src raw installed package architecture mad_apk =
     (if filename mad_apk = None then (False, None)
      else
        (case (if package = pogo then supported_pogo_version (version_info src) architecture (version mad_apk) else Inr True) of
           Inl e \<Rightarrow> (False, None)
         | Inr False \<Rightarrow> (True, Some NOT_SUPPORTED)
         | Inr True \<Rightarrow>
            (case is_newer_version (version mad_apk) installed of
               Inl e \<Rightarrow> (False, None)
             | Inr False \<Rightarrow> (True, Some NOT_REQUIRED)
             | Inr True \<Rightarrow> (send_package comm src raw package architecture mad_apk, None))))"

definition installed_version :: "string \<Rightarrow> string option option" where
  "installed_version answer =
     (case version_group answer of
        Some v \<Rightarrow> Some (Some v)
      | None \<Rightarrow> if strip (hd (split_char (CHR 0x0A) answer)) = ''OK'' then Some None else None)"

definition smart_update :: "device_comm \<Rightarrow> apk_source \<Rightarrow> string \<Rightarrow> bool \<times> job_status option" where
  "smart_update comm src raw =
     (case (passthrough comm ''getprop ro.product.cpu.abi'', passthrough comm (''dumpsys package '' @ raw @ '' | grep versionName'')) of
        (Some arch_answer, Some ver_answer) \<Rightarrow>
          (case (bracket_group arch_answer, installed_version ver_answer) of
             (Some arch_raw, Some installed) \<Rightarrow>
               (case (apk_package raw, lookup_arch_enum (IsStr arch_raw)) of
                  (Inr package, Inr architecture) \<Rightarrow>
                    (case stored_packages src package of
                       None \<Rightarrow> (False, None)
                     | Some ps \<Rightarrow>
                        (case map_of ps architecture of
                           Some p \<Rightarrow> update_package comm src raw installed package architecture p
                         | None \<Rightarrow>
                            (case map_of ps noarch of
                               Some p \<Rightarrow> update_package comm src raw installed package noarch p
                             | None \<Rightarrow> (False, None))))
                | _ \<Rightarrow> (False, None))
           | _ \<Rightarrow> (False, None))
      | _ \<Rightarrow> (False, None))"

definition start_job_type :: "device_comm \<Rightarrow> apk_source \<Rightarrow> sub_job \<Rightarrow> job_entry \<Rightarrow> bool \<times> job_entry" where
  "start_job_type comm src sj e =
     (case sj_type sj of
        INSTALLATION \<Rightarrow>
          (let answer = (if ends_with ''.apk'' (lower (sj_syntax sj)) then install_apk comm (sj_syntax sj)
                         else if ends_with ''.zip'' (lower (sj_syntax sj)) then install_bundle comm (sj_syntax sj)
                         else Some False)
           in case answer of None \<Rightarrow> (False, e) | Some r \<Rightarrow> (rgc_or (sj_syntax sj) r, e))
      | SMART_UPDATE \<Rightarrow>
          (let (r, status) = smart_update comm src (sj_syntax sj)
           in (r, case status of None \<Rightarrow> e | Some st \<Rightarrow> e\<lparr>last_status := st\<rparr>))
      | REBOOT \<Rightarrow> (reboot comm = Some True, e)
      | RESTART \<Rightarrow> (restart_app comm = Some True, e)
      | STOP \<Rightarrow> (stop_app comm = Some True, e)
      | START \<Rightarrow> (start_app comm = Some True, e)
      | PASSTHROUGH \<Rightarrow>
          (case passthrough comm (sj_syntax sj) of
             None \<Rightarrow> (False, e)
           | Some s \<Rightarrow>
              (let answer = remove_double_space (remove_char (char_of (10 :: nat)) (remove_char (char_of (13 :: nat)) s))
               in (\<not> starts_with ''KO:'' answer, e\<lparr>returning := Some answer\<rparr>)))
      | CHAIN \<Rightarrow> (False, e))"

text \<open>
  Minutes to the next run; \<open>seconds_of_day\<close> is the clock. The seconds of a negative time difference are
  those of the next day.
\<close>

definition get_job_algo_value :: "int \<Rightarrow> algo_type \<Rightarrow> algo_value \<Rightarrow> int option result" where
  "get_job_algo_value seconds_of_day t v =
     (case (t, v) of
        (LOOP, AlgoInt i) \<Rightarrow> Inr (Some i)
      | (DAILY, AlgoStr s) \<Rightarrow>
          (case split_char (CHR '':'') s of
             [h, m] \<Rightarrow>
               res_bind (parse_int h) (\<lambda>hour. res_bind (parse_int m) (\<lambda>minute.
                 if hour < 0 \<or> 23 < hour \<or> minute < 0 \<or> 59 < minute then Inl ValueError
                 else Inr (Some (((hour * 3600 + minute * 60 - seconds_of_day) mod 86400) div 60))))
           | _ \<Rightarrow> Inr None)
      | _ \<Rightarrow> Inr None)"

section \<open>Working on a job\<close>

text \<open>The clock at the start and at the end of a turn, the device, and the configured delay in minutes.\<close>

record job_env =
  env_now :: int
  env_end :: int
  env_day_seconds :: int
  env_comm :: "device_comm option"
  env_apks :: apk_source
  env_restart_notconnect :: int

datatype handled = Processed | Again | HandleRaised py_error

text \<open>The decision once a job was tried more than three times.\<close>

definition give_up :: "job_env \<Rightarrow> nat \<Rightarrow> updater \<Rightarrow> updater" where
  "give_up env r u =
     (let e = jobs u r
      in if last_status e = FAILING
         then set_job r (\<lambda>e. e\<lparr>last_status := FAILED\<rparr>)
                (if (case auto_command e of None \<Rightarrow> False | Some a \<Rightarrow> ac_redo_on_error a)
                 then restart_job (env_now env) (job_id e) u else u)
         else if last_status e = NOT_CONNECTED \<and> env_restart_notconnect env > 0
         then restart_job (env_now env) (job_id e)
                (set_job r (\<lambda>e. e\<lparr>processing_date := Some (env_now env + 60 * env_restart_notconnect env)\<rparr>) u)
         else u)"

text \<open>When the job is to run: \<open>Inr None\<close> is an automatic job with values that make no sense.\<close>

definition schedule :: "job_env \<Rightarrow> job_entry \<Rightarrow> job_entry option result" where
  "schedule env e =
     (if processing_date e \<noteq> None then Inr (Some e)
      else res_bind
        (case auto_command e of
           None \<Rightarrow> Inr (Some e)
         | Some a \<Rightarrow> res_bind (get_job_algo_value (env_day_seconds env) (ac_algo_type a) (ac_algo_value a))
             (\<lambda>m. Inr (map_option (\<lambda>minutes. e\<lparr>processing_date := Some (env_now env + 60 * minutes)\<rparr>) m)))
        (\<lambda>e1. Inr (map_option (\<lambda>e. case sj_waittime (sub_jobs e ! sub_job_index e) of
             None \<Rightarrow> e
           | Some w \<Rightarrow> e\<lparr>processing_date :=
               Some ((case processing_date e of None \<Rightarrow> env_now env | Some d \<Rightarrow> d) + 60 * w)\<rparr>) e1)))"

text \<open>Running the next sub job; the \<open>finally\<close> clause counts the attempt, also after the counter was reset.\<close>

definition run_sub_job :: "job_env \<Rightarrow> device_comm \<Rightarrow> nat \<Rightarrow> updater \<Rightarrow> handled \<times> updater" where
  "run_sub_job env comm r u =
     (let u1 = update_log r (set_job r (\<lambda>e. e\<lparr>last_status := STARTING\<rparr>) u);
          (ok, e) = start_job_type comm (env_apks env) (sub_jobs (jobs u1 r) ! sub_job_index (jobs u1 r)) (jobs u1 r)
      in if ok
         then (let u2 = set_job r (\<lambda>_. e\<lparr>sub_job_index := sub_job_index e + 1, last_status := SUCCESS, job_counter := 0 + 1\<rparr>) u1
               in (Again, if (case auto_command e of None \<Rightarrow> False | Some a \<Rightarrow> ac_redo a)
                          then restart_job (env_end env) (job_id e) u2 else u2))
         else (Again, set_job r (\<lambda>_. e\<lparr>last_status := FAILING, job_counter := job_counter e + 1\<rparr>) u1))"

definition handle_job :: "job_env \<Rightarrow> nat \<Rightarrow> updater \<Rightarrow> handled \<times> updater" where
  "handle_job env r u =
     (let e = jobs u r
      in if length (sub_jobs e) \<le> sub_job_index e then (Processed, u)
         else if last_status e = CANCELLED then (Processed, u)
         else if last_status e = FAILED then (Processed, u)
         else if job_counter e > 3 then (Processed, give_up env r u)
         else (case schedule env e of
             Inl err \<Rightarrow> (HandleRaised err, u)
           | Inr None \<Rightarrow> (Processed, u)
           | Inr (Some e1) \<Rightarrow>
              (if (case processing_date e1 of None \<Rightarrow> False | Some d \<Rightarrow> d > env_now env)
               then (Again, set_job r (\<lambda>_. e1\<lparr>last_status := FUTURE\<rparr>) u)
               else (let u1 = update_log r (set_job r (\<lambda>_. e1\<lparr>last_status := PROCESSING, processing_date := Some (env_now env)\<rparr>) u)
                     in case env_comm env of
                          None \<Rightarrow> (Again, set_job r (\<lambda>e. e\<lparr>last_status := NOT_CONNECTED, job_counter := job_counter e + 1,
                              processing_date := Some (env_now env + 60)\<rparr>) u1)
                        | Some comm \<Rightarrow> run_sub_job env comm r u1))))"

section \<open>The workers\<close>

datatype worker = IdleWorker | Working nat | DeadWorker

record pool =
  upd :: updater
  workers :: "nat \<Rightarrow> worker"

text \<open>
  The \<open>finally\<close> clause of a turn, which also runs for an entry that was not claimed. Popping the origin
  raises when nothing runs there, and that ends the worker.
\<close>

definition release :: "bool \<Rightarrow> nat \<Rightarrow> updater \<Rightarrow> bool \<times> updater" where
  "release requeue r u0 =
     (let u = update_log r u0; e = jobs u r
      in if \<not> requeue \<or> auto_command e \<noteq> None \<and> last_status e \<noteq> FUTURE
         then (if map_of (running_jobs u) (job_origin e) = None then (False, u)
               else (True, u\<lparr>running_jobs := AList.delete (job_origin e) (running_jobs u)\<rparr>))
         else (True, u))"

text \<open>Taking an entry off the queue. The result is the claimed entry, or whether the worker goes on.\<close>

definition take_job :: "updater \<Rightarrow> (bool + nat) \<times> updater" where
  "take_job u =
     (case job_queue u of
        [] \<Rightarrow> (Inl True, u)
      | r # rest \<Rightarrow>
          (let u1 = u\<lparr>job_queue := rest\<rparr>; e = jobs u1 r
           in if map_of (job_log u1) (job_id e) = None
              then (let (alive, u2) = release False r u1 in (Inl alive, u2))
              else (case map_of (running_jobs u1) (job_origin e) of
                  Some r' \<Rightarrow>
                    (if job_id e \<noteq> job_id (jobs u1 r')
                     then (let (alive, u2) = release False r (queue_put r u1) in (Inl alive, u2))
                     else (Inr r, u1\<lparr>running_jobs := AList.update (job_origin e) r (running_jobs u1)\<rparr>))
                | None \<Rightarrow> (Inr r, u1\<lparr>running_jobs := AList.update (job_origin e) r (running_jobs u1)\<rparr>))))"

definition work_job :: "job_env \<Rightarrow> nat \<Rightarrow> updater \<Rightarrow> bool \<times> updater" where
  "work_job env r u =
     (let (res, u1) = handle_job env r u;
          requeue = (res = Again);
          u2 = (if requeue then queue_put r u1 else u1)
      in release requeue r u2)"

datatype upd_op =
    Take nat
  | Work job_env nat
  | AddJob string string string "autocommand option"
  | RestartJob int string
  | DeleteLog bool
  | DeleteId string
  | KillOld

fun pool_step :: "upd_op \<Rightarrow> pool \<Rightarrow> pool" where
  "pool_step (Take w) p =
     (if workers p w = IdleWorker
      then (case take_job (upd p) of
          (Inl alive, u) \<Rightarrow> p\<lparr>upd := u, workers := (workers p)(w := if alive then IdleWorker else DeadWorker)\<rparr>
        | (Inr r, u) \<Rightarrow> p\<lparr>upd := u, workers := (workers p)(w := Working r)\<rparr>)
      else p)"
| "pool_step (Work env w) p =
     (case workers p w of
        Working r \<Rightarrow> (case work_job env r (upd p) of
          (alive, u) \<Rightarrow> p\<lparr>upd := u, workers := (workers p)(w := if alive then IdleWorker else DeadWorker)\<rparr>)
      | _ \<Rightarrow> p)"
| "pool_step (AddJob t origin name auto) p = p\<lparr>upd := snd (add_job t origin name auto (upd p))\<rparr>"
| "pool_step (RestartJob now i) p = p\<lparr>upd := restart_job now i (upd p)\<rparr>"
| "pool_step (DeleteLog b) p = p\<lparr>upd := delete_log b (upd p)\<rparr>"
| "pool_step (DeleteId i) p = p\<lparr>upd := snd (delete_log_id i (upd p))\<rparr>"
| "pool_step KillOld p = p\<lparr>upd := kill_old_jobs (upd p)\<rparr>"

definition new_pool :: "(string, sub_job list) dict \<Rightarrow> pool" where
  "new_pool avail = \<lparr>upd = \<lparr>jobs = (\<lambda>_. undefined), next_job = 0, job_queue = [], job_log = [], available_jobs = avail,
      running_jobs = []\<rparr>, workers = (\<lambda>_. IdleWorker)\<rparr>"

definition pool_run :: "upd_op list \<Rightarrow> pool \<Rightarrow> pool" where
  "pool_run ops = fold pool_step ops"

section \<open>The invariant\<close>

definition job_ok :: "job_entry \<Rightarrow> bool" where
  "job_ok e \<longleftrightarrow> 0 \<le> job_counter e \<and> job_counter e \<le> 4 \<and> sub_job_index e \<le> length (sub_jobs e)"

definition upd_inv :: "updater \<Rightarrow> bool" where
  "upd_inv u \<longleftrightarrow> (\<forall>r < next_job u. job_ok (jobs u r)) \<and> (\<forall>r \<in> set (job_queue u). r < next_job u) \<and>
     dict_wf (job_log u) \<and> (\<forall>i r. map_of (job_log u) i = Some r \<longrightarrow> r < next_job u \<and> job_id (jobs u r) = i)"

lemma set_job_fields [simp]:
  "next_job (set_job r f u) = next_job u" "job_queue (set_job r f u) = job_queue u" "job_log (set_job r f u) = job_log u"
  "running_jobs (set_job r f u) = running_jobs u" "jobs (set_job r f u) x = (if x = r then f (jobs u r) else jobs u x)"
  by (simp_all add: set_job_def)

lemma queue_put_fields [simp]:
  "next_job (queue_put r u) = next_job u" "job_queue (queue_put r u) = job_queue u @ [r]" "job_log (queue_put r u) = job_log u"
  "running_jobs (queue_put r u) = running_jobs u" "jobs (queue_put r u) = jobs u"
  by (simp_all add: queue_put_def)

lemma update_log_fields [simp]:
  "next_job (update_log r u) = next_job u" "job_queue (update_log r u) = job_queue u"
  "running_jobs (update_log r u) = running_jobs u" "jobs (update_log r u) = jobs u"
  by (simp_all add: update_log_def)

lemma upd_inv_set_job:
  "upd_inv u \<Longrightarrow> job_ok (f (jobs u r)) \<Longrightarrow> job_id (f (jobs u r)) = job_id (jobs u r) \<Longrightarrow> upd_inv (set_job r f u)"
  by (auto simp: upd_inv_def)

lemma upd_inv_put: "upd_inv u \<Longrightarrow> r < next_job u \<Longrightarrow> upd_inv (queue_put r u)"
  by (auto simp: upd_inv_def)

lemma upd_inv_update_log: "upd_inv u \<Longrightarrow> r < next_job u \<Longrightarrow> upd_inv (update_log r u)"
  by (auto simp: upd_inv_def update_log_def dict_simps split: if_splits)

lemma upd_inv_job: "upd_inv u \<Longrightarrow> r < next_job u \<Longrightarrow> job_ok (jobs u r)"
  by (simp add: upd_inv_def)

lemma upd_inv_log: "upd_inv u \<Longrightarrow> map_of (job_log u) i = Some r \<Longrightarrow> r < next_job u \<and> job_id (jobs u r) = i"
  by (simp add: upd_inv_def)

lemma upd_inv_running: "upd_inv (u\<lparr>running_jobs := x\<rparr>) = upd_inv u"
  by (simp add: upd_inv_def)

lemma upd_inv_delete: "upd_inv u \<Longrightarrow> upd_inv (u\<lparr>job_log := AList.delete i (job_log u)\<rparr>)"
  by (auto simp: upd_inv_def dict_simps split: if_splits)

lemma restart_entry_ok: "job_ok (restart_entry now e) \<and> job_id (restart_entry now e) = job_id e"
  by (simp add: restart_entry_def job_ok_def)

lemma restart_job_next [simp]: "next_job (restart_job now i u) = next_job u"
  by (simp add: restart_job_def split: option.splits)

lemma upd_inv_restart: "upd_inv u \<Longrightarrow> upd_inv (restart_job now i u)"
  by (auto simp: restart_job_def restart_entry_ok dest: upd_inv_log
      intro!: upd_inv_update_log upd_inv_put upd_inv_set_job split: option.splits)

lemma upd_inv_kill_one: "upd_inv u \<Longrightarrow> upd_inv (kill_old_job i u)"
proof -
  assume inv: "upd_inv u"
  have "upd_inv (set_job r (\<lambda>e. e\<lparr>last_status := CANCELLED\<rparr>) u)" if "map_of (job_log u) i = Some r" for r
    using upd_inv_job [OF inv, of r] upd_inv_log [OF inv that] inv by (intro upd_inv_set_job) (simp_all add: job_ok_def)
  with inv show ?thesis by (simp add: kill_old_job_def upd_inv_delete split: option.splits)
qed

lemma kill_one_next [simp]: "next_job (kill_old_job i u) = next_job u"
  by (simp add: kill_old_job_def split: option.splits)

lemma fold_keeps:
  assumes "\<And>x y. P y \<Longrightarrow> P (f x y)"
  shows "P y \<Longrightarrow> P (fold f xs y)"
  by (induction xs arbitrary: y) (simp_all add: assms)

lemma upd_inv_kill: "upd_inv u \<Longrightarrow> upd_inv (kill_old_jobs u) \<and> next_job (kill_old_jobs u) = next_job u"
  unfolding kill_old_jobs_def
  using fold_keeps [of "\<lambda>v. upd_inv v \<and> next_job v = next_job u" kill_old_job u] by (simp add: upd_inv_kill_one)

lemma upd_inv_delete_id: "upd_inv u \<Longrightarrow> upd_inv (snd (delete_log_id i u)) \<and> next_job (snd (delete_log_id i u)) = next_job u"
  by (simp add: delete_log_id_def upd_inv_delete)

lemma upd_inv_delete_success: "upd_inv u \<Longrightarrow> upd_inv (delete_success i u) \<and> next_job (delete_success i u) = next_job u"
  by (simp add: delete_success_def upd_inv_delete split: option.splits)

lemma upd_inv_delete_log: "upd_inv u \<Longrightarrow> upd_inv (delete_log b u) \<and> next_job (delete_log b u) = next_job u"
  using fold_keeps [of "\<lambda>v. upd_inv v \<and> next_job v = next_job u" delete_success u]
    fold_keeps [of "\<lambda>v. upd_inv v \<and> next_job v = next_job u" "\<lambda>i u. snd (delete_log_id i u)" u]
  by (simp add: delete_log_def upd_inv_delete_success upd_inv_delete_id)

lemma upd_inv_add_job:
  assumes "upd_inv u"
  shows "upd_inv (snd (add_job t origin name auto u)) \<and> next_job u \<le> next_job (snd (add_job t origin name auto u))"
proof (cases "map_of (available_jobs u) name")
  case (Some subs)
  define e where "e = \<lparr>job_id = t @ ''_'' @ origin @ ''_'' @ name, job_origin = origin, job_name = name, sub_jobs = subs,
    last_status = INIT, job_counter = 0, auto_command = auto, processing_date = None, returning = None, sub_job_index = 0\<rparr>"
  have "upd_inv (u\<lparr>jobs := (jobs u)(next_job u := e), next_job := next_job u + 1\<rparr>)"
    using assms by (auto simp: upd_inv_def e_def job_ok_def less_Suc_eq)
  then have "upd_inv (update_log (next_job u) (queue_put (next_job u) (u\<lparr>jobs := (jobs u)(next_job u := e), next_job := next_job u + 1\<rparr>)))"
    by (intro upd_inv_update_log upd_inv_put) simp_all
  with Some show ?thesis by (simp add: add_job_def e_def Let_def)
qed (use assms in \<open>simp add: add_job_def\<close>)

text \<open>What handling keeps of an entry.\<close>

definition same_job :: "job_entry \<Rightarrow> job_entry \<Rightarrow> bool" where
  "same_job e e' \<longleftrightarrow> job_id e' = job_id e \<and> sub_jobs e' = sub_jobs e \<and> sub_job_index e' = sub_job_index e \<and>
     job_counter e' = job_counter e \<and> auto_command e' = auto_command e \<and> job_origin e' = job_origin e"

lemma same_job_simps [simp]:
  "same_job e (e'\<lparr>processing_date := d\<rparr>) = same_job e e'" "same_job e (e'\<lparr>last_status := st\<rparr>) = same_job e e'"
  "same_job e (e'\<lparr>returning := v\<rparr>) = same_job e e'" "same_job e e"
  by (simp_all add: same_job_def)

lemma same_job_id: "same_job e e' \<Longrightarrow> job_id e' = job_id e"
  by (simp add: same_job_def)

lemma schedule_shape: "schedule env e = Inr (Some e') \<Longrightarrow> \<exists>d. e' = e\<lparr>processing_date := d\<rparr>"
proof (cases "processing_date e")
  case None
  assume *: "schedule env e = Inr (Some e')"
  obtain e1 d where e1: "e1 = e\<lparr>processing_date := d\<rparr>"
      and e': "e' = (case sj_waittime (sub_jobs e1 ! sub_job_index e1) of None \<Rightarrow> e1
        | Some w \<Rightarrow> e1\<lparr>processing_date := Some ((case processing_date e1 of None \<Rightarrow> env_now env | Some d \<Rightarrow> d) + 60 * w)\<rparr>)"
  proof (cases "auto_command e")
    case None
    with * \<open>processing_date e = None\<close> that [of e "processing_date e"] show ?thesis by (simp add: schedule_def)
  next
    case (Some a)
    with * \<open>processing_date e = None\<close> obtain m where m: "get_job_algo_value (env_day_seconds env) (ac_algo_type a) (ac_algo_value a) = Inr (Some m)"
      by (cases "get_job_algo_value (env_day_seconds env) (ac_algo_type a) (ac_algo_value a)") (auto simp: schedule_def)
    with * Some \<open>processing_date e = None\<close> that [OF refl, of "Some (env_now env + 60 * m)"] show ?thesis
      by (simp add: schedule_def)
  qed
  show ?thesis unfolding e' e1 by (simp split: option.split) blast
next
  case (Some d)
  assume "schedule env e = Inr (Some e')"
  with Some have "e' = e\<lparr>processing_date := processing_date e\<rparr>" by (simp add: schedule_def)
  then show ?thesis by blast
qed

lemma schedule_same: "schedule env e = Inr (Some e') \<Longrightarrow> same_job e e'"
  using schedule_shape [of env e e'] by auto

lemma self_shape: "\<exists>st v. e = e\<lparr>last_status := st, returning := v\<rparr>"
  by (rule exI [of _ "last_status e"], rule exI [of _ "returning e"]) simp

lemma start_job_shape:
  assumes "start_job_type comm src sj e = (ok, e')"
  shows "\<exists>st v. e' = e\<lparr>last_status := st, returning := v\<rparr>"
proof (cases "sj_type sj")
  case PASSTHROUGH
  with assms have "\<exists>v. e' = e\<lparr>last_status := last_status e, returning := v\<rparr>"
    by (cases "passthrough comm (sj_syntax sj)") (auto simp: start_job_type_def Let_def intro: exI [of _ "returning e"])
  then show ?thesis by blast
next
  case SMART_UPDATE
  with assms have "e' = e \<or> (\<exists>st. e' = e\<lparr>last_status := st, returning := returning e\<rparr>)"
    by (cases "smart_update comm src (sj_syntax sj)") (auto simp: start_job_type_def split: option.splits)
  moreover have "e = e\<lparr>last_status := last_status e, returning := returning e\<rparr>" by simp
  ultimately show ?thesis by metis
next
  case INSTALLATION
  have "snd (case x of None \<Rightarrow> (False, e) | Some r \<Rightarrow> (f r, e)) = e" for x :: "bool option" and f :: "bool \<Rightarrow> bool"
    by (cases x) simp_all
  with assms INSTALLATION have "e' = e\<lparr>last_status := last_status e, returning := returning e\<rparr>"
    unfolding start_job_type_def Let_def by simp (metis snd_conv)
  then show ?thesis by blast
qed (use assms self_shape [of e] in \<open>simp_all add: start_job_type_def\<close>)

lemma start_job_same: "start_job_type comm src sj e = (ok, e') \<Longrightarrow> same_job e e'"
  using start_job_shape [of comm src sj e ok e'] by auto

lemma give_up_inv: "upd_inv u \<Longrightarrow> r < next_job u \<Longrightarrow> upd_inv (give_up env r u) \<and> next_job (give_up env r u) = next_job u"
proof -
  assume inv: "upd_inv u" and r: "r < next_job u"
  have "upd_inv (set_job r (\<lambda>e. e\<lparr>last_status := FAILED\<rparr>) v)" if "upd_inv v" "next_job v = next_job u" for v
    using that r upd_inv_job [OF that(1), of r] by (intro upd_inv_set_job) (simp_all add: job_ok_def)
  moreover have "upd_inv (set_job r (\<lambda>e. e\<lparr>processing_date := d\<rparr>) u)" for d
    using upd_inv_job [OF inv r] inv by (intro upd_inv_set_job) (simp_all add: job_ok_def)
  ultimately show ?thesis using inv by (simp add: give_up_def Let_def upd_inv_restart)
qed

lemma schedule_ok:
  assumes "schedule env e = Inr (Some e')" "job_ok e"
  shows "job_ok e' \<and> job_id e' = job_id e \<and> job_counter e' = job_counter e \<and> sub_jobs e' = sub_jobs e \<and> sub_job_index e' = sub_job_index e"
  using schedule_same [OF assms(1)] assms(2) by (simp add: same_job_def job_ok_def)

lemma run_sub_job_inv:
  assumes inv: "upd_inv u" and r: "r < next_job u" and c: "job_counter (jobs u r) \<le> 3"
    and i: "sub_job_index (jobs u r) < length (sub_jobs (jobs u r))"
  shows "upd_inv (snd (run_sub_job env comm r u)) \<and> next_job (snd (run_sub_job env comm r u)) = next_job u"
proof -
  define u1 where "u1 = update_log r (set_job r (\<lambda>e. e\<lparr>last_status := STARTING\<rparr>) u)"
  have ok: "job_ok (jobs u r)" by (rule upd_inv_job [OF inv r])
  have e1: "jobs u1 r = (jobs u r)\<lparr>last_status := STARTING\<rparr>" and n1: "next_job u1 = next_job u" by (simp_all add: u1_def)
  have inv1: "upd_inv u1"
    unfolding u1_def using inv r ok by (intro upd_inv_update_log upd_inv_set_job) (simp_all add: job_ok_def)
  obtain b e where s: "start_job_type comm (env_apks env) (sub_jobs (jobs u1 r) ! sub_job_index (jobs u1 r)) (jobs u1 r) = (b, e)"
    by (cases "start_job_type comm (env_apks env) (sub_jobs (jobs u1 r) ! sub_job_index (jobs u1 r)) (jobs u1 r)")
  have same: "same_job (jobs u1 r) e" by (rule start_job_same [OF s])
  have "upd_inv (set_job r (\<lambda>_. e\<lparr>sub_job_index := sub_job_index e + 1, last_status := SUCCESS, job_counter := 0 + 1\<rparr>) u1)"
    using inv1 same i ok by (intro upd_inv_set_job) (simp_all add: same_job_def job_ok_def e1)
  moreover have "upd_inv (set_job r (\<lambda>_. e\<lparr>last_status := FAILING, job_counter := job_counter e + 1\<rparr>) u1)"
    using inv1 same c ok by (intro upd_inv_set_job) (simp_all add: same_job_def job_ok_def e1)
  ultimately show ?thesis
    using s by (simp add: run_sub_job_def Let_def n1 upd_inv_restart flip: u1_def)
qed

lemma handle_job_inv:
  assumes inv: "upd_inv u" and r: "r < next_job u"
  shows "upd_inv (snd (handle_job env r u)) \<and> next_job (snd (handle_job env r u)) = next_job u"
proof -
  have ok: "job_ok (jobs u r)" by (rule upd_inv_job [OF inv r])
  show ?thesis
  proof (cases "length (sub_jobs (jobs u r)) \<le> sub_job_index (jobs u r) \<or> last_status (jobs u r) \<in> {CANCELLED, FAILED}
      \<or> job_counter (jobs u r) > 3")
    case True
    then show ?thesis using inv give_up_inv [OF inv r] by (auto simp: handle_job_def Let_def)
  next
    case False
    then have i: "sub_job_index (jobs u r) < length (sub_jobs (jobs u r))" and c: "job_counter (jobs u r) \<le> 3" by auto
    show ?thesis
    proof (cases "schedule env (jobs u r)")
      case (Inl err)
      with False inv show ?thesis by (simp add: handle_job_def)
    next
      case (Inr sch)
      show ?thesis
      proof (cases sch)
        case None
        with Inr False inv show ?thesis by (simp add: handle_job_def)
      next
        case (Some e1)
        note ok1 = schedule_ok [OF Inr [unfolded Some] ok]
        define u1 where "u1 = update_log r (set_job r (\<lambda>_. e1\<lparr>last_status := PROCESSING, processing_date := Some (env_now env)\<rparr>) u)"
        have f: "upd_inv (set_job r (\<lambda>_. e1\<lparr>last_status := FUTURE\<rparr>) u)"
          using inv ok1 ok by (intro upd_inv_set_job) (simp_all add: job_ok_def)
        have inv1: "upd_inv u1" and n1: "next_job u1 = next_job u"
          unfolding u1_def using inv r ok1 ok by (intro upd_inv_update_log upd_inv_set_job; simp add: job_ok_def)+ simp
        have e1: "jobs u1 r = e1\<lparr>last_status := PROCESSING, processing_date := Some (env_now env)\<rparr>" by (simp add: u1_def)
        have nc: "upd_inv (set_job r (\<lambda>e. e\<lparr>last_status := NOT_CONNECTED, job_counter := job_counter e + 1,
            processing_date := Some (env_now env + 60)\<rparr>) u1)"
          using inv1 ok1 ok c by (intro upd_inv_set_job) (simp_all add: job_ok_def e1)
        have run: "upd_inv (snd (run_sub_job env comm r u1)) \<and> next_job (snd (run_sub_job env comm r u1)) = next_job u" for comm
          using run_sub_job_inv [OF inv1, of r env comm] r ok1 c i by (simp add: n1 e1)
        show ?thesis
          using False Inr Some f nc run inv1 n1
          by (simp add: handle_job_def flip: u1_def split: option.split)
      qed
    qed
  qed
qed

lemma release_inv: "upd_inv u \<Longrightarrow> r < next_job u \<Longrightarrow> upd_inv (snd (release b r u)) \<and> next_job (snd (release b r u)) = next_job u"
  by (simp add: release_def Let_def upd_inv_update_log upd_inv_running)

lemma work_job_inv:
  assumes "upd_inv u" "r < next_job u"
  shows "upd_inv (snd (work_job env r u)) \<and> next_job (snd (work_job env r u)) = next_job u"
proof -
  obtain res u1 where h: "handle_job env r u = (res, u1)" by (cases "handle_job env r u")
  have u1: "upd_inv u1" "next_job u1 = next_job u" using handle_job_inv [OF assms, of env] by (simp_all add: h)
  have "upd_inv (if res = Again then queue_put r u1 else u1)"
    using u1 assms(2) by (simp add: upd_inv_put)
  from release_inv [OF this, of r "res = Again"] u1 assms(2) show ?thesis by (simp add: work_job_def h Let_def)
qed

lemma take_job_inv:
  assumes inv: "upd_inv u"
  shows "upd_inv (snd (take_job u)) \<and> next_job (snd (take_job u)) = next_job u \<and> (\<forall>r. fst (take_job u) = Inr r \<longrightarrow> r < next_job u)"
proof (cases "job_queue u")
  case (Cons r rest)
  define u1 where "u1 = u\<lparr>job_queue := rest\<rparr>"
  have u1: "upd_inv u1" "next_job u1 = next_job u" "r < next_job u"
    using inv Cons by (auto simp: u1_def upd_inv_def)
  have rel: "upd_inv (snd (release b r v)) \<and> next_job (snd (release b r v)) = next_job u" if "v = u1 \<or> v = queue_put r u1" for b v
    using that release_inv [of v r b] u1 upd_inv_put [OF u1(1), of r] by auto
  show ?thesis
    using rel [of u1 False] rel [of "queue_put r u1" False] u1 upd_inv_running
    by (simp add: take_job_def Cons Let_def case_prod_beta flip: u1_def split: option.split)
qed (use inv in \<open>simp add: take_job_def\<close>)

definition pool_inv :: "pool \<Rightarrow> bool" where
  "pool_inv p \<longleftrightarrow> upd_inv (upd p) \<and> (\<forall>w r. workers p w = Working r \<longrightarrow> r < next_job (upd p))"

lemma pool_inv_upd:
  "pool_inv p \<Longrightarrow> upd_inv v \<Longrightarrow> next_job (upd p) \<le> next_job v \<Longrightarrow> pool_inv (p\<lparr>upd := v\<rparr>)"
  by (auto simp: pool_inv_def intro: less_le_trans)

lemma pool_inv_worker:
  "pool_inv p \<Longrightarrow> (\<And>r. x = Working r \<Longrightarrow> r < next_job (upd p)) \<Longrightarrow> pool_inv (p\<lparr>workers := (workers p)(w := x)\<rparr>)"
  by (simp add: pool_inv_def)

lemma pool_inv_both:
  assumes "pool_inv p" "upd_inv v" "next_job v = next_job (upd p)" "\<And>r. x = Working r \<Longrightarrow> r < next_job (upd p)"
  shows "pool_inv (p\<lparr>upd := v, workers := (workers p)(w := x)\<rparr>)"
  using pool_inv_worker [OF pool_inv_upd [OF assms(1,2)], of x w] assms(3,4) by simp

lemma pool_step_inv:
  assumes "pool_inv p"
  shows "pool_inv (pool_step op p)"
proof (cases op)
  case (Take w)
  have inv: "upd_inv (upd p)" using assms by (simp add: pool_inv_def)
  obtain x v where t: "take_job (upd p) = (x, v)" by (cases "take_job (upd p)")
  with take_job_inv [OF inv] have "upd_inv v" "next_job v = next_job (upd p)" "\<forall>r. x = Inr r \<longrightarrow> r < next_job (upd p)" by simp_all
  then have "pool_inv (p\<lparr>upd := v, workers := (workers p)(w := y)\<rparr>)"
    if "y \<in> {IdleWorker, DeadWorker} \<or> (\<exists>r. x = Inr r \<and> y = Working r)" for y
    using that by (intro pool_inv_both [OF assms]) auto
  then show ?thesis by (cases x) (simp_all add: Take t assms)
next
  case (Work env w)
  have inv: "upd_inv (upd p)" using assms by (simp add: pool_inv_def)
  show ?thesis
  proof (cases "workers p w")
    case (Working r)
    then have r: "r < next_job (upd p)" using assms by (simp add: pool_inv_def)
    obtain a v where v: "work_job env r (upd p) = (a, v)" by (cases "work_job env r (upd p)")
    with work_job_inv [OF inv r, of env] have "upd_inv v" "next_job v = next_job (upd p)" by simp_all
    then have "pool_inv (p\<lparr>upd := v, workers := (workers p)(w := y)\<rparr>)" if "y \<in> {IdleWorker, DeadWorker}" for y
      using that by (intro pool_inv_both [OF assms]) auto
    then show ?thesis by (simp add: Work Working v)
  qed (simp_all add: Work assms)
next
  case (AddJob t origin name auto)
  then show ?thesis using assms upd_inv_add_job [of "upd p" t origin name auto] pool_inv_upd [OF assms] by (simp add: pool_inv_def)
next
  case (RestartJob now i)
  then show ?thesis using assms pool_inv_upd [OF assms upd_inv_restart] by (simp add: pool_inv_def)
next
  case (DeleteLog b)
  then show ?thesis using assms upd_inv_delete_log [of "upd p" b] pool_inv_upd [OF assms] by (simp add: pool_inv_def)
next
  case (DeleteId i)
  then show ?thesis using assms upd_inv_delete_id [of "upd p" i] pool_inv_upd [OF assms] by (simp add: pool_inv_def)
next
  case KillOld
  then show ?thesis using assms upd_inv_kill [of "upd p"] pool_inv_upd [OF assms] by (simp add: pool_inv_def)
qed

lemma pool_run_inv: "pool_inv p \<Longrightarrow> pool_inv (pool_run ops p)"
  unfolding pool_run_def by (rule fold_keeps) (rule pool_step_inv)

lemma new_pool_inv: "pool_inv (new_pool avail)"
  by (simp add: new_pool_def pool_inv_def upd_inv_def)


section \<open>Claiming a device\<close>

text \<open>
  Claiming: a worker gets the head of the queue only when it is in the log and no other job runs on its
  device, and the device is then marked as busy with that very entry; a job that is not claimed because its
  device is busy goes to the end of the queue.
\<close>

theorem take_job_claims:
  assumes "take_job u = (res, u')"
  shows "case res of
      Inr r \<Rightarrow> job_queue u = r # job_queue u' \<and> map_of (running_jobs u') (job_origin (jobs u r)) = Some r
        \<and> map_of (job_log u) (job_id (jobs u r)) \<noteq> None
        \<and> (\<forall>r'. map_of (running_jobs u) (job_origin (jobs u r)) = Some r' \<longrightarrow> job_id (jobs u r') = job_id (jobs u r))
        \<and> (\<forall>origin. origin \<noteq> job_origin (jobs u r) \<longrightarrow> map_of (running_jobs u') origin = map_of (running_jobs u) origin)
    | Inl alive \<Rightarrow> job_queue u = [] \<and> u' = u \<or>
        (\<exists>r rest. job_queue u = r # rest \<and> jobs u' = jobs u \<and>
          (job_queue u' = rest \<and> map_of (job_log u) (job_id (jobs u r)) = None \<or>
           job_queue u' = rest @ [r] \<and> map_of (running_jobs u) (job_origin (jobs u r)) \<noteq> None))"
proof (cases "job_queue u")
  case (Cons r rest)
  let ?e = "jobs u r"
  have rel: "job_queue (snd (release b r v)) = job_queue v \<and> jobs (snd (release b r v)) = jobs v" for b v
    by (simp add: release_def Let_def)
  consider (unlogged) "map_of (job_log u) (job_id ?e) = None"
    | (free) "map_of (job_log u) (job_id ?e) \<noteq> None" "map_of (running_jobs u) (job_origin ?e) = None"
    | (busy) r' where "map_of (job_log u) (job_id ?e) \<noteq> None" "map_of (running_jobs u) (job_origin ?e) = Some r'"
    by (cases "map_of (running_jobs u) (job_origin ?e)") auto
  then show ?thesis
  proof cases
    case unlogged
    with assms Cons rel [of False "u\<lparr>job_queue := rest\<rparr>"] show ?thesis
      by (auto simp: take_job_def Let_def case_prod_beta)
  next
    case free
    with assms Cons show ?thesis by (auto simp: take_job_def dict_simps)
  next
    case (busy r')
    with assms Cons rel [of False "queue_put r (u\<lparr>job_queue := rest\<rparr>)"] show ?thesis
      by (cases "job_id ?e = job_id (jobs u r')") (auto simp: take_job_def Let_def case_prod_beta dict_simps)
  qed
qed (use assms in \<open>auto simp: take_job_def\<close>)

definition reboot_job :: sub_job where
  "reboot_job = \<lparr>sj_type = REBOOT, sj_syntax = ''reboot'', sj_waittime = None\<rparr>"

definition two_jobs :: pool where
  "two_jobs = pool_run [AddJob ''1'' ''a'' ''j'' None, AddJob ''2'' ''a'' ''j'' None] (new_pool [(''j'', [reboot_job])])"

lemmas demo_simps = two_jobs_def reboot_job_def pool_run_def new_pool_def add_job_def update_log_def queue_put_def set_job_def
  take_job_def release_def Let_def

lemma take_job_claims_witness:
  "take_job (upd two_jobs) = (Inr 0, snd (take_job (upd two_jobs))) \<and>
   map_of (running_jobs (snd (take_job (upd two_jobs)))) ''a'' = Some 0"
proof -
  have t: "take_job (upd two_jobs) = (Inr 0, snd (take_job (upd two_jobs)))" by (simp add: demo_simps)
  have "job_origin (jobs (upd two_jobs) 0) = ''a''" by (simp add: demo_simps)
  with t take_job_claims [OF t] show ?thesis by simp
qed

text \<open>
  A worker that meets a job of a busy device frees that device: the \<open>continue\<close> in the claim leaves through
  the \<open>finally\<close> clause, which pops the entry of the job that is running there. The next job of the device is
  then claimed although the first one still runs.
\<close>

theorem busy_device_is_freed:
  assumes "job_queue u = r # rest" "map_of (job_log u) (job_id (jobs u r)) \<noteq> None"
    and "map_of (running_jobs u) (job_origin (jobs u r)) = Some r'" "job_id (jobs u r) \<noteq> job_id (jobs u r')"
  shows "\<exists>u'. take_job u = (Inl True, u') \<and> job_queue u' = rest @ [r] \<and> map_of (running_jobs u') (job_origin (jobs u r)) = None
    \<and> (rest = [] \<longrightarrow> fst (take_job u') = Inr r)"
proof -
  obtain l where l: "map_of (job_log u) (job_id (jobs u r)) = Some l" using assms(2) by blast
  show ?thesis
    using assms by (simp add: take_job_def release_def Let_def update_log_def dict_simps l split del: if_split)
qed

lemma busy_device_is_freed_witness:
  "\<exists>u'. take_job (snd (take_job (upd two_jobs))) = (Inl True, u') \<and> map_of (running_jobs u') ''a'' = None \<and> fst (take_job u') = Inr 1"
  using busy_device_is_freed [of "snd (take_job (upd two_jobs))" 1 "[]" 0] by (simp add: demo_simps)

text \<open>
  Two workers can work on two jobs of one device at once: after two more turns the second worker has claimed
  the second job while the first one has not finished with the first.
\<close>

theorem two_workers_one_device:
  "let p = pool_run [Take 0, Take 1, Take 1] two_jobs
   in workers p 0 = Working 0 \<and> workers p 1 = Working 1 \<and> job_origin (jobs (upd p) 0) = job_origin (jobs (upd p) 1)"
  by (simp add: demo_simps)

section \<open>Attempts\<close>

definition dead_comm :: device_comm where
  "dead_comm = \<lparr>install_apk = (\<lambda>_. None), install_bundle = (\<lambda>_. None), reboot = Some False, restart_app = None,
     stop_app = None, start_app = None, passthrough = (\<lambda>_. None), send_apk = (\<lambda>_. None), send_bundle = (\<lambda>_. None)\<rparr>"

definition no_apks :: apk_source where
  "no_apks = \<lparr>stored_packages = (\<lambda>_. None), version_info = \<lparr>backend_versions = Inl NoMaddevApiTokenError, version_codes = []\<rparr>\<rparr>"

definition demo_env :: "int \<Rightarrow> bool \<Rightarrow> job_env" where
  "demo_env t works = \<lparr>env_now = t, env_end = t + 5, env_day_seconds = t,
     env_comm = Some (dead_comm\<lparr>reboot := Some works\<rparr>), env_apks = no_apks, env_restart_notconnect = 0\<rparr>"

definition demo_due :: "int \<Rightarrow> job_status \<Rightarrow> autocommand option \<Rightarrow> updater" where
  "demo_due n st auto = set_job 0 (\<lambda>e. e\<lparr>processing_date := Some 7, job_counter := n, last_status := st, auto_command := auto\<rparr>)
     (upd two_jobs)"

lemmas attempt_simps = demo_simps dead_comm_def demo_env_def demo_due_def

text \<open>
  A job that waits for its time is put back untouched apart from its status and date: nothing is sent to the device,
  no attempt is counted and no sub job is skipped.
\<close>

theorem handle_job_waits:
  assumes "schedule env (jobs u r) = Inr (Some e1)" "processing_date e1 = Some d" "env_now env < d"
    and "sub_job_index (jobs u r) < length (sub_jobs (jobs u r))" "job_counter (jobs u r) \<le> 3"
    and "last_status (jobs u r) \<notin> {CANCELLED, FAILED}"
  shows "\<exists>u'. handle_job env r u = (Again, u') \<and> jobs u' r = (jobs u r)\<lparr>processing_date := Some d, last_status := FUTURE\<rparr>
    \<and> (\<forall>x. x \<noteq> r \<longrightarrow> jobs u' x = jobs u x) \<and> job_queue u' = job_queue u \<and> job_log u' = job_log u"
proof -
  have "e1\<lparr>last_status := FUTURE\<rparr> = (jobs u r)\<lparr>processing_date := Some d, last_status := FUTURE\<rparr>"
    using schedule_shape [OF assms(1)] assms(2) by auto
  with assms show ?thesis by (simp add: handle_job_def)
qed

lemma handle_job_waits_witness:
  "\<exists>u'. handle_job (demo_env 3 True) 0 (demo_due 0 INIT None) = (Again, u') \<and> last_status (jobs u' 0) = FUTURE"
  using handle_job_waits [of "demo_env 3 True" "demo_due 0 INIT None" 0 "jobs (demo_due 0 INIT None) 0" 7]
  by (auto simp: attempt_simps schedule_def)

definition never_works :: "sub_job \<Rightarrow> job_env \<Rightarrow> bool" where
  "never_works sj env \<longleftrightarrow> (\<exists>comm. env_comm env = Some comm \<and> (\<forall>e. \<not> fst (start_job_type comm (env_apks env) sj e)))"

definition handle_turns :: "job_env list \<Rightarrow> nat \<Rightarrow> updater \<Rightarrow> updater" where
  "handle_turns envs r = fold (\<lambda>env u. snd (handle_job env r u)) envs"

lemma schedule_set: "processing_date e = Some d \<Longrightarrow> schedule env e = Inr (Some e)"
  by (simp add: schedule_def)

lemma failing_turn:
  assumes "never_works (sub_jobs (jobs u r) ! sub_job_index (jobs u r)) env"
    and "sub_job_index (jobs u r) < length (sub_jobs (jobs u r))" "last_status (jobs u r) \<notin> {CANCELLED, FAILED}"
    and "job_counter (jobs u r) \<le> 3" "processing_date (jobs u r) = Some d" "d \<le> env_now env"
  shows "fst (handle_job env r u) = Again \<and> (\<exists>v. jobs (snd (handle_job env r u)) r = (jobs u r)\<lparr>last_status := FAILING,
    job_counter := job_counter (jobs u r) + 1, processing_date := Some (env_now env), returning := v\<rparr>)"
proof -
  obtain comm where comm: "env_comm env = Some comm" "\<And>e. \<not> fst (start_job_type comm (env_apks env) (sub_jobs (jobs u r) ! sub_job_index (jobs u r)) e)"
    using assms(1) by (auto simp: never_works_def)
  define e1 where "e1 = (jobs u r)\<lparr>processing_date := Some (env_now env), last_status := STARTING\<rparr>"
  obtain ok e' where s: "start_job_type comm (env_apks env) (sub_jobs (jobs u r) ! sub_job_index (jobs u r)) e1 = (ok, e')"
    by (cases "start_job_type comm (env_apks env) (sub_jobs (jobs u r) ! sub_job_index (jobs u r)) e1")
  with comm(2) [of e1] have "\<not> ok" by simp
  moreover obtain st v where "e' = e1\<lparr>last_status := st, returning := v\<rparr>" using start_job_shape [OF s] by blast
  ultimately show ?thesis
    using assms(2-6) comm(1) s
    by (auto simp: handle_job_def run_sub_job_def Let_def schedule_set e1_def intro!: exI [of _ v])
qed

lemma failing_turns:
  assumes "\<forall>env \<in> set envs. never_works (sub_jobs (jobs u r) ! sub_job_index (jobs u r)) env"
    and "sub_job_index (jobs u r) < length (sub_jobs (jobs u r))" "last_status (jobs u r) \<notin> {CANCELLED, FAILED}"
    and "job_counter (jobs u r) + int (length envs) \<le> 4" "processing_date (jobs u r) = Some d" "sorted (d # map env_now envs)"
    and "envs \<noteq> []"
  shows "\<exists>v d. jobs (handle_turns envs r u) r = (jobs u r)\<lparr>last_status := FAILING,
    job_counter := job_counter (jobs u r) + int (length envs), processing_date := d, returning := v\<rparr>"
  using assms
proof (induction envs arbitrary: u d)
  case (Cons env envs)
  let ?u = "snd (handle_job env r u)"
  obtain v where v: "jobs ?u r = (jobs u r)\<lparr>last_status := FAILING,
      job_counter := job_counter (jobs u r) + 1, processing_date := Some (env_now env), returning := v\<rparr>"
    using failing_turn [of u r env d] Cons.prems by auto
  show ?case
  proof (cases "envs = []")
    case True
    with v show ?thesis by (auto simp: handle_turns_def)
  next
    case False
    have "\<exists>v d. jobs (handle_turns envs r ?u) r = (jobs ?u r)\<lparr>last_status := FAILING,
        job_counter := job_counter (jobs ?u r) + int (length envs), processing_date := d, returning := v\<rparr>"
      using Cons.prems False by (intro Cons.IH [of _ "env_now env"]) (simp_all add: v)
    then obtain w d' where "jobs (handle_turns envs r ?u) r = (jobs ?u r)\<lparr>last_status := FAILING,
        job_counter := job_counter (jobs ?u r) + int (length envs), processing_date := d', returning := w\<rparr>" by blast
    then show ?thesis by (intro exI [of _ w] exI [of _ d']) (simp add: v handle_turns_def)
  qed
qed simp



text \<open>
  The restart after an error is lost: when a failing automatic job with \<open>redo_on_error\<close> is given up, it is
  restarted and queued once more, but its status is then set to failed, so the queued entry is broken up at once.
\<close>

theorem redo_on_error_is_lost:
  assumes "map_of (job_log u) (job_id (jobs u r)) = Some r" "sub_job_index (jobs u r) < length (sub_jobs (jobs u r))"
    and "last_status (jobs u r) = FAILING" "job_counter (jobs u r) > 3"
    and "auto_command (jobs u r) = Some a" "ac_redo_on_error a"
  shows "\<exists>u'. handle_job env r u = (Processed, u') \<and> job_queue u' = job_queue u @ [r] \<and> job_counter (jobs u' r) = 0
    \<and> sub_job_index (jobs u' r) = 0 \<and> (\<forall>env'. handle_job env' r u' = (Processed, u'))"
  using assms by (simp add: handle_job_def give_up_def Let_def restart_job_def restart_entry_def)

definition demo_auto :: autocommand where
  "demo_auto = \<lparr>ac_redo = True, ac_algo_type = LOOP, ac_algo_value = AlgoInt 5, ac_origins = ''a'', ac_job = ''j'', ac_redo_on_error = True\<rparr>"

lemma redo_on_error_is_lost_witness:
  "\<exists>u'. handle_job (demo_env 9 True) 0 (demo_due 4 FAILING (Some demo_auto)) = (Processed, u') \<and> job_queue u' = [0, 1, 0]
    \<and> (\<forall>env'. handle_job env' 0 u' = (Processed, u'))"
proof -
  have "job_queue (demo_due 4 FAILING (Some demo_auto)) = [0, 1]" by (simp add: attempt_simps)
  with redo_on_error_is_lost [of "demo_due 4 FAILING (Some demo_auto)" 0 demo_auto "demo_env 9 True"] show ?thesis
    by (auto simp: attempt_simps demo_auto_def)
qed

text \<open>
  A successful automatic job with \<open>redo\<close> is queued twice: the restart puts it into the queue and the worker
  puts the same entry back, because the handler reports a job that is not finished.
\<close>

theorem redo_is_queued_twice:
  assumes "map_of (job_log u) (job_id (jobs u r)) = Some r" "sub_job_index (jobs u r) < length (sub_jobs (jobs u r))"
    and "last_status (jobs u r) \<notin> {CANCELLED, FAILED}" "job_counter (jobs u r) \<le> 3"
    and "processing_date (jobs u r) = Some d" "d \<le> env_now env" "env_comm env = Some comm"
    and "\<And>e. fst (start_job_type comm (env_apks env) (sub_jobs (jobs u r) ! sub_job_index (jobs u r)) e)"
    and "auto_command (jobs u r) = Some a" "ac_redo a"
  shows "job_queue (snd (work_job env r u)) = job_queue u @ [r, r]"
proof -
  define e1 where "e1 = (jobs u r)\<lparr>processing_date := Some (env_now env), last_status := STARTING\<rparr>"
  obtain ok e' where s: "start_job_type comm (env_apks env) (sub_jobs (jobs u r) ! sub_job_index (jobs u r)) e1 = (ok, e')"
    by (cases "start_job_type comm (env_apks env) (sub_jobs (jobs u r) ! sub_job_index (jobs u r)) e1")
  with assms(8) [of e1] have "ok" by simp
  moreover obtain st v where "e' = e1\<lparr>last_status := st, returning := v\<rparr>" using start_job_shape [OF s] by blast
  ultimately have "fst (handle_job env r u) = Again \<and> job_queue (snd (handle_job env r u)) = job_queue u @ [r]"
    using assms(1-7,9,10) s
    by (simp add: handle_job_def run_sub_job_def Let_def schedule_set e1_def restart_job_def update_log_def)
  then show ?thesis by (simp add: work_job_def release_def Let_def case_prod_beta)
qed

lemma redo_is_queued_twice_witness:
  "job_queue (snd (work_job (demo_env 9 True) 0 (demo_due 0 INIT (Some demo_auto)))) = [0, 1, 0, 0]"
  using redo_is_queued_twice [of "demo_due 0 INIT (Some demo_auto)" 0 7 "demo_env 9 True" "dead_comm\<lparr>reboot := Some True\<rparr>" demo_auto]
  by (simp add: attempt_simps demo_auto_def start_job_type_def)

text \<open>
  The waiting time of a later sub job is not kept: the date left by the sub job before it stops the schedule
  from looking at it, so once a first sub job has succeeded the next turn starts the next sub job at once,
  whatever waiting time it asks for.
\<close>

theorem later_waittime_is_skipped:
  assumes "Suc (sub_job_index (jobs u r)) < length (sub_jobs (jobs u r))"
    and "last_status (jobs u r) \<notin> {CANCELLED, FAILED}" "job_counter (jobs u r) \<le> 3"
    and "processing_date (jobs u r) = Some d" "d \<le> env_now env" "env_comm env = Some comm"
    and "\<And>e. fst (start_job_type comm (env_apks env) (sub_jobs (jobs u r) ! sub_job_index (jobs u r)) e)"
    and "auto_command (jobs u r) = None" "env_now env \<le> env_now env'"
  shows "\<exists>u1. handle_job env r u = (Again, u1) \<and> sub_job_index (jobs u1 r) = Suc (sub_job_index (jobs u r))
    \<and> last_status (jobs (snd (handle_job env' r u1)) r) \<in> {SUCCESS, FAILING, NOT_CONNECTED}"
proof -
  define e1 where "e1 = (jobs u r)\<lparr>processing_date := Some (env_now env), last_status := STARTING\<rparr>"
  obtain ok e' where s: "start_job_type comm (env_apks env) (sub_jobs (jobs u r) ! sub_job_index (jobs u r)) e1 = (ok, e')"
    by (cases "start_job_type comm (env_apks env) (sub_jobs (jobs u r) ! sub_job_index (jobs u r)) e1")
  with assms(7) [of e1] have "ok" by simp
  moreover obtain st v where "e' = e1\<lparr>last_status := st, returning := v\<rparr>" using start_job_shape [OF s] by blast
  ultimately obtain u1 where u1: "handle_job env r u = (Again, u1)"
      and j: "jobs u1 r = (jobs u r)\<lparr>processing_date := Some (env_now env), last_status := SUCCESS, returning := v,
        sub_job_index := Suc (sub_job_index (jobs u r)), job_counter := 1\<rparr>"
    using assms(1-6,8) s by (simp add: handle_job_def run_sub_job_def Let_def schedule_set e1_def)
  define e2 where "e2 = (jobs u1 r)\<lparr>processing_date := Some (env_now env'), last_status := STARTING\<rparr>"
  have "last_status (jobs (snd (handle_job env' r u1)) r) \<in> {SUCCESS, FAILING, NOT_CONNECTED}"
  proof (cases "env_comm env'")
    case None
    with assms(1,9) show ?thesis by (simp add: handle_job_def schedule_set j Let_def)
  next
    case (Some c)
    obtain ok2 e3 where s2: "start_job_type c (env_apks env') (sub_jobs (jobs u1 r) ! sub_job_index (jobs u1 r)) e2 = (ok2, e3)"
      by (cases "start_job_type c (env_apks env') (sub_jobs (jobs u1 r) ! sub_job_index (jobs u1 r)) e2")
    moreover obtain st v where "e3 = e2\<lparr>last_status := st, returning := v\<rparr>" using start_job_shape [OF s2] by blast
    ultimately show ?thesis using assms(1,8,9) Some
      by (simp add: handle_job_def run_sub_job_def Let_def schedule_set e2_def j)
  qed
  with u1 j show ?thesis by simp
qed

lemma later_waittime_is_skipped_witness:
  "\<exists>u1. handle_job (demo_env 9 True) 0
      (set_job 0 (\<lambda>e. e\<lparr>sub_jobs := [reboot_job, reboot_job\<lparr>sj_waittime := Some 60\<rparr>]\<rparr>) (demo_due 0 INIT None)) = (Again, u1)
    \<and> last_status (jobs (snd (handle_job (demo_env 10 True) 0 u1)) 0) \<in> {SUCCESS, FAILING, NOT_CONNECTED}"
  using later_waittime_is_skipped [of "set_job 0 (\<lambda>e. e\<lparr>sub_jobs := [reboot_job, reboot_job\<lparr>sj_waittime := Some 60\<rparr>]\<rparr>) (demo_due 0 INIT None)"
      0 7 "demo_env 9 True" "dead_comm\<lparr>reboot := Some True\<rparr>" "demo_env 10 True"]
  by (auto simp: attempt_simps start_job_type_def)

text \<open>
  The time to the next daily run lies within a day, and it is rounded down: a run that starts at the scheduled
  minute starts less than a minute early, and then the next run is due at once.
\<close>

theorem daily_minutes:
  assumes "get_job_algo_value now DAILY (AlgoStr s) = Inr (Some m)"
  shows "0 \<le> m \<and> m < 1440 \<and> (\<exists>h mi. split_char (CHR '':'') s = [h, mi] \<and>
    (case (parse_int h, parse_int mi) of
       (Inr hour, Inr minute) \<Rightarrow> 0 \<le> hour \<and> hour < 24 \<and> 0 \<le> minute \<and> minute < 60 \<and>
         (hour * 3600 + minute * 60 - (now + 60 * m)) mod 86400 < 60 \<and>
         get_job_algo_value (now + 60 * m) DAILY (AlgoStr s) = Inr (Some 0)
     | _ \<Rightarrow> False))"
proof -
  obtain h mi where sp: "split_char (CHR '':'') s = [h, mi]"
    using assms by (auto simp: get_job_algo_value_def split: list.splits)
  obtain hour where h: "parse_int h = Inr hour" using assms sp by (cases "parse_int h") (auto simp: get_job_algo_value_def)
  obtain minute where mi: "parse_int mi = Inr minute" using assms sp h by (cases "parse_int mi") (auto simp: get_job_algo_value_def)
  let ?due = "hour * 3600 + minute * 60"
  have r: "0 \<le> hour" "hour < 24" "0 \<le> minute" "minute < 60" and m: "m = ((?due - now) mod 86400) div 60"
    using assms sp h mi by (auto simp: get_job_algo_value_def split: if_splits)
  have "0 \<le> m" "m < 1440" unfolding m by (simp_all add: pos_imp_zdiv_nonneg_iff)
  moreover have e: "(?due - (now + 60 * m)) mod 86400 < 60"
  proof -
    define x where "x = (?due - now) mod 86400"
    have "(?due - (now + 60 * m)) mod 86400 = (x - 60 * (x div 60)) mod 86400"
      unfolding m x_def mod_diff_left_eq by (simp add: algebra_simps)
    also have "x - 60 * (x div 60) = x mod 60" by (simp add: minus_mult_div_eq_mod)
    finally show ?thesis by simp
  qed
  moreover have "((?due - (now + 60 * m)) mod 86400) div 60 = 0" using e by (simp add: div_pos_pos_trivial)
  ultimately show ?thesis using sp h mi r by (simp add: get_job_algo_value_def)
qed

lemma daily_minutes_witness: "get_job_algo_value 8 DAILY (AlgoStr ''01:30'') = Inr (Some 89) \<and>
  get_job_algo_value (8 + 60 * 89) DAILY (AlgoStr ''01:30'') = Inr (Some 0)"
proof -
  have a: "get_job_algo_value 8 DAILY (AlgoStr ''01:30'') = Inr (Some 89)" by code_simp
  then show ?thesis using daily_minutes [OF a] by (auto split: sum.splits)
qed

section \<open>The smart update\<close>

text \<open>
  On numeric versions a smart update sends the stored package exactly when its version is greater than the installed
  one; otherwise the device is left alone, nothing is read from the storage and the update is reported as not required.
\<close>

theorem smart_update_decides:
  assumes "passthrough comm ''getprop ro.product.cpu.abi'' = Some arch_answer" "bracket_group arch_answer = Some arch_raw"
    and "lookup_arch_enum (IsStr arch_raw) = Inr a"
    and "passthrough comm (''dumpsys package '' @ raw @ '' | grep versionName'') = Some ver_answer" "version_group ver_answer = Some installed"
    and "apk_package raw = Inr t" "t \<noteq> pogo" "stored_packages src t = Some ps" "map_of ps a = Some p"
    and "filename p \<noteq> None" "version p = Some v" "numeric_version v" "numeric_version installed"
  shows "smart_update comm src raw =
    (if numbers_of installed < numbers_of v then (send_package comm src raw t a p, None) else (True, Some NOT_REQUIRED))"
  using assms
  by (auto simp: smart_update_def installed_version_def update_package_def newer_numeric)

definition demo_phone :: device_comm where
  "demo_phone = dead_comm\<lparr>send_apk := (\<lambda>f. Some True),
     passthrough := (\<lambda>c. if c = ''getprop ro.product.cpu.abi'' then Some ''[arm64-v8a]'' else Some ''versionName=1.9.2'')\<rparr>"

definition demo_apks :: "string \<Rightarrow> apk_source" where
  "demo_apks v = no_apks\<lparr>stored_packages := (\<lambda>t. if t = pd then Some [(arm64_v8a, (empty_package pd arm64_v8a)\<lparr>filename := Some ''f'', version := Some v\<rparr>)]
     else None)\<rparr>"

lemma smart_update_decides_witness:
  "smart_update demo_phone (demo_apks ''1.10'') ''com.mad.pogodroid'' = (True, None) \<and>
   smart_update demo_phone (demo_apks ''1.9.2'') ''com.mad.pogodroid'' = (True, Some NOT_REQUIRED)"
proof -
  have parse: "bracket_group ''[arm64-v8a]'' = Some ''arm64-v8a''" "lookup_arch_enum (IsStr ''arm64-v8a'') = Inr arm64_v8a"
    "version_group ''versionName=1.9.2'' = Some ''1.9.2''" "apk_package ''com.mad.pogodroid'' = Inr pd"
    "numeric_version ''1.9.2''" "numeric_version ''1.10''" "numbers_of ''1.9.2'' < numbers_of ''1.10''" by code_simp+
  let ?p = "\<lambda>v. (empty_package pd arm64_v8a)\<lparr>filename := Some ''f'', version := Some v\<rparr>"
  have s: "smart_update demo_phone (demo_apks v) ''com.mad.pogodroid'' =
      (if numbers_of ''1.9.2'' < numbers_of v then (send_package demo_phone (demo_apks v) ''com.mad.pogodroid'' pd arm64_v8a (?p v), None)
       else (True, Some NOT_REQUIRED))" if "numeric_version v" for v
  proof (rule smart_update_decides [where arch_answer = "''[arm64-v8a]''" and arch_raw = "''arm64-v8a''" and ver_answer = "''versionName=1.9.2''"])
    show "stored_packages (demo_apks v) pd = Some [(arm64_v8a, ?p v)]" by (simp add: demo_apks_def)
    show "map_of [(arm64_v8a, ?p v)] arm64_v8a = Some (?p v)" by simp
  qed (fact parse that | simp add: demo_phone_def)+
  have "send_package demo_phone (demo_apks ''1.10'') ''com.mad.pogodroid'' pd arm64_v8a (?p ''1.10'')"
    by (simp add: send_package_def stream_package_def lookup_package_info_def lookup_package_infos_def demo_apks_def demo_phone_def
        no_apks_def empty_package_def dead_comm_def rgc_or_def lower_def)
  with s [OF parse(6)] s [OF parse(5)] parse(7) show ?thesis by simp
qed

end
