(* ===== verification/Communicator.thy ===== *)
theory Communicator
  imports WsClient Updater Geo GameMechanics
begin

text \<open>
  The commands of \<open>mapadroid/websocket/communicator.py\<close> over the request layer, and the device the updater works on
  (\<open>Updater.device_comm\<close>) built from them. An exchange stands for \<open>send_and_wait\<close>: it takes the message, the
  time-out and the command byte and ends as \<open>WsClient.end_request\<close> does. How Python prints a \<open>float\<close> is an argument.
\<close>

datatype comm_error = WsError ws_error | PyError py_error

type_synonym exchange = "message \<Rightarrow> real \<Rightarrow> int option \<Rightarrow> ws_error + message option"

record communicator =
  exchange_with :: exchange
  command_timeout :: real
  show_float :: "real \<Rightarrow> string"
  read_file :: "string \<Rightarrow> 8 word list option"

definition crlf :: string where "crlf = [CHR 0x0D, CHR 0x0A]"

definition show_rounded :: "real \<Rightarrow> string" where "show_rounded x = show_int (py_round x)"

fun comm_bind :: "comm_error + 'a \<Rightarrow> ('a \<Rightarrow> comm_error + 'b) \<Rightarrow> comm_error + 'b" where
  "comm_bind (Inl e) f = Inl e"
| "comm_bind (Inr x) f = f x"

definition ask :: "communicator \<Rightarrow> message \<Rightarrow> real \<Rightarrow> int option \<Rightarrow> comm_error + message option" where
  "ask c msg timeout bc = (case exchange_with c msg timeout bc of Inl e \<Rightarrow> Inl (WsError e) | Inr r \<Rightarrow> Inr r)"

text \<open>\<open>"OK" == result.strip()\<close> is false of bytes.\<close>

definition is_ok :: "message option \<Rightarrow> bool" where
  "is_ok r = (case r of Some (Text s) \<Rightarrow> strip s = ''OK'' | _ \<Rightarrow> False)"

definition run_and_ok_bytes :: "communicator \<Rightarrow> message \<Rightarrow> real \<Rightarrow> int option \<Rightarrow> comm_error + bool" where
  "run_and_ok_bytes c msg timeout bc = comm_bind (ask c msg timeout bc) (\<lambda>r. Inr (is_ok r))"

definition run_and_ok :: "communicator \<Rightarrow> string \<Rightarrow> real \<Rightarrow> comm_error + bool" where
  "run_and_ok c command timeout = run_and_ok_bytes c (Text command) timeout None"

definition run_get_response :: "communicator \<Rightarrow> string \<Rightarrow> real option \<Rightarrow> comm_error + message option" where
  "run_get_response c command timeout =
     ask c (Text command) (case timeout of None \<Rightarrow> command_timeout c | Some t \<Rightarrow> t) None"

definition send_file :: "communicator \<Rightarrow> real \<Rightarrow> string \<Rightarrow> 8 word list option \<Rightarrow> int \<Rightarrow> comm_error + bool" where
  "send_file c timeout filepath data bc =
     (case data of
        Some (b # bs) \<Rightarrow> run_and_ok_bytes c (Binary (b # bs)) timeout (Some bc)
      | _ \<Rightarrow> (case read_file c filepath of
            None \<Rightarrow> Inl (PyError FileNotFoundError)
          | Some bs \<Rightarrow> run_and_ok_bytes c (Binary bs) timeout (Some bc)))"

definition comm_install_apk :: "communicator \<Rightarrow> real \<Rightarrow> string \<Rightarrow> 8 word list option \<Rightarrow> comm_error + bool" where
  "comm_install_apk c timeout filepath data = send_file c timeout filepath data 1"

definition comm_install_bundle :: "communicator \<Rightarrow> real \<Rightarrow> string \<Rightarrow> 8 word list option \<Rightarrow> comm_error + bool" where
  "comm_install_bundle c timeout filepath data = send_file c timeout filepath data 2"

definition comm_start_app :: "communicator \<Rightarrow> string \<Rightarrow> comm_error + bool" where
  "comm_start_app c package = run_and_ok c (''more start '' @ package @ crlf) (command_timeout c)"

definition comm_stop_app :: "communicator \<Rightarrow> string \<Rightarrow> comm_error + bool" where
  "comm_stop_app c package =
     comm_bind (run_and_ok c (''more stop '' @ package @ crlf) (command_timeout c)) (\<lambda>ok. if \<not> ok then Inr False else Inr True)"

definition comm_passthrough :: "communicator \<Rightarrow> string \<Rightarrow> comm_error + message option" where
  "comm_passthrough c command = ask c (Text (''passthrough '' @ command)) (command_timeout c) None"

definition comm_reboot :: "communicator \<Rightarrow> comm_error + bool" where
  "comm_reboot c = run_and_ok c (''more reboot now'' @ crlf) (command_timeout c)"

definition comm_restart_app :: "communicator \<Rightarrow> string \<Rightarrow> comm_error + bool" where
  "comm_restart_app c package = run_and_ok c (''more restart '' @ package @ crlf) (command_timeout c)"

definition reset_app_data :: "communicator \<Rightarrow> string \<Rightarrow> comm_error + bool" where
  "reset_app_data c package = run_and_ok c (''more reset '' @ package @ crlf) (command_timeout c)"

definition clear_app_cache :: "communicator \<Rightarrow> string \<Rightarrow> comm_error + bool" where
  "clear_app_cache c package = run_and_ok c (''more cache '' @ package @ crlf) (command_timeout c)"

definition turn_screen_on :: "communicator \<Rightarrow> comm_error + bool" where
  "turn_screen_on c = run_and_ok c (''more screen on'' @ crlf) (command_timeout c)"

definition click :: "communicator \<Rightarrow> real \<Rightarrow> real \<Rightarrow> comm_error + bool" where
  "click c x y = run_and_ok c (''screen click '' @ show_rounded x @ '' '' @ show_rounded y @ crlf) (command_timeout c)"

definition swipe :: "communicator \<Rightarrow> real \<Rightarrow> real \<Rightarrow> real \<Rightarrow> real \<Rightarrow> comm_error + message option" where
  "swipe c x1 y1 x2 y2 = run_get_response c
     (''touch swipe '' @ show_rounded x1 @ '' '' @ show_rounded y1 @ '' '' @ show_rounded x2 @ '' '' @ show_rounded y2 @ crlf) None"

definition touch_and_hold :: "communicator \<Rightarrow> real \<Rightarrow> real \<Rightarrow> real \<Rightarrow> real \<Rightarrow> int \<Rightarrow> comm_error + bool" where
  "touch_and_hold c x1 y1 x2 y2 duration = run_and_ok c
     (''touch swipe '' @ show_rounded x1 @ '' '' @ show_rounded y1 @ '' '' @ show_rounded x2 @ '' '' @ show_rounded y2 @ '' '' @
      show_int duration) (command_timeout c)"

definition has_text :: "string \<Rightarrow> message option \<Rightarrow> comm_error + bool" where
  "has_text part r = (case r of None \<Rightarrow> Inr False | Some (Text s) \<Rightarrow> Inr (contains_str part s) | Some (Binary b) \<Rightarrow> Inl (PyError TypeError))"

definition is_screen_on :: "communicator \<Rightarrow> comm_error + bool" where
  "is_screen_on c = comm_bind (run_get_response c (''more state screen'' @ crlf) None) (has_text ''on'')"

definition is_pogo_topmost :: "communicator \<Rightarrow> comm_error + bool" where
  "is_pogo_topmost c = comm_bind (run_get_response c (''more topmost app'' @ crlf) None) (has_text ''com.nianticlabs.pokemongo'')"

definition topmost_app :: "communicator \<Rightarrow> comm_error + message option" where
  "topmost_app c = comm_bind (run_get_response c (''more topmost app'' @ crlf) None)
     (\<lambda>r. if r = Some (Binary []) then Inr r else comm_bind (has_text ''KO:'' r) (\<lambda>ko. Inr (if ko then None else r)))"

text \<open>What the device sends for a picture or a log: bytes to store, or \<open>None\<close> for no file.\<close>

definition binary_answer :: "message option \<Rightarrow> 8 word list option" where
  "binary_answer r = (case r of Some (Binary b) \<Rightarrow> Some b | _ \<Rightarrow> None)"

definition get_screenshot :: "communicator \<Rightarrow> int \<Rightarrow> bool \<Rightarrow> comm_error + 8 word list option" where
  "get_screenshot c quality png =
     (if quality < 10 \<or> quality > 100 then Inr None
      else comm_bind (run_get_response c (''screen capture '' @ (if png then ''png'' else ''jpeg'') @ '' '' @ show_int quality @ crlf) None)
        (\<lambda>r. Inr (binary_answer r)))"

definition get_compressed_logcat :: "communicator \<Rightarrow> comm_error + 8 word list option" where
  "get_compressed_logcat c = comm_bind (run_get_response c (''more logcat'' @ crlf) None) (\<lambda>r. Inr (binary_answer r))"

definition comm_set_location :: "communicator \<Rightarrow> location \<Rightarrow> real \<Rightarrow> comm_error + message option" where
  "comm_set_location c loc altitude = run_get_response c
     (''geo fix '' @ show_float c (lat loc) @ '' '' @ show_float c (lng loc) @ '' '' @ show_float c altitude @ crlf) None"

definition terminate_connection :: "communicator \<Rightarrow> comm_error + bool" where
  "terminate_connection c =
     (case run_and_ok c (''exit'' @ crlf) 5 of Inl (WsError ConnectionClosed) \<Rightarrow> Inr True | r \<Rightarrow> r)"

text \<open>Walking blocks until the device arrives: the time of the way is added to the time-out.\<close>

definition walk_from_to :: "communicator \<Rightarrow> location \<Rightarrow> location \<Rightarrow> real \<Rightarrow> comm_error + message option" where
  "walk_from_to c l1 l2 speed =
     (if speed / 3.6 = 0 then Inl (PyError ZeroDivisionError)
      else run_get_response c (''geo walk '' @ show_float c (lat l1) @ '' '' @ show_float c (lng l1) @ '' '' @ show_float c (lat l2) @ '' '' @
             show_float c (lng l2) @ '' '' @ show_float c speed @ crlf)
        (Some (command_timeout c + get_distance_of_two_points_in_meters (lat l1) (lng l1) (lat l2) (lng l2) / (speed / 3.6))))"

definition get_ptc_status :: "communicator \<Rightarrow> int" where
  "get_ptc_status c =
     (case run_get_response c (''more http head https://sso.pokemon.com/sso/login'' @ crlf) None of
        Inr (Some (Text s)) \<Rightarrow> (case parse_int s of Inr i \<Rightarrow> i | Inl e \<Rightarrow> 500)
      | Inr (Some (Binary b)) \<Rightarrow> (case parse_int (map (\<lambda>x. char_of (unat x)) b) of Inr i \<Rightarrow> i | Inl e \<Rightarrow> 500)
      | _ \<Rightarrow> 500)"

section \<open>The device of the updater\<close>

definition no_raise :: "comm_error + 'a \<Rightarrow> 'a option" where
  "no_raise r = (case r of Inl e \<Rightarrow> None | Inr x \<Rightarrow> Some x)"

definition updater_device :: "communicator \<Rightarrow> string \<Rightarrow> (string option \<Rightarrow> 8 word list) \<Rightarrow> device_comm" where
  "updater_device c upload_path contents =
     \<lparr>install_apk = (\<lambda>f. no_raise (comm_install_apk c 300 (upload_path @ ''/'' @ f) None)),
      install_bundle = (\<lambda>f. no_raise (comm_install_bundle c 600 (upload_path @ ''/'' @ f) None)),
      reboot = no_raise (comm_reboot c),
      restart_app = no_raise (comm_restart_app c ''com.nianticlabs.pokemongo''),
      stop_app = no_raise (comm_stop_app c ''com.nianticlabs.pokemongo''),
      start_app = no_raise (comm_start_app c ''com.nianticlabs.pokemongo''),
      passthrough = (\<lambda>cmd. case comm_passthrough c cmd of Inr (Some (Text s)) \<Rightarrow> Some s | _ \<Rightarrow> None),
      send_apk = (\<lambda>f. no_raise (comm_install_apk c 300 [] (Some (contents f)))),
      send_bundle = (\<lambda>f. no_raise (comm_install_bundle c 300 [] (Some (contents f))))\<rparr>"

definition silent :: "communicator \<Rightarrow> bool" where
  "silent c \<longleftrightarrow> (\<forall>msg t bc. exchange_with c msg t bc \<notin> range (\<lambda>m. Inr (Some m)))"

lemma silent_ask: "silent c \<Longrightarrow> (\<exists>e. ask c msg t bc = Inl e) \<or> ask c msg t bc = Inr None"
  unfolding silent_def ask_def by (cases "exchange_with c msg t bc"; cases "projr (exchange_with c msg t bc)") (auto, metis rangeI)

lemma silent_ok: "silent c \<Longrightarrow> no_raise (run_and_ok_bytes c msg t bc) \<noteq> Some True"
  using silent_ask [of c msg t bc] by (auto simp: run_and_ok_bytes_def no_raise_def is_ok_def)

lemma silent_file: "silent c \<Longrightarrow> no_raise (send_file c t f d bc) \<noteq> Some True"
  by (auto simp: send_file_def silent_ok no_raise_def [of "Inl _"] split: option.split list.split)

text \<open>
  Over a connection that never answers no sub job succeeds, whatever its type and whatever is stored, unless it installs the
  remote controller itself, whose answer is not waited for; the updater then gives the job up after four attempts.
\<close>

theorem silent_device_fails_jobs:
  assumes "silent c" "env_comm env = Some (updater_device c upload contents)"
    and "\<not> contains_str ''remotegpscontroller'' (lower (sj_syntax sj))"
  shows "never_works sj env"
proof -
  let ?d = "updater_device c upload contents"
  have ok: "install_apk ?d f \<noteq> Some True" "install_bundle ?d f \<noteq> Some True" "reboot ?d \<noteq> Some True"
      "restart_app ?d \<noteq> Some True" "start_app ?d \<noteq> Some True" for f
    using assms(1) by (simp_all add: updater_device_def comm_install_apk_def comm_install_bundle_def silent_file comm_reboot_def
        comm_restart_app_def comm_start_app_def run_and_ok_def silent_ok)
  have stop: "stop_app ?d \<noteq> Some True"
    using silent_ok [OF assms(1), of "Text (''more stop '' @ ''com.nianticlabs.pokemongo'' @ crlf)" "command_timeout c" None]
    by (cases "run_and_ok c (''more stop '' @ ''com.nianticlabs.pokemongo'' @ crlf) (command_timeout c)")
      (auto simp: updater_device_def comm_stop_app_def run_and_ok_def no_raise_def)
  have pass: "passthrough ?d cmd = None" for cmd
    using silent_ask [OF assms(1)] by (auto simp: updater_device_def comm_passthrough_def split: sum.split option.split message.split)
      (metis Inr_inject option.distinct(1) sum.distinct(1))+
  have "\<not> fst (start_job_type ?d (env_apks env) sj e)" for e
  proof (cases "sj_type sj")
    case INSTALLATION
    then show ?thesis using ok(1,2) [of "sj_syntax sj"] assms(3)
      by (auto simp: start_job_type_def rgc_or_def Let_def split: option.splits)
  next
    case SMART_UPDATE
    then show ?thesis by (simp add: start_job_type_def smart_update_def pass)
  qed (simp_all add: start_job_type_def ok stop pass)
  with assms(2) show ?thesis by (auto simp: never_works_def)
qed

definition dead_line :: communicator where
  "dead_line = \<lparr>exchange_with = (\<lambda>_ _ _. Inl ConnectionClosed), command_timeout = 30, show_float = (\<lambda>_. []), read_file = (\<lambda>_. Some [])\<rparr>"

lemma silent_device_fails_jobs_witness:
  "never_works reboot_job ((demo_env 5 True)\<lparr>env_comm := Some (updater_device dead_line [] (\<lambda>_. []))\<rparr>)"
proof -
  have "silent dead_line" by (auto simp: silent_def dead_line_def)
  from silent_device_fails_jobs [OF this] show ?thesis by (simp add: reboot_job_def lower_def)
qed

end
