(* ===== verification/RouteManager.thy ===== *)
theory RouteManager
  imports Subroutes PrioQueue Account
begin

text \<open>
  The route managers: \<open>mapadroid/route/RouteManagerBase.py\<close> with the hooks of its subclasses, dispatched
  on the kind of the manager. The entries of the route pool live in an explicit store, because
  \<open>get_next_location\<close> keeps a reference to the caller's entry while the pool is replaced by one whose
  entries are copies (\<open>_populate_subroutes\<close> runs in another process). A call runs without
  interleaving. What the database, the clock and the route calculation answer during a call is the record
  \<open>rm_env\<close>.
\<close>

section \<open>State\<close>

datatype rm_kind = Quests | Leveling | MonRoute | RaidRoute | IVRoute | IdleRoute | InitRoute

datatype rm_error = RoutemanagerShuttingDown | RmFailed py_error

record area_settings =
  quest_layer :: int
  init_mode_rounds :: int
  including_stops :: bool
  coords_spawns_known :: bool

record route_manager =
  rm_kind :: rm_kind
  rm_settings :: area_settings
  rm_max_radius :: real
  rm_max_coords :: int
  max_clustering :: int
  mon_ids_iv :: "int list"
  starve_route :: bool
  is_started :: bool
  shutdown_route :: bool
  start_calc :: bool
  check_task :: bool
  route :: "location list"
  round_coords :: "location list"
  coords_to_be_ignored :: "location set"
  rm_pool :: "(string, nat) dict"
  store :: "nat \<Rightarrow> route_entry"
  next_ref :: nat
  roundcount :: real
  round_started_time :: "real option"
  worker_start_position :: "(string, location) dict"
  workers_registered :: "string set"
  prio_q :: "prio_queue option"
  stoplist :: "location list"

record rm_env =
  now :: real
  stops_without_quests :: "location list"
  stops_all :: "location list"
  gyms :: "location list"
  spawns_known :: "location list"
  spawns_unknown :: "location list"
  middle_of_fence :: location
  generated :: "real \<Rightarrow> location list"
  calculated :: "bool \<Rightarrow> bool \<Rightarrow> location list \<Rightarrow> location list result"
  calc_ends :: bool
  wait_times :: "int list"
  unvisited_stops :: "string \<Rightarrow> location \<Rightarrow> location list option"

type_synonym 'a rm_result = "route_manager \<times> (rm_error + 'a)"

definition rm_bind :: "'a rm_result \<Rightarrow> ('a \<Rightarrow> route_manager \<Rightarrow> 'b rm_result) \<Rightarrow> 'b rm_result" where
  "rm_bind m f = (case m of (rm, Inl e) \<Rightarrow> (rm, Inl e) | (rm, Inr x) \<Rightarrow> f x rm)"

text \<open>The entry a worker has in the pool, by reference.\<close>

definition set_entry :: "nat \<Rightarrow> (route_entry \<Rightarrow> route_entry) \<Rightarrow> route_manager \<Rightarrow> route_manager" where
  "set_entry ref f rm = rm\<lparr>store := (store rm)(ref := f (store rm ref))\<rparr>"

definition pool_entries :: "route_manager \<Rightarrow> routepool" where
  "pool_entries rm = map (\<lambda>(origin, ref). (origin, store rm ref)) (rm_pool rm)"

text \<open>New objects for the entries of a pool.\<close>

definition alloc_pool :: "routepool \<Rightarrow> route_manager \<Rightarrow> (string, nat) dict \<times> route_manager" where
  "alloc_pool entries rm =
     (let refs = [next_ref rm ..< next_ref rm + length entries]
      in (zip (map fst entries) refs,
          rm\<lparr>store := (\<lambda>r. if next_ref rm \<le> r \<and> r < next_ref rm + length entries
                then snd (entries ! (r - next_ref rm)) else store rm r),
             next_ref := next_ref rm + length entries\<rparr>))"

section \<open>Hooks of the subclasses\<close>

definition purpose :: "route_manager \<Rightarrow> account_purpose" where
  "purpose rm = (case rm_kind rm of
       Quests \<Rightarrow> if mon_ids_iv rm \<noteq> [] then IV_QUEST else QUEST
     | Leveling \<Rightarrow> LEVEL
     | IVRoute \<Rightarrow> IV
     | IdleRoute \<Rightarrow> MON_RAID
     | _ \<Rightarrow> if mon_ids_iv rm \<noteq> [] then IV else MON_RAID)"

definition get_coords_fresh :: "rm_env \<Rightarrow> bool \<Rightarrow> route_manager \<Rightarrow> location list" where
  "get_coords_fresh env dynamic rm = (case rm_kind rm of
       Quests \<Rightarrow> if dynamic then stops_without_quests env else stops_all env
     | Leveling \<Rightarrow> [middle_of_fence env]
     | MonRoute \<Rightarrow> if coords_spawns_known (rm_settings rm) then spawns_known env else spawns_unknown env
     | RaidRoute \<Rightarrow> gyms env @ (if including_stops (rm_settings rm) then stops_all env else [])
     | IVRoute \<Rightarrow> [middle_of_fence env]
     | IdleRoute \<Rightarrow> [Loc 0 0]
     | InitRoute \<Rightarrow> generated env (rm_max_radius rm * 2))"

definition delete_coord_after_fetch :: "route_manager \<Rightarrow> bool" where
  "delete_coord_after_fetch rm = (rm_kind rm = Quests)"

definition should_get_new_coords :: "route_manager \<Rightarrow> bool" where
  "should_get_new_coords rm = (case rm_kind rm of
       Quests \<Rightarrow> True | InitRoute \<Rightarrow> init_mode_rounds (rm_settings rm) > 1 | _ \<Rightarrow> False)"

definition has_normal_route :: "route_manager \<Rightarrow> bool" where
  "has_normal_route rm = (rm_kind rm \<noteq> IVRoute)"

definition can_pass_prioq_coords :: "route_manager \<Rightarrow> bool" where
  "can_pass_prioq_coords rm = (rm_kind rm \<noteq> IVRoute)"

text \<open>The base class asks for the mode, which is idle for the idle manager only.\<close>

definition may_update_routepool :: "route_manager \<Rightarrow> bool" where
  "may_update_routepool rm = (rm_kind rm \<noteq> IVRoute \<and> rm_kind rm \<noteq> IdleRoute)"

definition is_coord_within_range_of_stoplist :: "location \<Rightarrow> route_manager \<Rightarrow> bool" where
  "is_coord_within_range_of_stoplist l rm =
     (if max_clustering rm = 1 then l \<in> set (stoplist rm)
      else if l \<in> set (stoplist rm) then True
      else list_ex (\<lambda>stop. dist_loc stop l < rm_max_radius rm) (stoplist rm))"

definition check_coords_before_returning :: "location \<Rightarrow> route_manager \<Rightarrow> bool" where
  "check_coords_before_returning l rm = (case rm_kind rm of
       Quests \<Rightarrow> \<not> (l \<in> coords_to_be_ignored rm \<or> \<not> is_coord_within_range_of_stoplist l rm)
     | Leveling \<Rightarrow> l \<notin> coords_to_be_ignored rm
     | _ \<Rightarrow> True)"

text \<open>\<open>RouteManagerLeveling\<close> calls the empty hook of the base class.\<close>

definition quit_route :: "route_manager \<Rightarrow> route_manager" where
  "quit_route rm = (case rm_kind rm of
       Quests \<Rightarrow> if is_started rm then rm\<lparr>shutdown_route := True, is_started := False, round_started_time := None\<rparr> else rm
     | Leveling \<Rightarrow> rm
     | _ \<Rightarrow> rm\<lparr>is_started := False, round_started_time := None\<rparr>)"

section \<open>Stopping and registration\<close>

definition init_route_queue :: "route_manager \<Rightarrow> route_manager" where
  "init_route_queue rm = (if 0 < length (route rm) then rm\<lparr>round_coords := route rm\<rparr> else rm)"

definition stop_internal_tasks :: "route_manager \<Rightarrow> route_manager" where
  "stop_internal_tasks rm = rm\<lparr>prio_q := map_option pq_stop (prio_q rm), check_task := False, shutdown_route := False\<rparr>"

definition stop_routemanager :: "route_manager \<Rightarrow> route_manager" where
  "stop_routemanager rm =
     (if shutdown_route rm then rm
      else stop_internal_tasks (quit_route (rm\<lparr>shutdown_route := True, is_started := False\<rparr>)))"

definition register_worker :: "string \<Rightarrow> route_manager \<Rightarrow> bool \<times> route_manager" where
  "register_worker w rm =
     (if w \<in> workers_registered rm then (False, rm)
      else (True, rm\<lparr>workers_registered := insert w (workers_registered rm)\<rparr>))"

definition set_priority_queue_strategy :: "prio_strategy option \<Rightarrow> route_manager \<Rightarrow> (route_manager \<times> py_error option)" where
  "set_priority_queue_strategy new_strategy rm =
     (case (new_strategy, prio_q rm) of
        (None, None) \<Rightarrow> (rm, Some AttributeError)
      | (None, Some q) \<Rightarrow> (rm\<lparr>prio_q := None\<rparr>, None)
      | (Some s, None) \<Rightarrow> (rm\<lparr>prio_q := Some (pq_start (new_prio_queue (Some s)))\<rparr>, None)
      | (Some s, Some q) \<Rightarrow> (rm, None))"

definition add_coord_to_be_removed :: "real \<Rightarrow> real \<Rightarrow> route_manager \<Rightarrow> route_manager" where
  "add_coord_to_be_removed la lo rm =
     (if la < - 90 \<or> la > 90 \<or> lo < - 180 \<or> lo > 180 then rm
      else rm\<lparr>coords_to_be_ignored := insert (Loc la lo) (coords_to_be_ignored rm)\<rparr>)"

section \<open>Replacing the route pool\<close>

definition mixin_update_routepools :: "route_manager \<Rightarrow> (string, nat) dict option \<times> route_manager" where
  "mixin_update_routepools rm =
     (if \<not> may_update_routepool rm \<and> round_coords rm = [] then (None, rm)
      else if \<not> may_update_routepool rm then (Some (rm_pool rm), rm)
      else (case divide_route (filter (\<lambda>l. l \<notin> coords_to_be_ignored rm) (round_coords rm)) (pool_entries rm) of
          None \<Rightarrow> (None, rm)
        | Some entries \<Rightarrow> (let (pool, rm') = alloc_pool entries rm in (Some pool, rm'))))"

text \<open>
  \<open>RouteManagerLeveling\<close> works on the entries themselves. The stops it filters into
  \<open>origin_local_list\<close> are replaced by the new route, and \<open>entry.queue[0]\<close> raises on an empty one.
\<close>

fun leveling_entries :: "rm_env \<Rightarrow> (string \<times> nat) list \<Rightarrow> route_manager \<Rightarrow> unit rm_result" where
  "leveling_entries env [] rm = (rm, Inr ())"
| "leveling_entries env ((origin, ref) # rest) rm =
     (if entry_queue (store rm ref) \<noteq> [] then leveling_entries env rest rm
      else (case unvisited_stops env origin (current_pos (store rm ref)) of
          None \<Rightarrow> leveling_entries env rest rm
        | Some [] \<Rightarrow> leveling_entries env rest rm
        | Some stops \<Rightarrow>
            (case calculated env False False stops of
               Inl e \<Rightarrow> (rm, Inl (RmFailed e))
             | Inr new_route \<Rightarrow>
                 (let rm' = set_entry ref (\<lambda>e. e\<lparr>subroute := new_route, entry_queue := new_route\<rparr>) rm
                  in if new_route = [] then (rm', Inl (RmFailed IndexError)) else leveling_entries env rest rm'))))"

definition leveling_update_routepools :: "rm_env \<Rightarrow> route_manager \<Rightarrow> (string, nat) dict option rm_result" where
  "leveling_update_routepools env rm =
     (if workers_registered rm = {} then (rm, Inr None)
      else rm_bind (leveling_entries env (rm_pool rm) rm) (\<lambda>_ rm'. (rm', Inr (Some (rm_pool rm')))))"

definition update_routepool :: "rm_env \<Rightarrow> route_manager \<Rightarrow> bool rm_result" where
  "update_routepool env rm =
     rm_bind (if rm_kind rm = Leveling then leveling_update_routepools env rm
              else (let (new, rm') = mixin_update_routepools rm in (rm', Inr new)))
       (\<lambda>new rm'. case new of
          None \<Rightarrow> (rm', Inr False)
        | Some pool \<Rightarrow> (if pool = [] then rm' else rm'\<lparr>rm_pool := pool\<rparr>, Inr True))"

definition unregister_worker :: "rm_env \<Rightarrow> string \<Rightarrow> bool \<Rightarrow> route_manager \<Rightarrow> unit rm_result" where
  "unregister_worker env w remove_entry rm =
     (let rm1 = rm\<lparr>workers_registered := workers_registered rm - {w}\<rparr>
      in rm_bind (if remove_entry \<and> map_of (rm_pool rm1) w \<noteq> None
                  then update_routepool env (rm1\<lparr>rm_pool := AList.delete w (rm_pool rm1)\<rparr>) else (rm1, Inr False))
           (\<lambda>_ rm2. (if workers_registered rm2 = {} \<and> is_started rm2 then stop_routemanager rm2 else rm2, Inr ())))"

section \<open>Calculating the route and starting\<close>

definition base_calculate_route :: "rm_env \<Rightarrow> bool \<Rightarrow> bool \<Rightarrow> route_manager \<Rightarrow> unit rm_result" where
  "base_calculate_route env dynamic overwrite rm =
     (let coords = get_coords_fresh env dynamic rm;
          coords = (if dynamic then filter (\<lambda>c. c \<notin> coords_to_be_ignored rm) coords else coords)
      in if coords = [] \<and> dynamic then (stop_routemanager rm, Inl RoutemanagerShuttingDown)
         else (case calculated env (\<not> dynamic \<and> \<not> overwrite) overwrite coords of
             Inl e \<Rightarrow> (rm\<lparr>start_calc := False\<rparr>, Inl (RmFailed e))
           | Inr new_route \<Rightarrow>
               rm_bind (update_routepool env
                   (init_route_queue (rm\<lparr>start_calc := False, route := new_route, round_coords := new_route\<rparr>)))
                 (\<lambda>_ rm'. (rm', Inr ()))))"

definition quests_calculate_route :: "rm_env \<Rightarrow> bool \<Rightarrow> bool \<Rightarrow> route_manager \<Rightarrow> unit rm_result" where
  "quests_calculate_route env dynamic overwrite rm =
     base_calculate_route env dynamic overwrite
       (rm\<lparr>stoplist := if dynamic then stops_without_quests env else stops_all env\<rparr>)"

definition init_calculate_route :: "rm_env \<Rightarrow> bool \<Rightarrow> route_manager \<Rightarrow> unit rm_result" where
  "init_calculate_route env dynamic rm =
     (let coords = get_coords_fresh env dynamic rm;
          coords = (if dynamic then filter (\<lambda>c. c \<notin> coords_to_be_ignored rm) coords else coords)
      in rm_bind (update_routepool env (init_route_queue (rm\<lparr>route := coords, round_coords := coords\<rparr>)))
           (\<lambda>_ rm'. (rm', Inr ())))"

definition calculate_route :: "rm_env \<Rightarrow> bool \<Rightarrow> bool \<Rightarrow> route_manager \<Rightarrow> unit rm_result" where
  "calculate_route env dynamic overwrite rm = (case rm_kind rm of
       Quests \<Rightarrow> quests_calculate_route env dynamic overwrite rm
     | InitRoute \<Rightarrow> init_calculate_route env dynamic rm
     | _ \<Rightarrow> base_calculate_route env dynamic overwrite rm)"

definition base_start_routemanager :: "rm_env \<Rightarrow> route_manager \<Rightarrow> bool rm_result" where
  "base_start_routemanager env rm =
     (if is_started rm then (rm, Inr True)
      else rm_bind (calculate_route env False False (rm\<lparr>is_started := True, coords_to_be_ignored := {}\<rparr>))
             (\<lambda>_ rm'. (init_route_queue (rm'\<lparr>prio_q := map_option pq_start (prio_q rm'), check_task := True\<rparr>), Inr True)))"

definition quests_start_routemanager :: "rm_env \<Rightarrow> route_manager \<Rightarrow> bool rm_result" where
  "quests_start_routemanager env rm =
     (if shutdown_route rm then (rm, Inr False)
      else if is_started rm then (rm, Inr True)
      else rm_bind (calculate_route env True False (rm\<lparr>is_started := True\<rparr>))
             (\<lambda>_ rm'. (rm'\<lparr>check_task := True\<rparr>, Inr True)))"

definition leveling_start_routemanager :: "rm_env \<Rightarrow> route_manager \<Rightarrow> bool rm_result" where
  "leveling_start_routemanager env rm =
     (if is_started rm then (rm, Inr True)
      else if shutdown_route rm then (rm\<lparr>is_started := True\<rparr>, Inr False)
      else (rm\<lparr>is_started := True, prio_q := None, starve_route := False, check_task := True\<rparr>, Inr True))"

definition start_routemanager :: "rm_env \<Rightarrow> route_manager \<Rightarrow> bool rm_result" where
  "start_routemanager env rm = (case rm_kind rm of
       Quests \<Rightarrow> quests_start_routemanager env rm
     | Leveling \<Rightarrow> leveling_start_routemanager env rm
     | _ \<Rightarrow> base_start_routemanager env rm)"

definition quests_any_coords_left :: "rm_env \<Rightarrow> route_manager \<Rightarrow> bool rm_result" where
  "quests_any_coords_left env rm =
     (if shutdown_route rm then (rm, Inr False)
      else if start_calc rm then (rm, Inr True)
      else if stoplist rm = [] then (stop_routemanager rm, Inr False)
      else if filter (\<lambda>c. c \<notin> coords_to_be_ignored rm) (stops_without_quests env) \<noteq> [] then (rm, Inr True)
      else (stop_routemanager rm, Inr False))"

definition leveling_any_coords_left :: "rm_env \<Rightarrow> route_manager \<Rightarrow> bool rm_result" where
  "leveling_any_coords_left env rm =
     (if shutdown_route rm then (rm, Inr False) else update_routepool env rm)"

definition any_coords_left :: "rm_env \<Rightarrow> route_manager \<Rightarrow> bool rm_result" where
  "any_coords_left env rm = (case rm_kind rm of
       Quests \<Rightarrow> quests_any_coords_left env rm
     | Leveling \<Rightarrow> leveling_any_coords_left env rm
     | IVRoute \<Rightarrow> (rm, Inr True)
     | InitRoute \<Rightarrow> (rm, Inr True)
     | _ \<Rightarrow> (init_route_queue rm, Inr True))"

section \<open>The next location\<close>

datatype next_location =
    NextLocation location
  | NoLocation
  | StillWaiting
  | NextRaised rm_error

definition set_routepool_entry_location :: "rm_env \<Rightarrow> string \<Rightarrow> location \<Rightarrow> route_manager \<Rightarrow> route_manager" where
  "set_routepool_entry_location env origin pos rm =
     (case map_of (rm_pool rm) origin of
        None \<Rightarrow> rm
      | Some ref \<Rightarrow> set_entry ref (\<lambda>e. e\<lparr>current_pos := pos, last_access := now env, worker_sleeping := 0\<rparr>) rm)"

definition check_coord_and_remove :: "location \<Rightarrow> route_manager \<Rightarrow> bool \<times> route_manager" where
  "check_coord_and_remove l rm =
     (if check_coords_before_returning l rm
      then (True, if delete_coord_after_fetch rm then rm\<lparr>round_coords := removeAll l (round_coords rm)\<rparr> else rm)
      else (False, rm))"

text \<open>\<open>statistics.median\<close>\<close>

definition median :: "int list \<Rightarrow> real" where
  "median xs = (let s = sort xs; n = length s
     in if odd n then real_of_int (s ! (n div 2)) else real_of_int (s ! (n div 2 - 1) + s ! (n div 2)) / 2)"

definition get_worker_rounds_run_through :: "route_manager \<Rightarrow> real" where
  "get_worker_rounds_run_through rm =
     (let rs = map (\<lambda>(origin, ref). rounds (store rm ref)) (rm_pool rm)
      in if length rs = 0 then 0 else median rs)"

text \<open>One worker of the loop over the pool; the state is the closest worker so far and its distance.\<close>

definition closer_step ::
    "route_manager \<Rightarrow> location \<Rightarrow> string \<Rightarrow> string \<times> nat \<Rightarrow> nat option \<times> real \<Rightarrow> nat option \<times> real" where
  "closer_step rm prioqcoord origin = (\<lambda>(worker, ref) (closer, temp_distance).
     if worker = origin \<or> prio_coord (store rm ref) \<noteq> None
       \<or> last_position_type (store rm (the (map_of (rm_pool rm) origin))) = PrioqPos
     then (closer, temp_distance)
     else (let prio_distance = dist_loc (current_pos (store rm ref)) prioqcoord
           in if prio_distance < temp_distance then (Some ref, prio_distance) else (closer, temp_distance)))"

definition other_worker_closer_to_prioq :: "location \<Rightarrow> string \<Rightarrow> route_manager \<Rightarrow> bool \<times> route_manager" where
  "other_worker_closer_to_prioq prioqcoord origin rm =
     (if length (rm_pool rm) = 1 then (False, rm)
      else (case map_of (rm_pool rm) origin of
          None \<Rightarrow> (False, rm)
        | Some ref \<Rightarrow>
            (let distance_worker = dist_loc (current_pos (store rm ref)) prioqcoord
             in case fst (fold (closer_step rm prioqcoord origin) (rm_pool rm) (None, distance_worker)) of
                  None \<Rightarrow> (False, rm)
                | Some closer \<Rightarrow> (True, set_entry closer (\<lambda>e. e\<lparr>prio_coord := Some prioqcoord\<rparr>) rm))))"

datatype prio_outcome = Picked location | NothingDue | Blocked

text \<open>
  The \<open>while\<close> loop that skips events not to be visited or passed to a closer worker. Every turn pops one
  event, so the length of the queue bounds the turns.
\<close>

fun pop_acceptable ::
    "nat \<Rightarrow> rm_env \<Rightarrow> string \<Rightarrow> prio_queue \<Rightarrow> location \<Rightarrow> route_manager \<Rightarrow> prio_outcome \<times> route_manager" where
  "pop_acceptable fuel env origin q loc rm =
     (let (good, rm1) = check_coord_and_remove loc rm;
          (passed, rm2) = (if good then other_worker_closer_to_prioq loc origin rm1 else (False, rm1))
      in if good \<and> \<not> passed then (Picked loc, rm2\<lparr>prio_q := Some q\<rparr>)
         else (case fuel of
             0 \<Rightarrow> (NothingDue, rm2\<lparr>prio_q := Some q\<rparr>)
           | Suc fuel' \<Rightarrow>
               (case pop_event \<lfloor>now env\<rfloor> q of
                  Inl _ \<Rightarrow> (NothingDue, rm2\<lparr>prio_q := Some q\<rparr>)
                | Inr (entry, q') \<Rightarrow> pop_acceptable fuel' env origin q' (due_location entry) rm2)))"

text \<open>Waiting for an event at the given times, for a manager without a normal route.\<close>

fun await_event :: "int list \<Rightarrow> prio_queue \<Rightarrow> (prio_entry \<times> prio_queue) option" where
  "await_event [] q = None"
| "await_event (t # ts) q =
     (case pop_event t q of
        Inl _ \<Rightarrow> await_event ts q
      | Inr (entry, q') \<Rightarrow> if timestamp_due entry = 0 then await_event ts q' else Some (entry, q'))"

definition prioq_location :: "rm_env \<Rightarrow> string \<Rightarrow> prio_queue \<Rightarrow> route_manager \<Rightarrow> prio_outcome \<times> route_manager" where
  "prioq_location env origin q rm =
     (if \<not> has_normal_route rm
      then (case await_event (wait_times env) q of
          None \<Rightarrow> (Blocked, rm)
        | Some (entry, q') \<Rightarrow>
            (if can_pass_prioq_coords rm
             then pop_acceptable (length (queue q')) env origin q' (due_location entry) rm
             else (Picked (due_location entry), rm\<lparr>prio_q := Some q'\<rparr>)))
      else (case pop_event \<lfloor>now env\<rfloor> q of
          Inl _ \<Rightarrow> (NothingDue, rm)
        | Inr (entry, q') \<Rightarrow>
            (if real_of_int (timestamp_due entry) > now env then (NothingDue, rm\<lparr>prio_q := Some q'\<rparr>)
             else if can_pass_prioq_coords rm
             then pop_acceptable (length (queue q')) env origin q' (due_location entry) rm
             else (Picked (due_location entry), rm\<lparr>prio_q := Some q'\<rparr>))))"

text \<open>Taking locations off the queue of an entry until one is to be visited.\<close>

function take_from_queue :: "nat \<Rightarrow> route_manager \<Rightarrow> location option \<times> route_manager" where
  "take_from_queue ref rm =
     (case entry_queue (store rm ref) of
        [] \<Rightarrow> (None, rm)
      | l # rest \<Rightarrow>
          (let (good, rm') = check_coord_and_remove l (set_entry ref (\<lambda>e. e\<lparr>entry_queue := rest\<rparr>) rm)
           in if good then (Some l, rm') else take_from_queue ref rm'))"
  by pat_completeness auto
termination
  by (relation "measure (\<lambda>(ref, rm). length (entry_queue (store rm ref)))")
    (auto simp: check_coord_and_remove_def set_entry_def split: if_splits)

declare take_from_queue.simps [simp del] pop_acceptable.simps [simp del]

definition touch :: "rm_env \<Rightarrow> nat \<Rightarrow> route_manager \<Rightarrow> route_manager" where
  "touch env ref = set_entry ref (\<lambda>e. e\<lparr>last_access := now env\<rparr>)"

text \<open>
  The part after the queue was refilled; \<open>ref\<close> is the entry fetched at the start of the call, whatever
  the pool holds now.
\<close>

definition deliver :: "rm_env \<Rightarrow> string \<Rightarrow> nat \<Rightarrow> route_manager \<Rightarrow> next_location \<times> route_manager" where
  "deliver env origin ref rm =
     (if entry_queue (store rm ref) = [] then (NoLocation, touch env ref rm)
      else (case take_from_queue ref rm of
          (None, rm') \<Rightarrow> (NoLocation, rm')
        | (Some l, rm') \<Rightarrow> (NextLocation l, set_routepool_entry_location env origin l rm')))"

definition refill_and_deliver :: "rm_env \<Rightarrow> string \<Rightarrow> nat \<Rightarrow> route_manager \<Rightarrow> next_location \<times> route_manager" where
  "refill_and_deliver env origin ref rm =
     (case update_routepool env rm of
        (rm', Inl e) \<Rightarrow> (NextRaised e, rm')
      | (rm', Inr updated) \<Rightarrow>
          (if \<not> updated \<or> map_of (rm_pool rm') origin = None then (NoLocation, rm')
           else (let q = entry_queue (store rm' ref); s = subroute (store rm' ref)
                 in if q = [] \<and> s = [] then (NoLocation, touch env ref rm')
                    else if q = [] \<and> s \<noteq> [] then deliver env origin ref (set_entry ref (\<lambda>e. e\<lparr>entry_queue := q @ s\<rparr>) rm')
                    else if q \<noteq> [] \<and> s \<noteq> [] then deliver env origin ref rm'
                    else (NoLocation, rm'))))"

definition finish_subroute :: "rm_env \<Rightarrow> string \<Rightarrow> nat \<Rightarrow> route_manager \<Rightarrow> next_location \<times> route_manager" where
  "finish_subroute env origin ref rm =
     (if should_get_new_coords rm
      then (case any_coords_left env rm of
          (rm', Inl e) \<Rightarrow> (NextRaised e, rm')
        | (rm', Inr False) \<Rightarrow> (NoLocation, rm')
        | (rm', Inr True) \<Rightarrow>
            (case calculate_route env True False rm' of
               (rm'', Inl e) \<Rightarrow> (NextRaised e, rm'')
             | (rm'', Inr _) \<Rightarrow> refill_and_deliver env origin ref rm''))
      else refill_and_deliver env origin ref rm)"

definition normal_location :: "rm_env \<Rightarrow> string \<Rightarrow> nat \<Rightarrow> route_manager \<Rightarrow> next_location \<times> route_manager" where
  "normal_location env origin ref rm0 =
     (if \<not> has_normal_route rm0 then (NoLocation, rm0)
      else (let rm = set_entry ref (\<lambda>e. e\<lparr>last_position_type := NormalPos\<rparr>) rm0;
                new_round = (get_worker_rounds_run_through rm > roundcount rm);
                rm1 = (if new_round then rm\<lparr>roundcount := get_worker_rounds_run_through rm, round_started_time := Some (now env)\<rparr>
                       else if round_started_time rm = None then rm\<lparr>round_started_time := Some (now env)\<rparr> else rm)
            in if new_round \<and> route rm1 = [] then (NoLocation, rm1)
               else if entry_queue (store rm1 ref) = []
               then finish_subroute env origin ref (set_entry ref (\<lambda>e. e\<lparr>rounds := rounds e + 1\<rparr>) rm1)
               else deliver env origin ref rm1))"

definition prio_or_normal :: "rm_env \<Rightarrow> string \<Rightarrow> nat \<Rightarrow> route_manager \<Rightarrow> next_location \<times> route_manager" where
  "prio_or_normal env origin ref rm =
     (case prio_q rm of
        None \<Rightarrow> normal_location env origin ref rm
      | Some q \<Rightarrow>
          (if last_position_type (store rm ref) = PrioqPos \<and> \<not> starve_route rm then normal_location env origin ref rm
           else (case prioq_location env origin q rm of
               (Picked l, rm') \<Rightarrow> (NextLocation l, set_routepool_entry_location env origin l
                   (set_entry ref (\<lambda>e. e\<lparr>last_position_type := PrioqPos\<rparr>) rm'))
             | (NothingDue, rm') \<Rightarrow> normal_location env origin ref rm'
             | (Blocked, rm') \<Rightarrow> (StillWaiting, touch env ref rm'))))"

definition new_entry :: "rm_env \<Rightarrow> location \<Rightarrow> route_entry" where
  "new_entry env pos = \<lparr>last_access = now env, subroute = [], time_added = now env, entry_queue = [], rounds = 0,
     current_pos = pos, prio_coord = None, worker_sleeping = 0, last_position_type = NormalPos\<rparr>"

definition add_pool_entry :: "rm_env \<Rightarrow> string \<Rightarrow> route_manager \<Rightarrow> route_manager" where
  "add_pool_entry env origin rm =
     rm\<lparr>rm_pool := AList.update origin (next_ref rm) (rm_pool rm),
        store := (store rm)(next_ref rm :=
          new_entry env (case map_of (worker_start_position rm) origin of None \<Rightarrow> Loc 0 0 | Some l \<Rightarrow> l)),
        next_ref := next_ref rm + 1\<rparr>"

definition pooled_location :: "rm_env \<Rightarrow> string \<Rightarrow> route_manager \<Rightarrow> next_location \<times> route_manager" where
  "pooled_location env origin rm =
     (case map_of (rm_pool rm) origin of
        None \<Rightarrow>
          (case update_routepool env (add_pool_entry env origin rm) of
             (rm', Inl e) \<Rightarrow> (NextRaised e, rm')
           | (rm', Inr updated) \<Rightarrow>
               (case map_of (rm_pool rm') origin of
                  None \<Rightarrow> (NoLocation, rm')
                | Some ref \<Rightarrow> if updated then prio_or_normal env origin ref rm' else (NoLocation, rm')))
      | Some ref \<Rightarrow>
          (case prio_coord (store rm ref) of
             Some prioevent \<Rightarrow>
               (if can_pass_prioq_coords rm
                then (NextLocation prioevent, set_entry ref (\<lambda>e. e\<lparr>last_position_type := PrioqPos\<rparr>)
                        (set_routepool_entry_location env origin prioevent (set_entry ref (\<lambda>e. e\<lparr>prio_coord := None\<rparr>) rm)))
                else prio_or_normal env origin ref rm)
           | None \<Rightarrow> prio_or_normal env origin ref rm))"

definition base_get_next_location :: "rm_env \<Rightarrow> string \<Rightarrow> route_manager \<Rightarrow> next_location \<times> route_manager" where
  "base_get_next_location env origin rm =
     (if origin \<notin> workers_registered rm then (NoLocation, rm)
      else if shutdown_route rm then (NextRaised RoutemanagerShuttingDown, rm)
      else (case (if is_started rm then (rm, Inr True) else start_routemanager env rm) of
          (rm', Inl e) \<Rightarrow> (NextRaised e, rm')
        | (rm', Inr False) \<Rightarrow> (NoLocation, rm')
        | (rm', Inr True) \<Rightarrow>
            (if start_calc rm' \<and> \<not> calc_ends env then (NoLocation, rm')
             else pooled_location env origin (rm'\<lparr>start_calc := False\<rparr>))))"

definition get_next_location :: "rm_env \<Rightarrow> string \<Rightarrow> route_manager \<Rightarrow> next_location \<times> route_manager" where
  "get_next_location env origin rm =
     (if rm_kind rm = IdleRoute then (NextLocation (Loc 0 0), rm) else base_get_next_location env origin rm)"

section \<open>The remaining operations\<close>

text \<open>One pass of \<open>_check_routepools\<close>.\<close>

fun check_routepool_workers :: "rm_env \<Rightarrow> real \<Rightarrow> string list \<Rightarrow> route_manager \<Rightarrow> unit rm_result" where
  "check_routepool_workers env timeout [] rm = (rm, Inr ())"
| "check_routepool_workers env timeout (origin # origins) rm =
     (case map_of (rm_pool rm) origin of
        None \<Rightarrow> check_routepool_workers env timeout origins rm
      | Some ref \<Rightarrow>
          (if now env > last_access (store rm ref) + timeout + worker_sleeping (store rm ref)
           then rm_bind (unregister_worker env origin True rm) (\<lambda>_. check_routepool_workers env timeout origins)
           else check_routepool_workers env timeout origins rm))"

definition check_routepools :: "rm_env \<Rightarrow> route_manager \<Rightarrow> unit rm_result" where
  "check_routepools env rm =
     (if shutdown_route rm \<or> \<not> check_task rm \<or> start_calc rm then (rm, Inr ())
      else check_routepool_workers env 600 (map fst (rm_pool rm)) rm)"

definition set_worker_sleeping :: "rm_env \<Rightarrow> string \<Rightarrow> real \<Rightarrow> route_manager \<Rightarrow> route_manager" where
  "set_worker_sleeping env origin sleep_duration rm =
     (case map_of (rm_pool rm) origin of
        Some ref \<Rightarrow> if sleep_duration > 0
          then set_entry ref (\<lambda>e. e\<lparr>last_access := now env, worker_sleeping := sleep_duration\<rparr>) rm else rm
      | None \<Rightarrow> rm)"

definition get_route_status :: "string \<Rightarrow> route_manager \<Rightarrow> int \<times> int" where
  "get_route_status origin rm =
     (case map_of (rm_pool rm) origin of
        Some ref \<Rightarrow> if route rm \<noteq> []
          then (int (length (subroute (store rm ref))) - int (length (entry_queue (store rm ref))), int (length (subroute (store rm ref))))
          else (- 1, - 1)
      | None \<Rightarrow> (- 1, - 1))"

definition get_position_type :: "string \<Rightarrow> route_manager \<Rightarrow> rm_position_type option" where
  "get_position_type origin rm = map_option (\<lambda>ref. last_position_type (store rm ref)) (map_of (rm_pool rm) origin)"

definition get_current_prioroute :: "route_manager \<Rightarrow> prio_entry list" where
  "get_current_prioroute rm = (case prio_q rm of None \<Rightarrow> [] | Some q \<Rightarrow> get_copy_of_prioq q)"

definition redo_stop_immediately :: "string \<Rightarrow> real \<Rightarrow> real \<Rightarrow> route_manager \<Rightarrow> bool \<times> route_manager" where
  "redo_stop_immediately w la lo rm =
     (case map_of (rm_pool rm) w of
        Some ref \<Rightarrow> (True, set_entry ref (\<lambda>e. e\<lparr>prio_coord := Some (Loc la lo)\<rparr>) rm)
      | None \<Rightarrow> (False, rm))"

definition redo_stop_at_end :: "string \<Rightarrow> location \<Rightarrow> route_manager \<Rightarrow> route_manager" where
  "redo_stop_at_end w l rm =
     (let rm1 = (case map_of (rm_pool rm) w of
            Some ref \<Rightarrow> set_entry ref (\<lambda>e. e\<lparr>entry_queue := entry_queue e @ [l]\<rparr>) rm
          | None \<Rightarrow> rm)
      in if delete_coord_after_fetch rm1 then rm1\<lparr>round_coords := round_coords rm1 @ [l]\<rparr> else rm1)"

definition set_worker_startposition :: "string \<Rightarrow> real \<Rightarrow> real \<Rightarrow> route_manager \<Rightarrow> route_manager" where
  "set_worker_startposition w la lo rm =
     rm\<lparr>worker_start_position := AList.update w (Loc la lo) (worker_start_position rm)\<rparr>"

definition get_amount_of_coords_scannable :: "rm_env \<Rightarrow> route_manager \<Rightarrow> nat" where
  "get_amount_of_coords_scannable env rm =
     length (filter (\<lambda>c. c \<notin> coords_to_be_ignored rm) (get_coords_fresh env True rm))"

section \<open>Histories\<close>

text \<open>\<open>RouteManagerBase.__init__\<close>: a manager without workers.\<close>

definition new_route_manager ::
    "rm_kind \<Rightarrow> area_settings \<Rightarrow> real \<Rightarrow> int \<Rightarrow> int \<Rightarrow> int list \<Rightarrow> bool \<Rightarrow> prio_strategy option \<Rightarrow> route_manager" where
  "new_route_manager k settings radius max_coords max_cl ids starve strat =
     \<lparr>rm_kind = k, rm_settings = settings, rm_max_radius = radius, rm_max_coords = max_coords,
      max_clustering = max_cl, mon_ids_iv = ids, starve_route = starve, is_started = False, shutdown_route = False,
      start_calc = False, check_task = False, route = [], round_coords = [], coords_to_be_ignored = {},
      rm_pool = [], store = (\<lambda>_. undefined), next_ref = 0, roundcount = 0, round_started_time = None,
      worker_start_position = [], workers_registered = {}, prio_q = map_option (\<lambda>s. new_prio_queue (Some s)) strat,
      stoplist = []\<rparr>"

datatype rm_op =
    Register string
  | Unregister rm_env string bool
  | GetNext rm_env string
  | CheckPools rm_env
  | Sleeping rm_env string real
  | RedoNow string real real
  | RedoAtEnd string location
  | StartPosition string real real
  | Ignore real real
  | Recalculate rm_env bool bool
  | StartManager rm_env
  | StopManager
  | SetPrioStrategy "prio_strategy option"

fun rm_step :: "rm_op \<Rightarrow> route_manager \<Rightarrow> route_manager" where
  "rm_step (Register w) rm = snd (register_worker w rm)"
| "rm_step (Unregister env w b) rm = fst (unregister_worker env w b rm)"
| "rm_step (GetNext env w) rm = snd (get_next_location env w rm)"
| "rm_step (CheckPools env) rm = fst (check_routepools env rm)"
| "rm_step (Sleeping env w d) rm = set_worker_sleeping env w d rm"
| "rm_step (RedoNow w la lo) rm = snd (redo_stop_immediately w la lo rm)"
| "rm_step (RedoAtEnd w l) rm = redo_stop_at_end w l rm"
| "rm_step (StartPosition w la lo) rm = set_worker_startposition w la lo rm"
| "rm_step (Ignore la lo) rm = add_coord_to_be_removed la lo rm"
| "rm_step (Recalculate env dyn ov) rm = fst (calculate_route env dyn ov rm)"
| "rm_step (StartManager env) rm = fst (start_routemanager env rm)"
| "rm_step StopManager rm = stop_routemanager rm"
| "rm_step (SetPrioStrategy s) rm = fst (set_priority_queue_strategy s rm)"

definition rm_run :: "rm_op list \<Rightarrow> route_manager \<Rightarrow> route_manager" where
  "rm_run ops = fold rm_step ops"

section \<open>The invariant of a manager\<close>

text \<open>
  Every worker has at most one entry, no two workers share one, every entry was allocated, and no
  operation leaves the shutdown flag set.
\<close>

definition rm_inv :: "route_manager \<Rightarrow> bool" where
  "rm_inv rm \<longleftrightarrow> dict_wf (rm_pool rm) \<and> distinct (map snd (rm_pool rm)) \<and>
     (\<forall>ref \<in> snd ` set (rm_pool rm). ref < next_ref rm) \<and> \<not> shutdown_route rm"

lemma rm_inv_cong:
  "rm_inv rm \<Longrightarrow> rm_pool rm' = rm_pool rm \<Longrightarrow> next_ref rm' = next_ref rm \<Longrightarrow> shutdown_route rm' = shutdown_route rm \<Longrightarrow> rm_inv rm'"
  by (simp add: rm_inv_def)

lemma set_entry_fields [simp]:
  "rm_pool (set_entry ref f rm) = rm_pool rm" "next_ref (set_entry ref f rm) = next_ref rm"
  "shutdown_route (set_entry ref f rm) = shutdown_route rm" "rm_kind (set_entry ref f rm) = rm_kind rm"
  "coords_to_be_ignored (set_entry ref f rm) = coords_to_be_ignored rm" "stoplist (set_entry ref f rm) = stoplist rm"
  "round_coords (set_entry ref f rm) = round_coords rm" "max_clustering (set_entry ref f rm) = max_clustering rm"
  "rm_max_radius (set_entry ref f rm) = rm_max_radius rm" "route (set_entry ref f rm) = route rm"
  "workers_registered (set_entry ref f rm) = workers_registered rm" "is_started (set_entry ref f rm) = is_started rm"
  "rm_settings (set_entry ref f rm) = rm_settings rm" "prio_q (set_entry ref f rm) = prio_q rm"
  "start_calc (set_entry ref f rm) = start_calc rm"
  "roundcount (set_entry ref f rm) = roundcount rm" "round_started_time (set_entry ref f rm) = round_started_time rm"
  by (simp_all add: set_entry_def)

lemma store_set_entry [simp]: "store (set_entry ref f rm) x = (if x = ref then f (store rm ref) else store rm x)"
  by (simp add: set_entry_def)

lemma rm_inv_stop: "rm_inv rm \<Longrightarrow> rm_inv (stop_routemanager rm)"
  by (cases "rm_kind rm") (simp_all add: stop_routemanager_def stop_internal_tasks_def quit_route_def rm_inv_def)

lemma divide_route_wf: "dict_wf pool \<Longrightarrow> divide_route coords pool = Some pool' \<Longrightarrow> dict_wf pool'"
  using divide_route_divided [of pool coords] divide_route_empty [of pool]
  by (cases "pool = []"; cases "coords = []") (auto simp: divide_route.simps [of coords "[]"] divided_def Let_def)

lemma pool_entries_keys: "map fst (pool_entries rm) = map fst (rm_pool rm)"
  by (simp add: pool_entries_def split_beta comp_def)

lemma mixin_update_cases:
  "mixin_update_routepools rm = (None, rm) \<or> mixin_update_routepools rm = (Some (rm_pool rm), rm) \<or>
   (\<exists>coords entries. divide_route coords (pool_entries rm) = Some entries \<and>
      mixin_update_routepools rm = (Some (fst (alloc_pool entries rm)), snd (alloc_pool entries rm)))"
  by (auto simp: mixin_update_routepools_def split_beta split: option.splits)

lemma rm_inv_delete: "rm_inv rm \<Longrightarrow> rm_inv (rm\<lparr>workers_registered := ws, rm_pool := AList.delete w (rm_pool rm)\<rparr>)"
  by (auto simp: rm_inv_def dict_wf_delete) (auto simp: AList.delete_eq distinct_map inj_on_def)

lemma rm_inv_alloc:
  assumes "rm_inv rm" and "divide_route coords (pool_entries rm) = Some entries"
  shows "rm_inv (snd (alloc_pool entries rm))"
    and "rm_inv ((snd (alloc_pool entries rm))\<lparr>rm_pool := fst (alloc_pool entries rm)\<rparr>)"
proof -
  have "dict_wf (pool_entries rm)" using assms(1) by (simp add: rm_inv_def dict_wf_def pool_entries_keys)
  from divide_route_wf [OF this assms(2)] assms(1)
  show "rm_inv (snd (alloc_pool entries rm))"
    and "rm_inv ((snd (alloc_pool entries rm))\<lparr>rm_pool := fst (alloc_pool entries rm)\<rparr>)"
    by (fastforce simp: rm_inv_def alloc_pool_def Let_def, auto simp: rm_inv_def alloc_pool_def Let_def dict_wf_def dest: set_zip_rightD)
qed

lemma rm_inv_add_entry:
  assumes "rm_inv rm" and "map_of (rm_pool rm) w = None"
  shows "rm_inv (add_pool_entry env w rm)"
proof -
  have "AList.update w r (rm_pool rm) = rm_pool rm @ [(w, r)]" for r
    using assms(2) by (rule update_new_key)
  with assms show ?thesis by (force simp: rm_inv_def add_pool_entry_def dict_wf_def map_of_eq_None_iff)
qed

lemma rm_inv_new: "rm_inv (new_route_manager k settings radius mc cl ids starve strat)"
  by (simp add: new_route_manager_def rm_inv_def)

text \<open>
  A property of managers that depends only on the pool, the references handed out, the shutdown flag and
  the kind, and that the few steps changing those keep, is kept by every operation.
\<close>

locale rm_frame =
  fixes I :: "route_manager \<Rightarrow> bool"
  assumes I_cong: "I rm \<Longrightarrow> rm_pool rm' = rm_pool rm \<Longrightarrow> next_ref rm' = next_ref rm \<Longrightarrow>
      shutdown_route rm' = shutdown_route rm \<Longrightarrow> rm_kind rm' = rm_kind rm \<Longrightarrow> I rm'"
    and I_alloc: "I rm \<Longrightarrow> divide_route coords (pool_entries rm) = Some entries \<Longrightarrow> I (snd (alloc_pool entries rm))"
    and I_alloc_pool: "I rm \<Longrightarrow> divide_route coords (pool_entries rm) = Some entries \<Longrightarrow>
      I ((snd (alloc_pool entries rm))\<lparr>rm_pool := fst (alloc_pool entries rm)\<rparr>)"
    and I_delete: "I rm \<Longrightarrow> I (rm\<lparr>workers_registered := ws, rm_pool := AList.delete w (rm_pool rm)\<rparr>)"
    and I_add_entry: "I rm \<Longrightarrow> map_of (rm_pool rm) w = None \<Longrightarrow> I (add_pool_entry env w rm)"
    and I_stop: "I rm \<Longrightarrow> I (stop_routemanager rm)"
begin

lemma I_upd:
  assumes "I rm"
  shows "I (rm\<lparr>round_coords := cs\<rparr>)" "I (rm\<lparr>start_calc := b\<rparr>)" "I (rm\<lparr>workers_registered := ws\<rparr>)"
    "I (rm\<lparr>worker_start_position := ps\<rparr>)" "I (rm\<lparr>coords_to_be_ignored := cset\<rparr>)" "I (rm\<lparr>prio_q := q\<rparr>)"
    "I (rm\<lparr>rm_pool := rm_pool rm\<rparr>)"
  by (rule I_cong [OF assms], simp_all)+

lemma I_bind:
  assumes "I (fst m)" and "\<And>x rm'. I rm' \<Longrightarrow> I (fst (f x rm'))"
  shows "I (fst (rm_bind m f))"
  using assms by (auto simp: rm_bind_def split: prod.splits sum.splits)

lemma I_set_entry: "I rm \<Longrightarrow> I (set_entry ref f rm)"
  by (rule I_cong) simp_all

lemma I_location: "I rm \<Longrightarrow> I (set_routepool_entry_location env w l rm)"
  by (simp add: set_routepool_entry_location_def I_set_entry split: option.splits)

lemma I_init_queue: "I rm \<Longrightarrow> I (init_route_queue rm)"
  by (simp add: init_route_queue_def I_upd)

lemma I_leveling: "I rm \<Longrightarrow> I (fst (leveling_entries env ents rm))"
  by (induction env ents rm rule: leveling_entries.induct)
    (auto simp: Let_def I_set_entry split: option.splits list.splits sum.splits)

lemma I_update:
  assumes "I rm"
  shows "I (fst (update_routepool env rm))"
proof (cases "rm_kind rm = Leveling")
  case True
  have "I (fst (leveling_entries env (rm_pool rm) rm))" using assms by (rule I_leveling)
  then show ?thesis
    using assms True
    by (auto simp: update_routepool_def leveling_update_routepools_def rm_bind_def
        split: prod.splits sum.splits if_splits intro: I_cong)
next
  case False
  have eq: "fst (update_routepool env rm) = (case mixin_update_routepools rm of
      (None, rm') \<Rightarrow> rm' | (Some pool, rm') \<Rightarrow> if pool = [] then rm' else rm'\<lparr>rm_pool := pool\<rparr>)"
    using False by (simp add: update_routepool_def rm_bind_def split: prod.splits option.splits)
  from mixin_update_cases [of rm] show ?thesis
  proof (elim disjE exE conjE)
    assume "mixin_update_routepools rm = (None, rm)"
    with assms show ?thesis by (simp only: eq) simp
  next
    assume "mixin_update_routepools rm = (Some (rm_pool rm), rm)"
    with assms show ?thesis by (simp only: eq) (simp add: I_cong)
  next
    fix coords entries assume "divide_route coords (pool_entries rm) = Some entries"
      and "mixin_update_routepools rm = (Some (fst (alloc_pool entries rm)), snd (alloc_pool entries rm))"
    with I_alloc [OF assms] I_alloc_pool [OF assms] show ?thesis by (simp only: eq) simp
  qed
qed

lemma I_unregister:
  assumes "I rm"
  shows "I (fst (unregister_worker env w b rm))"
proof -
  have "I (rm\<lparr>workers_registered := workers_registered rm - {w}\<rparr>)" by (rule I_cong [OF assms]) simp_all
  with assms show ?thesis
    unfolding unregister_worker_def Let_def
    by (intro I_bind) (simp_all add: I_update I_delete I_stop)
qed

lemma I_base_calculate:
  assumes "I rm"
  shows "I (fst (base_calculate_route env dynamic overwrite rm))"
proof -
  have set_route: "I (rm\<lparr>start_calc := False, route := r, round_coords := r\<rparr>)" for r
    by (rule I_cong [OF assms]) simp_all
  have clear: "I (rm\<lparr>start_calc := False\<rparr>)" by (rule I_cong [OF assms]) simp_all
  have "I (fst (rm_bind (update_routepool env (init_route_queue (rm\<lparr>start_calc := False, route := r, round_coords := r\<rparr>)))
                 (\<lambda>_ rm'. (rm', Inr ()))))" for r
    by (intro I_bind) (simp_all add: I_update I_init_queue set_route)
  with assms clear show ?thesis
    by (simp add: base_calculate_route_def Let_def I_stop split: sum.splits)
qed

lemma I_calculate:
  assumes "I rm"
  shows "I (fst (calculate_route env dynamic overwrite rm))"
proof -
  have "I (rm\<lparr>stoplist := ss\<rparr>)" and set_route: "I (rm\<lparr>route := r, round_coords := r\<rparr>)" for ss r
    by (rule I_cong [OF assms], simp_all)+
  moreover from set_route have "I (fst (init_calculate_route env dynamic rm))"
    unfolding init_calculate_route_def Let_def by (intro I_bind) (simp_all add: I_update I_init_queue)
  ultimately show ?thesis
    using assms by (cases "rm_kind rm") (simp_all add: calculate_route_def quests_calculate_route_def I_base_calculate)
qed

lemma I_start:
  assumes "I rm"
  shows "I (fst (start_routemanager env rm))"
proof -
  have upd: "I (rm'\<lparr>is_started := b\<rparr>)" "I (rm'\<lparr>is_started := b, coords_to_be_ignored := c\<rparr>)"
      "I (rm'\<lparr>prio_q := q, check_task := b\<rparr>)" "I (rm'\<lparr>check_task := b\<rparr>)"
      "I (rm'\<lparr>is_started := b, prio_q := q, starve_route := b', check_task := b\<rparr>)" if "I rm'" for rm' b b' c q
    by (rule I_cong [OF that], simp_all)+
  have "I (fst (base_start_routemanager env rm))"
    using assms unfolding base_start_routemanager_def
    by (simp, intro conjI impI I_bind) (simp_all add: upd I_calculate I_init_queue)
  moreover have "I (fst (quests_start_routemanager env rm))"
    using assms unfolding quests_start_routemanager_def
    by (simp, intro conjI impI I_bind) (simp_all add: upd I_calculate)
  moreover have "I (fst (leveling_start_routemanager env rm))"
    using assms unfolding leveling_start_routemanager_def by (simp add: upd)
  ultimately show ?thesis by (cases "rm_kind rm") (simp_all add: start_routemanager_def)
qed

lemma I_any_left: "I rm \<Longrightarrow> I (fst (any_coords_left env rm))"
  by (cases "rm_kind rm")
    (simp_all add: any_coords_left_def quests_any_coords_left_def leveling_any_coords_left_def I_stop I_update I_init_queue)

lemma I_check: "I rm \<Longrightarrow> I (snd (check_coord_and_remove l rm))"
  by (simp add: check_coord_and_remove_def I_upd)

lemma I_closer: "I rm \<Longrightarrow> I (snd (other_worker_closer_to_prioq l w rm))"
  by (simp add: other_worker_closer_to_prioq_def I_set_entry Let_def split: option.splits)

lemma I_pop_acceptable: "I rm \<Longrightarrow> I (snd (pop_acceptable fuel env w q l rm))"
proof (induction fuel arbitrary: q l rm)
  case 0
  then show ?case
    by (subst pop_acceptable.simps) (simp add: split_beta I_check I_closer I_upd Let_def)
next
  case (Suc fuel)
  then show ?case
    by (subst pop_acceptable.simps)
      (simp add: split_beta I_check I_closer I_upd Let_def split: sum.splits)
qed

lemma I_prioq_location: "I rm \<Longrightarrow> I (snd (prioq_location env w q rm))"
  by (simp add: prioq_location_def I_pop_acceptable I_upd split: option.splits sum.splits)

lemma I_take: "I rm \<Longrightarrow> I (snd (take_from_queue ref rm))"
proof (induction ref rm rule: take_from_queue.induct)
  case (1 ref rm)
  show ?case
  proof (cases "entry_queue (store rm ref)")
    case Nil
    with 1 show ?thesis by (simp add: take_from_queue.simps [of ref rm])
  next
    case (Cons l rest)
    let ?c = "check_coord_and_remove l (set_entry ref (\<lambda>e. e\<lparr>entry_queue := rest\<rparr>) rm)"
    obtain good rm' where c: "?c = (good, rm')" by (cases ?c)
    have i: "I rm'" using I_check [OF I_set_entry [OF "1.prems"], of l ref "\<lambda>e. e\<lparr>entry_queue := rest\<rparr>"] c by simp
    show ?thesis
    proof (cases good)
      case False
      with "1.IH" [OF Cons c [symmetric] refl False i] Cons c show ?thesis by (simp add: take_from_queue.simps [of ref rm])
    qed (use Cons c i in \<open>simp add: take_from_queue.simps [of ref rm]\<close>)
  qed
qed

lemma I_touch: "I rm \<Longrightarrow> I (touch env ref rm)"
  by (simp add: touch_def I_set_entry)

lemma I_deliver:
  assumes "I rm"
  shows "I (snd (deliver env w ref rm))"
  using assms I_take [OF assms, of ref]
  by (cases "take_from_queue ref rm") (simp add: deliver_def I_touch I_location split: option.splits)

lemma I_refill:
  assumes "I rm"
  shows "I (snd (refill_and_deliver env w ref rm))"
  using I_update [OF assms, of env]
  by (cases "update_routepool env rm")
    (simp add: refill_and_deliver_def I_touch I_deliver I_set_entry Let_def split: sum.splits)

lemma I_finish:
  assumes "I rm"
  shows "I (snd (finish_subroute env w ref rm))"
proof -
  obtain rm1 r1 where any: "any_coords_left env rm = (rm1, r1)" by (cases "any_coords_left env rm")
  obtain rm2 r2 where calc: "calculate_route env True False rm1 = (rm2, r2)" by (cases "calculate_route env True False rm1")
  have i1: "I rm1" using I_any_left [OF assms, of env] any by simp
  have i2: "I rm2" using I_calculate [OF i1, of env True False] calc by simp
  show ?thesis
    using assms i1 i2 by (simp add: finish_subroute_def any calc I_refill split: sum.splits bool.splits)
qed

lemma I_normal:
  assumes "I rm"
  shows "I (snd (normal_location env w ref rm))"
proof -
  have upd: "I (rm'\<lparr>roundcount := c, round_started_time := t\<rparr>)" "I (rm'\<lparr>round_started_time := t\<rparr>)"
    if "I rm'" for rm' c t by (rule I_cong [OF that], simp_all)+
  show ?thesis
    using assms
    by (simp add: normal_location_def Let_def I_set_entry upd I_finish I_deliver)
qed

lemma I_prio_or_normal:
  assumes "I rm"
  shows "I (snd (prio_or_normal env w ref rm))"
proof (cases "prio_q rm")
  case None
  with assms show ?thesis by (simp add: prio_or_normal_def I_normal)
next
  case (Some q)
  with assms I_prioq_location [OF assms, of env w q] show ?thesis
    by (cases "prioq_location env w q rm")
      (simp add: prio_or_normal_def I_normal I_location I_set_entry I_touch split: prio_outcome.splits)
qed

lemma I_pooled:
  assumes "I rm"
  shows "I (snd (pooled_location env w rm))"
proof (cases "map_of (rm_pool rm) w")
  case None
  from I_update [OF I_add_entry [OF assms None, of env], of env] show ?thesis
    using None by (cases "update_routepool env (add_pool_entry env w rm)")
      (simp add: pooled_location_def I_prio_or_normal split: sum.splits option.splits)
next
  case (Some ref)
  with assms show ?thesis
    by (simp add: pooled_location_def I_prio_or_normal I_set_entry I_location split: option.splits)
qed

lemma I_get_next:
  assumes "I rm"
  shows "I (snd (get_next_location env w rm))"
proof -
  obtain rm1 r where st: "(if is_started rm then (rm, Inr True) else start_routemanager env rm) = (rm1, r)"
    by (cases "if is_started rm then (rm, Inr True) else start_routemanager env rm") auto
  have i1: "I rm1" using I_start [OF assms, of env] assms st by (auto split: if_splits)
  then have "I (rm1\<lparr>start_calc := False\<rparr>)" by (rule I_upd)
  with assms i1 st show ?thesis
    by (simp add: get_next_location_def base_get_next_location_def I_pooled split: sum.splits bool.splits)
qed

lemma I_check_workers: "I rm \<Longrightarrow> I (fst (check_routepool_workers env t ws rm))"
proof (induction ws arbitrary: rm)
  case (Cons w ws)
  have "I (fst (rm_bind (unregister_worker env w True rm) (\<lambda>_. check_routepool_workers env t ws)))"
    by (intro I_bind I_unregister Cons)
  with Cons show ?case by (simp split: option.splits)
qed simp

lemma I_step: "I rm \<Longrightarrow> I (rm_step x rm)"
proof (cases x)
  case (SetPrioStrategy s)
  assume "I rm"
  with SetPrioStrategy show ?thesis
    by (cases s; cases "prio_q rm") (simp_all add: set_priority_queue_strategy_def I_upd)
next
  case (RedoAtEnd w l)
  assume "I rm"
  with RedoAtEnd show ?thesis
    by (simp add: redo_stop_at_end_def Let_def I_upd I_set_entry split: option.splits)
next
  case (Register w)
  assume "I rm"
  with Register show ?thesis by (simp add: register_worker_def I_upd)
next
  case (StartPosition w la lo)
  assume "I rm"
  with StartPosition show ?thesis by (simp add: set_worker_startposition_def I_upd)
next
  case (Ignore la lo)
  assume "I rm"
  with Ignore show ?thesis by (simp add: add_coord_to_be_removed_def I_upd)
qed (simp_all add: I_unregister I_get_next check_routepools_def I_check_workers set_worker_sleeping_def
    I_set_entry redo_stop_immediately_def I_calculate I_start I_stop split: option.splits)

lemma I_run: "I rm \<Longrightarrow> I (rm_run ops rm)"
  unfolding rm_run_def by (induction ops arbitrary: rm) (simp_all add: I_step)

end

interpretation inv: rm_frame rm_inv
proof unfold_locales
  fix rm rm' coords entries ws w env
  show "rm_inv rm \<Longrightarrow> rm_pool rm' = rm_pool rm \<Longrightarrow> next_ref rm' = next_ref rm \<Longrightarrow>
      shutdown_route rm' = shutdown_route rm \<Longrightarrow> rm_kind rm' = rm_kind rm \<Longrightarrow> rm_inv rm'"
    by (rule rm_inv_cong)
qed (simp_all add: rm_inv_alloc rm_inv_delete rm_inv_add_entry rm_inv_stop)

interpretation knd: rm_frame "\<lambda>rm. rm_kind rm = k" for k
  by unfold_locales
    (simp_all add: alloc_pool_def Let_def add_pool_entry_def stop_routemanager_def stop_internal_tasks_def quit_route_def
      split: rm_kind.splits)

section \<open>What is handed out is to be visited\<close>

definition visit_ok :: "location \<Rightarrow> route_manager \<Rightarrow> bool" where
  "visit_ok l rm \<longleftrightarrow> check_coords_before_returning l rm \<and> (rm_kind rm = Quests \<longrightarrow> l \<notin> set (round_coords rm))"

lemma check_cong:
  "coords_to_be_ignored rm' = coords_to_be_ignored rm \<Longrightarrow> stoplist rm' = stoplist rm \<Longrightarrow> rm_kind rm' = rm_kind rm \<Longrightarrow>
   max_clustering rm' = max_clustering rm \<Longrightarrow> rm_max_radius rm' = rm_max_radius rm \<Longrightarrow>
   check_coords_before_returning l rm' = check_coords_before_returning l rm"
  by (cases "rm_kind rm") (simp_all add: check_coords_before_returning_def is_coord_within_range_of_stoplist_def)

lemma visit_ok_set_entry [simp]: "visit_ok l (set_entry ref f rm) = visit_ok l rm"
  by (simp add: visit_ok_def check_cong [of "set_entry ref f rm" rm])

lemma visit_ok_prio_q [simp]: "visit_ok l (rm\<lparr>prio_q := q\<rparr>) = visit_ok l rm"
  by (simp add: visit_ok_def check_cong [of "rm\<lparr>prio_q := q\<rparr>" rm])

lemma visit_ok_location [simp]: "visit_ok l (set_routepool_entry_location env w pos rm) = visit_ok l rm"
  by (simp add: set_routepool_entry_location_def split: option.splits)

lemma check_coord_visit: "check_coord_and_remove l rm = (True, rm') \<Longrightarrow> visit_ok l rm'"
  using check_cong [of "rm\<lparr>round_coords := removeAll l (round_coords rm)\<rparr>" rm l]
  by (auto simp: check_coord_and_remove_def visit_ok_def delete_coord_after_fetch_def split: if_splits)

lemma closer_visit: "visit_ok l (snd (other_worker_closer_to_prioq l' w rm)) = visit_ok l rm"
  by (simp add: other_worker_closer_to_prioq_def Let_def split: option.splits)

lemma pop_acceptable_visit: "pop_acceptable fuel env w q l rm = (Picked l', rm') \<Longrightarrow> visit_ok l' rm'"
proof (induction fuel arbitrary: q l rm)
  case 0
  obtain good rm1 where c: "check_coord_and_remove l rm = (good, rm1)" by (cases "check_coord_and_remove l rm")
  with 0 check_coord_visit [of l rm rm1] closer_visit [of l l w rm1] show ?case
    by (subst (asm) pop_acceptable.simps) (auto simp: split_beta Let_def split: if_splits)
next
  case (Suc fuel)
  obtain good rm1 where c: "check_coord_and_remove l rm = (good, rm1)" by (cases "check_coord_and_remove l rm")
  with Suc check_coord_visit [of l rm rm1] closer_visit [of l l w rm1] show ?case
    by (subst (asm) (2) pop_acceptable.simps) (auto simp: split_beta Let_def split: if_splits sum.splits)
qed

lemma prioq_location_visit:
  "prioq_location env w q rm = (Picked l, rm') \<Longrightarrow> rm_kind rm \<noteq> IVRoute \<Longrightarrow> visit_ok l rm'"
  by (auto simp: prioq_location_def has_normal_route_def can_pass_prioq_coords_def dest: pop_acceptable_visit
      split: sum.splits if_splits)

lemma take_visit: "take_from_queue ref rm = (Some l, rm') \<Longrightarrow> visit_ok l rm'"
proof (induction ref rm rule: take_from_queue.induct)
  case (1 ref rm)
  obtain x rest where q: "entry_queue (store rm ref) = x # rest"
    using "1.prems" by (cases "entry_queue (store rm ref)") (auto simp: take_from_queue.simps [of ref rm])
  obtain good rm1 where c: "check_coord_and_remove x (set_entry ref (\<lambda>e. e\<lparr>entry_queue := rest\<rparr>) rm) = (good, rm1)"
    by (cases "check_coord_and_remove x (set_entry ref (\<lambda>e. e\<lparr>entry_queue := rest\<rparr>) rm)")
  show ?case
  proof (cases good)
    case True
    with "1.prems" q c check_coord_visit show ?thesis by (auto simp: take_from_queue.simps [of ref rm])
  next
    case False
    with "1.IH" [OF q c [symmetric] refl False] "1.prems" q c show ?thesis by (simp add: take_from_queue.simps [of ref rm])
  qed
qed

lemma deliver_visit: "deliver env w ref rm = (NextLocation l, rm') \<Longrightarrow> visit_ok l rm'"
  by (auto simp: deliver_def dest: take_visit split: if_splits prod.splits option.splits)

lemma refill_visit: "refill_and_deliver env w ref rm = (NextLocation l, rm') \<Longrightarrow> visit_ok l rm'"
  by (auto simp: refill_and_deliver_def Let_def dest: deliver_visit split: if_splits prod.splits sum.splits)

lemma finish_visit: "finish_subroute env w ref rm = (NextLocation l, rm') \<Longrightarrow> visit_ok l rm'"
  by (auto simp: finish_subroute_def dest: refill_visit split: if_splits prod.splits sum.splits bool.splits)

lemma normal_visit: "normal_location env w ref rm = (NextLocation l, rm') \<Longrightarrow> visit_ok l rm'"
  by (auto simp: normal_location_def Let_def dest: finish_visit deliver_visit split: if_splits)

lemma prio_or_normal_visit:
  assumes "prio_or_normal env w ref rm = (NextLocation l, rm')" and "rm_kind rm \<noteq> IVRoute"
  shows "visit_ok l rm'"
proof (cases "prio_q rm")
  case None
  with assms show ?thesis by (auto simp: prio_or_normal_def dest: normal_visit)
next
  case (Some q)
  obtain out rm1 where p: "prioq_location env w q rm = (out, rm1)" by (cases "prioq_location env w q rm")
  with Some assms prioq_location_visit [of env w q rm] show ?thesis
    by (cases out) (auto simp: prio_or_normal_def dest: normal_visit split: if_splits)
qed

lemma pooled_visit:
  assumes "pooled_location env w rm = (NextLocation l, rm')" and "rm_kind rm \<noteq> IVRoute"
    and "\<forall>ref. map_of (rm_pool rm) w = Some ref \<longrightarrow> prio_coord (store rm ref) = None"
  shows "visit_ok l rm'"
proof (cases "map_of (rm_pool rm) w")
  case None
  obtain rm1 r where u: "update_routepool env (add_pool_entry env w rm) = (rm1, r)"
    by (cases "update_routepool env (add_pool_entry env w rm)")
  have "rm_kind rm1 = rm_kind rm"
    using knd.I_update [OF knd.I_add_entry [OF refl None, of env], of env] u by simp
  with None u assms(1,2) show ?thesis
    by (auto simp: pooled_location_def dest: prio_or_normal_visit split: sum.splits option.splits if_splits)
next
  case (Some ref)
  with assms show ?thesis by (auto simp: pooled_location_def dest: prio_or_normal_visit)
qed

text \<open>
  The start of a manager may hand its workers new entries; those keep what was passed to a worker.
\<close>

lemma get_next_visit:
  assumes "get_next_location env w rm = (NextLocation l, rm')" and "rm_kind rm \<notin> {IVRoute, IdleRoute}"
    and "is_started rm" and "\<forall>ref. map_of (rm_pool rm) w = Some ref \<longrightarrow> prio_coord (store rm ref) = None"
  shows "visit_ok l rm'"
proof -
  have "pooled_location env w (rm\<lparr>start_calc := False\<rparr>) = (NextLocation l, rm')"
    using assms by (auto simp: get_next_location_def base_get_next_location_def split: if_splits)
  from pooled_visit [OF this] assms(2,4) show ?thesis by auto
qed

section \<open>Properties\<close>

text \<open>
  What a started manager hands to a worker is to be visited: in quest mode the location is not one
  to be ignored, is within range of a stop without a quest and is no longer among the coordinates of the
  round; in level mode it is not one to be ignored. Only a location passed to the worker before (a nearby
  priority event or a stop to be redone) is exempt.
\<close>

theorem get_next_location_to_be_visited:
  assumes "get_next_location env w rm = (NextLocation l, rm')" and "is_started rm"
    and "\<forall>ref. map_of (rm_pool rm) w = Some ref \<longrightarrow> prio_coord (store rm ref) = None"
  shows "(rm_kind rm = Quests \<longrightarrow> l \<notin> coords_to_be_ignored rm' \<and> is_coord_within_range_of_stoplist l rm' \<and>
      l \<notin> set (round_coords rm')) \<and> (rm_kind rm = Leveling \<longrightarrow> l \<notin> coords_to_be_ignored rm')"
proof -
  have "rm_kind rm' = rm_kind rm" using knd.I_get_next [OF refl, of env w rm] assms(1) by simp
  moreover have "rm_kind rm \<in> {Quests, Leveling} \<Longrightarrow> visit_ok l rm'"
    by (rule get_next_visit [OF assms(1) _ assms(2,3)]) auto
  ultimately show ?thesis by (auto simp: visit_ok_def check_coords_before_returning_def)
qed


lemma leveling_entries_workers: "workers_registered (fst (leveling_entries env ents rm)) = workers_registered rm"
  by (induction env ents rm rule: leveling_entries.induct) (auto simp: Let_def split: option.splits list.splits sum.splits)

lemma alloc_pool_fields [simp]:
  "workers_registered (snd (alloc_pool entries rm)) = workers_registered rm" "rm_kind (snd (alloc_pool entries rm)) = rm_kind rm"
  "is_started (snd (alloc_pool entries rm)) = is_started rm"
  by (simp_all add: alloc_pool_def Let_def)

lemma leveling_entries_started: "is_started (fst (leveling_entries env ents rm)) = is_started rm"
  by (induction env ents rm rule: leveling_entries.induct) (auto simp: Let_def split: option.splits list.splits sum.splits)

lemma update_routepool_fields:
  "workers_registered (fst (update_routepool env rm)) = workers_registered rm \<and>
   is_started (fst (update_routepool env rm)) = is_started rm"
proof (cases "rm_kind rm = Leveling")
  case True
  obtain rm1 r where "leveling_entries env (rm_pool rm) rm = (rm1, r)" by (cases "leveling_entries env (rm_pool rm) rm")
  with True leveling_entries_workers [of env "rm_pool rm" rm] leveling_entries_started [of env "rm_pool rm" rm] show ?thesis
    by (cases r) (simp_all add: update_routepool_def leveling_update_routepools_def rm_bind_def)
next
  case False
  then have eq: "fst (update_routepool env rm) = (case mixin_update_routepools rm of
      (None, rm') \<Rightarrow> rm' | (Some pool, rm') \<Rightarrow> if pool = [] then rm' else rm'\<lparr>rm_pool := pool\<rparr>)"
    by (simp add: update_routepool_def rm_bind_def split: prod.splits option.splits)
  from mixin_update_cases [of rm] show ?thesis unfolding eq by (elim disjE exE conjE) simp_all
qed

lemma stop_routemanager_stops:
  "\<not> shutdown_route rm \<Longrightarrow> \<not> is_started (stop_routemanager rm) \<and> workers_registered (stop_routemanager rm) = workers_registered rm
     \<and> (\<forall>q. prio_q (stop_routemanager rm) = Some q \<longrightarrow> stop_updates q) \<and> \<not> check_task (stop_routemanager rm)"
  by (cases "rm_kind rm") (auto simp: stop_routemanager_def stop_internal_tasks_def quit_route_def pq_stop_def)

text \<open>
  When the last worker leaves a manager, whatever happened to it before, the manager is stopped: it is
  not started any more, its priority queue is not updated and idle workers are no longer looked for. (When
  nobody had started it, it is left alone.)
\<close>

theorem last_worker_stops_manager:
  assumes "rm = rm_run ops (new_route_manager k settings radius mc cl ids starve strat)"
    and "unregister_worker env w remove_entry rm = (rm', Inr ())" and "workers_registered rm \<subseteq> {w}" and "is_started rm"
  shows "workers_registered rm' = {} \<and> \<not> is_started rm' \<and> \<not> check_task rm' \<and>
    (\<forall>q. prio_q rm' = Some q \<longrightarrow> stop_updates q)"
proof -
  have inv: "rm_inv rm" using inv.I_run [OF rm_inv_new] assms(1) by simp
  have ws: "workers_registered rm - {w} = {}" using assms(3) by auto
  let ?del = "rm\<lparr>workers_registered := {}, rm_pool := AList.delete w (rm_pool rm)\<rparr>"
  obtain rm2 where rm2: "rm' = stop_routemanager rm2" "rm_inv rm2" "workers_registered rm2 = {}" "is_started rm2"
  proof (cases "remove_entry \<and> map_of (rm_pool rm) w \<noteq> None")
    case True
    obtain rm2 r where u: "update_routepool env ?del = (rm2, r)" by (cases "update_routepool env ?del")
    have "rm_inv rm2" using inv.I_update [OF inv.I_delete [OF inv, of w "{}"], of env] u by simp
    moreover have "workers_registered rm2 = {}" "is_started rm2"
      using update_routepool_fields [of env ?del] u assms(4) by simp_all
    ultimately show ?thesis
      using that [of rm2] assms(2) True ws u by (auto simp: unregister_worker_def rm_bind_def split: sum.splits)
  next
    case False
    then show ?thesis
      using that [of "rm\<lparr>workers_registered := {}\<rparr>"] assms(2,4) ws inv
      by (auto simp: unregister_worker_def rm_bind_def rm_inv_def)
  qed
  from rm2(2) have "\<not> shutdown_route rm2" by (simp add: rm_inv_def)
  from stop_routemanager_stops [OF this] rm2 show ?thesis by simp
qed

section \<open>The first location of a round is handed out twice\<close>

lemma divide_route_single:
  assumes "coords \<noteq> []"
  shows "divide_route coords [(w, e)] = Some [(w, e\<lparr>subroute := coords, entry_queue := requeue (entry_queue e) coords\<rparr>)]"
  using assms by (subst divide_route.simps) (simp add: Let_def)

lemma requeue_Nil: "requeue [] new = new"
  by (simp add: requeue_def find_closest_location_def)

text \<open>
  A worker alone on a mon or raid route that has reached the end of its queue gets the first location
  of the route, and on its next call the same location again: the queue is refilled in the entry the call
  fetched, while the pool already holds a copy of it with a full queue of its own.
\<close>

theorem first_location_twice:
  assumes "rm_kind rm \<in> {MonRoute, RaidRoute}" and "w \<in> workers_registered rm" and "is_started rm"
    and "\<not> shutdown_route rm" and "\<not> start_calc rm" and "prio_q rm = None" and "coords_to_be_ignored rm = {}"
    and "rm_pool rm = [(w, ref)]" and "ref < next_ref rm" and "store rm ref = e" and "prio_coord e = None"
    and "entry_queue e = []" and "subroute e = l # ls" and "route rm = l # ls" and "round_coords rm = l # ls"
    and "real_of_int (rounds e) \<le> roundcount rm"
  shows "\<exists>rm1 rm2. get_next_location env w rm = (NextLocation l, rm1) \<and> get_next_location env' w rm1 = (NextLocation l, rm2)"
proof -
  have k: "rm_kind rm \<noteq> IVRoute" "rm_kind rm \<noteq> IdleRoute" "rm_kind rm \<noteq> Quests" "rm_kind rm \<noteq> Leveling" "rm_kind rm \<noteq> InitRoute"
    using assms(1) by auto
  have check: "check_coord_and_remove x rm' = (True, rm')" if "rm_kind rm' = rm_kind rm" for x rm'
    using that assms(1) by (auto simp: check_coord_and_remove_def check_coords_before_returning_def delete_coord_after_fetch_def)
  have one: "median [r] = real_of_int r" for r by (simp add: median_def)
  have hook: "has_normal_route rm' = True" "may_update_routepool rm' = True" "should_get_new_coords rm' = False"
    if "rm_kind rm' = rm_kind rm" for rm'
    using that assms(1) by (auto simp: has_normal_route_def may_update_routepool_def should_get_new_coords_def)
  have "\<exists>rmA. get_next_location env w rm = refill_and_deliver env w ref rmA \<and>
      rm_kind rmA = rm_kind rm \<and> workers_registered rmA = workers_registered rm \<and> is_started rmA \<and> \<not> shutdown_route rmA \<and>
      \<not> start_calc rmA \<and> prio_q rmA = None \<and> coords_to_be_ignored rmA = {} \<and> rm_pool rmA = [(w, ref)] \<and>
      next_ref rmA = next_ref rm \<and> route rmA = l # ls \<and> round_coords rmA = l # ls \<and>
      prio_coord (store rmA ref) = None \<and> entry_queue (store rmA ref) = [] \<and> subroute (store rmA ref) = l # ls"
  proof (cases "round_started_time rm")
    case None
    show ?thesis
      using assms k None
      by (intro exI [of _ "set_entry ref (\<lambda>e. e\<lparr>rounds := rounds e + 1\<rparr>)
           ((set_entry ref (\<lambda>e. e\<lparr>last_position_type := NormalPos\<rparr>) (rm\<lparr>start_calc := False\<rparr>))\<lparr>round_started_time := Some (now env)\<rparr>)"])
        (simp add: get_next_location_def base_get_next_location_def pooled_location_def prio_or_normal_def normal_location_def
          hook finish_subroute_def get_worker_rounds_run_through_def one Let_def)
  next
    case (Some t)
    show ?thesis
      using assms k Some
      by (intro exI [of _ "set_entry ref (\<lambda>e. e\<lparr>rounds := rounds e + 1\<rparr>)
           (set_entry ref (\<lambda>e. e\<lparr>last_position_type := NormalPos\<rparr>) (rm\<lparr>start_calc := False\<rparr>))"])
        (simp add: get_next_location_def base_get_next_location_def pooled_location_def prio_or_normal_def normal_location_def
          hook finish_subroute_def get_worker_rounds_run_through_def one Let_def)
  qed
  then obtain rmA where A: "get_next_location env w rm = refill_and_deliver env w ref rmA"
      "rm_kind rmA = rm_kind rm" "workers_registered rmA = workers_registered rm" "is_started rmA" "\<not> shutdown_route rmA"
      "\<not> start_calc rmA" "prio_q rmA = None" "coords_to_be_ignored rmA = {}" "rm_pool rmA = [(w, ref)]"
      "next_ref rmA = next_ref rm" "route rmA = l # ls" "round_coords rmA = l # ls"
      "prio_coord (store rmA ref) = None" "entry_queue (store rmA ref) = []" "subroute (store rmA ref) = l # ls"
    by blast
  let ?new = "(store rmA ref)\<lparr>subroute := l # ls, entry_queue := l # ls\<rparr>"
  let ?rmB = "(snd (alloc_pool [(w, ?new)] rmA))\<lparr>rm_pool := [(w, next_ref rm)]\<rparr>"
  have upd: "update_routepool env rmA = (?rmB, Inr True)"
    using A k by (simp add: update_routepool_def rm_bind_def mixin_update_routepools_def hook pool_entries_def
        divide_route_single requeue_Nil alloc_pool_def Let_def)
  have B: "store ?rmB ref = store rmA ref" "store ?rmB (next_ref rm) = ?new" "rm_kind ?rmB = rm_kind rm"
    using A assms(9) by (auto simp: alloc_pool_def Let_def)
  let ?rmC = "set_entry ref (\<lambda>e. e\<lparr>entry_queue := l # ls\<rparr>) ?rmB"
  let ?rmD = "set_entry (next_ref rm) (\<lambda>e. e\<lparr>current_pos := l, last_access := now env, worker_sleeping := 0\<rparr>)
     (set_entry ref (\<lambda>e. e\<lparr>entry_queue := ls\<rparr>) ?rmC)"
  have first: "refill_and_deliver env w ref rmA = (NextLocation l, ?rmD)"
    using A B by (simp add: refill_and_deliver_def upd Let_def deliver_def take_from_queue.simps [of ref] check set_routepool_entry_location_def)
  have D: "rm_kind ?rmD = rm_kind rm" "w \<in> workers_registered ?rmD" "is_started ?rmD" "\<not> shutdown_route ?rmD" "\<not> start_calc ?rmD"
      "prio_q ?rmD = None" "rm_pool ?rmD = [(w, next_ref rm)]" "route ?rmD = l # ls"
      "prio_coord (store ?rmD (next_ref rm)) = None" "entry_queue (store ?rmD (next_ref rm)) = l # ls"
    using A B assms(2,9) by (simp_all add: alloc_pool_def Let_def)
  have "\<exists>rm2. get_next_location env' w rm' = (NextLocation l, rm2)"
    if "rm_kind rm' = rm_kind rm" "w \<in> workers_registered rm'" "is_started rm'" "\<not> shutdown_route rm'" "\<not> start_calc rm'"
      "prio_q rm' = None" "rm_pool rm' = [(w, r)]" "route rm' = l # ls"
      "prio_coord (store rm' r) = None" "entry_queue (store rm' r) = l # ls" for rm' r
    using that k
    by (simp add: get_next_location_def base_get_next_location_def pooled_location_def prio_or_normal_def normal_location_def
        hook Let_def deliver_def take_from_queue.simps [of r] check)
  from this [OF D] A(1) first show ?thesis by auto
qed

section \<open>Witnesses\<close>

definition witness_settings :: area_settings where
  "witness_settings = \<lparr>quest_layer = 1, init_mode_rounds = 1, including_stops = False, coords_spawns_known = True\<rparr>"

text \<open>A mon route of two locations whose only worker has used up its queue.\<close>

definition witness_mon :: route_manager where
  "witness_mon = (new_route_manager MonRoute witness_settings 490 20 20 [] False None)
     \<lparr>is_started := True, route := [Loc 1 1, Loc 2 2], round_coords := [Loc 1 1, Loc 2 2], rm_pool := [(''w'', 0)],
      store := (\<lambda>_. (witness_entry 0 [])\<lparr>subroute := [Loc 1 1, Loc 2 2]\<rparr>), next_ref := 1, workers_registered := {''w''}\<rparr>"

text \<open>Surroundings with two stops, as the database and the route calculation could answer.\<close>

definition witness_env :: rm_env where
  "witness_env = \<lparr>now = 0, stops_without_quests = [Loc 1 1, Loc 2 2], stops_all = [Loc 1 1, Loc 2 2], gyms = [], spawns_known = [],
     spawns_unknown = [], middle_of_fence = Loc 1 1, generated = (\<lambda>_. [Loc 1 1, Loc 2 2]), calculated = (\<lambda>_ _ cs. Inr cs),
     calc_ends = True, wait_times = [], unvisited_stops = (\<lambda>_ _. None)\<rparr>"

lemma first_location_twice_witness:
  "\<exists>rm1 rm2. get_next_location witness_env ''w'' witness_mon = (NextLocation (Loc 1 1), rm1) \<and>
     get_next_location witness_env ''w'' rm1 = (NextLocation (Loc 1 1), rm2)"
  using first_location_twice [of witness_mon "''w''" 0 "(witness_entry 0 [])\<lparr>subroute := [Loc 1 1, Loc 2 2]\<rparr>" "Loc 1 1" "[Loc 2 2]" witness_env witness_env]
  by (simp add: witness_mon_def new_route_manager_def witness_entry_def)

text \<open>A quest route with a queue of two stops, the first of which is to be ignored.\<close>

definition witness_quest :: route_manager where
  "witness_quest = (new_route_manager Quests witness_settings 490 1 1 [] False None)
     \<lparr>is_started := True, route := [Loc 1 1, Loc 2 2], round_coords := [Loc 1 1, Loc 2 2], rm_pool := [(''w'', 0)],
      store := (\<lambda>_. (witness_entry 0 [Loc 1 1, Loc 2 2])\<lparr>subroute := [Loc 1 1, Loc 2 2]\<rparr>), next_ref := 1,
      workers_registered := {''w''}, stoplist := [Loc 1 1, Loc 2 2], coords_to_be_ignored := {Loc 1 1}\<rparr>"

lemma witness_quest_next: "fst (get_next_location env ''w'' witness_quest) = NextLocation (Loc 2 2)"
  by (simp add: witness_quest_def new_route_manager_def witness_entry_def get_next_location_def base_get_next_location_def
      pooled_location_def prio_or_normal_def normal_location_def has_normal_route_def get_worker_rounds_run_through_def
      median_def Let_def deliver_def take_from_queue.simps [of 0] check_coord_and_remove_def check_coords_before_returning_def
      is_coord_within_range_of_stoplist_def delete_coord_after_fetch_def set_entry_def)

lemma get_next_location_to_be_visited_witness:
  "Loc 2 2 \<notin> coords_to_be_ignored (snd (get_next_location witness_env ''w'' witness_quest)) \<and>
   Loc 2 2 \<notin> set (round_coords (snd (get_next_location witness_env ''w'' witness_quest)))"
  using get_next_location_to_be_visited [of witness_env "''w''" witness_quest "Loc 2 2" "snd (get_next_location witness_env ''w'' witness_quest)"]
    witness_quest_next [of witness_env]
  by (simp add: prod_eq_iff) (simp add: witness_quest_def new_route_manager_def witness_entry_def)

definition witness_ops :: "rm_env \<Rightarrow> rm_op list" where
  "witness_ops env = [Register ''w'', StartManager env]"

lemma last_worker_stops_manager_witness:
  "\<exists>rm'. unregister_worker witness_env ''w'' False
       (rm_run (witness_ops witness_env) (new_route_manager Leveling witness_settings 490 1 1 [] False None)) = (rm', Inr ()) \<and>
     workers_registered rm' = {} \<and> \<not> is_started rm'"
proof -
  let ?rm = "rm_run (witness_ops witness_env) (new_route_manager Leveling witness_settings 490 1 1 [] False None)"
  have rm: "workers_registered ?rm = {''w''}" "is_started ?rm"
    by (simp_all add: rm_run_def witness_ops_def register_worker_def start_routemanager_def leveling_start_routemanager_def
        new_route_manager_def)
  obtain rm' where u: "unregister_worker witness_env ''w'' False ?rm = (rm', Inr ())"
    by (simp add: unregister_worker_def rm_bind_def Let_def)
  from last_worker_stops_manager [OF refl u] rm u show ?thesis by auto
qed

end
