(* ===== verification/Mappings.thy ===== *)
theory Mappings
  imports RouteManager PyStr
begin

text \<open>
  \<open>mapadroid/mapping_manager/MappingManager.py\<close>: the settings and runtime values of every device, the
  route managers of the areas with the calls that are forwarded to them, the mon mls, and the update
  that replaces all of them by what the database holds. \<open>RouteManagerFactory\<close> builds a manager from the
  row of its area. A row of the settings is a function from column names to values. Failures of the database and
  the login tracking in Redis are not modelled.
\<close>

section \<open>Keys and values\<close>

datatype worker_type = UNDEFINED | RAID_MITM | MON_MITM | IV_MITM | STOPS | IDLE | CONFIGMODE | INIT

datatype screenshot_type = JPEG | PNG

datatype mm_key =
    LAST_MODE | ACCOUNT_INDEX | JOB_ACTIVE | WALKER_AREA_INDEX | FINISHED | LAST_LOCATION_TIME | LAST_CLEANUP_TIME
  | LAST_LOCATION | SCREENSHOT_TYPE | STARTCOORDS_OF_WALKER | RESTART_POGO | POST_TURN_SCREEN_ON_DELAY | CLEAR_GAME_DATA
  | SCREENSHOT_QUALITY | POST_SCREENSHOT_DELAY | POST_POGO_START_DELAY | SCREENSHOT_X_OFFSET | SCREENSHOT_Y_OFFSET
  | MITM_WAIT_TIMEOUT | RESTART_THRESH | REBOOT_THRESH | REBOOT | INJECTION_THRESH_REBOOT | POST_TELEPORT_DELAY
  | COOLDOWN_SLEEP | WALK_AFTER_TELEPORT_DISTANCE | POST_WALK_DELAY | ACCOUNT_ROTATION | VPS_DELAY | ROTATION_WAITTIME
  | LAST_ACTION_TIME | SCREENDETECTION | ROTATE_ON_LVL_30 | INVENTORY_CLEAR_ROUNDS | GGL_LOGIN_MAIL | LAST_QUESTCLEAR_TIME
  | ENHANCED_MODE_QUEST_SAFE_ITEMS | SOFTBAR_ENABLED | EXTENDED_PERMISSION_TOGGLING | EXTENDED_LOGIN

datatype mm_value = VJson json | VLocation location | VMode worker_type | VShot screenshot_type

text \<open>A row of \<open>settings_device\<close> or \<open>settings_devicepool\<close>, and one of \<open>settings_walkerarea\<close>.\<close>

type_synonym settings_row = "string \<Rightarrow> json"

record walkerarea =
  wa_area_id :: int
  wa_name :: string
  wa_algo_type :: string
  wa_algo_value :: "string option"
  wa_max_walkers :: "int option"
  wa_eventid :: "int option"

record device_mapping =
  device_settings :: settings_row
  pool_settings :: "settings_row option"
  walker_areas :: "walkerarea option list"
  last_location :: "location option"
  last_known_mode :: "worker_type option"
  account_index :: int
  account_rotation_started :: bool
  walker_area_index :: int
  finished :: bool
  job_active :: bool
  last_location_time :: "int option"
  last_cleanup_time :: "int option"
  last_action_time :: "int option"
  last_questclear_time :: "int option"

definition new_device_mapping :: "settings_row \<Rightarrow> device_mapping" where
  "new_device_mapping row =
     \<lparr>device_settings = row, pool_settings = None, walker_areas = [], last_location = Some (Loc 0 0),
      last_known_mode = Some UNDEFINED, account_index = 0, account_rotation_started = False, walker_area_index = - 1,
      finished = False, job_active = False, last_location_time = None, last_cleanup_time = None, last_action_time = None,
      last_questclear_time = None\<rparr>"

section \<open>Settings of a device\<close>

text \<open>A key with a value of its type; \<open>Other\<close> is a key \<open>__set_devicesetting\<close> does not handle.\<close>

datatype setting =
    JobActive bool
  | WalkerAreaIndex int
  | Finished bool
  | LastLocationTime "int option"
  | LastCleanupTime "int option"
  | LastLocation "location option"
  | AccountIndex int
  | LastMode "worker_type option"
  | LastActionTime "int option"
  | LastQuestclearTime "int option"
  | Other mm_key json

primrec set_devicesetting :: "setting \<Rightarrow> device_mapping \<Rightarrow> device_mapping" where
  "set_devicesetting (JobActive v) e = e\<lparr>job_active := v\<rparr>"
| "set_devicesetting (WalkerAreaIndex v) e = e\<lparr>walker_area_index := v\<rparr>"
| "set_devicesetting (Finished v) e = e\<lparr>finished := v\<rparr>"
| "set_devicesetting (LastLocationTime v) e = e\<lparr>last_location_time := v\<rparr>"
| "set_devicesetting (LastCleanupTime v) e = e\<lparr>last_cleanup_time := v\<rparr>"
| "set_devicesetting (LastLocation v) e = e\<lparr>last_location := v\<rparr>"
| "set_devicesetting (AccountIndex v) e = e\<lparr>account_index := v\<rparr>"
| "set_devicesetting (LastMode v) e = e\<lparr>last_known_mode := v\<rparr>"
| "set_devicesetting (LastActionTime v) e = e\<lparr>last_action_time := v\<rparr>"
| "set_devicesetting (LastQuestclearTime v) e = e\<lparr>last_questclear_time := v\<rparr>"
| "set_devicesetting (Other k v) e = e"

definition json_opt :: "('a \<Rightarrow> json) \<Rightarrow> 'a option \<Rightarrow> json" where
  "json_opt f x = (case x of None \<Rightarrow> JNull | Some v \<Rightarrow> f v)"

text \<open>\<open>pool.c if pool and pool.c else device.c\<close>\<close>

definition pool_or_device :: "string \<Rightarrow> device_mapping \<Rightarrow> json" where
  "pool_or_device column e =
     (case pool_settings e of
        Some pool \<Rightarrow> if truthy (pool column) then pool column else device_settings e column
      | None \<Rightarrow> device_settings e column)"

definition or_default :: "json \<Rightarrow> json \<Rightarrow> json" where
  "or_default v d = (if v = JNull then d else v)"

text \<open>\<open>ScreenshotType(v)\<close>, whose values are 0 and 1; a \<open>ValueError\<close> is caught.\<close>

definition screenshot_type_of :: "json \<Rightarrow> screenshot_type" where
  "screenshot_type_of v = (if v = JInt 1 \<or> v = JBool True \<or> v = JFloat 1 then PNG else JPEG)"

text \<open>The column the pool may override, where the key is of that kind.\<close>

definition inherited_column :: "mm_key \<Rightarrow> string option" where
  "inherited_column key = (case key of
       SCREENSHOT_Y_OFFSET \<Rightarrow> Some ''screenshot_y_offset''
     | SCREENSHOT_X_OFFSET \<Rightarrow> Some ''screenshot_x_offset''
     | STARTCOORDS_OF_WALKER \<Rightarrow> Some ''startcoords_of_walker''
     | POST_TURN_SCREEN_ON_DELAY \<Rightarrow> Some ''post_turn_screen_on_delay''
     | POST_SCREENSHOT_DELAY \<Rightarrow> Some ''post_screenshot_delay''
     | POST_WALK_DELAY \<Rightarrow> Some ''post_walk_delay''
     | POST_TELEPORT_DELAY \<Rightarrow> Some ''post_teleport_delay''
     | WALK_AFTER_TELEPORT_DISTANCE \<Rightarrow> Some ''walk_after_teleport_distance''
     | COOLDOWN_SLEEP \<Rightarrow> Some ''cool_down_sleep''
     | POST_POGO_START_DELAY \<Rightarrow> Some ''post_pogo_start_delay''
     | RESTART_POGO \<Rightarrow> Some ''restart_pogo''
     | INVENTORY_CLEAR_ROUNDS \<Rightarrow> Some ''inventory_clear_rounds''
     | MITM_WAIT_TIMEOUT \<Rightarrow> Some ''mitm_wait_timeout''
     | VPS_DELAY \<Rightarrow> Some ''vps_delay''
     | REBOOT \<Rightarrow> Some ''reboot''
     | REBOOT_THRESH \<Rightarrow> Some ''reboot_thresh''
     | RESTART_THRESH \<Rightarrow> Some ''restart_thresh''
     | INJECTION_THRESH_REBOOT \<Rightarrow> Some ''injection_thresh_reboot''
     | ENHANCED_MODE_QUEST_SAFE_ITEMS \<Rightarrow> Some ''enhanced_mode_quest_safe_items''
     | EXTENDED_LOGIN \<Rightarrow> Some ''extended_login''
     | _ \<Rightarrow> None)"

definition get_devicesetting :: "mm_key \<Rightarrow> device_mapping \<Rightarrow> mm_value" where
  "get_devicesetting key e =
     (case inherited_column key of
        Some column \<Rightarrow> VJson (pool_or_device column e)
      | None \<Rightarrow> (case key of
          JOB_ACTIVE \<Rightarrow> VJson (JBool (job_active e))
        | WALKER_AREA_INDEX \<Rightarrow> VJson (JInt (walker_area_index e))
        | FINISHED \<Rightarrow> VJson (JBool (finished e))
        | LAST_LOCATION_TIME \<Rightarrow> VJson (json_opt JInt (last_location_time e))
        | LAST_CLEANUP_TIME \<Rightarrow> VJson (json_opt JInt (last_cleanup_time e))
        | LAST_LOCATION \<Rightarrow> (case last_location e of None \<Rightarrow> VJson JNull | Some l \<Rightarrow> VLocation l)
        | ACCOUNT_INDEX \<Rightarrow> VJson (JInt (account_index e))
        | LAST_MODE \<Rightarrow> (case last_known_mode e of None \<Rightarrow> VJson JNull | Some m \<Rightarrow> VMode m)
        | LAST_ACTION_TIME \<Rightarrow> VJson (json_opt JInt (last_action_time e))
        | LAST_QUESTCLEAR_TIME \<Rightarrow> VJson (json_opt JInt (last_questclear_time e))
        | GGL_LOGIN_MAIL \<Rightarrow> VJson (device_settings e ''ggl_login_mail'')
        | SCREENSHOT_TYPE \<Rightarrow> VShot (screenshot_type_of (pool_or_device ''screenshot_type'' e))
        | SCREENSHOT_QUALITY \<Rightarrow>
            (let quality = pool_or_device ''screenshot_quality'' e in VJson (if truthy quality then quality else JInt 80))
        | SCREENDETECTION \<Rightarrow> VJson (or_default (pool_or_device ''screendetection'' e) (JBool False))
        | CLEAR_GAME_DATA \<Rightarrow> VJson (or_default (device_settings e ''clear_game_data'') (JBool False))
        | SOFTBAR_ENABLED \<Rightarrow> VJson (or_default (device_settings e ''softbar_enabled'') (JBool False))
        | ROTATION_WAITTIME \<Rightarrow> VJson (device_settings e ''rotation_waittime'')
        | ACCOUNT_ROTATION \<Rightarrow> VJson (device_settings e ''account_rotation'')
        | ROTATE_ON_LVL_30 \<Rightarrow> VJson (device_settings e ''rotate_on_lvl_30'')
        | EXTENDED_PERMISSION_TOGGLING \<Rightarrow> VJson (device_settings e ''extended_permission_toggling'')
        | _ \<Rightarrow> VJson JNull))"

section \<open>Building the route managers\<close>

text \<open>
  The row of an area, with the columns of all modes; a column the table of the mode lacks is \<open>None\<close>
  (\<open>getattr\<close> with a default).
\<close>

record area_row =
  area_row_id :: int
  area_mode :: string
  geofence_included :: "int option"
  monlist_id :: "int option"
  all_mons :: bool
  delay_after_prio_event :: "int option"
  clustering_timedelta :: "real option"
  queue_backlog :: "real option"
  area_starve_route :: "bool option"
  area_spawns_known :: bool
  area_max_clustering :: "int option"
  area_including_stops :: bool
  area_level :: bool
  area_layer :: int
  init_type :: string
  init_rounds :: int

definition py_int :: "real \<Rightarrow> int" where "py_int x = (if x < 0 then \<lceil>x\<rceil> else \<lfloor>x\<rfloor>)"

definition truthy_real :: "real option \<Rightarrow> bool" where
  "truthy_real x = (case x of None \<Rightarrow> False | Some r \<Rightarrow> r \<noteq> 0)"

text \<open>\<open>mode_mapping\<close>: radius and number of coordinates in it.\<close>

definition mode_range :: "string \<Rightarrow> int" where
  "mode_range m = (if m = ''raids_mitm'' then 490
     else if m \<in> {''mon_mitm'', ''pokestops'', ''iv_mitm'', ''init''} then 67 else 0)"

definition mode_max_count :: "string \<Rightarrow> int" where
  "mode_max_count m = (if m = ''raids_mitm'' \<or> m = ''mon_mitm'' then 100000 else if m = ''pokestops'' then 3
     else if m = ''iv_mitm'' then 999999 else if m = ''init'' then 1 else 99999999)"

definition settings_of_area :: "area_row \<Rightarrow> area_settings" where
  "settings_of_area area = \<lparr>quest_layer = area_layer area, init_mode_rounds = init_rounds area,
     including_stops = area_including_stops area, coords_spawns_known = area_spawns_known area\<rparr>"

text \<open>The constructors of the managers with a priority queue.\<close>

definition backlog_of :: "area_row \<Rightarrow> int option" where
  "backlog_of area = (if truthy_real (queue_backlog area) then map_option py_int (queue_backlog area) else None)"

definition new_raid_manager :: "area_row \<Rightarrow> int \<Rightarrow> int \<Rightarrow> int list \<Rightarrow> route_manager" where
  "new_raid_manager area radius per_circle ids =
     (let timedelta = (if truthy_real (clustering_timedelta area) then py_int (the (clustering_timedelta area)) else 0)
      in new_route_manager RaidRoute (settings_of_area area) (of_int radius) per_circle per_circle ids
           (area_starve_route area = Some True)
           (map_option (raid_spawn_strategy timedelta (of_int radius) per_circle (backlog_of area)) (delay_after_prio_event area)))"

definition new_mon_manager :: "area_row \<Rightarrow> int \<Rightarrow> int \<Rightarrow> int list \<Rightarrow> route_manager" where
  "new_mon_manager area radius per_circle ids =
     new_route_manager MonRoute (settings_of_area area) (of_int radius) per_circle
       (if truthy_int (area_max_clustering area) then the (area_max_clustering area) else per_circle) ids
       (area_starve_route area = Some True)
       (map_option (mon_spawn_strategy 120 (of_int radius) per_circle (backlog_of area)) (delay_after_prio_event area))"

definition new_iv_manager :: "area_row \<Rightarrow> int \<Rightarrow> int \<Rightarrow> int list \<Rightarrow> route_manager" where
  "new_iv_manager area radius per_circle ids =
     (let delay = (if truthy_int (delay_after_prio_event area) then the (delay_after_prio_event area) else 10)
      in new_route_manager IVRoute (settings_of_area area) (of_int radius) per_circle per_circle ids True
           (Some (iv_only_strategy 120 (of_int radius) per_circle (map_option py_int (queue_backlog area)) delay)))"

text \<open>The quest layers of the enum; any other value raises.\<close>

definition quest_layer_of :: "int \<Rightarrow> int result" where
  "quest_layer_of n = (if n = - 1 \<or> n = 0 \<or> n = 1 then Inr n else Inl ValueError)"

definition get_routemanager :: "area_row \<Rightarrow> int \<Rightarrow> int \<Rightarrow> int list \<Rightarrow> route_manager result" where
  "get_routemanager area radius per_circle ids =
     (let plain = (\<lambda>k r n. new_route_manager k (settings_of_area area) (of_int r) n n ids False None)
      in if area_mode area = ''raids_mitm'' then Inr (new_raid_manager area radius per_circle ids)
         else if area_mode area = ''mon_mitm'' then Inr (new_mon_manager area radius per_circle ids)
         else if area_mode area = ''iv_mitm'' then Inr (new_iv_manager area radius per_circle ids)
         else if area_mode area = ''idle'' then Inr (plain IdleRoute radius per_circle)
         else if area_mode area = ''pokestops'' then
           (if area_level area then Inr (plain Leveling radius 9999)
            else res_bind (quest_layer_of (area_layer area))
              (\<lambda>layer. Inr (plain Quests radius (if layer = 0 then 1 else per_circle))))
         else if area_mode area = ''init'' then
           Inr (plain InitRoute (if init_type area = ''forts'' then 490 else radius) per_circle)
         else Inl RuntimeError)"

definition get_monlist :: "(int, int list) dict \<Rightarrow> int \<Rightarrow> int list" where
  "get_monlist areamons area_id = (case map_of areamons area_id of None \<Rightarrow> [] | Some ids \<Rightarrow> ids)"

fun get_latest_routemanagers :: "(int, int list) dict \<Rightarrow> (int \<times> area_row) list \<Rightarrow> (int, route_manager) dict result" where
  "get_latest_routemanagers areamons [] = Inr []"
| "get_latest_routemanagers areamons ((area_id, area) # areas) =
     (if geofence_included area = None then Inl RuntimeError
      else res_bind (get_routemanager area (mode_range (area_mode area)) (mode_max_count (area_mode area))
             (get_monlist areamons area_id)) (\<lambda>rm.
           res_bind (get_latest_routemanagers areamons areas) (\<lambda>rms. Inr ((area_row_id area, rm) # rms))))"

text \<open>
  \<open>__get_latest_areamons\<close>. The ids of \<open>get_mon_ids\<close> are the keys of a JSON object, so strings, and none of them
  is in a list of ints. A mon list that is not there gives the empty list, unless all mons are to be scanned.
\<close>

definition all_mon_ids :: "string list \<Rightarrow> int list \<Rightarrow> int list result" where
  "all_mon_ids mon_ids mon_list = res_bind (res_map parse_int mon_ids) (\<lambda>ids. Inr (mon_list @ ids))"

fun get_latest_areamons :: "string list \<Rightarrow> (int, int list) dict \<Rightarrow> (int \<times> area_row) list \<Rightarrow> (int, int list) dict result" where
  "get_latest_areamons mon_ids monlists [] = Inr []"
| "get_latest_areamons mon_ids monlists ((area_id, area) # areas) =
     (let found = Option.bind (monlist_id area) (map_of monlists); mon_list = (case found of None \<Rightarrow> [] | Some l \<Rightarrow> l)
      in res_bind (if all_mons area then all_mon_ids mon_ids mon_list else Inr mon_list) (\<lambda>l.
         res_bind (get_latest_areamons mon_ids monlists areas) (\<lambda>rest. Inr ((area_id, l) # rest))))"

section \<open>The manager\<close>

record mapping_manager =
  devicemappings :: "(string, device_mapping) dict"
  routemanagers :: "(int, route_manager) dict"
  mm_areas :: "(int, area_row) dict"
  monlists :: "(int, int list) dict"
  areamons :: "(int, int list) dict"
  mm_auths :: "(string, string) dict"
  paused_devices :: "int list"

definition set_device_state :: "int \<Rightarrow> int \<Rightarrow> mapping_manager \<Rightarrow> mapping_manager" where
  "set_device_state device_id active mm =
     (if active = 1 then mm\<lparr>paused_devices := remove1 device_id (paused_devices mm)\<rparr>
      else if device_id \<notin> set (paused_devices mm) then mm\<lparr>paused_devices := paused_devices mm @ [device_id]\<rparr> else mm)"

definition is_device_active :: "int \<Rightarrow> mapping_manager \<Rightarrow> bool" where
  "is_device_active device_id mm = (device_id \<notin> set (paused_devices mm))"

definition get_devicemappings_of :: "string \<Rightarrow> mapping_manager \<Rightarrow> device_mapping option" where
  "get_devicemappings_of name mm = map_of (devicemappings mm) name"

definition get_devicesettings_of :: "string \<Rightarrow> mapping_manager \<Rightarrow> (settings_row \<times> settings_row option) option" where
  "get_devicesettings_of name mm = map_option (\<lambda>e. (device_settings e, pool_settings e)) (map_of (devicemappings mm) name)"

definition DEFAULT_SAFE_ITEMS :: string where
  "DEFAULT_SAFE_ITEMS = ''1401, 1402, 1403, 1106, 901, 902, 903, 501, 502, 503, 504, 301''"

definition get_safe_items :: "string \<Rightarrow> mapping_manager \<Rightarrow> int list result" where
  "get_safe_items name mm =
     (case map_of (devicemappings mm) name of
        None \<Rightarrow> Inr []
      | Some e \<Rightarrow> (case pool_or_device ''enhanced_mode_quest_safe_items'' e of
            JStr s \<Rightarrow> res_map parse_int (split_char (CHR '','') (if s = [] then DEFAULT_SAFE_ITEMS else s))
          | JNull \<Rightarrow> res_map parse_int (split_char (CHR '','') DEFAULT_SAFE_ITEMS)
          | _ \<Rightarrow> Inl AttributeError))"

definition set_devicesetting_value_of :: "string \<Rightarrow> setting \<Rightarrow> mapping_manager \<Rightarrow> mapping_manager" where
  "set_devicesetting_value_of name s mm =
     (case map_of (devicemappings mm) name of
        None \<Rightarrow> mm
      | Some e \<Rightarrow> mm\<lparr>devicemappings := AList.update name (set_devicesetting s e) (devicemappings mm)\<rparr>)"

definition get_devicesetting_value_of_device :: "string \<Rightarrow> mm_key \<Rightarrow> mapping_manager \<Rightarrow> mm_value" where
  "get_devicesetting_value_of_device name key mm =
     (case map_of (devicemappings mm) name of None \<Rightarrow> VJson JNull | Some e \<Rightarrow> get_devicesetting key e)"

definition get_all_loaded_origins :: "mapping_manager \<Rightarrow> string set" where
  "get_all_loaded_origins mm = fst ` set (devicemappings mm)"

definition get_all_routemanager_ids :: "mapping_manager \<Rightarrow> int list" where
  "get_all_routemanager_ids mm = map fst (routemanagers mm)"

section \<open>Calls forwarded to a route manager\<close>

definition fetch_routemanager :: "int \<Rightarrow> mapping_manager \<Rightarrow> route_manager option" where
  "fetch_routemanager rid mm = map_of (routemanagers mm) rid"

definition routemanager_present :: "int \<Rightarrow> mapping_manager \<Rightarrow> bool" where
  "routemanager_present rid mm = (rid \<in> fst ` set (routemanagers mm))"

definition put_routemanager :: "int \<Rightarrow> route_manager \<Rightarrow> mapping_manager \<Rightarrow> mapping_manager" where
  "put_routemanager rid rm mm = mm\<lparr>routemanagers := AList.update rid rm (routemanagers mm)\<rparr>"

text \<open>A call on the manager with an id, with the answer when there is none.\<close>

definition on_routemanager :: "int \<Rightarrow> 'a \<Rightarrow> (route_manager \<Rightarrow> 'a \<times> route_manager) \<Rightarrow> mapping_manager \<Rightarrow> 'a \<times> mapping_manager" where
  "on_routemanager rid absent f mm =
     (case fetch_routemanager rid mm of
        None \<Rightarrow> (absent, mm)
      | Some rm \<Rightarrow> (let (x, rm') = f rm in (x, put_routemanager rid rm' mm)))"

definition ask_routemanager :: "int \<Rightarrow> (route_manager \<Rightarrow> 'a) \<Rightarrow> mapping_manager \<Rightarrow> 'a option" where
  "ask_routemanager rid f mm = map_option f (fetch_routemanager rid mm)"

definition routemanager_get_next_location :: "rm_env \<Rightarrow> int \<Rightarrow> string \<Rightarrow> mapping_manager \<Rightarrow> next_location option \<times> mapping_manager" where
  "routemanager_get_next_location env rid origin =
     on_routemanager rid None (\<lambda>rm. map_prod Some id (get_next_location env origin rm))"

definition register_worker_to_routemanager :: "int \<Rightarrow> string \<Rightarrow> mapping_manager \<Rightarrow> bool \<times> mapping_manager" where
  "register_worker_to_routemanager rid w = on_routemanager rid False (register_worker w)"

definition unregister_worker_from_routemanager ::
    "rm_env \<Rightarrow> int \<Rightarrow> string \<Rightarrow> mapping_manager \<Rightarrow> (rm_error + unit) option \<times> mapping_manager" where
  "unregister_worker_from_routemanager env rid w =
     on_routemanager rid None (\<lambda>rm. let (rm', r) = unregister_worker env w False rm in (Some r, rm'))"

definition routemanager_add_coords_to_be_removed :: "int \<Rightarrow> real \<Rightarrow> real \<Rightarrow> mapping_manager \<Rightarrow> unit \<times> mapping_manager" where
  "routemanager_add_coords_to_be_removed rid la lo = on_routemanager rid () (\<lambda>rm. ((), add_coord_to_be_removed la lo rm))"

definition routemanager_get_route_stats :: "int \<Rightarrow> string \<Rightarrow> mapping_manager \<Rightarrow> (int \<times> int) option" where
  "routemanager_get_route_stats rid origin = ask_routemanager rid (get_route_status origin)"

definition routemanager_get_rounds :: "int \<Rightarrow> mapping_manager \<Rightarrow> real option" where
  "routemanager_get_rounds rid = ask_routemanager rid roundcount"

definition routemanager_redo_stop_immediately :: "int \<Rightarrow> string \<Rightarrow> real \<Rightarrow> real \<Rightarrow> mapping_manager \<Rightarrow> bool \<times> mapping_manager" where
  "routemanager_redo_stop_immediately rid w la lo = on_routemanager rid False (redo_stop_immediately w la lo)"

definition routemanager_get_registered_workers :: "int \<Rightarrow> mapping_manager \<Rightarrow> string set" where
  "routemanager_get_registered_workers rid mm =
     (case fetch_routemanager rid mm of None \<Rightarrow> {} | Some rm \<Rightarrow> workers_registered rm)"

definition routemanager_get_ids_iv :: "int \<Rightarrow> mapping_manager \<Rightarrow> int list option" where
  "routemanager_get_ids_iv rid = ask_routemanager rid mon_ids_iv"

definition routemanager_is_levelmode :: "int \<Rightarrow> mapping_manager \<Rightarrow> bool option" where
  "routemanager_is_levelmode rid = ask_routemanager rid (\<lambda>rm. rm_kind rm = Leveling)"

definition get_mode :: "route_manager \<Rightarrow> worker_type" where
  "get_mode rm = (case rm_kind rm of
       Quests \<Rightarrow> STOPS | Leveling \<Rightarrow> STOPS | MonRoute \<Rightarrow> MON_MITM | RaidRoute \<Rightarrow> RAID_MITM | IVRoute \<Rightarrow> IV_MITM
     | IdleRoute \<Rightarrow> IDLE | InitRoute \<Rightarrow> INIT)"

text \<open>\<open>WorkerType.UNDEFINED.value\<close> is \<open>None\<close>.\<close>

definition routemanager_get_mode :: "int \<Rightarrow> mapping_manager \<Rightarrow> worker_type option" where
  "routemanager_get_mode rid = ask_routemanager rid get_mode"

definition routemanager_get_encounter_ids_left :: "int \<Rightarrow> mapping_manager \<Rightarrow> int list option" where
  "routemanager_get_encounter_ids_left rid mm =
     (case fetch_routemanager rid mm of
        Some rm \<Rightarrow> if rm_kind rm = IVRoute
          then (case prio_q rm of
              Some q \<Rightarrow> (case strategy q of
                  Some s \<Rightarrow> if kind s = IvOnlyPrio then Some (encounter_ids_left s) else Some []
                | None \<Rightarrow> Some [])
            | None \<Rightarrow> Some [])
          else None
      | None \<Rightarrow> None)"

definition routemanager_get_current_route :: "int \<Rightarrow> mapping_manager \<Rightarrow> (location list \<times> routepool) option" where
  "routemanager_get_current_route rid = ask_routemanager rid (\<lambda>rm. (route rm, pool_entries rm))"

definition routemanager_get_current_prioroute :: "int \<Rightarrow> mapping_manager \<Rightarrow> prio_entry list option" where
  "routemanager_get_current_prioroute rid = ask_routemanager rid get_current_prioroute"

definition routemanager_get_purpose_of_device :: "int \<Rightarrow> mapping_manager \<Rightarrow> account_purpose option" where
  "routemanager_get_purpose_of_device rid = ask_routemanager rid purpose"

text \<open>These have no guard for an unknown manager.\<close>

definition routemanager_set_worker_sleeping :: "rm_env \<Rightarrow> int \<Rightarrow> string \<Rightarrow> real \<Rightarrow> mapping_manager \<Rightarrow> unit result \<times> mapping_manager" where
  "routemanager_set_worker_sleeping env rid w d =
     on_routemanager rid (Inl AttributeError) (\<lambda>rm. (Inr (), set_worker_sleeping env w d rm))"

definition mm_set_worker_startposition :: "int \<Rightarrow> string \<Rightarrow> real \<Rightarrow> real \<Rightarrow> mapping_manager \<Rightarrow> unit result \<times> mapping_manager" where
  "mm_set_worker_startposition rid w la lo =
     on_routemanager rid (Inl AttributeError) (\<lambda>rm. (Inr (), set_worker_startposition w la lo rm))"

definition routemanager_redo_stop_at_end :: "int \<Rightarrow> string \<Rightarrow> location \<Rightarrow> mapping_manager \<Rightarrow> unit result \<times> mapping_manager" where
  "routemanager_redo_stop_at_end rid w l =
     on_routemanager rid (Inl AttributeError) (\<lambda>rm. (Inr (), redo_stop_at_end w l rm))"

definition routemanager_get_position_type :: "int \<Rightarrow> string \<Rightarrow> mapping_manager \<Rightarrow> rm_position_type option" where
  "routemanager_get_position_type rid w mm = Option.bind (fetch_routemanager rid mm) (get_position_type w)"

definition routemanager_get_max_radius :: "int \<Rightarrow> mapping_manager \<Rightarrow> real option" where
  "routemanager_get_max_radius rid = ask_routemanager rid rm_max_radius"

text \<open>The calculation itself runs as a task of its own; here it runs when \<open>env\<close> says it ends.\<close>

definition routemanager_recalculate :: "rm_env \<Rightarrow> int \<Rightarrow> mapping_manager \<Rightarrow> bool \<times> mapping_manager" where
  "routemanager_recalculate env rid =
     on_routemanager rid False (\<lambda>rm. case start_routemanager env rm of
         (rm', Inl e) \<Rightarrow> (False, rm')
       | (rm', Inr _) \<Rightarrow> (True, fst (calculate_route env False True rm')))"

definition routemanager_get_quest_layer_to_scan :: "int \<Rightarrow> mapping_manager \<Rightarrow> int option" where
  "routemanager_get_quest_layer_to_scan rid mm =
     Option.bind (fetch_routemanager rid mm)
       (\<lambda>rm. if rm_kind rm = Quests \<or> rm_kind rm = Leveling then Some (quest_layer (rm_settings rm)) else None)"

definition routemanager_get_amount_of_coords_scannable :: "rm_env \<Rightarrow> int \<Rightarrow> mapping_manager \<Rightarrow> nat option" where
  "routemanager_get_amount_of_coords_scannable env rid = ask_routemanager rid (get_amount_of_coords_scannable env)"

section \<open>Where a device is registered\<close>

datatype device_ref = Origin string | DeviceId int

text \<open>
  The loop over the devices reuses the variable \<open>origin\<close>: without a match it keeps the name of the last device.
\<close>

fun origin_loop :: "int \<Rightarrow> (string \<times> device_mapping) list \<Rightarrow> string option \<Rightarrow> string option" where
  "origin_loop device_id [] origin = origin"
| "origin_loop device_id ((name, e) # rest) origin =
     (if device_settings e ''device_id'' = JInt device_id then Some name else origin_loop device_id rest (Some name))"

definition resolve_origin :: "device_ref \<Rightarrow> mapping_manager \<Rightarrow> string option" where
  "resolve_origin d mm = (case d of Origin name \<Rightarrow> Some name | DeviceId n \<Rightarrow> origin_loop n (devicemappings mm) None)"

definition get_routemanager_id_where_device_is_registered :: "device_ref \<Rightarrow> mapping_manager \<Rightarrow> int option" where
  "get_routemanager_id_where_device_is_registered d mm =
     (case resolve_origin d mm of
        None \<Rightarrow> None
      | Some origin \<Rightarrow> find (\<lambda>rid. origin \<in> routemanager_get_registered_workers rid mm) (get_all_routemanager_ids mm))"

definition get_levelmode :: "string \<Rightarrow> mapping_manager \<Rightarrow> bool" where
  "get_levelmode origin mm =
     (case get_routemanager_id_where_device_is_registered (Origin origin) mm of
        None \<Rightarrow> False | Some rid \<Rightarrow> routemanager_is_levelmode rid mm = Some True)"

definition routemanager_of_origin_is_levelmode :: "string \<Rightarrow> mapping_manager \<Rightarrow> bool option" where
  "routemanager_of_origin_is_levelmode origin mm =
     (if origin = [] then Some False
      else (case get_routemanager_id_where_device_is_registered (Origin origin) mm of
          Some rid \<Rightarrow> if rid = 0 then Some False else routemanager_is_levelmode rid mm
        | None \<Rightarrow> Some False))"

definition routemanager_get_quest_layer_to_scan_of_origin :: "string \<Rightarrow> mapping_manager \<Rightarrow> int option" where
  "routemanager_get_quest_layer_to_scan_of_origin origin mm =
     (if origin = [] then None
      else (case get_routemanager_id_where_device_is_registered (Origin origin) mm of
          Some rid \<Rightarrow> if rid = 0 then None else routemanager_get_quest_layer_to_scan rid mm
        | None \<Rightarrow> None))"

section \<open>Updating from the database\<close>

text \<open>
  The rows an update reads, in the order of the queries: devices with their walker and pool, walkers with their areas.
\<close>

record device_row =
  device_name :: string
  device_columns :: settings_row
  device_pool_id :: "int option"
  device_walker_id :: int

record mm_rows =
  device_rows :: "device_row list"
  pool_rows :: "(int, settings_row) dict"
  walker_rows :: "int list"
  walker_to_areas :: "(int, int list) dict"
  walkerarea_rows :: "(int, walkerarea) dict"
  area_rows :: "(int, area_row) dict"
  monlist_rows :: "(int, int list) dict"
  auth_rows :: "(string, string) dict"
  known_mon_ids :: "string list"
  mm_configmode :: bool

definition device_mapping_of_row :: "mm_rows \<Rightarrow> device_row \<Rightarrow> device_mapping" where
  "device_mapping_of_row rows d =
     (let e = new_device_mapping (device_columns d);
          e1 = e\<lparr>pool_settings := Option.bind (device_pool_id d) (map_of (pool_rows rows))\<rparr>
      in if device_walker_id d \<in> set (walker_rows rows)
         then e1\<lparr>walker_areas := map (map_of (walkerarea_rows rows))
             (case map_of (walker_to_areas rows) (device_walker_id d) of None \<Rightarrow> [] | Some l \<Rightarrow> l)\<rparr>
         else e1)"

definition get_latest_devicemappings :: "mm_rows \<Rightarrow> (string, device_mapping) dict" where
  "get_latest_devicemappings rows =
     fold (\<lambda>d devices. AList.update (device_name d) (device_mapping_of_row rows d) devices) (device_rows rows) []"

definition latest_routemanagers :: "mm_rows \<Rightarrow> (int, int list) dict \<Rightarrow> (int, route_manager) dict result" where
  "latest_routemanagers rows mons = (if mm_configmode rows then Inr [] else get_latest_routemanagers mons (area_rows rows))"

text \<open>What a device keeps over an update.\<close>

definition restore :: "device_mapping \<Rightarrow> device_mapping \<Rightarrow> device_mapping" where
  "restore old e = e\<lparr>last_location := last_location old, last_known_mode := last_known_mode old,
     account_index := account_index old, account_rotation_started := account_rotation_started old\<rparr>"

definition restore_all :: "(string, device_mapping) dict \<Rightarrow> (string, device_mapping) dict \<Rightarrow> (string, device_mapping) dict" where
  "restore_all old latest =
     fold (\<lambda>(dev, m) acc. case map_of acc dev of None \<Rightarrow> acc | Some e \<Rightarrow> AList.update dev (restore m e) acc) old latest"

text \<open>
  The mls of mons are in place before the managers are built; an exception leaves them changed and the rest as it was.
  The managers that are stopped are the ones that are replaced.
\<close>

definition mm_update :: "mm_rows \<Rightarrow> mapping_manager \<Rightarrow> unit result \<times> mapping_manager" where
  "mm_update rows mm =
     (let mm1 = mm\<lparr>monlists := monlist_rows rows\<rparr>
      in case get_latest_areamons (known_mon_ids rows) (monlist_rows rows) (area_rows rows) of
           Inl e \<Rightarrow> (Inl e, mm1)
         | Inr mons \<Rightarrow>
             (let mm2 = mm1\<lparr>areamons := mons\<rparr>
              in case latest_routemanagers rows mons of
                   Inl e \<Rightarrow> (Inl e, mm2)
                 | Inr rms \<Rightarrow> (Inr (), mm2\<lparr>mm_areas := area_rows rows, routemanagers := rms, mm_auths := auth_rows rows,
                     devicemappings := restore_all (devicemappings mm) (get_latest_devicemappings rows)\<rparr>)))"

text \<open>The first load, and every load with the full lock: nothing is restored and no manager is stopped.\<close>

definition mm_full_update :: "mm_rows \<Rightarrow> mapping_manager \<Rightarrow> unit result \<times> mapping_manager" where
  "mm_full_update rows mm =
     (let mm1 = mm\<lparr>mm_areas := area_rows rows, monlists := monlist_rows rows\<rparr>
      in case get_latest_areamons (known_mon_ids rows) (monlist_rows rows) (area_rows rows) of
           Inl e \<Rightarrow> (Inl e, mm1)
         | Inr mons \<Rightarrow>
             (let mm2 = mm1\<lparr>areamons := mons\<rparr>
              in case latest_routemanagers rows mons of
                   Inl e \<Rightarrow> (Inl e, mm2)
                 | Inr rms \<Rightarrow> (Inr (), mm2\<lparr>routemanagers := rms,
                     devicemappings := get_latest_devicemappings rows, mm_auths := auth_rows rows\<rparr>)))"

section \<open>Properties\<close>

subsection \<open>Settings\<close>

primrec key_of :: "setting \<Rightarrow> mm_key option" where
  "key_of (JobActive v) = Some JOB_ACTIVE"
| "key_of (WalkerAreaIndex v) = Some WALKER_AREA_INDEX"
| "key_of (Finished v) = Some FINISHED"
| "key_of (LastLocationTime v) = Some LAST_LOCATION_TIME"
| "key_of (LastCleanupTime v) = Some LAST_CLEANUP_TIME"
| "key_of (LastLocation v) = Some LAST_LOCATION"
| "key_of (AccountIndex v) = Some ACCOUNT_INDEX"
| "key_of (LastMode v) = Some LAST_MODE"
| "key_of (LastActionTime v) = Some LAST_ACTION_TIME"
| "key_of (LastQuestclearTime v) = Some LAST_QUESTCLEAR_TIME"
| "key_of (Other k v) = None"

primrec value_of :: "setting \<Rightarrow> mm_value" where
  "value_of (JobActive v) = VJson (JBool v)"
| "value_of (WalkerAreaIndex v) = VJson (JInt v)"
| "value_of (Finished v) = VJson (JBool v)"
| "value_of (LastLocationTime v) = VJson (json_opt JInt v)"
| "value_of (LastCleanupTime v) = VJson (json_opt JInt v)"
| "value_of (LastLocation v) = (case v of None \<Rightarrow> VJson JNull | Some l \<Rightarrow> VLocation l)"
| "value_of (AccountIndex v) = VJson (JInt v)"
| "value_of (LastMode v) = (case v of None \<Rightarrow> VJson JNull | Some m \<Rightarrow> VMode m)"
| "value_of (LastActionTime v) = VJson (json_opt JInt v)"
| "value_of (LastQuestclearTime v) = VJson (json_opt JInt v)"
| "value_of (Other k v) = VJson v"

lemma set_keeps_settings [simp]:
  "device_settings (set_devicesetting s e) = device_settings e"
  "pool_settings (set_devicesetting s e) = pool_settings e"
  "walker_areas (set_devicesetting s e) = walker_areas e"
  by (cases s; simp)+

lemma pool_or_device_set [simp]: "pool_or_device c (set_devicesetting s e) = pool_or_device c e"
  by (simp add: pool_or_device_def split: option.split)

lemma get_set_same: "key_of s = Some k \<Longrightarrow> get_devicesetting k (set_devicesetting s e) = value_of s"
  by (cases s; clarsimp simp: get_devicesetting_def inherited_column_def)

lemma get_set_other: "key_of s \<noteq> Some k \<Longrightarrow> get_devicesetting k (set_devicesetting s e) = get_devicesetting k e"
  by (cases k; simp add: get_devicesetting_def inherited_column_def; cases s; simp)

text \<open>
  A runtime value of a known device is read back as it was set, all its other values and all other devices keep theirs;
  a key that cannot be set changes nothing.
\<close>

theorem setting_roundtrip:
  assumes "map_of (devicemappings mm) name = Some e"
  shows "get_devicesetting_value_of_device name' k (set_devicesetting_value_of name s mm) =
    (if name' = name \<and> key_of s = Some k then value_of s else get_devicesetting_value_of_device name' k mm)"
  using assms
  by (simp add: get_devicesetting_value_of_device_def set_devicesetting_value_of_def dict_simps get_set_same get_set_other)

lemma pool_cannot_switch_off:
  assumes "pool_settings e = Some pool" "\<not> truthy (pool column)"
  shows "pool_or_device column e = device_settings e column"
  using assms by (simp add: pool_or_device_def)

lemma screenshots_are_jpeg:
  assumes "\<And>row. row \<in> {device_settings e} \<union> set_option (pool_settings e) \<Longrightarrow> row ''screenshot_type'' \<in> {JNull, JStr ''jpeg'', JStr ''png''}"
  shows "get_devicesetting SCREENSHOT_TYPE e = VShot JPEG"
  using assms
  by (fastforce simp: get_devicesetting_def inherited_column_def screenshot_type_of_def pool_or_device_def split: option.split)

subsection \<open>Where a device is registered\<close>

definition no_device :: "int \<Rightarrow> (string, device_mapping) dict \<Rightarrow> bool" where
  "no_device n ds = list_all (\<lambda>(name, e). device_settings e ''device_id'' \<noteq> JInt n) ds"

lemma origin_loop_unknown: "no_device n ds \<Longrightarrow> origin_loop n ds start = (if ds = [] then start else Some (fst (last ds)))"
  by (induction ds arbitrary: start) (auto simp: no_device_def)

lemma unknown_device_is_the_last:
  assumes "no_device n (devicemappings mm)" "devicemappings mm \<noteq> []"
  shows "get_routemanager_id_where_device_is_registered (DeviceId n) mm =
    get_routemanager_id_where_device_is_registered (Origin (fst (last (devicemappings mm)))) mm"
  using origin_loop_unknown [OF assms(1), of None] assms(2)
  by (simp add: get_routemanager_id_where_device_is_registered_def resolve_origin_def)

lemma registered_sound:
  assumes "get_routemanager_id_where_device_is_registered (Origin o1) mm = Some rid"
  shows "\<exists>rm. map_of (routemanagers mm) rid = Some rm \<and> o1 \<in> workers_registered rm"
  using assms by (auto simp: get_routemanager_id_where_device_is_registered_def resolve_origin_def find_Some_iff
      routemanager_get_registered_workers_def fetch_routemanager_def split: option.splits)

subsection \<open>Mon mls\<close>

lemma areamons_at:
  assumes "get_latest_areamons ids mls areas = Inr mons" "dict_wf areas" "map_of areas a = Some row"
  shows "\<exists>l. map_of mons a = Some l \<and> (\<not> all_mons row \<longrightarrow> l = (case Option.bind (monlist_id row) (map_of mls) of None \<Rightarrow> [] | Some x \<Rightarrow> x)) \<and>
    (all_mons row \<longrightarrow> (\<exists>ns. res_map parse_int ids = Inr ns \<and>
       l = (case Option.bind (monlist_id row) (map_of mls) of None \<Rightarrow> [] | Some x \<Rightarrow> x) @ ns))"
  using assms
proof (induction areas arbitrary: mons)
  case (Cons x xs)
  obtain i r where x: "x = (i, r)" by (cases x)
  from Cons.prems(1) x obtain l rest where
    l: "(if all_mons r then all_mon_ids ids (case Option.bind (monlist_id r) (map_of mls) of None \<Rightarrow> [] | Some x \<Rightarrow> x)
         else Inr (case Option.bind (monlist_id r) (map_of mls) of None \<Rightarrow> [] | Some x \<Rightarrow> x)) = Inr l"
    and rest: "get_latest_areamons ids mls xs = Inr rest" and m: "mons = (i, l) # rest"
    by (auto simp: Let_def res_bind_Inr)
  show ?case
  proof (cases "a = i")
    case True
    then have "r = row" using Cons.prems(3) x by simp
    then show ?thesis using l m True by (auto simp: all_mon_ids_def res_bind_Inr split: if_splits)
  next
    case False
    then have a: "map_of xs a = Some row" "dict_wf xs" using Cons.prems(2,3) x by (simp_all add: dict_wf_def)
    from Cons.IH [OF rest a(2,1)] m False show ?thesis by simp
  qed
qed simp

text \<open>A mon of the list of an area that scans all mons is in the ids of the area a second time.\<close>

lemma all_mons_doubles:
  assumes "get_latest_areamons ids mls areas = Inr mons" "dict_wf areas" "map_of areas a = Some row" "all_mons row"
    and "monlist_id row = Some k" "map_of mls k = Some l" "m \<in> set l" "show_int m \<in> set ids"
  shows "\<not> distinct (get_monlist mons a)"
proof -
  from areamons_at [OF assms(1-3)] assms(4-6) obtain ns where ns: "res_map parse_int ids = Inr ns" "map_of mons a = Some (l @ ns)"
    by auto
  have "res_map parse_int xs = Inr ys \<Longrightarrow> show_int m \<in> set xs \<Longrightarrow> m \<in> set ys" for xs ys
    by (induction xs arbitrary: ys) (auto simp: res_bind_Inr parse_int_show_int)
  with ns(1) assms(8) have "m \<in> set ns" by blast
  with ns(2) assms(7) show ?thesis by (auto simp: get_monlist_def)
qed

subsection \<open>Updates\<close>

lemma restore_all_wf: "dict_wf d \<Longrightarrow> dict_wf (restore_all old d)"
  unfolding restore_all_def by (induction old arbitrary: d) (auto split: option.split)

lemma map_of_restore_all:
  "dict_wf old \<Longrightarrow> map_of (restore_all old d) dev =
     (case map_of d dev of None \<Rightarrow> None | Some e \<Rightarrow> Some (case map_of old dev of None \<Rightarrow> e | Some m \<Rightarrow> restore m e))"
  unfolding restore_all_def
proof (induction old arbitrary: d)
  case (Cons x xs)
  obtain i m where x: "x = (i, m)" by (cases x)
  have wf: "dict_wf xs" "map_of xs i = None" using Cons.prems x by (auto simp: dict_wf_def map_of_eq_None_iff)
  show ?case
    using Cons.IH [OF wf(1)] wf(2) x
    by (cases "i = dev"; cases "map_of d i"; cases "map_of d dev") (auto simp: dict_simps)
qed (simp split: option.split)

lemma device_names_latest:
  "map_of (fold (\<lambda>d acc. AList.update (device_name d) (device_mapping_of_row rows d) acc) ds acc) n = Some e \<Longrightarrow>
   (\<exists>d \<in> set ds. device_name d = n \<and> e = device_mapping_of_row rows d) \<or> map_of acc n = Some e"
  by (induction ds arbitrary: acc) (fastforce simp: dict_simps split: if_splits)+

lemma device_mapping_of_row_runtime [simp]:
  "walker_area_index (device_mapping_of_row rows d) = - 1" "\<not> finished (device_mapping_of_row rows d)"
  "device_settings (device_mapping_of_row rows d) = device_columns d"
  by (simp_all add: device_mapping_of_row_def new_device_mapping_def Let_def)

lemma restore_fields [simp]:
  "walker_area_index (restore m e) = walker_area_index e" "finished (restore m e) = finished e"
  "device_settings (restore m e) = device_settings e" "pool_settings (restore m e) = pool_settings e"
  "walker_areas (restore m e) = walker_areas e"
  "last_location (restore m e) = last_location m" "last_known_mode (restore m e) = last_known_mode m"
  "account_index (restore m e) = account_index m" "account_rotation_started (restore m e) = account_rotation_started m"
  by (simp_all add: restore_def)

text \<open>
  An update brings the rows of the database into force and loses no position: a device known before and after it keeps its
  last location, its mode and its account, with the settings and the walker of its new row, and its walker starts over.
  A device whose row is gone is gone.
\<close>

theorem update_keeps_positions:
  assumes "mm_update rows mm = (Inr (), mm')" "dict_wf (devicemappings mm)"
    and "map_of (devicemappings mm') dev = Some e"
  shows "(\<exists>d \<in> set (device_rows rows). device_name d = dev \<and> device_settings e = device_columns d \<and>
      pool_settings e = pool_settings (device_mapping_of_row rows d) \<and> walker_areas e = walker_areas (device_mapping_of_row rows d)) \<and>
    walker_area_index e = - 1 \<and> \<not> finished e \<and>
    (\<forall>old. map_of (devicemappings mm) dev = Some old \<longrightarrow> last_location e = last_location old \<and>
       last_known_mode e = last_known_mode old \<and> account_index e = account_index old \<and>
       account_rotation_started e = account_rotation_started old)"
proof -
  have "devicemappings mm' = restore_all (devicemappings mm) (get_latest_devicemappings rows)"
    using assms(1) by (auto simp: mm_update_def Let_def split: sum.splits)
  then obtain e0 where e0: "map_of (get_latest_devicemappings rows) dev = Some e0"
    and e: "e = (case map_of (devicemappings mm) dev of None \<Rightarrow> e0 | Some m \<Rightarrow> restore m e0)"
    using assms(3) map_of_restore_all [OF assms(2)] by (auto split: option.splits)
  from device_names_latest [OF e0 [unfolded get_latest_devicemappings_def]] obtain d
    where d: "d \<in> set (device_rows rows)" "device_name d = dev" "e0 = device_mapping_of_row rows d" by auto
  then show ?thesis using e by (auto split: option.split)
qed

section \<open>Histories\<close>

datatype mm_op =
    DeviceState int int
  | SetValue string setting
  | GetLocation rm_env int string
  | RegisterWorker int string
  | UnregisterWorker rm_env int string
  | AddCoordToBeRemoved int real real
  | RedoStopImmediately int string real real
  | RedoStopAtEnd int string location
  | WorkerSleeping rm_env int string real
  | WorkerStartposition int string real real
  | RecalculateManager rm_env int
  | Update mm_rows
  | FullUpdate mm_rows

fun mm_step :: "mm_op \<Rightarrow> mapping_manager \<Rightarrow> mapping_manager" where
  "mm_step (DeviceState d a) mm = set_device_state d a mm"
| "mm_step (SetValue n s) mm = set_devicesetting_value_of n s mm"
| "mm_step (GetLocation env rid w) mm = snd (routemanager_get_next_location env rid w mm)"
| "mm_step (RegisterWorker rid w) mm = snd (register_worker_to_routemanager rid w mm)"
| "mm_step (UnregisterWorker env rid w) mm = snd (unregister_worker_from_routemanager env rid w mm)"
| "mm_step (AddCoordToBeRemoved rid la lo) mm = snd (routemanager_add_coords_to_be_removed rid la lo mm)"
| "mm_step (RedoStopImmediately rid w la lo) mm = snd (routemanager_redo_stop_immediately rid w la lo mm)"
| "mm_step (RedoStopAtEnd rid w l) mm = snd (routemanager_redo_stop_at_end rid w l mm)"
| "mm_step (WorkerSleeping env rid w d) mm = snd (routemanager_set_worker_sleeping env rid w d mm)"
| "mm_step (WorkerStartposition rid w la lo) mm = snd (mm_set_worker_startposition rid w la lo mm)"
| "mm_step (RecalculateManager env rid) mm = snd (routemanager_recalculate env rid mm)"
| "mm_step (Update rows) mm = snd (mm_update rows mm)"
| "mm_step (FullUpdate rows) mm = snd (mm_full_update rows mm)"

definition mm_run :: "mm_op list \<Rightarrow> mapping_manager \<Rightarrow> mapping_manager" where
  "mm_run ops = fold mm_step ops"

definition empty_mapping_manager :: mapping_manager where
  "empty_mapping_manager = \<lparr>devicemappings = [], routemanagers = [], mm_areas = [], monlists = [], areamons = [],
     mm_auths = [], paused_devices = []\<rparr>"

text \<open>A manager with a history of its own operations.\<close>

definition has_history :: "route_manager \<Rightarrow> bool" where
  "has_history rm \<longleftrightarrow> (\<exists>ops k s r mc cl ids st strat. rm = rm_run ops (new_route_manager k s r mc cl ids st strat))"

lemma has_history_step: "has_history rm \<Longrightarrow> has_history (rm_step op rm)"
proof -
  assume "has_history rm"
  then obtain ops k s r mc cl ids st strat where "rm = rm_run ops (new_route_manager k s r mc cl ids st strat)"
    by (auto simp: has_history_def)
  then have "rm_step op rm = rm_run (ops @ [op]) (new_route_manager k s r mc cl ids st strat)" by (simp add: rm_run_def)
  then show "has_history (rm_step op rm)" unfolding has_history_def by blast
qed

lemma has_history_new [simp]: "has_history (new_route_manager k s r mc cl ids st strat)"
proof -
  have "new_route_manager k s r mc cl ids st strat = rm_run [] (new_route_manager k s r mc cl ids st strat)"
    by (simp add: rm_run_def)
  then show ?thesis unfolding has_history_def by blast
qed

lemma get_routemanager_history: "get_routemanager area radius n ids = Inr rm \<Longrightarrow> has_history rm"
  by (auto simp: get_routemanager_def new_raid_manager_def new_mon_manager_def new_iv_manager_def Let_def res_bind_Inr split: if_splits)

lemma latest_history: "get_latest_routemanagers mons areas = Inr rms \<Longrightarrow> rm \<in> snd ` set rms \<Longrightarrow> has_history rm"
proof (induction areas arbitrary: rms)
  case (Cons x xs)
  obtain i a where x: "x = (i, a)" by (cases x)
  with Cons.prems(1) obtain rm1 rest where
    rm1: "get_routemanager a (mode_range (area_mode a)) (mode_max_count (area_mode a)) (get_monlist mons i) = Inr rm1"
    and rest: "get_latest_routemanagers mons xs = Inr rest" "rms = (area_row_id a, rm1) # rest"
    by (auto simp: res_bind_Inr split: if_splits)
  from rest(2) Cons.prems(2) consider "rm = rm1" | "rm \<in> snd ` set rest" by auto
  then show ?case
  proof cases
    case 1
    then show ?thesis using get_routemanager_history [OF rm1] by simp
  next
    case 2
    then show ?thesis by (rule Cons.IH [OF rest(1)])
  qed
qed simp

definition mm_inv :: "mapping_manager \<Rightarrow> bool" where
  "mm_inv mm \<longleftrightarrow> dict_wf (devicemappings mm) \<and> (\<forall>rid rm. map_of (routemanagers mm) rid = Some rm \<longrightarrow> has_history rm)"

lemma mm_inv_on:
  assumes "mm_inv mm" "\<And>rm. has_history rm \<Longrightarrow> has_history (snd (f rm))"
  shows "mm_inv (snd (on_routemanager rid x f mm))"
proof (cases "map_of (routemanagers mm) rid")
  case None
  then show ?thesis using assms(1) by (simp add: on_routemanager_def fetch_routemanager_def)
next
  case (Some rm)
  then have "has_history (snd (f rm))" using assms by (auto simp: mm_inv_def)
  then show ?thesis using assms(1) Some
    by (simp add: on_routemanager_def fetch_routemanager_def put_routemanager_def mm_inv_def dict_simps case_prod_beta)
qed

lemma dict_wf_latest: "dict_wf (get_latest_devicemappings rows)"
proof -
  have "dict_wf acc \<Longrightarrow> dict_wf (fold (\<lambda>d acc. AList.update (device_name d) (device_mapping_of_row rows d) acc) ds acc)" for ds acc
    by (induction ds arbitrary: acc) auto
  then show ?thesis by (simp add: get_latest_devicemappings_def)
qed

lemma latest_all: "latest_routemanagers rows mons = Inr rms \<Longrightarrow> map_of rms rid = Some rm \<Longrightarrow> has_history rm"
  by (auto simp: latest_routemanagers_def split: if_splits) (metis latest_history map_of_SomeD imageI snd_conv)

lemma mm_inv_step: "mm_inv mm \<Longrightarrow> mm_inv (mm_step op mm)"
proof -
  assume inv: "mm_inv mm"
  note on = mm_inv_on [OF inv]
  show "mm_inv (mm_step op mm)"
  proof (cases op)
    case (GetLocation env rid w)
    then show ?thesis using has_history_step [of _ "GetNext env w"] by (auto simp: routemanager_get_next_location_def intro!: on)
  next
    case (RegisterWorker rid w)
    then show ?thesis using has_history_step [of _ "Register w"] by (auto simp: register_worker_to_routemanager_def intro!: on)
  next
    case (UnregisterWorker env rid w)
    then show ?thesis using has_history_step [of _ "Unregister env w False"]
      by (auto simp: unregister_worker_from_routemanager_def case_prod_beta Let_def intro!: on)
  next
    case (AddCoordToBeRemoved rid la lo)
    then show ?thesis using has_history_step [of _ "Ignore la lo"] by (auto simp: routemanager_add_coords_to_be_removed_def intro!: on)
  next
    case (RedoStopImmediately rid w la lo)
    then show ?thesis using has_history_step [of _ "RedoNow w la lo"] by (auto simp: routemanager_redo_stop_immediately_def intro!: on)
  next
    case (RedoStopAtEnd rid w l)
    then show ?thesis using has_history_step [of _ "RedoAtEnd w l"] by (auto simp: routemanager_redo_stop_at_end_def intro!: on)
  next
    case (WorkerSleeping env rid w d)
    then show ?thesis using has_history_step [of _ "Sleeping env w d"] by (auto simp: routemanager_set_worker_sleeping_def intro!: on)
  next
    case (WorkerStartposition rid w la lo)
    then show ?thesis using has_history_step [of _ "StartPosition w la lo"] by (auto simp: mm_set_worker_startposition_def intro!: on)
  next
    case (RecalculateManager env rid)
    then show ?thesis using has_history_step [of _ "StartManager env"] has_history_step [of _ "Recalculate env False True"]
      by (auto simp: routemanager_recalculate_def intro!: on split: prod.split sum.split) (metis fst_conv)+
  next
    case (Update rows)
    then show ?thesis using inv
      by (auto simp: mm_update_def mm_inv_def Let_def restore_all_wf dict_wf_latest split: sum.split dest: latest_all)
  next
    case (FullUpdate rows)
    then show ?thesis using inv
      by (auto simp: mm_full_update_def mm_inv_def Let_def dict_wf_latest split: sum.split dest: latest_all)
  qed (use inv in \<open>auto simp: set_device_state_def set_devicesetting_value_of_def mm_inv_def split: option.split\<close>)
qed

lemma mm_inv_run: "mm_inv mm \<Longrightarrow> mm_inv (mm_run ops mm)"
  unfolding mm_run_def by (induction ops arbitrary: mm) (simp_all add: mm_inv_step)


section \<open>The theorems on concrete inputs\<close>

definition demo_row :: settings_row where
  "demo_row c = (if c = ''device_id'' then JInt 1 else JNull)"

definition demo_area :: area_row where
  "demo_area = \<lparr>area_row_id = 1, area_mode = ''mon_mitm'', geofence_included = Some 1, monlist_id = Some 1, all_mons = False,
     delay_after_prio_event = Some 30, clustering_timedelta = None, queue_backlog = None, area_starve_route = None,
     area_spawns_known = True, area_max_clustering = None, area_including_stops = False, area_level = False, area_layer = 1,
     init_type = [], init_rounds = 1\<rparr>"

definition demo_rows :: mm_rows where
  "demo_rows = \<lparr>device_rows = [\<lparr>device_name = ''atv'', device_columns = demo_row, device_pool_id = None, device_walker_id = 1\<rparr>],
     pool_rows = [], walker_rows = [1], walker_to_areas = [(1, [1])], walkerarea_rows = [], area_rows = [(1, demo_area)],
     monlist_rows = [(1, [1, 4])], auth_rows = [], known_mon_ids = [''1''], mm_configmode = False\<rparr>"

definition demo_mm :: mapping_manager where
  "demo_mm = snd (mm_full_update demo_rows empty_mapping_manager)"

lemma demo_device: "map_of (devicemappings demo_mm) ''atv'' = Some (device_mapping_of_row demo_rows (hd (device_rows demo_rows)))"
  by (simp add: demo_mm_def mm_full_update_def demo_rows_def empty_mapping_manager_def demo_area_def latest_routemanagers_def
      get_routemanager_def Let_def get_latest_devicemappings_def)

lemma setting_roundtrip_witness:
  "get_devicesetting_value_of_device ''atv'' FINISHED (set_devicesetting_value_of ''atv'' (Finished True) demo_mm) = VJson (JBool True) \<and>
   get_devicesetting_value_of_device ''atv'' JOB_ACTIVE (set_devicesetting_value_of ''atv'' (Finished True) demo_mm) =
     get_devicesetting_value_of_device ''atv'' JOB_ACTIVE demo_mm"
  using setting_roundtrip [OF demo_device, of "''atv''" FINISHED "Finished True"]
    setting_roundtrip [OF demo_device, of "''atv''" JOB_ACTIVE "Finished True"] by simp

lemma update_keeps_positions_witness:
  "(\<exists>mm' e. mm_update demo_rows (set_devicesetting_value_of ''atv'' (WalkerAreaIndex 3) (set_devicesetting_value_of ''atv'' (AccountIndex 7) demo_mm))
      = (Inr (), mm') \<and> map_of (devicemappings mm') ''atv'' = Some e \<and> account_index e = 7 \<and> walker_area_index e = - 1)"
proof -
  let ?mm = "set_devicesetting_value_of ''atv'' (WalkerAreaIndex 3) (set_devicesetting_value_of ''atv'' (AccountIndex 7) demo_mm)"
  let ?d = "hd (device_rows demo_rows)"
  obtain mm' where u: "mm_update demo_rows ?mm = (Inr (), mm')"
    by (simp add: mm_update_def demo_rows_def demo_area_def latest_routemanagers_def get_routemanager_def Let_def)
  have wf0: "dict_wf (devicemappings demo_mm)"
    using mm_inv_run [of empty_mapping_manager "[FullUpdate demo_rows]"]
    by (simp add: mm_inv_def mm_run_def demo_mm_def empty_mapping_manager_def)
  then have wf: "dict_wf (devicemappings ?mm)" by (simp add: set_devicesetting_value_of_def split: option.split)
  have "devicemappings mm' = restore_all (devicemappings ?mm) (get_latest_devicemappings demo_rows)"
    using u by (auto simp: mm_update_def Let_def split: sum.splits)
  moreover have "map_of (get_latest_devicemappings demo_rows) ''atv'' = Some (device_mapping_of_row demo_rows ?d)"
    by (simp add: get_latest_devicemappings_def demo_rows_def)
  ultimately obtain e where e: "map_of (devicemappings mm') ''atv'' = Some e" using map_of_restore_all [OF wf] by simp
  have "\<exists>old. map_of (devicemappings ?mm) ''atv'' = Some old \<and> account_index old = 7"
    by (simp add: set_devicesetting_value_of_def demo_device dict_simps)
  with update_keeps_positions [OF u wf e] u e show ?thesis by auto
qed


end
