(* ===== verification/Walker.thy ===== *)
theory Walker
  imports Mappings
begin

text \<open>
  The choice of the area a device works on: the time values of a walker (\<open>mapadroid/utils/routeutil.py\<close>) and
  \<open>mapadroid/worker/strategy/StrategyFactory.py\<close>, which walks through the areas of the walker of a device, over the
  devices and route managers of \<open>Mappings\<close>. What the outside answers at the \<open>k\<close>-th pre-check is the
  \<open>k\<close>-th of a sequence of environments. The time zone of a location is an argument: a clock tells
  the seconds of the local day, and of the day in UTC for \<open>None\<close>.
\<close>

section \<open>Time values\<close>

type_synonym clock = "location option \<Rightarrow> real"

definition is_digit :: "char \<Rightarrow> bool" where "is_digit c = (digit_val c \<noteq> None)"

text \<open>\<open>\d?\d:\d\d\<close>\<close>

definition is_time :: "string \<Rightarrow> bool" where
  "is_time s = (case s of
       [a, b, c, d] \<Rightarrow> is_digit a \<and> b = CHR '':'' \<and> is_digit c \<and> is_digit d
     | [z, a, b, c, d] \<Rightarrow> is_digit z \<and> is_digit a \<and> b = CHR '':'' \<and> is_digit c \<and> is_digit d
     | _ \<Rightarrow> False)"

datatype walker_value = TillEnd | Period

text \<open>The end of the pattern also matches before a final line break.\<close>

definition drop_newline :: "string \<Rightarrow> string" where
  "drop_newline s = (if s \<noteq> [] \<and> last s = CHR 0x0A then butlast s else s)"

definition match_walker_value :: "string \<Rightarrow> walker_value option" where
  "match_walker_value v =
     (let s = drop_newline (remove_char (CHR '' '') v)
      in if is_time s then Some TillEnd
         else (case split_char (CHR ''-'') s of [a, b] \<Rightarrow> if is_time a \<and> is_time b then Some Period else None | _ \<Rightarrow> None))"

text \<open>\<open>replace(hour=int(h), minute=int(m))\<close>: the minute of the day.\<close>

definition hour_minute :: "string list \<Rightarrow> int result" where
  "hour_minute parts =
     (case parts of
        [] \<Rightarrow> Inl IndexError
      | h # rest \<Rightarrow> res_bind (parse_int h) (\<lambda>h. case rest of
            [] \<Rightarrow> Inl IndexError
          | m # _ \<Rightarrow> res_bind (parse_int m) (\<lambda>m.
              if 0 \<le> h \<and> h \<le> 23 \<and> 0 \<le> m \<and> m \<le> 59 then Inr (h * 60 + m) else Inl ValueError)))"

definition check_time_till_end :: "string \<Rightarrow> real \<Rightarrow> bool result" where
  "check_time_till_end exittime tm_now = res_bind (hour_minute (split_char (CHR '':'') exittime)) (\<lambda>m. Inr (tm_now < of_int (m * 60)))"

definition DAY_MINUTES :: int where "DAY_MINUTES = 1440"

definition within_period :: "int \<Rightarrow> int \<Rightarrow> int \<Rightarrow> bool" where
  "within_period tm_now tm_from tm_til =
     (let (f, t) = (if tm_from > tm_til
          then if tm_now < tm_from then (tm_from - DAY_MINUTES, tm_til) else (tm_from, tm_til + DAY_MINUTES)
          else (tm_from, tm_til))
      in f \<le> tm_now \<and> tm_now \<le> t)"

definition check_time_period :: "string \<Rightarrow> real \<Rightarrow> bool result" where
  "check_time_period period tm_now =
     (case split_char (CHR ''-'') period of
        a # b # _ \<Rightarrow>
          res_bind (hour_minute (split_char (CHR '':'') (remove_char (CHR '' '') a))) (\<lambda>tm_from.
          res_bind (hour_minute (split_char (CHR '':'') (remove_char (CHR '' '') b))) (\<lambda>tm_til.
          Inr (within_period \<lfloor>tm_now / 60\<rfloor> tm_from tm_til)))
      | _ \<Rightarrow> Inl IndexError)"

definition check_walker_value_type :: "clock \<Rightarrow> string \<Rightarrow> location option \<Rightarrow> bool result" where
  "check_walker_value_type clock v loc =
     (let tm_now = clock (case loc of Some l \<Rightarrow> if lat l \<noteq> 0 \<or> lng l \<noteq> 0 then Some l else None | None \<Rightarrow> None)
      in case match_walker_value v of
           Some TillEnd \<Rightarrow> check_time_till_end v tm_now
         | Some Period \<Rightarrow> check_time_period v tm_now
         | None \<Rightarrow> Inr False)"

section \<open>The pre-check of an area\<close>

text \<open>A \<open>ValueError\<close> makes the answer \<open>False\<close>; \<open>len(None)\<close> is a \<open>TypeError\<close>.\<close>

definition catch_value_error :: "bool result \<Rightarrow> bool result" where
  "catch_value_error r = (if r = Inl ValueError then Inr False else r)"

definition is_time_walker :: "walkerarea \<Rightarrow> bool" where
  "is_time_walker wa = (wa_algo_type wa \<in> {''timer'', ''period'', ''coords'', ''idle''})"

definition pre_check_value :: "clock \<Rightarrow> walkerarea \<Rightarrow> int \<Rightarrow> location option \<Rightarrow> nat \<Rightarrow> nat \<Rightarrow> real \<Rightarrow> bool result" where
  "pre_check_value clock wa eventid loc n_registered coords_scannable rounds_processed =
     (if (case wa_max_walkers wa of Some m \<Rightarrow> 0 < m \<and> m \<le> int n_registered | None \<Rightarrow> False) then Inr False
      else if wa_eventid wa \<noteq> None \<and> wa_eventid wa \<noteq> Some eventid then Inr False
      else if n_registered = 0 \<and> coords_scannable = 0 then Inr False
      else catch_value_error
        (if is_time_walker wa then
           (case wa_algo_value wa of
              None \<Rightarrow> if wa_algo_type wa = ''coords'' then Inr True else Inl TypeError
            | Some v \<Rightarrow> if v = [] then Inr True else check_walker_value_type clock v loc)
         else if wa_algo_type wa = ''round'' then
           (case wa_algo_value wa of
              None \<Rightarrow> Inr False
            | Some v \<Rightarrow> res_bind (parse_int v) (\<lambda>n. Inr (\<not> of_int n \<le> rounds_processed)))
         else Inr True))"

section \<open>Walking through the areas of a walker\<close>

record walker_env =
  we_event :: int
  we_clock :: clock
  we_middle :: "int \<Rightarrow> location option"
  we_rm :: "int \<Rightarrow> rm_env"

text \<open>\<open>_get_amount_of_registered_workers\<close> and its siblings.\<close>

definition amount_of_registered_workers :: "string \<Rightarrow> walkerarea \<Rightarrow> mapping_manager \<Rightarrow> nat" where
  "amount_of_registered_workers origin wa mm = card (routemanager_get_registered_workers (wa_area_id wa) mm - {origin})"

definition amount_of_coords_scannable :: "walker_env \<Rightarrow> walkerarea \<Rightarrow> mapping_manager \<Rightarrow> nat" where
  "amount_of_coords_scannable env wa mm =
     (case routemanager_get_amount_of_coords_scannable (we_rm env (wa_area_id wa)) (wa_area_id wa) mm of None \<Rightarrow> 0 | Some n \<Rightarrow> n)"

definition worker_rounds_run_through :: "walkerarea \<Rightarrow> mapping_manager \<Rightarrow> real" where
  "worker_rounds_run_through wa mm = (case routemanager_get_rounds (wa_area_id wa) mm of None \<Rightarrow> 0 | Some n \<Rightarrow> n)"

definition area_middle_of_fence :: "walker_env \<Rightarrow> int \<Rightarrow> mapping_manager \<Rightarrow> location option" where
  "area_middle_of_fence env rid mm = (if routemanager_present rid mm then we_middle env rid else None)"

definition pre_check :: "walker_env \<Rightarrow> string \<Rightarrow> mapping_manager \<Rightarrow> walkerarea \<Rightarrow> bool result" where
  "pre_check env origin mm wa =
     pre_check_value (we_clock env) wa (we_event env) (area_middle_of_fence env (wa_area_id wa) mm)
       (amount_of_registered_workers origin wa mm) (amount_of_coords_scannable env wa mm) (worker_rounds_run_through wa mm)"

definition initialize_devicesettings :: "string \<Rightarrow> mapping_manager \<Rightarrow> mapping_manager" where
  "initialize_devicesettings origin mm =
     fold (set_devicesetting_value_of origin)
       [WalkerAreaIndex 0, Finished False, LastLocationTime None, LastCleanupTime None, JobActive False] mm"

definition reset_settings :: "string \<Rightarrow> mapping_manager \<Rightarrow> mapping_manager" where
  "reset_settings origin mm = fold (set_devicesetting_value_of origin) [WalkerAreaIndex 0, Finished False] mm"

definition update_walker_index :: "string \<Rightarrow> device_mapping \<Rightarrow> mapping_manager \<Rightarrow> mapping_manager" where
  "update_walker_index origin e mm =
     (if walker_area_index e > 0 \<and> \<not> finished e
      then set_devicesetting_value_of origin (WalkerAreaIndex (walker_area_index e - 1)) mm else mm)"

text \<open>
  The loop: \<open>k\<close> counts the pre-checks. After the last area it starts again at the first one, once.
\<close>

function walker_loop ::
    "(nat \<Rightarrow> walker_env) \<Rightarrow> string \<Rightarrow> walkerarea option list \<Rightarrow> nat \<Rightarrow> bool \<Rightarrow> nat \<Rightarrow> mapping_manager
      \<Rightarrow> (walkerarea \<times> nat) option result \<times> mapping_manager" where
  "walker_loop envs origin areas k loop_exit idx mm =
     (if length areas \<le> idx then (Inl IndexError, mm)
      else (case areas ! idx of
         None \<Rightarrow> (Inl AttributeError, mm)
       | Some wa \<Rightarrow> (case pre_check (envs k) origin mm wa of
            Inl e \<Rightarrow> (Inl e, mm)
          | Inr ok \<Rightarrow>
              if ok then (Inr (Some (wa, idx)), mm)
              else if idx \<ge> length areas - 1 then
                if loop_exit then (Inr None, reset_settings origin mm)
                else walker_loop envs origin areas (Suc k) True 0 (reset_settings origin mm)
              else walker_loop envs origin areas (Suc k) loop_exit (Suc idx)
                     (set_devicesetting_value_of origin (WalkerAreaIndex (int (Suc idx))) mm))))"
  by pat_completeness auto

termination
  by (relation "measure (\<lambda>(envs, origin, areas, k, loop_exit, idx, mm). (if loop_exit then 0 else length areas) + (length areas - idx))") auto

declare walker_loop.simps [simp del]

record walker_configuration =
  cfg_settings :: walkerarea
  cfg_index :: nat
  cfg_area_id :: int
  cfg_total :: nat

definition get_walker_settings ::
    "(nat \<Rightarrow> walker_env) \<Rightarrow> string \<Rightarrow> mapping_manager \<Rightarrow> walker_configuration option result \<times> mapping_manager" where
  "get_walker_settings envs origin mm =
     (case get_devicemappings_of origin mm of
        None \<Rightarrow> (Inl AttributeError, mm)
      | Some e \<Rightarrow>
          if walker_areas e = [] then (Inr None, mm)
          else
            (let mm1 = (if walker_area_index e < 0 then initialize_devicesettings origin mm else mm);
                 e1 = the (get_devicemappings_of origin mm1);
                 mm2 = update_walker_index origin e1 mm1;
                 idx = nat (walker_area_index (the (get_devicemappings_of origin mm2)))
             in if length (walker_areas e) \<le> idx then (Inr None, mm2)
                else (case walker_loop envs origin (walker_areas e) 0 False idx mm2 of
                    (Inl err, mm3) \<Rightarrow> (Inl err, mm3)
                  | (Inr None, mm3) \<Rightarrow> (Inr None, mm3)
                  | (Inr (Some (wa, i)), mm3) \<Rightarrow>
                      (Inr (Some \<lparr>cfg_settings = wa, cfg_index = i, cfg_area_id = wa_area_id wa, cfg_total = length (walker_areas e)\<rparr>), mm3))))"

definition prep_settings ::
    "(nat \<Rightarrow> walker_env) \<Rightarrow> string \<Rightarrow> mapping_manager \<Rightarrow> walker_configuration option result \<times> mapping_manager" where
  "prep_settings envs origin mm =
     (case get_walker_settings envs origin mm of
        (Inr (Some cfg), mm1) \<Rightarrow>
          if cfg_area_id cfg \<notin> set (get_all_routemanager_ids mm1) then (Inl WrongAreaInWalker, mm1)
          else (Inr (Some cfg), snd (register_worker_to_routemanager (cfg_area_id cfg) origin mm1))
      | r \<Rightarrow> r)"

definition update_settings_of_origin :: "string \<Rightarrow> walker_configuration \<Rightarrow> mapping_manager \<Rightarrow> mapping_manager" where
  "update_settings_of_origin origin cfg mm =
     (let mm1 = fold (set_devicesetting_value_of origin) [WalkerAreaIndex (int (cfg_index cfg) + 1), Finished False] mm;
          mm2 = (if cfg_index cfg \<ge> cfg_total cfg - 1 then set_devicesetting_value_of origin (WalkerAreaIndex 0) mm1 else mm1)
      in case get_devicemappings_of origin mm2 of
           Some e \<Rightarrow> if last_location e = None then set_devicesetting_value_of origin (LastLocation (Some (Loc 0 0))) mm2 else mm2
         | None \<Rightarrow> mm2)"

section \<open>The strategy of a worker\<close>

datatype strategy_class = NopStrategy | WorkerInitStrategy | WorkerMonIvStrategy | WorkerMonMitmStrategy | WorkerRaidsStrategy
  | ARQuestLayerStrategy | NonARQuestLayerStrategy

record worker_strategy =
  strategy_class :: strategy_class
  strategy_area :: int
  strategy_walker :: "walkerarea option"

definition quest_strategy :: "int \<Rightarrow> mapping_manager \<Rightarrow> strategy_class result" where
  "quest_strategy rid mm =
     (if routemanager_is_levelmode rid mm = Some True then Inr NonARQuestLayerStrategy
      else (case routemanager_get_quest_layer_to_scan rid mm of
          None \<Rightarrow> Inl ValueError
        | Some layer \<Rightarrow> res_bind (quest_layer_of layer) (\<lambda>l. Inr (if l = 0 then ARQuestLayerStrategy else NonARQuestLayerStrategy))))"

definition get_strategy :: "worker_type option \<Rightarrow> int \<Rightarrow> walkerarea option \<Rightarrow> mapping_manager \<Rightarrow> worker_strategy result" where
  "get_strategy mode rid wa mm =
     res_bind (case mode of
         None \<Rightarrow> Inr NopStrategy
       | Some UNDEFINED \<Rightarrow> Inr NopStrategy
       | Some CONFIGMODE \<Rightarrow> Inr NopStrategy
       | Some IDLE \<Rightarrow> Inr NopStrategy
       | Some INIT \<Rightarrow> Inr WorkerInitStrategy
       | Some IV_MITM \<Rightarrow> Inr WorkerMonIvStrategy
       | Some MON_MITM \<Rightarrow> Inr WorkerMonMitmStrategy
       | Some RAID_MITM \<Rightarrow> Inr WorkerRaidsStrategy
       | Some STOPS \<Rightarrow> quest_strategy rid mm)
       (\<lambda>c. Inr \<lparr>strategy_class = c, strategy_area = rid, strategy_walker = wa\<rparr>)"

definition get_strategy_using_settings ::
    "(nat \<Rightarrow> walker_env) \<Rightarrow> string \<Rightarrow> bool \<Rightarrow> mapping_manager \<Rightarrow> worker_strategy result \<times> mapping_manager" where
  "get_strategy_using_settings envs origin enable_configmode mm =
     (if enable_configmode then (get_strategy (Some CONFIGMODE) 0 None mm, mm)
      else (case prep_settings envs origin mm of
          (Inl e, mm1) \<Rightarrow> (Inl e, mm1)
        | (Inr None, mm1) \<Rightarrow> (get_strategy (Some CONFIGMODE) 0 None mm1, mm1)
        | (Inr (Some cfg), mm1) \<Rightarrow>
            (let mm2 = update_settings_of_origin origin cfg mm1
             in case get_devicesettings_of origin mm2 of
                  None \<Rightarrow> (Inl TypeError, mm2)
                | Some (row, _) \<Rightarrow>
                    (let mode = routemanager_get_mode (cfg_area_id cfg) mm2
                     in if \<not> truthy (row ''device_id'') \<or> mode = Some UNDEFINED
                        then (get_strategy (Some CONFIGMODE) 0 (Some (cfg_settings cfg)) mm2, mm2)
                        else (get_strategy mode (cfg_area_id cfg) (Some (cfg_settings cfg)) mm2, mm2)))))"

section \<open>Time values\<close>

definition two_digits :: "nat \<Rightarrow> string" where
  "two_digits n = [digit_char (n div 10), digit_char (n mod 10)]"

text \<open>How a walker value writes the minute \<open>m\<close> of the day.\<close>

definition show_clock :: "nat \<Rightarrow> string" where
  "show_clock m = two_digits (m div 60) @ CHR '':'' # two_digits (m mod 60)"

lemma digit_char_clean:
  assumes "d < 10"
  shows "is_digit (digit_char d)" "\<not> is_ws (digit_char d)" "digit_char d \<noteq> CHR ''-''" "digit_char d \<noteq> CHR ''+''"
    "digit_char d \<noteq> CHR '':''" "digit_char d \<noteq> CHR '' ''" "digit_char d \<noteq> CHR 0x0A"
proof -
  have d: "digit_val (digit_char d) \<noteq> None" using assms by (simp add: digit_val_digit_char)
  have ws: "is_ws (CHR '' '')" "is_ws (CHR 0x0A)" by (simp_all add: is_ws_def)
  from digit_val_not_special [OF d] d ws
  show "is_digit (digit_char d)" "\<not> is_ws (digit_char d)" "digit_char d \<noteq> CHR ''-''" "digit_char d \<noteq> CHR ''+''"
    "digit_char d \<noteq> CHR '':''" "digit_char d \<noteq> CHR '' ''" "digit_char d \<noteq> CHR 0x0A"
    by (auto simp: is_digit_def)
qed

lemma two_digits_parse: "n < 100 \<Longrightarrow> parse_int (two_digits n) = Inr (int n)"
proof -
  assume n: "n < 100"
  have d: "n div 10 < 10" "n mod 10 < 10" using n by auto
  note c = digit_char_clean [OF d(1)] digit_char_clean [OF d(2)]
  have "strip (two_digits n) = two_digits n" by (rule strip_id) (use c in \<open>auto simp: two_digits_def\<close>)
  moreover have "10 * int (n div 10) + int (n mod 10) = int n" by presburger
  ultimately show ?thesis using c d
    by (simp add: parse_int_def) (simp add: two_digits_def parse_digits_def digit_val_digit_char)
qed

lemma show_clock_parts:
  assumes "m < 1440"
  shows "split_char (CHR '':'') (show_clock m) = [two_digits (m div 60), two_digits (m mod 60)]" (is ?split)
    and "hour_minute [two_digits (m div 60), two_digits (m mod 60)] = Inr (int m)" (is ?minute)
    and "is_time (show_clock m)" "CHR ''-'' \<notin> set (show_clock m)" "CHR '' '' \<notin> set (show_clock m)"
    and "last (show_clock m) \<noteq> CHR 0x0A" "show_clock m \<noteq> []"
proof -
  have b: "m div 60 < 24" "m mod 60 < 60" using assms by auto
  then have d: "m div 60 div 10 < 10" "m div 60 mod 10 < 10" "m mod 60 div 10 < 10" "m mod 60 mod 10 < 10" by auto
  note c = digit_char_clean [OF d(1)] digit_char_clean [OF d(2)] digit_char_clean [OF d(3)] digit_char_clean [OF d(4)]
  have "CHR '':'' \<notin> set (two_digits (m div 60))" "CHR '':'' \<notin> set (two_digits (m mod 60))"
    using c by (auto simp: two_digits_def)
  then show ?split by (simp add: show_clock_def split_char_cons split_char_no_sep)
  have "int (m div 60) * 60 + int (m mod 60) = int m" by presburger
  then show ?minute using b by (simp add: hour_minute_def two_digits_parse)
  show "is_time (show_clock m)" "CHR ''-'' \<notin> set (show_clock m)" "CHR '' '' \<notin> set (show_clock m)"
    "last (show_clock m) \<noteq> CHR 0x0A" "show_clock m \<noteq> []"
    using c by (auto simp: show_clock_def two_digits_def is_time_def)
qed

definition local_time :: "clock \<Rightarrow> location option \<Rightarrow> real" where
  "local_time clock loc = clock (case loc of Some l \<Rightarrow> if lat l \<noteq> 0 \<or> lng l \<noteq> 0 then Some l else None | None \<Rightarrow> None)"

lemma within_period_iff:
  assumes "0 \<le> n" "n < DAY_MINUTES" "0 \<le> f" "f < DAY_MINUTES" "0 \<le> t"
  shows "within_period n f t \<longleftrightarrow> (if f \<le> t then f \<le> n \<and> n \<le> t else f \<le> n \<or> n \<le> t)"
  using assms by (auto simp: within_period_def DAY_MINUTES_def)

lemma period_value:
  assumes "f < 1440" "t < 1440"
  shows "check_walker_value_type clock (show_clock f @ CHR ''-'' # show_clock t) loc =
    Inr (within_period \<lfloor>local_time clock loc / 60\<rfloor> (int f) (int t))"
proof -
  note f = show_clock_parts [OF assms(1)] and t = show_clock_parts [OF assms(2)]
  let ?v = "show_clock f @ CHR ''-'' # show_clock t"
  have nl: "drop_newline ?v = ?v" using t(6,7) by (simp add: drop_newline_def)
  have rm: "remove_char (CHR '' '') ?v = ?v" using f(5) t(5) by (simp add: remove_char_id)
  have split: "split_char (CHR ''-'') ?v = [show_clock f, show_clock t]"
    using f(4) t(4) by (simp add: split_char_cons split_char_no_sep)
  have "\<not> is_time ?v" by (simp add: is_time_def show_clock_def two_digits_def)
  then have "match_walker_value ?v = Some Period" using nl rm split f(3) t(3) by (simp add: match_walker_value_def)
  then show ?thesis
    using split f t by (simp add: check_walker_value_type_def check_time_period_def local_time_def remove_char_id)
qed

lemma till_value:
  assumes "m < 1440"
  shows "check_walker_value_type clock (show_clock m) loc = Inr (local_time clock loc < of_nat (m * 60))"
proof -
  note m = show_clock_parts [OF assms]
  have "drop_newline (show_clock m) = show_clock m" using m(6) by (simp add: drop_newline_def)
  then have "match_walker_value (show_clock m) = Some TillEnd" using m(3,5) by (simp add: match_walker_value_def remove_char_id)
  then show ?thesis using m by (simp add: check_walker_value_type_def check_time_till_end_def local_time_def)
qed

text \<open>
  A time of the day and a period written with two digits mean what they say, at any moment of the local day: an area with a time is
  used before that time, and one with a period in that period, which runs over midnight when it ends before it begins.
\<close>

theorem walker_times_mean:
  assumes "f < 1440" "t < 1440" "0 \<le> local_time clock loc" "local_time clock loc < 86400"
  shows "check_walker_value_type clock (show_clock t) loc = Inr (local_time clock loc < of_nat (t * 60)) \<and>
    check_walker_value_type clock (show_clock f @ CHR ''-'' # show_clock t) loc =
      (let n = \<lfloor>local_time clock loc / 60\<rfloor> in Inr (if f \<le> t then int f \<le> n \<and> n \<le> int t else int f \<le> n \<or> n \<le> int t))"
proof -
  have "0 \<le> \<lfloor>local_time clock loc / 60\<rfloor>" "\<lfloor>local_time clock loc / 60\<rfloor> < DAY_MINUTES"
    using assms(3,4) by (simp_all add: DAY_MINUTES_def floor_less_iff)
  with assms(1,2) show ?thesis
    by (simp add: till_value period_value within_period_iff DAY_MINUTES_def Let_def)
qed

lemma walker_times_mean_witness:
  "check_walker_value_type (\<lambda>_. 3600) ''22:30-06:15'' None = Inr True \<and> check_walker_value_type (\<lambda>_. 3600) ''06:15'' None = Inr True"
proof -
  have s: "show_clock 1350 = ''22:30''" "show_clock 375 = ''06:15''" by code_simp+
  show ?thesis using walker_times_mean [of 1350 375 "\<lambda>_. 3600" None, unfolded s] by (simp add: local_time_def)
qed

text \<open>Whether a value is well formed does not depend on the time.\<close>

lemma check_walker_value_type_total:
  assumes "check_walker_value_type clock v loc = Inr b"
  shows "\<exists>b'. check_walker_value_type clock' v loc' = Inr b'"
proof (cases "match_walker_value v")
  case (Some k)
  then show ?thesis using assms
    by (cases k) (auto simp: check_walker_value_type_def check_time_till_end_def check_time_period_def Let_def res_bind_Inr split: list.splits)
qed (auto simp: check_walker_value_type_def)

section \<open>The area that is found\<close>

lemma set_value_fields [simp]:
  "routemanagers (set_devicesetting_value_of n s mm) = routemanagers mm"
  "map_option walker_areas (map_of (devicemappings (set_devicesetting_value_of n s mm)) d) = map_option walker_areas (map_of (devicemappings mm) d)"
  by (auto simp: set_devicesetting_value_of_def dict_simps split: option.split)

lemma fold_set_value [simp]: "routemanagers (fold (set_devicesetting_value_of n) ss mm) = routemanagers mm"
  by (induction ss arbitrary: mm) simp_all

lemma set_value_same: "map_of (devicemappings mm) n = Some e \<Longrightarrow>
    map_of (devicemappings (set_devicesetting_value_of n s mm)) n = Some (set_devicesetting s e)"
  by (simp add: set_devicesetting_value_of_def dict_simps)

lemma fold_set_value_same: "map_of (devicemappings mm) n = Some e \<Longrightarrow>
    map_of (devicemappings (fold (set_devicesetting_value_of n) ss mm)) n = Some (fold set_devicesetting ss e)"
  by (induction ss arbitrary: mm e) (simp_all add: set_value_same)

lemma reset_settings_rm [simp]: "routemanagers (reset_settings origin mm) = routemanagers mm"
  unfolding reset_settings_def by (rule fold_set_value)

lemma pre_check_cong: "routemanagers mm' = routemanagers mm \<Longrightarrow> pre_check env origin mm' wa = pre_check env origin mm wa"
  by (simp add: pre_check_def area_middle_of_fence_def amount_of_registered_workers_def amount_of_coords_scannable_def
      worker_rounds_run_through_def routemanager_present_def routemanager_get_registered_workers_def fetch_routemanager_def
      routemanager_get_amount_of_coords_scannable_def routemanager_get_rounds_def ask_routemanager_def)

text \<open>A worker that is registered already does not stand in its own way.\<close>

lemma keys_put: "fetch_routemanager rid mm = Some rm \<Longrightarrow> fst ` set (routemanagers (put_routemanager rid rm' mm)) = fst ` set (routemanagers mm)"
  by (auto simp: put_routemanager_def dict_simps fetch_routemanager_def insert_absorb dest: map_of_SomeD intro: rev_image_eqI)

lemma pre_check_registered: "pre_check env origin (snd (register_worker_to_routemanager rid origin mm)) wa = pre_check env origin mm wa"
proof (cases "fetch_routemanager rid mm")
  case None
  then show ?thesis by (simp add: register_worker_to_routemanager_def on_routemanager_def)
next
  case (Some rm)
  define rm' where "rm' = snd (register_worker origin rm)"
  have mm': "snd (register_worker_to_routemanager rid origin mm) = put_routemanager rid rm' mm"
    using Some by (simp add: register_worker_to_routemanager_def on_routemanager_def rm'_def case_prod_beta)
  have f: "fetch_routemanager a (put_routemanager rid rm' mm) = (if a = rid then Some rm' else fetch_routemanager a mm)" for a
    by (simp add: fetch_routemanager_def put_routemanager_def dict_simps)
  have same: "workers_registered rm' - {origin} = workers_registered rm - {origin}" "roundcount rm' = roundcount rm"
    "get_amount_of_coords_scannable e rm' = get_amount_of_coords_scannable e rm" for e
    by (auto simp: rm'_def register_worker_def get_amount_of_coords_scannable_def get_coords_fresh_def split: rm_kind.split)
  show ?thesis unfolding mm' pre_check_def
    using Some keys_put [OF Some, of rm'] same
    by (simp add: area_middle_of_fence_def amount_of_registered_workers_def amount_of_coords_scannable_def f
        worker_rounds_run_through_def routemanager_present_def routemanager_get_registered_workers_def
        routemanager_get_amount_of_coords_scannable_def routemanager_get_rounds_def ask_routemanager_def)
qed

definition loop_result_ok ::
    "(nat \<Rightarrow> walker_env) \<Rightarrow> string \<Rightarrow> mapping_manager \<Rightarrow> walkerarea option list \<Rightarrow> nat set \<Rightarrow> nat set \<Rightarrow> (walkerarea \<times> nat) option result \<Rightarrow> bool" where
  "loop_result_ok envs origin mm areas ks tried r =
     (case r of
        Inl e \<Rightarrow> True
      | Inr None \<Rightarrow> \<forall>i \<in> tried. \<exists>k \<in> ks. \<exists>wa. areas ! i = Some wa \<and> pre_check (envs k) origin mm wa = Inr False
      | Inr (Some (wa, i)) \<Rightarrow> i < length areas \<and> areas ! i = Some wa \<and> (\<exists>k \<in> ks. pre_check (envs k) origin mm wa = Inr True))"

lemma loop_result_mono:
  "loop_result_ok envs origin mm areas ks tried r \<Longrightarrow> ks \<subseteq> ks' \<Longrightarrow> tried' \<subseteq> tried \<Longrightarrow> loop_result_ok envs origin mm areas ks' tried' r"
  unfolding loop_result_ok_def by (cases r) (fastforce split: option.splits)+

lemma loop_result_cong:
  "routemanagers mm' = routemanagers mm \<Longrightarrow> loop_result_ok envs origin mm' areas ks tried r = loop_result_ok envs origin mm areas ks tried r"
  using pre_check_cong [of mm' mm] by (simp add: loop_result_ok_def split: sum.split option.split)

lemma walker_loop_ok:
  "idx < length areas \<Longrightarrow> walker_loop envs origin areas k le idx mm = (r, mm') \<Longrightarrow>
     routemanagers mm' = routemanagers mm \<and>
     loop_result_ok envs origin mm areas {k..<k + (if le then 0 else length areas) + (length areas - idx)}
       (if le then {idx..<length areas} else {0..<length areas}) r"
proof (induction envs origin areas k le idx mm arbitrary: r mm' rule: walker_loop.induct)
  case (1 envs origin areas k le idx mm)
  note step = "1.prems"(2) [unfolded walker_loop.simps [of envs origin areas k le idx mm]]
  show ?case
  proof (cases "areas ! idx")
    case None
    then show ?thesis using step "1.prems"(1) by (auto simp: loop_result_ok_def)
  next
    case (Some wa)
    show ?thesis
    proof (cases "pre_check (envs k) origin mm wa")
      case (Inl e)
      then show ?thesis using step "1.prems"(1) Some by (auto simp: loop_result_ok_def)
    next
      case (Inr ok)
      consider "ok" | "\<not> ok" "le" "idx \<ge> length areas - 1" | "\<not> ok" "\<not> le" "idx \<ge> length areas - 1" | "\<not> ok" "\<not> idx \<ge> length areas - 1"
        by blast
      then show ?thesis
      proof cases
        case 1
        then show ?thesis using step "1.prems"(1) Some Inr by (auto simp: loop_result_ok_def intro!: bexI [of _ k])
      next
        case 2
        then have "{idx..<length areas} = {idx}" using "1.prems"(1) by auto
        then show ?thesis using step "1.prems"(1) Some Inr 2 by (auto simp: loop_result_ok_def)
      next
        case 3
        have rec: "walker_loop envs origin areas (Suc k) True 0 (reset_settings origin mm) = (r, mm')"
          using step "1.prems"(1) Some Inr 3 by simp
        have "\<not> length areas \<le> idx" "0 < length areas" using "1.prems"(1) by auto
        from "1.IH"(1) [OF this(1) Some Inr 3(1,3,2) this(2) rec] show ?thesis
          using 3 "1.prems"(1) by (auto simp: loop_result_cong [of "reset_settings origin mm" mm] elim!: loop_result_mono)
      next
        case 4
        let ?mm1 = "set_devicesetting_value_of origin (WalkerAreaIndex (int (Suc idx))) mm"
        have rec: "walker_loop envs origin areas (Suc k) le (Suc idx) ?mm1 = (r, mm')"
          using step "1.prems"(1) Some Inr 4 by simp
        have idx: "\<not> length areas \<le> idx" "Suc idx < length areas" using "1.prems"(1) 4(2) by auto
        have same: "routemanagers ?mm1 = routemanagers mm" by simp
        from "1.IH"(2) [OF idx(1) Some Inr 4 idx(2) rec, unfolded loop_result_cong [OF same] same]
        have IH: "routemanagers mm' = routemanagers mm" and
          ok: "loop_result_ok envs origin mm areas {Suc k..<Suc k + (if le then 0 else length areas) + (length areas - Suc idx)}
            (if le then {Suc idx..<length areas} else {0..<length areas}) r"
          by blast+
        have sub: "{Suc k..<Suc k + (if le then 0 else length areas) + (length areas - Suc idx)} \<subseteq>
            {k..<k + (if le then 0 else length areas) + (length areas - idx)}" using idx(2) by auto
        have here: "k \<in> {k..<k + (if le then 0 else length areas) + (length areas - idx)}" using idx(2) by auto
        have ivl: "{idx..<length areas} = insert idx {Suc idx..<length areas}" using "1.prems"(1) by auto
        have no: "pre_check (envs k) origin mm wa = Inr False" using Inr 4(1) by simp
        have "loop_result_ok envs origin mm areas {k..<k + (if le then 0 else length areas) + (length areas - idx)}
            (if le then {Suc idx..<length areas} else {0..<length areas}) r"
          by (rule loop_result_mono [OF ok sub order_refl])
        then show ?thesis using IH ivl here Some no
          by (cases le) (auto simp: loop_result_ok_def split: sum.splits option.splits)
      qed
    qed
  qed
qed

definition start_index :: "device_mapping \<Rightarrow> nat" where
  "start_index e = (if walker_area_index e > 0 \<and> \<not> finished e then nat (walker_area_index e - 1) else nat (walker_area_index e))"

definition to_configuration :: "nat \<Rightarrow> walkerarea \<times> nat \<Rightarrow> walker_configuration" where
  "to_configuration n_areas = (\<lambda>(wa, i). \<lparr>cfg_settings = wa, cfg_index = i, cfg_area_id = wa_area_id wa, cfg_total = n_areas\<rparr>)"

lemma get_walker_settings_loop:
  assumes e: "get_devicemappings_of origin mm = Some e" and "walker_areas e \<noteq> []"
  shows "\<exists>mm2. routemanagers mm2 = routemanagers mm \<and> get_walker_settings envs origin mm =
    (if length (walker_areas e) \<le> start_index e then (Inr None, mm2)
     else (case walker_loop envs origin (walker_areas e) 0 False (start_index e) mm2 of
         (Inl err, mm3) \<Rightarrow> (Inl err, mm3)
       | (Inr None, mm3) \<Rightarrow> (Inr None, mm3)
       | (Inr (Some x), mm3) \<Rightarrow> (Inr (Some (to_configuration (length (walker_areas e)) x)), mm3)))"
proof -
  define mm1 where "mm1 = (if walker_area_index e < 0 then initialize_devicesettings origin mm else mm)"
  define e1 where "e1 = (if walker_area_index e < 0
      then fold set_devicesetting [WalkerAreaIndex 0, Finished False, LastLocationTime None, LastCleanupTime None, JobActive False] e else e)"
  have e1: "get_devicemappings_of origin mm1 = Some e1"
    using e fold_set_value_same [of mm origin e] by (simp add: mm1_def e1_def initialize_devicesettings_def get_devicemappings_of_def del: fold.simps)
  define mm2 where "mm2 = update_walker_index origin e1 mm1"
  have rm: "routemanagers mm2 = routemanagers mm"
    by (simp add: mm2_def mm1_def update_walker_index_def initialize_devicesettings_def)
  have i1: "walker_area_index e1 = (if walker_area_index e < 0 then 0 else walker_area_index e)"
    "0 < walker_area_index e \<Longrightarrow> finished e1 = finished e" by (simp_all add: e1_def)
  obtain e2 where e2: "get_devicemappings_of origin mm2 = Some e2" "nat (walker_area_index e2) = start_index e"
  proof (cases "walker_area_index e1 > 0 \<and> \<not> finished e1")
    case True
    then have "get_devicemappings_of origin mm2 = Some (set_devicesetting (WalkerAreaIndex (walker_area_index e1 - 1)) e1)"
      using e1 by (simp add: mm2_def update_walker_index_def get_devicemappings_of_def set_value_same)
    then show ?thesis using True i1 by (intro that) (auto simp: start_index_def split: if_splits)
  next
    case False
    then have "get_devicemappings_of origin mm2 = Some e1"
      using e1 by (auto simp: mm2_def update_walker_index_def)
    then show ?thesis using False i1 by (intro that) (auto simp: start_index_def split: if_splits)
  qed
  show ?thesis
    by (rule exI [of _ mm2]) (use e assms(2) e1 e2 rm in \<open>auto simp: get_walker_settings_def Let_def to_configuration_def
        mm1_def [symmetric] mm2_def [symmetric] split: sum.split option.split prod.split\<close>)
qed

lemma int_le_of_le_nat: "0 < n \<Longrightarrow> n \<le> nat x \<Longrightarrow> int n \<le> x"
  by (cases "0 \<le> x") auto

lemma walker_search:
  assumes "get_devicemappings_of origin mm = Some e" and "get_walker_settings envs origin mm = (Inr r, mm')"
  shows "routemanagers mm' = routemanagers mm \<and> (case r of
      Some cfg \<Rightarrow> cfg_index cfg < length (walker_areas e) \<and> walker_areas e ! cfg_index cfg = Some (cfg_settings cfg) \<and>
        cfg_area_id cfg = wa_area_id (cfg_settings cfg) \<and> cfg_total cfg = length (walker_areas e) \<and>
        (\<exists>k < 2 * length (walker_areas e). pre_check (envs k) origin mm (cfg_settings cfg) = Inr True)
    | None \<Rightarrow> walker_areas e = [] \<or> int (length (walker_areas e)) \<le> walker_area_index e \<or>
        (\<forall>i < length (walker_areas e). \<exists>k < 2 * length (walker_areas e). \<exists>wa.
           walker_areas e ! i = Some wa \<and> pre_check (envs k) origin mm wa = Inr False))"
proof (cases "walker_areas e = []")
  case True
  then show ?thesis using assms by (auto simp: get_walker_settings_def)
next
  case False
  let ?n = "length (walker_areas e)"
  from get_walker_settings_loop [OF assms(1) False, of envs] obtain mm2 where mm2: "routemanagers mm2 = routemanagers mm"
    and eq: "get_walker_settings envs origin mm = (if ?n \<le> start_index e then (Inr None, mm2)
     else (case walker_loop envs origin (walker_areas e) 0 False (start_index e) mm2 of
         (Inl err, mm3) \<Rightarrow> (Inl err, mm3)
       | (Inr None, mm3) \<Rightarrow> (Inr None, mm3)
       | (Inr (Some x), mm3) \<Rightarrow> (Inr (Some (to_configuration ?n x)), mm3)))"
    by blast
  show ?thesis
  proof (cases "?n \<le> start_index e")
    case True
    then have "int ?n \<le> walker_area_index e" using False int_le_of_le_nat [of ?n "walker_area_index e"] int_le_of_le_nat [of ?n "walker_area_index e - 1"]
      by (auto simp: start_index_def split: if_splits)
    then show ?thesis using eq True assms(2) mm2 by simp
  next
    case in_range: False
    obtain lr mm3 where loop: "walker_loop envs origin (walker_areas e) 0 False (start_index e) mm2 = (lr, mm3)" by fastforce
    have "loop_result_ok envs origin mm (walker_areas e) {0..<2 * ?n} {0..<?n} lr"
      using walker_loop_ok [OF _ loop] in_range loop_result_cong [OF mm2]
      by (auto elim!: loop_result_mono)
    moreover have "routemanagers mm3 = routemanagers mm" using walker_loop_ok [OF _ loop] in_range mm2 by simp
    ultimately show ?thesis using eq in_range loop assms(2)
      by (auto simp: loop_result_ok_def to_configuration_def Bex_def split: sum.splits option.splits)
  qed
qed

text \<open>
  C21. The search for an area always ends, after at most two rounds through the walker. The area it ends with is one of the walker, at the
  index that is remembered, and has passed the pre-check; without one, either the walker is empty or its index
  out of range, or every area of the walker has failed its pre-check.
\<close>

theorem walker_finds_area:
  assumes "get_devicemappings_of origin mm = Some e" and "get_walker_settings envs origin mm = (Inr r, mm')"
  shows "case r of
      Some cfg \<Rightarrow> cfg_index cfg < length (walker_areas e) \<and> walker_areas e ! cfg_index cfg = Some (cfg_settings cfg) \<and>
        cfg_area_id cfg = wa_area_id (cfg_settings cfg) \<and> cfg_total cfg = length (walker_areas e) \<and>
        (\<exists>k < 2 * length (walker_areas e). pre_check (envs k) origin mm (cfg_settings cfg) = Inr True)
    | None \<Rightarrow> walker_areas e = [] \<or> int (length (walker_areas e)) \<le> walker_area_index e \<or>
        (\<forall>i < length (walker_areas e). \<exists>k < 2 * length (walker_areas e). \<exists>wa.
           walker_areas e ! i = Some wa \<and> pre_check (envs k) origin mm wa = Inr False)"
  using walker_search [OF assms] by blast

lemma walker_first_try:
  assumes "get_devicemappings_of origin mm = Some e" "start_index e < length (walker_areas e)"
    and "walker_areas e ! start_index e = Some wa" "pre_check (envs 0) origin mm wa = Inr True"
  shows "fst (get_walker_settings envs origin mm) = Inr (Some (to_configuration (length (walker_areas e)) (wa, start_index e)))"
proof -
  have "walker_areas e \<noteq> []" using assms(2) by auto
  from get_walker_settings_loop [OF assms(1) this, of envs] obtain mm2 where mm2: "routemanagers mm2 = routemanagers mm"
    and eq: "get_walker_settings envs origin mm = (if length (walker_areas e) \<le> start_index e then (Inr None, mm2)
     else (case walker_loop envs origin (walker_areas e) 0 False (start_index e) mm2 of
         (Inl err, mm3) \<Rightarrow> (Inl err, mm3)
       | (Inr None, mm3) \<Rightarrow> (Inr None, mm3)
       | (Inr (Some x), mm3) \<Rightarrow> (Inr (Some (to_configuration (length (walker_areas e)) x)), mm3)))"
    by blast
  have "walker_loop envs origin (walker_areas e) 0 False (start_index e) mm2 = (Inr (Some (wa, start_index e)), mm2)"
    using assms(2-4) pre_check_cong [OF mm2] by (subst walker_loop.simps) simp
  with eq assms(2) show ?thesis by simp
qed

lemma update_settings_rm [simp]: "routemanagers (update_settings_of_origin origin cfg mm) = routemanagers mm"
  by (simp add: update_settings_of_origin_def Let_def del: fold.simps split: option.split)

lemma update_settings_entry:
  assumes "get_devicemappings_of origin mm = Some e"
  shows "\<exists>e'. get_devicemappings_of origin (update_settings_of_origin origin cfg mm) = Some e' \<and> walker_areas e' = walker_areas e \<and>
    walker_area_index e' = (if cfg_index cfg \<ge> cfg_total cfg - 1 then 0 else int (cfg_index cfg) + 1) \<and> \<not> finished e'"
proof -
  let ?ss = "[WalkerAreaIndex (int (cfg_index cfg) + 1), Finished False]"
  define e1 where "e1 = fold set_devicesetting ?ss e"
  have e1: "map_of (devicemappings (fold (set_devicesetting_value_of origin) ?ss mm)) origin = Some e1"
    unfolding e1_def by (rule fold_set_value_same) (use assms in \<open>simp add: get_devicemappings_of_def\<close>)
  show ?thesis
    using e1 by (simp add: update_settings_of_origin_def Let_def get_devicemappings_of_def set_value_same del: fold.simps)
      (simp add: e1_def)
qed

text \<open>
  What a device does when it comes back: after the area at index \<open>i\<close> was given to it, it starts with the same area when it was
  interrupted and with the next one when it has finished, if the area may be used, its own registration
  notwithstanding; but after the last area it starts with the first one, even when it was interrupted.
\<close>

theorem walker_progress:
  fixes fin :: bool
  assumes "prep_settings envs origin mm = (Inr (Some cfg), mm1)" "get_devicemappings_of origin mm1 = Some e"
    and "cfg_index cfg < cfg_total cfg" "cfg_total cfg = length (walker_areas e)"
    and "j = (if cfg_index cfg + 1 = cfg_total cfg then 0 else if fin then cfg_index cfg + 1 else cfg_index cfg)"
    and "walker_areas e ! j = Some wa" "pre_check (envs' 0) origin (snd (get_walker_settings envs origin mm)) wa = Inr True"
  shows "fst (get_walker_settings envs' origin (set_devicesetting_value_of origin (Finished fin) (update_settings_of_origin origin cfg mm1))) =
    Inr (Some \<lparr>cfg_settings = wa, cfg_index = j, cfg_area_id = wa_area_id wa, cfg_total = cfg_total cfg\<rparr>)"
proof -
  let ?mm2 = "update_settings_of_origin origin cfg mm1" and ?mm0 = "snd (get_walker_settings envs origin mm)"
  have mm1: "mm1 = snd (register_worker_to_routemanager (cfg_area_id cfg) origin ?mm0)"
    using assms(1) by (auto simp: prep_settings_def split: prod.splits sum.splits option.splits if_splits)
  have pre: "pre_check (envs' 0) origin (set_devicesetting_value_of origin (Finished fin) ?mm2) wa = Inr True"
    using assms(7) pre_check_registered [of "envs' 0" origin "cfg_area_id cfg" ?mm0 wa]
    by (simp add: mm1 pre_check_cong [of "set_devicesetting_value_of origin (Finished fin) ?mm2" mm1, unfolded mm1])
  obtain e2 where e2: "get_devicemappings_of origin ?mm2 = Some e2" "walker_areas e2 = walker_areas e"
    "walker_area_index e2 = (if cfg_index cfg \<ge> cfg_total cfg - 1 then 0 else int (cfg_index cfg) + 1)"
    using update_settings_entry [OF assms(2), of cfg] by blast
  let ?e3 = "set_devicesetting (Finished fin) e2"
  have e3: "get_devicemappings_of origin (set_devicesetting_value_of origin (Finished fin) ?mm2) = Some ?e3"
    using e2(1) by (simp add: get_devicemappings_of_def set_value_same)
  have j: "start_index ?e3 = j" "j < length (walker_areas ?e3)" using e2(2,3) assms(3-5) by (auto simp: start_index_def)
  have "walker_areas ?e3 ! j = Some wa" using assms(6) e2(2) by simp
  then have "fst (get_walker_settings envs' origin (set_devicesetting_value_of origin (Finished fin) ?mm2)) =
      Inr (Some (to_configuration (length (walker_areas ?e3)) (wa, start_index ?e3)))"
    using j pre by (intro walker_first_try [OF e3]) simp_all
  with j assms(4) e2(2) show ?thesis by (simp add: to_configuration_def)
qed

section \<open>The theorems on concrete inputs\<close>

definition coords_area :: "string option \<Rightarrow> walkerarea" where
  "coords_area v = \<lparr>wa_area_id = 1, wa_name = ''all day'', wa_algo_type = ''coords'', wa_algo_value = v, wa_max_walkers = Some 1, wa_eventid = None\<rparr>"

definition walker_rm_env :: rm_env where
  "walker_rm_env = \<lparr>now = 0, stops_without_quests = [], stops_all = [], gyms = [], spawns_known = [Loc 1 1], spawns_unknown = [],
     middle_of_fence = Loc 1 1, generated = (\<lambda>_. []), calculated = (\<lambda>_ _ ls. Inr ls), calc_ends = True, wait_times = [],
     unvisited_stops = (\<lambda>_ _. None)\<rparr>"

text \<open>One o'clock at night, everywhere.\<close>

definition night_env :: walker_env where
  "night_env = \<lparr>we_event = 1, we_clock = (\<lambda>_. 3600), we_middle = (\<lambda>_. None), we_rm = (\<lambda>_. walker_rm_env)\<rparr>"

definition walker_mm :: mapping_manager where
  "walker_mm = snd (mm_full_update (demo_rows\<lparr>walker_to_areas := [(1, [1, 2, 3])],
     walkerarea_rows := [(1, coords_area (Some ''12:00-13:00'')), (2, coords_area None), (3, coords_area (Some ''5:00''))]\<rparr>) empty_mapping_manager)"

lemma walker_prep: "fst (prep_settings (\<lambda>_. night_env) ''atv'' walker_mm) =
    Inr (Some \<lparr>cfg_settings = coords_area None, cfg_index = 1, cfg_area_id = 1, cfg_total = 3\<rparr>)"
  by code_simp

lemma walker_found: "fst (get_walker_settings (\<lambda>_. night_env) ''atv'' walker_mm) =
    Inr (Some \<lparr>cfg_settings = coords_area None, cfg_index = 1, cfg_area_id = 1, cfg_total = 3\<rparr>)"
  by code_simp

lemma walker_mm_areas: "map_option walker_areas (get_devicemappings_of ''atv'' walker_mm) =
    Some [Some (coords_area (Some ''12:00-13:00'')), Some (coords_area None), Some (coords_area (Some ''5:00''))]"
  by code_simp

lemma walker_finds_area_witness:
  "\<exists>k < 6 :: nat. pre_check night_env ''atv'' walker_mm (coords_area None) = Inr True"
proof -
  obtain e where e: "get_devicemappings_of ''atv'' walker_mm = Some e" "length (walker_areas e) = 3"
    using walker_mm_areas by (auto simp: map_option_eq_Some)
  have "get_walker_settings (\<lambda>_. night_env) ''atv'' walker_mm =
      (Inr (Some \<lparr>cfg_settings = coords_area None, cfg_index = 1, cfg_area_id = 1, cfg_total = 3\<rparr>),
       snd (get_walker_settings (\<lambda>_. night_env) ''atv'' walker_mm))"
    using walker_found by (simp add: prod_eq_iff)
  from walker_finds_area [OF e(1) this] e(2) show ?thesis by auto
qed

lemma walker_progress_witness:
  "\<exists>mm2. fst (get_walker_settings (\<lambda>_. night_env) ''atv'' (set_devicesetting_value_of ''atv'' (Finished True) mm2)) =
    Inr (Some \<lparr>cfg_settings = coords_area (Some ''5:00''), cfg_index = 2, cfg_area_id = 1, cfg_total = 3\<rparr>)"
proof -
  let ?cfg = "\<lparr>cfg_settings = coords_area None, cfg_index = 1, cfg_area_id = 1, cfg_total = 3\<rparr>"
  let ?p = "prep_settings (\<lambda>_. night_env) ''atv'' walker_mm"
  have p: "?p = (Inr (Some ?cfg), snd ?p)" using walker_prep by (simp add: prod_eq_iff)
  have areas: "map_option walker_areas (get_devicemappings_of ''atv'' (snd ?p)) =
      Some [Some (coords_area (Some ''12:00-13:00'')), Some (coords_area None), Some (coords_area (Some ''5:00''))]" by code_simp
  then obtain e where e: "get_devicemappings_of ''atv'' (snd ?p) = Some e"
    "walker_areas e = [Some (coords_area (Some ''12:00-13:00'')), Some (coords_area None), Some (coords_area (Some ''5:00''))]"
    by (auto simp: map_option_eq_Some)
  have pre: "pre_check night_env ''atv'' (snd (get_walker_settings (\<lambda>_. night_env) ''atv'' walker_mm)) (coords_area (Some ''5:00'')) = Inr True"
    by code_simp
  define mm1 where "mm1 = snd ?p"
  have "fst (get_walker_settings (\<lambda>_. night_env) ''atv''
      (set_devicesetting_value_of ''atv'' (Finished True) (update_settings_of_origin ''atv'' ?cfg mm1))) =
    Inr (Some \<lparr>cfg_settings = coords_area (Some ''5:00''), cfg_index = 2, cfg_area_id = wa_area_id (coords_area (Some ''5:00'')),
      cfg_total = cfg_total ?cfg\<rparr>)"
    by (rule walker_progress [OF p [folded mm1_def] e(1) [folded mm1_def] _ _ _ _ pre]) (simp_all add: e(2))
  moreover have "wa_area_id (coords_area (Some ''5:00'')) = 1" by (simp add: coords_area_def)
  ultimately show ?thesis by (intro exI [of _ "update_settings_of_origin ''atv'' ?cfg mm1"]) simp
qed

end
