(* ===== verification/Worker.thy ===== *)
theory Worker
  imports Walker
begin

text \<open>
  The worker of a device (\<open>mapadroid/worker/Worker.py\<close>) with the parts of its strategy that are the same for every mode
  (\<open>AbstractWorkerStrategy\<close>): the check of the walker, the scan loop and the change of the strategy, over the mapping
  manager of \<open>Mappings\<close>. What happens on the device in an iteration (whether the game could be started, when
  the device arrived) is part of the environment; so is the time it spends asleep.
\<close>

datatype task = Running | CancelRequested | Done

record worker =
  wk_origin :: string
  wk_device_id :: int
  wk_strategy :: worker_strategy
  workerstart :: "int option"
  stop_worker_event :: bool
  worker_task :: "task option"
  current_location :: "location option"
  wk_last_location :: "location option"
  location_count :: int
  current_sleep_duration :: int

text \<open>
  \<open>wenv_search\<close> are the environments of a search for an area; the first one is also what the checks of
  the worker see. \<open>wenv_idle\<close> is what an idle worker sees every second: whether it is stopped, and the clock.
\<close>

record worker_env =
  wenv_search :: "nat \<Rightarrow> walker_env"
  wenv_now :: real
  wenv_configmode :: bool
  wenv_idle :: "(bool \<times> clock) list"
  wenv_healthy :: bool
  wenv_arrived :: "real option"

definition wenv_rm :: "worker_env \<Rightarrow> int \<Rightarrow> rm_env" where "wenv_rm env = we_rm (wenv_search env 0)"

section \<open>Tasks\<close>

definition start_worker :: "worker \<Rightarrow> worker" where
  "start_worker w =
     (let w1 = (if worker_task w = Some Done then w\<lparr>worker_task := None\<rparr> else w)
      in if worker_task w1 \<noteq> None then w1 else w1\<lparr>worker_task := Some Running\<rparr>)"

definition stop_worker :: "worker \<Rightarrow> worker" where
  "stop_worker w =
     (if stop_worker_event w then w
      else w\<lparr>stop_worker_event := True, 
        worker_task := map_option (\<lambda>t. if t = Running then CancelRequested else t) (worker_task w)\<rparr>)"

definition set_geofix_sleeptime :: "int \<Rightarrow> worker \<Rightarrow> worker" where
  "set_geofix_sleeptime sleeptime w = w\<lparr>current_sleep_duration := sleeptime\<rparr>"

section \<open>Changing the strategy\<close>

definition cleanup_current :: "worker_env \<Rightarrow> worker \<Rightarrow> mapping_manager \<Rightarrow> mapping_manager" where
  "cleanup_current env w mm =
     (let rid = strategy_area (wk_strategy w) in snd (unregister_worker_from_routemanager (wenv_rm env rid) rid (wk_origin w) mm))"

definition paused_or_config :: "worker_env \<Rightarrow> worker \<Rightarrow> mapping_manager \<Rightarrow> bool" where
  "paused_or_config env w mm = (\<not> is_device_active (wk_device_id w) mm \<or> wenv_configmode env)"

definition get_current_strategy_to_use :: "worker_env \<Rightarrow> bool \<Rightarrow> worker \<Rightarrow> mapping_manager \<Rightarrow> worker_strategy result \<times> mapping_manager" where
  "get_current_strategy_to_use env set_finished w mm =
     (let mm1 = (if set_finished then cleanup_current env w (set_devicesetting_value_of (wk_origin w) (Finished True) mm) else mm)
      in get_strategy_using_settings (wenv_search env) (wk_origin w) (paused_or_config env w mm1) mm1)"

definition update_strategy :: "worker_env \<Rightarrow> worker \<Rightarrow> mapping_manager \<Rightarrow> worker result \<times> mapping_manager" where
  "update_strategy env w mm =
     (if paused_or_config env w mm then (Inr w, mm)
      else (case get_current_strategy_to_use env True w mm of
          (Inl e, mm1) \<Rightarrow> (Inl e, mm1)
        | (Inr s, mm1) \<Rightarrow> (Inr (w\<lparr>wk_strategy := s\<rparr>), mm1)))"

section \<open>The checks of the walker\<close>

definition check_max_walkers_reached :: "worker \<Rightarrow> mapping_manager \<Rightarrow> bool" where
  "check_max_walkers_reached w mm =
     (case strategy_walker (wk_strategy w) of
        None \<Rightarrow> True
      | Some wa \<Rightarrow>
          \<not> (truthy_int (wa_max_walkers wa) \<and>
             int (card (routemanager_get_registered_workers (strategy_area (wk_strategy w)) mm)) > the (wa_max_walkers wa)))"

definition area_middle_of_current_fence :: "worker_env \<Rightarrow> worker \<Rightarrow> mapping_manager \<Rightarrow> location option" where
  "area_middle_of_current_fence env w mm = area_middle_of_fence (wenv_search env 0) (strategy_area (wk_strategy w)) mm"

text \<open>Sleeping until the value does not hold any more: \<open>None\<close> is still asleep.\<close>

fun idle_loop :: "string \<Rightarrow> location option \<Rightarrow> (bool \<times> clock) list \<Rightarrow> bool option result" where
  "idle_loop v loc [] = Inr None"
| "idle_loop v loc ((stopped, clock) # rest) =
     (if stopped then Inr (Some False)
      else res_bind (check_walker_value_type clock v loc) (\<lambda>b. if b then idle_loop v loc rest else Inr (Some False)))"

definition decided :: "bool result \<Rightarrow> bool option result" where
  "decided r = res_bind r (\<lambda>b. Inr (Some b))"

definition check_countdown :: "real \<Rightarrow> worker \<Rightarrow> string option \<Rightarrow> bool result" where
  "check_countdown tm w v =
     (case v of
        None \<Rightarrow> Inr False
      | Some c \<Rightarrow> if c = [] then Inr False
          else (case workerstart w of
              None \<Rightarrow> Inr False
            | Some start \<Rightarrow> res_bind (parse_int c) (\<lambda>n. Inr (\<not> \<lfloor>tm\<rfloor> \<ge> start + n))))"

definition check_rounds :: "int \<Rightarrow> mapping_manager \<Rightarrow> string option \<Rightarrow> bool result" where
  "check_rounds rid mm v =
     (case v of
        None \<Rightarrow> Inl TypeError
      | Some s \<Rightarrow> if s = [] then Inr False
          else (case routemanager_get_rounds rid mm of
              None \<Rightarrow> Inr True
            | Some processed \<Rightarrow> res_bind (parse_int s) (\<lambda>n. Inr (\<not> py_int processed \<ge> n))))"

definition check_walker_mode :: "worker_env \<Rightarrow> worker \<Rightarrow> mapping_manager \<Rightarrow> walkerarea \<Rightarrow> bool option result" where
  "check_walker_mode env w mm wa =
     (let v = wa_algo_value wa; loc = area_middle_of_current_fence env w mm; clock = we_clock (wenv_search env 0)
      in if wa_algo_type wa = ''countdown'' then decided (check_countdown (wenv_now env) w v)
         else if wa_algo_type wa = ''timer'' then
           (case v of
              Some s \<Rightarrow> if s = [] \<or> CHR '':'' \<notin> set s then Inr (Some False) else decided (check_walker_value_type clock s loc)
            | None \<Rightarrow> Inr (Some False))
         else if wa_algo_type wa = ''round'' then decided (check_rounds (strategy_area (wk_strategy w)) mm v)
         else if wa_algo_type wa = ''period'' then
           (case v of
              None \<Rightarrow> Inl TypeError
            | Some s \<Rightarrow> if s = [] then Inr (Some False) else decided (check_walker_value_type clock s loc))
         else if wa_algo_type wa = ''coords'' then
           (case v of
              Some s \<Rightarrow> if s \<noteq> [] then decided (check_walker_value_type clock s loc) else Inr (Some True)
            | None \<Rightarrow> Inr (Some True))
         else if wa_algo_type wa = ''idle'' then
           (case v of
              None \<Rightarrow> Inl TypeError
            | Some s \<Rightarrow> if s = [] then Inr (Some False)
                else res_bind (check_walker_value_type clock s loc) (\<lambda>_. idle_loop s loc (wenv_idle env)))
         else Inr (Some False))"

definition check_walker :: "worker_env \<Rightarrow> worker \<Rightarrow> mapping_manager \<Rightarrow> bool option result \<times> mapping_manager" where
  "check_walker env w mm =
     (case strategy_walker (wk_strategy w) of
        None \<Rightarrow>
          (case get_current_strategy_to_use env False w mm of
             (Inl e, mm1) \<Rightarrow> (Inl e, mm1)
           | (Inr s, mm1) \<Rightarrow> (Inr (Some False), mm1))
      | Some wa \<Rightarrow>
          if wa_eventid wa \<noteq> None \<and> wa_eventid wa \<noteq> Some (we_event (wenv_search env 0)) then (Inr (Some False), mm)
          else (check_walker_mode env w mm wa, mm))"

section \<open>Scanning\<close>

text \<open>
  \<open>_start_of_new_strategy\<close>. The mode that is stored is an enum; it is compared with the values of the enum and
  never equal to them.
\<close>

definition start_of_new_strategy :: "worker_env \<Rightarrow> worker \<Rightarrow> mapping_manager \<Rightarrow> worker \<times> mapping_manager" where
  "start_of_new_strategy env w mm =
     (let last = (case get_devicemappings_of (wk_origin w) mm of None \<Rightarrow> None | Some e \<Rightarrow> last_location e);
          mode = get_devicesetting_value_of_device (wk_origin w) LAST_MODE mm;
          reset = (mode \<in> {VJson (JStr ''raids_mitm''), VJson (JStr ''mon_mitm''), VJson (JStr ''iv_mitm'')})
      in (w\<lparr>workerstart := Some \<lfloor>wenv_now env\<rfloor>, wk_last_location := (if reset then Some (Loc 0 0) else last)\<rparr>,
          set_devicesetting_value_of (wk_origin w) (LastMode (routemanager_get_mode (strategy_area (wk_strategy w)) mm)) mm))"

text \<open>\<open>grab_next_location\<close>: an answer may be awaited or raise.\<close>

definition grab_next_location :: "worker_env \<Rightarrow> worker \<Rightarrow> mapping_manager \<Rightarrow> next_location option \<times> worker \<times> mapping_manager" where
  "grab_next_location env w mm =
     (let w1 = (if current_sleep_duration w > 0 then w\<lparr>current_sleep_duration := 0\<rparr> else w); rid = strategy_area (wk_strategy w);
          (r, mm1) = routemanager_get_next_location (wenv_rm env rid) rid (wk_origin w) mm
      in (r, (case r of
            Some (NextLocation l) \<Rightarrow> w1\<lparr>current_location := Some l\<rparr>
          | Some NoLocation \<Rightarrow> w1\<lparr>current_location := None\<rparr>
          | None \<Rightarrow> w1\<lparr>current_location := None\<rparr>
          | _ \<Rightarrow> w1), mm1))"

definition check_location_is_valid :: "worker \<Rightarrow> mapping_manager \<Rightarrow> bool \<times> mapping_manager" where
  "check_location_is_valid w mm =
     (if current_location w = None then (False, set_devicesetting_value_of (wk_origin w) (Finished True) mm) else (True, mm))"

datatype scan_end =
    TooManyWalkers
  | ScanStopped
  | WalkerSwitch
  | Unhealthy
  | InvalidLocation
  | ScanRaised py_error
  | LocationRaised rm_error
  | Waiting

text \<open>One iteration of the loop: how the scan ends, if it does.\<close>

definition scan_iteration :: "worker_env \<Rightarrow> worker \<Rightarrow> mapping_manager \<Rightarrow> scan_end option \<times> worker \<times> mapping_manager" where
  "scan_iteration env w mm =
     (if stop_worker_event w then (Some ScanStopped, w, mm)
      else (case check_walker env w mm of
          (Inl e, mm1) \<Rightarrow> (Some (ScanRaised e), w, mm1)
        | (Inr None, mm1) \<Rightarrow> (Some Waiting, w, mm1)
        | (Inr (Some ok), mm1) \<Rightarrow>
            if \<not> ok then (Some WalkerSwitch, w, mm1)
            else if \<not> wenv_healthy env then (Some Unhealthy, w, mm1)
            else (case grab_next_location env w mm1 of
                (Some (NextRaised e), w1, mm2) \<Rightarrow> (Some (LocationRaised e), w1, mm2)
              | (Some StillWaiting, w1, mm2) \<Rightarrow> (Some Waiting, w1, mm2)
              | (_, w1, mm2) \<Rightarrow>
                  (let (valid, mm3) = check_location_is_valid w1 mm2
                   in if \<not> valid then (Some InvalidLocation, w1, mm3)
                      else (None, (if wenv_arrived env \<noteq> None then w1\<lparr>location_count := location_count w1 + 1\<rparr> else w1), mm3)))))"

fun scan_loop :: "worker_env list \<Rightarrow> worker \<Rightarrow> mapping_manager \<Rightarrow> scan_end option \<times> worker \<times> mapping_manager" where
  "scan_loop [] w mm = (None, w, mm)"
| "scan_loop (env # envs) w mm =
     (case scan_iteration env w mm of
        (Some r, w1, mm1) \<Rightarrow> (Some r, w1, mm1)
      | (None, w1, mm1) \<Rightarrow> scan_loop envs w1 mm1)"

definition run_scan :: "worker_env \<Rightarrow> worker_env list \<Rightarrow> worker \<Rightarrow> mapping_manager \<Rightarrow> scan_end option \<times> worker \<times> mapping_manager" where
  "run_scan env envs w mm =
     (let (w1, mm1) = start_of_new_strategy env w mm
      in if \<not> check_max_walkers_reached w1 mm1
         then (Some TooManyWalkers, w1, cleanup_current env w1 (set_devicesetting_value_of (wk_origin w1) (Finished True) mm1))
         else scan_loop envs w1 mm1)"

text \<open>
  One turn of \<open>_run\<close>. However the scan ends, the strategy is updated. The cancellation of the worker that arrives
  while the scan is awaited is caught like one of the scan; exceptions that are not caught there end the worker.
\<close>

definition ends_worker :: "scan_end option \<Rightarrow> bool" where
  "ends_worker r = (case r of Some (ScanRaised e) \<Rightarrow> True | Some (LocationRaised (RmFailed e)) \<Rightarrow> True | _ \<Rightarrow> False)"

definition run_turn :: "worker_env \<Rightarrow> worker_env list \<Rightarrow> worker \<Rightarrow> mapping_manager \<Rightarrow> worker \<times> mapping_manager" where
  "run_turn env envs w mm =
     (let (r, w1, mm1) = run_scan env envs w mm;
          w2 = (if worker_task w1 = Some CancelRequested then w1\<lparr>worker_task := Some Running\<rparr> else w1)
      in case update_strategy env w2 mm1 of
           (Inl e, mm2) \<Rightarrow> (w2\<lparr>worker_task := Some Done\<rparr>, mm2)
         | (Inr w3, mm2) \<Rightarrow> (if ends_worker r then w3\<lparr>worker_task := Some Done\<rparr> else w3, mm2))"

section \<open>Properties\<close>

subsection \<open>The limit of an area\<close>

text \<open>
  C22. A device that was given an area stays within the limit of the area: right after the search the worker is registered with the route
  manager of its area and the check of the number of walkers, which would send it away, is passed.
\<close>

theorem assigned_within_limit:
  assumes "get_walker_settings envs origin mm = (Inr (Some cfg), mm1)" "get_devicemappings_of origin mm \<noteq> None"
    and "prep_settings envs origin mm = (Inr (Some cfg), mm2)"
    and "strategy_walker (wk_strategy w) = Some (cfg_settings cfg)" "strategy_area (wk_strategy w) = cfg_area_id cfg"
    and "\<And>m. wa_max_walkers (cfg_settings cfg) = Some m \<Longrightarrow> 0 \<le> m"
  shows "origin \<in> routemanager_get_registered_workers (cfg_area_id cfg) mm2 \<and> check_max_walkers_reached w mm2"
proof -
  let ?rid = "cfg_area_id cfg" and ?wa = "cfg_settings cfg"
  obtain e where "get_devicemappings_of origin mm = Some e" using assms(2) by blast
  from walker_search [OF this assms(1)] obtain k where rid: "?rid = wa_area_id ?wa"
    and pre: "pre_check (envs k) origin mm ?wa = Inr True" and rms: "routemanagers mm1 = routemanagers mm" by auto
  let ?regs = "routemanager_get_registered_workers ?rid mm"
  have le: "truthy_int (wa_max_walkers ?wa) \<Longrightarrow> int (card (?regs - {origin})) < the (wa_max_walkers ?wa)"
    using pre assms(6) rid
    by (auto simp: pre_check_def pre_check_value_def amount_of_registered_workers_def split: option.splits if_splits)
  have "?rid \<in> set (get_all_routemanager_ids mm1)" and mm2: "mm2 = snd (register_worker_to_routemanager ?rid origin mm1)"
    using assms(1,3) by (auto simp: prep_settings_def split: if_splits)
  then obtain rm where rm: "map_of (routemanagers mm) ?rid = Some rm"
    using rms by (auto simp: get_all_routemanager_ids_def map_of_eq_None_iff dest!: weak_map_of_SomeI)
  have regs: "routemanager_get_registered_workers ?rid mm2 = insert origin ?regs"
    using rm rms by (auto simp: mm2 routemanager_get_registered_workers_def register_worker_to_routemanager_def on_routemanager_def
        fetch_routemanager_def put_routemanager_def dict_simps register_worker_def)
  have "card (insert origin ?regs) \<le> Suc (card (?regs - {origin}))"
    by (cases "finite ?regs"; cases "origin \<in> ?regs") (simp_all add: card_insert_if)
  then have "truthy_int (wa_max_walkers ?wa) \<Longrightarrow> int (card (insert origin ?regs)) \<le> the (wa_max_walkers ?wa)" using le by simp
  then show ?thesis using assms(4,5) regs by (auto simp: check_max_walkers_reached_def)
qed

subsection \<open>A checked walker does not raise\<close>

lemma idle_loop_total: "check_walker_value_type clock v loc = Inr b \<Longrightarrow> \<exists>r. idle_loop v loc' ticks = Inr r"
proof (induction v loc' ticks rule: idle_loop.induct)
  case (2 v loc' stopped clock' rest)
  obtain b' where "check_walker_value_type clock' v loc' = Inr b'"
    using check_walker_value_type_total [OF 2(2)] by blast
  then show ?case using 2 by (cases stopped; cases b') auto
qed simp

lemma pre_check_True:
  assumes "pre_check env origin mm wa = Inr True"
  shows "if is_time_walker wa
    then (case wa_algo_value wa of None \<Rightarrow> wa_algo_type wa = ''coords''
      | Some v \<Rightarrow> v = [] \<or> (\<exists>clock loc. check_walker_value_type clock v loc = Inr True))
    else wa_algo_type wa = ''round'' \<longrightarrow> (\<exists>v n. wa_algo_value wa = Some v \<and> parse_int v = Inr n)"
proof -
  have "catch_value_error r = Inr True \<longleftrightarrow> r = Inr True" for r by (simp add: catch_value_error_def)
  with assms have body: "(if is_time_walker wa then
           (case wa_algo_value wa of
              None \<Rightarrow> if wa_algo_type wa = ''coords'' then Inr True else Inl TypeError
            | Some v \<Rightarrow> if v = [] then Inr True else check_walker_value_type (we_clock env) v (area_middle_of_fence env (wa_area_id wa) mm))
         else if wa_algo_type wa = ''round'' then
           (case wa_algo_value wa of
              None \<Rightarrow> Inr False
            | Some v \<Rightarrow> res_bind (parse_int v) (\<lambda>n. Inr (\<not> of_int n \<le> worker_rounds_run_through wa mm)))
         else Inr True) = Inr True"
    unfolding pre_check_def pre_check_value_def by (simp split: if_splits)
  then show ?thesis by (cases "wa_algo_value wa") (auto simp: res_bind_Inr split: if_splits)
qed

text \<open>
  An area that has passed the pre-check never makes the check of its worker raise, at whatever time and in whatever state of the
  managers the check is made, unless it counts down, whose value nobody looks at before.
\<close>

theorem prechecked_never_raises:
  assumes "pre_check env origin mm wa = Inr True" "strategy_walker (wk_strategy w) = Some wa" "wa_algo_type wa \<noteq> ''countdown''"
  shows "\<exists>r. fst (check_walker wenv w mm') = Inr r"
proof -
  let ?t = "wa_algo_type wa"
  note pre = pre_check_True [OF assms(1)]
  have total: "\<exists>b'. check_walker_value_type clock' s loc' = Inr b'" if "wa_algo_value wa = Some s" "s \<noteq> []" "is_time_walker wa"
    for s clock' loc'
    using pre that check_walker_value_type_total by auto
  have some: "wa_algo_value wa \<noteq> None" if "?t \<in> {''timer'', ''period'', ''idle''}"
    using pre that by (auto simp: is_time_walker_def split: option.splits)
  have mode: "\<exists>r. check_walker_mode wenv w mm' wa = Inr r"
  proof -
    let ?loc = "area_middle_of_current_fence wenv w mm'" and ?clock = "we_clock (wenv_search wenv 0)"
    consider "?t = ''timer''" | "?t = ''period''" | "?t = ''coords''" | "?t = ''idle''" | "?t = ''round''"
      | "?t \<notin> {''timer'', ''period'', ''coords'', ''idle'', ''round''}" by blast
    then show ?thesis
    proof cases
      case 5
      then obtain s n where "wa_algo_value wa = Some s" "parse_int s = Inr n" using pre by (auto simp: is_time_walker_def)
      then show ?thesis using 5 by (auto simp: check_walker_mode_def check_rounds_def decided_def split: option.split)
    next
      case 4
      then obtain s where s: "wa_algo_value wa = Some s" using some by auto
      show ?thesis
      proof (cases "s = []")
        case False
        obtain b where b: "check_walker_value_type ?clock s ?loc = Inr b" using total [OF s False] 4 by (auto simp: is_time_walker_def)
        obtain r where "idle_loop s ?loc (wenv_idle wenv) = Inr r" using idle_loop_total [OF b] by blast
        then show ?thesis using 4 s False b by (simp add: check_walker_mode_def)
      qed (use 4 s in \<open>simp add: check_walker_mode_def\<close>)
    next
      case 6
      then show ?thesis using assms(3) by (simp add: check_walker_mode_def)
    next
      case 1
      then obtain s where s: "wa_algo_value wa = Some s" using some by auto
      show ?thesis using total [OF s, of ?clock ?loc] 1 s by (cases "s = []") (auto simp: check_walker_mode_def decided_def is_time_walker_def)
    next
      case 2
      then obtain s where s: "wa_algo_value wa = Some s" using some by auto
      show ?thesis using total [OF s, of ?clock ?loc] 2 s by (cases "s = []") (auto simp: check_walker_mode_def decided_def is_time_walker_def)
    next
      case 3
      show ?thesis
      proof (cases "wa_algo_value wa")
        case None
        then show ?thesis using 3 by (simp add: check_walker_mode_def)
      next
        case (Some s)
        then show ?thesis using total [OF Some, of ?clock ?loc] 3
          by (cases "s = []") (auto simp: check_walker_mode_def decided_def is_time_walker_def)
      qed
    qed
  qed
  then show ?thesis using assms(2) by (simp add: check_walker_def)
qed

text \<open>The exception: a countdown that is not a number passes the pre-check and raises.\<close>

lemma countdown_raises:
  assumes "wa_algo_type wa = ''countdown''" "wa_algo_value wa = Some v" "v \<noteq> []" "parse_int v = Inl e"
    and "strategy_walker (wk_strategy w) = Some wa" "workerstart w = Some t" "wa_eventid wa = None"
  shows "fst (check_walker wenv w mm) = Inl e"
  using assms by (simp add: check_walker_def check_walker_mode_def check_countdown_def decided_def)

subsection \<open>Stopping a worker\<close>

lemma grab_keeps: "grab_next_location env w mm = (r, w1, mm1) \<Longrightarrow> stop_worker_event w1 = stop_worker_event w \<and> worker_task w1 = worker_task w"
  by (auto simp: grab_next_location_def Let_def split: prod.splits option.splits next_location.splits if_splits)

lemma start_keeps: "start_of_new_strategy env w mm = (w1, mm1) \<Longrightarrow> stop_worker_event w1 = stop_worker_event w \<and> worker_task w1 = worker_task w"
  by (auto simp: start_of_new_strategy_def Let_def)

text \<open>
  A worker that is told to stop while it scans runs on: its cancellation is taken for one of the scan, and a
  second call of \<open>stop_worker\<close> does nothing.
\<close>

lemma stopped_worker_runs_on:
  assumes "worker_task w = Some Running" "\<not> stop_worker_event w"
    and "run_scan env envs (stop_worker w) mm = (r, w1, mm1)" "update_strategy env (w1\<lparr>worker_task := Some Running\<rparr>) mm1 = (Inr w3, mm2)"
  shows "run_turn env envs (stop_worker w) mm = (w3, mm2) \<and> worker_task w3 = Some Running \<and> stop_worker w3 = w3"
proof -
  let ?w = "stop_worker w"
  have w: "stop_worker_event ?w" "worker_task ?w = Some CancelRequested" using assms(1,2) by (simp_all add: stop_worker_def)
  obtain w0 mm0 where st: "start_of_new_strategy env ?w mm = (w0, mm0)" by fastforce
  have w0: "stop_worker_event w0" "worker_task w0 = Some CancelRequested" using start_keeps [OF st] w by simp_all
  have "w1 = w0 \<and> \<not> ends_worker r"
    using assms(3) st w0(1) by (cases envs) (auto simp: run_scan_def scan_iteration_def ends_worker_def split: if_splits)
  then have "\<not> ends_worker r" "worker_task w1 = Some CancelRequested" "stop_worker_event w1" using w0 by simp_all
  moreover have "worker_task w3 = Some Running \<and> stop_worker_event w3 = stop_worker_event w1"
    using assms(4) by (auto simp: update_strategy_def split: if_splits sum.splits prod.splits)
  ultimately show ?thesis using assms(3,4) by (simp add: run_turn_def stop_worker_def)
qed

text \<open>The last position is never reset, as the stored mode is no string.\<close>

lemma position_is_kept:
  "wk_last_location (fst (start_of_new_strategy env w mm)) =
     (case get_devicemappings_of (wk_origin w) mm of None \<Rightarrow> None | Some e \<Rightarrow> last_location e)"
proof -
  have "get_devicesetting_value_of_device (wk_origin w) LAST_MODE mm \<notin> {VJson (JStr s) | s. True}"
    by (auto simp: get_devicesetting_value_of_device_def get_devicesetting_def inherited_column_def split: option.split)
  then show ?thesis by (auto simp: start_of_new_strategy_def Let_def)
qed

section \<open>The theorems on concrete inputs\<close>

definition demo_worker :: "walkerarea \<Rightarrow> worker" where
  "demo_worker wa = \<lparr>wk_origin = ''atv'', wk_device_id = 1,
     wk_strategy = \<lparr>strategy_class = WorkerMonMitmStrategy, strategy_area = 1, strategy_walker = Some wa\<rparr>, workerstart = Some 0,
     stop_worker_event = False, worker_task = Some Running, current_location = None, wk_last_location = None, location_count = 0,
     current_sleep_duration = 0\<rparr>"

definition demo_wenv :: worker_env where
  "demo_wenv = \<lparr>wenv_search = (\<lambda>_. night_env), wenv_now = 100, wenv_configmode = True, wenv_idle = [], wenv_healthy = True, wenv_arrived = None\<rparr>"

lemma assigned_within_limit_witness:
  "''atv'' \<in> routemanager_get_registered_workers 1 (snd (prep_settings (\<lambda>_. night_env) ''atv'' walker_mm)) \<and>
   check_max_walkers_reached (demo_worker (coords_area None)) (snd (prep_settings (\<lambda>_. night_env) ''atv'' walker_mm))"
proof -
  let ?cfg = "\<lparr>cfg_settings = coords_area None, cfg_index = 1, cfg_area_id = 1, cfg_total = 3\<rparr>"
  have g: "get_walker_settings (\<lambda>_. night_env) ''atv'' walker_mm =
      (Inr (Some ?cfg), snd (get_walker_settings (\<lambda>_. night_env) ''atv'' walker_mm))" using walker_found by (simp add: prod_eq_iff)
  have p: "prep_settings (\<lambda>_. night_env) ''atv'' walker_mm = (Inr (Some ?cfg), snd (prep_settings (\<lambda>_. night_env) ''atv'' walker_mm))"
    using walker_prep by (simp add: prod_eq_iff)
  have d: "get_devicemappings_of ''atv'' walker_mm \<noteq> None" using walker_mm_areas by auto
  have s: "strategy_walker (wk_strategy (demo_worker (coords_area None))) = Some (cfg_settings ?cfg)"
    "strategy_area (wk_strategy (demo_worker (coords_area None))) = cfg_area_id ?cfg" by (simp_all add: demo_worker_def)
  have m: "0 \<le> m" if "wa_max_walkers (cfg_settings ?cfg) = Some m" for m using that by (simp add: coords_area_def)
  show ?thesis using assigned_within_limit [OF g d p s m] by simp
qed

lemma prechecked_never_raises_witness:
  "\<exists>r. fst (check_walker demo_wenv (demo_worker (coords_area (Some ''5:00''))) walker_mm) = Inr r"
proof -
  have "pre_check night_env ''atv'' walker_mm (coords_area (Some ''5:00'')) = Inr True" by code_simp
  then show ?thesis by (rule prechecked_never_raises) (simp_all add: demo_worker_def coords_area_def)
qed

end
