(* ===== verification/Scanning.thy ===== *)
theory Scanning
  imports Worker MitmData Stats
begin

text \<open>
  What a worker does at a location: \<open>worker/strategy/AbstractMitmBaseStrategy.py\<close>, the strategies of
  \<open>worker/strategy/plain\<close> and the restarts of \<open>AbstractWorkerStrategy\<close>. It moves there, waits until the device has
  sent data that fits, and counts the time-outs, until it restarts the game and at last the device. The
  data comes from the handler of \<open>MitmData\<close>, which devices update meanwhile: what the worker sees each
  time it looks is a list of observations. Whether the game stops and starts is part of the environment.
\<close>

section \<open>State\<close>

datatype received_type = NoData | GYM | STOP | MON | CLEAR | GMO | FORT_SEARCH_RESULT

datatype proto = INVENTORY_PROTO | FORT_SEARCH_PROTO | ENCOUNTER_PROTO | FORT_DETAILS_PROTO | GMO_PROTO | GYM_INFO_PROTO

definition proto_value :: "proto \<Rightarrow> int" where
  "proto_value p = (case p of INVENTORY_PROTO \<Rightarrow> 4 | FORT_SEARCH_PROTO \<Rightarrow> 101 | ENCOUNTER_PROTO \<Rightarrow> 102
     | FORT_DETAILS_PROTO \<Rightarrow> 104 | GMO_PROTO \<Rightarrow> 106 | GYM_INFO_PROTO \<Rightarrow> 156)"

datatype wait_error = InternalStopWorker | WorkerRemoved | WaitFailed py_error

record scan_state =
  sc_origin :: string
  sc_area :: int
  sc_class :: strategy_class
  sc_has_walker :: bool
  sc_current :: location
  sc_last :: location
  sc_transport :: transport_type
  restart_count :: int
  reboot_count :: int
  login_error_count :: int
  same_screen_count :: int
  maintenance_early_detection :: bool
  received_data_at :: "real option"
  encounter_ids :: "(string, int) dict"
  latest_encounter_update :: int
  sc_stats :: stats_state

text \<open>
  The settings of the server and what the device answers to a restart: whether the game stops, is launched and is seen to
  send data, and whether the device reboots. \<open>g_cached\<close> says which encounters are in the cache,
  \<open>g_encountered\<close> which the database knows of since a time.
\<close>

record game_env =
  g_stats_args :: stats_args
  g_rm :: rm_env
  g_stops :: "wait_error + bool"
  g_launch :: "wait_error + bool"
  g_injected :: bool
  g_reboots :: "wait_error + bool"
  g_max_distance :: real
  g_cached :: "int \<Rightarrow> json \<Rightarrow> json \<Rightarrow> bool"
  g_init_forts :: bool
  g_encountered :: "int \<Rightarrow> int \<times> (int, int) dict"

text \<open>\<open>get_devicesettings_value\<close> with a default, for numbers and flags.\<close>

definition number_of_json :: "json \<Rightarrow> real result" where
  "number_of_json v = (case v of JInt i \<Rightarrow> Inr (of_int i) | JFloat r \<Rightarrow> Inr r | JBool b \<Rightarrow> Inr (if b then 1 else 0) | _ \<Rightarrow> Inl TypeError)"

definition num_setting :: "mapping_manager \<Rightarrow> string \<Rightarrow> mm_key \<Rightarrow> real \<Rightarrow> real result" where
  "num_setting mm origin key dflt =
     (case get_devicesetting_value_of_device origin key mm of
        VJson JNull \<Rightarrow> Inr dflt
      | VJson v \<Rightarrow> number_of_json v
      | _ \<Rightarrow> Inl TypeError)"

definition flag_setting :: "mapping_manager \<Rightarrow> string \<Rightarrow> mm_key \<Rightarrow> bool \<Rightarrow> bool" where
  "flag_setting mm origin key dflt =
     (case get_devicesetting_value_of_device origin key mm of
        VJson JNull \<Rightarrow> dflt
      | VJson v \<Rightarrow> truthy v
      | _ \<Rightarrow> True)"

section \<open>Looking into the data\<close>

definition json_number :: "json \<Rightarrow> string \<Rightarrow> real result" where
  "json_number v k = res_bind (json_index v k) number_of_json"

definition json_list :: "json \<Rightarrow> json list result" where
  "json_list v = (case v of JList xs \<Rightarrow> Inr xs | JDict d \<Rightarrow> Inr (map (\<lambda>(k, _). JStr k) d) | JStr s \<Rightarrow> Inr (map (\<lambda>c. JStr [c]) s) | _ \<Rightarrow> Inl TypeError)"

text \<open>A search through a list that may raise: the first hit ends it.\<close>

fun any_res :: "('a \<Rightarrow> bool result) \<Rightarrow> 'a list \<Rightarrow> bool result" where
  "any_res f [] = Inr False"
| "any_res f (x # xs) = res_bind (f x) (\<lambda>b. if b then Inr True else any_res f xs)"

definition mon_distance :: "location \<Rightarrow> json \<Rightarrow> real result" where
  "mon_distance here mon =
     res_bind (json_number mon ''latitude'') (\<lambda>la. res_bind (json_number mon ''longitude'') (\<lambda>lo.
       Inr (get_distance_of_two_points_in_meters la lo (lat here) (lng here))))"

definition wild_mons :: "json \<Rightarrow> json list result" where
  "wild_mons cell = res_bind (json_index cell ''wild_pokemon'') json_list"

definition gmo_contains_wild_mons_closeby :: "location \<Rightarrow> json \<Rightarrow> bool result" where
  "gmo_contains_wild_mons_closeby here gmo =
     res_bind (json_get gmo ''cells'' JNull) (\<lambda>cells.
       if \<not> truthy cells then Inr False
       else res_bind (json_list cells) (any_res (\<lambda>cell. res_bind (wild_mons cell)
         (any_res (\<lambda>mon. res_bind (mon_distance here mon) (\<lambda>d. Inr (\<not> d > 70)))))))"

definition gmo_cells_contain_multiple_of_key :: "json \<Rightarrow> string list \<Rightarrow> bool result" where
  "gmo_cells_contain_multiple_of_key gmo keys =
     (case gmo of
        JDict d \<Rightarrow> (case map_of d ''cells'' of
            Some (JList cells) \<Rightarrow>
              any_res (\<lambda>cell. any_res (\<lambda>key. res_bind (json_get cell key JNull)
                (\<lambda>v. Inr (case v of JList xs \<Rightarrow> xs \<noteq> [] | _ \<Rightarrow> False))) keys) cells
          | _ \<Rightarrow> Inr False)
      | _ \<Rightarrow> Inr False)"

text \<open>\<open>int(s, 16)\<close>; its value is not used, but it may raise.\<close>

definition hex_digit :: "char \<Rightarrow> bool" where
  "hex_digit c = (let n = of_char c :: nat in 48 \<le> n \<and> n \<le> 57 \<or> 65 \<le> n \<and> n \<le> 70 \<or> 97 \<le> n \<and> n \<le> 102)"

definition check_hex :: "json \<Rightarrow> unit result" where
  "check_hex v = (case v of
       JInt i \<Rightarrow> Inr ()
     | JStr s \<Rightarrow> if s \<noteq> [] \<and> list_all hex_digit s then Inr () else Inl ValueError
     | _ \<Rightarrow> Inl ValueError)"

text \<open>\<open>encounter_id in self._encounter_ids\<close>: the id is an int, the keys are strings.\<close>

definition already_encountered :: "int \<Rightarrow> (string, int) dict \<Rightarrow> bool" where
  "already_encountered encounter_id ids = (JInt encounter_id \<in> JStr ` fst ` set ids)"

definition mon_to_be_encountered :: "game_env \<Rightarrow> scan_state \<Rightarrow> bool \<Rightarrow> int list \<Rightarrow> json \<Rightarrow> bool result" where
  "mon_to_be_encountered g w check_encounter_id wanted mon =
     res_bind (json_index mon ''spawnpoint_id'') (\<lambda>sp. res_bind (check_hex sp) (\<lambda>_.
     res_bind (mon_distance (sc_current w) mon) (\<lambda>d.
       if d > 65 then Inr False
       else res_bind (json_index mon ''encounter_id'') (\<lambda>enc. res_bind (json_get mon ''pokemon_data'' JNull) (\<lambda>pd.
         res_bind (json_get pd ''id'' JNull) (\<lambda>mon_id. res_bind (json_get pd ''display'' (JDict [])) (\<lambda>display.
         res_bind (json_get display ''weather_boosted_value'' JNull) (\<lambda>boosted.
         (case enc of
            JInt i \<Rightarrow>
              (let e = (if i < 0 then i + 2 ^ 64 else i)
               in if g_cached g e boosted mon_id then Inr False
                  else if already_encountered e (encounter_ids w) then Inr False
                  else if \<not> check_encounter_id \<and> mon_id \<in> JInt ` set wanted then Inr True
                  else Inr (check_encounter_id \<and> e \<in> set wanted))
          | _ \<Rightarrow> Inl TypeError)))))))))"

definition gmo_contains_mons_to_be_encountered :: "game_env \<Rightarrow> mapping_manager \<Rightarrow> scan_state \<Rightarrow> bool \<Rightarrow> json \<Rightarrow> bool result" where
  "gmo_contains_mons_to_be_encountered g mm w check_encounter_id gmo =
     res_bind (json_get gmo ''cells'' JNull) (\<lambda>cells.
       if \<not> truthy cells then Inr False
       else res_bind
         (if \<not> check_encounter_id
          then Inr (if routemanager_present (sc_area w) mm then get_monlist (areamons mm) (sc_area w) else [])
          else (case routemanager_get_encounter_ids_left (sc_area w) mm of None \<Rightarrow> Inl TypeError | Some ids \<Rightarrow> Inr ids))
         (\<lambda>wanted. res_bind (json_list cells) (any_res (\<lambda>cell. res_bind (wild_mons cell)
            (any_res (mon_to_be_encountered g w check_encounter_id wanted))))))"

text \<open>The checks the strategies share: the entry is there, not older than asked for and has data.\<close>

type_synonym data_check = "latest_entry option \<Rightarrow> proto \<Rightarrow> int \<Rightarrow> (received_type \<times> json option) result"

definition check_entry :: "(proto \<Rightarrow> json \<Rightarrow> received_type result) \<Rightarrow> data_check" where
  "check_entry look latest p timestamp =
     (case latest of
        None \<Rightarrow> Inr (NoData, None)
      | Some e \<Rightarrow> (case timestamp_of_data_retrieval e of
          None \<Rightarrow> Inl TypeError
        | Some t \<Rightarrow>
            if t < timestamp then Inr (NoData, None)
            else if e_data e = JNull then Inr (NoData, None)
            else res_bind (look p (e_data e)) (\<lambda>ty. Inr (ty, if ty = NoData then None else Some (e_data e)))))"

definition gmo_if :: "bool \<Rightarrow> received_type" where "gmo_if b = (if b then GMO else NoData)"

definition init_check_for_data_content :: "game_env \<Rightarrow> scan_state \<Rightarrow> data_check" where
  "init_check_for_data_content g w = check_entry (\<lambda>p data.
     if p = GMO_PROTO then res_bind
       (if g_init_forts g then gmo_cells_contain_multiple_of_key data [''forts'', ''wild_pokemon'', ''nearby_pokemon'']
        else gmo_contains_wild_mons_closeby (sc_current w) data) (\<lambda>b. Inr (gmo_if b))
     else Inr (if p = ENCOUNTER_PROTO then MON else NoData))"

definition iv_check_for_data_content :: "game_env \<Rightarrow> scan_state \<Rightarrow> data_check" where
  "iv_check_for_data_content g w = check_entry (\<lambda>p data.
     if p = GMO_PROTO then res_bind (gmo_contains_wild_mons_closeby (sc_current w) data) (\<lambda>b. Inr (gmo_if b))
     else Inr (if p = ENCOUNTER_PROTO then MON else NoData))"

definition mon_check_for_data_content :: "game_env \<Rightarrow> scan_state \<Rightarrow> data_check" where
  "mon_check_for_data_content g w = check_entry (\<lambda>p data.
     if p = GMO_PROTO then res_bind (gmo_contains_wild_mons_closeby (sc_current w) data) (\<lambda>b. Inr (gmo_if b))
     else Inr (if p = ENCOUNTER_PROTO then MON else NoData))"

definition raids_check_for_data_content :: "game_env \<Rightarrow> scan_state \<Rightarrow> data_check" where
  "raids_check_for_data_content g w = check_entry (\<lambda>p data.
     if p = GMO_PROTO then res_bind (gmo_cells_contain_multiple_of_key data [''forts'']) (\<lambda>b. Inr (gmo_if b))
     else Inr NoData)"

definition check_for_data_content :: "game_env \<Rightarrow> scan_state \<Rightarrow> data_check" where
  "check_for_data_content g w = (case sc_class w of
       WorkerRaidsStrategy \<Rightarrow> raids_check_for_data_content g w
     | WorkerInitStrategy \<Rightarrow> init_check_for_data_content g w
     | WorkerMonIvStrategy \<Rightarrow> iv_check_for_data_content g w
     | _ \<Rightarrow> mon_check_for_data_content g w)"

section \<open>Waiting for data\<close>

definition MINIMUM_DISTANCE_ALLOWANCE_FOR_GMO :: real where "MINIMUM_DISTANCE_ALLOWANCE_FOR_GMO = 5"

text \<open>Comparing with the radius of a manager that is gone raises.\<close>

definition is_location_within_allowed_range :: "game_env \<Rightarrow> mapping_manager \<Rightarrow> scan_state \<Rightarrow> location \<Rightarrow> bool result" where
  "is_location_within_allowed_range g mm w l =
     (case routemanager_get_max_radius (sc_area w) mm of
        None \<Rightarrow> Inl TypeError
      | Some mode_distance \<Rightarrow>
          (let max_distance = (if g_max_distance g > mode_distance \<and> mode_distance > MINIMUM_DISTANCE_ALLOWANCE_FOR_GMO
                 then mode_distance else g_max_distance g)
           in Inr (get_distance_of_two_points_in_meters (lat l) (lng l) (lat (sc_current w)) (lng (sc_current w)) \<le> max_distance)))"

definition proper_location :: "location \<Rightarrow> bool" where
  "proper_location l \<longleftrightarrow> \<not> (lat l = 1000 \<and> lng l = 1000) \<and>
     lat l \<noteq> 0 \<and> lng l \<noteq> 0 \<and> - 90 \<le> lat l \<and> lat l \<le> 90 \<and> - 180 \<le> lng l \<and> lng l \<le> 180"

text \<open>What the worker sees when it looks.\<close>

record tick =
  tk_now :: real
  tk_stop :: bool
  tk_data :: mitm_state
  tk_mm :: mapping_manager

type_synonym wait_result = "received_type \<times> json option \<times> int option"

definition data_checked :: "game_env \<Rightarrow> scan_state \<Rightarrow> proto \<Rightarrow> tick \<Rightarrow> bool result" where
  "data_checked g w p t =
     (case fst (handler_get_last_known_location (sc_origin w) (tk_data t)) of
        None \<Rightarrow> Inr False
      | Some l \<Rightarrow>
          if \<not> proper_location l then Inr False
          else if p = GMO_PROTO then is_location_within_allowed_range g (tk_mm t) w l
          else Inr True)"

definition request_data ::
    "game_env \<Rightarrow> scan_state \<Rightarrow> proto \<Rightarrow> int \<Rightarrow> tick \<Rightarrow> received_type \<times> json option \<Rightarrow> (latest_entry option \<times> received_type \<times> json option) result" where
  "request_data g w p timestamp t before =
     res_bind (data_checked g w p t) (\<lambda>check.
       if \<not> check then Inr (None, before)
       else (let latest = fst (handler_request_latest (sc_origin w) (show_int (proto_value p)) (Some timestamp) (tk_data t))
             in res_bind (check_for_data_content g w latest p timestamp) (\<lambda>found. Inr (latest, found))))"

definition raise_stop_worker_if_applicable :: "scan_state \<Rightarrow> tick \<Rightarrow> bool" where
  "raise_stop_worker_if_applicable w t =
     (\<not> routemanager_present (sc_area w) (tk_mm t) \<or> tk_stop t \<or> routemanager_get_position_type (sc_area w) (sc_origin w) (tk_mm t) = None)"

text \<open>
  The loop; \<open>None\<close> is still waiting. A result without an entry is kept from an earlier look. The result comes with what the
  worker saw last.
\<close>

definition may_wait :: "int \<Rightarrow> real \<Rightarrow> tick \<Rightarrow> bool" where
  "may_wait timestamp timeout t = (\<not> tk_stop t \<and> (timeout = 0 \<or> py_int (of_int timestamp + timeout) \<ge> py_int (tk_now t)))"

fun wait_loop ::
    "game_env \<Rightarrow> scan_state \<Rightarrow> proto \<Rightarrow> int \<Rightarrow> real \<Rightarrow> tick list \<Rightarrow> received_type \<times> json option \<Rightarrow> int option
      \<Rightarrow> (wait_error + (wait_result \<times> tick) option)" where
  "wait_loop g w p timestamp timeout [] found last_time = Inr None"
| "wait_loop g w p timestamp timeout (t # ts) found last_time =
     (if \<not> may_wait timestamp timeout t then Inr (Some ((fst found, snd found, last_time), t))
      else (case request_data g w p timestamp t found of
          Inl e \<Rightarrow> Inl (WaitFailed e)
        | Inr (latest, found') \<Rightarrow>
            if raise_stop_worker_if_applicable w t then Inl InternalStopWorker
            else if fst found' = NoData then wait_loop g w p timestamp timeout ts found' (Some 0)
            else (case latest of
                Some e \<Rightarrow> Inr (Some ((fst found', snd found', timestamp_of_data_retrieval e), t))
              | None \<Rightarrow> wait_loop g w p timestamp timeout ts found' last_time)))"

definition first_look ::
    "game_env \<Rightarrow> scan_state \<Rightarrow> proto \<Rightarrow> int \<Rightarrow> real \<Rightarrow> tick \<Rightarrow> tick list \<Rightarrow> (wait_error + (wait_result \<times> tick) option)" where
  "first_look g w p timestamp timeout t ts =
     (case request_data g w p timestamp t (NoData, None) of
        Inl e \<Rightarrow> Inl (WaitFailed e)
      | Inr (latest, found) \<Rightarrow>
          wait_loop g w p timestamp timeout ts found (case latest of None \<Rightarrow> Some 0 | Some e \<Rightarrow> timestamp_of_data_retrieval e))"

section \<open>Actions\<close>

text \<open>A step of the worker that may raise, keeping what it changed before; the tick holds the managers and the data.\<close>

type_synonym 'a action = "(scan_state \<times> tick, wait_error, 'a) act"

definition try_removed :: "bool action \<Rightarrow> bool action" where
  "try_removed f s = (case f s of (Inl WorkerRemoved, s') \<Rightarrow> (Inr False, s') | r \<Rightarrow> r)"

definition change :: "(scan_state \<Rightarrow> scan_state) \<Rightarrow> unit action" where
  "change f s = (Inr (), f (fst s), snd s)"

definition set_injection_status :: "bool \<Rightarrow> unit action" where
  "set_injection_status b s = (Inr (), fst s, (snd s)\<lparr>tk_data := handler_set_injection_status (sc_origin (fst s)) b (tk_data (snd s))\<rparr>)"

definition set_sleeping :: "game_env \<Rightarrow> real \<Rightarrow> unit action" where
  "set_sleeping g d s =
     (case routemanager_set_worker_sleeping (g_rm g) (sc_area (fst s)) (sc_origin (fst s)) d (tk_mm (snd s)) of
        (r, mm) \<Rightarrow> (case r of Inl e \<Rightarrow> Inl (WaitFailed e) | Inr u \<Rightarrow> Inr u, fst s, (snd s)\<lparr>tk_mm := mm\<rparr>))"

definition read_number :: "mm_key \<Rightarrow> real \<Rightarrow> real action" where
  "read_number key dflt s =
     (case num_setting (tk_mm (snd s)) (sc_origin (fst s)) key dflt of Inl e \<Rightarrow> Inl (WaitFailed e) | Inr r \<Rightarrow> Inr r, s)"

definition read_flag :: "mm_key \<Rightarrow> bool \<Rightarrow> bool action" where
  "read_flag key dflt s = (Inr (flag_setting (tk_mm (snd s)) (sc_origin (fst s)) key dflt), s)"

section \<open>Restarts\<close>

definition stats_position :: "rm_position_type \<Rightarrow> position_type" where
  "stats_position p = (case p of NormalPos \<Rightarrow> PT_NORMAL | PrioqPos \<Rightarrow> PT_PRIOQ | StartupPos \<Rightarrow> PT_STARTUP
     | RebootPos \<Rightarrow> PT_REBOOT | RestartPos \<Rightarrow> PT_RESTART)"

definition mode_name :: "worker_type \<Rightarrow> string" where
  "mode_name m = (case m of RAID_MITM \<Rightarrow> ''raids_mitm'' | MON_MITM \<Rightarrow> ''mon_mitm'' | IV_MITM \<Rightarrow> ''iv_mitm''
     | STOPS \<Rightarrow> ''pokestops'' | IDLE \<Rightarrow> ''idle'' | CONFIGMODE \<Rightarrow> ''configmode'' | INIT \<Rightarrow> ''init'' | UNDEFINED \<Rightarrow> [])"

text \<open>Reporting to the statistics needs the settings of the area.\<close>

definition report :: "game_env \<Rightarrow> bool \<Rightarrow> int \<Rightarrow> position_type option \<Rightarrow> int \<Rightarrow> (scan_state \<Rightarrow> transport_type) \<Rightarrow> unit action" where
  "report g success fixed_at ptype data_time ttype s =
     (let w = fst s; at_time = tk_now (snd s)
      in case routemanager_get_mode (sc_area w) (tk_mm (snd s)) of
           None \<Rightarrow> (Inl (WaitFailed AttributeError), s)
         | Some m \<Rightarrow> (Inr (), w\<lparr>sc_stats := sh_collect_location_data (g_stats_args g) \<lfloor>at_time\<rfloor> (sc_origin w) (Some (sc_current w)) success
             fixed_at ptype data_time (mode_name m) (Some (ttype w)) (py_int at_time) (sc_stats w)\<rparr>, snd s))"

definition report_walker :: "game_env \<Rightarrow> position_type \<Rightarrow> (scan_state \<Rightarrow> transport_type) \<Rightarrow> unit action" where
  "report_walker g ptype ttype s =
     (if sc_has_walker (fst s) then report g True (py_int (tk_now (snd s))) (Some ptype) 0 ttype s else (Inr (), s))"

definition stop_game :: "game_env \<Rightarrow> bool action" where
  "stop_game g = act_bind (give (g_stops g)) (\<lambda>stopped.
     act_bind (if stopped then set_injection_status False else finish ()) (\<lambda>_. finish stopped))"

definition start_game :: "game_env \<Rightarrow> bool action" where
  "start_game g = act_bind (give (g_launch g)) (\<lambda>started.
     if g_injected g then finish started
     else act_bind (set_injection_status False) (\<lambda>_. raise_error InternalStopWorker))"

text \<open>\<open>_reboot\<close>; when devices may not be rebooted the game is stopped and started.\<close>

definition reboot_device :: "game_env \<Rightarrow> bool action" where
  "reboot_device g =
     act_bind (read_flag REBOOT True) (\<lambda>allowed.
     act_bind (try_removed
       (if allowed then give (g_reboots g)
        else act_bind (stop_game g) (\<lambda>stopped. if stopped then start_game g else finish False))) (\<lambda>started.
     act_bind (report_walker g PT_REBOOT (\<lambda>_. TELEPORT)) (\<lambda>_.
     act_bind (change (\<lambda>w. w\<lparr>reboot_count := 0, restart_count := 0, login_error_count := 0, same_screen_count := 0\<rparr>)) (\<lambda>_.
     finish started))))"

definition restart_game :: "game_env \<Rightarrow> bool action" where
  "restart_game g =
     act_bind (set_sleeping g 240) (\<lambda>_.
     act_bind (stop_game g) (\<lambda>stopped.
     act_bind (change (\<lambda>w. w\<lparr>restart_count := 0\<rparr>)) (\<lambda>_.
     if stopped then act_bind (report_walker g PT_RESTART sc_transport) (\<lambda>_. start_game g)
     else reboot_device g)))"

section \<open>Time-outs\<close>

definition too_many_timeouts :: "game_env \<Rightarrow> real \<Rightarrow> unit action" where
  "too_many_timeouts g reboot_thresh =
     act_bind (change (\<lambda>w. w\<lparr>reboot_count := reboot_count w + 1\<rparr>)) (\<lambda>_.
     act_bind (read_flag REBOOT True) (\<lambda>allowed. \<lambda>s.
       if of_int (reboot_count (fst s)) > reboot_thresh \<and> allowed
       then act_bind (reboot_device g) (\<lambda>_. raise_error InternalStopWorker) s
       else act_bind (change (\<lambda>w. w\<lparr>restart_count := 0, maintenance_early_detection := True\<rparr>)) (\<lambda>_.
              act_bind (restart_game g) (\<lambda>_. finish ())) s))"

definition handle_proto_timeout :: "game_env \<Rightarrow> int \<Rightarrow> position_type option \<Rightarrow> unit action" where
  "handle_proto_timeout g fixed_at ptype =
     act_bind (report g False fixed_at ptype 0 sc_transport) (\<lambda>_.
     act_bind (change (\<lambda>w. w\<lparr>restart_count := restart_count w + 1\<rparr>)) (\<lambda>_.
     act_bind (read_number RESTART_THRESH 5) (\<lambda>restart_thresh.
     act_bind (read_number REBOOT_THRESH 3) (\<lambda>reboot_thresh. \<lambda>s.
       if of_int (restart_count (fst s)) > restart_thresh then too_many_timeouts g reboot_thresh s else (Inr (), s)))))"

definition reset_restart_count :: "game_env \<Rightarrow> int \<Rightarrow> int \<Rightarrow> position_type option \<Rightarrow> unit action" where
  "reset_restart_count g fixed_at received ptype s =
     act_bind (change (\<lambda>w. w\<lparr>reboot_count := 0, restart_count := 0, maintenance_early_detection := False,
       received_data_at := Some (tk_now (snd s))\<rparr>)) (\<lambda>_. report g True fixed_at ptype received sc_transport) s"

definition FALLBACK_MITM_WAIT_TIMEOUT :: real where "FALLBACK_MITM_WAIT_TIMEOUT = 30"

definition wait_timeout :: "mapping_manager \<Rightarrow> scan_state \<Rightarrow> real option \<Rightarrow> real result" where
  "wait_timeout mm w timeout =
     (case timeout of
        None \<Rightarrow> num_setting mm (sc_origin w) MITM_WAIT_TIMEOUT FALLBACK_MITM_WAIT_TIMEOUT
      | Some x \<Rightarrow> Inr (if x < 0 then 0 else x))"

text \<open>What is done with the end of the waiting.\<close>

definition after_wait :: "game_env \<Rightarrow> proto \<Rightarrow> int \<Rightarrow> position_type option \<Rightarrow> wait_result \<Rightarrow> unit action" where
  "after_wait g p timestamp ptype r =
     (if p = GMO_PROTO \<or> p = ENCOUNTER_PROTO then
        if fst r \<noteq> NoData then reset_restart_count g timestamp (case snd (snd r) of None \<Rightarrow> 0 | Some received \<Rightarrow> received) ptype
        else handle_proto_timeout g timestamp ptype
      else finish ())"

text \<open>\<open>_wait_for_data\<close>: time-out and position type are those of the first look.\<close>

definition wait_for_data ::
    "game_env \<Rightarrow> real \<Rightarrow> proto \<Rightarrow> real option \<Rightarrow> tick \<Rightarrow> tick list \<Rightarrow> scan_state
      \<Rightarrow> (wait_error + wait_result option) \<times> scan_state \<times> tick" where
  "wait_for_data g timestamp_raw p timeout t ts w =
     (let timestamp = py_int timestamp_raw;
          ptype = map_option stats_position (routemanager_get_position_type (sc_area w) (sc_origin w) (tk_mm t))
      in case wait_timeout (tk_mm t) w timeout of
           Inl e \<Rightarrow> (Inl (WaitFailed e), w, t)
         | Inr secs \<Rightarrow>
             (case first_look g w p timestamp secs t ts of
                Inl e \<Rightarrow> (Inl e, w, t)
              | Inr None \<Rightarrow> (Inr None, w, t)
              | Inr (Some (r, t')) \<Rightarrow> act_bind (after_wait g p timestamp ptype r) (\<lambda>_. finish (Some r)) (w, t')))"

section \<open>Moving and scanning\<close>

definition SECONDS_BEFORE_ARRIVAL_OF_WALK_BUFFER :: int where "SECONDS_BEFORE_ARRIVAL_OF_WALK_BUFFER = 10"

text \<open>The moment from which data is looked for after a walk, from the clock before and after it.\<close>

definition walk_timestamp :: "real \<Rightarrow> real \<Rightarrow> int" where
  "walk_timestamp before_walk after_walk =
     (let time_before_walk = \<lfloor>before_walk\<rfloor>; time_returned = \<lfloor>after_walk\<rfloor>; half = (time_returned + time_before_walk) div 2
      in if time_returned - SECONDS_BEFORE_ARRIVAL_OF_WALK_BUFFER < time_before_walk then time_before_walk
         else if half < time_returned - SECONDS_BEFORE_ARRIVAL_OF_WALK_BUFFER then time_returned - SECONDS_BEFORE_ARRIVAL_OF_WALK_BUFFER
         else half)"

text \<open>\<open>move_to_location\<close>: how the device moves and the delay that is slept; the result is the time to look from.\<close>

definition teleports :: "real option \<Rightarrow> real option \<Rightarrow> real \<Rightarrow> location \<Rightarrow> bool" where
  "teleports speed max_distance distance last_loc =
     (\<not> truthy_real speed \<or>
      (case max_distance of Some m \<Rightarrow> 0 < m \<and> m < distance | None \<Rightarrow> False) \<or> (lat last_loc = 0 \<and> lng last_loc = 0))"

definition cooldown_delay :: "bool \<Rightarrow> real \<Rightarrow> real \<Rightarrow> real" where
  "cooldown_delay cooldown_sleep distance delay =
     (if \<not> cooldown_sleep then delay else if distance > 10000 then 15 else if distance > 5000 then 10 else if distance > 2500 then 8 else delay)"

definition arrive :: "unit action" where
  "arrive s = (let w = fst s in (Inr (), w\<lparr>sc_last := sc_current w\<rparr>,
     (snd s)\<lparr>tk_mm := set_devicesetting_value_of (sc_origin w) (LastLocation (Some (sc_current w))) (tk_mm (snd s))\<rparr>))"

definition move_to_location :: "game_env \<Rightarrow> real option \<Rightarrow> real option \<Rightarrow> real \<Rightarrow> real \<Rightarrow> int action" where
  "move_to_location g speed max_distance before_move after_move s =
     (let w = fst s;
          distance = get_distance_of_two_points_in_meters (lat (sc_last w)) (lng (sc_last w)) (lat (sc_current w)) (lng (sc_current w));
          settle = (\<lambda>timestamp delay. act_bind (set_sleeping g delay) (\<lambda>_. act_bind arrive (\<lambda>_. finish timestamp)))
      in if \<not> routemanager_present (sc_area w) (tk_mm (snd s)) \<or> tk_stop (snd s) then (Inl InternalStopWorker, s)
         else if teleports speed max_distance distance (sc_last w)
         then act_bind (change (\<lambda>w. w\<lparr>sc_transport := TELEPORT\<rparr>)) (\<lambda>_.
              act_bind (read_number POST_TELEPORT_DELAY 0) (\<lambda>delay.
              act_bind (read_flag COOLDOWN_SLEEP False) (\<lambda>cooldown_sleep.
              act_bind (read_number WALK_AFTER_TELEPORT_DISTANCE 0) (\<lambda>_.
              settle \<lfloor>after_move\<rfloor> (cooldown_delay cooldown_sleep distance delay))))) s
         else act_bind (set_sleeping g (distance / (the speed / 3.6))) (\<lambda>_.
              act_bind (change (\<lambda>w. w\<lparr>sc_transport := WALK\<rparr>)) (\<lambda>_.
              act_bind (read_number POST_WALK_DELAY 0) (\<lambda>delay.
              settle (walk_timestamp before_move after_move) delay))) s)"

text \<open>\<open>post_move_location_routine\<close>: wait for the map, and for an encounter when the map has a mon that is wanted.\<close>

definition wait_for_map ::
    "game_env \<Rightarrow> real \<Rightarrow> tick \<Rightarrow> tick list \<Rightarrow> scan_state \<Rightarrow> (wait_error + wait_result option) \<times> scan_state \<times> tick" where
  "wait_for_map g timestamp t ts w =
     act_bind (\<lambda>s. wait_for_data g timestamp GMO_PROTO None t ts (fst s)) (\<lambda>r. finish (case r of
         None \<Rightarrow> None
       | Some (ty, data, received) \<Rightarrow>
           if ty = GMO \<and> (case data of Some d \<Rightarrow> truthy d | None \<Rightarrow> False) then Some (ty, data, received) else None)) (w, t)"

definition encounter_wait :: "strategy_class \<Rightarrow> int option \<Rightarrow> (real \<times> real) option" where
  "encounter_wait c received = (case received of
       None \<Rightarrow> None
     | Some r \<Rightarrow> if c = WorkerMonMitmStrategy then Some (of_int r - 1, 5) else if c = WorkerMonIvStrategy then Some (of_int r, 10) else None)"

definition post_move_location_routine ::
    "game_env \<Rightarrow> real \<Rightarrow> tick \<Rightarrow> tick list \<Rightarrow> tick \<Rightarrow> tick list \<Rightarrow> scan_state
      \<Rightarrow> (wait_error + (received_type \<times> json option) option) \<times> scan_state \<times> tick" where
  "post_move_location_routine g timestamp t ts t' ts' w =
     act_bind (\<lambda>s. wait_for_map g timestamp t ts (fst s)) (\<lambda>r. \<lambda>s. (case r of
         None \<Rightarrow> (Inr None, s)
       | Some (ty, data, received) \<Rightarrow>
           (case encounter_wait (sc_class (fst s)) received of
              None \<Rightarrow> (Inr (Some (ty, data)), s)
            | Some (from_time, secs) \<Rightarrow>
                (case gmo_contains_mons_to_be_encountered g (tk_mm t') (fst s) (sc_class (fst s) = WorkerMonIvStrategy) (the data) of
                   Inl e \<Rightarrow> (Inl (WaitFailed e), s)
                 | Inr wanted \<Rightarrow>
                     if \<not> wanted then (Inr (Some (ty, data)), s)
                     else act_bind (\<lambda>s. wait_for_data g from_time ENCOUNTER_PROTO (Some secs) t' ts' (fst s))
                       (\<lambda>r2. finish (map_option (\<lambda>(ty2, _). (ty2, data)) r2)) s)))) (w, t)"

section \<open>What the device is told\<close>

definition area_mons :: "scan_state \<Rightarrow> mapping_manager \<Rightarrow> int list" where
  "area_mons w mm = (if routemanager_present (sc_area w) mm then get_monlist (areamons mm) (sc_area w) else [])"

definition init_ids_iv_and_scanmode :: "scan_state \<Rightarrow> mapping_manager \<Rightarrow> int list \<times> string" where
  "init_ids_iv_and_scanmode w mm = (area_mons w mm, ''mons'')"

definition mon_ids_iv_and_scanmode :: "scan_state \<Rightarrow> mapping_manager \<Rightarrow> int list \<times> string" where
  "mon_ids_iv_and_scanmode w mm = (area_mons w mm, ''mons'')"

definition raids_ids_iv_and_scanmode :: "scan_state \<Rightarrow> mapping_manager \<Rightarrow> int list \<times> string" where
  "raids_ids_iv_and_scanmode w mm = (area_mons w mm, ''raids'')"

definition iv_ids_iv_and_scanmode :: "scan_state \<Rightarrow> mapping_manager \<Rightarrow> int list \<times> string" where
  "iv_ids_iv_and_scanmode w mm =
     (if routemanager_present (sc_area w) mm
      then (case routemanager_get_encounter_ids_left (sc_area w) mm of Some ids \<Rightarrow> ids | None \<Rightarrow> []) else [], ''ivs'')"

definition get_ids_iv_and_scanmode :: "scan_state \<Rightarrow> mapping_manager \<Rightarrow> int list \<times> string" where
  "get_ids_iv_and_scanmode w = (case sc_class w of
       WorkerRaidsStrategy \<Rightarrow> raids_ids_iv_and_scanmode w
     | WorkerInitStrategy \<Rightarrow> init_ids_iv_and_scanmode w
     | WorkerMonIvStrategy \<Rightarrow> iv_ids_iv_and_scanmode w
     | _ \<Rightarrow> mon_ids_iv_and_scanmode w)"

text \<open>The encounters of the database are merged below those known, and the ones that have expired are dropped.\<close>

definition merge_encounters :: "real \<Rightarrow> (int, int) dict \<Rightarrow> (string, int) dict \<Rightarrow> (string, int) dict" where
  "merge_encounters max_age new old =
     filter (\<lambda>(_, despawn). \<not> of_int despawn < max_age)
       (fold (\<lambda>(k, v). AList.update k v) old (fold (\<lambda>(k, v). AList.update (show_int k) v) new []))"

text \<open>An update of the handler runs in an executor, so that an exception in it is lost.\<close>

definition tell :: "string \<Rightarrow> json \<Rightarrow> unit action" where
  "tell key value s = (Inr (), fst s, (snd s)\<lparr>tk_data :=
     fst (handler_update_latest (py_int (tk_now (snd s))) (sc_origin (fst s)) key value None None None (tk_data (snd s)))\<rparr>)"

definition refresh_encounters :: "game_env \<Rightarrow> int list \<Rightarrow> unit action" where
  "refresh_encounters g ids_iv s =
     (if ids_iv = [] then (Inr (), s)
      else (let w = fst s; (latest_update, found) = g_encountered g (latest_encounter_update w)
            in (Inr (), w\<lparr>latest_encounter_update := latest_update,
                 encounter_ids := merge_encounters (tk_now (snd s)) found (encounter_ids w)\<rparr>, snd s)))"

definition update_injection_settings :: "game_env \<Rightarrow> unit action" where
  "update_injection_settings g s =
     (let (ids_iv, scanmode) = get_ids_iv_and_scanmode (fst s) (tk_mm (snd s))
      in act_bind (refresh_encounters g ids_iv) (\<lambda>_. \<lambda>s.
           act_bind (tell ''ids_encountered'' (JDict (map (\<lambda>(k, v). (k, JInt v)) (encounter_ids (fst s))))) (\<lambda>_.
           act_bind (tell ''ids_iv'' (JList (map JInt ids_iv))) (\<lambda>_.
           act_bind (tell ''unquest_stops'' (JList [])) (\<lambda>_.
           tell ''injected_settings'' (JDict [(''scanmode'', JStr scanmode)])))) s) s)"

section \<open>Lemmas\<close>

text \<open>What a look finds is stored for the worker.\<close>

definition found_at :: "game_env \<Rightarrow> scan_state \<Rightarrow> proto \<Rightarrow> int \<Rightarrow> tick \<Rightarrow> latest_entry \<Rightarrow> bool" where
  "found_at g w p timestamp t e \<longleftrightarrow>
     data_checked g w p t = Inr True \<and>
     map_of (latest_data_holder (entry_at PlayerData_init (sc_origin w) (tk_data t))) (show_int (proto_value p)) = Some e \<and>
     (\<exists>r. timestamp_of_data_retrieval e = Some r \<and> timestamp \<le> r \<and> (timestamp > 0 \<longrightarrow> timestamp < r))"

lemmas data_content_defs = check_for_data_content_def raids_check_for_data_content_def init_check_for_data_content_def
  iv_check_for_data_content_def mon_check_for_data_content_def

lemma check_entry_fresh:
  assumes "check_entry look latest p timestamp = Inr (ty, data)" "ty \<noteq> NoData"
  shows "\<exists>e r. latest = Some e \<and> timestamp_of_data_retrieval e = Some r \<and> timestamp \<le> r \<and> data = Some (e_data e)"
  using assms by (auto simp: check_entry_def res_bind_Inr split: option.splits if_splits)

lemma check_is_check_entry: "\<exists>look. check_for_data_content g w = check_entry look"
  by (auto simp: data_content_defs split: strategy_class.split)

lemma check_content_fresh:
  assumes "check_for_data_content g w latest p timestamp = Inr (ty, data)" "ty \<noteq> NoData"
  shows "\<exists>e r. latest = Some e \<and> timestamp_of_data_retrieval e = Some r \<and> timestamp \<le> r \<and> data = Some (e_data e)"
  using assms check_is_check_entry [of g w] check_entry_fresh by metis

lemma check_content_None: "check_for_data_content g w None p timestamp = Inr (NoData, None)"
  using check_is_check_entry [of g w] by (auto simp: check_entry_def)

lemma request_finds:
  assumes r: "request_data g w p timestamp t before = Inr (Some e, (ty, data))" and ty: "ty \<noteq> NoData"
  shows "found_at g w p timestamp t e \<and> data = Some (e_data e)"
proof -
  have c: "data_checked g w p t = Inr True"
    using r by (auto simp: request_data_def res_bind_Inr split: if_splits)
  let ?l = "fst (handler_request_latest (sc_origin w) (show_int (proto_value p)) (Some timestamp) (tk_data t))"
  have l: "?l = Some e" and k: "check_for_data_content g w ?l p timestamp = Inr (ty, data)"
    using r c by (auto simp: request_data_def res_bind_Inr Let_def)
  obtain r where r: "timestamp_of_data_retrieval e = Some r" "timestamp \<le> r" "data = Some (e_data e)"
    using check_content_fresh [OF k ty] l by auto
  have "map_of (latest_data_holder (entry_at PlayerData_init (sc_origin w) (tk_data t))) (show_int (proto_value p)) = Some e"
    "timestamp \<noteq> 0 \<and> r \<noteq> 0 \<longrightarrow> timestamp < r"
    using l r by (auto simp: handler_request_latest_def handler_get_def get_specific_latest_data_def holder_get_latest_def
        split: option.splits if_splits)
  with c r show ?thesis by (auto simp: found_at_def)
qed

lemma request_finds_none:
  assumes "request_data g w p timestamp t before = Inr (None, (ty, data))" "ty \<noteq> NoData"
  shows "before = (ty, data)"
proof (rule ccontr)
  assume "\<not> ?thesis"
  with assms(1) have "check_for_data_content g w None p timestamp = Inr (ty, data)"
    by (auto simp: request_data_def res_bind_Inr Let_def split: if_splits)
  with assms(2) show False by (simp add: check_content_None)
qed

definition good_so_far :: "game_env \<Rightarrow> scan_state \<Rightarrow> proto \<Rightarrow> int \<Rightarrow> tick set \<Rightarrow> wait_result \<Rightarrow> bool" where
  "good_so_far g w p timestamp seen r \<longleftrightarrow>
     (fst r \<noteq> NoData \<longrightarrow> (\<exists>t \<in> seen. \<exists>e. found_at g w p timestamp t e \<and> fst (snd r) = Some (e_data e) \<and>
        snd (snd r) = timestamp_of_data_retrieval e))"

lemma good_so_far_mono: "good_so_far g w p timestamp seen r \<Longrightarrow> seen \<subseteq> seen' \<Longrightarrow> good_so_far g w p timestamp seen' r"
  by (auto simp: good_so_far_def)

lemma wait_loop_good:
  assumes "wait_loop g w p timestamp secs ts found last_time = Inr (Some (r, t'))"
    and "good_so_far g w p timestamp seen (fst found, snd found, last_time)"
  shows "good_so_far g w p timestamp (seen \<union> set ts) r \<and> t' \<in> set ts \<and>
    (fst r = NoData \<longrightarrow> \<not> may_wait timestamp secs t')"
  using assms
proof (induction ts arbitrary: found last_time seen)
  case (Cons t ts)
  show ?case
  proof (cases "may_wait timestamp secs t")
    case False
    with Cons.prems show ?thesis by (auto intro: good_so_far_mono)
  next
    case True
    obtain latest ty data where q: "request_data g w p timestamp t found = Inr (latest, (ty, data))"
      using Cons.prems(1) True by (auto split: sum.splits)
    have go: "\<not> raise_stop_worker_if_applicable w t"
      using Cons.prems(1) True q by (auto split: if_splits)
    show ?thesis
    proof (cases "ty = NoData")
      case nd: True
      have "wait_loop g w p timestamp secs ts (ty, data) (Some 0) = Inr (Some (r, t'))"
        using Cons.prems(1) True q go nd by simp
      moreover have "good_so_far g w p timestamp seen (ty, data, Some 0)" by (simp add: good_so_far_def nd)
      ultimately show ?thesis using Cons.IH [of "(ty, data)" "Some 0" seen] by (auto intro: good_so_far_mono)
    next
      case nd: False
      show ?thesis
      proof (cases latest)
        case None
        have "found = (ty, data)" using request_finds_none q nd None by blast
        moreover have "wait_loop g w p timestamp secs ts (ty, data) last_time = Inr (Some (r, t'))"
          using Cons.prems(1) True q go nd None by simp
        ultimately show ?thesis using Cons.IH [of "(ty, data)" last_time seen] Cons.prems(2) by (auto intro: good_so_far_mono)
      next
        case (Some e)
        have "r = (ty, data, timestamp_of_data_retrieval e)" "t' = t"
          using Cons.prems(1) True q go nd Some by auto
        moreover have "found_at g w p timestamp t e \<and> data = Some (e_data e)"
          using request_finds q nd Some by blast
        ultimately show ?thesis using nd by (auto simp: good_so_far_def)
      qed
    qed
  qed
qed simp

lemma first_look_good:
  assumes "first_look g w p timestamp secs t ts = Inr (Some (r, t'))"
  shows "good_so_far g w p timestamp (set (t # ts)) r \<and> t' \<in> set ts \<and> (fst r = NoData \<longrightarrow> \<not> may_wait timestamp secs t')"
proof -
  obtain latest ty data where q: "request_data g w p timestamp t (NoData, None) = Inr (latest, (ty, data))"
    using assms by (auto simp: first_look_def split: sum.splits)
  let ?last = "case latest of None \<Rightarrow> Some 0 | Some e \<Rightarrow> timestamp_of_data_retrieval e"
  have l: "wait_loop g w p timestamp secs ts (ty, data) ?last = Inr (Some (r, t'))"
    using assms q by (simp add: first_look_def)
  have "good_so_far g w p timestamp {t} (ty, data, ?last)"
  proof (cases "ty = NoData")
    case False
    then obtain e where "latest = Some e" using q request_finds_none by (cases latest) blast+
    moreover from this have "found_at g w p timestamp t e \<and> data = Some (e_data e)"
      using q request_finds False by blast
    ultimately show ?thesis by (auto simp: good_so_far_def)
  qed (simp add: good_so_far_def)
  from wait_loop_good [OF l, of "{t}"] this show ?thesis by (auto intro: good_so_far_mono)
qed

lemma wait_loop_ends:
  assumes "\<exists>t \<in> set ts. \<not> may_wait timestamp secs t"
  shows "wait_loop g w p timestamp secs ts found last_time \<noteq> Inr None"
  using assms
proof (induction ts arbitrary: found last_time)
  case (Cons t ts)
  then show ?case by (auto split: sum.splits option.splits prod.splits)
qed simp

section \<open>Properties\<close>

text \<open>
  C24. What a worker waits for and gets is fresh: when the waiting ends with data, the worker looked at a moment at which the
  location reported was proper (and, for a map, in the range allowed), the data is what was stored for this worker and this
  message at that moment, it was retrieved from the device after the time asked for, the time received is that time, and both
  counters of failures are zero again.
\<close>

theorem wait_returns_fresh:
  assumes "wait_for_data g from_time p timeout t ts w = (Inr (Some (ty, data, received)), w', t')" "ty \<noteq> NoData"
    and "py_int from_time > 0"
  shows "(\<exists>t1 \<in> set (t # ts). \<exists>e r. data_checked g w p t1 = Inr True \<and>
      map_of (latest_data_holder (entry_at PlayerData_init (sc_origin w) (tk_data t1))) (show_int (proto_value p)) = Some e \<and>
      data = Some (e_data e) \<and> timestamp_of_data_retrieval e = Some r \<and> received = Some r \<and> py_int from_time < r) \<and>
    (p = GMO_PROTO \<or> p = ENCOUNTER_PROTO \<longrightarrow> restart_count w' = 0 \<and> reboot_count w' = 0)"
proof -
  let ?ptype = "map_option stats_position (routemanager_get_position_type (sc_area w) (sc_origin w) (tk_mm t))"
  obtain secs t2 where f: "first_look g w p (py_int from_time) secs t ts = Inr (Some ((ty, data, received), t2))"
    and a: "act_bind (after_wait g p (py_int from_time) ?ptype (ty, data, received)) (\<lambda>_. finish (Some (ty, data, received))) (w, t2)
      = (Inr (Some (ty, data, received)), w', t')"
    using assms(1)
    by (auto simp: wait_for_data_def act_bind_Inr finish_def Let_def split: sum.splits option.splits)
  have counters: "p = GMO_PROTO \<or> p = ENCOUNTER_PROTO \<longrightarrow> restart_count w' = 0 \<and> reboot_count w' = 0"
    using a assms(2)
    by (auto simp: after_wait_def reset_restart_count_def act_bind_Inr finish_def change_def report_def Let_def
        split: option.splits if_splits)
  from first_look_good [OF f] assms(2,3) counters show ?thesis
    by (auto simp: good_so_far_def found_at_def)
qed

text \<open>
  C25. Waiting comes to an end: with a time-out that is not zero, once the worker looks at a moment whose full second lies
  after the time asked for plus the time-out, or after it was told to stop, it is no longer waiting.
\<close>

theorem waiting_ends:
  assumes "wait_timeout (tk_mm t) w timeout = Inr secs" "secs \<noteq> 0" "t1 \<in> set ts"
    and "tk_stop t1 \<or> py_int (of_int (py_int from_time) + secs) < py_int (tk_now t1)"
  shows "fst (wait_for_data g from_time p timeout t ts w) \<noteq> Inr None"
proof -
  have "\<exists>t \<in> set ts. \<not> may_wait (py_int from_time) secs t"
    using assms(2-4) by (auto simp: may_wait_def intro!: bexI [of _ t1])
  then have "first_look g w p (py_int from_time) secs t ts \<noteq> Inr None"
    using wait_loop_ends [of ts] by (auto simp: first_look_def split: sum.splits)
  with assms(1) show ?thesis
    by (auto simp: wait_for_data_def Let_def act_bind_def finish_def split: sum.splits option.splits prod.splits)
qed

text \<open>A worker whose settings allow \<open>R\<close> restarts and \<open>B\<close> reboots and whose area has a manager.\<close>

definition thresholds :: "nat \<Rightarrow> nat \<Rightarrow> scan_state \<times> tick \<Rightarrow> bool" where
  "thresholds R B s \<longleftrightarrow>
     num_setting (tk_mm (snd s)) (sc_origin (fst s)) RESTART_THRESH 5 = Inr (of_nat R) \<and>
     num_setting (tk_mm (snd s)) (sc_origin (fst s)) REBOOT_THRESH 3 = Inr (of_nat B) \<and>
     flag_setting (tk_mm (snd s)) (sc_origin (fst s)) REBOOT True \<and>
     routemanager_get_mode (sc_area (fst s)) (tk_mm (snd s)) \<noteq> None"

definition game_obeys :: "game_env \<Rightarrow> bool" where
  "game_obeys g \<longleftrightarrow> g_stops g = Inr True \<and> (\<exists>b. g_launch g = Inr b) \<and> g_injected g \<and> (\<exists>b. g_reboots g = Inr b)"

definition counters :: "int \<Rightarrow> int \<Rightarrow> scan_state \<times> tick \<Rightarrow> bool" where
  "counters restarts reboots s \<longleftrightarrow> restart_count (fst s) = restarts \<and> reboot_count (fst s) = reboots"

lemmas action_defs = act_bind_def finish_def change_def give_def raise_error_def read_flag_def read_number_def

lemma report_keeps:
  assumes "thresholds R B s" "counters i j s"
  shows "\<exists>s'. report g ok at_time ptype d ttype s = (Inr (), s') \<and> thresholds R B s' \<and> counters i j s'"
  using assms by (auto simp: report_def thresholds_def counters_def Let_def)

lemma report_walker_keeps:
  assumes "thresholds R B s" "counters i j s"
  shows "\<exists>s'. report_walker g ptype ttype s = (Inr (), s') \<and> thresholds R B s' \<and> counters i j s'"
  using assms report_keeps [OF assms] by (simp add: report_walker_def del: split_paired_Ex)

lemma set_injection_keeps:
  "thresholds R B s \<Longrightarrow> counters i j s \<Longrightarrow>
   \<exists>s'. set_injection_status b s = (Inr (), s') \<and> thresholds R B s' \<and> counters i j s'"
  by (simp add: set_injection_status_def thresholds_def counters_def)

lemma sleeping_keeps:
  assumes "thresholds R B s" "counters i j s"
  shows "\<exists>s'. set_sleeping g d s = (Inr (), s') \<and> thresholds R B s' \<and> counters i j s'"
proof -
  let ?a = "sc_area (fst s)"
  obtain rm where rm: "fetch_routemanager ?a (tk_mm (snd s)) = Some rm"
    using assms(1) by (auto simp: thresholds_def routemanager_get_mode_def ask_routemanager_def)
  let ?rm = "set_worker_sleeping (g_rm g) (sc_origin (fst s)) d rm"
  have "set_sleeping g d s = (Inr (), fst s, (snd s)\<lparr>tk_mm := put_routemanager ?a ?rm (tk_mm (snd s))\<rparr>)"
    using rm by (simp add: set_sleeping_def routemanager_set_worker_sleeping_def on_routemanager_def)
  moreover have "routemanager_get_mode ?a (put_routemanager ?a ?rm (tk_mm (snd s))) \<noteq> None"
    by (simp add: routemanager_get_mode_def ask_routemanager_def fetch_routemanager_def put_routemanager_def dict_simps)
  moreover have "num_setting (put_routemanager ?a ?rm mm) o' k x = num_setting mm o' k x"
    "flag_setting (put_routemanager ?a ?rm mm) o' k b = flag_setting mm o' k b" for mm o' k x b
    by (simp_all add: num_setting_def flag_setting_def get_devicesetting_value_of_device_def put_routemanager_def)
  ultimately show ?thesis using assms by (simp add: thresholds_def counters_def)
qed

lemma stop_start_keep:
  assumes "thresholds R B s" "counters i j s" "game_obeys g"
  shows "\<exists>s'. stop_game g s = (Inr True, s') \<and> thresholds R B s' \<and> counters i j s'"
    and "\<exists>b. start_game g s = (Inr b, s)"
  using set_injection_keeps [OF assms(1,2), of False] assms(3)
  by (auto simp: stop_game_def start_game_def game_obeys_def act_bind_def finish_def give_def)

lemma restart_game_keeps:
  assumes "thresholds R B s" "counters i j s" "game_obeys g"
  shows "\<exists>b s'. restart_game g s = (Inr b, s') \<and> thresholds R B s' \<and> counters 0 j s'"
proof -
  obtain s1 where s1: "set_sleeping g 240 s = (Inr (), s1)" "thresholds R B s1" "counters i j s1"
    using sleeping_keeps [OF assms(1,2)] by blast
  obtain s2 where s2: "stop_game g s1 = (Inr True, s2)" "thresholds R B s2" "counters i j s2"
    using stop_start_keep(1) [OF s1(2,3) assms(3)] by blast
  define s3 where "s3 = ((fst s2)\<lparr>restart_count := 0\<rparr>, snd s2)"
  have s3: "thresholds R B s3" "counters 0 j s3" using s2 by (simp_all add: s3_def thresholds_def counters_def)
  obtain s4 where s4: "report_walker g PT_RESTART sc_transport s3 = (Inr (), s4)" "thresholds R B s4" "counters 0 j s4"
    using report_walker_keeps [OF s3] by blast
  obtain b where "start_game g s4 = (Inr b, s4)" using stop_start_keep(2) [OF s4(2,3) assms(3)] by blast
  then have "restart_game g s = (Inr b, s4)"
    using s1(1) s2(1) s4(1) by (simp add: restart_game_def act_bind_def change_def s3_def)
  with s4 show ?thesis by blast
qed

lemma reboot_resets:
  assumes "thresholds R B s" "counters i j s" "game_obeys g"
  shows "\<exists>b s'. reboot_device g s = (Inr b, s') \<and> counters 0 0 s'"
proof -
  obtain b where b: "g_reboots g = Inr b" using assms(3) by (auto simp: game_obeys_def)
  obtain s1 where "report_walker g PT_REBOOT (\<lambda>_. TELEPORT) s = (Inr (), s1)"
    using report_walker_keeps [OF assms(1,2)] by blast
  with assms(1) b show ?thesis
    by (simp add: reboot_device_def action_defs try_removed_def thresholds_def counters_def)
qed

text \<open>One time-out, from counters within the bounds.\<close>

lemma timeout_step:
  assumes "thresholds R B s" "counters (int i) (int j) s" "game_obeys g" "i \<le> R" "j \<le> B"
  shows "if i = R \<and> j = B
    then \<exists>s'. handle_proto_timeout g at_time ptype s = (Inl InternalStopWorker, s') \<and> counters 0 0 s'
    else \<exists>s'. handle_proto_timeout g at_time ptype s = (Inr (), s') \<and> thresholds R B s' \<and>
      (if i = R then counters 0 (int (Suc j)) s' else counters (int (Suc i)) (int j) s')"
proof -
  obtain s1 where s1: "report g False at_time ptype 0 sc_transport s = (Inr (), s1)" "thresholds R B s1" "counters (int i) (int j) s1"
    using report_keeps [OF assms(1,2)] by blast
  define s2 where "s2 = ((fst s1)\<lparr>restart_count := restart_count (fst s1) + 1\<rparr>, snd s1)"
  have s2: "thresholds R B s2" "counters (int (Suc i)) (int j) s2" using s1 by (simp_all add: s2_def thresholds_def counters_def)
  have h: "handle_proto_timeout g at_time ptype s =
      (if i = R then too_many_timeouts g (of_nat B) s2 else (Inr (), s2))"
    using s1(1) s2 assms(4) by (auto simp: handle_proto_timeout_def action_defs thresholds_def counters_def s2_def)
  define s3 where "s3 = ((fst s2)\<lparr>reboot_count := reboot_count (fst s2) + 1\<rparr>, snd s2)"
  have s3: "thresholds R B s3" "counters (int (Suc i)) (int (Suc j)) s3"
    using s2 by (simp_all add: s3_def thresholds_def counters_def)
  have t: "too_many_timeouts g (of_nat B) s2 =
      (if j = B then act_bind (reboot_device g) (\<lambda>_. raise_error InternalStopWorker) s3
       else act_bind (restart_game g) (\<lambda>_. finish ()) ((fst s3)\<lparr>restart_count := 0, maintenance_early_detection := True\<rparr>, snd s3))"
    using s3 assms(5) by (auto simp: too_many_timeouts_def act_bind_def change_def read_flag_def s3_def thresholds_def counters_def)
  have s4: "thresholds R B ((fst s3)\<lparr>restart_count := 0, maintenance_early_detection := True\<rparr>, snd s3)"
    "counters 0 (int (Suc j)) ((fst s3)\<lparr>restart_count := 0, maintenance_early_detection := True\<rparr>, snd s3)"
    using s3 by (simp_all add: thresholds_def counters_def)
  obtain b s5 where s5: "reboot_device g s3 = (Inr b, s5)" "counters 0 0 s5" using reboot_resets [OF s3 assms(3)] by blast
  obtain c s6 where s6: "restart_game g ((fst s3)\<lparr>restart_count := 0, maintenance_early_detection := True\<rparr>, snd s3) = (Inr c, s6)"
    "thresholds R B s6" "counters 0 (int (Suc j)) s6" using restart_game_keeps [OF s4 assms(3)] by blast
  consider "i \<noteq> R" | "i = R" "j = B" | "i = R" "j \<noteq> B" by blast
  then show ?thesis
  proof cases
    case 1
    with h s2 show ?thesis by (simp del: split_paired_Ex)
  next
    case 2
    with h t s5 show ?thesis by (simp add: act_bind_def raise_error_def del: split_paired_Ex)
  next
    case 3
    with h t s6 show ?thesis by (simp add: act_bind_def finish_def del: split_paired_Ex)
  qed
qed

text \<open>A row of time-outs.\<close>

fun timeouts :: "game_env \<Rightarrow> position_type option \<Rightarrow> int list \<Rightarrow> unit action" where
  "timeouts g ptype [] s = (Inr (), s)"
| "timeouts g ptype (at_time # rest) s = act_bind (handle_proto_timeout g at_time ptype) (\<lambda>_. timeouts g ptype rest) s"

lemma timeouts_count:
  assumes "game_obeys g" "thresholds R B s" "counters (int (n mod Suc R)) (int (n div Suc R)) s" "n + length xs < Suc R * Suc B"
  shows "\<exists>s'. timeouts g ptype xs s = (Inr (), s') \<and> thresholds R B s' \<and>
    counters (int ((n + length xs) mod Suc R)) (int ((n + length xs) div Suc R)) s'"
  using assms(2-)
proof (induction xs arbitrary: s n)
  case (Cons x xs)
  let ?i = "n mod Suc R" and ?j = "n div Suc R"
  have lim: "?i \<le> R" "?j \<le> B"
    using Cons.prems(3) less_mult_imp_div_less [of n "Suc B" "Suc R"] by (simp_all add: mult.commute less_Suc_eq_le)
  have not_last: "\<not> (?i = R \<and> ?j = B)"
  proof
    assume "?i = R \<and> ?j = B"
    then have "n = Suc R * B + R" using div_mult_mod_eq [of n "Suc R"] by (simp add: mult.commute)
    with Cons.prems(3) show False by simp
  qed
  have next': "Suc n mod Suc R = (if ?i = R then 0 else Suc ?i)" "Suc n div Suc R = (if ?i = R then Suc ?j else ?j)"
    by (simp_all add: mod_Suc div_Suc)
  obtain s1 where s1: "handle_proto_timeout g x ptype s = (Inr (), s1)" "thresholds R B s1"
    "counters (int (Suc n mod Suc R)) (int (Suc n div Suc R)) s1"
    using timeout_step [OF Cons.prems(1,2) assms(1) lim, of x ptype] not_last next' by (auto split: if_splits)
  from Cons.IH [OF s1(2,3)] Cons.prems(3) s1(1) show ?case by (simp add: act_bind_def)
qed simp

lemma timeouts_append:
  "timeouts g ptype (xs @ ys) s = act_bind (timeouts g ptype xs) (\<lambda>_. timeouts g ptype ys) s"
  by (induction xs arbitrary: s) (auto simp: act_bind_def split: sum.splits prod.splits)


text \<open>The time to look from lies in the walk, and at most ten seconds before its end.\<close>

lemma walk_timestamp_bounds:
  assumes "before_walk \<le> after_walk"
  shows "\<lfloor>before_walk\<rfloor> \<le> walk_timestamp before_walk after_walk \<and> walk_timestamp before_walk after_walk \<le> \<lfloor>after_walk\<rfloor> \<and>
    \<lfloor>after_walk\<rfloor> - walk_timestamp before_walk after_walk \<le> 10"
  using floor_mono [OF assms] by (auto simp: walk_timestamp_def Let_def SECONDS_BEFORE_ARRIVAL_OF_WALK_BUFFER_def)

text \<open>The encounters already made are kept under strings and looked up with a number: none is ever found.\<close>

lemma never_already_encountered: "\<not> already_encountered i ids"
  by (auto simp: already_encountered_def)

text \<open>An encounter that expires at or after this moment is kept, one that expires earlier is dropped at once.\<close>

lemma encounters_unexpired:
  assumes "update_injection_settings g s = (r, s')" "fst (get_ids_iv_and_scanmode (fst s) (tk_mm (snd s))) \<noteq> []"
  shows "r = Inr () \<and> (\<forall>(k, despawn) \<in> set (encounter_ids (fst s')). tk_now (snd s) \<le> of_int despawn)"
  using assms
  by (auto simp: update_injection_settings_def refresh_encounters_def tell_def act_bind_def merge_encounters_def Let_def
      split: prod.splits)

section \<open>The theorems on concrete inputs\<close>

definition demo_scan :: scan_state where
  "demo_scan = \<lparr>sc_origin = ''atv'', sc_area = 1, sc_class = WorkerMonMitmStrategy, sc_has_walker = True,
     sc_current = \<lparr>lat = 52, lng = 13\<rparr>, sc_last = \<lparr>lat = 52, lng = 13\<rparr>, sc_transport = TELEPORT, restart_count = 0, reboot_count = 0,
     login_error_count = 0, same_screen_count = 0, maintenance_early_detection = False, received_data_at = None,
     encounter_ids = [], latest_encounter_update = 0,
     sc_stats = init_stats_holders \<lparr>game_stats_raw = True, game_stats_mon_seen = True\<rparr>\<rparr>"

definition demo_game :: game_env where
  "demo_game = \<lparr>g_stats_args = \<lparr>game_stats_raw = True, game_stats_mon_seen = True\<rparr>, g_rm = walker_rm_env, g_stops = Inr True,
     g_launch = Inr True, g_injected = True, g_reboots = Inr True, g_max_distance = 100, g_cached = (\<lambda>_ _ _. False), g_init_forts = True,
     g_encountered = (\<lambda>t. (t, []))\<rparr>"

definition demo_moving_mm :: mapping_manager where
  "demo_moving_mm = demo_mm\<lparr>routemanagers := map (map_prod id (\<lambda>rm. rm\<lparr>rm_pool := [(''atv'', 0)]\<rparr>)) (routemanagers demo_mm)\<rparr>"

definition demo_tick :: "real \<Rightarrow> tick" where
  "demo_tick t = \<lparr>tk_now = t, tk_stop = False,
     tk_data = [(''atv'', (PlayerData_init ''atv'')\<lparr>latest_data_holder := [(''102'', mk_entry None (Some 990) (Some 990) (JDict []))],
       last_known_location := Some \<lparr>lat = 52, lng = 13\<rparr>\<rparr>)],
     tk_mm = demo_moving_mm\<rparr>"

lemma demo_thresholds: "thresholds 5 3 (demo_scan, demo_tick 1000)"
  by code_simp

lemma demo_obeys: "game_obeys demo_game"
  by (simp add: game_obeys_def demo_game_def exI [of _ True])


lemma demo_timeout: "wait_timeout (tk_mm (demo_tick t)) demo_scan None = Inr 30"
proof -
  have "num_setting demo_moving_mm ''atv'' MITM_WAIT_TIMEOUT FALLBACK_MITM_WAIT_TIMEOUT = Inr 30"
    by code_simp
  then show ?thesis by (simp add: wait_timeout_def demo_tick_def demo_scan_def)
qed

lemma waiting_ends_witness:
  "fst (wait_for_data demo_game 980 GMO_PROTO None (demo_tick 1000) [demo_tick 1012] demo_scan) \<noteq> Inr None"
  by (rule waiting_ends [OF demo_timeout, where ?t1.0 = "demo_tick 1012" and from_time = 980]) (auto simp: demo_tick_def py_int_def)

lemma demo_running: "\<not> raise_stop_worker_if_applicable demo_scan (demo_tick t)"
proof -
  have "routemanager_present 1 demo_moving_mm" "routemanager_get_position_type 1 ''atv'' demo_moving_mm \<noteq> None" by code_simp+
  then show ?thesis by (simp add: raise_stop_worker_if_applicable_def demo_scan_def demo_tick_def)
qed

lemma demo_wait: "\<exists>w' t'. wait_for_data demo_game 980 ENCOUNTER_PROTO None (demo_tick 1000) [demo_tick 1000] demo_scan =
  (Inr (Some (MON, Some (JDict []), Some 990)), w', t')"
proof -
  have n: "show_nat 102 = ''102''" by code_simp
  have q: "request_data demo_game demo_scan ENCOUNTER_PROTO 980 (demo_tick 1000) x =
      Inr (Some (mk_entry None (Some 990) (Some 990) (JDict [])), (MON, Some (JDict [])))" for x
    by (simp add: request_data_def data_checked_def handler_get_last_known_location_def handler_get_def entry_at_def
        demo_scan_def demo_tick_def proper_location_def handler_request_latest_def get_specific_latest_data_def
        holder_get_latest_def proto_value_def show_int_def n data_content_defs check_entry_def mk_entry_def)
  have "may_wait 980 30 (demo_tick 1000)" by (simp add: may_wait_def demo_tick_def py_int_def)
  then have f: "first_look demo_game demo_scan ENCOUNTER_PROTO 980 30 (demo_tick 1000) [demo_tick 1000] =
      Inr (Some ((MON, Some (JDict []), Some 990), demo_tick 1000))"
    using demo_running [of 1000] by (simp add: first_look_def q mk_entry_def)
  have "routemanager_get_mode 1 demo_moving_mm \<noteq> None" by code_simp
  then have m: "routemanager_get_mode (sc_area demo_scan) (tk_mm (demo_tick 1000)) \<noteq> None"
    by (simp add: demo_scan_def demo_tick_def)
  show ?thesis
    using m by (auto simp: wait_for_data_def demo_timeout py_int_def f after_wait_def reset_restart_count_def act_bind_def finish_def
        change_def report_def Let_def split: option.splits)
qed

lemma wait_returns_fresh_witness:
  "\<exists>w' t'. wait_for_data demo_game 980 ENCOUNTER_PROTO None (demo_tick 1000) [demo_tick 1000] demo_scan =
     (Inr (Some (MON, Some (JDict []), Some 990)), w', t') \<and> restart_count w' = 0 \<and> reboot_count w' = 0"
proof -
  obtain w' t' where e: "wait_for_data demo_game 980 ENCOUNTER_PROTO None (demo_tick 1000) [demo_tick 1000] demo_scan =
     (Inr (Some (MON, Some (JDict []), Some 990)), w', t')" using demo_wait by blast
  from wait_returns_fresh [OF e] e show ?thesis by (simp add: py_int_def)
qed

end
