(* ===== verification/Wizard.thy ===== *)
theory Wizard
  imports ApkStorage
begin

text \<open>
  The wizard of \<open>mad_apk/wizard.py\<close>: it looks for newer packages, downloads them and imports them into a storage, whichever it
  is; \<open>MadApkAutosearchHelper\<close> is the table of what it found. APKMirror, the HTTP requests, the parser of packages and
  the zip format are arguments. A task that downloads runs to its end before the next one.
\<close>

section \<open>Importing a package\<close>

definition APK_MIME :: string where "APK_MIME = ''application/vnd.android.package-archive''"

record zip_item =
  it_name :: string
  it_manifest :: "(string, string) dict result"
  it_data :: bytes

record package_tools =
  apk_info :: "bytes \<Rightarrow> (string option \<times> string option) result"
  unzip_items :: "bytes \<Rightarrow> zip_item list result"
  zip_files :: "(string \<times> bytes) list \<Rightarrow> bytes"

text \<open>What \<open>normalize_package\<close> has found so far: version, name, architecture and the files kept.\<close>

record normalized =
  nz_version :: "string option"
  nz_name :: "string option"
  nz_arch :: "apk_arch option"
  nz_files :: "(string \<times> bytes) list"

definition after_last_dot :: "string \<Rightarrow> string option" where
  "after_last_dot s = (if CHR ''.'' \<in> set s then Some (rev (takeWhile (\<lambda>c. c \<noteq> CHR ''.'') (rev s))) else None)"

definition split_arch :: "string \<Rightarrow> apk_arch option" where
  "split_arch s = (case after_last_dot s of
       None \<Rightarrow> None
     | Some x \<Rightarrow> (case lookup_arch_enum (IsStr (map (\<lambda>c. if c = CHR ''-'' then CHR ''_'' else c) x)) of Inl e \<Rightarrow> None | Inr a \<Rightarrow> Some a))"

definition read_manifest :: "(string, string) dict \<Rightarrow> normalized \<Rightarrow> normalized" where
  "read_manifest m n =
     (case map_of m ''@android:versionName'' of
        None \<Rightarrow> n
      | Some v \<Rightarrow> (let n1 = n\<lparr>nz_version := Some v\<rparr>
                   in case map_of m ''@package'' of None \<Rightarrow> n1 | Some p \<Rightarrow> n1\<lparr>nz_name := Some p\<rparr>))"

definition keep_file :: "string \<Rightarrow> bytes \<Rightarrow> normalized \<Rightarrow> normalized" where
  "keep_file f d n = n\<lparr>nz_files := nz_files n @ [(if ends_with ''apk'' f then f else f @ ''.apk'', d)]\<rparr>"

definition normalize_item :: "zip_item \<Rightarrow> normalized \<Rightarrow> normalized result" where
  "normalize_item it n =
     (case it_manifest it of
        Inl e \<Rightarrow> if e = BadZipFile then Inr n else Inl e
      | Inr m \<Rightarrow>
          (let n1 = read_manifest m n
           in case map_of m ''@split'' of
                None \<Rightarrow> Inr (keep_file (it_name it) (it_data it) n1)
              | Some f \<Rightarrow>
                  if ends_with ''dpi'' f then Inr n1
                  else Inr (keep_file f (it_data it)
                    (case split_arch f of None \<Rightarrow> n1 | Some a \<Rightarrow> n1\<lparr>nz_arch := Some a\<rparr>))))"

fun normalize_items :: "zip_item list \<Rightarrow> normalized \<Rightarrow> normalized result" where
  "normalize_items [] n = Inr n"
| "normalize_items (it # its) n = res_bind (normalize_item it n) (normalize_items its)"

definition normalize_package :: "package_tools \<Rightarrow> bytes \<Rightarrow> (normalized \<times> bytes) result" where
  "normalize_package tools data =
     res_bind (unzip_items tools data) (\<lambda>its.
     res_bind (normalize_items its \<lparr>nz_version = None, nz_name = None, nz_arch = None, nz_files = []\<rparr>) (\<lambda>n.
       if nz_version n \<in> {None, Some []} then Inl InvalidFile else Inr (n, zip_files tools (nz_files n))))"

text \<open>What is read from the upload: version, name and architecture, media type and bytes.\<close>

definition read_upload :: "package_tools \<Rightarrow> string \<Rightarrow> bytes \<Rightarrow>
    (string option \<times> string option \<times> apk_arch option \<times> string \<times> bytes) result" where
  "read_upload tools mime data =
     (if mime = APK_MIME
      then res_bind (apk_info tools data) (\<lambda>(ver, name). Inr (ver, name, None, mime, data))
      else res_bind (normalize_package tools data) (\<lambda>(n, d). Inr (nz_version n, nz_name n, nz_arch n, ''application/zip'', d)))"

text \<open>Whether it is the package it is said to be; \<open>noarch\<close> is 0 and so no architecture.\<close>

definition check_upload :: "apk_type \<Rightarrow> apk_arch \<Rightarrow> string option \<Rightarrow> apk_arch option \<Rightarrow> unit result" where
  "check_upload t a name found_arch =
     (case (case name of None \<Rightarrow> Inl ValueError | Some n \<Rightarrow> apk_package n) of
        Inl e \<Rightarrow> Inl InvalidFile
      | Inr pkg \<Rightarrow>
          if pkg \<noteq> t then Inl WizardError
          else (case found_arch of
              None \<Rightarrow> Inr ()
            | Some fa \<Rightarrow> if fa \<noteq> noarch \<and> fa \<noteq> a \<and> a \<noteq> noarch then Inl WizardError else Inr ()))"

type_synonym 's saver = "apk_type \<Rightarrow> apk_arch \<Rightarrow> string \<Rightarrow> string \<Rightarrow> bytes \<Rightarrow> 's \<Rightarrow> bool \<times> 's"

definition given_or_found :: "string option \<Rightarrow> string \<Rightarrow> string" where
  "given_or_found given found = (case given of Some v \<Rightarrow> if v \<noteq> [] then v else found | None \<Rightarrow> found)"

definition import_configured :: "'s saver \<Rightarrow> package_tools \<Rightarrow> apk_type \<Rightarrow> apk_arch \<Rightarrow> string \<Rightarrow> string option \<Rightarrow> bytes
    \<Rightarrow> ('s, py_error, bool) act" where
  "import_configured save tools t a mime given data =
     act_bind (give (read_upload tools mime data)) (\<lambda>(ver, name, fa, m, d).
       case ver of
         None \<Rightarrow> finish False
       | Some v \<Rightarrow>
           if v = [] then finish False
           else act_bind (give (check_upload t a name fa)) (\<lambda>_.
                act_bind (act_do (\<lambda>s. snd (save t a (given_or_found given v) m d s))) (\<lambda>_. finish True)))"

section \<open>What was found\<close>

record autosearch =
  as_version :: "string option"
  as_url :: "string option"
  as_status :: int
  as_checked :: real

type_synonym search_table = "(apk_type \<times> apk_arch, autosearch) dict"

definition autosearch_get :: "apk_type \<Rightarrow> apk_arch \<Rightarrow> search_table \<Rightarrow> autosearch option" where
  "autosearch_get t a d = map_of d (t, a)"

definition autosearch_update :: "real \<Rightarrow> apk_type \<Rightarrow> apk_arch \<Rightarrow> (autosearch \<Rightarrow> autosearch) \<Rightarrow> search_table \<Rightarrow> search_table" where
  "autosearch_update clock t a f d =
     (let e = (case map_of d (t, a) of Some e \<Rightarrow> e | None \<Rightarrow> \<lparr>as_version = None, as_url = None, as_status = 0, as_checked = clock\<rparr>)
      in AList.update (t, a) (f (e\<lparr>as_checked := clock\<rparr>)) d)"

text \<open>The clause on the architecture is built and dropped.\<close>

definition autosearch_delete :: "apk_type \<Rightarrow> apk_arch option \<Rightarrow> search_table \<Rightarrow> search_table" where
  "autosearch_delete t a d = filter (\<lambda>((u, _), _). u \<noteq> t) d"

section \<open>State and surroundings\<close>

record variant =
  va_type :: string
  va_code :: int
  va_url :: "string option"

type_synonym available = "(string, (string, variant list) dict) dict"

datatype search_answer = NothingMatches | SearchFails | Matches available

datatype head_answer = HeadFails | HeadLength "int option"

record wizard_env =
  wz_clock :: real
  wz_versions :: version_sources
  wz_token :: "string option"
  wz_search_match :: "string list \<Rightarrow> search_answer"
  wz_url_of :: "variant \<Rightarrow> string"
  wz_download :: "string option \<Rightarrow> bytes result"
  wz_get :: "nat \<Rightarrow> string option \<Rightarrow> (int \<times> bytes) result"
  wz_head :: "string \<Rightarrow> head_answer"
  wz_tools :: package_tools

record 's store_api =
  api_save :: "'s saver"
  api_version :: "apk_type \<Rightarrow> apk_arch \<Rightarrow> 's \<Rightarrow> string option result \<times> 's"
  api_info :: "apk_type \<Rightarrow> 's \<Rightarrow> mad_packages option \<times> 's"

definition fs_api :: "fs_storage store_api" where
  "fs_api = \<lparr>api_save = fs_save, api_version = fs_get_current_version, api_info = fs_get_current_package_info\<rparr>"

definition db_api :: "db_storage store_api" where
  "db_api = \<lparr>api_save = db_save_file, api_version = (\<lambda>t a s. (Inr (db_get_current_version t a s), s)),
     api_info = (\<lambda>t s. (db_get_current_package_info t s, s))\<rparr>"

record 's wizard =
  wz_store :: 's
  wz_found :: search_table

definition on_store :: "('s, 'e, 'a) act \<Rightarrow> ('s wizard, 'e, 'a) act" where
  "on_store f st = (case f (wz_store st) of (r, s') \<Rightarrow> (r, st\<lparr>wz_store := s'\<rparr>))"

definition on_found :: "(search_table \<Rightarrow> search_table) \<Rightarrow> ('s wizard, 'e, unit) act" where
  "on_found f = act_do (\<lambda>st. st\<lparr>wz_found := f (wz_found st)\<rparr>)"

definition get_latest :: "apk_type \<Rightarrow> apk_arch \<Rightarrow> ('s wizard, 'e, autosearch option) act" where
  "get_latest t a = act_read (\<lambda>st. autosearch_get t a (wz_found st))"

definition set_status :: "wizard_env \<Rightarrow> apk_type \<Rightarrow> apk_arch \<Rightarrow> int \<Rightarrow> ('s wizard, 'e, unit) act" where
  "set_status env t a x = on_found (autosearch_update (wz_clock env) t a (\<lambda>e. e\<lparr>as_status := x\<rparr>))"

text \<open>An empty version or address is not stored.\<close>

definition set_if :: "string option \<Rightarrow> string option \<Rightarrow> string option" where
  "set_if new old = (case new of Some x \<Rightarrow> if x \<noteq> [] then new else old | None \<Rightarrow> old)"

definition set_last_searched :: "wizard_env \<Rightarrow> apk_type \<Rightarrow> apk_arch \<Rightarrow> string option \<Rightarrow> string option \<Rightarrow> ('s wizard, 'e, unit) act" where
  "set_last_searched env t a v u =
     on_found (autosearch_update (wz_clock env) t a (\<lambda>e. e\<lparr>as_version := set_if v (as_version e), as_url := set_if u (as_url e)\<rparr>))"

text \<open>A version that cannot be read as the file is gone is no version.\<close>

definition current_version_of :: "'s store_api \<Rightarrow> apk_type \<Rightarrow> apk_arch \<Rightarrow> ('s wizard, py_error, string option) act" where
  "current_version_of api t a =
     act_catch (on_store (api_version api t a)) (\<lambda>e. if e = FileNotFoundError then Some (finish None) else None)"

definition truthy_str :: "string option \<Rightarrow> bool" where
  "truthy_str x \<longleftrightarrow> x \<noteq> None \<and> x \<noteq> Some []"

section \<open>Searching\<close>

definition get_available_versions :: "wizard_env \<Rightarrow> string list \<Rightarrow> available option result" where
  "get_available_versions env vs =
     (case wz_search_match env vs of NothingMatches \<Rightarrow> Inl SearchError | SearchFails \<Rightarrow> Inr None | Matches av \<Rightarrow> Inr (Some av))"

definition mirror_arch :: "apk_arch \<Rightarrow> string" where
  "mirror_arch a = (if a = armeabi_v7a then ''armeabi-v7a'' else ''arm64-v8a'')"

definition variants_of :: "apk_arch \<Rightarrow> available \<Rightarrow> string \<Rightarrow> variant list" where
  "variants_of a av v = (case map_of av v of None \<Rightarrow> [] | Some archs \<Rightarrow> (case map_of archs (mirror_arch a) of None \<Rightarrow> [] | Some vs \<Rightarrow> vs))"

fun choose_variant :: "apk_arch \<Rightarrow> available \<Rightarrow> string list \<Rightarrow> (variant \<times> string) option" where
  "choose_variant a av [] = None"
| "choose_variant a av (v # vs) =
     (case filter (\<lambda>x. va_type x = ''APK'') (variants_of a av v) of
        [] \<Rightarrow> choose_variant a av vs
      | x # _ \<Rightarrow> Some (x, v))"

definition lookup_version_code :: "wizard_env \<Rightarrow> string \<Rightarrow> apk_arch \<Rightarrow> int" where
  "lookup_version_code env v a =
     (case map_of (version_codes (wz_versions env)) (v @ ''_'' @ bits_of a) of None \<Rightarrow> 0 | Some c \<Rightarrow> c)"

definition offer_variant :: "wizard_env \<Rightarrow> apk_arch \<Rightarrow> variant \<Rightarrow> string \<Rightarrow> ('s wizard, py_error, variant \<times> string) act" where
  "offer_variant env a x v =
     (let x' = x\<lparr>va_url := Some (wz_url_of env x)\<rparr>
      in act_bind (set_last_searched env pogo a (Some v) (va_url x')) (\<lambda>_. finish (x', v)))"

definition find_latest_pogo :: "wizard_env \<Rightarrow> 's store_api \<Rightarrow> apk_arch \<Rightarrow> ('s wizard, py_error, variant \<times> string) act" where
  "find_latest_pogo env api a =
     act_bind (give (get_supported_pogo (wz_versions env) a)) (\<lambda>supported.
     act_bind (give (case map_of supported a of None \<Rightarrow> Inl KeyError | Some vs \<Rightarrow> Inr vs)) (\<lambda>vs.
     act_bind (give (get_available_versions env vs)) (\<lambda>av.
       case av of
         None \<Rightarrow> raise_error WizardError
       | Some av \<Rightarrow>
           (case choose_variant a av vs of
              None \<Rightarrow> raise_error WizardError
            | Some (x, v) \<Rightarrow>
                act_bind (current_version_of api pogo a) (\<lambda>cur.
                  if truthy_str cur \<and> \<not> va_code x > lookup_version_code env (the cur) a then finish (x, v)
                  else offer_variant env a x v)))))"

definition URL_RGC_APK :: string where
  "URL_RGC_APK = ''https://raw.githubusercontent.com/Map-A-Droid/MAD/async/APK/RemoteGpsController.apk''"

definition URL_PD_APK :: string where "URL_PD_APK = ''https://www.maddev.eu/apk/PogoDroid_async.apk''"

definition mirror_size :: "head_answer \<Rightarrow> int result" where
  "mirror_size h = (case h of HeadFails \<Rightarrow> Inr (- 1) | HeadLength None \<Rightarrow> Inl TypeError | HeadLength (Some n) \<Rightarrow> Inr n)"

definition installed_package :: "mad_packages option \<Rightarrow> apk_arch \<Rightarrow> mad_package option result" where
  "installed_package info a =
     (case lookup_package_infos info of
        Inl e \<Rightarrow> Inr None
      | Inr ps \<Rightarrow> if ps = [] then Inr None else (case map_of ps a of None \<Rightarrow> Inl KeyError | Some p \<Rightarrow> Inr (Some p)))"

definition find_latest_head :: "wizard_env \<Rightarrow> 's store_api \<Rightarrow> apk_type \<Rightarrow> apk_arch \<Rightarrow> string \<Rightarrow> ('s wizard, py_error, bool) act" where
  "find_latest_head env api t a url =
     act_bind (on_store (\<lambda>s. case api_info api t s of (i, s') \<Rightarrow> (Inr i, s'))) (\<lambda>info.
     act_bind (give (installed_package info a)) (\<lambda>installed.
     act_bind (give (mirror_size (wz_head env url))) (\<lambda>size.
     act_bind (set_last_searched env t a (Some (show_int size)) (Some url)) (\<lambda>_.
       finish (case installed of None \<Rightarrow> True | Some p \<Rightarrow> \<not> truthy_int (pkg_size p) \<or> pkg_size p \<noteq> Some size)))))"

definition find_latest_rgc :: "wizard_env \<Rightarrow> 's store_api \<Rightarrow> apk_arch \<Rightarrow> ('s wizard, py_error, bool) act" where
  "find_latest_rgc env api a = find_latest_head env api rgc a URL_RGC_APK"

definition find_latest_pd :: "wizard_env \<Rightarrow> 's store_api \<Rightarrow> apk_arch \<Rightarrow> ('s wizard, py_error, bool) act" where
  "find_latest_pd env api a = find_latest_head env api pd a URL_PD_APK"

definition unless_search_error :: "('s, py_error, unit) act \<Rightarrow> ('s, py_error, unit) act" where
  "unless_search_error f = act_catch f (\<lambda>e. if e = SearchError then Some (finish ()) else None)"

definition ignore :: "('s, 'e, 'a) act \<Rightarrow> ('s, 'e, unit) act" where
  "ignore f = act_bind f (\<lambda>_. finish ())"

definition apk_search :: "wizard_env \<Rightarrow> 's store_api \<Rightarrow> apk_type \<Rightarrow> apk_arch \<Rightarrow> ('s wizard, py_error, unit) act" where
  "apk_search env api t a = (case t of
       pogo \<Rightarrow> unless_search_error (ignore (find_latest_pogo env api a))
     | rgc \<Rightarrow> ignore (find_latest_rgc env api a)
     | pd \<Rightarrow> ignore (find_latest_pd env api a))"

definition apk_all_search :: "wizard_env \<Rightarrow> 's store_api \<Rightarrow> ('s wizard, py_error, unit) act" where
  "apk_all_search env api =
     act_bind (unless_search_error (act_bind (find_latest_pogo env api armeabi_v7a) (\<lambda>_. ignore (find_latest_pogo env api arm64_v8a)))) (\<lambda>_.
     act_bind (find_latest_rgc env api noarch) (\<lambda>_. ignore (find_latest_pd env api noarch)))"

section \<open>Downloading\<close>

definition MAX_RETRIES :: nat where "MAX_RETRIES = 3"

definition import_with :: "wizard_env \<Rightarrow> 's store_api \<Rightarrow> apk_type \<Rightarrow> apk_arch \<Rightarrow> string option \<Rightarrow> bytes \<Rightarrow> ('s wizard, py_error, bool) act" where
  "import_with env api t a given data = on_store (import_configured (api_save api) (wz_tools env) t a APK_MIME given data)"

definition swallow :: "('s, py_error, unit) act \<Rightarrow> ('s, py_error, unit) act" where
  "swallow f = act_catch f (\<lambda>_. Some (finish ()))"

definition download_pogo :: "wizard_env \<Rightarrow> 's store_api \<Rightarrow> apk_arch \<Rightarrow> ('s wizard, py_error, unit) act" where
  "download_pogo env api a =
     (if \<not> truthy_str (wz_token env) then raise_error NoMaddevApiTokenError
      else act_bind (act_catch (act_bind (find_latest_pogo env api a) (\<lambda>r. finish (Some r)))
          (\<lambda>e. if e = SearchError then Some (finish None) else None)) (\<lambda>r.
        case r of
          None \<Rightarrow> finish ()
        | Some (x, v) \<Rightarrow>
            act_bind (current_version_of api pogo a) (\<lambda>cur.
              if truthy_str cur \<and> cur = Some v then finish ()
              else act_bind (set_status env pogo a 1) (\<lambda>_.
                   act_bind (give (wz_download env (va_url x))) (\<lambda>data.
                   act_finally (swallow (ignore (import_with env api pogo a (Some v) data))) (set_status env pogo a 0))))))"

definition download_once :: "wizard_env \<Rightarrow> 's store_api \<Rightarrow> apk_type \<Rightarrow> apk_arch \<Rightarrow> string option \<Rightarrow> nat \<Rightarrow> ('s wizard, py_error, bool) act" where
  "download_once env api t a url i =
     act_bind (give (wz_get env i url)) (\<lambda>(code, body).
       if code = 200 \<and> body \<noteq> [] then import_with env api t a None body else finish False)"

fun download_loop :: "wizard_env \<Rightarrow> 's store_api \<Rightarrow> apk_type \<Rightarrow> apk_arch \<Rightarrow> string option \<Rightarrow> nat \<Rightarrow> ('s wizard, py_error, unit) act" where
  "download_loop env api t a url 0 = finish ()"
| "download_loop env api t a url (Suc left) =
     act_bind (download_once env api t a url (MAX_RETRIES - Suc left)) (\<lambda>ok.
       if ok then finish () else download_loop env api t a url left)"

definition latest_installed :: "string option \<Rightarrow> autosearch \<Rightarrow> bool" where
  "latest_installed cur e \<longleftrightarrow> truthy_str cur \<and> contains_str ''size'' (the cur) \<and> cur = as_version e"

definition download_simple :: "wizard_env \<Rightarrow> 's store_api \<Rightarrow> apk_type \<Rightarrow> apk_arch \<Rightarrow> ('s wizard, py_error, unit) act" where
  "download_simple env api t a =
     act_bind (get_latest t a) (\<lambda>latest0.
     act_bind (current_version_of api t a) (\<lambda>cur.
     act_bind (if latest0 = None \<or> as_url (the latest0) = None then act_bind (apk_search env api t a) (\<lambda>_. get_latest t a)
               else finish latest0) (\<lambda>latest.
       case latest of
         None \<Rightarrow> finish ()
       | Some e \<Rightarrow>
           if latest_installed cur e then finish ()
           else act_bind (set_status env t a 1) (\<lambda>_.
                act_finally (swallow (download_loop env api t a (as_url e) MAX_RETRIES)) (set_status env t a 0)))))"

definition download_rgc :: "wizard_env \<Rightarrow> 's store_api \<Rightarrow> apk_arch \<Rightarrow> ('s wizard, py_error, unit) act" where
  "download_rgc env api a = download_simple env api rgc a"

definition download_pd :: "wizard_env \<Rightarrow> 's store_api \<Rightarrow> apk_arch \<Rightarrow> ('s wizard, py_error, unit) act" where
  "download_pd env api a = download_simple env api pd a"

definition apk_download :: "wizard_env \<Rightarrow> 's store_api \<Rightarrow> apk_type \<Rightarrow> apk_arch \<Rightarrow> ('s wizard, py_error, unit) act" where
  "apk_download env api t a = (case t of
       pogo \<Rightarrow> act_bind (find_latest_pogo env api a) (\<lambda>_. download_pogo env api a)
     | rgc \<Rightarrow> act_bind (find_latest_rgc env api a) (\<lambda>newer. if newer then download_rgc env api a else finish ())
     | pd \<Rightarrow> act_bind (find_latest_pd env api a) (\<lambda>newer. if newer then download_pd env api a else finish ()))"

text \<open>The tasks that were collected run whatever becomes of the others; the first exception is the one that is raised.\<close>

fun run_tasks :: "('s, 'e, unit) act list \<Rightarrow> ('s, 'e, unit) act" where
  "run_tasks [] s = (Inr (), s)"
| "run_tasks (f # fs) s =
     (case f s of (r, s1) \<Rightarrow> (case run_tasks fs s1 of (r', s2) \<Rightarrow> (case r of Inl e \<Rightarrow> (Inl e, s2) | Inr u \<Rightarrow> (r', s2))))"

definition pogo_task :: "wizard_env \<Rightarrow> 's store_api \<Rightarrow> apk_arch \<Rightarrow> ('s wizard, py_error, ('s wizard, py_error, unit) act list) act" where
  "pogo_task env api a = act_catch (act_bind (find_latest_pogo env api a) (\<lambda>_. finish [download_pogo env api a]))
     (\<lambda>e. if e = InvalidDownload then Some (finish []) else None)"

text \<open>An exception of a search ends the call; the tasks begun before it still run.\<close>

fun start_tasks :: "('s, 'e, ('s, 'e, unit) act list) act list \<Rightarrow> ('s, 'e, unit) act list \<Rightarrow> ('s, 'e, unit) act" where
  "start_tasks [] tasks s = run_tasks tasks s"
| "start_tasks (f # fs) tasks s =
     (case f s of
        (Inl e, s1) \<Rightarrow> (Inl e, snd (run_tasks tasks s1))
      | (Inr new, s1) \<Rightarrow> start_tasks fs (tasks @ new) s1)"

definition apk_nonblocking_download :: "wizard_env \<Rightarrow> 's store_api \<Rightarrow> ('s wizard, py_error, unit) act" where
  "apk_nonblocking_download env api =
     start_tasks
       [pogo_task env api armeabi_v7a,
        pogo_task env api arm64_v8a,
        act_bind (find_latest_rgc env api noarch) (\<lambda>newer. finish (if newer then [download_rgc env api noarch] else [])),
        act_bind (find_latest_pd env api noarch) (\<lambda>newer. finish (if newer then [download_pd env api noarch] else []))] []"

section \<open>Importing into any storage\<close>

lemma apk_package_iff: "apk_package n = Inr t \<longleftrightarrow> n = package_value t"
  by (cases t) (auto simp: apk_package_def package_value_def)

lemma apk_package_value [simp]: "apk_package (package_value t) = Inr t"
  by (simp add: apk_package_iff)

lemma check_upload_ok:
  "check_upload t a name fa = Inr () \<longleftrightarrow> name = Some (package_value t) \<and> (fa \<in> {None, Some noarch, Some a} \<or> a = noarch)"
proof (cases "name = Some (package_value t)")
  case True
  then show ?thesis by (auto simp: check_upload_def split: option.splits)
next
  case False
  then show ?thesis by (auto simp: check_upload_def apk_package_iff split: option.splits sum.splits)
qed

text \<open>An import that returns \<open>True\<close> has checked the upload and saved it once; any other has saved nothing.\<close>

lemma import_cases:
  assumes "import_configured save tools t a mime given data s = (r, s')"
  shows "if r = Inr True
    then \<exists>ver fa m d. read_upload tools mime data = Inr (Some ver, Some (package_value t), fa, m, d) \<and>
      (fa \<in> {None, Some noarch, Some a} \<or> a = noarch) \<and> s' = snd (save t a (given_or_found given ver) m d s)
    else s' = s"
proof (cases "read_upload tools mime data")
  case (Inl e)
  with assms show ?thesis by (auto simp: import_configured_def act_bind_def give_def)
next
  case (Inr u)
  then obtain ver name fa m d where u: "read_upload tools mime data = Inr (ver, name, fa, m, d)" by (cases u) auto
  show ?thesis
  proof (cases "ver = None \<or> ver = Some [] \<or> check_upload t a name fa \<noteq> Inr ()")
    case True
    with assms u show ?thesis
      by (auto simp: import_configured_def act_bind_def give_def finish_def split: option.splits sum.splits if_splits)
  next
    case False
    then obtain v where v: "ver = Some v" "v \<noteq> []" and c: "check_upload t a name fa = Inr ()" by auto
    with assms u have "r = Inr True" "s' = snd (save t a (given_or_found given v) m d s)"
      by (simp_all add: import_configured_def act_bind_def give_def finish_def act_do_def)
    then show ?thesis using u v c by (simp add: check_upload_ok)
  qed
qed

context apk_store
begin

lemma import_stores:
  assumes "inv s" "import_configured save tools t a mime given data s = (r, s')"
  shows "if r = Inr True
    then \<exists>ver fa m d. read_upload tools mime data = Inr (Some ver, Some (package_value t), fa, m, d) \<and>
      (fa \<in> {None, Some noarch, Some a} \<or> a = noarch) \<and>
      (clean_version (given_or_found given ver) \<and> d \<noteq> [] \<longrightarrow> inv s' \<and> (\<forall>t' a'.
        current t' a' s' = (if t' = t \<and> a' = a then Some (given_or_found given ver) else current t' a' s) \<and>
        load t' a' s' = (if t' = t \<and> a' = a then Some d else load t' a' s)))
    else s' = s"
  using import_cases [OF assms(2)] assms(1) by (auto simp: save_ok current_save load_save)

end

section \<open>The state of a download\<close>

definition status_of :: "apk_type \<times> apk_arch \<Rightarrow> 's wizard \<Rightarrow> int option" where
  "status_of k st = map_option as_status (map_of (wz_found st) k)"

text \<open>No download is marked as running that was not.\<close>

definition marks_none :: "('s wizard, 'e, 'a) act \<Rightarrow> bool" where
  "marks_none f \<longleftrightarrow> (\<forall>st k. status_of k (snd (f st)) = Some 1 \<longrightarrow> status_of k st = Some 1)"

lemma marks_noneD: "marks_none f \<Longrightarrow> status_of k (snd (f st)) = Some 1 \<Longrightarrow> status_of k st = Some 1"
  unfolding marks_none_def by blast

lemma marks_noneI: "(\<And>st k. status_of k (snd (f st)) = Some 1 \<Longrightarrow> status_of k st = Some 1) \<Longrightarrow> marks_none f"
  unfolding marks_none_def by blast

lemma marks_none_bind:
  assumes f: "marks_none f" and k: "\<And>x. marks_none (k x)"
  shows "marks_none (act_bind f k)"
proof (rule marks_noneI)
  fix st j
  assume a: "status_of j (snd (act_bind f k st)) = Some 1"
  obtain r s1 where r: "f st = (r, s1)" by (cases "f st")
  have "status_of j s1 = Some 1"
    using a r marks_noneD [OF k] by (cases r) (auto simp: act_bind_def)
  then show "status_of j st = Some 1" using marks_noneD [OF f, of j st] r by simp
qed

lemma marks_none_catch:
  assumes f: "marks_none f" and h: "\<And>e k. h e = Some k \<Longrightarrow> marks_none k"
  shows "marks_none (act_catch f h)"
proof (rule marks_noneI)
  fix st j
  assume a: "status_of j (snd (act_catch f h st)) = Some 1"
  obtain r s1 where r: "f st = (r, s1)" by (cases "f st")
  have "status_of j s1 = Some 1"
    using a r marks_noneD [OF h] by (auto simp: act_catch_def split: sum.splits option.splits)
  then show "status_of j st = Some 1" using marks_noneD [OF f, of j st] r by simp
qed

lemma marks_none_simple [simp, intro]:
  "marks_none (finish x)" "marks_none (give r)" "marks_none (raise_error e)" "marks_none (on_store g)" "marks_none (get_latest t a)"
  by (auto simp: marks_none_def finish_def give_def raise_error_def on_store_def get_latest_def act_read_def status_of_def split_beta)

lemma marks_none_searched [simp, intro]: "marks_none (set_last_searched env t a v u)"
  by (auto simp: marks_none_def set_last_searched_def on_found_def act_do_def status_of_def autosearch_update_def Let_def dict_simps
      split: option.splits)

lemma marks_none_find:
  "marks_none (find_latest_pogo env api a)" "marks_none (find_latest_head env api t a url)" "marks_none (current_version_of api t a)"
proof -
  show c: "marks_none (current_version_of api t a)" for t
    unfolding current_version_of_def by (rule marks_none_catch) (auto split: if_splits)
  show "marks_none (find_latest_pogo env api a)"
    unfolding find_latest_pogo_def offer_variant_def Let_def
    by (intro marks_none_bind marks_none_simple) (auto intro!: marks_none_bind c split: option.split prod.split)
  show "marks_none (find_latest_head env api t a url)"
    unfolding find_latest_head_def by (auto intro!: marks_none_bind)
qed

lemma marks_none_search: "marks_none (apk_search env api t a)"
  by (cases t) (auto simp: apk_search_def unless_search_error_def ignore_def find_latest_rgc_def find_latest_pd_def
      intro!: marks_none_bind marks_none_catch marks_none_find split: if_splits)

definition mark_status :: "wizard_env \<Rightarrow> apk_type \<Rightarrow> apk_arch \<Rightarrow> int \<Rightarrow> 's wizard \<Rightarrow> 's wizard" where
  "mark_status env t a x st = st\<lparr>wz_found := autosearch_update (wz_clock env) t a (\<lambda>e. e\<lparr>as_status := x\<rparr>) (wz_found st)\<rparr>"

lemma set_status_mark: "set_status env t a x = act_do (mark_status env t a x)"
  by (simp add: set_status_def on_found_def mark_status_def [abs_def])

lemma status_mark: "status_of k (mark_status env t a x st) = (if k = (t, a) then Some x else status_of k st)"
  by (auto simp: mark_status_def status_of_def autosearch_update_def Let_def dict_simps)

text \<open>A download that marks its package and resets the mark in the end.\<close>

lemma marks_none_marked:
  assumes "marks_none f"
  shows "marks_none (act_bind (set_status env t a 1) (\<lambda>_. act_finally f (set_status env t a 0)))"
proof (rule marks_noneI)
  fix st k
  assume "status_of k (snd (act_bind (set_status env t a 1) (\<lambda>_. act_finally f (set_status env t a 0)) st)) = Some 1"
  then have "k \<noteq> (t, a)" "status_of k (snd (f (mark_status env t a 1 st))) = Some 1"
    by (auto simp: set_status_mark act_bind_def act_do_def act_finally_def status_mark split_beta split: if_splits)
  with marks_noneD [OF assms] have "status_of k (mark_status env t a 1 st) = Some 1" by blast
  with \<open>k \<noteq> (t, a)\<close> show "status_of k st = Some 1" by (simp add: status_mark)
qed

lemma marks_none_loop: "marks_none (download_loop env api t a url n)"
  by (induction n) (auto simp: download_once_def import_with_def intro!: marks_none_bind split: prod.split)

section \<open>Properties\<close>




text \<open>The choice of a version: the first in the order offered that has an APK for the architecture, and its first APK.\<close>

definition apks_of :: "apk_arch \<Rightarrow> available \<Rightarrow> string \<Rightarrow> variant list" where
  "apks_of a av v = filter (\<lambda>x. va_type x = ''APK'') (variants_of a av v)"

lemma choose_variant_Some:
  "choose_variant a av vs = Some (x, v) \<longleftrightarrow>
     (\<exists>pre post rest. vs = pre @ v # post \<and> (\<forall>u \<in> set pre. apks_of a av u = []) \<and> apks_of a av v = x # rest)"
proof (induction vs)
  case (Cons w vs)
  show ?case
  proof (cases "apks_of a av w")
    case Nil
    then have "choose_variant a av (w # vs) = choose_variant a av vs" by (simp add: apks_of_def)
    moreover have "(\<exists>pre post rest. w # vs = pre @ v # post \<and> (\<forall>u \<in> set pre. apks_of a av u = []) \<and> apks_of a av v = x # rest) \<longleftrightarrow>
        (\<exists>pre post rest. vs = pre @ v # post \<and> (\<forall>u \<in> set pre. apks_of a av u = []) \<and> apks_of a av v = x # rest)" (is "?l \<longleftrightarrow> ?r")
    proof
      assume ?l
      then show ?r using Nil by (auto simp: Cons_eq_append_conv)
    next
      assume ?r
      then obtain pre post rest where "w # vs = (w # pre) @ v # post" "\<forall>u \<in> set (w # pre). apks_of a av u = []" "apks_of a av v = x # rest"
        using Nil by auto
      then show ?l by blast
    qed
    ultimately show ?thesis using Cons.IH by simp
  next
    case (Cons y ys)
    then have "choose_variant a av (w # vs) = Some (y, w)" by (simp add: apks_of_def)
    with Cons show ?thesis by (auto simp: Cons_eq_append_conv)
  qed
qed simp

lemma choose_variant_None: "choose_variant a av vs = None \<longleftrightarrow> (\<forall>v \<in> set vs. apks_of a av v = [])"
  by (induction vs) (auto simp: apks_of_def split: list.split)

text \<open>
  Which version of the game is offered: a search that succeeds has the supported versions of the architecture and what
  the mirror has of them, and takes the first version, in the order of the supported ones, that has an APK for the
  architecture, and its first APK. The address is made, and the version noted, unless a version is installed whose code is as high.
\<close>

theorem find_latest_takes_first_supported:
  assumes "find_latest_pogo env api a st = (Inr (x', v), st')"
  shows "\<exists>supported vs av x pre post rest cur. get_supported_pogo (wz_versions env) a = Inr supported \<and> map_of supported a = Some vs \<and>
      wz_search_match env vs = Matches av \<and> vs = pre @ v # post \<and> (\<forall>u \<in> set pre. apks_of a av u = []) \<and> apks_of a av v = x # rest \<and>
      fst (current_version_of api pogo a st) = Inr cur \<and>
      (if truthy_str cur \<and> va_code x \<le> lookup_version_code env (the cur) a then x' = x \<and> wz_found st' = wz_found st
       else x' = x\<lparr>va_url := Some (wz_url_of env x)\<rparr> \<and>
         (v \<noteq> [] \<longrightarrow> map_option as_version (map_of (wz_found st') (pogo, a)) = Some (Some v)))"
proof -
  obtain supported where 1: "get_supported_pogo (wz_versions env) a = Inr supported"
    using assms by (auto simp: find_latest_pogo_def act_bind_def give_def split: sum.splits)
  obtain vs where 2: "map_of supported a = Some vs"
    using assms 1 by (auto simp: find_latest_pogo_def act_bind_def give_def split: option.splits)
  obtain av where 3: "wz_search_match env vs = Matches av"
    using assms 1 2
    by (auto simp: find_latest_pogo_def act_bind_def give_def raise_error_def get_available_versions_def split: search_answer.splits)
  obtain x v' where 4: "choose_variant a av vs = Some (x, v')"
    using assms 1 2 3
    by (auto simp: find_latest_pogo_def act_bind_def give_def raise_error_def get_available_versions_def split: option.splits)
  obtain r s1 where 5: "current_version_of api pogo a st = (r, s1)" by (cases "current_version_of api pogo a st")
  obtain cur where 6: "r = Inr cur"
    using assms 1 2 3 4 5
    by (cases r) (auto simp: find_latest_pogo_def act_bind_def give_def get_available_versions_def)
  have found: "wz_found s1 = wz_found st"
    using 5 by (auto simp: current_version_of_def act_catch_def on_store_def finish_def split: prod.splits sum.splits if_splits option.splits)
  have "(Inr (x', v), st') =
      (if truthy_str cur \<and> \<not> va_code x > lookup_version_code env (the cur) a then finish (x, v') else offer_variant env a x v') s1"
    using assms 1 2 3 4 5 6 by (simp add: find_latest_pogo_def act_bind_def give_def get_available_versions_def)
  then have "v' = v" and "if truthy_str cur \<and> va_code x \<le> lookup_version_code env (the cur) a then x' = x \<and> wz_found st' = wz_found st
       else x' = x\<lparr>va_url := Some (wz_url_of env x)\<rparr> \<and>
         (v \<noteq> [] \<longrightarrow> map_option as_version (map_of (wz_found st') (pogo, a)) = Some (Some v))"
    using found by (auto simp: finish_def offer_variant_def set_last_searched_def on_found_def act_do_def act_bind_def autosearch_update_def
        set_if_def Let_def dict_simps split: if_splits option.splits)
  moreover obtain pre post rest where "vs = pre @ v' # post" "\<forall>u \<in> set pre. apks_of a av u = []" "apks_of a av v' = x # rest"
    using 4 choose_variant_Some by blast
  ultimately show ?thesis using 1 2 3 5 6 by auto
qed

section \<open>Where the wizard goes wrong\<close>

text \<open>A version that does not contain the word \<open>size\<close> is never taken for the latest one: it is downloaded again.\<close>

lemma installed_is_downloaded_again: "\<not> contains_str ''size'' v \<Longrightarrow> \<not> latest_installed (Some v) e"
  by (simp add: latest_installed_def)

text \<open>A mirror that cannot be asked counts as a newer version, whose name is \<open>-1\<close>.\<close>

lemma no_answer_is_an_update:
  assumes "wz_head env url = HeadFails" "installed_package (fst (api_info api t (wz_store st))) a = Inr p"
    and "\<forall>q. p = Some q \<longrightarrow> pkg_size q \<noteq> Some (- 1)"
  shows "fst (find_latest_head env api t a url st) = Inr True \<and>
    map_option as_version (map_of (wz_found (snd (find_latest_head env api t a url st))) (t, a)) = Some (Some ''-1'')"
proof -
  have n: "show_int (- 1) = ''-1''" by code_simp
  show ?thesis
    using assms by (auto simp: find_latest_head_def act_bind_def give_def finish_def on_store_def mirror_size_def set_last_searched_def
        on_found_def act_do_def autosearch_update_def set_if_def dict_simps Let_def n split: prod.splits option.splits)
qed

text \<open>A search for the game that finds nothing ends the search for everything.\<close>

lemma other_packages_not_searched:
  assumes "fst (find_latest_pogo env api armeabi_v7a st) = Inl WizardError"
  shows "apk_all_search env api st = (Inl WizardError, snd (find_latest_pogo env api armeabi_v7a st))"
  using assms
  by (auto simp: apk_all_search_def unless_search_error_def act_catch_def act_bind_def split: prod.splits sum.splits option.splits if_splits)

text \<open>A download of the game that raises leaves the package marked: the clause that resets the mark is not reached.\<close>

lemma failed_download_stays_marked:
  assumes "truthy_str (wz_token env)" "find_latest_pogo env api a st = (Inr (x, v), s1)"
    and "current_version_of api pogo a s1 = (Inr cur, s2)" "cur \<noteq> Some v" "wz_download env (va_url x) = Inl e"
  shows "fst (download_pogo env api a st) = Inl e \<and> status_of (pogo, a) (snd (download_pogo env api a st)) = Some 1"
proof -
  have "download_pogo env api a st = (Inl e, mark_status env pogo a 1 s2)"
    using assms by (simp add: download_pogo_def act_bind_def act_catch_def finish_def set_status_mark act_do_def give_def)
  then show ?thesis by (simp add: status_mark)
qed

section \<open>The theorems on concrete inputs\<close>

definition demo_tools :: package_tools where
  "demo_tools = \<lparr>apk_info = (\<lambda>d. Inr (Some ''0.3'', Some ''com.mad.pogodroid'')), unzip_items = (\<lambda>d. Inl BadZipFile), zip_files = (\<lambda>fs. [])\<rparr>"


definition demo_wizard :: wizard_env where
  "demo_wizard = \<lparr>wz_clock = 0, wz_versions = \<lparr>backend_versions = Inr [], version_codes = [(''0.3_64'', 3), (''0.1_64'', 1)]\<rparr>, wz_token = Some ''x'',
     wz_search_match = (\<lambda>vs. Matches [(''0.1'', [(''arm64-v8a'', [\<lparr>va_type = ''APK'', va_code = 1, va_url = None\<rparr>])])]),
     wz_url_of = (\<lambda>x. ''u''), wz_download = (\<lambda>u. Inr [1]), wz_get = (\<lambda>i u. Inr (404, [])), wz_head = (\<lambda>u. HeadFails), wz_tools = demo_tools\<rparr>"

lemma find_latest_takes_first_supported_witness:
  "\<exists>st'. find_latest_pogo demo_wizard db_api arm64_v8a \<lparr>wz_store = new_db, wz_found = []\<rparr> =
      (Inr (\<lparr>va_type = ''APK'', va_code = 1, va_url = Some ''u''\<rparr>, ''0.1''), st') \<and>
     map_option as_version (map_of (wz_found st') (pogo, arm64_v8a)) = Some (Some ''0.1'')"
proof -
  let ?r = "find_latest_pogo demo_wizard db_api arm64_v8a \<lparr>wz_store = new_db, wz_found = []\<rparr>"
  have f: "fst ?r = Inr (\<lparr>va_type = ''APK'', va_code = 1, va_url = Some ''u''\<rparr>, ''0.1'')" by code_simp
  have c: "fst (current_version_of db_api pogo arm64_v8a \<lparr>wz_store = new_db, wz_found = []\<rparr>) = Inr None" by code_simp
  from f obtain st' where r: "?r = (Inr (\<lparr>va_type = ''APK'', va_code = 1, va_url = Some ''u''\<rparr>, ''0.1''), st')" by (cases ?r) simp
  from find_latest_takes_first_supported [OF r] c r show ?thesis by (auto simp: truthy_str_def)
qed


end
