(* ===== verification/Registry.thy ===== *)
theory Registry
  imports Worker
begin

text \<open>
  The registry of connections of \<open>websocket/WebsocketServer.py\<close>: authentication, the registration of a device, the replacement of its
  connection and the start of its worker. The handlers of the connections run at the same time; one step is what a handler does
  between two points where it waits. Headers, time, the rows of the database and the state of a connection are
  arguments or events.
\<close>

section \<open>Authentication\<close>

text \<open>\<open>check_auth\<close>: base64 is an argument; every exception is caught.\<close>

definition basic_code :: "string \<Rightarrow> string option" where
  "basic_code header =
     (if \<not> starts_with ''Basic '' header then None
      else (let code = drop 6 header; bare = (if code \<noteq> [] \<and> last code = CHR 0x0A then butlast code else code)
            in if bare \<noteq> [] \<and> list_all (\<lambda>c. \<not> is_ws c) bare then Some bare else None))"

definition check_auth :: "(string \<Rightarrow> string result) \<Rightarrow> string option \<Rightarrow> (string, string) dict \<Rightarrow> bool" where
  "check_auth decode header auths =
     (case header of
        None \<Rightarrow> False
      | Some h \<Rightarrow>
          if h = [] \<or> auths = [] then False
          else (case basic_code h of
              None \<Rightarrow> False
            | Some code \<Rightarrow> (case decode code of
                Inl e \<Rightarrow> False
              | Inr text \<Rightarrow> (case split_once (CHR '':'') text of
                  [user, password] \<Rightarrow> map_of auths user = Some password
                | _ \<Rightarrow> False))))"

record request_headers =
  hd_origin :: "string option"
  hd_authorization :: "string option"

record auth_env =
  ae_decode :: "string \<Rightarrow> string result"
  ae_auths :: "(string, string) dict"
  ae_insecure :: bool
  ae_configured :: bool

definition authenticate_connection :: "auth_env \<Rightarrow> mapping_manager \<Rightarrow> request_headers \<Rightarrow> string option \<times> bool" where
  "authenticate_connection ae mm h =
     (case hd_origin h of
        None \<Rightarrow> (None, False)
      | Some o' \<Rightarrow>
          if \<not> ae_configured ae then (Some o', False)
          else if o' \<notin> get_all_loaded_origins mm then (Some o', False)
          else if ae_insecure ae then (Some o', True)
          else if ae_auths ae \<noteq> [] \<and> hd_authorization h = None then (Some o', False)
          else (Some o', check_auth (ae_decode ae) (if ae_auths ae = [] then None else hd_authorization h) (ae_auths ae)))"

section \<open>State\<close>

datatype conn_state = Opening | Open | Closing | Closed

datatype phase = Fetching | Looking int bool | Adding bool | Starting | Serving

record handler =
  h_origin :: string
  h_phase :: phase

record client_entry =
  ce_connection :: nat
  ce_device_id :: int
  ce_worker :: "worker option"

record registry =
  current_users :: "(string, client_entry) dict"
  users_mutex :: "nat option"
  users_connecting :: "(string, int) dict"
  connections :: "nat \<Rightarrow> conn_state"
  handlers :: "nat \<Rightarrow> handler option"
  reg_mm :: mapping_manager
  server_stopped :: bool
  reg_configmode :: bool

definition new_registry :: "mapping_manager \<Rightarrow> bool \<Rightarrow> registry" where
  "new_registry mm configmode = \<lparr>current_users = [], users_mutex = None, users_connecting = [], connections = (\<lambda>_. Opening),
     handlers = (\<lambda>_. None), reg_mm = mm, server_stopped = False, reg_configmode = configmode\<rparr>"

definition CONNECTING_TIMEOUT :: int where "CONNECTING_TIMEOUT = 300"

definition set_phase :: "nat \<Rightarrow> phase \<Rightarrow> registry \<Rightarrow> registry" where
  "set_phase c p r = r\<lparr>handlers := (handlers r)(c := map_option (\<lambda>h. h\<lparr>h_phase := p\<rparr>) (handlers r c))\<rparr>"

definition remove_from_users_connecting :: "string \<Rightarrow> registry \<Rightarrow> registry" where
  "remove_from_users_connecting origin r = r\<lparr>users_connecting := AList.delete origin (users_connecting r)\<rparr>"

definition remove_from_current_users :: "string \<Rightarrow> registry \<Rightarrow> registry" where
  "remove_from_current_users origin r = r\<lparr>current_users := AList.delete origin (current_users r)\<rparr>"

text \<open>A handler that gives up during the registration; its \<open>finally\<close> clause takes the mark away.\<close>

definition give_up_registration :: "nat \<Rightarrow> registry \<Rightarrow> registry" where
  "give_up_registration c r =
     (case handlers r c of
        None \<Rightarrow> r
      | Some h \<Rightarrow> (remove_from_users_connecting (h_origin h) r)\<lparr>handlers := (handlers r)(c := None),
          users_mutex := (if users_mutex r = Some c then None else users_mutex r)\<rparr>)"

section \<open>The handler of a connection\<close>

definition already_connecting :: "int \<Rightarrow> string \<Rightarrow> registry \<Rightarrow> bool" where
  "already_connecting clock origin r =
     (case map_of (users_connecting r) origin of None \<Rightarrow> False | Some since \<Rightarrow> since + CONNECTING_TIMEOUT > clock)"

definition connection_handler :: "auth_env \<Rightarrow> int \<Rightarrow> nat \<Rightarrow> request_headers \<Rightarrow> registry \<Rightarrow> registry" where
  "connection_handler ae clock c hdrs r0 =
     (let r = r0\<lparr>connections := (connections r0)(c := Open)\<rparr>
      in if server_stopped r then r
         else (case authenticate_connection ae (reg_mm r) hdrs of
             (Some origin, True) \<Rightarrow>
               if already_connecting clock origin r then r
               else r\<lparr>users_connecting := AList.update origin clock (users_connecting r),
                      handlers := (handlers r)(c := Some \<lparr>h_origin = origin, h_phase = Fetching\<rparr>)\<rparr>
           | _ \<Rightarrow> r))"

text \<open>The device of the origin, or none; in configuration mode it is not asked for.\<close>

definition fetch_device :: "int option \<Rightarrow> nat \<Rightarrow> registry \<Rightarrow> registry" where
  "fetch_device device c r =
     (if reg_configmode r then set_phase c (Looking (- 1) True) r
      else (case device of
          None \<Rightarrow> give_up_registration c r
        | Some did \<Rightarrow> set_phase c (Looking did (\<not> is_device_active did (reg_mm r))) r))"

datatype existing = StillWaiting | OldConnectionOpen | OldConnectionClosed

definition handle_existing_connection :: "conn_state \<Rightarrow> existing" where
  "handle_existing_connection s =
     (case s of Opening \<Rightarrow> StillWaiting | Closing \<Rightarrow> StillWaiting | Open \<Rightarrow> OldConnectionOpen | Closed \<Rightarrow> OldConnectionClosed)"

text \<open>The part of \<open>__setup_client_entry\<close> under the lock, which is kept while the old connection is neither open nor closed.\<close>

definition setup_client_entry :: "nat \<Rightarrow> string \<Rightarrow> int \<Rightarrow> bool \<Rightarrow> registry \<Rightarrow> registry" where
  "setup_client_entry c origin did paused r =
     (case map_of (current_users r) origin of
        None \<Rightarrow> set_phase c (Adding paused) (r\<lparr>users_mutex := None,
          current_users := AList.update origin \<lparr>ce_connection = c, ce_device_id = did, ce_worker = None\<rparr> (current_users r)\<rparr>)
      | Some e \<Rightarrow>
          (case handle_existing_connection (connections r (ce_connection e)) of
             StillWaiting \<Rightarrow> r\<lparr>users_mutex := Some c\<rparr>
           | OldConnectionOpen \<Rightarrow> give_up_registration c r
           | OldConnectionClosed \<Rightarrow> set_phase c (Adding paused) (r\<lparr>users_mutex := None,
               current_users := AList.update origin (e\<lparr>ce_connection := c\<rparr>) (current_users r)\<rparr>)))"

definition new_worker :: "string \<Rightarrow> int \<Rightarrow> worker_strategy \<Rightarrow> worker" where
  "new_worker origin did s = \<lparr>wk_origin = origin, wk_device_id = did, wk_strategy = s, workerstart = None, stop_worker_event = False,
     worker_task = None, current_location = Some \<lparr>lat = 0, lng = 0\<rparr>, wk_last_location = Some \<lparr>lat = 0, lng = 0\<rparr>, location_count = 0,
     current_sleep_duration = 0\<rparr>"

text \<open>An existing worker gets the new strategy.\<close>

definition entry_worker :: "string \<Rightarrow> worker_strategy \<Rightarrow> client_entry \<Rightarrow> worker" where
  "entry_worker origin s e = (case ce_worker e of None \<Rightarrow> new_worker origin (ce_device_id e) s | Some w \<Rightarrow> w\<lparr>wk_strategy := s\<rparr>)"

definition on_entry :: "string \<Rightarrow> (client_entry \<Rightarrow> client_entry) \<Rightarrow> registry \<Rightarrow> registry" where
  "on_entry origin f r = (case map_of (current_users r) origin of None \<Rightarrow> r
     | Some e \<Rightarrow> r\<lparr>current_users := AList.update origin (f e) (current_users r)\<rparr>)"

definition add_worker_to_entry :: "(nat \<Rightarrow> walker_env) \<Rightarrow> nat \<Rightarrow> string \<Rightarrow> bool \<Rightarrow> registry \<Rightarrow> registry" where
  "add_worker_to_entry envs c origin configmode r =
     (case get_strategy_using_settings envs origin configmode (reg_mm r) of
        (Inl e, mm) \<Rightarrow> give_up_registration c (r\<lparr>reg_mm := mm\<rparr>)
      | (Inr s, mm) \<Rightarrow> set_phase c Starting (on_entry origin (\<lambda>e. e\<lparr>ce_worker := Some (entry_worker origin s e)\<rparr>) (r\<lparr>reg_mm := mm\<rparr>)))"

definition start_entry_worker :: "nat \<Rightarrow> string \<Rightarrow> registry \<Rightarrow> registry" where
  "start_entry_worker c origin r =
     set_phase c Serving (remove_from_users_connecting origin
       (on_entry origin (\<lambda>e. e\<lparr>ce_worker := map_option start_worker (ce_worker e)\<rparr>) r))"

text \<open>The receiver of messages ends when the connection is no longer open, and the handler with it.\<close>

definition end_receiver :: "nat \<Rightarrow> registry \<Rightarrow> registry" where
  "end_receiver c r = (if connections r c \<noteq> Open then r\<lparr>handlers := (handlers r)(c := None)\<rparr> else r)"

section \<open>The other operations\<close>

definition close_all_connections :: "registry \<Rightarrow> registry" where
  "close_all_connections r = r\<lparr>
     connections := (\<lambda>c. if c \<in> ce_connection ` snd ` set (current_users r) then Closed else connections r c),
     current_users := map (\<lambda>(o', e). (o', e\<lparr>ce_worker := map_option stop_worker (ce_worker e)\<rparr>)) (current_users r)\<rparr>"

definition stop_worker_of :: "string \<Rightarrow> registry \<Rightarrow> registry" where
  "stop_worker_of origin = on_entry origin (\<lambda>e. e\<lparr>ce_worker := map_option stop_worker (ce_worker e)\<rparr>)"

definition get_connected_origins :: "registry \<Rightarrow> string list" where
  "get_connected_origins r = map fst (filter (\<lambda>(o', e). connections r (ce_connection e) = Open) (current_users r))"

definition get_origin_worker :: "string \<Rightarrow> registry \<Rightarrow> worker option" where
  "get_origin_worker origin r = (case map_of (current_users r) origin of None \<Rightarrow> None | Some e \<Rightarrow> ce_worker e)"

definition set_geofix_sleeptime_worker :: "string \<Rightarrow> int \<Rightarrow> registry \<Rightarrow> bool \<times> registry" where
  "set_geofix_sleeptime_worker origin secs r =
     (case get_origin_worker origin r of
        None \<Rightarrow> (False, r)
      | Some w \<Rightarrow> (True, on_entry origin (\<lambda>e. e\<lparr>ce_worker := map_option (set_geofix_sleeptime secs) (ce_worker e)\<rparr>) r))"

definition set_job_activated :: "string \<Rightarrow> registry \<Rightarrow> registry" where
  "set_job_activated origin r = r\<lparr>reg_mm := set_devicesetting_value_of origin (JobActive True) (reg_mm r)\<rparr>"

definition set_job_deactivated :: "string \<Rightarrow> registry \<Rightarrow> registry" where
  "set_job_deactivated origin r = r\<lparr>reg_mm := set_devicesetting_value_of origin (JobActive False) (reg_mm r)\<rparr>"

section \<open>Interleavings\<close>

text \<open>A connection only moves on towards its end.\<close>

definition rank :: "conn_state \<Rightarrow> nat" where
  "rank s = (case s of Opening \<Rightarrow> 0 | Open \<Rightarrow> 1 | Closing \<Rightarrow> 2 | Closed \<Rightarrow> 3)"

datatype reg_op =
    Connect auth_env int nat request_headers
  | FetchDevice nat "int option"
  | SetupEntry nat
  | AddWorker nat "nat \<Rightarrow> walker_env"
  | StartWorker nat
  | ConnectionIs nat conn_state
  | EndReceiver nat
  | StopServer
  | CloseAll
  | StopWorker string
  | SetGeofix string int
  | JobActivated string bool
  | ChangeMappings mapping_manager

definition has_mutex :: "nat \<Rightarrow> registry \<Rightarrow> bool" where
  "has_mutex c r \<longleftrightarrow> users_mutex r = None \<or> users_mutex r = Some c"

fun reg_step :: "reg_op \<Rightarrow> registry \<Rightarrow> registry" where
  "reg_step (Connect ae clock c hdrs) r = (if handlers r c = None \<and> connections r c = Opening then connection_handler ae clock c hdrs r else r)"
| "reg_step (FetchDevice c device) r =
     (case handlers r c of Some h \<Rightarrow> if h_phase h = Fetching then fetch_device device c r else r | None \<Rightarrow> r)"
| "reg_step (SetupEntry c) r =
     (case handlers r c of
        Some h \<Rightarrow> (case h_phase h of
            Looking did paused \<Rightarrow> if has_mutex c r then setup_client_entry c (h_origin h) did paused r else r
          | _ \<Rightarrow> r)
      | None \<Rightarrow> r)"
| "reg_step (AddWorker c envs) r =
     (case handlers r c of
        Some h \<Rightarrow> (case h_phase h of Adding paused \<Rightarrow> add_worker_to_entry envs c (h_origin h) paused r | _ \<Rightarrow> r)
      | None \<Rightarrow> r)"
| "reg_step (StartWorker c) r =
     (case handlers r c of
        Some h \<Rightarrow> if h_phase h = Starting \<and> has_mutex c r then start_entry_worker c (h_origin h) r else r
      | None \<Rightarrow> r)"
| "reg_step (ConnectionIs c s) r = (if rank (connections r c) \<le> rank s then r\<lparr>connections := (connections r)(c := s)\<rparr> else r)"
| "reg_step (EndReceiver c) r = (case handlers r c of Some h \<Rightarrow> if h_phase h = Serving then end_receiver c r else r | None \<Rightarrow> r)"
| "reg_step StopServer r = r\<lparr>server_stopped := True\<rparr>"
| "reg_step CloseAll r =
     (if server_stopped r \<and> users_connecting r = [] \<and> users_mutex r = None then close_all_connections r else r)"
| "reg_step (StopWorker origin) r = stop_worker_of origin r"
| "reg_step (SetGeofix origin secs) r = snd (set_geofix_sleeptime_worker origin secs r)"
| "reg_step (JobActivated origin b) r = (if b then set_job_activated origin r else set_job_deactivated origin r)"
| "reg_step (ChangeMappings mm) r = r\<lparr>reg_mm := mm\<rparr>"

definition reg_run :: "reg_op list \<Rightarrow> registry \<Rightarrow> registry" where "reg_run ops r = fold reg_step ops r"

section \<open>The invariant\<close>

definition is_served :: "phase \<Rightarrow> bool" where
  "is_served p = (case p of Adding b \<Rightarrow> True | Starting \<Rightarrow> True | Serving \<Rightarrow> True | _ \<Rightarrow> False)"

lemma is_served_simps [simp]:
  "is_served (Adding b)" "is_served Starting" "is_served Serving" "\<not> is_served Fetching" "\<not> is_served (Looking d b)"
  by (simp_all add: is_served_def)

text \<open>What the entry of a device is for a connection in some phase.\<close>

definition entry_fits :: "phase \<Rightarrow> nat \<Rightarrow> client_entry \<Rightarrow> bool" where
  "entry_fits p c e \<longleftrightarrow> ce_connection e = c \<and> (p = Starting \<or> p = Serving \<longrightarrow> ce_worker e \<noteq> None) \<and>
     (p = Serving \<longrightarrow> (\<forall>w. ce_worker e = Some w \<longrightarrow> worker_task w \<noteq> None))"

definition handler_ok :: "registry \<Rightarrow> nat \<Rightarrow> handler \<Rightarrow> bool" where
  "handler_ok r c h \<longleftrightarrow> (is_served (h_phase h) \<and> connections r c \<noteq> Closed \<longrightarrow>
     (\<exists>e. map_of (current_users r) (h_origin h) = Some e \<and> entry_fits (h_phase h) c e))"

definition reg_inv :: "registry \<Rightarrow> bool" where
  "reg_inv r \<longleftrightarrow> (\<forall>c h. handlers r c = Some h \<longrightarrow> handler_ok r c h) \<and>
     (\<forall>o' e w. map_of (current_users r) o' = Some e \<and> ce_worker e = Some w \<longrightarrow> wk_origin w = o')"

lemma reg_inv_handler: "reg_inv r \<Longrightarrow> handlers r c = Some h \<Longrightarrow> handler_ok r c h"
  by (simp add: reg_inv_def)

lemma reg_inv_worker: "reg_inv r \<Longrightarrow> map_of (current_users r) o' = Some e \<Longrightarrow> ce_worker e = Some w \<Longrightarrow> wk_origin w = o'"
  by (simp add: reg_inv_def)

text \<open>A step that leaves the entries, and lets handlers and connections only end.\<close>

lemma reg_inv_shrink:
  assumes "reg_inv r" "current_users r' = current_users r"
    and "\<And>c h. handlers r' c = Some h \<Longrightarrow> handlers r c = Some h \<or> \<not> is_served (h_phase h)"
    and "\<And>c h. handlers r' c = Some h \<Longrightarrow> connections r c = Closed \<Longrightarrow> is_served (h_phase h) \<Longrightarrow> connections r' c = Closed"
  shows "reg_inv r'"
  unfolding reg_inv_def
proof (intro conjI allI impI)
  fix c h
  assume h: "handlers r' c = Some h"
  show "handler_ok r' c h"
  proof (cases "is_served (h_phase h) \<and> connections r' c \<noteq> Closed")
    case True
    then have "handlers r c = Some h" "connections r c \<noteq> Closed" using assms(3,4) [OF h] by auto
    with reg_inv_handler [OF assms(1)] True show ?thesis by (auto simp: handler_ok_def assms(2))
  qed (auto simp: handler_ok_def)
next
  fix x e w
  assume "map_of (current_users r') x = Some e \<and> ce_worker e = Some w"
  then show "wk_origin w = x" using reg_inv_worker [OF assms(1)] by (simp add: assms(2))
qed

text \<open>A step that changes one entry and keeps what it is for its connection.\<close>

lemma entry_fits_worker:
  assumes "entry_fits p c e" "ce_worker e' = map_option f (ce_worker e)" "ce_connection e' = ce_connection e"
    and "\<And>w. worker_task w \<noteq> None \<Longrightarrow> worker_task (f w) \<noteq> None"
  shows "entry_fits p c e'"
  using assms by (auto simp: entry_fits_def)

lemma on_entry_fields [simp]:
  "handlers (on_entry o' f r) = handlers r" "connections (on_entry o' f r) = connections r" "users_mutex (on_entry o' f r) = users_mutex r"
  "users_connecting (on_entry o' f r) = users_connecting r"
  by (simp_all add: on_entry_def split: option.split)

lemma on_entry_users: "map_of (current_users (on_entry o' f r)) x =
    (if x = o' then map_option f (map_of (current_users r) x) else map_of (current_users r) x)"
  by (simp add: on_entry_def dict_simps split: option.split)

lemma reg_inv_on_entry:
  assumes "reg_inv r" and f: "\<And>e. ce_worker (f e) = map_option g (ce_worker e)" "\<And>e. ce_connection (f e) = ce_connection e"
    and g: "\<And>w. worker_task w \<noteq> None \<Longrightarrow> worker_task (g w) \<noteq> None" "\<And>w. wk_origin (g w) = wk_origin w"
  shows "reg_inv (on_entry o' f r)"
  unfolding reg_inv_def
proof (intro conjI allI impI)
  fix c h
  assume "handlers (on_entry o' f r) c = Some h"
  then have "handler_ok r c h" using reg_inv_handler [OF assms(1)] by simp
  then show "handler_ok (on_entry o' f r) c h"
    using entry_fits_worker [OF _ f(1) f(2) g(1)] by (auto simp: handler_ok_def on_entry_users)
next
  fix x e w
  assume "map_of (current_users (on_entry o' f r)) x = Some e \<and> ce_worker e = Some w"
  then show "wk_origin w = x"
    using reg_inv_worker [OF assms(1)] f(1) g(2) by (auto simp: on_entry_users split: if_splits)
qed

lemma worker_steps:
  "worker_task w \<noteq> None \<Longrightarrow> worker_task (start_worker w) \<noteq> None" "wk_origin (start_worker w) = wk_origin w"
  "\<exists>t. worker_task (start_worker w) = Some t"
  "worker_task w \<noteq> None \<Longrightarrow> worker_task (stop_worker w) \<noteq> None" "wk_origin (stop_worker w) = wk_origin w"
  by (auto simp: start_worker_def stop_worker_def Let_def)

lemma give_up_keeps: "reg_inv r \<Longrightarrow> reg_inv (give_up_registration c r)"
  by (rule reg_inv_shrink [of r]) (auto simp: give_up_registration_def remove_from_users_connecting_def split: option.splits if_splits)

lemma set_phase_fields [simp]:
  "current_users (set_phase c p r) = current_users r" "connections (set_phase c p r) = connections r"
  by (simp_all add: set_phase_def)

lemma set_phase_handlers: "handlers (set_phase c p r) d = (if d = c then map_option (\<lambda>h. h\<lparr>h_phase := p\<rparr>) (handlers r c) else handlers r d)"
  by (simp add: set_phase_def)

lemma reg_inv_set_phase:
  assumes "reg_inv r" "\<And>h. handlers r c = Some h \<Longrightarrow> handler_ok r c (h\<lparr>h_phase := p\<rparr>)"
  shows "reg_inv (set_phase c p r)"
  using assms unfolding reg_inv_def by (auto simp: set_phase_handlers handler_ok_def split: if_splits)

lemma fetch_device_keeps: "reg_inv r \<Longrightarrow> reg_inv (fetch_device device c r)"
  unfolding fetch_device_def
  by (auto intro!: give_up_keeps reg_inv_set_phase simp: handler_ok_def split: option.split)

text \<open>Taking the place of the entry of a device, which is free or whose connection is closed.\<close>

lemma take_place_keeps:
  assumes inv: "reg_inv r" and h: "handlers r c = Some h"
    and old: "\<And>e. map_of (current_users r) (h_origin h) = Some e \<Longrightarrow> connections r (ce_connection e) = Closed"
    and new: "ce_connection e' = c" "\<And>w. ce_worker e' = Some w \<Longrightarrow> wk_origin w = h_origin h"
  shows "reg_inv (set_phase c (Adding paused) (r\<lparr>users_mutex := m, current_users := AList.update (h_origin h) e' (current_users r)\<rparr>))"
  unfolding reg_inv_def
proof (intro conjI allI impI)
  let ?r = "r\<lparr>users_mutex := m, current_users := AList.update (h_origin h) e' (current_users r)\<rparr>"
  fix d k
  assume k: "handlers (set_phase c (Adding paused) ?r) d = Some k"
  show "handler_ok (set_phase c (Adding paused) ?r) d k"
  proof (cases "d = c")
    case True
    with k h new(1) show ?thesis by (auto simp: set_phase_handlers handler_ok_def dict_simps entry_fits_def)
  next
    case False
    then have kd: "handler_ok r d k" using k reg_inv_handler [OF inv] by (simp add: set_phase_handlers)
    show ?thesis
    proof (cases "h_origin k = h_origin h")
      case True
      have "\<not> (is_served (h_phase k) \<and> connections r d \<noteq> Closed)"
        using kd old True by (auto simp: handler_ok_def entry_fits_def)
      then show ?thesis by (auto simp: handler_ok_def)
    next
      case False
      with kd show ?thesis by (auto simp: handler_ok_def dict_simps)
    qed
  qed
next
  fix x e w
  assume "map_of (current_users (set_phase c (Adding paused) (r\<lparr>users_mutex := m,
      current_users := AList.update (h_origin h) e' (current_users r)\<rparr>))) x = Some e \<and> ce_worker e = Some w"
  then show "wk_origin w = x" using reg_inv_worker [OF inv] new(2) by (auto simp: dict_simps split: if_splits)
qed

lemma setup_keeps:
  assumes inv: "reg_inv r" and h: "handlers r c = Some h"
  shows "reg_inv (setup_client_entry c (h_origin h) did paused r)"
proof (cases "map_of (current_users r) (h_origin h)")
  case None
  then show ?thesis using take_place_keeps [OF inv h, of "\<lparr>ce_connection = c, ce_device_id = did, ce_worker = None\<rparr>" paused None]
    by (simp add: setup_client_entry_def)
next
  case (Some e)
  show ?thesis
  proof (cases "handle_existing_connection (connections r (ce_connection e))")
    case StillWaiting
    have "reg_inv (r\<lparr>users_mutex := Some c\<rparr>)" by (rule reg_inv_shrink [OF inv]) auto
    with Some StillWaiting show ?thesis by (simp add: setup_client_entry_def)
  next
    case OldConnectionOpen
    with Some show ?thesis using give_up_keeps [OF inv] by (simp add: setup_client_entry_def)
  next
    case OldConnectionClosed
    then have "connections r (ce_connection e) = Closed" by (simp add: handle_existing_connection_def split: conn_state.splits)
    with Some OldConnectionClosed show ?thesis
      using take_place_keeps [OF inv h, of "e\<lparr>ce_connection := c\<rparr>" paused None] reg_inv_worker [OF inv Some]
      by (simp add: setup_client_entry_def)
  qed
qed

lemma add_worker_keeps:
  assumes inv: "reg_inv r" and h: "handlers r c = Some h" "h_phase h = Adding b"
  shows "reg_inv (add_worker_to_entry envs c (h_origin h) paused r)"
proof -
  obtain res mm where g: "get_strategy_using_settings envs (h_origin h) paused (reg_mm r) = (res, mm)"
    by (cases "get_strategy_using_settings envs (h_origin h) paused (reg_mm r)")
  have inv1: "reg_inv (r\<lparr>reg_mm := mm\<rparr>)" by (rule reg_inv_shrink [OF inv]) auto
  show ?thesis
  proof (cases res)
    case (Inl e)
    with g show ?thesis using give_up_keeps [OF inv1] by (simp add: add_worker_to_entry_def)
  next
    case (Inr s)
    let ?f = "\<lambda>e. e\<lparr>ce_worker := Some (entry_worker (h_origin h) s e)\<rparr>"
    let ?r = "on_entry (h_origin h) ?f (r\<lparr>reg_mm := mm\<rparr>)"
    have fits: "entry_fits p d e \<Longrightarrow> entry_fits p d (?f e)" for p d e
      by (auto simp: entry_fits_def entry_worker_def split: option.splits)
    have "reg_inv ?r"
      unfolding reg_inv_def
    proof (intro conjI allI impI)
      fix d k
      assume "handlers ?r d = Some k"
      then have "handler_ok r d k" using reg_inv_handler [OF inv] by simp
      then show "handler_ok ?r d k" using fits by (auto simp: handler_ok_def on_entry_users)
    next
      fix x e w
      assume "map_of (current_users ?r) x = Some e \<and> ce_worker e = Some w"
      then show "wk_origin w = x"
        using reg_inv_worker [OF inv] by (auto simp: on_entry_users entry_worker_def new_worker_def split: if_splits option.splits)
    qed
    moreover have "handler_ok ?r c (k\<lparr>h_phase := Starting\<rparr>)" if "handlers ?r c = Some k" for k
      using reg_inv_handler [OF inv h(1)] h that by (auto simp: handler_ok_def on_entry_users entry_fits_def)
    ultimately have "reg_inv (set_phase c Starting ?r)" by (rule reg_inv_set_phase)
    with g Inr show ?thesis by (simp add: add_worker_to_entry_def)
  qed
qed

lemma begin_keeps:
  assumes inv: "reg_inv r" and h: "handlers r c = Some h" "h_phase h = Starting"
  shows "reg_inv (start_entry_worker c (h_origin h) r)"
proof -
  let ?f = "\<lambda>e. e\<lparr>ce_worker := map_option start_worker (ce_worker e)\<rparr>"
  let ?r = "remove_from_users_connecting (h_origin h) (on_entry (h_origin h) ?f r)"
  have "reg_inv (on_entry (h_origin h) ?f r)"
    by (rule reg_inv_on_entry [OF inv, where g = start_worker]) (simp_all add: worker_steps)
  then have "reg_inv ?r" by (rule reg_inv_shrink) (auto simp: remove_from_users_connecting_def)
  moreover have "handler_ok ?r c (k\<lparr>h_phase := Serving\<rparr>)" if "handlers ?r c = Some k" for k
    using reg_inv_handler [OF inv h(1)] h that
    by (auto simp: handler_ok_def on_entry_users entry_fits_def remove_from_users_connecting_def worker_steps(3))
  ultimately have "reg_inv (set_phase c Serving ?r)" by (rule reg_inv_set_phase)
  then show ?thesis by (simp add: start_entry_worker_def)
qed

lemma close_all_keeps:
  assumes inv: "reg_inv r"
  shows "reg_inv (close_all_connections r)"
proof -
  let ?g = "\<lambda>e. e\<lparr>ce_worker := map_option stop_worker (ce_worker e)\<rparr>"
  have m: "map_of (current_users (close_all_connections r)) x = map_option ?g (map_of (current_users r) x)" for x
    by (simp add: close_all_connections_def map_of_map)
  have g: "entry_fits p d e \<Longrightarrow> entry_fits p d (?g e)" for p d e
    by (rule entry_fits_worker [where f = stop_worker]) (simp_all add: worker_steps)
  have "connections (close_all_connections r) d \<noteq> Closed \<Longrightarrow> connections r d \<noteq> Closed" for d
    by (simp add: close_all_connections_def split: if_splits)
  moreover have "handlers (close_all_connections r) = handlers r" by (simp add: close_all_connections_def)
  ultimately show ?thesis
    using inv m g worker_steps(5) unfolding reg_inv_def handler_ok_def by (auto; blast)
qed

lemma reg_step_keeps: "reg_inv r \<Longrightarrow> reg_inv (reg_step x r)"
proof (cases x)
  case (Connect ae clock c hdrs)
  assume inv: "reg_inv r"
  show ?thesis
    unfolding Connect
    by (rule reg_inv_shrink [OF inv]) (auto simp: connection_handler_def Let_def split: prod.splits option.splits bool.splits if_splits)
next
  case (FetchDevice c d)
  assume "reg_inv r"
  then show ?thesis using FetchDevice fetch_device_keeps by (simp split: option.split)
next
  case (SetupEntry c)
  assume "reg_inv r"
  then show ?thesis using SetupEntry setup_keeps by (simp split: option.split phase.split)
next
  case (AddWorker c envs)
  assume "reg_inv r"
  then show ?thesis using AddWorker add_worker_keeps by (simp split: option.split phase.split)
next
  case (StartWorker c)
  assume "reg_inv r"
  then show ?thesis using StartWorker begin_keeps by (simp split: option.split)
next
  case (ConnectionIs c s)
  assume inv: "reg_inv r"
  show ?thesis unfolding ConnectionIs
    by (rule reg_inv_shrink [OF inv]) (auto simp: rank_def split: if_splits conn_state.splits)
next
  case (EndReceiver c)
  assume inv: "reg_inv r"
  show ?thesis unfolding EndReceiver
    by (rule reg_inv_shrink [OF inv]) (auto simp: end_receiver_def split: if_splits option.splits)
next
  case StopServer
  assume inv: "reg_inv r"
  show ?thesis unfolding StopServer by (rule reg_inv_shrink [OF inv]) auto
next
  case CloseAll
  assume "reg_inv r"
  then show ?thesis using CloseAll close_all_keeps by simp
next
  case (StopWorker o')
  assume inv: "reg_inv r"
  show ?thesis unfolding StopWorker reg_step.simps stop_worker_of_def
    by (rule reg_inv_on_entry [OF inv, where g = stop_worker]) (simp_all add: worker_steps)
next
  case (SetGeofix o' secs)
  assume inv: "reg_inv r"
  show ?thesis
  proof (cases "get_origin_worker o' r")
    case None
    with inv SetGeofix show ?thesis by (simp add: set_geofix_sleeptime_worker_def)
  next
    case (Some w)
    have "reg_inv (on_entry o' (\<lambda>e. e\<lparr>ce_worker := map_option (set_geofix_sleeptime secs) (ce_worker e)\<rparr>) r)"
      by (rule reg_inv_on_entry [OF inv, where g = "set_geofix_sleeptime secs"]) (simp_all add: set_geofix_sleeptime_def)
    with Some SetGeofix show ?thesis by (simp add: set_geofix_sleeptime_worker_def)
  qed
next
  case (JobActivated o' b)
  assume inv: "reg_inv r"
  show ?thesis unfolding JobActivated
    by (rule reg_inv_shrink [OF inv]) (auto simp: set_job_activated_def set_job_deactivated_def split: if_splits)
next
  case (ChangeMappings mm)
  assume inv: "reg_inv r"
  show ?thesis unfolding ChangeMappings by (rule reg_inv_shrink [OF inv]) auto
qed

lemma reg_inv_run: "reg_inv r \<Longrightarrow> reg_inv (reg_run ops r)"
  unfolding reg_run_def by (induction ops arbitrary: r) (simp_all add: reg_step_keeps)

lemma reg_inv_new: "reg_inv (new_registry mm configmode)"
  by (simp add: reg_inv_def new_registry_def)

section \<open>Properties\<close>


text \<open>
  Who may register: a connection is accepted exactly when it names an origin that is loaded, and authentication is switched
  off or the header is \<open>Basic\<close> and a code that decodes to a user and a password that are configured.
\<close>

theorem authenticated_iff:
  "authenticate_connection ae mm hdrs = (Some o', True) \<longleftrightarrow>
     hd_origin hdrs = Some o' \<and> ae_configured ae \<and> o' \<in> get_all_loaded_origins mm \<and>
     (ae_insecure ae \<or> (\<exists>header code text user password. hd_authorization hdrs = Some header \<and> basic_code header = Some code \<and>
        ae_decode ae code = Inr text \<and> split_once (CHR '':'') text = [user, password] \<and> map_of (ae_auths ae) user = Some password))"
proof -
  have c: "check_auth d x as \<longleftrightarrow> (\<exists>header code text user password. x = Some header \<and> basic_code header = Some code \<and>
      d code = Inr text \<and> split_once (CHR '':'') text = [user, password] \<and> map_of as user = Some password)" for d x as
  proof (cases "x = None \<or> x = Some [] \<or> as = []")
    case True
    then show ?thesis by (cases x) (auto simp: check_auth_def basic_code_def)
  next
    case False
    then show ?thesis
      by (auto simp: check_auth_def split: option.splits sum.splits list.splits)
  qed
  show ?thesis by (auto simp: authenticate_connection_def c split: option.splits)
qed

text \<open>A second attempt while the first one registers is refused for five minutes, whatever becomes of the first connection.\<close>

lemma second_attempt_refused:
  assumes "map_of (users_connecting r) origin = Some since" "clock < since + 300" "hd_origin hdrs = Some origin"
  shows "handlers (reg_step (Connect ae clock c hdrs) r) = handlers r"
  using assms
  by (auto simp: connection_handler_def already_connecting_def CONNECTING_TIMEOUT_def authenticate_connection_def Let_def
      split: option.splits prod.splits bool.splits)

text \<open>While the old connection of one device is closing, no other device can register: the lock is kept.\<close>

lemma one_closing_connection_blocks_all:
  assumes "handlers r c = Some h" "h_phase h = Looking did paused" "has_mutex c r"
    and "map_of (current_users r) (h_origin h) = Some e" "connections r (ce_connection e) = Closing" "d \<noteq> c"
  shows "reg_step (SetupEntry d) (reg_step (SetupEntry c) r) = reg_step (SetupEntry c) r"
  using assms by (simp add: setup_client_entry_def handle_existing_connection_def has_mutex_def split: option.split phase.split)

section \<open>The theorems on concrete inputs\<close>

definition demo_auth :: auth_env where
  "demo_auth = \<lparr>ae_decode = (\<lambda>s. Inr ''me:secret''), ae_auths = [(''me'', ''secret'')], ae_insecure = False, ae_configured = True\<rparr>"

definition demo_headers :: request_headers where
  "demo_headers = \<lparr>hd_origin = Some ''atv'', hd_authorization = Some ''Basic x''\<rparr>"

definition demo_ops :: "reg_op list" where
  "demo_ops = [Connect demo_auth 0 1 demo_headers, FetchDevice 1 None, SetupEntry 1, AddWorker 1 (\<lambda>_. night_env), StartWorker 1]"


end
