(* ===== verification/Proto.thy ===== *)
theory Proto
  imports PyStr
begin

text \<open>
  How the code reads a decoded protocol message (\<open>x[k]\<close>, \<open>x.get(k, d)\<close>, \<open>for\<close>, \<open>int(x)\<close>, \<open>str(x)\<close>), and the loops of
  methods that may raise. The numbers the protocol declares as integers are expected to be integers:
  a float in their place counts as an error. The locale \<open>act_frame\<close> is the reasoning about what all methods of a class leave alone.
\<close>



section \<open>Reading values\<close>

text \<open>\<open>x[k1][k2]...\<close>\<close>

fun json_path :: "json \<Rightarrow> string list \<Rightarrow> json result" where
  "json_path j [] = Inr j"
| "json_path j (k # ks) = res_bind (json_index j k) (\<lambda>v. json_path v ks)"

text \<open>\<open>for y in x\<close>: a dictionary yields its keys, a text its characters.\<close>

fun json_iter :: "json \<Rightarrow> json list result" where
  "json_iter (JList xs) = Inr xs"
| "json_iter (JDict d) = Inr (map (\<lambda>(k, v). JStr k) d)"
| "json_iter (JStr s) = Inr (map (\<lambda>c. JStr [c]) s)"
| "json_iter _ = Inl TypeError"

text \<open>\<open>x[i]\<close> with a constant index from the left.\<close>

fun json_nth :: "json \<Rightarrow> nat \<Rightarrow> json result" where
  "json_nth (JList xs) i = (if i < length xs then Inr (xs ! i) else Inl IndexError)"
| "json_nth (JStr s) i = (if i < length s then Inr (JStr [s ! i]) else Inl IndexError)"
| "json_nth (JDict d) i = Inl KeyError"
| "json_nth _ i = Inl TypeError"

text \<open>\<open>len(x)\<close>.\<close>

fun json_len :: "json \<Rightarrow> nat result" where
  "json_len (JList xs) = Inr (length xs)"
| "json_len (JDict d) = Inr (length d)"
| "json_len (JStr s) = Inr (length s)"
| "json_len _ = Inl TypeError"

text \<open>\<open>k in x\<close> for a text \<open>k\<close>.\<close>

fun json_has :: "string \<Rightarrow> json \<Rightarrow> bool result" where
  "json_has k (JDict d) = Inr (k \<in> fst ` set d)"
| "json_has k (JList xs) = Inr (JStr k \<in> set xs)"
| "json_has k (JStr s) = Inr (contains_str k s)"
| "json_has k _ = Inl TypeError"

text \<open>A number of the protocol in arithmetic and in comparisons; \<open>True\<close> is 1.\<close>

fun json_int :: "json \<Rightarrow> int result" where
  "json_int (JInt i) = Inr i"
| "json_int (JBool b) = Inr (if b then 1 else 0)"
| "json_int _ = Inl TypeError"

fun json_num :: "json \<Rightarrow> real result" where
  "json_num (JInt i) = Inr (of_int i)"
| "json_num (JBool b) = Inr (if b then 1 else 0)"
| "json_num (JFloat x) = Inr x"
| "json_num _ = Inl TypeError"

text \<open>\<open>x == i\<close>.\<close>

fun equals_int :: "json \<Rightarrow> int \<Rightarrow> bool" where
  "equals_int (JInt j) i = (j = i)"
| "equals_int (JBool b) i = ((if b then 1 else 0) = i)"
| "equals_int (JFloat x) i = (x = of_int i)"
| "equals_int _ i = False"

text \<open>\<open>int(x)\<close>.\<close>

fun json_to_int :: "json \<Rightarrow> int result" where
  "json_to_int (JInt i) = Inr i"
| "json_to_int (JBool b) = Inr (if b then 1 else 0)"
| "json_to_int (JFloat x) = Inr (if 0 \<le> x then \<lfloor>x\<rfloor> else \<lceil>x\<rceil>)"
| "json_to_int (JStr s) = parse_int s"
| "json_to_int _ = Inl TypeError"

text \<open>The methods of a text.\<close>

fun json_text :: "json \<Rightarrow> string result" where
  "json_text (JStr s) = Inr s"
| "json_text _ = Inl AttributeError"

text \<open>\<open>str(x)\<close>; how floats, lists and dictionaries look is an argument.\<close>

fun py_str :: "(json \<Rightarrow> string) \<Rightarrow> json \<Rightarrow> string" where
  "py_str sh JNull = ''None''"
| "py_str sh (JBool b) = (if b then ''True'' else ''False'')"
| "py_str sh (JInt i) = show_int i"
| "py_str sh (JStr s) = s"
| "py_str sh j = sh j"

section \<open>Numbers in texts\<close>

definition hex_val :: "char \<Rightarrow> int option" where
  "hex_val c = (let n = of_char c :: int in
     if 48 \<le> n \<and> n \<le> 57 then Some (n - 48)
     else if 97 \<le> n \<and> n \<le> 102 then Some (n - 87)
     else if 65 \<le> n \<and> n \<le> 70 then Some (n - 55) else None)"

fun hex_acc :: "int \<Rightarrow> string \<Rightarrow> int option" where
  "hex_acc a [] = Some a"
| "hex_acc a (c # cs) = (case hex_val c of None \<Rightarrow> None | Some d \<Rightarrow> hex_acc (16 * a + d) cs)"

text \<open>\<open>int(s, 16)\<close>: an optional sign and an optional prefix \<open>0x\<close>.\<close>

definition hex_digits :: "string \<Rightarrow> int result" where
  "hex_digits s =
     (let ds = (case s of a # b # r \<Rightarrow> if a = CHR ''0'' \<and> b \<in> {CHR ''x'', CHR ''X''} then r else s | _ \<Rightarrow> s)
      in if ds = [] then Inl ValueError
         else case hex_acc 0 ds of None \<Rightarrow> Inl ValueError | Some n \<Rightarrow> Inr n)"

definition parse_hex :: "string \<Rightarrow> int result" where
  "parse_hex s = (case strip s of
       [] \<Rightarrow> Inl ValueError
     | c # cs \<Rightarrow>
         if c = CHR ''-'' then res_bind (hex_digits cs) (\<lambda>n. Inr (- n))
         else if c = CHR ''+'' then hex_digits cs
         else hex_digits (c # cs))"

text \<open>\<open>float(s)\<close>: decimal fractions with an optional exponent.\<close>

definition is_digit :: "char \<Rightarrow> bool" where
  "is_digit c \<longleftrightarrow> digit_val c \<noteq> None"

fun fraction :: "real \<Rightarrow> string \<Rightarrow> real" where
  "fraction w [] = 0"
| "fraction w (c # cs) = (case digit_val c of None \<Rightarrow> 0 | Some d \<Rightarrow> of_int d * w + fraction (w / 10) cs)"

fun scaled :: "real \<Rightarrow> int \<Rightarrow> real" where
  "scaled m e = (if 0 \<le> e then m * 10 ^ nat e else m / 10 ^ nat (- e))"

definition unsigned_float :: "string \<Rightarrow> real result" where
  "unsigned_float s =
     (let whole = takeWhile is_digit s; r = dropWhile is_digit s;
          frac = (case r of c # r2 \<Rightarrow> if c = CHR ''.'' then takeWhile is_digit r2 else [] | [] \<Rightarrow> []);
          r3 = (case r of c # r2 \<Rightarrow> if c = CHR ''.'' then dropWhile is_digit r2 else r | [] \<Rightarrow> []);
          m = (case digits_acc 0 whole of None \<Rightarrow> 0 | Some n \<Rightarrow> of_int n) + fraction (1 / 10) frac
      in if whole = [] \<and> frac = [] then Inl ValueError
         else (case r3 of [] \<Rightarrow> Inr m
           | c # e \<Rightarrow> if c \<in> {CHR ''e'', CHR ''E''}
               then (case e of [] \<Rightarrow> Inl ValueError
                 | d # ds \<Rightarrow>
                     if d = CHR ''-'' then res_bind (parse_digits ds) (\<lambda>n. Inr (scaled m (- n)))
                     else if d = CHR ''+'' then res_bind (parse_digits ds) (\<lambda>n. Inr (scaled m n))
                     else res_bind (parse_digits e) (\<lambda>n. Inr (scaled m n)))
               else Inl ValueError))"

definition parse_float :: "string \<Rightarrow> real result" where
  "parse_float s = (case strip s of
       [] \<Rightarrow> Inl ValueError
     | c # cs \<Rightarrow>
         if c = CHR ''-'' then res_bind (unsigned_float cs) (\<lambda>x. Inr (- x))
         else if c = CHR ''+'' then unsigned_float cs
         else unsigned_float (c # cs))"

lemma parse_hex_example: "parse_hex '' 0x1fA '' = Inr 506" "parse_hex ''-10'' = Inr (- 16)" "parse_hex ''0x'' = Inl ValueError"
  by code_simp+

section \<open>Reading in actions, and loops\<close>

definition index_then :: "json \<Rightarrow> string list \<Rightarrow> (json \<Rightarrow> ('s, py_error, 'a) act) \<Rightarrow> ('s, py_error, 'a) act" where
  "index_then j ks k = act_bind (give (json_path j ks)) k"

definition get_then :: "json \<Rightarrow> string \<Rightarrow> json \<Rightarrow> (json \<Rightarrow> ('s, py_error, 'a) act) \<Rightarrow> ('s, py_error, 'a) act" where
  "get_then j key dflt k = act_bind (give (json_get j key dflt)) k"

text \<open>A \<open>for\<close> loop: the first iteration that raises ends it. \<open>act_gather\<close> collects what the iterations append to a list.\<close>

fun act_each :: "('x \<Rightarrow> ('s, 'e, unit) act) \<Rightarrow> 'x list \<Rightarrow> ('s, 'e, unit) act" where
  "act_each f [] = finish ()"
| "act_each f (x # xs) = act_bind (f x) (\<lambda>_. act_each f xs)"

fun act_gather :: "('x \<Rightarrow> ('s, 'e, 'y list) act) \<Rightarrow> 'x list \<Rightarrow> ('s, 'e, 'y list) act" where
  "act_gather f [] = finish []"
| "act_gather f (x # xs) = act_bind (f x) (\<lambda>ys. act_bind (act_gather f xs) (\<lambda>zs. finish (ys @ zs)))"

definition for_each :: "json \<Rightarrow> (json \<Rightarrow> ('s, py_error, unit) act) \<Rightarrow> ('s, py_error, unit) act" where
  "for_each j f = act_bind (give (json_iter j)) (act_each f)"

definition gather_from :: "json \<Rightarrow> (json \<Rightarrow> ('s, py_error, 'y list) act) \<Rightarrow> ('s, py_error, 'y list) act" where
  "gather_from j f = act_bind (give (json_iter j)) (act_gather f)"

lemma act_bind_finish: "act_bind (finish x) k = k x"
  by (rule ext) (simp add: act_bind_def finish_def)

lemma act_bind_assoc: "act_bind (act_bind f g) k = act_bind f (\<lambda>x. act_bind (g x) k)"
  by (rule ext) (simp add: act_bind_def split: prod.split sum.split)

section \<open>What actions leave alone\<close>

text \<open>
  A relation between the state before and after that is reflexive and transitive holds for a whole method when it holds
  for its steps, also when one of them raises.
\<close>

locale act_frame =
  fixes R :: "'s \<Rightarrow> 's \<Rightarrow> bool"
  assumes step_refl: "R s s" and step_trans: "R s t \<Longrightarrow> R t u \<Longrightarrow> R s u"
begin

definition framed :: "('s, py_error, 'a) act \<Rightarrow> bool" where
  "framed f \<longleftrightarrow> (\<forall>s. R s (snd (f s)))"

lemma framedI: "(\<And>s. R s (snd (f s))) \<Longrightarrow> framed f"
  by (simp add: framed_def)

lemma framedD: "framed f \<Longrightarrow> R s (snd (f s))"
  by (simp add: framed_def)

lemma framed_give: "framed (give r)" and framed_finish: "framed (finish x)" and framed_raise: "framed (raise_error e)"
  and framed_read: "framed (act_read g)"
  by (simp_all add: framed_def give_def finish_def raise_error_def act_read_def step_refl)

lemma framed_bind: "framed f \<Longrightarrow> (\<And>x. framed (k x)) \<Longrightarrow> framed (act_bind f k)"
  unfolding framed_def act_bind_def
  by (auto split: prod.split sum.split) (metis step_trans snd_conv)+

lemma framed_catch: "framed f \<Longrightarrow> (\<And>e k. h e = Some k \<Longrightarrow> framed k) \<Longrightarrow> framed (act_catch f h)"
  unfolding framed_def act_catch_def
  by (auto split: prod.split sum.split option.split) (metis step_trans snd_conv)+

lemma framed_known: "(\<And>x. r = Inr x \<Longrightarrow> framed (k x)) \<Longrightarrow> framed (act_bind (give r) k)"
  by (cases r) (simp_all add: framed_def act_bind_def give_def step_refl)

lemma framed_index: "(\<And>x. framed (k x)) \<Longrightarrow> framed (index_then j ks k)"
  unfolding index_then_def by (intro framed_bind framed_give)

lemma framed_get: "(\<And>x. framed (k x)) \<Longrightarrow> framed (get_then j key d k)"
  unfolding get_then_def by (intro framed_bind framed_give)

lemma framed_each: "(\<And>x. framed (f x)) \<Longrightarrow> framed (act_each f xs)"
  by (induction xs) (auto intro: framed_bind framed_finish)

lemma framed_gather: "(\<And>x. framed (f x)) \<Longrightarrow> framed (act_gather f xs)"
  by (induction xs) (auto intro!: framed_bind framed_finish)

lemma framed_for: "(\<And>x. framed (f x)) \<Longrightarrow> framed (for_each j f)"
  unfolding for_each_def by (intro framed_bind framed_give framed_each)

lemma framed_gather_from: "(\<And>x. framed (f x)) \<Longrightarrow> framed (gather_from j f)"
  unfolding gather_from_def by (intro framed_bind framed_give framed_gather)

lemma framed_if: "framed f \<Longrightarrow> framed g \<Longrightarrow> framed (if b then f else g)"
  by simp

lemma framed_option: "framed f \<Longrightarrow> (\<And>x. framed (g x)) \<Longrightarrow> framed (case m of None \<Rightarrow> f | Some x \<Rightarrow> g x)"
  by (cases m) simp_all

lemma framed_prod: "(\<And>x y. framed (g x y)) \<Longrightarrow> framed (case p of (x, y) \<Rightarrow> g x y)"
  by (cases p) simp

lemma framed_let: "(\<And>x. framed (g x)) \<Longrightarrow> framed (let x = v in g x)"
  by simp

lemmas framed_rules = framed_bind framed_give framed_finish framed_raise framed_read framed_index framed_get framed_for
  framed_gather_from framed_if framed_option framed_prod framed_let

end

text \<open>The results of a loop, when every iteration that returns computes the same function of its element.\<close>

lemma gather_maps:
  assumes "act_gather f xs s = (Inr ys, s')" "\<And>x s y t. x \<in> set xs \<Longrightarrow> f x s = (Inr y, t) \<Longrightarrow> \<exists>z. g x = Inr z \<and> y = h z"
  shows "\<exists>zs. res_map g xs = Inr zs \<and> ys = concat (map h zs)"
  using assms
proof (induction xs arbitrary: s ys)
  case Nil
  then show ?case by (simp add: finish_def)
next
  case (Cons x xs)
  then obtain y s1 zs where 1: "f x s = (Inr y, s1)" and 2: "act_gather f xs s1 = (Inr zs, s')" and 3: "ys = y @ zs"
    by (auto simp: act_bind_Inr finish_def)
  obtain us where "res_map g xs = Inr us" "zs = concat (map h us)"
    using Cons.IH[OF 2] Cons.prems(2) by force
  with 3 Cons.prems(2)[OF _ 1] show ?case by auto
qed

end
