(* ===== verification/Tables.thy ===== *)
theory Tables
  imports Proto GameMechanics Stats
begin

text \<open>
  The tables the submission of scanned data writes (\<open>mapadroid/db/model.py\<close>), the session it writes through, the Redis cache
  it consults, and the lookups of \<open>mapadroid/db/helper\<close>. A column that takes a value straight from the message is \<open>json\<close>
  (\<open>None\<close> is \<open>JNull\<close>), a time is the second since the epoch.
\<close>

section \<open>Rows\<close>

record pokemon =
  pk_spawnpoint_id :: json
  pk_pokemon_id :: json
  pk_latitude :: json
  pk_longitude :: json
  pk_disappear_time :: "real option"
  pk_individual_attack :: json
  pk_individual_defense :: json
  pk_individual_stamina :: json
  pk_move_1 :: json
  pk_move_2 :: json
  pk_cp :: json
  pk_cp_multiplier :: json
  pk_weight :: json
  pk_height :: json
  pk_gender :: json
  pk_form :: json
  pk_costume :: json
  pk_catch_prob_1 :: json
  pk_catch_prob_2 :: json
  pk_catch_prob_3 :: json
  pk_rating_attack :: json
  pk_rating_defense :: json
  pk_weather_boosted :: json
  pk_last_modified :: "real option"
  pk_fort_id :: json
  pk_cell_id :: json
  pk_seen_type :: "mon_seen_type option"
  pk_size :: json

definition new_pokemon :: pokemon where
  "new_pokemon = \<lparr>pk_spawnpoint_id = JNull, pk_pokemon_id = JNull, pk_latitude = JNull, pk_longitude = JNull, pk_disappear_time = None,
     pk_individual_attack = JNull, pk_individual_defense = JNull, pk_individual_stamina = JNull, pk_move_1 = JNull, pk_move_2 = JNull,
     pk_cp = JNull, pk_cp_multiplier = JNull, pk_weight = JNull, pk_height = JNull, pk_gender = JNull, pk_form = JNull, pk_costume = JNull,
     pk_catch_prob_1 = JNull, pk_catch_prob_2 = JNull, pk_catch_prob_3 = JNull, pk_rating_attack = JNull, pk_rating_defense = JNull,
     pk_weather_boosted = JNull, pk_last_modified = None, pk_fort_id = JNull, pk_cell_id = JNull, pk_seen_type = None, pk_size = JNull\<rparr>"

record pokemon_display =
  pd_pokemon :: json
  pd_gender :: json
  pd_form :: json
  pd_costume :: json

record spawn =
  sp_latitude :: real
  sp_longitude :: real
  sp_spawndef :: int
  sp_earliest_unseen :: int
  sp_last_scanned :: "real option"
  sp_first_detection :: "real option"
  sp_last_non_scanned :: "real option"
  sp_calc_endminsec :: "string option"
  sp_eventid :: int

record trs_event =
  ev_id :: int
  ev_name :: string
  ev_start :: real
  ev_end :: real
  ev_lure_duration :: "int option"

record pokestop =
  st_enabled :: json
  st_latitude :: json
  st_longitude :: json
  st_last_modified :: "real option"
  st_lure_expiration :: "real option"
  st_active_fort_modifier :: json
  st_last_updated :: "real option"
  st_name :: json
  st_image :: json
  st_is_ar_scan_eligible :: json

definition new_pokestop :: pokestop where
  "new_pokestop = \<lparr>st_enabled = JNull, st_latitude = JNull, st_longitude = JNull, st_last_modified = None, st_lure_expiration = None,
     st_active_fort_modifier = JNull, st_last_updated = None, st_name = JNull, st_image = JNull, st_is_ar_scan_eligible = JNull\<rparr>"

record incident =
  in_start :: "real option"
  in_expiration :: "real option"
  in_hide :: json
  in_display_type :: json
  in_display_order :: json
  in_custom_display :: json
  in_cross_stop :: json
  in_character :: json

definition new_incident :: incident where
  "new_incident = \<lparr>in_start = None, in_expiration = None, in_hide = JNull, in_display_type = JNull, in_display_order = JNull,
     in_custom_display = JNull, in_cross_stop = JNull, in_character = JNull\<rparr>"

record gym =
  gy_team_id :: json
  gy_guard_pokemon_id :: json
  gy_slots_available :: json
  gy_enabled :: json
  gy_latitude :: json
  gy_longitude :: json
  gy_total_cp :: json
  gy_is_in_battle :: json
  gy_weather_boosted :: json
  gy_last_modified :: "real option"
  gy_last_scanned :: "real option"
  gy_is_ex_raid_eligible :: json
  gy_is_ar_scan_eligible :: json

record gym_detail =
  gd_name :: json
  gd_description :: json
  gd_url :: json
  gd_last_scanned :: "real option"

record raid =
  ra_level :: json
  ra_spawn :: real
  ra_start :: real
  ra_end :: real
  ra_pokemon_id :: json
  ra_cp :: json
  ra_move_1 :: json
  ra_move_2 :: json
  ra_last_scanned :: real
  ra_form :: json
  ra_is_exclusive :: json
  ra_gender :: json
  ra_costume :: json
  ra_evolution :: json

record quest =
  qu_type :: json
  qu_timestamp :: int
  qu_stardust :: json
  qu_pokemon_id :: json
  qu_reward_type :: json
  qu_item_id :: json
  qu_item_amount :: json
  qu_target :: json
  qu_condition :: json
  qu_reward :: json
  qu_template :: json
  qu_task :: string
  qu_form_id :: json
  qu_costume_id :: json
  qu_title :: json

record s2cell =
  ll_level :: int
  ll_latitude :: real
  ll_longitude :: real
  ll_updated :: int

record weather =
  we_latitude :: real
  we_longitude :: real
  we_cloud_level :: json
  we_rain_level :: json
  we_wind_level :: json
  we_snow_level :: json
  we_fog_level :: json
  we_wind_direction :: json
  we_gameplay_weather :: json
  we_severity :: int
  we_warn_weather :: int
  we_world_time :: json
  we_last_updated :: real

record route_poi =
  poi_fort_id :: json
  poi_latitude :: json
  poi_longitude :: json
  poi_image_url :: json

record mon_route =
  ro_waypoints :: json
  ro_type :: json
  ro_path_type :: json
  ro_name :: json
  ro_description :: json
  ro_version :: json
  ro_reversible :: json
  ro_submission_time :: real
  ro_distance :: json
  ro_duration :: json
  ro_pins :: json
  ro_tags :: json
  ro_image :: json
  ro_border_color :: json
  ro_status :: json
  ro_update_time :: real
  ro_start_poi :: route_poi
  ro_end_poi :: route_poi
  ro_last_updated :: real

section \<open>The session\<close>

record tables =
  t_pokemon :: "(int, pokemon) dict"
  t_display :: "(int, pokemon_display) dict"
  t_seen :: "(int, seen_entry) dict"
  t_spawn :: "(int, spawn) dict"
  t_event :: "trs_event list"
  t_stop :: "(json, pokestop) dict"
  t_incident :: "(json \<times> json, incident) dict"
  t_gym :: "(json, gym) dict"
  t_gymdetail :: "(json, gym_detail) dict"
  t_raid :: "(json, raid) dict"
  t_quest :: "(json \<times> int, quest) dict"
  t_route :: "(json, mon_route) dict"
  t_weather :: "(string, weather) dict"
  t_cell :: "(int, s2cell) dict"

text \<open>
  \<open>live\<close> is what has been flushed by the session, \<open>unflushed\<close> the change of the rows it holds since then (\<open>None\<close> of the tables
  when they cannot take it), \<open>stored\<close> what has been committed. \<open>conflicts\<close> says of the next writes of the session whether the
  database refuses them with an \<open>IntegrityError\<close> (another session was faster, or a constraint is broken); after its end all are
  accepted. The cache maps a key to the end of its life.
\<close>

type_synonym change = "tables \<Rightarrow> tables option"

record db_session =
  live :: tables
  unflushed :: "change option"
  stored :: tables
  conflicts :: "bool list"
  cache :: "(string, real) dict"

type_synonym 'a db = "(db_session, py_error, 'a) act"

text \<open>A write: \<open>False\<close> and no change when it is refused.\<close>

definition try_write :: "change \<Rightarrow> bool db" where
  "try_write f s =
     (let refused = (case conflicts s of [] \<Rightarrow> False | c # cs \<Rightarrow> c); s1 = s\<lparr>conflicts := tl (conflicts s)\<rparr>
      in case f (live s) of
           None \<Rightarrow> (Inr False, s1)
         | Some t \<Rightarrow> if refused then (Inr False, s1) else (Inr True, s1\<lparr>live := t\<rparr>))"

text \<open>\<open>session.rollback()\<close>, and the end of a session: what is not committed is gone.\<close>

definition session_rollback :: "unit db" where
  "session_rollback = act_do (\<lambda>s. s\<lparr>live := stored s, unflushed := None\<rparr>)"

text \<open>A flush that is refused raises and undoes the transaction.\<close>

definition session_flush :: "unit db" where
  "session_flush = act_bind (act_read unflushed) (\<lambda>u. case u of
       None \<Rightarrow> finish ()
     | Some f \<Rightarrow> act_bind (act_do (\<lambda>s. s\<lparr>unflushed := None\<rparr>)) (\<lambda>_. act_bind (try_write f)
         (\<lambda>ok. if ok then finish () else act_bind session_rollback (\<lambda>_. raise_error IntegrityError))))"

text \<open>A row the session already holds is changed, or a new one is added outside of a savepoint.\<close>

definition change_rows :: "change \<Rightarrow> unit db" where
  "change_rows f = act_do (\<lambda>s. s\<lparr>unflushed := Some (case unflushed s of None \<Rightarrow> f | Some g \<Rightarrow> (\<lambda>t. Option.bind (g t) f))\<rparr>)"

text \<open>\<open>begin_nested()\<close> flushes first; the commit of the savepoint writes what was changed within.\<close>

definition begin_nested :: "unit db" where
  "begin_nested = session_flush"

definition nested_commit :: "(tables \<Rightarrow> tables) \<Rightarrow> bool db" where
  "nested_commit f = try_write (\<lambda>t. Some (f t))"

definition session_commit :: "unit db" where
  "session_commit = act_bind session_flush (\<lambda>_. act_do (\<lambda>s. s\<lparr>stored := live s\<rparr>))"

text \<open>
  A row changed before the savepoint is begun and added within: an existing one is flushed by \<open>begin_nested\<close>, a new one is
  written by the commit of the savepoint. The result is whether it is written.
\<close>

definition save_row :: "bool \<Rightarrow> (tables \<Rightarrow> tables) \<Rightarrow> bool db" where
  "save_row existing f =
     (if existing then act_bind (change_rows (\<lambda>t. Some (f t))) (\<lambda>_. act_bind begin_nested (\<lambda>_. finish True))
      else act_bind begin_nested (\<lambda>_. nested_commit f))"

section \<open>The cache\<close>

text \<open>Redis refuses a life time that is not positive.\<close>

definition cache_exists :: "real \<Rightarrow> string \<Rightarrow> bool db" where
  "cache_exists t key = act_read (\<lambda>s. case map_of (cache s) key of None \<Rightarrow> False | Some e \<Rightarrow> t < e)"

definition cache_set :: "real \<Rightarrow> string \<Rightarrow> int \<Rightarrow> unit db" where
  "cache_set t key ex =
     (if ex \<le> 0 then raise_error ResponseError
      else act_do (\<lambda>s. s\<lparr>cache := AList.update key (t + of_int ex) (cache s)\<rparr>))"

section \<open>Lookups\<close>

definition find_row :: "(tables \<Rightarrow> ('k, 'v) dict) \<Rightarrow> 'k \<Rightarrow> 'v option db" where
  "find_row tab k = act_read (\<lambda>s. map_of (tab (live s)) k)"

text \<open>Running events, the latest start first.\<close>

definition get_current_event :: "real \<Rightarrow> bool \<Rightarrow> trs_event option db" where
  "get_current_event t include_default = act_read (\<lambda>s.
     case rev (sort_key ev_start (filter (\<lambda>e. ev_start e < t \<and> t < ev_end e \<and> (include_default \<or> ev_name e \<noteq> ''DEFAULT''))
                                  (t_event (live s)))) of
       [] \<Rightarrow> None
     | e # es \<Rightarrow> Some e)"

definition insert_ignore_display :: "int \<Rightarrow> pokemon_display \<Rightarrow> tables \<Rightarrow> tables" where
  "insert_ignore_display enc row t =
     (if map_of (t_display t) enc = None then t\<lparr>t_display := AList.update enc row (t_display t)\<rparr> else t)"

end
