(* ===== verification/SubmitMons.thy ===== *)
theory SubmitMons
  imports Tables
begin

text \<open>
  \<open>mapadroid/db/DbPogoProtoSubmit.py\<close>, the mons of a map, nearby and lured mons, encounters, and the times a mon was
  seen.
\<close>

record submit_env =
  sb_now :: real
  sb_unknown_timeleft :: int
  sb_nearby_timeleft :: int
  sb_disable_nearby_cell :: bool
  sb_show :: "json \<Rightarrow> string"
  sb_cell_position :: "int \<Rightarrow> real \<times> real"
  sb_cell_of :: "real \<Rightarrow> real \<Rightarrow> int"
  sb_middle_of_cell :: "json \<Rightarrow> real \<times> real"
  sb_questtask :: "int \<Rightarrow> json \<Rightarrow> int \<Rightarrow> string \<Rightarrow> json \<Rightarrow> string"

abbreviation str_of :: "submit_env \<Rightarrow> json \<Rightarrow> string" where
  "str_of env \<equiv> py_str (sb_show env)"

definition REDIS_CACHETIME_MON_LURE_IV :: int where "REDIS_CACHETIME_MON_LURE_IV = 180"

text \<open>Ids of encounters are signed in the message and unsigned in the table.\<close>

definition unsigned_id :: "int \<Rightarrow> int" where
  "unsigned_id i = (if i < 0 then i + 2 ^ 64 else i)"

definition encounter_id_then :: "json \<Rightarrow> (int \<Rightarrow> 'a db) \<Rightarrow> 'a db" where
  "encounter_id_then j k = act_bind (give (json_int j)) (\<lambda>i. k (unsigned_id i))"

definition put_pokemon :: "int \<Rightarrow> pokemon \<Rightarrow> tables \<Rightarrow> tables" where
  "put_pokemon enc p t = t\<lparr>t_pokemon := AList.update enc p (t_pokemon t)\<rparr>"

section \<open>Mons of a map\<close>

text \<open>Number 132 is Ditto; any other mon takes its looks from the display of the message.\<close>

definition set_looks :: "json \<Rightarrow> json \<Rightarrow> pokemon \<Rightarrow> pokemon result" where
  "set_looks mon_id display mon =
     (if equals_int mon_id 132
      then Inr (mon\<lparr>pk_pokemon_id := JInt 132, pk_gender := JInt 3, pk_costume := JInt 0, pk_form := JInt 0\<rparr>)
      else res_bind (json_index display ''gender_value'') (\<lambda>g. res_bind (json_index display ''costume_value'') (\<lambda>c.
           res_bind (json_index display ''form_value'') (\<lambda>f.
           Inr (mon\<lparr>pk_pokemon_id := mon_id, pk_gender := g, pk_costume := c, pk_form := f\<rparr>)))))"

definition wild_row :: "submit_env \<Rightarrow> int \<Rightarrow> json \<Rightarrow> int \<Rightarrow> real \<Rightarrow> pokemon option \<Rightarrow> pokemon result" where
  "wild_row env timestamp wild_mon spawnid despawn row =
     res_bind (json_path wild_mon [''latitude'']) (\<lambda>lat. res_bind (json_path wild_mon [''longitude'']) (\<lambda>lon.
     res_bind (json_path wild_mon [''pokemon_data'', ''id'']) (\<lambda>mon_id.
     let mon = (case row of Some m \<Rightarrow> m
          | None \<Rightarrow> new_pokemon\<lparr>pk_spawnpoint_id := JInt spawnid, pk_latitude := lat, pk_longitude := lon\<rparr>);
         mon = (if pk_seen_type mon \<in> {Some encounter, Some lure_encounter} then mon else mon\<lparr>pk_seen_type := Some wild\<rparr>)
     in res_bind (if equals_int mon_id 132 then Inr JNull else json_path wild_mon [''pokemon_data'', ''display'']) (\<lambda>display.
        res_bind (set_looks mon_id display mon) (\<lambda>mon.
        res_bind (json_path wild_mon [''pokemon_data'', ''display'', ''weather_boosted_value'']) (\<lambda>w.
        Inr (mon\<lparr>pk_disappear_time := Some despawn, pk_weather_boosted := w, pk_last_modified := Some (of_int timestamp)\<rparr>)))))))"

definition known_endminsec :: "spawn option \<Rightarrow> string option" where
  "known_endminsec spawnpoint = (case spawnpoint of None \<Rightarrow> None | Some sp \<Rightarrow> sp_calc_endminsec sp)"

text \<open>Cached until the mon despawns, if that is ahead.\<close>

definition cache_until :: "submit_env \<Rightarrow> string \<Rightarrow> int \<Rightarrow> unit db" where
  "cache_until env key despawn =
     (let cache_time = despawn - \<lfloor>sb_now env\<rfloor> in if cache_time > 0 then cache_set (sb_now env) key cache_time else finish ())"

definition submit_wild :: "submit_env \<Rightarrow> int \<Rightarrow> json \<Rightarrow> int list db" where
  "submit_wild env timestamp wild_mon =
     index_then wild_mon [''spawnpoint_id''] (\<lambda>sp. act_bind (give (parse_hex (str_of env sp))) (\<lambda>spawnid.
     index_then wild_mon [''latitude''] (\<lambda>lat. index_then wild_mon [''longitude''] (\<lambda>lon.
     index_then wild_mon [''pokemon_data'', ''id''] (\<lambda>mon_id.
     index_then wild_mon [''encounter_id''] (\<lambda>e. encounter_id_then e (\<lambda>encounter_id.
     let cache_key = ''mon'' @ show_int encounter_id @ ''-'' @ str_of env mon_id in
     act_bind (cache_exists (sb_now env) cache_key) (\<lambda>known.
     if known then finish [encounter_id] else
     act_bind (find_row t_spawn spawnid) (\<lambda>spawnpoint.
     act_bind (give (gen_despawn_timestamp (sb_now env) (known_endminsec spawnpoint) timestamp (sb_unknown_timeleft env))) (\<lambda>despawn.
     act_bind begin_nested (\<lambda>_. act_bind (find_row t_pokemon encounter_id) (\<lambda>row.
     act_bind (give (wild_row env timestamp wild_mon spawnid (of_int despawn) row)) (\<lambda>mon.
     act_bind (nested_commit (put_pokemon encounter_id mon)) (\<lambda>ok.
     if ok then act_bind (cache_until env cache_key despawn) (\<lambda>_. act_bind session_commit (\<lambda>_. finish [encounter_id]))
     else finish [encounter_id]))))))))))))))"

definition mons :: "submit_env \<Rightarrow> int \<Rightarrow> json \<Rightarrow> int list db" where
  "mons env timestamp map_proto =
     get_then map_proto ''cells'' JNull (\<lambda>cells.
       if \<not> truthy cells then finish []
       else gather_from cells (\<lambda>cell. index_then cell [''wild_pokemon''] (\<lambda>wilds.
              gather_from wilds (submit_wild env timestamp))))"

section \<open>Nearby mons\<close>

text \<open>Where a nearby mon is: at the middle of its cell, or at the stop or gym it is near to; the flag says whether it is a cell.\<close>

definition nearby_place :: "submit_env \<Rightarrow> json \<Rightarrow> json \<Rightarrow> (bool \<times> json \<times> json \<times> json \<times> json) db" where
  "nearby_place env cell_id stop_id =
     (if \<not> sb_disable_nearby_cell env \<and> \<not> truthy stop_id \<and> truthy cell_id
      then act_bind (give (json_to_int cell_id)) (\<lambda>c.
             finish (True, JFloat (fst (sb_cell_position env c)), JFloat (snd (sb_cell_position env c)), cell_id, JNull))
      else act_bind (find_row t_stop stop_id) (\<lambda>stop. case stop of
             Some st \<Rightarrow> finish (False, st_latitude st, st_longitude st, JNull, stop_id)
           | None \<Rightarrow> act_bind (find_row t_gym stop_id) (\<lambda>gym. case gym of
                 Some g \<Rightarrow> finish (False, gy_latitude g, gy_longitude g, JNull, stop_id)
               | None \<Rightarrow> finish (False, JInt 0, JInt 0, JNull, stop_id))))"

definition nearby_row ::
    "submit_env \<Rightarrow> int \<Rightarrow> json \<Rightarrow> bool \<times> json \<times> json \<times> json \<times> json \<Rightarrow> json \<Rightarrow> json \<Rightarrow> pokemon option \<Rightarrow> pokemon result" where
  "nearby_row env timestamp display place mon_id weather_boosted row =
     (case place of (is_cell, latitude, longitude, db_cell, stop_id) \<Rightarrow>
        let mon = (case row of Some m \<Rightarrow> m
             | None \<Rightarrow> new_pokemon\<lparr>pk_spawnpoint_id := JInt 0, pk_latitude := latitude, pk_longitude := longitude, pk_cell_id := db_cell,
                 pk_fort_id := stop_id, pk_seen_type := Some (if is_cell then nearby_cell else nearby_stop),
                 pk_disappear_time := Some (of_int timestamp + of_int (60 * sb_nearby_timeleft env))\<rparr>)
        in res_bind (set_looks mon_id display mon) (\<lambda>mon.
           Inr (mon\<lparr>pk_weather_boosted := weather_boosted, pk_last_modified := Some (of_int timestamp)\<rparr>)))"

definition submit_nearby :: "submit_env \<Rightarrow> int \<Rightarrow> json \<Rightarrow> json \<Rightarrow> (bool \<times> int) list db" where
  "submit_nearby env timestamp cell_id nearby_mon =
     index_then nearby_mon [''display''] (\<lambda>display.
     index_then display [''weather_boosted_value''] (\<lambda>weather_boosted.
     index_then nearby_mon [''id''] (\<lambda>mon_id.
     index_then nearby_mon [''encounter_id''] (\<lambda>e. encounter_id_then e (\<lambda>encounter_id.
     let cache_key = ''monnear'' @ show_int encounter_id @ ''-'' @ str_of env mon_id;
         encounter_key = ''moniv'' @ show_int encounter_id @ ''-'' @ str_of env weather_boosted @ ''-'' @ str_of env mon_id;
         wild_key = ''mon'' @ show_int encounter_id @ ''-'' @ str_of env mon_id
     in act_bind (cache_exists (sb_now env) wild_key) (\<lambda>a. act_bind (cache_exists (sb_now env) encounter_key) (\<lambda>b.
        act_bind (cache_exists (sb_now env) cache_key) (\<lambda>c.
        if a \<or> b \<or> c then finish [] else
        index_then nearby_mon [''fort_id''] (\<lambda>stop_id.
        index_then display [''form_value''] (\<lambda>_. index_then display [''costume_value''] (\<lambda>_. index_then display [''gender_value''] (\<lambda>_.
        act_bind (nearby_place env cell_id stop_id) (\<lambda>place.
        act_bind begin_nested (\<lambda>_. act_bind (find_row t_pokemon encounter_id) (\<lambda>row.
        act_bind (give (nearby_row env timestamp display place mon_id weather_boosted row)) (\<lambda>mon.
        act_bind (nested_commit (put_pokemon encounter_id mon)) (\<lambda>ok.
        if ok then act_bind (cache_set (sb_now env) cache_key (sb_nearby_timeleft env * 60)) (\<lambda>_. finish [(fst place, encounter_id)])
        else finish [(fst place, encounter_id)])))))))))))))))))"

definition mons_nearby :: "submit_env \<Rightarrow> int \<Rightarrow> json \<Rightarrow> (int list \<times> int list) db" where
  "mons_nearby env timestamp map_proto =
     get_then map_proto ''cells'' (JList []) (\<lambda>cells.
       if \<not> truthy cells then finish ([], [])
       else act_bind (gather_from cells (\<lambda>cell. get_then cell ''id'' JNull (\<lambda>cell_id.
              get_then cell ''nearby_pokemon'' (JList []) (\<lambda>nearby. gather_from nearby (submit_nearby env timestamp cell_id)))))
            (\<lambda>found. finish (map snd (filter fst found), map snd (filter (\<lambda>x. \<not> fst x) found))))"

section \<open>Encounters\<close>

definition optional_int :: "json \<Rightarrow> int option result" where
  "optional_int j = (if j = JNull then Inr None else res_bind (json_int j) (\<lambda>i. Inr (Some i)))"

definition optional_num :: "json \<Rightarrow> real option result" where
  "optional_num j = (if j = JNull then Inr None else res_bind (json_num j) (\<lambda>i. Inr (Some i)))"

text \<open>What the Ditto check reads of a decoded mon.\<close>

definition ditto_view :: "json \<Rightarrow> encounter_mon result" where
  "ditto_view data =
     res_bind (json_get data ''display'' (JDict [])) (\<lambda>display.
     res_bind (json_get display ''weather_boosted_value'' JNull) (\<lambda>w. res_bind (optional_int w) (\<lambda>w.
     res_bind (res_bind (json_get data ''individual_attack'' JNull) optional_int) (\<lambda>a.
     res_bind (res_bind (json_get data ''individual_defense'' JNull) optional_int) (\<lambda>d.
     res_bind (res_bind (json_get data ''individual_stamina'' JNull) optional_int) (\<lambda>st.
     res_bind (res_bind (json_get data ''cp_multiplier'' JNull) optional_num) (\<lambda>m.
     Inr \<lparr>weather_boosted_value = w, individual_attack = a, individual_defense = d, individual_stamina = st, cp_multiplier = m\<rparr>)))))))"

definition extract_data_or_set_ditto :: "json \<Rightarrow> json \<Rightarrow> json \<Rightarrow> (json \<times> json \<times> json \<times> json \<times> json) result" where
  "extract_data_or_set_ditto mon_id data display =
     res_bind (res_bind (ditto_view data) is_mon_ditto) (\<lambda>ditto.
       if ditto then Inr (JInt 0, JInt 3, JInt 132, JInt 242, JInt 133)
       else res_bind (json_get display ''gender_value'' JNull) (\<lambda>gender. res_bind (json_get data ''move_1'' JNull) (\<lambda>move_1.
            res_bind (json_get data ''move_2'' JNull) (\<lambda>move_2. res_bind (json_get display ''form_value'' JNull) (\<lambda>form.
            Inr (form, gender, mon_id, move_1, move_2))))))"

text \<open>The disguise of a Ditto is kept.\<close>

definition maybe_save_ditto :: "json \<Rightarrow> int \<Rightarrow> json \<Rightarrow> json \<Rightarrow> (tables \<Rightarrow> tables) result" where
  "maybe_save_ditto display encounter_id mon_id data =
     (if equals_int mon_id 132
      then res_bind (json_get data ''id'' JNull) (\<lambda>i. res_bind (json_get display ''form_value'' JNull) (\<lambda>f.
           res_bind (json_get display ''gender_value'' JNull) (\<lambda>g. res_bind (json_get display ''costume_value'' JNull) (\<lambda>c.
           Inr (insert_ignore_display encounter_id \<lparr>pd_pokemon = i, pd_gender = g, pd_form = f, pd_costume = c\<rparr>)))))
      else Inr id)"

text \<open>The list is a text, \<open>[a, b, c]\<close>.\<close>

definition capture_texts :: "json \<Rightarrow> string list option result" where
  "capture_texts j =
     (if j = JNull then Inr None
      else res_bind (json_text j) (\<lambda>s. Inr (Some (split_char (CHR '','') (remove_char (CHR '']'') (remove_char (CHR ''['') s))))))"

definition capture_prob :: "string list \<Rightarrow> nat \<Rightarrow> json result" where
  "capture_prob texts i = (if i < length texts then res_bind (parse_float (texts ! i)) (\<lambda>x. Inr (JFloat x)) else Inl IndexError)"

definition set_capture_probs :: "string list \<Rightarrow> pokemon \<Rightarrow> pokemon result" where
  "set_capture_probs texts mon =
     res_bind (capture_prob texts 0) (\<lambda>a. res_bind (capture_prob texts 1) (\<lambda>b. res_bind (capture_prob texts 2) (\<lambda>c.
       Inr (mon\<lparr>pk_catch_prob_1 := a, pk_catch_prob_2 := b, pk_catch_prob_3 := c\<rparr>))))"

definition set_iv_data :: "json \<Rightarrow> pokemon \<Rightarrow> pokemon result" where
  "set_iv_data data mon =
     res_bind (json_get data ''individual_attack'' JNull) (\<lambda>a. res_bind (json_get data ''individual_defense'' JNull) (\<lambda>d.
     res_bind (json_get data ''individual_stamina'' JNull) (\<lambda>st. res_bind (json_get data ''cp'' JNull) (\<lambda>c.
     res_bind (json_get data ''cp_multiplier'' JNull) (\<lambda>m. res_bind (json_get data ''weight'' JNull) (\<lambda>w.
     res_bind (json_get data ''height'' JNull) (\<lambda>h.
     Inr (mon\<lparr>pk_individual_attack := a, pk_individual_defense := d, pk_individual_stamina := st, pk_cp := c,
            pk_cp_multiplier := m, pk_weight := w, pk_height := h\<rparr>))))))))"

definition encounter_row ::
    "json \<Rightarrow> json \<Rightarrow> json \<Rightarrow> int \<Rightarrow> int \<Rightarrow> json \<times> json \<times> json \<times> json \<times> json \<Rightarrow> string list option \<Rightarrow> real \<Rightarrow> pokemon option \<Rightarrow>
     pokemon result" where
  "encounter_row wild_pokemon data display timestamp spawnid looks texts despawn row =
     (case looks of (form, gender, mon_id, move_1, move_2) \<Rightarrow>
        res_bind (json_get wild_pokemon ''latitude'' JNull) (\<lambda>lat. res_bind (json_get wild_pokemon ''longitude'' JNull) (\<lambda>lon.
        res_bind (set_iv_data data (case row of None \<Rightarrow> new_pokemon | Some m \<Rightarrow> m)) (\<lambda>mon.
        res_bind (case texts of None \<Rightarrow> Inl TypeError | Some ts \<Rightarrow> set_capture_probs ts mon) (\<lambda>mon.
        res_bind (json_get display ''weather_boosted_value'' JNull) (\<lambda>w. res_bind (json_get display ''costume_value'' JNull) (\<lambda>c.
        res_bind (json_get data ''size'' JNull) (\<lambda>size.
        Inr (mon\<lparr>pk_spawnpoint_id := JInt spawnid, pk_pokemon_id := mon_id, pk_latitude := lat, pk_longitude := lon, pk_cell_id := JNull,
            pk_seen_type := Some encounter, pk_disappear_time := Some despawn, pk_move_1 := move_1, pk_move_2 := move_2,
            pk_gender := gender, pk_rating_attack := JNull, pk_rating_defense := JNull, pk_weather_boosted := w, pk_costume := c,
            pk_form := form, pk_last_modified := Some (of_int timestamp), pk_size := size\<rparr>)))))))))"

text \<open>An encounter without a mon, an id or a spawn point is of no use.\<close>

definition encounter_useless :: "submit_env \<Rightarrow> json \<Rightarrow> bool result" where
  "encounter_useless env wild_pokemon =
     (if wild_pokemon = JNull then Inr True
      else res_bind (json_get wild_pokemon ''encounter_id'' (JInt 0)) (\<lambda>e.
        if equals_int e 0 then Inr True
        else res_bind (json_path wild_pokemon [''spawnpoint_id'']) (\<lambda>sp. Inr (str_of env sp = []))))"

text \<open>
  What there is to write: the id, the change of the tables, the key of the cache, the despawn time and whether the mon is shiny;
  nothing for a useless encounter or a cached one.
\<close>

definition prepare_iv :: "submit_env \<Rightarrow> int \<Rightarrow> json \<Rightarrow> (int \<times> (tables \<Rightarrow> tables) \<times> string \<times> int \<times> bool) option db" where
  "prepare_iv env timestamp encounter_proto =
     get_then encounter_proto ''wild_pokemon'' JNull (\<lambda>wild_pokemon.
     act_bind (give (encounter_useless env wild_pokemon)) (\<lambda>useless. if useless then finish None else
     index_then wild_pokemon [''encounter_id''] (\<lambda>e. get_then wild_pokemon ''pokemon_data'' JNull (\<lambda>data.
     get_then data ''id'' JNull (\<lambda>mon_id. get_then data ''display'' (JDict []) (\<lambda>display.
     get_then display ''weather_boosted_value'' JNull (\<lambda>weather_boosted. encounter_id_then e (\<lambda>encounter_id.
     let cache_key = ''moniv'' @ show_int encounter_id @ ''-'' @ str_of env weather_boosted @ ''-'' @ str_of env mon_id in
     act_bind (cache_exists (sb_now env) cache_key) (\<lambda>known. if known then finish None else
     index_then wild_pokemon [''spawnpoint_id''] (\<lambda>sp. act_bind (give (parse_hex (str_of env sp))) (\<lambda>spawnid.
     act_bind (find_row t_spawn spawnid) (\<lambda>spawnpoint.
     act_bind (give (gen_despawn_timestamp (sb_now env) (known_endminsec spawnpoint) timestamp (sb_unknown_timeleft env))) (\<lambda>despawn.
     index_then wild_pokemon [''pokemon_data'', ''display''] (\<lambda>d. get_then d ''is_shiny'' (JInt 0) (\<lambda>shiny.
     index_then data [''id''] (\<lambda>_. get_then encounter_proto ''capture_probability'' JNull (\<lambda>cp.
     get_then cp ''capture_probability_list'' JNull (\<lambda>cpl. act_bind (give (capture_texts cpl)) (\<lambda>texts.
     act_bind (give (extract_data_or_set_ditto mon_id data display)) (\<lambda>looks.
     act_bind (find_row t_pokemon encounter_id) (\<lambda>row.
     act_bind (give (encounter_row wild_pokemon data display timestamp spawnid looks texts (of_int despawn) row)) (\<lambda>mon.
     act_bind (give (maybe_save_ditto display encounter_id (fst (snd (snd looks))) data)) (\<lambda>ditto.
     finish (Some (encounter_id, \<lambda>t. ditto (put_pokemon encounter_id mon t), cache_key, despawn, equals_int shiny 1)))))))))))))))))))))))))"

definition mon_iv :: "submit_env \<Rightarrow> int \<Rightarrow> json \<Rightarrow> (int \<times> bool) option db" where
  "mon_iv env timestamp encounter_proto =
     act_bind (prepare_iv env timestamp encounter_proto) (\<lambda>prepared. case prepared of
         None \<Rightarrow> finish None
       | Some (encounter_id, write, cache_key, despawn, is_shiny) \<Rightarrow>
           act_bind (change_rows (\<lambda>t. Some (write t))) (\<lambda>_. act_bind session_commit (\<lambda>_.
           act_bind (cache_until env cache_key despawn) (\<lambda>_. finish (Some (encounter_id, is_shiny))))))"

definition lure_encounter_row ::
    "json \<Rightarrow> json \<Rightarrow> int \<Rightarrow> json \<times> json \<times> json \<times> json \<times> json \<Rightarrow> string list option \<Rightarrow> pokemon option \<Rightarrow> pokemon result" where
  "lure_encounter_row data display timestamp looks texts row =
     (case looks of (form, gender, mon_id, move_1, move_2) \<Rightarrow>
        res_bind (set_iv_data data (case row of Some m \<Rightarrow> m
           | None \<Rightarrow> new_pokemon\<lparr>pk_latitude := JInt 0, pk_longitude := JInt 0, pk_spawnpoint_id := JInt 0,
               pk_disappear_time := Some (of_int timestamp + 120)\<rparr>)) (\<lambda>mon.
        res_bind (case texts of None \<Rightarrow> Inr mon | Some ts \<Rightarrow> set_capture_probs ts mon) (\<lambda>mon.
        res_bind (json_get display ''weather_boosted_value'' JNull) (\<lambda>w. res_bind (json_get display ''costume_value'' JNull) (\<lambda>c.
        Inr (mon\<lparr>pk_pokemon_id := mon_id, pk_costume := c, pk_form := form, pk_gender := gender, pk_seen_type := Some lure_encounter,
            pk_move_1 := move_1, pk_move_2 := move_2, pk_weather_boosted := w, pk_last_modified := Some (of_int timestamp)\<rparr>))))))"

text \<open>Here a refused write is not caught: the savepoint is undone and the exception leaves the method.\<close>

definition mon_lure_iv :: "submit_env \<Rightarrow> int \<Rightarrow> json \<Rightarrow> (int \<times> int) option db" where
  "mon_lure_iv env timestamp encounter_proto =
     get_then encounter_proto ''pokemon'' (JDict []) (\<lambda>data. get_then data ''id'' JNull (\<lambda>mon_id.
     get_then data ''display'' (JDict []) (\<lambda>display. get_then display ''weather_boosted_value'' JNull (\<lambda>weather_boosted.
     get_then display ''display_id'' (JInt 0) (\<lambda>e. encounter_id_then e (\<lambda>encounter_id.
     let cache_key = ''moniv'' @ show_int encounter_id @ ''-'' @ str_of env weather_boosted @ ''-'' @ str_of env mon_id in
     act_bind (cache_exists (sb_now env) cache_key) (\<lambda>known. if known then finish None else
     act_bind (give (extract_data_or_set_ditto mon_id data display)) (\<lambda>looks.
     get_then encounter_proto ''capture_probability'' (JDict []) (\<lambda>cp.
     get_then cp ''capture_probability_list'' JNull (\<lambda>cpl. act_bind (give (capture_texts cpl)) (\<lambda>texts.
     act_bind begin_nested (\<lambda>_. act_bind (find_row t_pokemon encounter_id) (\<lambda>row.
     act_bind (give (lure_encounter_row data display timestamp looks texts row)) (\<lambda>mon.
     act_bind (give (maybe_save_ditto display encounter_id (fst (snd (snd looks))) data)) (\<lambda>ditto.
     act_bind (nested_commit (\<lambda>t. ditto (put_pokemon encounter_id mon t))) (\<lambda>ok. if \<not> ok then raise_error IntegrityError else
     act_bind (cache_set (sb_now env) cache_key REDIS_CACHETIME_MON_LURE_IV) (\<lambda>_.
     finish (Some (encounter_id, timestamp)))))))))))))))))))"

section \<open>Lured mons of a map\<close>

definition lure_wild_row :: "json \<Rightarrow> json \<Rightarrow> json \<Rightarrow> int \<Rightarrow> real \<Rightarrow> pokemon option \<Rightarrow> pokemon result" where
  "lure_wild_row fort mon_id display timestamp disappear row =
     res_bind (json_index display ''form_value'') (\<lambda>form. res_bind (json_index display ''costume_value'') (\<lambda>costume.
     res_bind (json_index display ''gender_value'') (\<lambda>gender. res_bind (json_index display ''weather_boosted_value'') (\<lambda>w.
     res_bind (json_index fort ''latitude'') (\<lambda>lat. res_bind (json_index fort ''longitude'') (\<lambda>lon.
     res_bind (json_index fort ''id'') (\<lambda>stopid.
     let mon = (case row of Some m \<Rightarrow> m
          | None \<Rightarrow> new_pokemon\<lparr>pk_spawnpoint_id := JInt 0, pk_seen_type := Some lure_wild, pk_pokemon_id := mon_id,
              pk_gender := gender, pk_weather_boosted := w, pk_costume := costume, pk_form := form\<rparr>)
     in Inr (mon\<lparr>pk_latitude := lat, pk_longitude := lon, pk_disappear_time := Some disappear, pk_fort_id := stopid,
            pk_last_modified := Some (of_int timestamp)\<rparr>))))))))"

definition submit_lured :: "submit_env \<Rightarrow> int \<Rightarrow> json \<Rightarrow> int list db" where
  "submit_lured env timestamp fort =
     get_then fort ''active_pokemon'' (JDict []) (\<lambda>lure_mon. get_then lure_mon ''id'' (JInt 0) (\<lambda>mon_id.
     index_then fort [''type''] (\<lambda>type. act_bind (give (if equals_int type 1 then json_num mon_id else Inr 0)) (\<lambda>n.
     if \<not> n > 0 then finish [] else
     index_then lure_mon [''encounter_id''] (\<lambda>e. encounter_id_then e (\<lambda>encounter_id.
     let cache_key = ''monlurenoiv'' @ show_int encounter_id in
     act_bind (cache_exists (sb_now env) cache_key) (\<lambda>known. if known then finish [encounter_id] else
     index_then fort [''latitude''] (\<lambda>_. index_then fort [''longitude''] (\<lambda>_. index_then fort [''id''] (\<lambda>_.
     index_then lure_mon [''expiration_timestamp''] (\<lambda>x. act_bind (give (json_num x)) (\<lambda>ms.
     index_then lure_mon [''display''] (\<lambda>display.
     index_then display [''form_value''] (\<lambda>_. index_then display [''costume_value''] (\<lambda>_. index_then display [''gender_value''] (\<lambda>_.
     index_then display [''weather_boosted_value''] (\<lambda>_.
     act_bind begin_nested (\<lambda>_. act_bind (find_row t_pokemon encounter_id) (\<lambda>row.
     act_bind (give (lure_wild_row fort mon_id display timestamp (ms / 1000) row)) (\<lambda>mon.
     act_bind (nested_commit (put_pokemon encounter_id mon)) (\<lambda>ok.
     if ok then act_bind (cache_set (sb_now env) cache_key REDIS_CACHETIME_MON_LURE_IV) (\<lambda>_. finish [encounter_id])
     else finish [encounter_id])))))))))))))))))))))"

definition mon_lure_noiv :: "submit_env \<Rightarrow> int \<Rightarrow> json \<Rightarrow> int list db" where
  "mon_lure_noiv env timestamp gmo =
     get_then gmo ''cells'' JNull (\<lambda>cells. if cells = JNull then finish []
       else gather_from cells (\<lambda>cell. index_then cell [''forts''] (\<lambda>forts. gather_from forts (submit_lured env timestamp))))"

section \<open>When mons were seen\<close>

definition seen_order :: "mon_seen_type list" where
  "seen_order = [encounter, wild, nearby_stop, nearby_cell, lure_encounter, lure_wild]"

type_synonym seen_times = "(int, (mon_seen_type, int) dict) dict"

text \<open>The entries of the arguments are pairs; unpacking a \<open>None\<close> raises.\<close>

fun insert_seen :: "mon_seen_type \<Rightarrow> (int \<times> int) option list \<Rightarrow> seen_times \<Rightarrow> seen_times result" where
  "insert_seen ty [] d = Inr d"
| "insert_seen ty (None # r) d = Inl TypeError"
| "insert_seen ty (Some (enc, t) # r) d = insert_seen ty r (with_entry (\<lambda>_. []) (AList.update ty t) enc d)"

fun group_seen :: "(mon_seen_type, (int \<times> int) option list) dict \<Rightarrow> mon_seen_type list \<Rightarrow> seen_times \<Rightarrow> seen_times result" where
  "group_seen args [] d = Inr d"
| "group_seen args (ty # tys) d =
     res_bind (case map_of args ty of None \<Rightarrow> Inr d | Some encs \<Rightarrow> insert_seen ty encs d) (group_seen args tys)"

text \<open>Every type that has a time sets its own column.\<close>

definition seen_row :: "int \<Rightarrow> (mon_seen_type, int) dict \<Rightarrow> seen_entry option \<Rightarrow> seen_entry" where
  "seen_row enc values row =
     fold (\<lambda>ty e. case map_of values ty of None \<Rightarrow> e | Some t \<Rightarrow> SeenTypeEntry_update ty t e)
       [encounter, wild, nearby_stop, nearby_cell, lure_encounter, lure_wild]
       (case row of None \<Rightarrow> SeenTypeEntry_init enc | Some e \<Rightarrow> e)"

definition update_seen_type_stats :: "(mon_seen_type, (int \<times> int) option list) dict \<Rightarrow> unit db" where
  "update_seen_type_stats args =
     act_bind (give (group_seen args seen_order [])) (\<lambda>grouped.
       act_each (\<lambda>(enc, values).
         act_bind begin_nested (\<lambda>_. act_bind (find_row t_seen enc) (\<lambda>row.
         act_bind (nested_commit (\<lambda>t. t\<lparr>t_seen := AList.update enc (seen_row enc values row) (t_seen t)\<rparr>)) (\<lambda>_. finish ()))))
         grouped)"

end
