(* ===== verification/SubmitForts.thy ===== *)
theory SubmitForts
  imports SubmitMons
begin

text \<open>
  \<open>mapadroid/db/DbPogoProtoSubmit.py\<close>, stops and their incidents, and quests.
  What \<open>json.dumps\<close> writes into a column is kept as the value it writes.
\<close>

definition REDIS_CACHETIME_STOP_DETAILS :: int where "REDIS_CACHETIME_STOP_DETAILS = 900"
definition REDIS_CACHETIME_GYMS :: int where "REDIS_CACHETIME_GYMS = 900"
definition REDIS_CACHETIME_RAIDS :: int where "REDIS_CACHETIME_RAIDS = 900"
definition REDIS_CACHETIME_CELLS :: int where "REDIS_CACHETIME_CELLS = 60"
definition REDIS_CACHETIME_WEATHER :: int where "REDIS_CACHETIME_WEATHER = 900"
definition REDIS_CACHETIME_POKESTOP_DATA :: int where "REDIS_CACHETIME_POKESTOP_DATA = 900"
definition REDIS_CACHETIME_ROUTE :: int where "REDIS_CACHETIME_ROUTE = 900"

text \<open>\<open>x[k] / 1000\<close> and \<open>x.get(k, 0) / 1000\<close>.\<close>

definition seconds_at :: "json \<Rightarrow> string \<Rightarrow> real result" where
  "seconds_at j k = res_bind (json_index j k) (\<lambda>v. res_bind (json_num v) (\<lambda>x. Inr (x / 1000)))"

definition seconds_or_0 :: "json \<Rightarrow> string \<Rightarrow> real result" where
  "seconds_or_0 j k = res_bind (json_get j k (JInt 0)) (\<lambda>v. res_bind (json_num v) (\<lambda>x. Inr (x / 1000)))"

text \<open>A cell is looked at once a minute.\<close>

definition once_per_cell :: "submit_env \<Rightarrow> string \<Rightarrow> json \<Rightarrow> (json \<Rightarrow> unit db) \<Rightarrow> unit db" where
  "once_per_cell env prefix cell body =
     index_then cell [''id''] (\<lambda>cell_id.
     let key = prefix @ str_of env cell_id in
     act_bind (cache_exists (sb_now env) key) (\<lambda>known. if known then finish () else
     act_bind (index_then cell [''forts''] (\<lambda>forts. for_each forts body)) (\<lambda>_.
     cache_set (sb_now env) key REDIS_CACHETIME_CELLS)))"

text \<open>The write of one row and its key; a refused write is logged.\<close>

definition save_and_cache :: "submit_env \<Rightarrow> bool \<Rightarrow> (tables \<Rightarrow> tables) \<Rightarrow> string \<Rightarrow> int \<Rightarrow> unit db" where
  "save_and_cache env existing f key ex =
     act_bind (save_row existing f) (\<lambda>ok. if ok then cache_set (sb_now env) key ex else finish ())"

section \<open>Incidents\<close>

definition incident_row :: "json \<Rightarrow> incident \<Rightarrow> incident result" where
  "incident_row data inc =
     res_bind (seconds_or_0 data ''incident_start_ms'') (\<lambda>start. res_bind (seconds_or_0 data ''incident_expiration_ms'') (\<lambda>expiration.
     res_bind (json_get data ''hide_incident'' (JBool False)) (\<lambda>hide. res_bind (json_get data ''incident_display_type'' JNull) (\<lambda>dt.
     res_bind (json_get data ''incident_display_order_priority'' JNull) (\<lambda>prio.
     res_bind (res_bind (json_get data ''custom_display'' (JDict [])) (\<lambda>d. json_get d ''style_config_address'' JNull)) (\<lambda>custom.
     res_bind (json_get data ''is_cross_stop_incident'' (JBool False)) (\<lambda>cross.
     res_bind (json_get data ''character_display'' JNull) (\<lambda>cd.
     res_bind (if cd = JNull then Inr (JInt 0) else json_get cd ''character'' JNull) (\<lambda>character.
     Inr (inc\<lparr>in_start := (if start > 0 then Some start else in_start inc),
            in_expiration := (if expiration > 0 then Some expiration else in_expiration inc), in_hide := hide, in_display_type := dt,
            in_display_order := prio, in_custom_display := custom, in_cross_stop := cross, in_character := character\<rparr>))))))))))"

definition handle_single_incident :: "json \<Rightarrow> json \<Rightarrow> unit db" where
  "handle_single_incident stop_id data =
     (if \<not> truthy data then finish () else
      get_then data ''incident_id'' JNull (\<lambda>incident_id. if incident_id = JNull then finish () else
      act_bind (give (json_text incident_id)) (\<lambda>text. if strip text = [] then finish () else
      act_bind (find_row t_incident (stop_id, incident_id)) (\<lambda>row.
      act_bind (give (incident_row data (case row of None \<Rightarrow> new_incident | Some i \<Rightarrow> i))) (\<lambda>inc.
      act_bind (save_row (row \<noteq> None) (\<lambda>t. t\<lparr>t_incident := AList.update (stop_id, incident_id) inc (t_incident t)\<rparr>)) (\<lambda>_.
      finish ()))))))"

definition handle_pokestop_incident_data :: "json \<Rightarrow> json \<Rightarrow> unit db" where
  "handle_pokestop_incident_data stop_id data =
     act_bind (give (json_has ''pokestop_display'' data)) (\<lambda>has.
     act_bind (if has then get_then data ''pokestop_display'' JNull (handle_single_incident stop_id) else finish ()) (\<lambda>_.
     get_then data ''pokestop_displays'' JNull (\<lambda>displays.
     if truthy displays then for_each displays (handle_single_incident stop_id) else finish ())))"

section \<open>Stops\<close>

text \<open>The fallback for a missing time stamp: the present in seconds, rounded up to a thousand of them.\<close>

definition fallback_modified :: "submit_env \<Rightarrow> json" where
  "fallback_modified env = JInt (\<lceil>sb_now env / 1000\<rceil> * 1000)"

definition modified_or_fallback :: "submit_env \<Rightarrow> json \<Rightarrow> json" where
  "modified_or_fallback env m = (if truthy m then m else fallback_modified env)"

definition lure_minutes :: "trs_event option \<Rightarrow> int" where
  "lure_minutes ev = (case ev of None \<Rightarrow> 30 | Some e \<Rightarrow> if truthy_int (ev_lure_duration e) then the (ev_lure_duration e) else 30)"

definition stop_row ::
    "submit_env \<Rightarrow> json \<Rightarrow> real \<Rightarrow> json \<Rightarrow> real \<Rightarrow> json \<Rightarrow> pokestop \<Rightarrow> pokestop result" where
  "stop_row env data modified modifier lure ar st =
     res_bind (json_get data ''enabled'' (JInt 1)) (\<lambda>en. res_bind (json_index data ''latitude'') (\<lambda>la. res_bind (json_index data ''longitude'') (\<lambda>lo.
     Inr (st\<lparr>st_enabled := en, st_latitude := la, st_longitude := lo, st_last_modified := Some modified, st_lure_expiration := Some lure,
            st_last_updated := Some (sb_now env), st_active_fort_modifier := modifier, st_is_ar_scan_eligible := ar\<rparr>))))"

definition active_lure :: "submit_env \<Rightarrow> json \<Rightarrow> real \<Rightarrow> (json \<times> real) db" where
  "active_lure env data modified =
     index_then data [''active_fort_modifier''] (\<lambda>mods. act_bind (give (json_len mods)) (\<lambda>n.
     if n = 0 then finish (JNull, 0)
     else act_bind (get_current_event (sb_now env) False) (\<lambda>ev. act_bind (give (json_nth mods 0)) (\<lambda>m.
          finish (m, of_int (lure_minutes ev * 60) + modified)))))"

text \<open>A refused write undoes the whole transaction here, not only the savepoint.\<close>

definition handle_pokestop_data :: "submit_env \<Rightarrow> json \<Rightarrow> unit db" where
  "handle_pokestop_data env data =
     index_then data [''type''] (\<lambda>type. if \<not> equals_int type 1 then finish () else
     index_then data [''id''] (\<lambda>stop_id. get_then data ''last_modified_timestamp_ms'' JNull (\<lambda>m.
     let cache_key = ''stop'' @ str_of env stop_id @ str_of env (modified_or_fallback env m) in
     act_bind (cache_exists (sb_now env) cache_key) (\<lambda>known. if known then finish () else
     act_bind (give (seconds_at data ''last_modified_timestamp_ms'')) (\<lambda>modified.
     index_then data [''is_ar_scan_eligible''] (\<lambda>ar.
     act_bind (active_lure env data modified) (\<lambda>(modifier, lure).
     act_bind (find_row t_stop stop_id) (\<lambda>row.
     act_bind (give (stop_row env data modified modifier lure ar (case row of None \<Rightarrow> new_pokestop | Some st \<Rightarrow> st))) (\<lambda>st.
     act_bind (save_row (row \<noteq> None) (\<lambda>t. t\<lparr>t_stop := AList.update stop_id st (t_stop t)\<rparr>)) (\<lambda>ok.
     act_bind (if ok then cache_set (sb_now env) cache_key REDIS_CACHETIME_POKESTOP_DATA else session_rollback) (\<lambda>_.
     handle_pokestop_incident_data stop_id data)))))))))))"

definition stops :: "submit_env \<Rightarrow> json \<Rightarrow> bool db" where
  "stops env map_proto =
     get_then map_proto ''cells'' JNull (\<lambda>cells. if cells = JNull then finish False else
     act_bind (for_each cells (\<lambda>cell. once_per_cell env ''stops_'' cell (\<lambda>fort.
       index_then fort [''type''] (\<lambda>type. if equals_int type 1 then handle_pokestop_data env fort else finish ())))) (\<lambda>_.
     finish True))"

text \<open>
  The details of one stop: the row is looked up by \<open>fort_id\<close> and a new one gets the \<open>id\<close>. The result holds the id of the row, whether
  it exists, and the row with the details; an existing one is changed in place.
\<close>

definition details_row :: "submit_env \<Rightarrow> json \<Rightarrow> pokestop \<Rightarrow> pokestop result" where
  "details_row env data st =
     res_bind (json_get data ''image_urls'' JNull) (\<lambda>image. res_bind (json_get data ''name'' JNull) (\<lambda>name.
     res_bind (json_index data ''latitude'') (\<lambda>la. res_bind (json_index data ''longitude'') (\<lambda>lo.
     res_bind (if truthy image then json_nth image 0 else Inr JNull) (\<lambda>first.
     res_bind (json_get data ''enabled'' (JInt 1)) (\<lambda>en. res_bind (seconds_or_0 data ''last_modified_timestamp_ms'') (\<lambda>modified.
     Inr (st\<lparr>st_latitude := la, st_longitude := lo, st_name := name, st_image := (if truthy first then first else st_image st),
            st_last_updated := Some (sb_now env), st_enabled := en, st_last_modified := Some modified\<rparr>))))))))"

definition extract_args_single_stop_details :: "submit_env \<Rightarrow> json \<Rightarrow> (json \<times> bool \<times> pokestop) option db" where
  "extract_args_single_stop_details env data =
     get_then data ''type'' (JInt 999) (\<lambda>type. if \<not> equals_int type 1 then finish None else
     index_then data [''fort_id''] (\<lambda>stop_id. act_bind (find_row t_stop stop_id) (\<lambda>row. case row of
         None \<Rightarrow> index_then data [''id''] (\<lambda>new_id. act_bind (give (details_row env data new_pokestop)) (\<lambda>st.
                  finish (Some (new_id, False, st))))
       | Some st \<Rightarrow> (case st_last_updated st of
             None \<Rightarrow> raise_error TypeError
           | Some u \<Rightarrow> if u > sb_now env then finish None
               else act_bind (give (details_row env data st)) (\<lambda>st. finish (Some (stop_id, True, st)))))))"

definition stop_details :: "submit_env \<Rightarrow> json \<Rightarrow> bool db" where
  "stop_details env stop_proto =
     act_bind (extract_args_single_stop_details env stop_proto) (\<lambda>stop. case stop of
         None \<Rightarrow> finish False
       | Some (stop_id, existing, st) \<Rightarrow>
           let write = (\<lambda>t. t\<lparr>t_stop := AList.update stop_id st (t_stop t)\<rparr>) in
           act_bind (if existing then change_rows (\<lambda>t. Some (write t)) else finish ()) (\<lambda>_.
           get_then stop_proto ''last_modified_timestamp_ms'' JNull (\<lambda>m.
           let cache_key = ''stopdetail'' @ str_of env stop_id @ str_of env (modified_or_fallback env m) in
           act_bind (cache_exists (sb_now env) cache_key) (\<lambda>known. if known then finish True else
           act_bind begin_nested (\<lambda>_. act_bind (if existing then finish True else nested_commit write) (\<lambda>ok.
           act_bind (if ok then cache_set (sb_now env) cache_key REDIS_CACHETIME_STOP_DETAILS else finish ()) (\<lambda>_.
           finish True)))))))"

section \<open>Quests\<close>

fun layer_value :: "quest_layer \<Rightarrow> int" where
  "layer_value UNKNOWN = -1"
| "layer_value AR = 0"
| "layer_value NON_AR = 1"

text \<open>What is given, by the kind of the reward: the amount, the mon and the stardust.\<close>

definition amount_and_mon :: "json \<Rightarrow> string \<Rightarrow> json \<Rightarrow> (json \<times> json \<times> json) result" where
  "amount_and_mon reward key stardust =
     res_bind (json_get reward key (JDict [])) (\<lambda>r. res_bind (json_get r ''amount'' (JInt 0)) (\<lambda>a.
     res_bind (json_get r ''pokemon_id'' (JInt 0)) (\<lambda>p. Inr (a, p, stardust))))"

definition quest_amounts :: "json \<Rightarrow> json \<Rightarrow> json \<Rightarrow> (json \<times> json \<times> json) result" where
  "quest_amounts reward item enc =
     res_bind (json_get reward ''type'' JNull) (\<lambda>ty. res_bind (json_get item ''amount'' JNull) (\<lambda>amount.
     res_bind (json_get enc ''pokemon_id'' JNull) (\<lambda>mon. res_bind (json_get reward ''stardust'' JNull) (\<lambda>stardust.
     if equals_int ty 4 then amount_and_mon reward ''candy'' stardust
     else if equals_int ty 9 then amount_and_mon reward ''xl_candy'' stardust
     else if equals_int ty 12 then amount_and_mon reward ''mega_resource'' stardust
     else if equals_int ty 1 then res_bind (json_get reward ''exp'' (JInt 0)) (\<lambda>x. Inr (amount, mon, x))
     else Inr (amount, mon, stardust)))))"

definition quest_row :: "submit_env \<Rightarrow> json \<Rightarrow> json \<Rightarrow> json \<Rightarrow> quest result" where
  "quest_row env protoquest protoquest_display rewards =
     res_bind (json_get protoquest_display ''title'' JNull) (\<lambda>title. res_bind (json_nth rewards 0) (\<lambda>reward.
     res_bind (json_index reward ''item'') (\<lambda>item. res_bind (json_index reward ''pokemon_encounter'') (\<lambda>enc.
     res_bind (json_index protoquest ''goal'') (\<lambda>goal. res_bind (json_get protoquest ''quest_type'' JNull) (\<lambda>ty.
     res_bind (json_get protoquest ''template_id'' JNull) (\<lambda>template. res_bind (json_get reward ''type'' JNull) (\<lambda>rty.
     res_bind (json_get item ''item'' JNull) (\<lambda>item_id. res_bind (quest_amounts reward item enc) (\<lambda>(amount, mon, stardust).
     res_bind (json_get enc ''pokemon_display'' (JDict [])) (\<lambda>display. res_bind (json_get display ''form_value'' (JInt 0)) (\<lambda>form.
     res_bind (json_get display ''costume_value'' (JInt 0)) (\<lambda>costume. res_bind (json_get goal ''target'' JNull) (\<lambda>target.
     res_bind (json_get goal ''condition'' JNull) (\<lambda>condition. res_bind (json_to_int ty) (\<lambda>tyi. res_bind (json_to_int target) (\<lambda>ti.
     Inr \<lparr>qu_type = ty, qu_timestamp = \<lfloor>sb_now env\<rfloor>, qu_stardust = stardust, qu_pokemon_id = mon, qu_reward_type = rty,
       qu_item_id = item_id, qu_item_amount = amount, qu_target = target, qu_condition = condition, qu_reward = rewards,
       qu_template = template, qu_task = sb_questtask env tyi condition ti (str_of env template) title, qu_form_id = form,
       qu_costume_id = costume, qu_title = title\<rparr>)))))))))))))))))"

definition quest :: "submit_env \<Rightarrow> json \<Rightarrow> quest_layer \<Rightarrow> bool db" where
  "quest env quest_proto layer =
     get_then quest_proto ''fort_id'' JNull (\<lambda>fort_id. if fort_id = JNull then finish False else
     act_bind (give (json_has ''challenge_quest'' quest_proto)) (\<lambda>has. if \<not> has then finish False else
     index_then quest_proto [''challenge_quest'', ''quest''] (\<lambda>protoquest.
     get_then protoquest ''quest_rewards'' JNull (\<lambda>rewards. if \<not> truthy rewards then finish False else
     index_then quest_proto [''challenge_quest'', ''quest_display''] (\<lambda>display.
     act_bind (give (quest_row env protoquest display rewards)) (\<lambda>q.
     act_bind (find_row t_quest (fort_id, layer_value layer)) (\<lambda>row.
     act_bind (save_row (row \<noteq> None) (\<lambda>t. t\<lparr>t_quest := AList.update (fort_id, layer_value layer) q (t_quest t)\<rparr>)) (\<lambda>_.
     finish True))))))))"

end
