(* ===== verification/SubmitGyms.thy ===== *)
theory SubmitGyms
  imports SubmitForts
begin

text \<open>
  \<open>mapadroid/db/DbPogoProtoSubmit.py\<close>, gyms and their details, raids, routes, the weather and the S2 cells.
\<close>

section \<open>Gyms\<close>

definition gym_row :: "submit_env \<Rightarrow> json \<Rightarrow> int \<Rightarrow> json \<Rightarrow> json \<Rightarrow> json \<Rightarrow> real \<Rightarrow> gym result" where
  "gym_row env data received latitude longitude gameplay_weather modified =
     res_bind (json_index data ''gym_details'') (\<lambda>d. res_bind (json_index d ''guard_pokemon'') (\<lambda>guard.
     res_bind (json_index d ''owned_by_team'') (\<lambda>team. res_bind (json_index d ''slots_available'') (\<lambda>slots.
     res_bind (json_index d ''is_ex_raid_eligible'') (\<lambda>ex. res_bind (json_index data ''is_ar_scan_eligible'') (\<lambda>ar.
     res_bind (json_index d ''is_in_battle'') (\<lambda>battle. res_bind (json_get data ''enabled'' (JInt 1)) (\<lambda>en.
     res_bind (res_bind (json_get data ''gym_display'' (JDict [])) (\<lambda>g. json_get g ''total_gym_cp'' (JInt 0))) (\<lambda>cp.
     Inr \<lparr>gy_team_id = team, gy_guard_pokemon_id = guard, gy_slots_available = slots, gy_enabled = en, gy_latitude = latitude,
       gy_longitude = longitude, gy_total_cp = cp, gy_is_in_battle = battle, gy_weather_boosted = gameplay_weather,
       gy_last_modified = Some modified, gy_last_scanned = Some (of_int received), gy_is_ex_raid_eligible = ex,
       gy_is_ar_scan_eligible = ar\<rparr>)))))))))"

definition gym_detail_row :: "json \<Rightarrow> int \<Rightarrow> gym_detail option \<Rightarrow> gym_detail result" where
  "gym_detail_row data received row =
     (let d = (case row of Some d \<Rightarrow> d
          | None \<Rightarrow> \<lparr>gd_name = JStr ''unknown'', gd_description = JNull, gd_url = JStr [], gd_last_scanned = None\<rparr>)
      in res_bind (json_get data ''image_url'' (JStr [])) (\<lambda>url.
         res_bind (if truthy url then json_text url else Inr []) (\<lambda>text.
         Inr (d\<lparr>gd_url := (if strip text \<noteq> [] then JStr (strip text) else gd_url d), gd_last_scanned := Some (of_int received)\<rparr>))))"

definition put_gym :: "json \<Rightarrow> gym \<Rightarrow> tables \<Rightarrow> tables" where
  "put_gym gymid g t = t\<lparr>t_gym := AList.update gymid g (t_gym t)\<rparr>"

definition put_gym_detail :: "json \<Rightarrow> gym_detail \<Rightarrow> tables \<Rightarrow> tables" where
  "put_gym_detail gymid d t = t\<lparr>t_gymdetail := AList.update gymid d (t_gymdetail t)\<rparr>"

text \<open>The gym and its details: what exists is flushed when the savepoint is begun (the gym already by the query for the details).\<close>

definition save_gym :: "submit_env \<Rightarrow> json \<Rightarrow> int \<Rightarrow> json \<Rightarrow> gym \<Rightarrow> string \<Rightarrow> unit db" where
  "save_gym env data received gymid g cache_key =
     act_bind (find_row t_gym gymid) (\<lambda>row.
     act_bind (if row = None then finish () else change_rows (\<lambda>t. Some (put_gym gymid g t))) (\<lambda>_.
     act_bind session_flush (\<lambda>_. act_bind (find_row t_gymdetail gymid) (\<lambda>drow.
     act_bind (give (gym_detail_row data received drow)) (\<lambda>d.
     act_bind (if drow = None then finish () else change_rows (\<lambda>t. Some (put_gym_detail gymid d t))) (\<lambda>_.
     act_bind begin_nested (\<lambda>_.
     act_bind (if row \<noteq> None \<and> drow \<noteq> None then finish True
               else nested_commit (\<lambda>t. (if drow = None then put_gym_detail gymid d else id) ((if row = None then put_gym gymid g else id) t))) (\<lambda>ok.
     if ok then cache_set (sb_now env) cache_key REDIS_CACHETIME_GYMS else finish ()))))))))"

definition submit_gym :: "submit_env \<Rightarrow> int \<Rightarrow> json \<Rightarrow> unit db" where
  "submit_gym env received data =
     index_then data [''type''] (\<lambda>type. if \<not> equals_int type 0 then finish () else
     index_then data [''id''] (\<lambda>gymid. act_bind (give (seconds_at data ''last_modified_timestamp_ms'')) (\<lambda>modified.
     index_then data [''latitude''] (\<lambda>latitude. index_then data [''longitude''] (\<lambda>longitude.
     act_bind (give (json_num latitude)) (\<lambda>la. act_bind (give (json_num longitude)) (\<lambda>lo.
     act_bind (find_row t_weather (show_int (sb_cell_of env la lo))) (\<lambda>weather.
     let gameplay_weather = (case weather of None \<Rightarrow> JInt 0 | Some w \<Rightarrow> we_gameplay_weather w);
         cache_key = ''gym'' @ str_of env gymid @ str_of env (JFloat modified) @ str_of env gameplay_weather
     in act_bind (cache_exists (sb_now env) cache_key) (\<lambda>known. if known then finish () else
        act_bind (give (gym_row env data received latitude longitude gameplay_weather modified)) (\<lambda>g.
        save_gym env data received gymid g cache_key))))))))))"

definition gyms :: "submit_env \<Rightarrow> json \<Rightarrow> int \<Rightarrow> bool db" where
  "gyms env map_proto received_timestamp =
     get_then map_proto ''cells'' JNull (\<lambda>cells. if cells = JNull then finish False else
     act_bind (for_each cells (\<lambda>cell. once_per_cell env ''gyms_'' cell (submit_gym env received_timestamp))) (\<lambda>_. finish True))"

text \<open>The name, the description and the picture of one gym; empty ones are not taken over.\<close>

definition given :: "json \<Rightarrow> bool" where
  "given j \<longleftrightarrow> j \<noteq> JNull \<and> j \<noteq> JStr []"

definition submit_gym_info :: "json \<Rightarrow> bool db" where
  "submit_gym_info map_proto =
     get_then map_proto ''result'' (JInt 0) (\<lambda>result. if \<not> equals_int result 1 then finish False else
     get_then map_proto ''gym_status_and_defenders'' JNull (\<lambda>status. if status = JNull then finish False else
     get_then status ''pokemon_fort_proto'' JNull (\<lambda>fort. if fort = JNull then finish False else
     index_then fort [''id''] (\<lambda>gym_id. index_then map_proto [''name''] (\<lambda>name. index_then map_proto [''description''] (\<lambda>description.
     index_then map_proto [''url''] (\<lambda>url. act_bind (find_row t_gymdetail gym_id) (\<lambda>row. case row of
         None \<Rightarrow> finish False
       | Some d \<Rightarrow>
           let d1 = (if given name then d\<lparr>gd_name := name\<rparr> else d);
               d2 = (if given description then d1\<lparr>gd_description := description\<rparr> else d1);
               d3 = (if given url then d2\<lparr>gd_url := url\<rparr> else d2)
           in if given name \<or> given description \<or> given url
              then act_bind (save_row True (put_gym_detail gym_id d3)) (\<lambda>_. finish True)
              else finish True))))))))"

section \<open>Raids\<close>

text \<open>The mon of a hatched raid, or an egg.\<close>

definition raid_boss :: "json \<Rightarrow> raid \<Rightarrow> raid result" where
  "raid_boss raid_info r =
     res_bind (json_path raid_info [''raid_pokemon'', ''id'']) (\<lambda>i. res_bind (json_path raid_info [''raid_pokemon'', ''cp'']) (\<lambda>cp.
     res_bind (json_path raid_info [''raid_pokemon'', ''move_1'']) (\<lambda>m1. res_bind (json_path raid_info [''raid_pokemon'', ''move_2'']) (\<lambda>m2.
     res_bind (json_path raid_info [''raid_pokemon'', ''display'']) (\<lambda>d. res_bind (json_index d ''form_value'') (\<lambda>form.
     res_bind (json_index d ''gender_value'') (\<lambda>gender. res_bind (json_index d ''costume_value'') (\<lambda>costume.
     res_bind (json_get d ''current_temp_evolution'' (JInt 0)) (\<lambda>evolution.
     Inr (r\<lparr>ra_pokemon_id := i, ra_cp := cp, ra_move_1 := m1, ra_move_2 := m2, ra_form := form, ra_gender := gender,
            ra_costume := costume, ra_evolution := evolution\<rparr>))))))))))"

text \<open>\<open>int(x / 1000)\<close>.\<close>

definition whole_seconds :: "json \<Rightarrow> string \<Rightarrow> int result" where
  "whole_seconds j k = res_bind (seconds_at j k) (\<lambda>x. json_to_int (JFloat x))"

definition raid_row :: "int \<Rightarrow> json \<Rightarrow> raid result" where
  "raid_row received raid_info =
     res_bind (json_index raid_info ''has_pokemon'') (\<lambda>hatched.
     res_bind (let egg = \<lparr>ra_level = JNull, ra_spawn = 0, ra_start = 0, ra_end = 0, ra_pokemon_id = JNull, ra_cp = JInt 0,
                   ra_move_1 = JInt 1, ra_move_2 = JInt 2, ra_last_scanned = of_int received, ra_form = JNull, ra_is_exclusive = JNull,
                   ra_gender = JNull, ra_costume = JNull, ra_evolution = JInt 0\<rparr>
               in if truthy hatched then raid_boss raid_info egg else Inr egg) (\<lambda>r.
     res_bind (whole_seconds raid_info ''raid_end'') (\<lambda>e. res_bind (whole_seconds raid_info ''raid_spawn'') (\<lambda>sp.
     res_bind (whole_seconds raid_info ''raid_battle'') (\<lambda>b. res_bind (json_index raid_info ''is_exclusive'') (\<lambda>ex.
     res_bind (json_index raid_info ''level'') (\<lambda>level.
     Inr (r\<lparr>ra_level := level, ra_spawn := of_int sp, ra_start := of_int b, ra_end := of_int e, ra_is_exclusive := ex\<rparr>))))))))"

definition put_raid :: "json \<Rightarrow> raid \<Rightarrow> tables \<Rightarrow> tables" where
  "put_raid gymid r t = t\<lparr>t_raid := AList.update gymid r (t_raid t)\<rparr>"

text \<open>One gym of the map: a list with an element for every raid that has hatched.\<close>

definition submit_raid :: "submit_env \<Rightarrow> int \<Rightarrow> json \<Rightarrow> unit list db" where
  "submit_raid env received data =
     index_then data [''type''] (\<lambda>type. if \<not> equals_int type 0 then finish [] else
     index_then data [''gym_details'', ''has_raid''] (\<lambda>has. if \<not> truthy has then finish [] else
     index_then data [''gym_details'', ''raid_info''] (\<lambda>raid_info. index_then raid_info [''has_pokemon''] (\<lambda>hatched.
     let seen = (if truthy hatched then [()] else []) in
     act_bind (give (raid_row received raid_info)) (\<lambda>r. index_then data [''id''] (\<lambda>gymid.
     let cache_key = ''raid'' @ str_of env gymid @ str_of env (ra_pokemon_id r) @ show_int \<lfloor>ra_end r\<rfloor> in
     act_bind (cache_exists (sb_now env) cache_key) (\<lambda>known. if known then finish seen else
     act_bind (find_row t_raid gymid) (\<lambda>row.
     if (case row of None \<Rightarrow> False | Some old \<Rightarrow> ra_last_scanned old > of_int received) then finish seen else
     act_bind (save_and_cache env (row \<noteq> None) (put_raid gymid r) cache_key REDIS_CACHETIME_RAIDS) (\<lambda>_. finish seen)))))))))"

text \<open>Without cells the result is \<open>False\<close>, which counts as 0.\<close>

definition raids :: "submit_env \<Rightarrow> json \<Rightarrow> int \<Rightarrow> int db" where
  "raids env map_proto timestamp =
     get_then map_proto ''cells'' JNull (\<lambda>cells. if cells = JNull then finish 0 else
     act_bind (gather_from cells (\<lambda>cell. index_then cell [''forts''] (\<lambda>forts. gather_from forts (submit_raid env timestamp))))
       (\<lambda>seen. finish (int (length seen))))"

section \<open>Routes\<close>

definition route_end :: "json \<Rightarrow> string \<Rightarrow> route_poi result" where
  "route_end data key =
     res_bind (json_get data key (JDict [])) (\<lambda>poi. res_bind (json_get poi ''anchor'' JNull) (\<lambda>anchor.
     res_bind (json_get anchor ''fort_id'' JNull) (\<lambda>f. res_bind (json_get anchor ''lat_degrees'' JNull) (\<lambda>la.
     res_bind (json_get anchor ''lng_degrees'' JNull) (\<lambda>lo. res_bind (json_get poi ''image_url'' JNull) (\<lambda>i.
     Inr \<lparr>poi_fort_id = f, poi_latitude = la, poi_longitude = lo, poi_image_url = i\<rparr>))))))"

definition route_row :: "int \<Rightarrow> json \<Rightarrow> mon_route result" where
  "route_row received data =
     res_bind (json_get data ''waypoints'' JNull) (\<lambda>waypoints. res_bind (json_get data ''type'' (JInt 0)) (\<lambda>ty.
     res_bind (json_get data ''path_type'' (JInt 0)) (\<lambda>pty. res_bind (json_get data ''name'' JNull) (\<lambda>name.
     res_bind (json_get data ''version'' JNull) (\<lambda>v. res_bind (json_get data ''description'' JNull) (\<lambda>description.
     res_bind (json_get data ''reversible'' JNull) (\<lambda>reversible. res_bind (json_get data ''submission_time'' JNull) (\<lambda>raw.
     res_bind (json_num raw) (\<lambda>submission. res_bind (json_get data ''route_distance_meters'' JNull) (\<lambda>dist.
     res_bind (json_get data ''route_duration_seconds'' JNull) (\<lambda>dur. res_bind (json_get data ''pins'' (JDict [])) (\<lambda>pins.
     res_bind (json_get data ''tags'' (JDict [])) (\<lambda>tags. res_bind (json_get data ''image'' (JDict [])) (\<lambda>image.
     res_bind (json_get image ''image_url'' JNull) (\<lambda>url. res_bind (json_get image ''border_color_hex'' JNull) (\<lambda>border.
     res_bind (json_get data ''route_submission_status'' (JDict [])) (\<lambda>st. res_bind (json_get st ''status'' (JInt 0)) (\<lambda>status.
     res_bind (seconds_or_0 st ''submission_status_update_time_ms'') (\<lambda>upd.
     res_bind (route_end data ''start_poi'') (\<lambda>a. res_bind (route_end data ''end_poi'') (\<lambda>b.
     Inr \<lparr>ro_waypoints = waypoints, ro_type = ty, ro_path_type = pty, ro_name = name, ro_description = description, ro_version = v,
       ro_reversible = reversible, ro_submission_time = submission / 1000, ro_distance = dist, ro_duration = dur, ro_pins = pins,
       ro_tags = tags, ro_image = url, ro_border_color = border, ro_status = status, ro_update_time = upd, ro_start_poi = a,
       ro_end_poi = b, ro_last_updated = of_int received\<rparr>)))))))))))))))))))))"

text \<open>The key is set before the savepoint is committed: it stays when the write is refused.\<close>

definition handle_route_cell :: "submit_env \<Rightarrow> int \<Rightarrow> json \<Rightarrow> unit db" where
  "handle_route_cell env received data =
     get_then data ''id'' JNull (\<lambda>route_id.
     let cache_key = ''route'' @ str_of env route_id in
     act_bind (cache_exists (sb_now env) cache_key) (\<lambda>known. if known then finish () else
     act_bind begin_nested (\<lambda>_. act_bind (give (route_row received data)) (\<lambda>r.
     act_bind (cache_set (sb_now env) cache_key REDIS_CACHETIME_ROUTE) (\<lambda>_.
     act_bind (nested_commit (\<lambda>t. t\<lparr>t_route := AList.update route_id r (t_route t)\<rparr>)) (\<lambda>_. finish ()))))))"

definition routes :: "submit_env \<Rightarrow> json \<Rightarrow> int \<Rightarrow> unit db" where
  "routes env routes_proto timestamp_received =
     get_then routes_proto ''status'' (JInt 0) (\<lambda>status. if \<not> equals_int status 1 then finish () else
     get_then routes_proto ''route_map_cell'' (JList []) (\<lambda>cells. if \<not> truthy cells then finish () else
     for_each cells (\<lambda>cell. get_then cell ''s2_cell_id'' JNull (\<lambda>_. get_then cell ''route'' (JList []) (\<lambda>rs.
       if \<not> truthy rs then finish () else for_each rs (handle_route_cell env timestamp_received))))))"

section \<open>Weather\<close>

definition weather_level :: "json \<Rightarrow> string \<Rightarrow> json result" where
  "weather_level display k = json_get display k (JInt 0)"

definition weather_row :: "submit_env \<Rightarrow> json \<Rightarrow> json \<Rightarrow> json \<Rightarrow> json \<Rightarrow> int \<Rightarrow> weather option \<Rightarrow> weather result" where
  "weather_row env cell_id display gameplay time_of_day received row =
     res_bind (weather_level display ''cloud_level'') (\<lambda>cloud. res_bind (weather_level display ''rain_level'') (\<lambda>rain.
     res_bind (weather_level display ''wind_level'') (\<lambda>wind. res_bind (weather_level display ''snow_level'') (\<lambda>snow.
     res_bind (weather_level display ''fog_level'') (\<lambda>fog. res_bind (weather_level display ''wind_direction'') (\<lambda>dir.
     let pos = (case row of Some w \<Rightarrow> (we_latitude w, we_longitude w) | None \<Rightarrow> sb_middle_of_cell env cell_id)
     in Inr \<lparr>we_latitude = fst pos, we_longitude = snd pos, we_cloud_level = cloud, we_rain_level = rain, we_wind_level = wind,
          we_snow_level = snow, we_fog_level = fog, we_wind_direction = dir, we_gameplay_weather = gameplay, we_severity = 0,
          we_warn_weather = 0, we_world_time = time_of_day, we_last_updated = of_int received\<rparr>))))))"

definition weather_key :: "submit_env \<Rightarrow> json \<Rightarrow> json \<Rightarrow> json \<Rightarrow> string result" where
  "weather_key env cell_id display gameplay =
     res_bind (res_map (weather_level display) [''rain_level'', ''wind_level'', ''snow_level'', ''fog_level'', ''wind_direction'']) (\<lambda>ls.
       Inr (''weather'' @ str_of env cell_id @ concat (map (str_of env) ls) @ str_of env gameplay))"

definition handle_weather_data :: "submit_env \<Rightarrow> json \<Rightarrow> json \<Rightarrow> int \<Rightarrow> unit db" where
  "handle_weather_data env data time_of_day received =
     index_then data [''cell_id''] (\<lambda>cell_id. get_then data ''display_weather'' JNull (\<lambda>display. if display = JNull then finish () else
     index_then data [''gameplay_weather'', ''gameplay_condition''] (\<lambda>gameplay.
     act_bind (give (weather_key env cell_id display gameplay)) (\<lambda>cache_key.
     act_bind (cache_exists (sb_now env) cache_key) (\<lambda>known. if known then finish () else
     act_bind begin_nested (\<lambda>_. act_bind (find_row t_weather (str_of env cell_id)) (\<lambda>row.
     act_bind (give (weather_row env cell_id display gameplay time_of_day received row)) (\<lambda>w.
     act_bind (cache_set (sb_now env) cache_key REDIS_CACHETIME_WEATHER) (\<lambda>_.
     act_bind (nested_commit (\<lambda>t. t\<lparr>t_weather := AList.update (str_of env cell_id) w (t_weather t)\<rparr>)) (\<lambda>_. finish ()))))))))))"

definition submit_weather :: "submit_env \<Rightarrow> json \<Rightarrow> int \<Rightarrow> bool db" where
  "submit_weather env map_proto received_timestamp =
     get_then map_proto ''cells'' JNull (\<lambda>cells. if cells = JNull then finish False else
     index_then map_proto [''client_weather''] (\<lambda>cw.
     act_bind (for_each cw (\<lambda>data. get_then map_proto ''time_of_day_value'' (JInt 0) (\<lambda>tod. handle_weather_data env data tod received_timestamp)))
       (\<lambda>_. finish True)))"

section \<open>S2 cells\<close>

text \<open>\<open>insert ... on duplicate key update\<close>: only the time of a known cell changes.\<close>

definition insert_update_cell :: "submit_env \<Rightarrow> int \<Rightarrow> int \<Rightarrow> tables \<Rightarrow> tables" where
  "insert_update_cell env cell_id updated t =
     t\<lparr>t_cell := AList.update cell_id (case map_of (t_cell t) cell_id of
          Some c \<Rightarrow> c\<lparr>ll_updated := updated\<rparr>
        | None \<Rightarrow> \<lparr>ll_level = 15, ll_latitude = fst (sb_cell_position env cell_id), ll_longitude = snd (sb_cell_position env cell_id),
                   ll_updated = updated\<rparr>) (t_cell t)\<rparr>"

text \<open>The key is set first and shortened to a second when the write is refused.\<close>

definition submit_cell :: "submit_env \<Rightarrow> json \<Rightarrow> unit db" where
  "submit_cell env cell =
     index_then cell [''id''] (\<lambda>j. encounter_id_then j (\<lambda>cell_id.
     let key = ''s2cell'' @ show_int cell_id in
     act_bind (cache_exists (sb_now env) key) (\<lambda>known. if known then finish () else
     act_bind (cache_set (sb_now env) key REDIS_CACHETIME_CELLS) (\<lambda>_.
     act_bind (give (whole_seconds cell ''current_timestamp'')) (\<lambda>updated.
     act_bind (try_write (\<lambda>t. Some (insert_update_cell env cell_id updated t))) (\<lambda>ok.
     if ok then finish () else cache_set (sb_now env) key 1))))))"

definition submit_cells :: "submit_env \<Rightarrow> json \<Rightarrow> unit db" where
  "submit_cells env map_proto = get_then map_proto ''cells'' (JList []) (\<lambda>cells. for_each cells (submit_cell env))"

end
