(* ===== verification/SubmitSpawns.thy ===== *)
theory SubmitSpawns
  imports SubmitMons "HOL-Library.Word"
begin

text \<open>
  \<open>mapadroid/db/DbPogoProtoSubmit.py\<close>: spawn points, and the bits that say in which quarters of an hour one was seen. The
  upper four bits of \<open>spawndef\<close> stand for the quarters in which it was not seen yet, the lower four for those in which it was.
\<close>

section \<open>The bits of a spawn point\<close>

definition default_spawndef :: int where "default_spawndef = 240"

definition get_current_spawndef_pos :: "real \<Rightarrow> nat option" where
  "get_current_spawndef_pos t =
     (let minute_value = minute_of \<lfloor>t\<rfloor> in
      if minute_value < 15 then Some 4 else if minute_value < 30 then Some 5
      else if minute_value < 45 then Some 6 else if minute_value < 60 then Some 7 else None)"

text \<open>Bit \<open>i\<close> of a \<open>BitArray\<close> of length 8 counts from the most significant one.\<close>

definition clear_and_set :: "nat \<Rightarrow> nat \<Rightarrow> 8 word \<Rightarrow> 8 word" where
  "clear_and_set a b w = Bit_Operations.set_bit (7 - b) (unset_bit (7 - a) w)"

definition set_spawn_see_minutesgroup :: "int \<Rightarrow> nat option \<Rightarrow> int result" where
  "set_spawn_see_minutesgroup spawndef pos =
     (if spawndef < 0 \<or> 256 \<le> spawndef then Inl ValueError
      else let w = word_of_int spawndef :: 8 word;
               w = (if pos = Some 4 then clear_and_set 0 4 w else w);
               w = (if pos = Some 5 then clear_and_set 1 5 w else w);
               w = (if pos = Some 6 then clear_and_set 2 6 w else w);
               w = (if pos = Some 7 then clear_and_set 3 7 w else w)
           in Inr (uint w))"

section \<open>Submission\<close>

text \<open>\<open>strftime("%M:%S")\<close>.\<close>

definition clock2 :: "int \<Rightarrow> string" where
  "clock2 n = [digit_char (nat (n div 10)), digit_char (nat (n mod 10))]"

definition minsec :: "real \<Rightarrow> string" where
  "minsec t = clock2 (minute_of \<lfloor>t\<rfloor>) @ '':'' @ clock2 (\<lfloor>t\<rfloor> mod 60)"

text \<open>The bits may be written when the spawn point belongs to the running event, or neither is the default event.\<close>

definition event_fits :: "trs_event option \<Rightarrow> spawn \<Rightarrow> bool result" where
  "event_fits current_event sp =
     (case current_event of None \<Rightarrow> Inl AttributeError
      | Some e \<Rightarrow> Inr (ev_id e = sp_eventid sp \<or> ev_id e \<noteq> 1 \<and> sp_eventid sp \<noteq> 1))"

definition new_spawn :: "submit_env \<Rightarrow> json \<Rightarrow> trs_event option \<Rightarrow> int \<Rightarrow> spawn result" where
  "new_spawn env spawnpoint_id current_event newspawndef =
     res_bind (parse_hex (str_of env spawnpoint_id @ ''00000'')) (\<lambda>c.
       Inr \<lparr>sp_latitude = fst (sb_cell_position env c), sp_longitude = snd (sb_cell_position env c), sp_spawndef = newspawndef,
          sp_earliest_unseen = 99999999, sp_last_scanned = None, sp_first_detection = None, sp_last_non_scanned = None,
          sp_calc_endminsec = None, sp_eventid = (case current_event of None \<Rightarrow> 1 | Some e \<Rightarrow> ev_id e)\<rparr>)"

text \<open>One sighting: of a mon whose end is known (within 90 seconds), or of one whose end is not.\<close>

definition sighting :: "submit_env \<Rightarrow> real \<Rightarrow> trs_event option \<Rightarrow> spawn option \<Rightarrow> json \<Rightarrow> spawn result" where
  "sighting env received current_event row wild_mon =
     res_bind (json_index wild_mon ''spawnpoint_id'') (\<lambda>sid. res_bind (new_spawn env sid current_event 0) (\<lambda>fresh.
     res_bind (json_index wild_mon ''time_till_hidden'') (\<lambda>despawntime.
     res_bind (set_spawn_see_minutesgroup (case row of None \<Rightarrow> default_spawndef | Some sp \<Rightarrow> sp_spawndef sp)
                 (get_current_spawndef_pos (sb_now env))) (\<lambda>newspawndef.
     res_bind (json_to_int despawntime) (\<lambda>ms.
     if 0 \<le> ms \<and> ms \<le> 90000
     then res_bind (json_num despawntime) (\<lambda>x.
          res_bind (case row of
             Some sp \<Rightarrow> res_bind (event_fits current_event sp) (\<lambda>fits.
               Inr (sp\<lparr>sp_earliest_unseen := min (sp_earliest_unseen sp) ms, sp_spawndef := (if fits then newspawndef else sp_spawndef sp)\<rparr>))
           | None \<Rightarrow> Inr (fresh\<lparr>sp_earliest_unseen := ms, sp_spawndef := newspawndef, sp_first_detection := Some received\<rparr>)) (\<lambda>sp.
          Inr (sp\<lparr>sp_last_scanned := Some received, sp_calc_endminsec := Some (minsec (received + x / 1000))\<rparr>)))
     else res_bind (case row of
             Some sp \<Rightarrow> res_bind (event_fits current_event sp) (\<lambda>fits. Inr (if fits then sp\<lparr>sp_spawndef := newspawndef\<rparr> else sp))
           | None \<Rightarrow> Inr (fresh\<lparr>sp_spawndef := newspawndef\<rparr>)) (\<lambda>sp.
          Inr (sp\<lparr>sp_last_non_scanned := Some (sb_now env)\<rparr>)))))))"

text \<open>
  The loop over all sightings: known spawn points are shared objects, so a second sighting finds what the first one
  changed; a new one is made for every sighting of an unknown spawn point.
\<close>

definition sighting_id :: "submit_env \<Rightarrow> json \<Rightarrow> int result" where
  "sighting_id env wild_mon = res_bind (json_index wild_mon ''spawnpoint_id'') (\<lambda>sid. parse_hex (str_of env sid))"

fun sightings ::
    "submit_env \<Rightarrow> real \<Rightarrow> trs_event option \<Rightarrow> json list \<Rightarrow> (int, spawn) dict \<Rightarrow> (int \<times> spawn) list \<Rightarrow>
     ((int, spawn) dict \<times> (int \<times> spawn) list) result" where
  "sightings env received ev [] known added = Inr (known, added)"
| "sightings env received ev (wild_mon # r) known added =
     res_bind (sighting_id env wild_mon) (\<lambda>spawnid.
     res_bind (sighting env received ev (map_of known spawnid) wild_mon) (\<lambda>sp.
     if map_of known spawnid = None then sightings env received ev r known (added @ [(spawnid, sp)])
     else sightings env received ev r (AList.update spawnid sp known) added))"

text \<open>\<open>add_all\<close>: two new rows with one id break the primary key.\<close>

definition put_spawns :: "(int, spawn) dict \<Rightarrow> (int \<times> spawn) list \<Rightarrow> change" where
  "put_spawns known added t =
     (if distinct (map fst added) \<and> (\<forall>k \<in> fst ` set added. map_of (t_spawn t) k = None)
      then Some (t\<lparr>t_spawn := fold (\<lambda>(k, sp). AList.update k sp) (known @ added) (t_spawn t)\<rparr>) else None)"

definition get_spawndef :: "int list \<Rightarrow> (int, spawn) dict db" where
  "get_spawndef ids = act_read (\<lambda>s. filter (\<lambda>(k, sp). k \<in> set ids) (t_spawn (live s)))"

definition wild_mons_of :: "json \<Rightarrow> json list result" where
  "wild_mons_of cells = res_bind (json_iter cells) (\<lambda>cs.
     res_bind (res_map (\<lambda>cell. res_bind (json_index cell ''wild_pokemon'') json_iter) cs) (\<lambda>ws. Inr (concat ws)))"

definition spawnpoints :: "submit_env \<Rightarrow> json \<Rightarrow> int \<Rightarrow> unit db" where
  "spawnpoints env map_proto received_timestamp =
     get_then map_proto ''cells'' JNull (\<lambda>cells. if cells = JNull then finish () else
     act_bind (give (wild_mons_of cells)) (\<lambda>wilds. act_bind (give (res_map (sighting_id env) wilds)) (\<lambda>spawn_ids.
     act_bind (get_spawndef spawn_ids) (\<lambda>known. act_bind (get_current_event (sb_now env) True) (\<lambda>ev.
     act_bind (give (sightings env (of_int received_timestamp) ev wilds known [])) (\<lambda>(known, added).
     change_rows (put_spawns known added)))))))"

end
