(* ===== verification/WebhookReader.thy ===== *)
theory WebhookReader
  imports SubmitGyms SubmitSpawns
begin

text \<open>
  \<open>mapadroid/db/DbWebhookReader.py\<close> and the queries below it (\<open>mapadroid/db/helper\<close>): what of the tables has changed since a moment,
  as dictionaries for the webhook. Without an order in the query the rows come in the order of the table.
\<close>

type_synonym fields = "(string \<times> json) list"

text \<open>\<open>int(t.timestamp())\<close>, of a column that may be empty, and of one for which \<open>None\<close> is kept.\<close>

definition or_null :: "('a \<Rightarrow> json) \<Rightarrow> 'a option \<Rightarrow> json" where
  "or_null f x = (case x of None \<Rightarrow> JNull | Some y \<Rightarrow> f y)"

definition sec :: "real \<Rightarrow> json" where
  "sec t = JInt (if 0 \<le> t then \<lfloor>t\<rfloor> else \<lceil>t\<rceil>)"

definition sec_of :: "real option \<Rightarrow> json result" where
  "sec_of t = (case t of None \<Rightarrow> Inl AttributeError | Some x \<Rightarrow> Inr (sec x))"

definition sec_or_none :: "real option \<Rightarrow> json" where
  "sec_or_none t = (case t of None \<Rightarrow> JNull | Some x \<Rightarrow> sec x)"

section \<open>Raids\<close>

definition raids_changed_since :: "int \<Rightarrow> tables \<Rightarrow> (json \<times> raid \<times> gym_detail \<times> gym) list" where
  "raids_changed_since ts t =
     concat (map (\<lambda>(g, r). case (map_of (t_gymdetail t) g, map_of (t_gym t) g) of
         (Some d, Some gy) \<Rightarrow> if ra_last_scanned r > of_int ts \<and> gy_latitude gy \<noteq> JNull \<and> gy_longitude gy \<noteq> JNull then [(g, r, d, gy)] else []
       | _ \<Rightarrow> []) (t_raid t))"

definition raid_fields :: "json \<times> raid \<times> gym_detail \<times> gym \<Rightarrow> fields" where
  "raid_fields row = (case row of (g, r, d, gy) \<Rightarrow>
     [(''gym_id'', g), (''level'', ra_level r), (''spawn'', sec (ra_spawn r)), (''start'', sec (ra_start r)), (''end'', sec (ra_end r)),
      (''pokemon_id'', ra_pokemon_id r), (''cp'', ra_cp r), (''move_1'', ra_move_1 r), (''move_2'', ra_move_2 r),
      (''last_scanned'', sec (ra_last_scanned r)), (''form'', ra_form r), (''name'', gd_name d), (''url'', gd_url d),
      (''latitude'', gy_latitude gy), (''longitude'', gy_longitude gy), (''team_id'', gy_team_id gy),
      (''weather_boosted_condition'', gy_weather_boosted gy), (''is_exclusive'', ra_is_exclusive r), (''gender'', ra_gender r),
      (''is_ex_raid_eligible'', gy_is_ex_raid_eligible gy), (''costume'', ra_costume r), (''evolution'', ra_evolution r)])"

definition get_raids_changed_since :: "int \<Rightarrow> tables \<Rightarrow> fields list result" where
  "get_raids_changed_since ts t = Inr (map raid_fields (raids_changed_since ts t))"

section \<open>Weather\<close>

definition weather_changed_since :: "int \<Rightarrow> tables \<Rightarrow> (string \<times> weather) list" where
  "weather_changed_since ts t = filter (\<lambda>(c, w). we_last_updated w > of_int ts) (t_weather t)"

definition weather_fields :: "string \<times> weather \<Rightarrow> fields" where
  "weather_fields row = (case row of (c, w) \<Rightarrow>
     [(''s2_cell_id'', JStr c), (''latitude'', JFloat (we_latitude w)), (''longitude'', JFloat (we_longitude w)),
      (''cloud_level'', we_cloud_level w), (''rain_level'', we_rain_level w), (''wind_level'', we_wind_level w),
      (''snow_level'', we_snow_level w), (''fog_level'', we_fog_level w), (''wind_direction'', we_wind_direction w),
      (''gameplay_weather'', we_gameplay_weather w), (''severity'', JInt (we_severity w)), (''warn_weather'', JInt (we_warn_weather w)),
      (''world_time'', we_world_time w), (''last_updated'', sec (we_last_updated w))])"

definition get_weather_changed_since :: "int \<Rightarrow> tables \<Rightarrow> fields list result" where
  "get_weather_changed_since ts t = Inr (map weather_fields (weather_changed_since ts t))"

section \<open>Quests\<close>

text \<open>
  Stops with their quests of today that changed, by stop and by layer. \<open>midnight\<close> is the last midnight of the clock of the server; a
  moment of 0 is no restriction.
\<close>

definition quests_changed_since :: "real \<Rightarrow> int \<Rightarrow> tables \<Rightarrow> (json \<times> pokestop \<times> int \<times> quest) list" where
  "quests_changed_since midnight ts t =
     concat (map (\<lambda>(s, st). map (\<lambda>((g, layer), q). (s, st, layer, q))
         (filter (\<lambda>((g, layer), q). g = s \<and> of_int (qu_timestamp q) > midnight \<and> (ts = 0 \<or> qu_timestamp q \<ge> ts)) (t_quest t)))
       (t_stop t))"

definition get_with_quests :: "real \<Rightarrow> int \<Rightarrow> tables \<Rightarrow> (json, pokestop \<times> (int, quest) dict) dict" where
  "get_with_quests midnight ts t =
     fold (\<lambda>(s, st, layer, q) d.
         case map_of d s of
           None \<Rightarrow> AList.update s (st, [(layer, q)]) d
         | Some (st0, qs) \<Rightarrow> AList.update s (st0, AList.update layer q qs) d)
       (quests_changed_since midnight ts t) []"

section \<open>Gyms\<close>

definition gyms_changed_since :: "int \<Rightarrow> tables \<Rightarrow> (json \<times> gym \<times> gym_detail) list" where
  "gyms_changed_since ts t =
     concat (map (\<lambda>(g, gy). case map_of (t_gymdetail t) g of
         None \<Rightarrow> []
       | Some d \<Rightarrow> (case gy_last_modified gy of None \<Rightarrow> [] | Some m \<Rightarrow> if m \<ge> of_int ts then [(g, gy, d)] else []))
       (t_gym t))"

definition gym_fields :: "json \<times> gym \<times> gym_detail \<Rightarrow> fields result" where
  "gym_fields row = (case row of (g, gy, d) \<Rightarrow>
     res_bind (sec_of (gy_last_scanned gy)) (\<lambda>scanned. res_bind (sec_of (gy_last_modified gy)) (\<lambda>modified.
     Inr [(''gym_id'', g), (''team_id'', gy_team_id gy), (''guard_pokemon_id'', gy_guard_pokemon_id gy),
      (''slots_available'', gy_slots_available gy), (''latitude'', gy_latitude gy), (''longitude'', gy_longitude gy),
      (''total_cp'', gy_total_cp gy), (''is_in_battle'', gy_is_in_battle gy), (''weather_boosted_condition'', gy_weather_boosted gy),
      (''last_scanned'', scanned), (''last_modified'', modified), (''name'', gd_name d), (''url'', gd_url d),
      (''description'', gd_description d), (''is_ex_raid_eligible'', gy_is_ex_raid_eligible gy),
      (''is_ar_scan_eligible'', gy_is_ar_scan_eligible gy)])))"

definition get_gyms_changed_since :: "int \<Rightarrow> tables \<Rightarrow> fields list result" where
  "get_gyms_changed_since ts t = res_map gym_fields (gyms_changed_since ts t)"

section \<open>Stops and incidents\<close>

text \<open>
  The outer join of the stops with their incidents: a stop has a pair for each of its incidents, or one without. Pairs are kept
  of stops that changed and have been lured once, or whose incident has not ended by then.
\<close>

definition stop_pairs :: "tables \<Rightarrow> (json \<times> pokestop \<times> (json \<times> incident) option) list" where
  "stop_pairs t = concat (map (\<lambda>(s, st).
       let is = filter (\<lambda>((p, i), inc). p = s) (t_incident t)
       in if is = [] then [(s, st, None)] else map (\<lambda>((p, i), inc). (s, st, Some (i, inc))) is) (t_stop t))"

definition above :: "real option \<Rightarrow> real \<Rightarrow> bool" where
  "above x b \<longleftrightarrow> (case x of None \<Rightarrow> False | Some a \<Rightarrow> a > b)"

definition pair_changed :: "int \<Rightarrow> json \<times> pokestop \<times> (json \<times> incident) option \<Rightarrow> bool" where
  "pair_changed ts p = (case p of (s, st, inc) \<Rightarrow>
     above (st_last_updated st) (of_int ts) \<and>
     (above (st_lure_expiration st) 0 \<or> (case inc of None \<Rightarrow> False | Some (i, x) \<Rightarrow> above (in_expiration x) (of_int ts))))"

definition get_changed_since_or_incidents :: "int \<Rightarrow> tables \<Rightarrow> (json, pokestop \<times> (json \<times> incident) list) dict" where
  "get_changed_since_or_incidents ts t =
     fold (\<lambda>(s, st, inc) d.
         let is = (case map_of d s of None \<Rightarrow> [] | Some (st0, is) \<Rightarrow> is)
         in AList.update s (st, is @ (case inc of None \<Rightarrow> [] | Some i \<Rightarrow> [i])) d)
       (filter (pair_changed ts) (stop_pairs t)) []"

text \<open>An incident as the encoder of messages writes the row.\<close>

definition incident_json :: "json \<Rightarrow> json \<times> incident \<Rightarrow> json" where
  "incident_json stop_id i = (case i of (incident_id, inc) \<Rightarrow>
     JDict [(''pokestop_id'', stop_id), (''incident_id'', incident_id), (''incident_start'', sec_or_none (in_start inc)),
       (''incident_expiration'', sec_or_none (in_expiration inc)), (''hide_incident'', in_hide inc),
       (''incident_display_type'', in_display_type inc), (''incident_display_order_priority'', in_display_order inc),
       (''custom_display'', in_custom_display inc), (''is_cross_stop_incident'', in_cross_stop inc),
       (''character_display'', in_character inc)])"

definition stop_fields :: "json \<times> pokestop \<times> (json \<times> incident) list \<Rightarrow> fields" where
  "stop_fields row = (case row of (s, st, is) \<Rightarrow>
     [(''pokestop_id'', s), (''latitude'', st_latitude st), (''longitude'', st_longitude st),
      (''lure_expiration'', sec_or_none (st_lure_expiration st)), (''name'', st_name st), (''image'', st_image st),
      (''active_fort_modifier'', st_active_fort_modifier st), (''last_modified'', sec_or_none (st_last_modified st)),
      (''last_updated'', sec_or_none (st_last_updated st))] @
     (case is of [] \<Rightarrow> []
      | (i, inc) # r \<Rightarrow> [(''incident_start'', sec_or_none (in_start inc)), (''incident_expiration'', sec_or_none (in_expiration inc)),
          (''incident_grunt_type'', in_character inc), (''incident_display_type'', in_display_type inc)]) @
     [(''incidents'', JList (map (incident_json s) is))])"

definition get_stops_changed_since :: "int \<Rightarrow> tables \<Rightarrow> fields list result" where
  "get_stops_changed_since ts t = Inr (map stop_fields (get_changed_since_or_incidents ts t))"

section \<open>Mons\<close>

fun seen_name :: "mon_seen_type \<Rightarrow> string" where
  "seen_name wild = ''wild''"
| "seen_name encounter = ''encounter''"
| "seen_name lure_encounter = ''lure_encounter''"
| "seen_name lure_wild = ''lure_wild''"
| "seen_name nearby_stop = ''nearby_stop''"
| "seen_name nearby_cell = ''nearby_cell''"

fun seen_value :: "mon_seen_type \<Rightarrow> int" where
  "seen_value wild = 0"
| "seen_value encounter = 1"
| "seen_value lure_encounter = 2"
| "seen_value lure_wild = 3"
| "seen_value nearby_stop = 4"
| "seen_value nearby_cell = 5"

definition seen_json :: "mon_seen_type option \<Rightarrow> json" where
  "seen_json ty = (case ty of None \<Rightarrow> JNull | Some x \<Rightarrow> JStr (seen_name x))"

record mon_row =
  mr_id :: int
  mr_mon :: pokemon
  mr_spawn :: "spawn option"
  mr_stop :: "pokestop option"
  mr_display :: "pokemon_display option"

definition spawn_of_mon :: "tables \<Rightarrow> pokemon \<Rightarrow> spawn option" where
  "spawn_of_mon t p = (case pk_spawnpoint_id p of JInt i \<Rightarrow> map_of (t_spawn t) i | _ \<Rightarrow> None)"

text \<open>Stops are only joined when mons at stops are asked for. Without types, encounters are.\<close>

definition mons_changed_since :: "int \<Rightarrow> mon_seen_type list \<Rightarrow> tables \<Rightarrow> mon_row list" where
  "mons_changed_since ts types t =
     (let types = (if types = [] then [encounter, lure_encounter] else types);
          with_stops = (\<exists>x \<in> set types. x \<in> {nearby_stop, lure_wild, lure_encounter})
      in map (\<lambda>(e, p). \<lparr>mr_id = e, mr_mon = p, mr_spawn = spawn_of_mon t p,
               mr_stop = (if with_stops then map_of (t_stop t) (pk_fort_id p) else None), mr_display = map_of (t_display t) e\<rparr>)
           (filter (\<lambda>(e, p). (case pk_last_modified p of None \<Rightarrow> False | Some m \<Rightarrow> m \<ge> of_int ts) \<and> pk_seen_type p \<in> Some ` set types) (t_pokemon t)))"

text \<open>
  The mon of a lure whose place is not known is to be left out, but the name in the column is compared with the number of the enum.
\<close>

definition nowhere :: "pokemon \<Rightarrow> bool" where
  "nowhere p \<longleftrightarrow> equals_int (pk_latitude p) 0 \<and> equals_int (seen_json (pk_seen_type p)) (seen_value lure_encounter)"

definition mon_fields :: "mon_row \<Rightarrow> fields result" where
  "mon_fields row =
     (let p = mr_mon row; st = mr_stop row; pd = mr_display row in
       res_bind (sec_of (pk_disappear_time p)) (\<lambda>disappear. Inr
       [(''encounter_id'', JInt (mr_id row)), (''pokemon_id'', pk_pokemon_id p), (''last_modified'', sec_or_none (pk_last_modified p)),
        (''spawnpoint_id'', pk_spawnpoint_id p), (''latitude'', pk_latitude p), (''longitude'', pk_longitude p),
        (''disappear_time'', disappear), (''individual_attack'', pk_individual_attack p),
        (''individual_defense'', pk_individual_defense p), (''individual_stamina'', pk_individual_stamina p),
        (''move_1'', pk_move_1 p), (''move_2'', pk_move_2 p), (''cp'', pk_cp p), (''cp_multiplier'', pk_cp_multiplier p),
        (''gender'', pk_gender p), (''form'', pk_form p), (''costume'', pk_costume p), (''height'', pk_height p),
        (''weight'', pk_weight p), (''weather_boosted_condition'', pk_weather_boosted p), (''base_catch'', pk_catch_prob_1 p),
        (''great_catch'', pk_catch_prob_2 p), (''ultra_catch'', pk_catch_prob_3 p),
        (''spawn_verified'', JBool (case mr_spawn row of None \<Rightarrow> False | Some sp \<Rightarrow> sp_calc_endminsec sp \<notin> {None, Some []})),
        (''fort_id'', pk_fort_id p), (''stop_name'', or_null st_name st), (''stop_url'', or_null st_image st), (''cell_id'', pk_cell_id p),
        (''seen_type'', seen_json (pk_seen_type p)), (''display_pokemon'', or_null pd_pokemon pd), (''display_form'', or_null pd_form pd),
        (''display_costume'', or_null pd_costume pd), (''display_gender'', or_null pd_gender pd), (''size'', pk_size p)]))"

definition get_mon_changed_since :: "int \<Rightarrow> mon_seen_type list \<Rightarrow> tables \<Rightarrow> fields list result" where
  "get_mon_changed_since ts types t = res_map mon_fields (filter (\<lambda>r. \<not> nowhere (mr_mon r)) (mons_changed_since ts types t))"

text \<open>So nothing is ever left out.\<close>

lemma nowhere_never: "\<not> nowhere p"
  by (cases "pk_seen_type p") (simp_all add: nowhere_def seen_json_def)

end
