(* ===== verification/QuestGen.thy ===== *)
theory QuestGen
  imports WebhookReader
begin

text \<open>
  \<open>mapadroid/utils/questGen.py\<close>: a quest of a stop in words (\<open>generate_quest\<close>), from the tables of names the class loads, the
  translation \<open>_\<close> and \<open>i8ln\<close>. The sentence of the task (\<open>questtask\<close>) is an argument, as is the text \<open>json.dumps\<close> makes of a value.
\<close>

record quest_gen =
  qg_tr :: "string \<Rightarrow> string"
  qg_i8ln :: "json \<Rightarrow> json"
  qg_types :: json
  qg_items :: json
  qg_mons :: json
  qg_task :: "json \<Rightarrow> string \<Rightarrow> json \<Rightarrow> json \<Rightarrow> json \<Rightarrow> json result"
  qg_dumps :: "json \<Rightarrow> string"
  qg_show :: "json \<Rightarrow> string"

definition questreward :: "quest_gen \<Rightarrow> json \<Rightarrow> string" where
  "questreward qg ty =
     (if equals_int ty 1 then qg_tr qg ''Experience'' else if equals_int ty 2 then qg_tr qg ''Item''
      else if equals_int ty 4 then qg_tr qg ''Candy'' else if equals_int ty 3 then qg_tr qg ''Stardust''
      else if equals_int ty 7 then qg_tr qg ''Pokemon'' else if equals_int ty 9 then qg_tr qg ''XL Candy''
      else if equals_int ty 12 then qg_tr qg ''Energy'' else ''nothing'')"

text \<open>A name from a file of entries, or a default.\<close>

definition entry_text :: "json \<Rightarrow> string \<Rightarrow> string \<Rightarrow> string \<Rightarrow> string result" where
  "entry_text entries k field dflt =
     res_bind (json_get entries k JNull) (\<lambda>e. if \<not> truthy e then Inr dflt
       else res_bind (json_get e field JNull) (\<lambda>v. if truthy v then json_text v else Inr dflt))"

definition questtype :: "quest_gen \<Rightarrow> json \<Rightarrow> string result" where
  "questtype qg ty = entry_text (qg_types qg) (py_str (qg_show qg) ty) ''text'' (''Unknown quest type placeholder: '' @ py_str (qg_show qg) ty)"

definition rewarditem :: "quest_gen \<Rightarrow> json \<Rightarrow> string result" where
  "rewarditem qg i = entry_text (qg_items qg) (py_str (qg_show qg) i) ''name'' (''Item '' @ py_str (qg_show qg) i)"

definition pokemonname :: "quest_gen \<Rightarrow> json \<Rightarrow> json result" where
  "pokemonname qg m = res_bind (json_to_int m) (\<lambda>i. res_bind (json_get (qg_mons qg) (show_int i) (JDict [])) (\<lambda>e. json_get e ''name'' JNull))"

text \<open>\<open>s.replace("{0}", x)\<close>.\<close>

fun fill_in :: "string \<Rightarrow> string \<Rightarrow> string" where
  "fill_in x [] = []"
| "fill_in x (c # cs) = (if starts_with ''{0}'' (c # cs) then x @ fill_in x (drop 2 cs) else c # fill_in x cs)"

text \<open>What a reward is: the id of the item, the amount, its kind, the mon, its name, form, costume and asset bundle.\<close>

record reward_text =
  rw_item_id :: json
  rw_amount :: json
  rw_item_type :: json
  rw_pokemon_id :: json
  rw_pokemon_name :: json
  rw_form :: json
  rw_bundle :: json
  rw_costume :: json

definition no_reward :: reward_text where
  "no_reward = \<lparr>rw_item_id = JInt 0, rw_amount = JInt 1, rw_item_type = JStr [], rw_pokemon_id = JStr ''000'', rw_pokemon_name = JStr [],
     rw_form = JStr ''00'', rw_bundle = JStr ''00'', rw_costume = JStr ''00''\<rparr>"

definition bundle_of :: "int \<Rightarrow> json \<Rightarrow> int" where
  "bundle_of mon form = (case form of JInt f \<Rightarrow> form_mapper mon f | _ \<Rightarrow> 0)"

definition reward_of :: "quest_gen \<Rightarrow> string \<Rightarrow> quest \<Rightarrow> reward_text result" where
  "reward_of qg rt q =
     (let named = (\<lambda>m. res_bind (pokemonname qg m) (\<lambda>n. Inr (qg_i8ln qg n))) in
      if rt = qg_tr qg ''Item'' then res_bind (rewarditem qg (qu_item_id q)) (\<lambda>n.
        Inr (no_reward\<lparr>rw_amount := qu_item_amount q, rw_item_type := JStr n, rw_item_id := qu_item_id q\<rparr>))
      else if rt = qg_tr qg ''Stardust''
      then Inr (no_reward\<lparr>rw_amount := qu_stardust q, rw_item_type := JStr (qg_tr qg ''Stardust'')\<rparr>)
      else if rt = qg_tr qg ''Pokemon'' then res_bind (named (qu_pokemon_id q)) (\<lambda>n.
        res_bind (if qu_form_id q \<noteq> JStr ''00'' then res_bind (json_to_int (qu_pokemon_id q)) (\<lambda>i. Inr (JInt (bundle_of i (qu_form_id q))))
                  else Inr (JStr ''00'')) (\<lambda>b.
        Inr (no_reward\<lparr>rw_item_type := JStr ''Pokemon'', rw_pokemon_name := n, rw_pokemon_id := qu_pokemon_id q, rw_form := qu_form_id q,
               rw_costume := qu_costume_id q, rw_bundle := b\<rparr>)))
      else if rt = qg_tr qg ''Energy'' then
        res_bind (if truthy (qu_pokemon_id q) then res_bind (json_num (qu_pokemon_id q)) (\<lambda>x. Inr (x > 0)) else Inr False) (\<lambda>known.
        res_bind (if known then named (qu_pokemon_id q) else Inr (JStr [])) (\<lambda>n.
        Inr (no_reward\<lparr>rw_item_type := JStr (qg_tr qg ''Mega Energy''), rw_pokemon_name := n,
               rw_pokemon_id := (if known then qu_pokemon_id q else JStr ''000''), rw_amount := qu_item_amount q\<rparr>)))
      else if rt = qg_tr qg ''Candy'' then res_bind (named (qu_pokemon_id q)) (\<lambda>n.
        Inr (no_reward\<lparr>rw_amount := qu_item_amount q, rw_item_type := JStr rt, rw_pokemon_id := qu_pokemon_id q, rw_pokemon_name := n\<rparr>))
      else if rt = qg_tr qg ''Experience'' then Inr (no_reward\<lparr>rw_item_type := JStr rt, rw_amount := qu_item_amount q\<rparr>)
      else if rt = qg_tr qg ''XL Candy'' then res_bind (named (qu_pokemon_id q)) (\<lambda>n.
        Inr (no_reward\<lparr>rw_amount := qu_item_amount q, rw_item_type := JStr rt, rw_pokemon_id := qu_pokemon_id q, rw_pokemon_name := n\<rparr>))
      else Inr no_reward)"

definition generate_quest :: "quest_gen \<Rightarrow> json \<Rightarrow> pokestop \<Rightarrow> int \<Rightarrow> quest \<Rightarrow> fields result" where
  "generate_quest qg stop_id st layer q =
     res_bind (questtype qg (qu_type q)) (\<lambda>type_text.
     let rt = questreward qg (qu_reward_type q);
         quest_type = (if contains_str ''{0}'' type_text then fill_in (py_str (qg_show qg) (qu_target q)) type_text else type_text)
     in res_bind (reward_of qg rt q) (\<lambda>rw.
        res_bind (if qu_task q = [] then qg_task qg (qu_type q) (qg_dumps qg (qu_condition q)) (qu_target q) (qu_template q) (qu_title q)
                  else Inr (JStr (qu_task q))) (\<lambda>task.
        Inr [(''pokestop_id'', stop_id), (''name'', st_name st), (''url'', st_image st), (''latitude'', st_latitude st),
          (''longitude'', st_longitude st), (''timestamp'', JInt (qu_timestamp q)), (''item_id'', rw_item_id rw),
          (''item_amount'', rw_amount rw), (''item_type'', rw_item_type rw), (''pokemon_id'', rw_pokemon_id rw),
          (''pokemon_name'', rw_pokemon_name rw), (''pokemon_form'', rw_form rw), (''pokemon_asset_bundle_id'', rw_bundle rw),
          (''pokemon_costume'', rw_costume rw), (''quest_type'', JStr quest_type), (''quest_type_raw'', qu_type q),
          (''quest_reward_type'', JStr rt), (''quest_reward_type_raw'', qu_reward_type q),
          (''quest_reward_raw'', JStr (qg_dumps qg (qu_reward q))), (''quest_task'', task), (''quest_target'', qu_target q),
          (''quest_condition'', JStr (qg_dumps qg (qu_condition q))), (''quest_template'', qu_template q),
          (''is_ar_scan_eligible'', st_is_ar_scan_eligible st), (''quest_title'', qu_title q), (''quest_layer'', JInt layer)])))"

end
