(* ===== verification/Geofence.thy ===== *)
theory Geofence
  imports Proto
begin

text \<open>
  \<open>mapadroid/geofence/geofenceHelper.py\<close>: the fences of an area, read from the text the web interface stores
  (\<open>madmin/endpoints/api/resources/GeofenceEndpoint.py\<close>), and which coordinates are inside. \<open>matplotlib\<close>, when it is loaded, is an argument.
\<close>

record fence =
  fe_excluded :: bool
  fe_name :: string
  fe_polygon :: "(real \<times> real) list"

record geofence_helper =
  geofenced_areas :: "fence list"
  excluded_areas :: "fence list"
  contains_point :: "((real \<times> real) list \<Rightarrow> real \<times> real \<Rightarrow> bool) option"

section \<open>Reading fences\<close>

text \<open>\<open>s.replace(c, "", 1)\<close>.\<close>

fun remove_first :: "char \<Rightarrow> string \<Rightarrow> string" where
  "remove_first c [] = []"
| "remove_first c (x # xs) = (if x = c then xs else x # remove_first c xs)"

definition clean_line :: "string \<Rightarrow> string" where
  "clean_line l = strip (remove_char (CHR '']'') (remove_char (CHR 0x22) l))"

text \<open>A line with a coordinate is put into the last fence; without a name before it there is a fence with the fallback name.\<close>

definition parse_coord :: "string \<Rightarrow> (real \<times> real) result" where
  "parse_coord line = (case split_char (CHR '','') line of
       [a, b] \<Rightarrow> res_bind (parse_float a) (\<lambda>la. res_bind (parse_float b) (\<lambda>lo. Inr (la, lo)))
     | _ \<Rightarrow> Inl ValueError)"

definition add_coord :: "real \<times> real \<Rightarrow> fence list \<Rightarrow> fence list" where
  "add_coord p fences = butlast fences @ [(last fences)\<lparr>fe_polygon := fe_polygon (last fences) @ [p]\<rparr>]"

fun parse_lines :: "bool \<Rightarrow> string \<Rightarrow> bool \<Rightarrow> string list \<Rightarrow> fence list \<Rightarrow> fence list result" where
  "parse_lines excluded fallback first_line [] fences = Inr fences"
| "parse_lines excluded fallback first_line (l # ls) fences =
     (let line = clean_line l in
      if line = [] then parse_lines excluded fallback first_line ls fences
      else if starts_with ''['' line
      then parse_lines excluded fallback False ls (fences @ [\<lparr>fe_excluded = excluded,
             fe_name = remove_char (CHR '']'') (remove_char (CHR ''['') line), fe_polygon = []\<rparr>])
      else let fs = (if first_line then fences @ [\<lparr>fe_excluded = excluded,
                        fe_name = (if fallback \<noteq> [] then fallback else ''unnamed''), fe_polygon = []\<rparr>] else fences)
           in res_bind (parse_coord line) (\<lambda>p. parse_lines excluded fallback False ls (add_coord p fs)))"

definition parse_geofences_file :: "string option \<Rightarrow> bool \<Rightarrow> string \<Rightarrow> fence list result" where
  "parse_geofences_file settings excluded fallback = (case settings of
       None \<Rightarrow> Inr []
     | Some fence_data \<Rightarrow> parse_lines excluded fallback True (split_two (CHR 0x22) (CHR '','') (remove_first (CHR ''['') fence_data)) [])"

definition new_geofence_helper :: "((real \<times> real) list \<Rightarrow> real \<times> real \<Rightarrow> bool) option \<Rightarrow> string option \<Rightarrow> string option \<Rightarrow> string \<Rightarrow> geofence_helper result" where
  "new_geofence_helper mpl include exclude fence_name =
     res_bind (parse_geofences_file include False fence_name) (\<lambda>i. res_bind (parse_geofences_file exclude True fence_name) (\<lambda>e.
       Inr \<lparr>geofenced_areas = i, excluded_areas = e, contains_point = mpl\<rparr>))"

text \<open>What the web interface stores for a list of lines: \<open>str(value).replace("'", '"')\<close>, for lines without quotes.\<close>

fun quoted_lines :: "string list \<Rightarrow> string" where
  "quoted_lines [] = []"
| "quoted_lines [l] = CHR 0x22 # l @ [CHR 0x22]"
| "quoted_lines (l # m # ls) = CHR 0x22 # l @ [CHR 0x22, CHR '','', CHR '' ''] @ quoted_lines (m # ls)"

definition stored_fence_data :: "string list \<Rightarrow> string" where
  "stored_fence_data ls = CHR ''['' # quoted_lines ls @ [CHR '']'']"

section \<open>Points in polygons\<close>

text \<open>
  One edge of the loop. \<open>lat_intersection\<close> is only assigned when the longitudes differ and keeps its value from edge to edge; it is
  unbound (\<open>None\<close>) before its first assignment. Division of floats is only reached with different longitudes.
\<close>

record edge_loop =
  el_inside :: bool
  el_lat1 :: real
  el_lon1 :: real
  el_intersection :: "real option"

definition edge_step :: "real \<times> real \<Rightarrow> real \<times> real \<Rightarrow> edge_loop \<Rightarrow> edge_loop result" where
  "edge_step point p2 s =
     (let lat = fst point; lon = snd point; lat1 = el_lat1 s; lon1 = el_lon1 s; lat2 = fst p2; lon2 = snd p2 in
      res_bind
        (if min lon1 lon2 < lon \<and> lon \<le> max lon1 lon2 \<and> lat \<le> max lat1 lat2
         then let inter = (if lon1 \<noteq> lon2 then Some ((lon - lon1) * (lat2 - lat1) / (lon2 - lon1) + lat1) else el_intersection s)
              in if lat1 = lat2 then Inr (s\<lparr>el_inside := \<not> el_inside s, el_intersection := inter\<rparr>)
                 else (case inter of None \<Rightarrow> Inl UnboundLocalError
                   | Some i \<Rightarrow> Inr (s\<lparr>el_inside := (if lat \<le> i then \<not> el_inside s else el_inside s), el_intersection := inter\<rparr>))
         else Inr s)
        (\<lambda>s. Inr (s\<lparr>el_lat1 := lat2, el_lon1 := lon2\<rparr>)))"

fun edge_loop_run :: "real \<times> real \<Rightarrow> (real \<times> real) list \<Rightarrow> edge_loop \<Rightarrow> edge_loop result" where
  "edge_loop_run point [] s = Inr s"
| "edge_loop_run point (p # ps) s = res_bind (edge_step point p s) (edge_loop_run point ps)"

definition bounding_box :: "(real \<times> real) list \<Rightarrow> real \<times> real \<times> real \<times> real" where
  "bounding_box polygon =
     (let p = hd polygon in
      fold (\<lambda>c (max_lat, min_lat, max_lon, min_lon). (max (fst c) max_lat, min (fst c) min_lat, max (snd c) max_lon, min (snd c) min_lon))
        polygon (fst p, fst p, snd p, snd p))"

definition is_point_in_polygon_custom :: "real \<times> real \<Rightarrow> (real \<times> real) list \<Rightarrow> bool result" where
  "is_point_in_polygon_custom point polygon =
     (if polygon = [] then Inl IndexError
      else case bounding_box polygon of (max_lat, min_lat, max_lon, min_lon) \<Rightarrow>
        if fst point > max_lat \<or> fst point < min_lat \<or> snd point > max_lon \<or> snd point < min_lon then Inr False
        else res_bind (edge_loop_run point (map (\<lambda>i. polygon ! (i mod length polygon)) [1..<length polygon + 1])
               \<lparr>el_inside = False, el_lat1 = fst (hd polygon), el_lon1 = snd (hd polygon), el_intersection = None\<rparr>)
             (\<lambda>s. Inr (el_inside s)))"

definition is_point_in_polygon_matplotlib ::
    "((real \<times> real) list \<Rightarrow> real \<times> real \<Rightarrow> bool) \<Rightarrow> real \<times> real \<Rightarrow> (real \<times> real) list \<Rightarrow> bool result" where
  "is_point_in_polygon_matplotlib contains point polygon =
     (if polygon = [] then Inl IndexError else Inr (contains (polygon @ [hd polygon]) point))"

definition in_area :: "geofence_helper \<Rightarrow> real \<times> real \<Rightarrow> fence \<Rightarrow> bool result" where
  "in_area gf coordinate area = (case contains_point gf of
       Some c \<Rightarrow> is_point_in_polygon_matplotlib c coordinate (fe_polygon area)
     | None \<Rightarrow> is_point_in_polygon_custom coordinate (fe_polygon area))"

section \<open>Coordinates in fences\<close>

fun in_some_area :: "geofence_helper \<Rightarrow> real \<times> real \<Rightarrow> fence list \<Rightarrow> bool result" where
  "in_some_area gf coordinate [] = Inr False"
| "in_some_area gf coordinate (a # as) = res_bind (in_area gf coordinate a) (\<lambda>b. if b then Inr True else in_some_area gf coordinate as)"

definition is_excluded :: "geofence_helper \<Rightarrow> real \<times> real \<Rightarrow> bool result" where
  "is_excluded gf coordinate = in_some_area gf coordinate (excluded_areas gf)"

definition is_coord_inside_include_geofence :: "geofence_helper \<Rightarrow> real \<times> real \<Rightarrow> bool result" where
  "is_coord_inside_include_geofence gf coordinate =
     res_bind (is_excluded gf coordinate) (\<lambda>ex. if ex then Inr False
       else if geofenced_areas gf \<noteq> [] then in_some_area gf coordinate (geofenced_areas gf)
       else Inr True)"

fun get_geofenced_coordinates :: "geofence_helper \<Rightarrow> (real \<times> real) list \<Rightarrow> (real \<times> real) list result" where
  "get_geofenced_coordinates gf [] = Inr []"
| "get_geofenced_coordinates gf (c # cs) =
     res_bind (is_excluded gf c) (\<lambda>ex.
     res_bind (if ex then Inr [] else if geofenced_areas gf \<noteq> []
               then res_bind (in_some_area gf c (geofenced_areas gf)) (\<lambda>b. Inr (if b then [c] else []))
               else Inr [c]) (\<lambda>here.
     res_bind (get_geofenced_coordinates gf cs) (\<lambda>there. Inr (here @ there))))"

definition is_enabled :: "geofence_helper \<Rightarrow> bool" where
  "is_enabled gf \<longleftrightarrow> geofenced_areas gf \<noteq> [] \<or> excluded_areas gf \<noteq> []"

text \<open>The smallest box around all included fences, starting from the whole earth turned inside out.\<close>

definition fence_extent :: "geofence_helper \<Rightarrow> real \<times> real \<times> real \<times> real" where
  "fence_extent gf =
     fold (\<lambda>va e. fold (\<lambda>c (max_lat, min_lat, max_lon, min_lon).
             (max (fst c) max_lat, min (fst c) min_lat, max (snd c) max_lon, min (snd c) min_lon)) (fe_polygon va) e)
       (geofenced_areas gf) (- 90, 90, - 180, 180)"

definition get_polygon_from_fence :: "geofence_helper \<Rightarrow> real \<times> real \<times> real \<times> real" where
  "get_polygon_from_fence gf = (case fence_extent gf of (max_lat, min_lat, max_lon, min_lon) \<Rightarrow> (min_lat, min_lon, max_lat, max_lon))"

definition get_middle_from_fence :: "geofence_helper \<Rightarrow> real \<times> real" where
  "get_middle_from_fence gf = (case fence_extent gf of (max_lat, min_lat, max_lon, min_lon) \<Rightarrow>
     (min_lat + (max_lat - min_lat) / 2, min_lon + (max_lon - min_lon) / 2))"

section \<open>The loop over the edges\<close>

definition crosses :: "real \<times> real \<Rightarrow> (real \<times> real) \<times> (real \<times> real) \<Rightarrow> bool" where
  "crosses point e = (case e of ((lat1, lon1), (lat2, lon2)) \<Rightarrow>
     min lon1 lon2 < snd point \<and> snd point \<le> max lon1 lon2 \<and> fst point \<le> max lat1 lat2 \<and>
     (lat1 = lat2 \<or> fst point \<le> (snd point - lon1) * (lat2 - lat1) / (lon2 - lon1) + lat1))"

definition edges :: "(real \<times> real) list \<Rightarrow> ((real \<times> real) \<times> (real \<times> real)) list" where
  "edges polygon = zip polygon (rotate1 polygon)"

text \<open>The number of edges a ray from the point towards greater latitudes meets.\<close>

definition crossings :: "real \<times> real \<Rightarrow> (real \<times> real) list \<Rightarrow> nat" where
  "crossings point polygon = length (filter (crosses point) (edges polygon))"

text \<open>A step counts the edge, and never reads an unassigned intersection.\<close>

lemma edge_step_counts:
  "\<exists>i. edge_step point p s = Inr \<lparr>el_inside = (el_inside s \<noteq> crosses point ((el_lat1 s, el_lon1 s), p)), el_lat1 = fst p, el_lon1 = snd p,
     el_intersection = i\<rparr>"
proof -
  obtain ins a b i where s: "s = \<lparr>el_inside = ins, el_lat1 = a, el_lon1 = b, el_intersection = i\<rparr>" by (cases s) auto
  have ne: "b \<noteq> snd p" if "min b (snd p) < snd point" "snd point \<le> max b (snd p)" using that by auto
  show ?thesis
    unfolding s edge_step_def crosses_def Let_def using ne by (auto split: prod.split)
qed

lemma edge_loop_counts:
  "\<exists>t. edge_loop_run point ps s = Inr t \<and>
     el_inside t = (el_inside s \<noteq> odd (length (filter (crosses point) (zip ((el_lat1 s, el_lon1 s) # ps) ps))))"
proof (induction ps arbitrary: s)
  case (Cons p ps)
  obtain i where i: "edge_step point p s = Inr \<lparr>el_inside = (el_inside s \<noteq> crosses point ((el_lat1 s, el_lon1 s), p)), el_lat1 = fst p,
      el_lon1 = snd p, el_intersection = i\<rparr>" (is "_ = Inr ?u")
    using edge_step_counts by blast
  show ?case using Cons.IH[of ?u] by (auto simp: i)
qed simp

lemma next_points: "polygon \<noteq> [] \<Longrightarrow> map (\<lambda>i. polygon ! (i mod length polygon)) [1..<length polygon + 1] = rotate1 polygon"
  by (rule nth_equalityI) (auto simp: nth_rotate1 simp del: upt_Suc)

lemma edges_as_path: "polygon \<noteq> [] \<Longrightarrow> zip (hd polygon # rotate1 polygon) (rotate1 polygon) = edges polygon"
  using zip_append1[of polygon "[hd polygon]" "rotate1 polygon"] by (cases polygon) (simp_all add: edges_def)

section \<open>The bounding box\<close>

lemma bounding_box_holds:
  assumes "bounding_box polygon = (max_lat, min_lat, max_lon, min_lon)"
  shows "\<forall>(la, lo) \<in> set polygon. min_lat \<le> la \<and> la \<le> max_lat \<and> min_lon \<le> lo \<and> lo \<le> max_lon"
proof -
  let ?f = "\<lambda>c (max_lat, min_lat, max_lon, min_lon). (max (fst c) max_lat, min (fst c) min_lat, max (snd c) max_lon, min (snd c) min_lon)"
  have "fold ?f ps (a, b, c, d) = (a', b', c', d') \<Longrightarrow>
      a \<le> a' \<and> b' \<le> b \<and> c \<le> c' \<and> d' \<le> d \<and> (\<forall>(la, lo) \<in> set ps. b' \<le> la \<and> la \<le> a' \<and> d' \<le> lo \<and> lo \<le> c')"
    for ps :: "(real \<times> real) list" and a b c d a' b' c' d'
  proof (induction ps arbitrary: a b c d)
    case (Cons p ps)
    from Cons.IH[OF Cons.prems[simplified]] show ?case by (cases p) auto
  qed auto
  then show ?thesis using assms unfolding bounding_box_def Let_def by blast
qed

text \<open>A closed path changes sides an even number of times.\<close>

lemma side_changes:
  fixes P :: "'a \<Rightarrow> bool"
  shows "odd (length (filter (\<lambda>(x, y). P x \<noteq> P y) (zip (a # ps) ps))) \<longleftrightarrow> P a \<noteq> P (last (a # ps))"
proof (induction ps arbitrary: a)
  case (Cons p ps)
  show ?case using Cons.IH[of p] by auto
qed simp

lemma side_changes_closed:
  fixes P :: "real \<times> real \<Rightarrow> bool"
  shows "even (length (filter (\<lambda>(x, y). P x \<noteq> P y) (edges polygon)))"
proof (cases polygon)
  case (Cons p ps)
  have e: "edges polygon = zip (p # (ps @ [p])) (ps @ [p])"
    using edges_as_path[of polygon] by (simp add: Cons)
  show ?thesis using side_changes[of P p "ps @ [p]"] by (simp add: e)
qed (simp add: edges_def)

lemma edges_in: "((a, b), (c, d)) \<in> set (edges polygon) \<Longrightarrow> (a, b) \<in> set polygon \<and> (c, d) \<in> set polygon"
  unfolding edges_def by (metis in_set_zipE set_rotate1)

lemma below_all_crosses:
  assumes "lat < lat1" "lat < lat2"
  shows "crosses (lat, lon) ((lat1, lon1), (lat2, lon2)) \<longleftrightarrow> (lon1 < lon) \<noteq> (lon2 < lon)"
proof -
  have "lat \<le> (lon - lon1) * (lat2 - lat1) / (lon2 - lon1) + lat1" if h: "(lon1 < lon) \<noteq> (lon2 < lon)"
  proof -
    define t where "t = (lon - lon1) / (lon2 - lon1)"
    have t: "0 \<le> t" "t \<le> 1" using h unfolding t_def by (auto simp: divide_simps)
    have "(lon - lon1) * (lat2 - lat1) / (lon2 - lon1) + lat1 = t * lat2 + (1 - t) * lat1"
      by (simp add: t_def algebra_simps add_divide_distrib diff_divide_distrib)
    moreover have "t * lat \<le> t * lat2" "(1 - t) * lat \<le> (1 - t) * lat1"
      using t assms by (auto intro: mult_left_mono)
    then have "lat \<le> t * lat2 + (1 - t) * lat1" by (simp add: algebra_simps)
    ultimately show ?thesis by simp
  qed
  then show ?thesis using assms by (auto simp: crosses_def min_def max_def)
qed

text \<open>So the box is a shortcut only: a point outside of it crosses an even number of edges.\<close>

lemma outside_box_even:
  assumes box: "\<forall>(la, lo) \<in> set polygon. min_lat \<le> la \<and> la \<le> max_lat \<and> min_lon \<le> lo \<and> lo \<le> max_lon"
    and out: "lat > max_lat \<or> lat < min_lat \<or> lon > max_lon \<or> lon < min_lon"
  shows "even (crossings (lat, lon) polygon)"
proof (cases "lat < min_lat")
  case True
  have "filter (crosses (lat, lon)) (edges polygon) = filter (\<lambda>(x, y). (snd x < lon) \<noteq> (snd y < lon)) (edges polygon)"
  proof (rule filter_cong[OF refl])
    fix e assume e: "e \<in> set (edges polygon)"
    obtain a b c d where abcd: "e = ((a, b), (c, d))" by (metis prod.collapse)
    have "lat < a" "lat < c" using edges_in[of a b c d polygon] e box True unfolding abcd by fastforce+
    then show "crosses (lat, lon) e = (case e of (x, y) \<Rightarrow> (snd x < lon) \<noteq> (snd y < lon))"
      unfolding abcd by (simp add: below_all_crosses)
  qed
  then show ?thesis unfolding crossings_def using side_changes_closed[of "\<lambda>x. snd x < lon" polygon] by simp
next
  case False
  have "\<not> crosses (lat, lon) e" if e: "e \<in> set (edges polygon)" for e
  proof -
    obtain a b c d where abcd: "e = ((a, b), (c, d))" by (metis prod.collapse)
    have "a \<le> max_lat" "c \<le> max_lat" "min_lon \<le> b" "min_lon \<le> d" "b \<le> max_lon" "d \<le> max_lon"
      using edges_in[of a b c d polygon] e box unfolding abcd by fastforce+
    then show ?thesis using out False unfolding abcd by (auto simp: crosses_def)
  qed
  then have "filter (crosses (lat, lon)) (edges polygon) = []" by simp
  then show ?thesis unfolding crossings_def by simp
qed

lemma custom_is_parity:
  assumes "polygon \<noteq> []"
  shows "is_point_in_polygon_custom point polygon = Inr (odd (crossings point polygon))"
proof -
  obtain a b c d where box: "bounding_box polygon = (a, b, c, d)" by (metis prod_cases4)
  let ?s = "\<lparr>el_inside = False, el_lat1 = fst (hd polygon), el_lon1 = snd (hd polygon), el_intersection = None\<rparr>"
  obtain t where t: "edge_loop_run point (rotate1 polygon) ?s = Inr t" "el_inside t = odd (crossings point polygon)"
    using edge_loop_counts[of point "rotate1 polygon" ?s] edges_as_path[OF assms] unfolding crossings_def by auto
  have "even (crossings point polygon)" if "fst point > a \<or> fst point < b \<or> snd point > c \<or> snd point < d"
    using outside_box_even[OF bounding_box_holds[OF box], of "fst point" "snd point"] that by simp
  then show ?thesis
    unfolding is_point_in_polygon_custom_def next_points[OF assms] by (simp add: assms box t)
qed

text \<open>Neither the start nor the direction of a polygon matters.\<close>

lemma crosses_swap: "crosses point (q, p) = crosses point (p, q)"
proof (cases "snd p = snd q")
  case False
  obtain a b c d where pq: "p = (a, b)" "q = (c, d)" by (metis prod.collapse)
  have "b \<noteq> d" using False pq by simp
  then have "(y - d) * (a - c) / (b - d) + c = (y - b) * (c - a) / (d - b) + a" for y
    by (simp add: divide_simps) (simp add: algebra_simps)
  then show ?thesis unfolding pq crosses_def by (auto simp: min.commute max.commute)
qed (auto simp: crosses_def split: prod.split)

lemma zip_rotate1: "length xs = length ys \<Longrightarrow> zip (rotate1 xs) (rotate1 ys) = rotate1 (zip xs ys)"
  by (cases xs; cases ys) simp_all

lemma crossings_rotate1: "crossings point (rotate1 polygon) = crossings point polygon"
proof -
  have "edges (rotate1 polygon) = rotate1 (edges polygon)"
    unfolding edges_def by (rule zip_rotate1) simp
  moreover have "length (filter Q (rotate1 xs)) = length (filter Q xs)" for Q and xs :: "'a list"
    by (cases xs) auto
  ultimately show ?thesis unfolding crossings_def by simp
qed

lemma crossings_rotate: "crossings point (rotate k polygon) = crossings point polygon"
  by (induction k) (simp_all add: crossings_rotate1)

lemma crossings_rev: "crossings point (rev polygon) = crossings point polygon"
proof -
  let ?r = "rotate1 polygon"
  have turned: "rotate1 (rev ?r) = rev polygon" by (cases polygon) simp_all
  have "edges (rev ?r) = rev (zip ?r polygon)"
    unfolding edges_def turned by (rule zip_rev) simp
  also have "zip ?r polygon = map prod.swap (edges polygon)"
    unfolding edges_def zip_commute[of ?r polygon] by (rule map_cong) auto
  finally have "crossings point (rev ?r) = length (filter (\<lambda>e. crosses point (prod.swap e)) (edges polygon))"
    unfolding crossings_def by (simp add: rev_filter[symmetric] filter_map o_def)
  also have "\<dots> = crossings point polygon"
    unfolding crossings_def by (rule arg_cong[where f = length], rule filter_cong) (auto simp: crosses_swap)
  finally show ?thesis using crossings_rotate1[of point "rev ?r"] unfolding turned by simp
qed

section \<open>Fences and coordinates\<close>

text \<open>
  C12. The test of a coordinate against a fence is the parity of the edges a ray towards greater latitudes crosses: the bounding box
  is a shortcut only and no intersection is read before it is assigned. So neither the corner a fence starts with nor its
  direction matters, and a rectangle holds its coordinates half open, so that neighbouring ones share none.
\<close>

theorem fence_test_is_parity:
  assumes "polygon \<noteq> []"
  shows "is_point_in_polygon_custom point polygon = Inr (odd (crossings point polygon)) \<and>
    is_point_in_polygon_custom point (rotate k polygon) = is_point_in_polygon_custom point polygon \<and>
    is_point_in_polygon_custom point (rev polygon) = is_point_in_polygon_custom point polygon \<and>
    (a < b \<and> c < d \<longrightarrow> is_point_in_polygon_custom (la, lo) [(a, c), (b, c), (b, d), (a, d)] = Inr (a < la \<and> la \<le> b \<and> c < lo \<and> lo \<le> d))"
proof -
  have rect: "odd (crossings (la, lo) [(a, c), (b, c), (b, d), (a, d)]) \<longleftrightarrow> a < la \<and> la \<le> b \<and> c < lo \<and> lo \<le> d" if "a < b" "c < d"
    using that by (auto simp: crossings_def edges_def crosses_def min_def max_def)
  show ?thesis using assms rect by (simp add: custom_is_parity crossings_rotate crossings_rev)
qed

lemma some_area_iff:
  "in_some_area gf c as = Inr b \<Longrightarrow> b \<longleftrightarrow> (\<exists>a \<in> set as. in_area gf c a = Inr True)"
proof (induction as)
  case (Cons a as)
  then show ?case by (cases "in_area gf c a") (auto split: if_splits)
qed simp

text \<open>
  Filtering a list of coordinates agrees with asking for each of them: the result is, in order, those that are inside; it fails
  exactly when one of the questions does.
\<close>

theorem geofenced_is_filter:
  "get_geofenced_coordinates gf cs =
     res_bind (res_map (is_coord_inside_include_geofence gf) cs) (\<lambda>bs. Inr (map fst (filter snd (zip cs bs))))"
proof (induction cs)
  case (Cons c cs)
  have ask: "res_bind (is_excluded gf c) (\<lambda>ex. res_bind (if ex then Inr [] else if geofenced_areas gf \<noteq> []
        then res_bind (in_some_area gf c (geofenced_areas gf)) (\<lambda>b. Inr (if b then [c] else [])) else Inr [c]) k) =
      res_bind (is_coord_inside_include_geofence gf c) (\<lambda>b. k (if b then [c] else []))" for k :: "(real \<times> real) list \<Rightarrow> (real \<times> real) list result"
    unfolding is_coord_inside_include_geofence_def
    by (cases "is_excluded gf c"; cases "in_some_area gf c (geofenced_areas gf)") auto
  show ?case
    unfolding get_geofenced_coordinates.simps ask Cons.IH
    by (cases "is_coord_inside_include_geofence gf c"; cases "res_map (is_coord_inside_include_geofence gf) cs") auto
qed simp

section \<open>Stored fences are read back\<close>

lemma split_two_other: "x \<noteq> a \<or> y \<noteq> b \<Longrightarrow>
    split_two a b (x # y # s) = (x # hd (split_two a b (y # s))) # tl (split_two a b (y # s))"
  using split_two_nonempty[of a b "y # s"] by (auto split: list.splits)

lemma split_quoted_rest:
  "CHR 0x22 \<notin> set l \<Longrightarrow> split_two (CHR 0x22) (CHR '','') (l @ CHR 0x22 # CHR '','' # r) = l # split_two (CHR 0x22) (CHR '','') r"
  "CHR 0x22 \<notin> set l \<Longrightarrow> split_two (CHR 0x22) (CHR '','') (l @ [CHR 0x22, CHR '']'']) = [l @ [CHR 0x22, CHR '']'']]"
proof -
  show "CHR 0x22 \<notin> set l \<Longrightarrow> split_two (CHR 0x22) (CHR '','') (l @ CHR 0x22 # CHR '','' # r) = l # split_two (CHR 0x22) (CHR '','') r"
    by (rule split_two_cons)
  show "CHR 0x22 \<notin> set l \<Longrightarrow> split_two (CHR 0x22) (CHR '','') (l @ [CHR 0x22, CHR '']'']) = [l @ [CHR 0x22, CHR '']'']]"
  proof (induction l)
    case (Cons x l)
    then show ?case by (cases l) (auto simp: split_two_other)
  qed simp
qed

definition line_ok :: "string \<Rightarrow> bool" where
  "line_ok l \<longleftrightarrow> l \<noteq> [] \<and> CHR 0x22 \<notin> set l \<and> hd l \<noteq> CHR '',''"

lemma split_opening:
  assumes "line_ok l"
  shows "split_two (CHR 0x22) (CHR '','') (CHR 0x22 # l @ r) =
    (CHR 0x22 # hd (split_two (CHR 0x22) (CHR '','') (l @ r))) # tl (split_two (CHR 0x22) (CHR '','') (l @ r))"
proof (cases l)
  case (Cons a k)
  show ?thesis unfolding Cons append_Cons by (rule split_two_other) (use assms in \<open>simp add: line_ok_def Cons\<close>)
qed (use assms in \<open>simp add: line_ok_def\<close>)

lemma clean_line_quotes [simp]:
  "clean_line (CHR 0x22 # l) = clean_line l" "clean_line (l @ [CHR 0x22, CHR '']'']) = clean_line l"
  by (simp_all add: clean_line_def remove_char_def)

lemma clean_line_space [simp]: "clean_line (CHR '' '' # l) = clean_line l"
  by (simp add: clean_line_def remove_char_def strip_def lstrip_def is_ws_def)

lemma split_space: "split_two (CHR 0x22) (CHR '','') (CHR '' '' # CHR 0x22 # s) =
    (CHR '' '' # hd (split_two (CHR 0x22) (CHR '','') (CHR 0x22 # s))) # tl (split_two (CHR 0x22) (CHR '','') (CHR 0x22 # s))"
  by (rule split_two_other) simp

text \<open>For every way to clean a line that drops the quotes, the closing bracket and the space between the lines.\<close>

lemma split_quoted:
  assumes "\<And>l. clean (CHR 0x22 # l) = clean l" "\<And>l. clean (l @ [CHR 0x22, CHR '']'']) = clean l" "\<And>l. clean (CHR '' '' # l) = clean l"
    and "\<forall>l \<in> set ls. line_ok l" "ls \<noteq> []"
  shows "map clean (split_two (CHR 0x22) (CHR '','') (quoted_lines ls @ [CHR '']''])) = map clean ls"
  using assms(4,5)
proof (induction ls rule: quoted_lines.induct)
  case (2 l)
  then show ?case by (simp add: split_opening split_quoted_rest line_ok_def assms(1,2))
next
  case (3 l m ls)
  then have IH: "map clean (split_two (CHR 0x22) (CHR '','') (quoted_lines (m # ls) @ [CHR '']''])) = map clean (m # ls)" by simp
  obtain q where q: "quoted_lines (m # ls) = CHR 0x22 # q" by (cases ls) auto
  have ok: "line_ok l" "CHR 0x22 \<notin> set l" using 3 by (auto simp: line_ok_def)
  let ?sp = "split_two (CHR 0x22) (CHR '','')"
  have "?sp (quoted_lines (l # m # ls) @ [CHR '']'']) = (CHR 0x22 # l) # ?sp (CHR '' '' # CHR 0x22 # q @ [CHR '']''])"
    using split_opening[OF ok(1), of "CHR 0x22 # CHR '','' # CHR '' '' # CHR 0x22 # q @ [CHR '']'']"] by (simp add: q split_quoted_rest ok)
  moreover have "?sp (CHR 0x22 # q @ [CHR '']'']) \<noteq> []" by simp
  then have "map clean (?sp (CHR '' '' # CHR 0x22 # q @ [CHR '']''])) = map clean (?sp (CHR 0x22 # q @ [CHR '']'']))"
    unfolding split_space by (cases "?sp (CHR 0x22 # q @ [CHR '']''])") (simp_all add: assms(3))
  ultimately show ?case using IH by (simp add: q assms(1))
qed simp

lemma split_stored:
  assumes "\<forall>l \<in> set ls. line_ok l" "ls \<noteq> []"
  shows "map clean_line (split_two (CHR 0x22) (CHR '','') (quoted_lines ls @ [CHR '']''])) = map clean_line ls"
  by (rule split_quoted[OF _ _ _ assms]) simp_all

lemma parse_lines_clean:
  "map clean_line ls = map clean_line ms \<Longrightarrow> parse_lines ex fb first ls fs = parse_lines ex fb first ms fs"
proof (induction ls arbitrary: ms first fs)
  case (Cons l ls)
  then obtain m ms' where m: "ms = m # ms'" "clean_line l = clean_line m" "map clean_line ls = map clean_line ms'" by (cases ms) auto
  show ?case unfolding m(1) by (simp add: m(2) Cons.IH[OF m(3)] Let_def cong: if_cong)
qed simp

text \<open>A fence as it is entered: its name, and its corners as texts with the numbers they stand for.\<close>

type_synonym entered_fence = "string \<times> (string \<times> real \<times> real) list"

definition entered_lines :: "entered_fence \<Rightarrow> string list" where
  "entered_lines f = (''['' @ fst f @ '']'') # map fst (snd f)"

definition plain_text :: "string \<Rightarrow> bool" where
  "plain_text t \<longleftrightarrow> CHR 0x22 \<notin> set t \<and> CHR ''['' \<notin> set t \<and> CHR '']'' \<notin> set t \<and> (\<forall>c \<in> set t. \<not> is_ws c)"

definition entered_ok :: "entered_fence \<Rightarrow> bool" where
  "entered_ok f \<longleftrightarrow> plain_text (fst f) \<and>
     list_all (\<lambda>(t, p). t \<noteq> [] \<and> hd t \<noteq> CHR '','' \<and> plain_text t \<and> parse_coord t = Inr p) (snd f)"

lemma clean_plain: "plain_text t \<Longrightarrow> clean_line t = t"
  by (simp add: clean_line_def plain_text_def remove_char_id strip_id)

lemma clean_name: "plain_text t \<Longrightarrow> clean_line (CHR ''['' # t @ [CHR '']'']) = CHR ''['' # t"
proof -
  assume t: "plain_text t"
  then have "filter (\<lambda>x. x \<noteq> CHR 0x22 \<and> x \<noteq> CHR '']'') t = t" by (auto simp: plain_text_def filter_id_conv)
  moreover have "strip (CHR ''['' # t) = CHR ''['' # t" using t by (intro strip_id) (auto simp: plain_text_def is_ws_def)
  ultimately show ?thesis by (simp add: clean_line_def remove_char_def)
qed

lemma parse_coords:
  assumes "list_all (\<lambda>(t, p). t \<noteq> [] \<and> hd t \<noteq> CHR '','' \<and> plain_text t \<and> parse_coord t = Inr p) cs" "fs \<noteq> []"
  shows "parse_lines ex fb False (map fst cs @ ls) fs =
    parse_lines ex fb False ls (butlast fs @ [(last fs)\<lparr>fe_polygon := fe_polygon (last fs) @ map snd cs\<rparr>])"
  using assms
proof (induction cs arbitrary: fs)
  case (Cons c cs)
  obtain t p where c: "c = (t, p)" by (cases c)
  have t: "t \<noteq> []" "plain_text t" "parse_coord t = Inr p" using Cons.prems by (simp_all add: c)
  have ns: "\<not> starts_with ''['' t" using t by (cases t) (auto simp: plain_text_def)
  show ?case using Cons.IH[of "add_coord p fs"] Cons.prems t ns
    by (simp add: c clean_plain add_coord_def)
qed simp

lemma parse_entered:
  assumes "\<forall>f \<in> set es. entered_ok f"
  shows "parse_lines ex fb False (concat (map entered_lines es)) fs =
    Inr (fs @ map (\<lambda>f. \<lparr>fe_excluded = ex, fe_name = fst f, fe_polygon = map snd (snd f)\<rparr>) es)"
  using assms
proof (induction es arbitrary: fs)
  case (Cons f es)
  have f: "plain_text (fst f)" "list_all (\<lambda>(t, p). t \<noteq> [] \<and> hd t \<noteq> CHR '','' \<and> plain_text t \<and> parse_coord t = Inr p) (snd f)"
    using Cons.prems by (simp_all add: entered_ok_def)
  have n: "remove_char (CHR '']'') (remove_char (CHR ''['') (CHR ''['' # fst f)) = fst f"
    using f(1) by (simp add: plain_text_def remove_char_id)
  show ?case using Cons.IH Cons.prems
    by (simp add: entered_lines_def clean_name[OF f(1)] n[simplified] parse_coords[OF f(2)])
qed simp


theorem fence_test_is_parity_witness:
  "is_point_in_polygon_custom (1, 1) [(0, 0), (2, 0), (2, 2), (0, 2)] = Inr True \<and> is_point_in_polygon_custom (2, 3) [(0, 0), (2, 0), (2, 2), (0, 2)] = Inr False"
  using fence_test_is_parity[of "[(0, 0)]" _ _ 0 2 0 2 1 1] fence_test_is_parity[of "[(0, 0)]" _ _ 0 2 0 2 2 3] by simp

definition demo_fences :: "entered_fence list" where
  "demo_fences = [(''a'', [(''1,2'', 1, 2), (''-3,4'', - 3, 4)]), (''b'', [])]"

lemma demo_fences_ok: "list_all entered_ok demo_fences"
  by code_simp


end
