(* ===== verification/Webhook.thy ===== *)
theory Webhook
  imports QuestGen Geofence
begin

text \<open>
  \<open>mapadroid/webhook/webhookworker.py\<close> and \<open>mapadroid/utils/rarity.py\<close>: the worker that sends what has changed in the tables to the
  receivers, in messages of their types and in chunks of a limited size. A request that fails is logged, so sending is a list of posts.
\<close>

type_synonym payload = "string \<times> fields"
type_synonym receiver = "string \<times> string list option"

record webhook_args =
  wa_interval :: int
  wa_submit_exraids :: bool
  wa_default_flavor :: bool
  wa_max_payload_size :: int
  wa_url :: string
  wa_excluded_areas :: string
  wa_start_time :: int
  wa_quest_gen :: quest_gen
  wa_loads :: "string \<Rightarrow> json result"
  wa_coords_of_cell :: "json \<Rightarrow> json result"
  wa_middle_of_cell :: "json \<Rightarrow> (real \<times> real) result"

section \<open>Rarity\<close>

text \<open>\<open>round(x, 4)\<close>.\<close>

definition round4 :: "real \<Rightarrow> real" where
  "round4 x = of_int (py_round (x * 10000)) / 10000"

definition get_pokemon_rarity :: "int \<Rightarrow> int \<Rightarrow> int result" where
  "get_pokemon_rarity total_all total_mon =
     (if total_all = 0 then Inl ZeroDivisionError
      else let pct = round4 (100 * (of_int total_mon / of_int total_all)) in
           Inr (if pct = 0 then 0 else if pct < 0.01 then 5 else if pct < 0.03 then 4 else if pct < 0.5 then 3 else if pct < 1 then 2 else 1))"

fun refresh_rarity :: "int \<Rightarrow> (json \<times> int) list \<Rightarrow> (json, int) dict \<Rightarrow> (json, int) dict result" where
  "refresh_rarity n_all [] d = Inr d"
| "refresh_rarity n_all ((m, n) # r) d = res_bind (get_pokemon_rarity n_all n) (\<lambda>g. refresh_rarity n_all r (AList.update m g d))"

definition rarity_by_id :: "(json, int) dict \<Rightarrow> json \<Rightarrow> int" where
  "rarity_by_id d m = (case map_of d m of None \<Rightarrow> 0 | Some g \<Rightarrow> g)"

section \<open>Sending\<close>

fun cut :: "nat \<Rightarrow> 'a list \<Rightarrow> 'a list list" where
  "cut n [] = []"
| "cut n (x # xs) = (x # take n xs) # cut n (drop n xs)"

text \<open>A negative size yields no chunk at all.\<close>

definition payload_chunk :: "'a list \<Rightarrow> int \<Rightarrow> 'a list list" where
  "payload_chunk payload limit =
     (if limit = 0 then [payload] else if limit < 0 then [] else cut (nat limit - 1) payload)"

definition wanted_by :: "string list \<Rightarrow> payload \<Rightarrow> bool" where
  "wanted_by sub_types p \<longleftrightarrow> fst p \<in> set sub_types \<or>
     (case map_of (snd p) ''seen_type'' of Some (JStr s) \<Rightarrow> s \<in> set sub_types | _ \<Rightarrow> False)"

definition payload_for :: "receiver \<Rightarrow> payload list \<Rightarrow> payload list" where
  "payload_for r payloads = (case snd r of None \<Rightarrow> payloads | Some ts \<Rightarrow> filter (wanted_by ts) payloads)"

definition posts_to :: "int \<Rightarrow> payload list \<Rightarrow> receiver \<Rightarrow> (string \<times> payload list) list" where
  "posts_to limit payloads r =
     (let to_send = payload_for r payloads in
      if to_send = [] then [] else map (\<lambda>c. (fst r, c)) (payload_chunk to_send limit))"

definition send_webhook :: "int \<Rightarrow> receiver list \<Rightarrow> payload list \<Rightarrow> (string \<times> payload list) list" where
  "send_webhook limit receivers payloads =
     (if payloads = [] then [] else concat (map (posts_to limit payloads) receivers))"

section \<open>Messages\<close>

definition fetch :: "fields \<Rightarrow> string \<Rightarrow> json result" where
  "fetch d k = (case map_of d k of None \<Rightarrow> Inl KeyError | Some v \<Rightarrow> Inr v)"

definition get_field :: "fields \<Rightarrow> string \<Rightarrow> json" where
  "get_field d k = (case map_of d k of None \<Rightarrow> JNull | Some v \<Rightarrow> v)"

text \<open>Steps that fill a message: copying a field, a field that is not \<open>None\<close>, one that is true, one above 0.\<close>

fun res_steps :: "('a \<Rightarrow> 'a result) list \<Rightarrow> 'a \<Rightarrow> 'a result" where
  "res_steps [] x = Inr x"
| "res_steps (f # fs) x = res_bind (f x) (res_steps fs)"

definition copy_as :: "fields \<Rightarrow> string \<Rightarrow> string \<Rightarrow> fields \<Rightarrow> fields result" where
  "copy_as d k k' m = res_bind (fetch d k) (\<lambda>v. Inr (AList.update k' v m))"

definition copy_given :: "fields \<Rightarrow> string \<Rightarrow> string \<Rightarrow> fields \<Rightarrow> fields result" where
  "copy_given d k k' m = res_bind (fetch d k) (\<lambda>v. Inr (if v = JNull then m else AList.update k' v m))"

definition copy_true :: "fields \<Rightarrow> string \<Rightarrow> string \<Rightarrow> fields \<Rightarrow> fields result" where
  "copy_true d k k' m = (let v = get_field d k in Inr (if truthy v then AList.update k' v m else m))"

definition copy_positive :: "fields \<Rightarrow> string \<Rightarrow> string \<Rightarrow> fields \<Rightarrow> fields result" where
  "copy_positive d k k' m = res_bind (fetch d k) (\<lambda>v. if v = JNull then Inr m
     else res_bind (json_num v) (\<lambda>x. Inr (if x > 0 then AList.update k' v m else m)))"

definition copy_flag :: "fields \<Rightarrow> string \<Rightarrow> string \<Rightarrow> fields \<Rightarrow> fields result" where
  "copy_flag d k k' m = res_bind (fetch d k) (\<lambda>v. Inr (if v = JNull then m else AList.update k' (JBool (\<not> equals_int v 0)) m))"

definition put_field :: "string \<Rightarrow> json \<Rightarrow> fields \<Rightarrow> fields result" where
  "put_field k v m = Inr (AList.update k v m)"

fun is_in_excluded_area :: "geofence_helper list \<Rightarrow> json \<Rightarrow> json \<Rightarrow> bool result" where
  "is_in_excluded_area [] la lo = Inr False"
| "is_in_excluded_area (g # gs) la lo =
     res_bind (json_num la) (\<lambda>x. res_bind (json_num lo) (\<lambda>y.
     res_bind (is_coord_inside_include_geofence g (x, y)) (\<lambda>b. if b then Inr True else is_in_excluded_area gs la lo)))"

text \<open>All rows of a kind; the rows in an excluded area and those the second test refuses are left out.\<close>

fun prepare_rows :: "geofence_helper list \<Rightarrow> (fields \<Rightarrow> bool result) \<Rightarrow> string \<Rightarrow> (fields \<Rightarrow> fields result) \<Rightarrow> fields list \<Rightarrow> payload list result" where
  "prepare_rows excluded skip type build [] = Inr []"
| "prepare_rows excluded skip type build (d # ds) =
     res_bind (fetch d ''latitude'') (\<lambda>la. res_bind (fetch d ''longitude'') (\<lambda>lo.
     res_bind (is_in_excluded_area excluded la lo) (\<lambda>ex.
     res_bind (if ex then Inr [] else res_bind (skip d) (\<lambda>sk. if sk then Inr [] else res_bind (build d) (\<lambda>m. Inr [(type, m)]))) (\<lambda>here.
     res_bind (prepare_rows excluded skip type build ds) (\<lambda>there. Inr (here @ there))))))"

definition raid_skipped :: "webhook_args \<Rightarrow> fields \<Rightarrow> bool result" where
  "raid_skipped a d = res_bind (fetch d ''is_exclusive'') (\<lambda>x. Inr (\<not> wa_submit_exraids a \<and> x \<noteq> JNull \<and> \<not> equals_int x 0))"

definition raid_message :: "fields \<Rightarrow> fields result" where
  "raid_message d = res_steps
     (map (\<lambda>k. copy_as d k k) [''latitude'', ''longitude'', ''level'', ''pokemon_id'', ''team_id'', ''cp'', ''start'', ''end'', ''name'', ''evolution'', ''spawn''] @
      [copy_given d ''move_1'' ''move_1'', copy_given d ''move_2'' ''move_2'',
       (\<lambda>m. res_bind (fetch d ''pokemon_id'') (\<lambda>v. Inr (if v = JNull then AList.update ''pokemon_id'' (JInt 0) m else m))),
       copy_given d ''gym_id'' ''gym_id'', copy_true d ''url'' ''url'', copy_given d ''weather_boosted_condition'' ''weather'',
       copy_given d ''form'' ''form'', copy_flag d ''is_ex_raid_eligible'' ''is_ex_raid_eligible'', copy_flag d ''is_exclusive'' ''is_exclusive'',
       copy_given d ''gender'' ''gender'', copy_given d ''costume'' ''costume'']) []"

definition prepare_raid_data :: "webhook_args \<Rightarrow> geofence_helper list \<Rightarrow> fields list \<Rightarrow> payload list result" where
  "prepare_raid_data a excluded = prepare_rows excluded (raid_skipped a) ''raid'' raid_message"

text \<open>A place or corners that are not given are those of the cell.\<close>

definition given_or :: "fields \<Rightarrow> string \<Rightarrow> json result \<Rightarrow> fields \<Rightarrow> fields result" where
  "given_or d k dflt m = res_bind (if get_field d k = JNull then dflt else fetch d k) (\<lambda>v. Inr (AList.update k v m))"

definition weather_message :: "webhook_args \<Rightarrow> fields \<Rightarrow> fields result" where
  "weather_message a d =
     (let cell = fetch d ''s2_cell_id'';
          middle = (\<lambda>f. res_bind cell (\<lambda>c. res_bind (wa_middle_of_cell a c) (\<lambda>p. Inr (JFloat (f p)))))
      in res_steps
       [copy_as d ''s2_cell_id'' ''s2_cell_id'', copy_as d ''gameplay_weather'' ''condition'', copy_as d ''severity'' ''alert_severity'',
        copy_as d ''world_time'' ''day'', copy_as d ''last_updated'' ''time_changed'', given_or d ''latitude'' (middle fst),
        given_or d ''longitude'' (middle snd), given_or d ''coords'' (res_bind cell (wa_coords_of_cell a))] [])"

fun prepare_weather_data :: "webhook_args \<Rightarrow> fields list \<Rightarrow> payload list result" where
  "prepare_weather_data a [] = Inr []"
| "prepare_weather_data a (d # ds) =
     res_bind (weather_message a d) (\<lambda>m. res_bind (prepare_weather_data a ds) (\<lambda>r. Inr ((''weather'', m) # r)))"

definition gym_message :: "fields \<Rightarrow> fields result" where
  "gym_message d = res_steps
     (map (\<lambda>k. copy_as d k k) [''gym_id'', ''latitude'', ''longitude'', ''team_id'', ''name'', ''slots_available'', ''is_ar_scan_eligible'', ''is_in_battle''] @
      [copy_given d ''description'' ''description'', copy_given d ''url'' ''url'', copy_given d ''is_ex_raid_eligible'' ''is_ex_raid_eligible'']) []"

definition prepare_gyms_data :: "geofence_helper list \<Rightarrow> fields list \<Rightarrow> payload list result" where
  "prepare_gyms_data excluded = prepare_rows excluded (\<lambda>_. Inr False) ''gym'' gym_message"

definition stop_message :: "fields \<Rightarrow> fields result" where
  "stop_message d = res_steps
     ([copy_as d ''name'' ''name'', copy_as d ''pokestop_id'' ''pokestop_id'', copy_as d ''latitude'' ''latitude'', copy_as d ''longitude'' ''longitude'',
       copy_as d ''last_updated'' ''updated'', copy_as d ''last_modified'' ''last_modified''] @
      (if truthy (get_field d ''active_fort_modifier'')
       then [copy_as d ''lure_expiration'' ''lure_expiration'', copy_as d ''active_fort_modifier'' ''lure_id''] else []) @
      [copy_true d ''image'' ''url'', copy_true d ''incident_start'' ''incident_start'', copy_true d ''incident_expiration'' ''incident_expiration'',
       copy_true d ''incident_grunt_type'' ''incident_grunt_type'', copy_true d ''incident_display_type'' ''incident_display_type'',
       copy_as d ''incidents'' ''incidents'']) []"

definition prepare_stops_data :: "geofence_helper list \<Rightarrow> fields list \<Rightarrow> payload list result" where
  "prepare_stops_data excluded = prepare_rows excluded (\<lambda>_. Inr False) ''pokestop'' stop_message"

definition seen_as :: "fields \<Rightarrow> mon_seen_type \<Rightarrow> bool" where
  "seen_as d ty \<longleftrightarrow> get_field d ''seen_type'' = JStr (seen_name ty)"

definition mon_message :: "webhook_args \<Rightarrow> (json, int) dict \<Rightarrow> fields \<Rightarrow> fields result" where
  "mon_message a rarity d =
     res_bind (fetch d ''encounter_id'') (\<lambda>e. res_bind (fetch d ''seen_type'') (\<lambda>seen. res_bind (fetch d ''pokemon_id'') (\<lambda>pid.
     let str = py_str (qg_show (wa_quest_gen a)) in
     res_steps
     ([put_field ''encounter_id'' (JStr (str e)), copy_as d ''pokemon_id'' ''pokemon_id'', copy_as d ''display_pokemon'' ''display_pokemon_id'',
       copy_as d ''spawnpoint_id'' ''spawnpoint_id'', copy_as d ''latitude'' ''latitude'', copy_as d ''longitude'' ''longitude'',
       copy_as d ''disappear_time'' ''disappear_time'', copy_as d ''spawn_verified'' ''verified'', put_field ''seen_type'' (JStr (str seen)),
       copy_given d ''cp_multiplier'' ''cp_multiplier'',
       (\<lambda>m. if get_field d ''cp_multiplier'' = JNull then Inr m
            else res_bind (json_num (get_field d ''cp_multiplier'')) (\<lambda>x. Inr (AList.update ''pokemon_level'' (JFloat (calculate_mon_level x)) m))),
       copy_positive d ''form'' ''form'', copy_positive d ''display_form'' ''display_form'', copy_given d ''costume'' ''costume'',
       copy_positive d ''display_costume'' ''display_costume'', copy_given d ''cp'' ''cp'',
       copy_given d ''individual_attack'' ''individual_attack'', copy_given d ''individual_defense'' ''individual_defense'',
       copy_given d ''individual_stamina'' ''individual_stamina'', copy_given d ''move_1'' ''move_1'', copy_given d ''move_2'' ''move_2'',
       copy_given d ''height'' ''height'', copy_given d ''weight'' ''weight'', copy_given d ''gender'' ''gender'',
       copy_given d ''display_gender'' ''display_gender'', copy_given d ''size'' ''size'', put_field ''rarity'' (JInt (rarity_by_id rarity pid))] @
      (if get_field d ''base_catch'' = JNull then []
       else [copy_as d ''base_catch'' ''base_catch'', copy_as d ''great_catch'' ''great_catch'', copy_as d ''ultra_catch'' ''ultra_catch'']) @
      [copy_positive d ''weather_boosted_condition'' ''weather''] @
      (if seen_as d nearby_stop \<or> seen_as d lure_wild \<or> seen_as d lure_encounter
       then [copy_as d ''fort_id'' ''pokestop_id'', put_field ''pokestop_name'' (get_field d ''stop_name''),
             put_field ''pokestop_url'' (get_field d ''stop_url''), put_field ''verified'' (JBool (\<not> seen_as d nearby_stop))] else []) @
      (if seen_as d nearby_cell
       then [(\<lambda>m. res_bind (fetch d ''cell_id'') (\<lambda>c. res_bind (wa_coords_of_cell a c) (\<lambda>v. Inr (AList.update ''cell_coords'' v m)))),
             copy_as d ''cell_id'' ''cell_id'', put_field ''verified'' (JBool False)] else [])) [])))"

definition prepare_mon_data :: "webhook_args \<Rightarrow> (json, int) dict \<Rightarrow> geofence_helper list \<Rightarrow> fields list \<Rightarrow> payload list result" where
  "prepare_mon_data a rarity excluded = prepare_rows excluded (\<lambda>_. Inr False) ''pokemon'' (mon_message a rarity)"

section \<open>Quests\<close>

definition replace_char :: "char \<Rightarrow> char \<Rightarrow> string \<Rightarrow> string" where
  "replace_char a b s = map (\<lambda>c. if c = a then b else c) s"

definition escape_newlines :: "string \<Rightarrow> string" where
  "escape_newlines s = concat (map (\<lambda>c. if c = CHR 0x0A then [CHR 0x5C, CHR ''n''] else [c]) s)"

definition escape_quotes :: "string \<Rightarrow> string" where
  "escape_quotes s = concat (map (\<lambda>c. if c = CHR 0x22 then [CHR 0x5C, CHR 0x22] else [c]) s)"

definition copy_text :: "(string \<Rightarrow> string) \<Rightarrow> fields \<Rightarrow> string \<Rightarrow> string \<Rightarrow> fields \<Rightarrow> fields result" where
  "copy_text f d k k' m = res_bind (fetch d k) (\<lambda>v. res_bind (json_text v) (\<lambda>s. Inr (AList.update k' (JStr (f s)) m)))"

definition copy_int :: "fields \<Rightarrow> string \<Rightarrow> string \<Rightarrow> fields \<Rightarrow> fields result" where
  "copy_int d k k' m = res_bind (fetch d k) (\<lambda>v. res_bind (json_to_int v) (\<lambda>i. Inr (AList.update k' (JInt i) m)))"

definition copy_int_or_0 :: "fields \<Rightarrow> string \<Rightarrow> string \<Rightarrow> fields \<Rightarrow> fields result" where
  "copy_int_or_0 d k k' m = (if map_of d k = None then Inr (AList.update k' (JInt 0) m) else copy_int d k k' m)"

definition name_message :: "fields \<Rightarrow> fields \<Rightarrow> fields result" where
  "name_message d m = (if truthy (get_field d ''name'') then copy_text (escape_newlines \<circ> escape_quotes) d ''name'' ''name'' m
     else Inr (AList.update ''name'' JNull m))"

text \<open>What both flavours have in common.\<close>

definition quest_common :: "fields \<Rightarrow> (fields \<Rightarrow> fields result) list" where
  "quest_common d =
     [copy_as d ''quest_task'' ''quest_task'', copy_as d ''quest_type'' ''quest_type'', copy_as d ''quest_type_raw'' ''quest_type_raw'',
      copy_as d ''item_type'' ''item_type'', name_message d, copy_as d ''url'' ''url'', copy_as d ''timestamp'' ''timestamp'',
      copy_as d ''quest_reward_type'' ''quest_reward_type'', copy_as d ''quest_reward_type_raw'' ''quest_reward_type_raw'',
      copy_text (lower \<circ> replace_char (CHR 0x27) (CHR 0x22)) d ''quest_reward_raw'' ''quest_reward_raw'',
      copy_as d ''quest_target'' ''quest_target'', copy_int d ''pokemon_id'' ''pokemon_id'', copy_int_or_0 d ''pokemon_form'' ''pokemon_form'',
      copy_int_or_0 d ''pokemon_costume'' ''pokemon_costume'', copy_as d ''item_amount'' ''item_amount'', copy_as d ''item_id'' ''item_id'',
      copy_text (lower \<circ> replace_char (CHR 0x27) (CHR 0x22)) d ''quest_condition'' ''quest_condition'',
      copy_as d ''quest_template'' ''quest_template'', copy_as d ''is_ar_scan_eligible'' ''is_ar_scan_eligible'',
      (\<lambda>m. res_bind (fetch d ''quest_layer'') (\<lambda>v. Inr (AList.update ''with_ar'' (JBool (truthy v)) m)))]"

definition quest_message_default :: "fields \<Rightarrow> fields result" where
  "quest_message_default d = res_steps
     ([copy_as d ''pokestop_id'' ''pokestop_id'', copy_as d ''latitude'' ''latitude'', copy_as d ''longitude'' ''longitude''] @
      quest_common d @ [copy_as d ''quest_title'' ''quest_title'']) []"

text \<open>The info of a reward, by its type.\<close>

definition reward_info :: "fields \<Rightarrow> json \<Rightarrow> fields result" where
  "reward_info d ty = res_steps
     (if equals_int ty 2 then [copy_as d ''item_id'' ''item_id'', copy_int d ''item_amount'' ''amount'']
      else if equals_int ty 3 then [copy_int d ''item_amount'' ''amount'']
      else if equals_int ty 4 then [copy_int d ''item_amount'' ''amount'', copy_int d ''pokemon_id'' ''pokemon_id'']
      else if equals_int ty 7 then [copy_int d ''pokemon_id'' ''pokemon_id'', copy_int d ''pokemon_form'' ''form_id'',
        copy_int_or_0 d ''pokemon_costume'' ''costume_id'', put_field ''shiny'' (JInt 0), copy_int d ''pokemon_form'' ''form'']
      else if equals_int ty 12 then [copy_int d ''pokemon_id'' ''pokemon_id'', copy_int d ''item_amount'' ''amount'']
      else []) []"

text \<open>
  The conditions: what is under a key becomes the \<open>info\<close>, with a key of its own renamed. Some keys are taken out; where one is
  kept, both entries are the same object and so both show the renaming.
\<close>

definition renamed :: "string \<Rightarrow> string \<Rightarrow> json \<Rightarrow> json result" where
  "renamed old new j = (case j of
       JDict d \<Rightarrow> (case map_of d old of None \<Rightarrow> Inl KeyError | Some v \<Rightarrow> Inr (JDict (AList.update new v (AList.delete old d))))
     | _ \<Rightarrow> Inl AttributeError)"

definition take_info :: "string \<Rightarrow> bool \<Rightarrow> (json \<Rightarrow> json result) \<Rightarrow> json \<Rightarrow> json result" where
  "take_info k keep change c =
     res_bind (json_has k c) (\<lambda>has. if \<not> has then Inr c else
       (case c of
          JDict d \<Rightarrow> res_bind (fetch d k) (\<lambda>v. res_bind (change v) (\<lambda>v'.
            Inr (JDict (AList.update ''info'' v' (if keep then AList.update k v' d else AList.delete k d)))))
        | _ \<Rightarrow> Inl (if keep then TypeError else AttributeError)))"

definition condition_message :: "json \<Rightarrow> json result" where
  "condition_message c = res_steps
     [take_info ''with_pokemon_type'' False (renamed ''pokemon_type'' ''pokemon_type_ids''), take_info ''with_pokemon_category'' False Inr,
      take_info ''with_raid_level'' False (renamed ''raid_level'' ''raid_levels''), take_info ''with_throw_type'' False (renamed ''throw_type'' ''throw_type_id''),
      take_info ''with_item'' False (renamed ''item'' ''item_id''), take_info ''with_pvp_combat'' True Inr,
      take_info ''with_distance'' True (renamed ''distance_km'' ''distance''), take_info ''with_pokemon_alignment'' True Inr,
      take_info ''with_invasion_character'' True (renamed ''category'' ''character_category_ids''), take_info ''with_buddy'' True Inr] c"

definition quest_message_poracle :: "webhook_args \<Rightarrow> fields \<Rightarrow> fields result" where
  "quest_message_poracle a d =
     res_bind (res_bind (fetch d ''quest_condition'') json_text) (\<lambda>text.
     res_bind (wa_loads a (replace_char (CHR 0x27) (CHR 0x22) text)) (\<lambda>loaded.
     res_bind (fetch d ''quest_reward_type_raw'') (\<lambda>ty. res_bind (reward_info d ty) (\<lambda>info.
     res_bind (json_iter loaded) (\<lambda>cs. res_bind (res_map condition_message cs) (\<lambda>conditions.
     res_steps
       ([copy_as d ''pokestop_id'' ''pokestop_id'', copy_as d ''quest_template'' ''template'', copy_text escape_newlines d ''name'' ''pokestop_name'',
         copy_as d ''url'' ''pokestop_url'', put_field ''conditions'' (JList conditions), copy_as d ''quest_type_raw'' ''type'',
         copy_as d ''latitude'' ''latitude'', copy_as d ''longitude'' ''longitude'',
         put_field ''rewards'' (JList [JDict [(''info'', JDict info), (''type'', ty)]]), copy_as d ''quest_target'' ''target'',
         copy_as d ''timestamp'' ''updated''] @ quest_common d) []))))))"

definition quest_message :: "webhook_args \<Rightarrow> fields \<Rightarrow> fields result" where
  "quest_message a d = (if wa_default_flavor a then quest_message_default d else quest_message_poracle a d)"

text \<open>A quest that cannot be put into words is logged and left out.\<close>

definition quest_payload :: "webhook_args \<Rightarrow> json \<Rightarrow> pokestop \<Rightarrow> int \<times> quest \<Rightarrow> payload list" where
  "quest_payload a stop_id st lq =
     (case res_bind (generate_quest (wa_quest_gen a) stop_id st (fst lq) (snd lq)) (quest_message a) of
        Inl e \<Rightarrow> [] | Inr m \<Rightarrow> [(''quest'', m)])"

fun prepare_quest_data :: "webhook_args \<Rightarrow> geofence_helper list \<Rightarrow> (json, pokestop \<times> (int, quest) dict) dict \<Rightarrow> payload list result" where
  "prepare_quest_data a excluded [] = Inr []"
| "prepare_quest_data a excluded ((s, st, quests) # r) =
     res_bind (is_in_excluded_area excluded (st_latitude st) (st_longitude st)) (\<lambda>ex.
     res_bind (prepare_quest_data a excluded r) (\<lambda>there.
       Inr ((if ex then [] else concat (map (quest_payload a s st) quests)) @ there)))"

section \<open>Receivers\<close>

definition valid_types :: "string list" where
  "valid_types = [''pokemon'', ''raid'', ''weather'', ''quest'', ''gym'', ''pokestop'']"

definition valid_mon_types :: "mon_seen_type list" where
  "valid_mon_types = [encounter, wild, nearby_stop, nearby_cell, lure_wild, lure_encounter]"

text \<open>\<open>[type type]url\<close>, or a url for everything; \<open>url.index("]")\<close> raises when the bracket is not closed.\<close>

definition parse_receiver :: "string \<Rightarrow> receiver result" where
  "parse_receiver entry =
     (let url = strip entry in
      if \<not> starts_with ''['' url then Inr (remove_char (CHR '' '') url, None)
      else case split_once (CHR '']'') (tl url) of
          [raw, rest] \<Rightarrow> (let ts = split_char (CHR '' '') (strip raw)
             in Inr (remove_char (CHR '' '') rest, Some (if ''pokemon'' \<in> set ts then ts @ [''encounter''] else ts)))
        | _ \<Rightarrow> Inl ValueError)"

definition build_webhook_receivers :: "webhook_args \<Rightarrow> receiver list result" where
  "build_webhook_receivers a = res_map parse_receiver (split_char (CHR '','') (wa_url a))"

text \<open>The types any receiver asks for.\<close>

definition asked_for :: "receiver list \<Rightarrow> string \<Rightarrow> bool" where
  "asked_for rs ty \<longleftrightarrow> (\<exists>r \<in> set rs. case snd r of None \<Rightarrow> True | Some ts \<Rightarrow> ty \<in> set ts)"

definition webhook_types :: "receiver list \<Rightarrow> string list" where
  "webhook_types rs = filter (asked_for rs) valid_types"

definition pokemon_types :: "receiver list \<Rightarrow> mon_seen_type list" where
  "pokemon_types rs = filter (\<lambda>t. asked_for rs (seen_name t)) valid_mon_types"

text \<open>Names of areas, with a star at the end for all that begin so. Of areas of one name the last one counts.\<close>

definition names_area :: "string \<Rightarrow> string \<Rightarrow> bool" where
  "names_area area_name name \<longleftrightarrow> (ends_with ''*'' area_name \<and> starts_with (butlast area_name) name) \<or> area_name = name"

definition build_excluded_areas :: "webhook_args \<Rightarrow> (string \<times> geofence_helper) list \<Rightarrow> geofence_helper list" where
  "build_excluded_areas a managers =
     (let by_name = fold (\<lambda>(n, gf). AList.update n gf) managers []
      in concat (map (\<lambda>area. map snd (filter (\<lambda>(n, gf). names_area (strip area) n) by_name)) (split_char (CHR '','') (wa_excluded_areas a))))"

section \<open>The loop\<close>

record webhook =
  wk_receivers :: "receiver list"
  wk_excluded :: "geofence_helper list"
  wk_last_check :: int
  wk_posts :: "(string \<times> payload list) list"

text \<open>What one turn finds: the time, the last midnight, the rarities and the tables.\<close>

record poll_env =
  po_now :: real
  po_midnight :: real
  po_rarity :: "(json, int) dict"
  po_tables :: tables

text \<open>The stages in their order; the first exception ends the building, what was built before it is sent.\<close>

fun run_stages :: "(payload list result) list \<Rightarrow> payload list \<Rightarrow> payload list" where
  "run_stages [] full = full"
| "run_stages (st # r) full = (case st of Inl e \<Rightarrow> full | Inr p \<Rightarrow> run_stages r (full @ p))"

definition stage :: "bool \<Rightarrow> payload list result \<Rightarrow> payload list result" where
  "stage b p = (if b then p else Inr [])"

definition create_payload :: "webhook_args \<Rightarrow> poll_env \<Rightarrow> webhook \<Rightarrow> payload list" where
  "create_payload a e w =
     (let types = webhook_types (wk_receivers w); mon_types = pokemon_types (wk_receivers w); ex = wk_excluded w;
          ts = wk_last_check w; t = po_tables e
      in run_stages
       [stage (''raid'' \<in> set types) (res_bind (get_raids_changed_since ts t) (prepare_raid_data a ex)),
        stage (''quest'' \<in> set types) (prepare_quest_data a ex (get_with_quests (po_midnight e) ts t)),
        stage (''weather'' \<in> set types) (res_bind (get_weather_changed_since ts t) (prepare_weather_data a)),
        stage (''gym'' \<in> set types) (res_bind (get_gyms_changed_since ts t) (prepare_gyms_data ex)),
        stage (''pokestop'' \<in> set types) (res_bind (get_stops_changed_since ts t) (prepare_stops_data ex)),
        stage (mon_types \<noteq> []) (res_bind (get_mon_changed_since ts mon_types t) (prepare_mon_data a (po_rarity e) ex))] [])"

definition webhook_turn :: "webhook_args \<Rightarrow> poll_env \<Rightarrow> webhook \<Rightarrow> webhook" where
  "webhook_turn a e w =
     (let preparing_timestamp = \<lfloor>po_now e\<rfloor> - 6 * wa_interval a
      in w\<lparr>wk_posts := wk_posts w @ send_webhook (wa_max_payload_size a) (wk_receivers w) (create_payload a e w),
           wk_last_check := preparing_timestamp\<rparr>)"

text \<open>The start: a wrong list of receivers ends the worker before its first turn.\<close>

definition start_webhook :: "webhook_args \<Rightarrow> real \<Rightarrow> (string \<times> geofence_helper) list \<Rightarrow> webhook result" where
  "start_webhook a created managers =
     res_bind (build_webhook_receivers a) (\<lambda>rs.
       Inr \<lparr>wk_receivers = rs, wk_excluded = build_excluded_areas a managers,
          wk_last_check = (if wa_start_time a \<noteq> 0 then wa_start_time a else \<lfloor>created\<rfloor>), wk_posts = []\<rparr>)"

definition webhook_run :: "webhook_args \<Rightarrow> poll_env list \<Rightarrow> webhook \<Rightarrow> webhook" where
  "webhook_run a es w = fold (webhook_turn a) es w"

section \<open>Chunks\<close>

lemma concat_cut: "concat (cut n xs) = xs"
  by (induction n xs rule: cut.induct) simp_all

lemma cut_sizes: "c \<in> set (cut n xs) \<Longrightarrow> c \<noteq> [] \<and> length c \<le> Suc n"
  by (induction n xs rule: cut.induct) auto

lemma concat_chunks: "0 \<le> limit \<Longrightarrow> concat (payload_chunk p limit) = p"
  by (simp add: payload_chunk_def concat_cut)

text \<open>
  C35. What a receiver gets in one turn are exactly the messages of its types, each once and in order, cut into chunks that are not empty
  and not longer than the limit.
\<close>

theorem receiver_gets_its_messages:
  assumes "0 \<le> limit"
  shows "concat (map snd (posts_to limit payloads r)) = payload_for r payloads \<and>
    (\<forall>p \<in> set (posts_to limit payloads r). fst p = fst r \<and> snd p \<noteq> [] \<and> (0 < limit \<longrightarrow> int (length (snd p)) \<le> limit))"
proof -
  have sizes: "c \<noteq> [] \<and> (0 < limit \<longrightarrow> int (length c) \<le> limit)" if "c \<in> set (payload_chunk (payload_for r payloads) limit)" "payload_for r payloads \<noteq> []" for c
    using that assms cut_sizes[of c "nat limit - 1" "payload_for r payloads"] by (auto simp: payload_chunk_def split: if_splits)
  then show ?thesis
    using concat_chunks[OF assms, of "payload_for r payloads"] by (auto simp: posts_to_def Let_def o_def)
qed

lemma sent_to_each:
  assumes "p \<in> set payloads" "r \<in> set rs" "p \<in> set (payload_for r payloads)" "0 \<le> limit"
  shows "\<exists>post \<in> set (send_webhook limit rs payloads). fst post = fst r \<and> p \<in> set (snd post)"
proof -
  have "p \<in> set (concat (payload_chunk (payload_for r payloads) limit))" using assms(3) by (simp only: concat_chunks[OF assms(4)])
  then obtain c where "c \<in> set (payload_chunk (payload_for r payloads) limit)" "p \<in> set c" by auto
  then have "(fst r, c) \<in> set (posts_to limit payloads r)" using assms(3) by (auto simp: posts_to_def Let_def)
  moreover have "payloads \<noteq> []" using assms(1) by auto
  ultimately have "(fst r, c) \<in> set (send_webhook limit rs payloads)" using assms(2) by (auto simp: send_webhook_def)
  then show ?thesis using \<open>p \<in> set c\<close> by (intro bexI[of _ "(fst r, c)"]) simp_all
qed

section \<open>Steps of messages\<close>

text \<open>A step that leaves a field alone, and one that does not raise.\<close>

definition keeps :: "string \<Rightarrow> (fields \<Rightarrow> fields result) \<Rightarrow> bool" where
  "keeps k f \<longleftrightarrow> (\<forall>m m'. f m = Inr m' \<longrightarrow> map_of m' k = map_of m k)"

definition succeeds :: "(fields \<Rightarrow> fields result) \<Rightarrow> bool" where
  "succeeds f \<longleftrightarrow> (\<forall>m. \<exists>m'. f m = Inr m')"

named_theorems step_rules

lemma keeps_steps [step_rules]:
  "k' \<noteq> k \<Longrightarrow> keeps k (copy_as d x k')" "k' \<noteq> k \<Longrightarrow> keeps k (copy_given d x k')" "k' \<noteq> k \<Longrightarrow> keeps k (copy_true d x k')"
  "k' \<noteq> k \<Longrightarrow> keeps k (copy_positive d x k')" "k' \<noteq> k \<Longrightarrow> keeps k (copy_flag d x k')" "k' \<noteq> k \<Longrightarrow> keeps k (put_field k' v)"
  "k' \<noteq> k \<Longrightarrow> keeps k (copy_text f d x k')" "k' \<noteq> k \<Longrightarrow> keeps k (copy_int d x k')" "k' \<noteq> k \<Longrightarrow> keeps k (copy_int_or_0 d x k')"
  by (auto simp: keeps_def copy_as_def copy_given_def copy_true_def copy_positive_def copy_flag_def put_field_def copy_text_def copy_int_def
      copy_int_or_0_def res_bind_Inr dict_simps Let_def split: if_splits)

lemma keeps_name [step_rules]: "k \<noteq> ''name'' \<Longrightarrow> keeps k (name_message d)"
  by (auto simp: keeps_def name_message_def copy_text_def res_bind_Inr dict_simps split: if_splits)

lemma keeps_res [step_rules]: "(\<And>v. keeps k (\<lambda>m. Inr (g v m))) \<Longrightarrow> keeps k (\<lambda>m. res_bind r (\<lambda>v. Inr (g v m)))"
  by (auto simp: keeps_def res_bind_Inr)

lemma keeps_steps_all: "list_all (keeps k) fs \<Longrightarrow> res_steps fs m = Inr m' \<Longrightarrow> map_of m' k = map_of m k"
  by (induction fs arbitrary: m) (auto simp: keeps_def res_bind_Inr)

lemma succeeds_steps [step_rules]:
  "map_of d k \<noteq> None \<Longrightarrow> succeeds (copy_as d k k')" "map_of d k \<noteq> None \<Longrightarrow> succeeds (copy_given d k k')"
  "succeeds (copy_true d k k')" "map_of d k \<noteq> None \<Longrightarrow> succeeds (copy_flag d k k')" "succeeds (put_field k v)"
  by (auto simp: succeeds_def copy_as_def copy_given_def copy_true_def copy_flag_def put_field_def fetch_def Let_def)

lemma succeeds_all: "list_all succeeds fs \<Longrightarrow> \<exists>m'. res_steps fs m = Inr m'"
proof (induction fs arbitrary: m)
  case (Cons f fs)
  then obtain m1 where "f m = Inr m1" unfolding succeeds_def by auto
  then show ?case using Cons by simp
qed simp

lemma steps_append: "res_steps (fs @ gs) m = res_bind (res_steps fs m) (res_steps gs)"
proof (induction fs arbitrary: m)
  case (Cons f fs)
  then show ?case by (cases "f m") simp_all
qed simp

section \<open>Rows that become messages\<close>

definition fences_ok :: "geofence_helper list \<Rightarrow> bool" where
  "fences_ok gs \<longleftrightarrow> (\<forall>g \<in> set gs. \<forall>f \<in> set (geofenced_areas g @ excluded_areas g). fe_polygon f \<noteq> [])"

lemma in_area_total: "fe_polygon f \<noteq> [] \<Longrightarrow> \<exists>b. in_area g c f = Inr b"
  by (cases "contains_point g") (simp_all add: in_area_def custom_is_parity is_point_in_polygon_matplotlib_def)

lemma some_area_total: "\<forall>f \<in> set fs. fe_polygon f \<noteq> [] \<Longrightarrow> \<exists>b. in_some_area g c fs = Inr b"
proof (induction fs)
  case (Cons f fs)
  then obtain b b' where "in_area g c f = Inr b" "in_some_area g c fs = Inr b'" using in_area_total[of f g c] by auto
  then show ?case by (intro exI[of _ "b \<or> b'"]) simp
qed auto

lemma inside_total: "fences_ok [g] \<Longrightarrow> \<exists>b. is_coord_inside_include_geofence g c = Inr b"
  using some_area_total[of "excluded_areas g" g c] some_area_total[of "geofenced_areas g" g c]
  by (auto simp: fences_ok_def is_coord_inside_include_geofence_def is_excluded_def)

lemma excluded_total: "fences_ok gs \<Longrightarrow> json_num la = Inr x \<Longrightarrow> json_num lo = Inr y \<Longrightarrow> \<exists>b. is_in_excluded_area gs la lo = Inr b"
proof (induction gs)
  case (Cons g gs)
  then obtain b where "is_coord_inside_include_geofence g (x, y) = Inr b" using inside_total[of g "(x, y)"] by (auto simp: fences_ok_def)
  then show ?case using Cons by (auto simp: fences_ok_def)
qed auto

definition row_ok :: "geofence_helper list \<Rightarrow> (fields \<Rightarrow> bool result) \<Rightarrow> (fields \<Rightarrow> fields result) \<Rightarrow> fields \<Rightarrow> bool" where
  "row_ok ex skip build d \<longleftrightarrow> (\<exists>la lo b sk m. fetch d ''latitude'' = Inr la \<and> fetch d ''longitude'' = Inr lo \<and>
     is_in_excluded_area ex la lo = Inr b \<and> skip d = Inr sk \<and> build d = Inr m)"

lemma prepare_rows_ok:
  assumes "\<forall>d \<in> set ds. row_ok ex skip build d"
  shows "\<exists>ps. prepare_rows ex skip ty build ds = Inr ps \<and>
    (\<forall>d \<in> set ds. \<forall>la lo m. fetch d ''latitude'' = Inr la \<and> fetch d ''longitude'' = Inr lo \<and> is_in_excluded_area ex la lo = Inr False \<and>
       skip d = Inr False \<and> build d = Inr m \<longrightarrow> (ty, m) \<in> set ps)"
  using assms
proof (induction ds)
  case (Cons d ds)
  then obtain ps where ps: "prepare_rows ex skip ty build ds = Inr ps"
    "\<forall>d \<in> set ds. \<forall>la lo m. fetch d ''latitude'' = Inr la \<and> fetch d ''longitude'' = Inr lo \<and> is_in_excluded_area ex la lo = Inr False \<and>
       skip d = Inr False \<and> build d = Inr m \<longrightarrow> (ty, m) \<in> set ps" by auto
  obtain la lo b sk m where d: "fetch d ''latitude'' = Inr la" "fetch d ''longitude'' = Inr lo" "is_in_excluded_area ex la lo = Inr b"
      "skip d = Inr sk" "build d = Inr m"
    using Cons.prems unfolding row_ok_def by auto
  show ?case using ps by (auto simp: d)
qed simp

text \<open>What is built has the place of the row, and the row is in no excluded area.\<close>

definition placed_outside :: "geofence_helper list \<Rightarrow> payload \<Rightarrow> bool" where
  "placed_outside ex p \<longleftrightarrow> (\<exists>la lo. map_of (snd p) ''latitude'' = Some la \<and> map_of (snd p) ''longitude'' = Some lo \<and>
     is_in_excluded_area ex la lo = Inr False)"

definition keeps_place :: "(fields \<Rightarrow> fields result) \<Rightarrow> bool" where
  "keeps_place build \<longleftrightarrow> (\<forall>d m. build d = Inr m \<longrightarrow>
     map_of m ''latitude'' = map_of d ''latitude'' \<and> map_of m ''longitude'' = map_of d ''longitude'')"

lemma prepare_rows_outside:
  assumes "keeps_place build" "prepare_rows ex skip ty build ds = Inr ps" "p \<in> set ps"
  shows "placed_outside ex p"
  using assms(2,3)
proof (induction ds arbitrary: ps)
  case (Cons d ds)
  have f: "fetch d k = Inr v \<Longrightarrow> map_of d k = Some v" for k v by (auto simp: fetch_def split: option.splits)
  from Cons.prems obtain la lo b here there where s: "fetch d ''latitude'' = Inr la" "fetch d ''longitude'' = Inr lo" "is_in_excluded_area ex la lo = Inr b"
      "(if b then Inr [] else res_bind (skip d) (\<lambda>sk. if sk then Inr [] else res_bind (build d) (\<lambda>m. Inr [(ty, m)]))) = Inr here"
      "prepare_rows ex skip ty build ds = Inr there" "ps = here @ there"
    by (auto simp: res_bind_Inr)
  have "placed_outside ex p" if "p \<in> set here"
  proof -
    from that s(4) obtain m where m: "\<not> b" "build d = Inr m" "p = (ty, m)" by (auto simp: res_bind_Inr split: if_splits)
    then show ?thesis using assms(1) s(1-3) f[OF s(1)] f[OF s(2)] by (auto simp: placed_outside_def keeps_place_def)
  qed
  then show ?case using Cons.IH[OF s(5)] Cons.prems(2) s(6) by auto
qed simp

text \<open>Which value a field has at the end: that of the last step that writes it.\<close>

definition sets :: "string \<Rightarrow> json option \<Rightarrow> (fields \<Rightarrow> fields result) \<Rightarrow> bool" where
  "sets k v f \<longleftrightarrow> (\<forall>m m'. f m = Inr m' \<longrightarrow> map_of m' k = v)"

fun ends_as :: "string \<Rightarrow> json option \<Rightarrow> (fields \<Rightarrow> fields result) list \<Rightarrow> bool" where
  "ends_as k v [] = False"
| "ends_as k v (f # fs) = (ends_as k v fs \<or> (sets k v f \<and> list_all (keeps k) fs))"

lemma ends_as_append: "ends_as k v (fs @ gs) \<longleftrightarrow> ends_as k v gs \<or> (ends_as k v fs \<and> list_all (keeps k) gs)"
  by (induction fs) auto

lemma ends_as_steps: "ends_as k v fs \<Longrightarrow> res_steps fs m = Inr m' \<Longrightarrow> map_of m' k = v"
proof (induction fs arbitrary: m)
  case (Cons f fs)
  then obtain m1 where m1: "f m = Inr m1" "res_steps fs m1 = Inr m'" by (auto simp: res_bind_Inr)
  show ?case
  proof (cases "ends_as k v fs")
    case False
    then show ?thesis using Cons.prems(1) keeps_steps_all[OF _ m1(2)] m1(1) by (auto simp: sets_def)
  qed (rule Cons.IH[OF _ m1(2)])
qed simp

lemma sets_copy [step_rules]: "sets k (map_of d x) (copy_as d x k)"
  by (auto simp: sets_def copy_as_def fetch_def res_bind_Inr dict_simps split: option.splits)

lemma raid_keeps_place: "keeps_place raid_message"
proof -
  have "keeps k (\<lambda>m. res_bind (fetch d ''pokemon_id'') (\<lambda>v. Inr (if v = JNull then AList.update ''pokemon_id'' (JInt 0) m else m)))"
    if "k \<noteq> ''pokemon_id''" for d k using that by (auto simp: keeps_def res_bind_Inr dict_simps)
  then show ?thesis
    unfolding keeps_place_def raid_message_def by (intro allI impI conjI; elim ends_as_steps[rotated]; simp add: step_rules ends_as_append)
qed

lemma gym_keeps_place: "keeps_place gym_message"
  unfolding keeps_place_def gym_message_def by (intro allI impI conjI; elim ends_as_steps[rotated]; simp add: step_rules ends_as_append)

lemma stop_keeps_place: "keeps_place stop_message"
  unfolding keeps_place_def stop_message_def by (intro allI impI conjI; elim ends_as_steps[rotated]; simp add: step_rules ends_as_append)

lemma mon_keeps_place: "keeps_place (mon_message a rarity)"
proof -
  have l: "keeps k (\<lambda>m. if b then Inr m else res_bind r (\<lambda>x. Inr (AList.update k' (g x) m)))" if "k' \<noteq> k" for k k' b r and g :: "real \<Rightarrow> json"
    using that by (auto simp: keeps_def res_bind_Inr dict_simps)
  have c: "keeps k (\<lambda>m. res_bind r (\<lambda>c. res_bind (h c) (\<lambda>v. Inr (AList.update k' v m))))" if "k' \<noteq> k" for k k' and r :: "json result" and h
    using that by (auto simp: keeps_def res_bind_Inr dict_simps)
  show ?thesis
    unfolding keeps_place_def mon_message_def Let_def res_bind_Inr
    by (intro allI impI conjI; elim exE conjE; elim ends_as_steps[rotated]; simp add: step_rules ends_as_append l c)
qed

lemma quest_keeps_place: "quest_message a d = Inr m \<Longrightarrow>
    map_of m ''latitude'' = map_of d ''latitude'' \<and> map_of m ''longitude'' = map_of d ''longitude''"
proof -
  have l: "keeps k (\<lambda>m. res_bind r (\<lambda>v. Inr (AList.update k' (g v) m)))" if "k' \<noteq> k" for k k' r and g :: "json \<Rightarrow> json"
    using that by (auto simp: keeps_def res_bind_Inr dict_simps)
  assume "quest_message a d = Inr m"
  then show ?thesis
    unfolding quest_message_def quest_message_default_def quest_message_poracle_def quest_common_def res_bind_Inr if_split[of "\<lambda>x. x = Inr m"]
    by (intro conjI; cases "wa_default_flavor a"; simp only: simp_thms; elim exE conjE; elim ends_as_steps[rotated];
        simp add: step_rules ends_as_append l)
qed

lemma generated_place: "generate_quest qg s st layer q = Inr d \<Longrightarrow>
    map_of d ''latitude'' = Some (st_latitude st) \<and> map_of d ''longitude'' = Some (st_longitude st)"
  by (auto simp: generate_quest_def res_bind_Inr Let_def)

lemma quests_outside: "prepare_quest_data a ex qs = Inr ps \<Longrightarrow> p \<in> set ps \<Longrightarrow> placed_outside ex p"
proof (induction qs arbitrary: ps)
  case (Cons r qs)
  obtain s st quests where r: "r = (s, st, quests)" by (cases r) auto
  from Cons.prems(1) obtain b there where s: "is_in_excluded_area ex (st_latitude st) (st_longitude st) = Inr b"
      "prepare_quest_data a ex qs = Inr there" "ps = (if b then [] else concat (map (quest_payload a s st) quests)) @ there"
    by (auto simp: r res_bind_Inr)
  have "placed_outside ex p" if "p \<in> set (quest_payload a s st lq)" "\<not> b" for lq
  proof -
    from that(1) obtain d m where d: "generate_quest (wa_quest_gen a) s st (fst lq) (snd lq) = Inr d" "quest_message a d = Inr m" "p = (''quest'', m)"
      by (cases "res_bind (generate_quest (wa_quest_gen a) s st (fst lq) (snd lq)) (quest_message a)")
        (auto simp: quest_payload_def res_bind_Inr)
    show ?thesis using generated_place[OF d(1)] quest_keeps_place[OF d(2)] s(1) that(2) by (simp add: placed_outside_def d(3))
  qed
  then show ?case using Cons.IH[OF s(2)] Cons.prems(2) s(3) by (auto split: if_splits)
qed simp

section \<open>What is sent\<close>

lemma run_stages_from: "p \<in> set (run_stages sts full) \<Longrightarrow> p \<in> set full \<or> (\<exists>ps. Inr ps \<in> set sts \<and> p \<in> set ps)"
proof (induction sts arbitrary: full)
  case (Cons st sts)
  show ?case
  proof (cases st)
    case (Inr ps)
    then show ?thesis using Cons.IH[of "full @ ps"] Cons.prems by auto
  qed (use Cons.prems in simp)
qed simp

lemma stage_Inr: "Inr ps = stage b x \<Longrightarrow> p \<in> set ps \<Longrightarrow> b \<and> x = Inr ps"
  by (auto simp: stage_def split: if_splits)

lemma weather_only: "prepare_weather_data a ds = Inr ps \<Longrightarrow> p \<in> set ps \<Longrightarrow> fst p = ''weather''"
  by (induction ds arbitrary: ps) (auto simp: res_bind_Inr)

text \<open>
  C13. Nothing from an excluded area is sent: every message but those of the weather has the place of what it is about, and that place
  is in none of the areas that are excluded.
\<close>

theorem excluded_areas_are_silent:
  assumes "p \<in> set (create_payload a e w)" "fst p \<noteq> ''weather''"
  shows "placed_outside (wk_excluded w) p"
proof -
  note rows = prepare_rows_outside[OF raid_keeps_place] prepare_rows_outside[OF gym_keeps_place] prepare_rows_outside[OF stop_keeps_place]
    prepare_rows_outside[OF mon_keeps_place]
  obtain ps x y z u v t where ps: "p \<in> set ps" "prepare_raid_data a (wk_excluded w) x = Inr ps \<or> prepare_quest_data a (wk_excluded w) y = Inr ps \<or>
      prepare_weather_data a z = Inr ps \<or> prepare_gyms_data (wk_excluded w) u = Inr ps \<or> prepare_stops_data (wk_excluded w) v = Inr ps \<or>
      prepare_mon_data a (po_rarity e) (wk_excluded w) t = Inr ps"
    using run_stages_from[OF assms(1)[unfolded create_payload_def Let_def]]
    by (simp only: list.set empty_iff insert_iff simp_thms) (elim exE conjE disjE; (drule (1) stage_Inr; clarsimp simp: res_bind_Inr; blast))
  show ?thesis
    using ps(2) unfolding prepare_raid_data_def prepare_gyms_data_def prepare_stops_data_def prepare_mon_data_def
    by (elim disjE) (erule rows[OF _ ps(1)] quests_outside[OF _ ps(1)] | use weather_only[OF _ ps(1)] assms(2) in blast)+
qed

section \<open>What is not lost\<close>

lemma raid_message_total: "\<exists>m. raid_message (raid_fields row) = Inr m"
proof -
  obtain g r d gy where row: "row = (g, r, d, gy)" by (cases row) auto
  have l: "succeeds (\<lambda>m. res_bind (fetch D ''pokemon_id'') (\<lambda>v. Inr (if v = JNull then AList.update ''pokemon_id'' (JInt 0) m else m)))"
    if "map_of D ''pokemon_id'' \<noteq> None" for D using that by (auto simp: succeeds_def fetch_def)
  show ?thesis unfolding raid_message_def row
    by (rule succeeds_all) (simp add: step_rules l raid_fields_def del: not_None_eq)
qed

lemma raid_field_values: "fetch (raid_fields (g, r, d, gy)) ''latitude'' = Inr (gy_latitude gy)"
  "fetch (raid_fields (g, r, d, gy)) ''longitude'' = Inr (gy_longitude gy)" "fetch (raid_fields (g, r, d, gy)) ''is_exclusive'' = Inr (ra_is_exclusive r)"
  by (simp_all add: fetch_def raid_fields_def)

definition gyms_placed :: "tables \<Rightarrow> bool" where
  "gyms_placed t \<longleftrightarrow> (\<forall>gy \<in> snd ` set (t_gym t). \<exists>x y. json_num (gy_latitude gy) = Inr x \<and> json_num (gy_longitude gy) = Inr y)"

lemma raid_rows_ok:
  assumes "gyms_placed t" "fences_ok ex" "row \<in> set (raids_changed_since ts t)"
  shows "row_ok ex (raid_skipped a) raid_message (raid_fields row)"
proof -
  obtain g r d gy where row: "row = (g, r, d, gy)" "map_of (t_gym t) g = Some gy"
    using assms(3) by (auto simp: raids_changed_since_def split: option.splits if_splits)
  then obtain x y where xy: "json_num (gy_latitude gy) = Inr x" "json_num (gy_longitude gy) = Inr y"
    using assms(1) map_of_SomeD[OF row(2)] unfolding gyms_placed_def by force
  show ?thesis
    using excluded_total[OF assms(2) xy] raid_message_total[of row]
    unfolding row_ok_def row(1) by (simp add: raid_field_values raid_skipped_def)
qed

lemma run_stages_mono: "set full \<subseteq> set (run_stages sts full)"
proof (induction sts arbitrary: full)
  case (Cons st sts)
  show ?case using Cons.IH[of "full @ projr st"] by (cases st) auto
qed simp

lemma first_stage_sent: "set ps \<subseteq> set (run_stages (Inr ps # sts) [])"
  using run_stages_mono[of ps sts] by simp

lemma run_config: "wk_receivers (webhook_run a es w) = wk_receivers w \<and> wk_excluded (webhook_run a es w) = wk_excluded w"
  by (induction es arbitrary: w) (simp_all add: webhook_run_def webhook_turn_def Let_def)

lemma run_posts: "set (wk_posts w) \<subseteq> set (wk_posts (webhook_run a es w))"
proof (induction es arbitrary: w)
  case (Cons e es)
  show ?case using Cons.IH[of "webhook_turn a e w"] by (auto simp: webhook_run_def webhook_turn_def Let_def)
qed (simp add: webhook_run_def)

definition takes :: "receiver \<Rightarrow> string \<Rightarrow> bool" where
  "takes r ty \<longleftrightarrow> (case snd r of None \<Rightarrow> True | Some ts \<Rightarrow> ty \<in> set ts)"

lemma taken_types: "r \<in> set rs \<Longrightarrow> takes r ty \<Longrightarrow> ty \<in> set valid_types \<Longrightarrow> ty \<in> set (webhook_types rs)"
  by (auto simp: webhook_types_def asked_for_def takes_def)

lemma in_payload_for: "(ty, m) \<in> set payloads \<Longrightarrow> takes r ty \<Longrightarrow> (ty, m) \<in> set (payload_for r payloads)"
  by (auto simp: payload_for_def takes_def wanted_by_def split: option.splits)

text \<open>A raid with its gym in the tables, outside the excluded areas, that may be sent.\<close>

definition raid_to_send :: "webhook_args \<Rightarrow> webhook \<Rightarrow> tables \<Rightarrow> json \<Rightarrow> raid \<Rightarrow> gym_detail \<Rightarrow> gym \<Rightarrow> bool" where
  "raid_to_send a w t g r d gy \<longleftrightarrow> map_of (t_raid t) g = Some r \<and> map_of (t_gymdetail t) g = Some d \<and> map_of (t_gym t) g = Some gy \<and>
     gyms_placed t \<and> fences_ok (wk_excluded w) \<and> is_in_excluded_area (wk_excluded w) (gy_latitude gy) (gy_longitude gy) = Inr False \<and>
     (wa_submit_exraids a \<or> ra_is_exclusive r = JNull \<or> equals_int (ra_is_exclusive r) 0)"

lemma raid_to_sendD:
  assumes "raid_to_send a w t g r d gy"
  shows "map_of (t_raid t) g = Some r" "map_of (t_gymdetail t) g = Some d" "map_of (t_gym t) g = Some gy" "gyms_placed t"
    "fences_ok (wk_excluded w)" "is_in_excluded_area (wk_excluded w) (gy_latitude gy) (gy_longitude gy) = Inr False"
    "wa_submit_exraids a \<or> ra_is_exclusive r = JNull \<or> equals_int (ra_is_exclusive r) 0"
  using assms by (simp_all only: raid_to_send_def)

lemma raid_row_found:
  assumes "raid_to_send a w t g r d gy" "of_int ts < ra_last_scanned r"
  shows "(g, r, d, gy) \<in> set (raids_changed_since ts t)"
proof -
  note rd = raid_to_sendD[OF assms(1)]
  have nn: "gy_latitude gy \<noteq> JNull" "gy_longitude gy \<noteq> JNull"
    using rd(4) map_of_SomeD[OF rd(3)] unfolding gyms_placed_def by force+
  show ?thesis
    using map_of_SomeD[OF rd(1)] rd(2,3) assms(2) nn unfolding raids_changed_since_def by (force split: option.splits)
qed

lemma raid_in_payload:
  assumes "raid_to_send a w (po_tables e) g r d gy" "of_int (wk_last_check w) < ra_last_scanned r"
    and "rc \<in> set (wk_receivers w)" "takes rc ''raid''" "raid_message (raid_fields (g, r, d, gy)) = Inr m"
  shows "(''raid'', m) \<in> set (create_payload a e w)"
proof -
  let ?rows = "raids_changed_since (wk_last_check w) (po_tables e)" and ?row = "(g, r, d, gy)"
  note rd = raid_to_sendD[OF assms(1)]
  have "\<forall>D \<in> set (map raid_fields ?rows). row_ok (wk_excluded w) (raid_skipped a) raid_message D"
    using raid_rows_ok[OF rd(4,5)] by fastforce
  from prepare_rows_ok[OF this, of "''raid''"] obtain ps where all:
      "prepare_rows (wk_excluded w) (raid_skipped a) ''raid'' raid_message (map raid_fields ?rows) = Inr ps"
      "\<forall>D \<in> set (map raid_fields ?rows). \<forall>la lo m. fetch D ''latitude'' = Inr la \<and> fetch D ''longitude'' = Inr lo \<and>
         is_in_excluded_area (wk_excluded w) la lo = Inr False \<and> raid_skipped a D = Inr False \<and> raid_message D = Inr m \<longrightarrow> (''raid'', m) \<in> set ps"
    by (elim exE conjE)
  have mem: "raid_fields ?row \<in> set (map raid_fields ?rows)"
    using imageI[OF raid_row_found[OF assms(1,2)], of raid_fields] by (simp only: set_map)
  have sk: "raid_skipped a (raid_fields ?row) = Inr False"
    unfolding raid_skipped_def raid_field_values using rd(7) by auto
  have ps: "(''raid'', m) \<in> set ps"
    by (rule mp[OF spec[OF spec[OF spec[OF bspec[OF all(2) mem], of "gy_latitude gy"], of "gy_longitude gy"], of m]])
      (simp only: raid_field_values rd(6) sk assms(5) simp_thms)
  have first: "stage (''raid'' \<in> set (webhook_types (wk_receivers w))) (res_bind (get_raids_changed_since (wk_last_check w) (po_tables e))
      (prepare_raid_data a (wk_excluded w))) = Inr ps"
    using taken_types[OF assms(3,4)] all(1) by (simp add: prepare_raid_data_def stage_def get_raids_changed_since_def valid_types_def)
  show ?thesis
    unfolding create_payload_def Let_def first by (rule subsetD[OF first_stage_sent ps])
qed

text \<open>
  C4. No raid is missed. A raid that is in the tables at a turn, and whose scan is at most six intervals older than the turn before (as it
  is when it was stored after that turn and took no longer to be stored), reaches every receiver of raids, with the message
  of its row; whatever the other turns found, and unless its gym is in an excluded area or it is an exclusive raid that is not to be sent.
\<close>

theorem raid_is_reported:
  assumes "raid_to_send a w (po_tables e2) g r d gy" "of_int (\<lfloor>po_now e1\<rfloor> - 6 * wa_interval a) < ra_last_scanned r"
    and "rc \<in> set (wk_receivers w)" "takes rc ''raid''" "0 \<le> wa_max_payload_size a"
  shows "\<exists>post m. post \<in> set (wk_posts (webhook_run a (es1 @ e1 # e2 # es2) w)) \<and> fst post = fst rc \<and> (''raid'', m) \<in> set (snd post) \<and>
     raid_message (raid_fields (g, r, d, gy)) = Inr m"
proof -
  define w1 where "w1 = webhook_turn a e1 (webhook_run a es1 w)"
  have w1: "wk_receivers w1 = wk_receivers w" "wk_excluded w1 = wk_excluded w" "wk_last_check w1 = \<lfloor>po_now e1\<rfloor> - 6 * wa_interval a"
    using run_config[of a es1 w] by (simp_all add: w1_def webhook_turn_def Let_def)
  have send: "raid_to_send a w1 (po_tables e2) g r d gy" using assms(1) unfolding raid_to_send_def w1(2) .
  obtain m where m: "raid_message (raid_fields (g, r, d, gy)) = Inr m" using raid_message_total by blast
  have full: "(''raid'', m) \<in> set (create_payload a e2 w1)"
    by (rule raid_in_payload[OF send _ _ assms(4) m]) (simp_all only: w1 assms(2,3))
  from sent_to_each[OF full _ in_payload_for[OF full assms(4)] assms(5), of "wk_receivers w1"]
  obtain post where post: "post \<in> set (send_webhook (wa_max_payload_size a) (wk_receivers w1) (create_payload a e2 w1))"
      "fst post = fst rc" "(''raid'', m) \<in> set (snd post)"
    using assms(3) unfolding w1(1) by blast
  have "post \<in> set (wk_posts (webhook_turn a e2 w1))" using post(1) by (simp add: webhook_turn_def Let_def)
  then have "post \<in> set (wk_posts (webhook_run a (es1 @ e1 # e2 # es2) w))"
    using run_posts[of "webhook_turn a e2 w1" a es2] by (auto simp: webhook_run_def w1_def)
  with post m show ?thesis by blast
qed

section \<open>Examples\<close>

definition demo_args :: webhook_args where
  "demo_args = \<lparr>wa_interval = 10, wa_submit_exraids = False, wa_default_flavor = False, wa_max_payload_size = 2, wa_url = ''[raid]http://r'',
     wa_excluded_areas = [], wa_start_time = 0,
     wa_quest_gen = \<lparr>qg_tr = (\<lambda>s. s), qg_i8ln = (\<lambda>v. v), qg_types = JDict [], qg_items = JDict [], qg_mons = JDict [],
       qg_task = (\<lambda>a b c d e. Inr JNull), qg_dumps = (\<lambda>v. []), qg_show = (\<lambda>v. [])\<rparr>,
     wa_loads = (\<lambda>s. Inl ValueError), wa_coords_of_cell = (\<lambda>c. Inr JNull), wa_middle_of_cell = (\<lambda>c. Inr (0, 0))\<rparr>"

definition demo_gym :: gym where
  "demo_gym = \<lparr>gy_team_id = JInt 1, gy_guard_pokemon_id = JInt 0, gy_slots_available = JInt 0, gy_enabled = JInt 1, gy_latitude = JInt 5,
     gy_longitude = JInt 5, gy_total_cp = JInt 0, gy_is_in_battle = JInt 0, gy_weather_boosted = JInt 0, gy_last_modified = Some 90,
     gy_last_scanned = Some 90, gy_is_ex_raid_eligible = JInt 0, gy_is_ar_scan_eligible = JInt 0\<rparr>"

definition demo_detail :: gym_detail where
  "demo_detail = \<lparr>gd_name = JStr ''fountain'', gd_description = JNull, gd_url = JNull, gd_last_scanned = Some 90\<rparr>"

definition seen_raid :: raid where
  "seen_raid = \<lparr>ra_level = JInt 5, ra_spawn = 90, ra_start = 100, ra_end = 200, ra_pokemon_id = JNull, ra_cp = JInt 0, ra_move_1 = JInt 0,
     ra_move_2 = JInt 0, ra_last_scanned = 95, ra_form = JInt 0, ra_is_exclusive = JInt 0, ra_gender = JInt 0, ra_costume = JInt 0,
     ra_evolution = JInt 0\<rparr>"

definition raid_tables :: tables where
  "raid_tables = \<lparr>t_pokemon = [], t_display = [], t_seen = [], t_spawn = [], t_event = [], t_stop = [],
     t_incident = [], t_gym = [(JStr ''g'', demo_gym)], t_gymdetail = [(JStr ''g'', demo_detail)], t_raid = [(JStr ''g'', seen_raid)],
     t_quest = [], t_route = [], t_weather = [], t_cell = []\<rparr>"

definition turn_of :: "real \<Rightarrow> tables \<Rightarrow> poll_env" where
  "turn_of s t = \<lparr>po_now = s, po_midnight = 0, po_rarity = [], po_tables = t\<rparr>"

text \<open>A square that is excluded, with the gym outside.\<close>

definition demo_excluded :: geofence_helper where
  "demo_excluded = \<lparr>geofenced_areas = [\<lparr>fe_excluded = False, fe_name = ''town'', fe_polygon = [(0, 0), (0, 1), (1, 1), (1, 0)]\<rparr>],
     excluded_areas = [], contains_point = None\<rparr>"

definition demo_webhook :: webhook where
  "demo_webhook = \<lparr>wk_receivers = [(''http://r'', Some [''raid''])], wk_excluded = [demo_excluded], wk_last_check = 0, wk_posts = []\<rparr>"

lemma demo_to_send: "raid_to_send demo_args demo_webhook raid_tables (JStr ''g'') seen_raid demo_detail demo_gym"
  "takes (''http://r'', Some [''raid'']) ''raid''" "(''http://r'', Some [''raid'']) \<in> set (wk_receivers demo_webhook)"
  "0 \<le> wa_max_payload_size demo_args"
  by (simp_all add: raid_to_send_def raid_tables_def gyms_placed_def fences_ok_def demo_webhook_def demo_excluded_def demo_gym_def
      is_coord_inside_include_geofence_def is_excluded_def in_area_def is_point_in_polygon_custom_def bounding_box_def
      demo_args_def seen_raid_def takes_def)

definition demo_stop :: "string \<Rightarrow> payload" where
  "demo_stop s = (''pokestop'', [(''name'', JStr s)])"

theorem receiver_gets_its_messages_witness:
  "concat (map snd (posts_to 2 [demo_stop ''a'', (''gym'', []), demo_stop ''b'', demo_stop ''c''] (''http://r'', Some [''pokestop'']))) =
     [demo_stop ''a'', demo_stop ''b'', demo_stop ''c'']"
  using receiver_gets_its_messages[of 2 "[demo_stop ''a'', (''gym'', []), demo_stop ''b'', demo_stop ''c'']" "(''http://r'', Some [''pokestop''])"]
  by (simp add: payload_for_def wanted_by_def demo_stop_def)

theorem excluded_areas_are_silent_witness:
  "\<exists>m. (''raid'', m) \<in> set (create_payload demo_args (turn_of 100 raid_tables) demo_webhook) \<and> placed_outside [demo_excluded] (''raid'', m)"
proof -
  obtain m where m: "raid_message (raid_fields (JStr ''g'', seen_raid, demo_detail, demo_gym)) = Inr m" using raid_message_total by blast
  have sent: "(''raid'', m) \<in> set (create_payload demo_args (turn_of 100 raid_tables) demo_webhook)"
    by (rule raid_in_payload[OF _ _ demo_to_send(3,2) m]) (simp_all add: turn_of_def demo_to_send(1), simp add: demo_webhook_def seen_raid_def)
  have "placed_outside (wk_excluded demo_webhook) (''raid'', m)" by (rule excluded_areas_are_silent[OF sent]) simp
  then show ?thesis using sent by (intro exI[of _ m] conjI) (simp_all add: demo_webhook_def)
qed

theorem raid_is_reported_witness:
  "\<exists>post m. post \<in> set (wk_posts (webhook_run demo_args [turn_of 100 raid_tables, turn_of 110 raid_tables] demo_webhook)) \<and>
     fst post = ''http://r'' \<and> (''raid'', m) \<in> set (snd post) \<and> raid_message (raid_fields (JStr ''g'', seen_raid, demo_detail, demo_gym)) = Inr m"
  using raid_is_reported[of demo_args demo_webhook "turn_of 110 raid_tables" "JStr ''g''" seen_raid demo_detail demo_gym "turn_of 100 raid_tables"
      "(''http://r'', Some [''raid''])" "[]" "[]", OF _ _ demo_to_send(3,2,4)] demo_to_send(1)
  by (simp add: turn_of_def seen_raid_def demo_args_def)

end
