(* ===== verification/Processor.thy ===== *)
theory Processor
  imports SubmitSpawns SubmitGyms MitmData Account
begin

text \<open>
  \<open>mapadroid/mitm_receiver/data_processing/SerializedMitmDataProcessor.py\<close>: one consumer of the queue of received messages. It submits a message by
  its type, reports to the statistics and the data handler, and puts a message back whose writes were refused.
\<close>

record proc_env =
  pc_submit :: submit_env
  pc_threshold :: int
  pc_scan_lured :: bool
  pc_scan_nearby :: bool
  pc_game_stats :: bool
  pc_stats_args :: stats_args
  pc_device_of :: "string \<Rightarrow> int option"

record proc_state =
  px_db :: db_session
  px_mitm :: mitm_state
  px_stats :: stats_state
  px_auths :: "pogoauth list"

type_synonym 'a proc = "(proc_state, py_error, 'a) act"

section \<open>Sessions\<close>

definition on_db :: "'a db \<Rightarrow> 'a proc" where
  "on_db f s = (case f (px_db s) of (r, d) \<Rightarrow> (r, s\<lparr>px_db := d\<rparr>))"

text \<open>\<open>async with self.__db_wrapper as session, session\<close>: a fresh session, undone at its end as far as it is not committed.\<close>

definition in_session :: "'a proc \<Rightarrow> 'a proc" where
  "in_session f = act_bind (on_db session_rollback) (\<lambda>_. act_finally f (on_db session_rollback))"

text \<open>\<open>try ... except Exception\<close> with a warning in the log.\<close>

definition logged :: "'a \<Rightarrow> 'a proc \<Rightarrow> 'a proc" where
  "logged dflt f = act_catch f (\<lambda>_. Some (finish dflt))"

definition submitted :: "'a \<Rightarrow> 'a db \<Rightarrow> 'a proc" where
  "submitted dflt f = in_session (logged dflt (act_bind (on_db f) (\<lambda>r. act_bind (on_db session_commit) (\<lambda>_. finish r))))"

definition payload_then :: "json \<Rightarrow> (json \<Rightarrow> 'a db) \<Rightarrow> 'a db" where
  "payload_then data k = index_then data [''payload''] k"

definition ask_mitm :: "(mitm_state \<Rightarrow> 'a \<times> mitm_state) \<Rightarrow> 'a proc" where
  "ask_mitm f s = (case f (px_mitm s) of (x, m) \<Rightarrow> (Inr x, s\<lparr>px_mitm := m\<rparr>))"

definition on_mitm :: "(mitm_state \<Rightarrow> mitm_state) \<Rightarrow> unit proc" where
  "on_mitm f = act_do (\<lambda>s. s\<lparr>px_mitm := f (px_mitm s)\<rparr>)"

definition on_stats :: "(stats_state \<Rightarrow> stats_state) \<Rightarrow> unit proc" where
  "on_stats f = act_do (\<lambda>s. s\<lparr>px_stats := f (px_stats s)\<rparr>)"

section \<open>Maps\<close>

text \<open>
  The tasks of a map run in sessions of their own; in which order they get to the database is left open. What they found is
  collected for the statistics. The task of the lured mons has no result when its submission raised.
\<close>

datatype gmo_task = WeatherTask | StopsTask | GymsTask | RaidsTask | SpawnpointsTask | CellsTask | MonsTask | LureTask | NearbyTask

record gmo_found =
  gf_wild :: "int list"
  gf_nearby_cell :: "int list"
  gf_nearby_stop :: "int list"
  gf_lured :: "int list option"
  gf_raids :: int

definition nothing_found :: gmo_found where
  "nothing_found = \<lparr>gf_wild = [], gf_nearby_cell = [], gf_nearby_stop = [], gf_lured = Some [], gf_raids = 0\<rparr>"

fun gmo_run_task :: "proc_env \<Rightarrow> json \<Rightarrow> int \<Rightarrow> gmo_task \<Rightarrow> gmo_found \<Rightarrow> gmo_found proc" where
  "gmo_run_task env data ts WeatherTask g =
     act_bind (submitted False (payload_then data (\<lambda>p. submit_weather (pc_submit env) p ts))) (\<lambda>_. finish g)"
| "gmo_run_task env data ts StopsTask g = act_bind (submitted False (payload_then data (stops (pc_submit env)))) (\<lambda>_. finish g)"
| "gmo_run_task env data ts GymsTask g =
     act_bind (submitted False (payload_then data (\<lambda>p. gyms (pc_submit env) p ts))) (\<lambda>_. finish g)"
| "gmo_run_task env data ts RaidsTask g =
     act_bind (submitted 0 (payload_then data (\<lambda>p. raids (pc_submit env) p ts))) (\<lambda>n. finish (g\<lparr>gf_raids := n\<rparr>))"
| "gmo_run_task env data ts SpawnpointsTask g =
     act_bind (submitted () (payload_then data (\<lambda>p. spawnpoints (pc_submit env) p ts))) (\<lambda>_. finish g)"
| "gmo_run_task env data ts CellsTask g = act_bind (submitted () (payload_then data (submit_cells (pc_submit env)))) (\<lambda>_. finish g)"
| "gmo_run_task env data ts MonsTask g =
     act_bind (submitted [] (payload_then data (mons (pc_submit env) ts))) (\<lambda>ids. finish (g\<lparr>gf_wild := ids\<rparr>))"
| "gmo_run_task env data ts LureTask g =
     (if pc_scan_lured env
      then act_bind (submitted None (payload_then data (\<lambda>p. act_bind (mon_lure_noiv (pc_submit env) ts p) (\<lambda>ids. finish (Some ids)))))
             (\<lambda>ids. finish (g\<lparr>gf_lured := ids\<rparr>))
      else finish g)"
| "gmo_run_task env data ts NearbyTask g =
     (if pc_scan_nearby env
      then act_bind (submitted ([], []) (payload_then data (mons_nearby (pc_submit env) ts)))
             (\<lambda>(c, s). finish (g\<lparr>gf_nearby_cell := c, gf_nearby_stop := s\<rparr>))
      else finish g)"

fun gmo_run_tasks :: "proc_env \<Rightarrow> json \<Rightarrow> int \<Rightarrow> gmo_task list \<Rightarrow> gmo_found \<Rightarrow> gmo_found proc" where
  "gmo_run_tasks env data ts [] g = finish g"
| "gmo_run_tasks env data ts (t # r) g = act_bind (gmo_run_task env data ts t g) (gmo_run_tasks env data ts r)"

definition fire_stats_gmo_submission :: "proc_env \<Rightarrow> string \<Rightarrow> int \<Rightarrow> int list \<Rightarrow> int list \<Rightarrow> int list \<Rightarrow> int list \<Rightarrow> int \<Rightarrow> stats_state \<Rightarrow> stats_state" where
  "fire_stats_gmo_submission env w t wilds cells forts lured amount s =
     (let a = pc_stats_args env; n = \<lfloor>sb_now (pc_submit env)\<rfloor>;
          s = sh_collect_wild_mon a n w wilds t s;
          s = sh_collect_seen_type cells nearby_cell t s;
          s = sh_collect_seen_type forts nearby_stop t s;
          s = sh_collect_seen_type lured lure_wild t s
      in sh_collect_raid a n w t amount s)"

definition process_gmo :: "proc_env \<Rightarrow> gmo_task list \<Rightarrow> json \<Rightarrow> string \<Rightarrow> int \<Rightarrow> unit proc" where
  "process_gmo env order data origin received =
     act_bind (gmo_run_tasks env data received order nothing_found) (\<lambda>g. case gf_lured g of
         None \<Rightarrow> raise_error UnboundLocalError
       | Some lured \<Rightarrow> on_stats (fire_stats_gmo_submission env origin received (gf_wild g) (gf_nearby_cell g) (gf_nearby_stop g) lured (gf_raids g)))"

section \<open>Encounters\<close>

definition process_encounter :: "proc_env \<Rightarrow> json \<Rightarrow> string \<Rightarrow> int \<Rightarrow> unit proc" where
  "process_encounter env data origin received =
     act_bind (ask_mitm (handler_get_level origin)) (\<lambda>playerlevel. if playerlevel < 30 then finish () else
     act_bind (in_session (on_db (payload_then data (mon_iv (pc_submit env) received)))) (\<lambda>enc. case enc of
         None \<Rightarrow> finish ()
       | Some (encounter_id, is_shiny) \<Rightarrow>
           if pc_game_stats env
           then on_stats (sh_collect_mon_iv (pc_stats_args env) \<lfloor>sb_now (pc_submit env)\<rfloor> origin encounter_id received is_shiny)
           else finish ()))"

definition process_lured_encounter :: "proc_env \<Rightarrow> json \<Rightarrow> string \<Rightarrow> int \<Rightarrow> unit proc" where
  "process_lured_encounter env data origin received =
     act_bind (ask_mitm (handler_get_level origin)) (\<lambda>playerlevel. if \<not> (pc_scan_lured env \<and> playerlevel \<ge> 30) then finish () else
     in_session (on_db (act_bind (payload_then data (mon_lure_iv (pc_submit env) received)) (\<lambda>found.
       act_bind (if pc_game_stats env then update_seen_type_stats [(lure_encounter, [found])] else finish ()) (\<lambda>_. session_commit)))))"

section \<open>Quests and the inventory\<close>

definition process_fort_search :: "proc_env \<Rightarrow> json \<Rightarrow> string \<Rightarrow> int \<Rightarrow> unit proc" where
  "process_fort_search env data origin received =
     in_session (logged () (index_then data [''payload''] (\<lambda>payload. index_then payload [''result''] (\<lambda>result.
       if \<not> equals_int result 1 then finish () else
       get_then payload ''fort_id'' JNull (\<lambda>_.
       act_bind (ask_mitm (handler_get_quests_held origin)) (\<lambda>held. act_bind (give (determine_current_quest_layer held)) (\<lambda>layer.
       act_bind (on_db (quest (pc_submit env) payload layer)) (\<lambda>new_quest.
       act_bind (if new_quest then on_stats (sh_collect_quest (pc_stats_args env) \<lfloor>sb_now (pc_submit env)\<rfloor> origin received) else finish ())
         (\<lambda>_. on_db session_commit)))))))))"

definition save_player_stats :: "proc_env \<Rightarrow> string \<Rightarrow> string \<Rightarrow> json \<Rightarrow> json \<Rightarrow> int \<Rightarrow> unit proc" where
  "save_player_stats env origin cache_key player_stats lv lvl =
     act_bind (ask_mitm (handler_get_level origin)) (\<lambda>known.
     act_bind (if equals_int lv known then finish ()
               else act_do (\<lambda>s. case pc_device_of env origin of None \<Rightarrow> s | Some d \<Rightarrow> s\<lparr>px_auths := Account.set_level d lvl (px_auths s)\<rparr>)) (\<lambda>_.
     act_bind (on_mitm (handler_set_level origin lvl)) (\<lambda>_.
     index_then player_stats [''poke_stop_visits''] (\<lambda>v. act_bind (give (json_to_int v)) (\<lambda>visits.
     act_bind (on_mitm (handler_set_pokestop_visits origin visits)) (\<lambda>_.
     on_db (cache_set (sb_now (pc_submit env)) cache_key 60)))))))"

text \<open>The first item with a level above 0 is taken.\<close>

fun inventory_items :: "proc_env \<Rightarrow> string \<Rightarrow> string \<Rightarrow> json list \<Rightarrow> unit proc" where
  "inventory_items env origin cache_key [] = finish ()"
| "inventory_items env origin cache_key (item # r) =
     index_then item [''inventory_item_data'', ''player_stats''] (\<lambda>player_stats. index_then player_stats [''level''] (\<lambda>lv.
     act_bind (give (json_to_int lv)) (\<lambda>lvl.
     if lvl > 0 then save_player_stats env origin cache_key player_stats lv lvl else inventory_items env origin cache_key r)))"

definition handle_inventory_data :: "proc_env \<Rightarrow> string \<Rightarrow> json \<Rightarrow> unit proc" where
  "handle_inventory_data env origin data =
     act_bind (give (json_has ''inventory_delta'' data)) (\<lambda>has. if \<not> has then finish () else
     let cache_key = ''inv_data_'' @ origin @ ''_processed'' in
     act_bind (on_db (cache_exists (sb_now (pc_submit env)) cache_key)) (\<lambda>known. if known then finish () else
     index_then data [''inventory_delta''] (\<lambda>delta. get_then delta ''inventory_items'' JNull (\<lambda>items.
     if \<not> truthy items then finish () else act_bind (give (json_iter items)) (inventory_items env origin cache_key)))))"

section \<open>Dispatch\<close>

definition too_old :: "proc_env \<Rightarrow> int \<Rightarrow> bool" where
  "too_old env received \<longleftrightarrow>
     pc_threshold env > 0 \<and> of_int received < of_int \<lfloor>sb_now (pc_submit env) * 1000\<rfloor> / 1000 - real_of_int (pc_threshold env)"

definition process_data :: "proc_env \<Rightarrow> gmo_task list \<Rightarrow> int \<Rightarrow> json \<Rightarrow> string \<Rightarrow> unit proc" where
  "process_data env order received data origin =
     get_then data ''type'' JNull (\<lambda>type. get_then data ''raw'' (JBool False) (\<lambda>raw.
     if \<not> truthy type \<or> truthy raw then finish ()
     else if too_old env received then finish ()
     else if equals_int type 106 then process_gmo env order data origin received
     else if equals_int type 102 then process_encounter env data origin received
     else if equals_int type 145 then process_lured_encounter env data origin received
     else if equals_int type 101 then process_fort_search env data origin received
     else if equals_int type 104 then act_bind (submitted False (payload_then data (stop_details (pc_submit env)))) (\<lambda>_. finish ())
     else if equals_int type 4 then index_then data [''payload''] (handle_inventory_data env origin)
     else if equals_int type 1405
       then index_then data [''payload''] (\<lambda>p. submitted () (routes (pc_submit env) p received))
     else if equals_int type 156 then act_bind (submitted False (payload_then data submit_gym_info)) (\<lambda>_. finish ())
     else finish ()))"

text \<open>A message with an encounter, of a wild or a lured mon.\<close>

definition brings_encounter :: "json \<Rightarrow> bool" where
  "brings_encounter data \<longleftrightarrow> (\<exists>t. json_get data ''type'' JNull = Inr t \<and> (equals_int t 102 \<or> equals_int t 145))"

section \<open>The queue\<close>

text \<open>\<open>None\<close> in the queue ends the consumer. Every turn has its environment: the time and the order of the tasks of a map.\<close>

type_synonym received_item = "int \<times> json \<times> string"

record consumer =
  cs_queue :: "received_item option list"
  cs_running :: bool
  cs_state :: proc_state

definition consumer_turn :: "proc_env \<times> gmo_task list \<Rightarrow> consumer \<Rightarrow> consumer" where
  "consumer_turn e c =
     (if \<not> cs_running c then c
      else case cs_queue c of
        [] \<Rightarrow> c
      | None # q \<Rightarrow> c\<lparr>cs_queue := q, cs_running := False\<rparr>
      | Some item # q \<Rightarrow>
          (case process_data (fst e) (snd e) (fst item) (fst (snd item)) (snd (snd item)) (cs_state c) of
             (Inl IntegrityError, s) \<Rightarrow> c\<lparr>cs_queue := q @ [Some item], cs_state := s\<rparr>
           | (r, s) \<Rightarrow> c\<lparr>cs_queue := q, cs_state := s\<rparr>))"

text \<open>Between the turns of this consumer other parts put messages into the queue.\<close>

datatype consumer_op = Turn "proc_env \<times> gmo_task list" | Put "received_item option"

fun consumer_step :: "consumer_op \<Rightarrow> consumer \<Rightarrow> consumer" where
  "consumer_step (Turn e) c = consumer_turn e c"
| "consumer_step (Put x) c = c\<lparr>cs_queue := cs_queue c @ [x]\<rparr>"

definition consumer_run :: "consumer_op list \<Rightarrow> consumer \<Rightarrow> consumer" where
  "consumer_run ops c = fold consumer_step ops c"

end
