(* ===== verification/Receiver.thy ===== *)
theory Receiver
  imports Processor Registry MadApk
begin

text \<open>
  \<open>mapadroid/mitm_receiver/endpoints\<close>: the requests by which devices deliver what they see and ask what to do. A request is checked,
  handled in a session of its own, and committed or rolled back at the end. What is accepted goes to the data handler and into the queue
  of the consumer (\<open>Processor\<close>); both are part of the state here. The five seconds after which a request is given up are not modelled.
\<close>

section \<open>State\<close>

text \<open>The rows of \<open>trs_visited\<close> that are committed, and those of the session of the request.\<close>

record receiver =
  rv_consumer :: consumer
  rv_visited :: "(string \<times> json) list"
  rv_pending :: "(string \<times> json) list"
  rv_commit :: bool

type_synonym 'a recv = "(receiver, py_error, 'a) act"

text \<open>The time, the start of the receiver, the rows of accounts and devices, the credentials; how \<open>str\<close> shows a float is an argument.\<close>

record recv_env =
  re_now :: real
  re_started :: real
  re_ignore_pre_boot :: bool
  re_accounts :: account_config
  re_devices :: "settings_device list"
  re_auth :: auth_env
  re_show :: "json \<Rightarrow> string"

definition rv_state :: "receiver \<Rightarrow> proc_state" where
  "rv_state r = cs_state (rv_consumer r)"

definition state_do :: "(proc_state \<Rightarrow> proc_state) \<Rightarrow> unit recv" where
  "state_do f = act_do (\<lambda>r. r\<lparr>rv_consumer := (rv_consumer r)\<lparr>cs_state := f (rv_state r)\<rparr>\<rparr>)"

definition mitm_do :: "(mitm_state \<Rightarrow> mitm_state) \<Rightarrow> unit recv" where
  "mitm_do f = state_do (\<lambda>s. s\<lparr>px_mitm := f (px_mitm s)\<rparr>)"

definition auths_do :: "(pogoauth list \<Rightarrow> pogoauth list) \<Rightarrow> unit recv" where
  "auths_do f = state_do (\<lambda>s. s\<lparr>px_auths := f (px_auths s)\<rparr>)"

section \<open>Messages of devices\<close>

definition mark_visited :: "string \<Rightarrow> json \<Rightarrow> unit recv" where
  "mark_visited name stop_id =
     act_do (\<lambda>r. if (name, stop_id) \<in> set (rv_visited r @ rv_pending r) then r else r\<lparr>rv_pending := rv_pending r @ [(name, stop_id)]\<rparr>)"

text \<open>A full queue loses its oldest entries: \<open>while queue.qsize() > 200: queue.get_nowait()\<close>.\<close>

function drop_oldest :: "'a list \<Rightarrow> 'a list" where
  "drop_oldest q = (if length q > 200 then drop_oldest (tl q) else q)"
  by auto
termination by (relation "measure length") auto

declare drop_oldest.simps [simp del]

definition add_to_queue :: "received_item \<Rightarrow> unit recv" where
  "add_to_queue item = act_do (\<lambda>r. r\<lparr>rv_consumer := (rv_consumer r)\<lparr>cs_queue := drop_oldest (cs_queue (rv_consumer r)) @ [Some item]\<rparr>\<rparr>)"

definition device_of_origin :: "recv_env \<Rightarrow> string \<Rightarrow> settings_device option" where
  "device_of_origin env origin = find (\<lambda>d. dev_instance d = my_instance (re_accounts env) \<and> dev_name d = origin) (re_devices env)"

text \<open>A device without a row raises at \<open>device.device_id\<close>.\<close>

definition handle_fort_search_proto :: "recv_env \<Rightarrow> string \<Rightarrow> json \<Rightarrow> location \<Rightarrow> int \<Rightarrow> unit recv" where
  "handle_fort_search_proto env origin quest_proto loc ts =
     (case device_of_origin env origin of
        None \<Rightarrow> raise_error AttributeError
      | Some d \<Rightarrow>
          act_bind (auths_do (set_last_softban_action \<lfloor>re_now env\<rfloor> (dev_id d) ts loc)) (\<lambda>_.
          act_bind (act_do (\<lambda>r. r\<lparr>rv_commit := True\<rparr>)) (\<lambda>_.
          get_then quest_proto ''fort_id'' JNull (\<lambda>fort_id. if fort_id = JNull then finish () else
          act_bind (act_read (\<lambda>r. get_assigned_username (re_accounts env) (re_devices env) (dev_id d) (px_auths (rv_state r)))) (\<lambda>name.
          act_bind (case name of None \<Rightarrow> finish () | Some n \<Rightarrow> if n = [] then finish () else mark_visited n fort_id) (\<lambda>_.
          act_bind (give (json_has ''challenge_quest'' quest_proto)) (\<lambda>has. if \<not> has then finish () else
          index_then quest_proto [''challenge_quest'', ''quest''] (\<lambda>q. get_then q ''quest_rewards'' JNull (\<lambda>_. finish ())))))))))"

definition known_protos :: "int list" where
  "known_protos = [106, 102, 101, 104, 4, 156, 145, 1405]"

text \<open>Maps without cells, encounters without success, routes without cells and searches out of range are left out.\<close>

definition proto_ignored :: "json \<Rightarrow> json \<Rightarrow> bool result" where
  "proto_ignored ty data =
     (let of_payload = (\<lambda>k dflt f. res_bind (json_index data ''payload'') (\<lambda>p. res_bind (json_get p k dflt) (\<lambda>v. Inr (f v)))) in
      if equals_int ty 106 then of_payload ''cells'' (JList []) (\<lambda>v. \<not> truthy v)
      else if equals_int ty 102 then of_payload ''status'' JNull (\<lambda>v. \<not> equals_int v 1)
      else if equals_int ty 1405 then of_payload ''route_map_cell'' (JList []) (\<lambda>v. \<not> truthy v)
      else if equals_int ty 101 then of_payload ''result'' (JInt 0) (\<lambda>v. equals_int v 2)
      else Inr False)"

text \<open>A place that is not on earth counts as (0, 0).\<close>

definition location_of_data :: "json \<Rightarrow> location result" where
  "location_of_data data =
     res_bind (res_bind (json_get data ''lat'' (JFloat 0)) json_num) (\<lambda>la. if la > 90 \<or> la < - 90 then Inr \<lparr>lat = 0, lng = 0\<rparr> else
     res_bind (res_bind (json_get data ''lng'' (JFloat 0)) json_num) (\<lambda>lo. Inr (if lo > 180 \<or> lo < - 180 then \<lparr>lat = 0, lng = 0\<rparr> else \<lparr>lat = la, lng = lo\<rparr>)))"

fun quests_held_of :: "json \<Rightarrow> int list option result" where
  "quests_held_of JNull = Inr None"
| "quests_held_of (JList xs) = res_bind (res_map json_int xs) (\<lambda>is. Inr (Some is))"
| "quests_held_of _ = Inl TypeError"

text \<open>
  One message. The entry of the data handler is written by another thread, whose exceptions nobody sees; here it is written when it is handed over.
\<close>

definition accept_proto :: "recv_env \<Rightarrow> string \<Rightarrow> json \<Rightarrow> json \<Rightarrow> int \<Rightarrow> location \<Rightarrow> unit recv" where
  "accept_proto env origin data ty ts loc =
     act_bind (give (res_bind (json_get data ''quests_held'' JNull) quests_held_of)) (\<lambda>quests.
     act_bind (mitm_do (handler_set_quests_held origin quests)) (\<lambda>_.
     index_then data [''payload''] (\<lambda>payload.
     act_bind (mitm_do (\<lambda>m. fst (handler_update_latest \<lfloor>re_now env\<rfloor> origin (py_str (re_show env) ty) payload (Some ts) (Some \<lfloor>re_now env\<rfloor>) (Some loc) m))) (\<lambda>_.
     add_to_queue (ts, data, origin)))))"

definition handle_proto :: "recv_env \<Rightarrow> string \<Rightarrow> json \<Rightarrow> unit recv" where
  "handle_proto env origin data =
     get_then data ''type'' JNull (\<lambda>ty. if ty = JNull \<or> equals_int ty 0 then finish () else
     get_then data ''timestamp'' (JInt \<lfloor>re_now env\<rfloor>) (\<lambda>stamp.
     act_bind (give (if re_ignore_pre_boot env then res_bind (json_num stamp) (\<lambda>x. Inr (x < re_started env)) else Inr False)) (\<lambda>old.
     if old \<or> \<not> list_ex (equals_int ty) known_protos then finish ()
     else act_bind (give (proto_ignored ty data)) (\<lambda>ignored. if ignored then finish () else
       act_bind (give (location_of_data data)) (\<lambda>loc. act_bind (give (json_int stamp)) (\<lambda>ts.
       act_bind (if equals_int ty 101 then index_then data [''payload''] (\<lambda>p. handle_fort_search_proto env origin p loc ts) else finish ()) (\<lambda>_.
       accept_proto env origin data ty ts loc)))))))"

text \<open>The body of a request is a list of messages or one message.\<close>

definition post_protos :: "recv_env \<Rightarrow> string \<Rightarrow> json result \<Rightarrow> unit recv" where
  "post_protos env origin body =
     act_bind (give body) (\<lambda>data. case data of
         JList ps \<Rightarrow> act_each (handle_proto env origin) ps
       | JDict d \<Rightarrow> handle_proto env origin data
       | _ \<Rightarrow> finish ())"

section \<open>Requests\<close>

text \<open>The session of a request: committed when something is to be, rolled back otherwise and on every exception.\<close>

definition respond :: "'a recv \<Rightarrow> receiver \<Rightarrow> (int \<times> 'a option) \<times> receiver" where
  "respond handler r =
     (case handler (r\<lparr>rv_pending := [], rv_commit := False\<rparr>) of
        (Inl e, r1) \<Rightarrow> ((500, None), r1\<lparr>rv_pending := [], rv_commit := False\<rparr>)
      | (Inr x, r1) \<Rightarrow> ((200, Some x), r1\<lparr>rv_visited := (if rv_commit r1 then rv_visited r1 @ rv_pending r1 else rv_visited r1),
            rv_pending := [], rv_commit := False\<rparr>))"

definition device_authorised :: "auth_env \<Rightarrow> request_headers \<Rightarrow> bool" where
  "device_authorised ae h \<longleftrightarrow> ae_insecure ae \<or> check_auth (ae_decode ae) (hd_authorization h) (ae_auths ae)"

definition origin_known :: "mapping_manager \<Rightarrow> request_headers \<Rightarrow> string option" where
  "origin_known mm h = (case hd_origin h of None \<Rightarrow> None | Some w \<Rightarrow> if w \<in> get_all_loaded_origins mm then Some w else None)"

text \<open>Every request of a device: an origin that is configured, then the credentials.\<close>

definition device_request :: "recv_env \<Rightarrow> mapping_manager \<Rightarrow> request_headers \<Rightarrow> (string \<Rightarrow> 'a recv) \<Rightarrow> receiver \<Rightarrow> (int \<times> 'a option) \<times> receiver" where
  "device_request env mm h handler r =
     (case origin_known mm h of
        None \<Rightarrow> ((401, None), r)
      | Some w \<Rightarrow> if \<not> device_authorised (re_auth env) h then ((401, None), r) else respond (handler w) r)"

definition receive_protos :: "recv_env \<Rightarrow> mapping_manager \<Rightarrow> request_headers \<Rightarrow> json result \<Rightarrow> receiver \<Rightarrow> (int \<times> unit option) \<times> receiver" where
  "receive_protos env mm h body = device_request env mm h (\<lambda>w. post_protos env w body)"

section \<open>What a device asks\<close>

definition ask_latest :: "string \<Rightarrow> string \<Rightarrow> json recv" where
  "ask_latest origin key r =
     (case handler_request_latest origin key None (px_mitm (rv_state r)) of
        (e, m) \<Rightarrow> (Inr (case e of None \<Rightarrow> JNull | Some x \<Rightarrow> e_data x),
           r\<lparr>rv_consumer := (rv_consumer r)\<lparr>cs_state := (rv_state r)\<lparr>px_mitm := m\<rparr>\<rparr>\<rparr>))"

definition truthy_or :: "json \<Rightarrow> json \<Rightarrow> json" where
  "truthy_or v dflt = (if truthy v then v else dflt)"

definition get_latest :: "mapping_manager \<Rightarrow> bool \<Rightarrow> string \<Rightarrow> json recv" where
  "get_latest mm scan_lured_mons origin =
     act_bind (ask_latest origin ''injected_settings'') (\<lambda>injected.
     act_bind (ask_latest origin ''ids_iv'') (\<lambda>ids.
     act_bind (give (if truthy ids then res_bind (json_iter ids) (res_map json_to_int) else Inr [])) (\<lambda>ids_iv.
     act_bind (give (get_safe_items origin mm)) (\<lambda>safe_items.
     act_bind (ask_latest origin ''ids_encountered'') (\<lambda>encountered.
     act_bind (ask_latest origin ''unquest_stops'') (\<lambda>stops.
     finish (JDict [(''ids_iv'', JList (map JInt ids_iv)), (''injected_settings'', JDict [(''values'', truthy_or injected JNull)]),
       (''ids_encountered'', encountered), (''safe_items'', JList (map JInt safe_items)),
       (''lvl_mode'', case routemanager_of_origin_is_levelmode origin mm of None \<Rightarrow> JNull | Some b \<Rightarrow> JBool b),
       (''unquest_stops'', truthy_or stops (JList [])), (''check_lured'', JBool scan_lured_mons),
       (''quest_layer_scan'', case routemanager_get_quest_layer_to_scan_of_origin origin mm of None \<Rightarrow> JNull | Some i \<Rightarrow> JInt i)])))))))"

text \<open>The addresses of the game: what is not a dictionary counts as an empty one, and whatever goes wrong is no address at all.\<close>

definition get_addresses_read :: "json result \<Rightarrow> json" where
  "get_addresses_read content =
     (case content of
        Inr (JDict d) \<Rightarrow> JDict (map (\<lambda>(k, v). (k, case v of JDict x \<Rightarrow> v | _ \<Rightarrow> JDict [])) d)
      | _ \<Rightarrow> JDict [])"

section \<open>Packages\<close>

text \<open>\<open>None\<close> is the answer that a type or an architecture is not valid; exceptions of the lookups become a status of 500.\<close>

definition parse_frontend :: "lookup_key \<Rightarrow> lookup_key \<Rightarrow> (apk_type option \<times> apk_arch) option result" where
  "parse_frontend req_type req_arch =
     res_bind (convert_to_backend req_type req_arch) (\<lambda>(t, a). Inr (if req_type \<noteq> IsNone \<and> t = None then None else Some (t, a)))"

definition mad_apk_info :: "version_sources \<Rightarrow> (apk_type \<Rightarrow> mad_packages option) \<Rightarrow> lookup_key \<Rightarrow> lookup_key \<Rightarrow> int \<times> string option" where
  "mad_apk_info src info req_type req_arch =
     (case parse_frontend req_type req_arch of
        Inl e \<Rightarrow> (500, None)
      | Inr (Some (Some t, a)) \<Rightarrow>
          (case lookup_package_info src (info t) t a of
             Inl ValueError \<Rightarrow> (404, None)
           | Inl e \<Rightarrow> (500, None)
           | Inr None \<Rightarrow> (404, None)
           | Inr (Some p) \<Rightarrow>
               if t = pogo
               then (case supported_pogo_version src a (version p) of
                   Inl ValueError \<Rightarrow> (404, None)
                 | Inl e \<Rightarrow> (500, None)
                 | Inr ok \<Rightarrow> if ok then (200, version p) else (406, Some ''Supported version not installed''))
               else (200, version p))
      | _ \<Rightarrow> (404, None))"

definition mad_apk_download ::
    "version_sources \<Rightarrow> (apk_type \<Rightarrow> mad_packages option) \<Rightarrow> lookup_key \<Rightarrow> lookup_key \<Rightarrow> int \<times> (string option \<times> string option \<times> string option) option" where
  "mad_apk_download src info req_type req_arch =
     (case parse_frontend req_type req_arch of
        Inl e \<Rightarrow> (500, None)
      | Inr (Some (Some t, a)) \<Rightarrow>
          (case stream_package src (info t) t a of Inl e \<Rightarrow> (500, None) | Inr None \<Rightarrow> (404, None) | Inr (Some x) \<Rightarrow> (200, Some x))
      | _ \<Rightarrow> (404, None))"

section \<open>Runs\<close>

text \<open>Requests of any devices, in any order, between the turns of the consumer; every request finds its own mappings.\<close>

datatype recv_op =
    Request recv_env mapping_manager request_headers "json result"
  | Ask recv_env mapping_manager request_headers bool
  | Consume "proc_env \<times> gmo_task list"

fun recv_step :: "recv_op \<Rightarrow> receiver \<Rightarrow> receiver" where
  "recv_step (Request env mm h body) r = snd (receive_protos env mm h body r)"
| "recv_step (Consume e) r = r\<lparr>rv_consumer := consumer_turn e (rv_consumer r)\<rparr>"
| "recv_step (Ask env mm h lured) r = snd (device_request env mm h (get_latest mm lured) r)"

definition recv_run :: "recv_op list \<Rightarrow> receiver \<Rightarrow> receiver" where
  "recv_run ops r = fold recv_step ops r"

section \<open>What a request leaves alone\<close>

lemma drop_oldest_conv: "drop_oldest q = drop (length q - 200) q"
proof (induction q rule: drop_oldest.induct)
  case (1 q)
  show ?case
  proof (cases "length q > 200")
    case True
    then have "drop (length (tl q) - 200) (tl q) = drop (length q - 200) q"
      by (cases q) (simp_all add: drop_Cons')
    then show ?thesis using 1 True by (simp add: drop_oldest.simps[of q])
  qed (simp add: drop_oldest.simps[of q])
qed

abbreviation rv_queue :: "receiver \<Rightarrow> received_item option list" where
  "rv_queue r \<equiv> cs_queue (rv_consumer r)"

text \<open>
  What holds between any two moments of a request: only the items \<open>A\<close> come into the queue and it stays within its bound, the database
  of scanned data is not touched, what is committed is not touched, and no stop is added twice.
\<close>

definition confined :: "received_item option set \<Rightarrow> receiver \<Rightarrow> receiver \<Rightarrow> bool" where
  "confined A r s \<longleftrightarrow> set (rv_queue s) \<subseteq> set (rv_queue r) \<union> A \<and> (length (rv_queue r) \<le> 201 \<longrightarrow> length (rv_queue s) \<le> 201) \<and>
     px_db (rv_state s) = px_db (rv_state r) \<and> cs_running (rv_consumer s) = cs_running (rv_consumer r) \<and>
     rv_visited s = rv_visited r \<and> (distinct (rv_visited r @ rv_pending r) \<longrightarrow> distinct (rv_visited s @ rv_pending s))"

interpretation rf: act_frame "confined A" for A
proof unfold_locales
  show "confined A s s" for A s by (simp add: confined_def)
  show "confined A s t \<Longrightarrow> confined A t u \<Longrightarrow> confined A s u" for A s t u unfolding confined_def by (elim conjE, intro conjI) (blast, simp_all)
qed

lemma within_state: "(\<And>s. px_db (f s) = px_db s) \<Longrightarrow> rf.framed A (state_do f)"
  by (rule rf.framedI) (simp add: confined_def state_do_def act_do_def rv_state_def)

lemma within_mitm: "rf.framed A (mitm_do f)" and within_auths: "rf.framed A (auths_do g)"
  unfolding mitm_do_def auths_do_def by (rule within_state; simp)+

lemma within_visited: "rf.framed A (mark_visited n s)"
  by (rule rf.framedI) (auto simp: confined_def mark_visited_def act_do_def rv_state_def)

lemma within_trigger: "rf.framed A (act_do (\<lambda>r. r\<lparr>rv_commit := True\<rparr>))"
  by (rule rf.framedI) (simp add: confined_def act_do_def rv_state_def)

lemma within_queue: "Some item \<in> A \<Longrightarrow> rf.framed A (add_to_queue item)"
  by (rule rf.framedI) (auto simp: confined_def add_to_queue_def act_do_def rv_state_def drop_oldest_conv dest: in_set_dropD)

lemmas within_rules = rf.framed_rules within_mitm within_auths within_visited within_trigger within_queue

lemma within_search: "rf.framed A (handle_fort_search_proto env w p loc ts)"
  unfolding handle_fort_search_proto_def by (intro within_rules)

lemma within_cond: "(b \<Longrightarrow> rf.framed A f) \<Longrightarrow> (\<not> b \<Longrightarrow> rf.framed A g) \<Longrightarrow> rf.framed A (if b then f else g)"
  by simp

definition accepted_message :: "json \<Rightarrow> bool" where
  "accepted_message data \<longleftrightarrow> (\<exists>ty. json_get data ''type'' JNull = Inr ty \<and> list_ex (equals_int ty) known_protos \<and> proto_ignored ty data = Inr False)"

lemma within_proto:
  assumes "\<And>ts. accepted_message data \<Longrightarrow> Some (ts, data, w) \<in> A"
  shows "rf.framed A (handle_proto env w data)"
proof -
  have accept: "rf.framed A (accept_proto env w data ty ts loc)" if "accepted_message data" for ty ts loc
    unfolding accept_proto_def by (intro within_rules assms that)
  show ?thesis
    unfolding handle_proto_def get_then_def
    by (intro rf.framed_known within_cond rf.framed_bind within_search rf.framed_finish rf.framed_index accept) (auto simp: accepted_message_def)
qed

definition messages :: "json result \<Rightarrow> json list" where
  "messages body = (case body of Inr (JList ps) \<Rightarrow> ps | Inr (JDict d) \<Rightarrow> [JDict d] | _ \<Rightarrow> [])"

definition sent_by :: "string \<Rightarrow> json result \<Rightarrow> received_item option set" where
  "sent_by w body = {Some (ts, data, w) |ts data. data \<in> set (messages body) \<and> accepted_message data}"

lemma within_each: "(\<And>x. x \<in> set xs \<Longrightarrow> rf.framed A (f x)) \<Longrightarrow> rf.framed A (act_each f xs)"
  by (induction xs) (auto intro: rf.framed_bind rf.framed_finish)

lemma within_post: "rf.framed (sent_by w body) (post_protos env w body)"
  unfolding post_protos_def
proof (rule rf.framed_known)
  fix data assume body: "body = Inr data"
  show "rf.framed (sent_by w body) (case data of JList ps \<Rightarrow> act_each (handle_proto env w) ps | JDict d \<Rightarrow> handle_proto env w data | _ \<Rightarrow> finish ())"
    by (cases data) (auto simp: body messages_def sent_by_def intro!: rf.framed_finish within_each within_proto)
qed

lemma within_ask: "rf.framed A (ask_latest w k)"
  by (rule rf.framedI) (simp add: confined_def ask_latest_def rv_state_def split: prod.split)

lemma within_latest: "rf.framed A (get_latest mm lured w)"
  unfolding get_latest_def by (intro within_rules within_ask)

text \<open>A whole request, with its session.\<close>

lemma respond_within:
  assumes "rf.framed A handler" "distinct (rv_visited r)"
  shows "set (rv_queue (snd (respond handler r))) \<subseteq> set (rv_queue r) \<union> A" "length (rv_queue r) \<le> 201 \<Longrightarrow> length (rv_queue (snd (respond handler r))) \<le> 201"
    and "px_db (rv_state (snd (respond handler r))) = px_db (rv_state r)" "cs_running (rv_consumer (snd (respond handler r))) = cs_running (rv_consumer r)"
    and "\<exists>new. rv_visited (snd (respond handler r)) = rv_visited r @ new \<and> distinct (rv_visited r @ new) \<and> (new \<noteq> [] \<longrightarrow> fst (fst (respond handler r)) = 200)"
proof -
  obtain x r1 where h: "handler (r\<lparr>rv_pending := [], rv_commit := False\<rparr>) = (x, r1)" by fastforce
  have w: "confined A (r\<lparr>rv_pending := [], rv_commit := False\<rparr>) r1" using rf.framedD[OF assms(1)] h by (metis snd_conv)
  note d = w[unfolded confined_def rv_state_def, simplified]
  show "set (rv_queue (snd (respond handler r))) \<subseteq> set (rv_queue r) \<union> A" "length (rv_queue r) \<le> 201 \<Longrightarrow> length (rv_queue (snd (respond handler r))) \<le> 201"
    and "px_db (rv_state (snd (respond handler r))) = px_db (rv_state r)" "cs_running (rv_consumer (snd (respond handler r))) = cs_running (rv_consumer r)"
    using d by (simp_all add: respond_def h rv_state_def split: sum.split)
  show "\<exists>new. rv_visited (snd (respond handler r)) = rv_visited r @ new \<and> distinct (rv_visited r @ new) \<and> (new \<noteq> [] \<longrightarrow> fst (fst (respond handler r)) = 200)"
    using d assms(2)
    by (intro exI[of _ "if fst (fst (respond handler r)) = 200 \<and> rv_commit r1 then rv_pending r1 else []"])
      (auto simp: respond_def h split: sum.split)
qed

section \<open>Runs of requests and turns\<close>

definition admitted :: "recv_env \<Rightarrow> mapping_manager \<Rightarrow> request_headers \<Rightarrow> string \<Rightarrow> bool" where
  "admitted env mm h w \<longleftrightarrow> origin_known mm h = Some w \<and> device_authorised (re_auth env) h"

lemma device_request_cases:
  "(\<exists>w. admitted env mm h w \<and> device_request env mm h f r = respond (f w) r) \<or> device_request env mm h f r = ((401, None), r)"
  by (auto simp: device_request_def admitted_def split: option.split)

lemma turn_shrinks_queue:
  "set (cs_queue (consumer_turn e c)) \<subseteq> set (cs_queue c)" "length (cs_queue (consumer_turn e c)) \<le> length (cs_queue c)"
  by (auto simp: consumer_turn_def split: list.split option.split prod.split sum.split py_error.split)

text \<open>What an operation may put into the queue.\<close>

fun delivered :: "recv_op \<Rightarrow> received_item option set" where
  "delivered (Request env mm h body) = {x. \<exists>w. admitted env mm h w \<and> x \<in> sent_by w body}"
| "delivered _ = {}"

lemma request_step:
  assumes "distinct (rv_visited r)" "\<And>w. admitted env mm h w \<Longrightarrow> rf.framed A (f w)"
    and "snd (device_request env mm h f r) = r'"
  shows "set (rv_queue r') \<subseteq> set (rv_queue r) \<union> A \<and> (length (rv_queue r) \<le> 201 \<longrightarrow> length (rv_queue r') \<le> 201) \<and>
    px_db (rv_state r') = px_db (rv_state r) \<and> (\<exists>new. rv_visited r' = rv_visited r @ new \<and> distinct (rv_visited r @ new))"
proof (cases "\<exists>w. admitted env mm h w \<and> device_request env mm h f r = respond (f w) r")
  case True
  then obtain w where w: "admitted env mm h w" "snd (respond (f w) r) = r'" using assms(3) by auto
  note k = respond_within[OF assms(2)[OF w(1)] assms(1), unfolded w(2)]
  show ?thesis using k(1,2,3) k(5) by blast
next
  case False
  then have "r' = r" using device_request_cases[of env mm h f r] assms(3) by auto
  then show ?thesis using assms(1) by (intro conjI exI[of _ "[]"]) simp_all
qed

lemma confined_mono: "confined A r s \<Longrightarrow> A \<subseteq> B \<Longrightarrow> confined B r s"
  unfolding confined_def by (elim conjE, intro conjI) (blast, assumption+)

lemma recv_step_keeps:
  assumes "distinct (rv_visited r)"
  shows "set (rv_queue (recv_step x r)) \<subseteq> set (rv_queue r) \<union> delivered x" "length (rv_queue r) \<le> 201 \<Longrightarrow> length (rv_queue (recv_step x r)) \<le> 201"
    and "\<exists>new. rv_visited (recv_step x r) = rv_visited r @ new \<and> distinct (rv_visited r @ new)"
proof -
  have f: "rf.framed (delivered (Request env mm h body)) (post_protos env w body)" if "admitted env mm h w" for env mm h body w
    by (rule rf.framedI, rule confined_mono[OF rf.framedD[OF within_post]]) (use that in auto)
  have "set (rv_queue (recv_step x r)) \<subseteq> set (rv_queue r) \<union> delivered x \<and> (length (rv_queue r) \<le> 201 \<longrightarrow> length (rv_queue (recv_step x r)) \<le> 201) \<and>
     (\<exists>new. rv_visited (recv_step x r) = rv_visited r @ new \<and> distinct (rv_visited r @ new))"
  proof (cases x)
    case (Request env mm h body)
    show ?thesis
      using request_step[where env = env and mm = mm and h = h and f = "\<lambda>w. post_protos env w body" and A = "delivered (Request env mm h body)", OF assms f refl]
      unfolding Request recv_step.simps receive_protos_def by blast
  next
    case (Ask env mm h lured)
    show ?thesis
      using request_step[where env = env and mm = mm and h = h and f = "get_latest mm lured" and A = "{}", OF assms within_latest refl]
      unfolding Ask recv_step.simps delivered.simps by blast
  next
    case (Consume e)
    show ?thesis using turn_shrinks_queue[of e "rv_consumer r"] assms unfolding Consume by (intro conjI exI[of _ "[]"]) auto
  qed
  then show "set (rv_queue (recv_step x r)) \<subseteq> set (rv_queue r) \<union> delivered x" "length (rv_queue r) \<le> 201 \<Longrightarrow> length (rv_queue (recv_step x r)) \<le> 201"
    and "\<exists>new. rv_visited (recv_step x r) = rv_visited r @ new \<and> distinct (rv_visited r @ new)" by blast+
qed

lemma recv_run_Cons: "recv_run (x # ops) r = recv_run ops (recv_step x r)"
  by (simp add: recv_run_def)

lemma recv_run_visited:
  "distinct (rv_visited r) \<Longrightarrow> \<exists>new. rv_visited (recv_run ops r) = rv_visited r @ new \<and> distinct (rv_visited r @ new)"
proof (induction ops arbitrary: r)
  case (Cons x ops)
  obtain n1 where n1: "rv_visited (recv_step x r) = rv_visited r @ n1" "distinct (rv_visited r @ n1)" using recv_step_keeps(3)[OF Cons.prems] by blast
  then obtain n2 where "rv_visited (recv_run ops (recv_step x r)) = (rv_visited r @ n1) @ n2" "distinct ((rv_visited r @ n1) @ n2)"
    using Cons.IH[of "recv_step x r"] by auto
  then show ?case by (intro exI[of _ "n1 @ n2"]) (simp add: recv_run_Cons)
qed (simp add: recv_run_def)

text \<open>
  C10. Nothing gets in that was not admitted: over any run of requests of any devices and turns of the consumer, an item in the queue was
  there before or is an accepted message of a request with the credentials of the instance, under the configured origin of that request.
\<close>

theorem queue_holds_admitted:
  assumes "distinct (rv_visited r)" "item \<in> set (rv_queue (recv_run ops r))"
  shows "item \<in> set (rv_queue r) \<or> (\<exists>env mm h body w ts data. Request env mm h body \<in> set ops \<and> hd_origin h = Some w \<and>
     w \<in> get_all_loaded_origins mm \<and> device_authorised (re_auth env) h \<and> item = Some (ts, data, w) \<and> data \<in> set (messages body) \<and> accepted_message data)"
proof -
  have "item \<in> set (rv_queue r) \<or> (\<exists>x \<in> set ops. item \<in> delivered x)"
    using assms
  proof (induction ops arbitrary: r)
    case (Cons x ops)
    have "distinct (rv_visited (recv_step x r))" using recv_step_keeps(3)[OF Cons.prems(1)] by metis
    then show ?case
      using Cons.IH[of "recv_step x r"] Cons.prems(2) recv_step_keeps(1)[OF Cons.prems(1), of x] by (auto simp: recv_run_Cons)
  qed (simp add: recv_run_def)
  then show ?thesis
  proof
    assume "\<exists>x \<in> set ops. item \<in> delivered x"
    then obtain x where x: "x \<in> set ops" "item \<in> delivered x" by blast
    show ?thesis
    proof (cases x)
      case (Request env mm h body)
      then obtain w ts data where d: "admitted env mm h w" "item = Some (ts, data, w)" "data \<in> set (messages body)" "accepted_message data"
        using x(2) by (auto simp: sent_by_def)
      then have "hd_origin h = Some w" "w \<in> get_all_loaded_origins mm" "device_authorised (re_auth env) h"
        by (auto simp: admitted_def origin_known_def split: option.splits if_splits)
      with x(1) d(2-4) show ?thesis unfolding Request by blast
    qed (use x(2) in simp_all)
  qed simp
qed


text \<open>Only the consumer touches the database of scanned data.\<close>

lemma requests_keep_db:
  assumes "distinct (rv_visited r)"
  shows "px_db (rv_state (recv_step (Request env mm h body) r)) = px_db (rv_state r)"
    and "px_db (rv_state (recv_step (Ask env mm h lured) r)) = px_db (rv_state r)"
proof -
  have "rf.framed UNIV (post_protos env w body)" for w
    by (rule rf.framedI, rule confined_mono[OF rf.framedD[OF within_post]]) simp
  from request_step[OF assms this refl, of env mm h] request_step[OF assms within_latest[of UNIV mm lured] refl, of env mm h]
  show "px_db (rv_state (recv_step (Request env mm h body) r)) = px_db (rv_state r)"
    and "px_db (rv_state (recv_step (Ask env mm h lured) r)) = px_db (rv_state r)"
    by (simp_all only: recv_step.simps receive_protos_def simp_thms)
qed

section \<open>What is accepted is delivered\<close>

text \<open>A message the receiver takes: its type, time, place, held quests and payload, as the code reads them.\<close>

definition well_received :: "recv_env \<Rightarrow> json \<Rightarrow> json \<Rightarrow> int \<Rightarrow> location \<Rightarrow> int list option \<Rightarrow> json \<Rightarrow> bool" where
  "well_received env data ty ts loc quests payload \<longleftrightarrow>
     json_get data ''type'' JNull = Inr ty \<and> ty \<noteq> JNull \<and> \<not> equals_int ty 0 \<and> list_ex (equals_int ty) known_protos \<and> \<not> equals_int ty 101 \<and>
     proto_ignored ty data = Inr False \<and> json_get data ''timestamp'' (JInt \<lfloor>re_now env\<rfloor>) = Inr (JInt ts) \<and>
     (re_ignore_pre_boot env \<longrightarrow> re_started env \<le> of_int ts) \<and> location_of_data data = Inr loc \<and>
     res_bind (json_get data ''quests_held'' JNull) quests_held_of = Inr quests \<and> json_index data ''payload'' = Inr payload"

lemma handle_well_received:
  assumes "well_received env data ty ts loc quests payload"
  shows "handle_proto env w data r = (Inr (), r\<lparr>rv_consumer :=
    \<lparr>cs_queue = drop (length (rv_queue r) - 200) (rv_queue r) @ [Some (ts, data, w)], cs_running = cs_running (rv_consumer r),
     cs_state = (rv_state r)\<lparr>px_mitm := fst (handler_update_latest \<lfloor>re_now env\<rfloor> w (py_str (re_show env) ty) payload (Some ts) (Some \<lfloor>re_now env\<rfloor>) (Some loc)
       (handler_set_quests_held w quests (px_mitm (rv_state r))))\<rparr>\<rparr>\<rparr>)"
  using assms
  by (auto simp: well_received_def handle_proto_def get_then_def act_bind_def give_def accept_proto_def index_then_def finish_def
      mitm_do_def state_do_def act_do_def add_to_queue_def rv_state_def drop_oldest_conv)

text \<open>
  A message that is posted by itself with the credentials of the instance and is well received is answered with 200, goes
  to the end of the queue, of which at most the oldest items are dropped, and to the data handler, and changes nothing else.
\<close>

lemma posted_message_delivered:
  assumes "admitted env mm h w" "well_received env (JDict d) ty ts loc quests payload"
  shows "receive_protos env mm h (Inr (JDict d)) r = ((200, Some ()), r\<lparr>rv_pending := [], rv_commit := False, rv_consumer :=
    \<lparr>cs_queue = drop (length (rv_queue r) - 200) (rv_queue r) @ [Some (ts, JDict d, w)], cs_running = cs_running (rv_consumer r),
     cs_state = (rv_state r)\<lparr>px_mitm := fst (handler_update_latest \<lfloor>re_now env\<rfloor> w (py_str (re_show env) ty) payload (Some ts) (Some \<lfloor>re_now env\<rfloor>) (Some loc)
       (handler_set_quests_held w quests (px_mitm (rv_state r))))\<rparr>\<rparr>\<rparr>)"
  using assms(1) handle_well_received[OF assms(2), of w "r\<lparr>rv_pending := [], rv_commit := False\<rparr>"]
  by (simp add: receive_protos_def device_request_def admitted_def respond_def post_protos_def act_bind_def give_def rv_state_def)

text \<open>
  A request that fails marks nothing as visited, whatever it had marked before the failure; what it had put into the queue
  and into the data handler stays.
\<close>

lemma failed_request_marks_nothing:
  assumes "distinct (rv_visited r)" "fst (fst (receive_protos env mm h body r)) \<noteq> 200"
  shows "rv_visited (snd (receive_protos env mm h body r)) = rv_visited r"
proof (cases "\<exists>w. admitted env mm h w \<and> receive_protos env mm h body r = respond (post_protos env w body) r")
  case True
  then obtain w where w: "receive_protos env mm h body r = respond (post_protos env w body) r" by blast
  show ?thesis using respond_within(5)[OF within_post[of w body env] assms(1)] assms(2) unfolding w by auto
next
  case False
  then show ?thesis using device_request_cases[of env mm h "\<lambda>w. post_protos env w body" r] unfolding receive_protos_def by auto
qed

section \<open>Packages\<close>

text \<open>The answer 406 is never given, since the lookup of a package refuses what is not supported; unknown names are no 404 but a failure.\<close>

lemma lookup_supported: "lookup_package_info src i pogo a = Inr (Some p) \<Longrightarrow> supported_pogo_version src a (version p) = Inr True"
  by (auto simp: lookup_package_info_def res_bind_Inr split: option.splits if_splits)

lemma info_never_406: "fst (mad_apk_info src info ty ar) \<noteq> 406"
  by (auto simp: mad_apk_info_def lookup_supported split: option.split sum.split prod.split py_error.split)

lemma unknown_type_fails: "mad_apk_info src info (IsStr ''quake'') IsNone = (500, None)"
  by code_simp

end
