(* ===== verification/ScanFrames.thy ===== *)
theory ScanFrames
  imports Processor
begin

text \<open>
  What no submission of scanned data does to the tables. The locale \<open>scan_frame\<close> takes a relation between the tables before
  and after that every single write respects, and lifts it through the methods, sessions and roll-backs to everything the
  consumer of the queue does with messages that are no encounters; \<open>scan_frame_all\<close> adds the encounters.
\<close>

section \<open>The frame of sessions\<close>

locale scan_frame =
  fixes T :: "tables \<Rightarrow> tables \<Rightarrow> bool"
  assumes T_refl: "T t t" and T_trans: "T t u \<Longrightarrow> T u v \<Longrightarrow> T t v"
    and put_display: "T t (t\<lparr>t_display := AList.update k d (t_display t)\<rparr>)"
    and put_seen: "T t (t\<lparr>t_seen := AList.update k se (t_seen t)\<rparr>)"
    and put_stop: "T t (t\<lparr>t_stop := AList.update i st (t_stop t)\<rparr>)"
    and put_incident: "T t (t\<lparr>t_incident := AList.update ij inc (t_incident t)\<rparr>)"
    and put_gym: "T t (t\<lparr>t_gym := AList.update i g (t_gym t)\<rparr>)"
    and put_gymdetail: "T t (t\<lparr>t_gymdetail := AList.update i gd (t_gymdetail t)\<rparr>)"
    and put_quest: "T t (t\<lparr>t_quest := AList.update ik q (t_quest t)\<rparr>)"
    and put_route: "T t (t\<lparr>t_route := AList.update i ro (t_route t)\<rparr>)"
    and put_weather: "T t (t\<lparr>t_weather := AList.update str w (t_weather t)\<rparr>)"
    and put_cell: "T t (t\<lparr>t_cell := AList.update k c (t_cell t)\<rparr>)"
    and put_newer_raid: "(\<And>old. map_of (t_raid t) i = Some old \<Longrightarrow> ra_last_scanned old \<le> ra_last_scanned r) \<Longrightarrow> T t (put_raid i r t)"
    and put_sightings: "sightings env received ev ws (filter (\<lambda>(k, sp). k \<in> K) (t_spawn t)) [] = Inr (known, added) \<Longrightarrow>
      put_spawns known added t = Some t' \<Longrightarrow> T t t'"
    and put_wild: "wild_row env ts j spid x (map_of (t_pokemon t) enc) = Inr mon \<Longrightarrow> T t (put_pokemon enc mon t)"
    and put_nearby: "nearby_row env ts j place j2 j3 (map_of (t_pokemon t) enc) = Inr mon \<Longrightarrow> T t (put_pokemon enc mon t)"
    and put_lured: "lure_wild_row j j2 j3 ts x (map_of (t_pokemon t) enc) = Inr mon \<Longrightarrow> T t (put_pokemon enc mon t)"
begin

definition session_ok :: "db_session \<Rightarrow> bool" where
  "session_ok s \<longleftrightarrow> T (stored s) (live s) \<and> unflushed s = None"

definition R :: "db_session \<Rightarrow> db_session \<Rightarrow> bool" where
  "R s s' \<longleftrightarrow> (session_ok s \<longrightarrow> session_ok s' \<and> T (stored s) (stored s'))"

lemma R_refl: "R s s"
  by (simp add: R_def T_refl)

lemma R_trans: "R s t \<Longrightarrow> R t u \<Longrightarrow> R s u"
  by (auto simp: R_def intro: T_trans)

end

sublocale scan_frame \<subseteq> act_frame R
  by unfold_locales (rule R_refl, rule R_trans)

context scan_frame
begin

lemma framed_exists: "framed (cache_exists t key)"
  by (simp add: cache_exists_def framed_read)

lemma framed_set: "framed (cache_set t key ex)"
  by (auto simp: framed_def cache_set_def raise_error_def act_do_def R_def session_ok_def T_refl)

lemma framed_find: "framed (find_row tab k)"
  by (simp add: find_row_def framed_read)

lemma framed_event: "framed (get_current_event t b)"
  by (simp add: get_current_event_def framed_read)

lemma flush_ok: "session_ok s \<Longrightarrow> session_flush s = (Inr (), s)"
  by (simp add: session_ok_def session_flush_def act_bind_def act_read_def finish_def)

lemma framed_flush: "framed session_flush"
  by (auto simp: framed_def R_def flush_ok T_refl)

lemma framed_begin: "framed begin_nested"
  by (simp add: begin_nested_def framed_flush)

lemma framed_rollback: "framed session_rollback"
  by (auto simp: framed_def R_def session_rollback_def act_do_def session_ok_def T_refl)

lemma framed_commit: "framed session_commit"
  by (auto simp: framed_def R_def session_commit_def act_bind_def flush_ok act_do_def session_ok_def T_refl split: prod.splits sum.splits)

lemma try_write_at: "(\<And>t. f (live s) = Some t \<Longrightarrow> T (live s) t) \<Longrightarrow> R s (snd (try_write f s))"
  by (auto simp: R_def try_write_def Let_def session_ok_def T_refl split: option.split intro: T_trans)

lemma framed_write: "(\<And>t. T t (f t)) \<Longrightarrow> framed (nested_commit f)"
  by (auto simp: framed_def nested_commit_def intro!: try_write_at)

lemma framed_try_write: "(\<And>t. T t (f t)) \<Longrightarrow> framed (try_write (\<lambda>t. Some (f t)))"
  using framed_write by (simp add: nested_commit_def)

lemma bind_at: "R s (snd (f s)) \<Longrightarrow> (\<And>x. framed (k x)) \<Longrightarrow> R s (snd (act_bind f k s))"
  by (cases "f s") (auto simp: act_bind_def split: sum.split intro: R_trans[OF _ framedD])

text \<open>A changed row that is flushed at once.\<close>

lemma change_flush_at:
  assumes "\<And>t. f (live s) = Some t \<Longrightarrow> T (live s) t" "session_ok s"
  shows "session_ok (snd (act_bind (change_rows f) (\<lambda>_. session_flush) s))" (is ?A)
    "T (stored s) (stored (snd (act_bind (change_rows f) (\<lambda>_. session_flush) s)))" (is ?B)
proof -
  define s0 where "s0 = s\<lparr>unflushed := None\<rparr>"
  have s0: "session_ok s0" "stored s0 = stored s" using assms(2) by (auto simp: s0_def session_ok_def)
  have w: "R s0 (snd (try_write f s0))" by (rule try_write_at) (use assms(1) in \<open>simp add: s0_def\<close>)
  have eq: "act_bind (change_rows f) (\<lambda>_. session_flush) s =
      act_bind (try_write f) (\<lambda>ok. if ok then finish () else act_bind session_rollback (\<lambda>_. raise_error IntegrityError)) s0"
    using assms(2) by (simp add: session_ok_def act_bind_def change_rows_def act_do_def session_flush_def act_read_def s0_def)
  have "framed (if ok then finish () else act_bind session_rollback (\<lambda>_. raise_error IntegrityError))" for ok
    by (intro framed_if framed_finish framed_bind framed_rollback framed_raise)
  with w have "R s0 (snd (act_bind (change_rows f) (\<lambda>_. session_flush) s))" unfolding eq by (rule bind_at)
  with s0 show ?A ?B by (simp_all add: R_def)
qed

lemma framed_change_flush_at:
  "(\<And>t. f (live s) = Some t \<Longrightarrow> T (live s) t) \<Longrightarrow> R s (snd (act_bind (change_rows f) (\<lambda>_. session_flush) s))"
  unfolding R_def using change_flush_at by blast

lemma change_flush_bind_at:
  assumes "\<And>t. f (live s) = Some t \<Longrightarrow> T (live s) t" "framed k"
  shows "R s (snd (act_bind (change_rows f) (\<lambda>_. act_bind session_flush (\<lambda>_. k)) s))"
proof -
  have "R s (snd (act_bind (change_rows f) (\<lambda>_. session_flush) s))" by (rule framed_change_flush_at) (rule assms(1))
  then have "R s (snd (act_bind (act_bind (change_rows f) (\<lambda>_. session_flush)) (\<lambda>_. k) s))" by (rule bind_at) (rule assms(2))
  then show ?thesis by (simp add: act_bind_assoc)
qed

lemma framed_store: "framed (act_do (\<lambda>s. s\<lparr>stored := live s\<rparr>))"
  by (auto simp: framed_def act_do_def R_def session_ok_def T_refl)

lemma framed_change_commit:
  "(\<And>t t'. f t = Some t' \<Longrightarrow> T t t') \<Longrightarrow> framed k \<Longrightarrow> framed (act_bind (change_rows f) (\<lambda>_. act_bind session_commit (\<lambda>_. k)))"
  unfolding session_commit_def act_bind_assoc
  by (rule framedI, rule change_flush_bind_at) (auto intro: framed_bind framed_store)

lemma framed_save_at: "T (live s) (f (live s)) \<Longrightarrow> R s (snd (save_row ex f s))"
  unfolding save_row_def begin_nested_def
proof (cases ex)
  case False
  assume T: "T (live s) (f (live s))"
  show "R s (snd ((if ex then act_bind (change_rows (\<lambda>t. Some (f t))) (\<lambda>_. act_bind session_flush (\<lambda>_. finish True))
      else act_bind session_flush (\<lambda>_. nested_commit f)) s))"
  proof (cases "session_ok s")
    case True
    then show ?thesis using \<open>\<not> ex\<close> T by (auto simp: act_bind_def flush_ok nested_commit_def intro!: try_write_at)
  qed (simp add: R_def)
qed (auto intro!: change_flush_bind_at framed_finish)

lemma framed_save: "(\<And>t. T t (f t)) \<Longrightarrow> framed (save_row ex f)"
  by (rule framedI) (rule framed_save_at)

lemmas db_rules = framed_rules framed_exists framed_set framed_find framed_event framed_flush framed_begin framed_rollback framed_commit
  framed_write framed_try_write framed_save framed_each

text \<open>A row is looked up, made anew from the message and written in a savepoint.\<close>

lemma row_at: "(\<And>row. map_of (tab (live s)) key = row \<Longrightarrow> R s (snd (k row s))) \<Longrightarrow> R s (snd (act_bind (find_row tab key) k s))"
  by (simp add: act_bind_def find_row_def act_read_def)

lemma give_at: "(\<And>x. r = Inr x \<Longrightarrow> R s (snd (k x s))) \<Longrightarrow> R s (snd (act_bind (give r) k s))"
  by (cases r) (simp_all add: act_bind_def give_def R_refl)

lemma framed_row_write:
  assumes "\<And>t mon. g (map_of (tab t) key) = Inr mon \<Longrightarrow> T t (h mon t)" "\<And>row mon ok. framed (k row mon ok)"
  shows "framed (act_bind (find_row tab key) (\<lambda>row. act_bind (give (g row)) (\<lambda>mon. act_bind (nested_commit (h mon)) (k row mon))))"
proof (rule framedI, rule row_at, rule give_at, rule bind_at)
  fix s :: db_session and row mon assume "map_of (tab (live s)) key = row" "g row = Inr mon"
  then show "R s (snd (nested_commit (h mon) s))" unfolding nested_commit_def by (intro try_write_at) (use assms(1) in auto)
qed (rule assms(2))

lemma framed_encounter_id: "(\<And>i. framed (k i)) \<Longrightarrow> framed (encounter_id_then j k)"
  unfolding encounter_id_then_def by (intro framed_bind framed_give)

lemma framed_cache_until: "framed (cache_until env key d)"
  unfolding cache_until_def by (intro db_rules)

lemmas submit_rules = framed_encounter_id framed_cache_until db_rules

section \<open>The methods\<close>

lemma framed_submit_wild: "framed (submit_wild env ts w)"
  unfolding submit_wild_def
  by (intro framed_row_write put_wild submit_rules | assumption)+

lemma framed_mons: "framed (mons env ts p)"
  unfolding mons_def by (intro submit_rules framed_submit_wild)

lemma framed_nearby_place: "framed (nearby_place env c st)"
  unfolding nearby_place_def by (intro submit_rules)

lemma framed_submit_nearby: "framed (submit_nearby env ts c m)"
  unfolding submit_nearby_def
  by (intro framed_row_write put_nearby framed_nearby_place submit_rules | assumption)+

lemma framed_mons_nearby: "framed (mons_nearby env ts p)"
  unfolding mons_nearby_def by (intro submit_rules framed_submit_nearby)

lemma framed_submit_lured: "framed (submit_lured env ts f)"
  unfolding submit_lured_def
  by (intro framed_row_write put_lured submit_rules | assumption)+

lemma framed_mon_lure_noiv: "framed (mon_lure_noiv env ts p)"
  unfolding mon_lure_noiv_def by (intro submit_rules framed_submit_lured)

lemma framed_update_seen: "framed (update_seen_type_stats args)"
  unfolding update_seen_type_stats_def by (intro submit_rules put_seen)

lemma framed_once_per_cell: "(\<And>x. framed (body x)) \<Longrightarrow> framed (once_per_cell env prefix cell body)"
  unfolding once_per_cell_def by (intro submit_rules)

lemma framed_incident: "framed (handle_single_incident i data)"
  unfolding handle_single_incident_def by (intro submit_rules put_incident)

lemma framed_incidents: "framed (handle_pokestop_incident_data i data)"
  unfolding handle_pokestop_incident_data_def by (intro submit_rules framed_incident)

lemma framed_active_lure: "framed (active_lure env data m)"
  unfolding active_lure_def by (intro submit_rules)

lemma framed_stop: "framed (handle_pokestop_data env data)"
  unfolding handle_pokestop_data_def by (intro submit_rules framed_incidents framed_active_lure put_stop)

lemma framed_stops: "framed (stops env p)"
  unfolding stops_def by (intro submit_rules framed_once_per_cell framed_stop)

lemma framed_quest: "framed (quest env p layer)"
  unfolding quest_def by (intro submit_rules put_quest)

lemma framed_change_begin: "(\<And>t. T t (f t)) \<Longrightarrow> framed k \<Longrightarrow> framed (act_bind (change_rows (\<lambda>t. Some (f t))) (\<lambda>_. act_bind session_flush (\<lambda>_. k)))"
  by (rule framedI, rule change_flush_bind_at) auto

lemma framed_save_gym: "framed (save_gym env data ts i g key)"
proof -
  have p: "T t (put_gym i x t)" "T t (put_gym_detail i d t)" "T t (put_gym_detail i d (put_gym i x t))" for t x d
    unfolding put_gym_def put_gym_detail_def by (rule put_gym put_gymdetail T_trans[OF put_gym put_gymdetail])+
  have if1: "act_bind (if b then finish () else change_rows f) (\<lambda>_. act_bind session_flush (\<lambda>_. k))
      = (if b then act_bind session_flush (\<lambda>_. k) else act_bind (change_rows f) (\<lambda>_. act_bind session_flush (\<lambda>_. k)))"
    for b f and k :: "'x db"
    by (simp add: act_bind_finish)
  show ?thesis
    unfolding save_gym_def begin_nested_def if1
    by (intro framed_change_begin p submit_rules) (auto simp: p T_refl)
qed

lemma framed_submit_gym: "framed (submit_gym env ts data)"
  unfolding submit_gym_def by (intro submit_rules framed_save_gym)

lemma framed_gyms: "framed (gyms env p ts)"
  unfolding gyms_def by (intro submit_rules framed_once_per_cell framed_submit_gym)

lemma framed_gym_info: "framed (submit_gym_info p)"
  unfolding submit_gym_info_def by (intro submit_rules) (simp add: put_gym_detail_def put_gymdetail)

lemma framed_submit_raid: "framed (submit_raid env ts data)"
proof -
  have w: "framed (act_bind (find_row t_raid i) (\<lambda>row.
      if (case row of None \<Rightarrow> False | Some old \<Rightarrow> ra_last_scanned old > of_int ts) then finish x else
      act_bind (save_and_cache env (row \<noteq> None) (put_raid i r) key ex) (\<lambda>_. finish x)))"
    if r: "raid_row ts info = Inr r" for i x r key ex info
  proof (rule framedI, rule row_at)
    fix s :: db_session and row assume row: "map_of (t_raid (live s)) i = row"
    have ts: "ra_last_scanned r = of_int ts"
      using r by (auto simp: raid_row_def raid_boss_def res_bind_Inr Let_def split: if_splits)
    show "R s (snd ((if (case row of None \<Rightarrow> False | Some old \<Rightarrow> ra_last_scanned old > of_int ts) then finish x else
      act_bind (save_and_cache env (row \<noteq> None) (put_raid i r) key ex) (\<lambda>_. finish x)) s))"
    proof (cases "case row of None \<Rightarrow> False | Some old \<Rightarrow> ra_last_scanned old > of_int ts")
      case False
      have "T (live s) (put_raid i r (live s))"
        by (rule put_newer_raid) (use False row ts in \<open>auto simp: not_less\<close>)
      then have "R s (snd (save_row (row \<noteq> None) (put_raid i r) s))" by (rule framed_save_at)
      then have "R s (snd (save_and_cache env (row \<noteq> None) (put_raid i r) key ex s))"
        unfolding save_and_cache_def by (rule bind_at) (intro submit_rules)
      then have "R s (snd (act_bind (save_and_cache env (row \<noteq> None) (put_raid i r) key ex) (\<lambda>_. finish x) s))"
        by (rule bind_at) (rule framed_finish)
      with False show ?thesis by simp
    qed (simp add: finish_def R_refl)
  qed
  show ?thesis
    unfolding submit_raid_def Let_def
    by (rule framed_index framed_if framed_finish framed_known w framed_bind framed_exists | assumption)+
qed

lemma framed_raids: "framed (raids env p ts)"
  unfolding raids_def by (intro submit_rules framed_submit_raid)

lemma framed_routes: "framed (routes env p ts)"
  unfolding routes_def handle_route_cell_def by (intro submit_rules put_route)

lemma framed_weather: "framed (submit_weather env p ts)"
  unfolding submit_weather_def handle_weather_data_def by (intro submit_rules put_weather)

lemma framed_cells: "framed (submit_cells env p)"
  unfolding submit_cells_def submit_cell_def by (intro submit_rules) (simp add: insert_update_cell_def put_cell)

section \<open>Rows a session still holds\<close>

text \<open>
  Spawn points, and the details of a stop whose key is cached, are left to the commit of the caller. Such a state is fine as long
  as what is held may be written.
\<close>

definition holding_ok :: "db_session \<Rightarrow> bool" where
  "holding_ok s \<longleftrightarrow> T (stored s) (live s) \<and> (\<forall>g t'. unflushed s = Some g \<longrightarrow> g (live s) = Some t' \<longrightarrow> T (live s) t')"

definition closes_well :: "'a db \<Rightarrow> bool" where
  "closes_well f \<longleftrightarrow> (\<forall>s. session_ok s \<longrightarrow> holding_ok (snd (f s)) \<and> T (stored s) (stored (snd (f s))))"

lemma holding_session: "session_ok s \<Longrightarrow> holding_ok s"
  by (simp add: session_ok_def holding_ok_def)

lemma closes_framed: "framed f \<Longrightarrow> closes_well f"
  by (auto simp: closes_well_def framed_def R_def holding_session)

lemma closes_bind: "framed f \<Longrightarrow> (\<And>x. closes_well (k x)) \<Longrightarrow> closes_well (act_bind f k)"
  unfolding closes_well_def
proof (intro allI impI)
  fix s assume f: "framed f" and k: "\<And>x. \<forall>s. session_ok s \<longrightarrow> holding_ok (snd (k x s)) \<and> T (stored s) (stored (snd (k x s)))" and s: "session_ok s"
  from framedD[OF f, of s] s have s1: "session_ok (snd (f s))" "T (stored s) (stored (snd (f s)))" by (auto simp: R_def)
  show "holding_ok (snd (act_bind f k s)) \<and> T (stored s) (stored (snd (act_bind f k s)))"
  proof (cases "f s")
    case (Pair r t)
    then show ?thesis using s1 k[rule_format, of t] holding_session
      by (cases r) (auto simp: act_bind_def intro: T_trans)
  qed
qed

lemma closes_option: "closes_well f \<Longrightarrow> (\<And>x. closes_well (g x)) \<Longrightarrow> closes_well (case m of None \<Rightarrow> f | Some x \<Rightarrow> g x)"
  by (cases m) simp_all

lemma closes_if: "closes_well f \<Longrightarrow> closes_well g \<Longrightarrow> closes_well (if b then f else g)"
  by simp

lemma closes_prod: "(\<And>x y. closes_well (g x y)) \<Longrightarrow> closes_well (case p of (x, y) \<Rightarrow> g x y)"
  by (cases p) simp

lemma closes_index: "(\<And>x. closes_well (k x)) \<Longrightarrow> closes_well (index_then j ks k)"
  unfolding index_then_def by (intro closes_bind framed_give)

lemma closes_get: "(\<And>x. closes_well (k x)) \<Longrightarrow> closes_well (get_then j key d k)"
  unfolding get_then_def by (intro closes_bind framed_give)

text \<open>Flushing what is held, or undoing it, gives a state without anything held.\<close>

lemma flush_holding:
  assumes "holding_ok s"
  shows "session_ok (snd (session_flush s)) \<and> T (stored s) (stored (snd (session_flush s)))"
proof (cases "unflushed s")
  case None
  with assms show ?thesis by (simp add: session_flush_def act_bind_def act_read_def finish_def holding_ok_def session_ok_def T_refl)
next
  case (Some g)
  define s0 where "s0 = s\<lparr>unflushed := None\<rparr>"
  have "session_flush s = act_bind (change_rows g) (\<lambda>_. session_flush) s0"
    using Some by (simp add: session_flush_def act_bind_def act_read_def act_do_def change_rows_def s0_def)
  moreover have "session_ok s0" "\<And>t. g (live s0) = Some t \<Longrightarrow> T (live s0) t" "stored s0 = stored s"
    using assms Some by (auto simp: s0_def holding_ok_def session_ok_def)
  ultimately show ?thesis using change_flush_at[of g s0] by simp
qed

lemma holding_commit:
  assumes "holding_ok s"
  shows "session_ok (snd (session_commit s)) \<and> T (stored s) (stored (snd (session_commit s)))"
proof (cases "session_flush s")
  case (Pair r t)
  with flush_holding[OF assms] show ?thesis
    by (cases r) (auto simp: session_commit_def act_bind_def act_do_def session_ok_def T_refl intro: T_trans)
qed

lemma holding_rollback: "session_ok (snd (session_rollback s))" "stored (snd (session_rollback s)) = stored s"
  by (simp_all add: session_rollback_def act_do_def session_ok_def T_refl)

definition RL :: "db_session \<Rightarrow> db_session \<Rightarrow> bool" where
  "RL s s' \<longleftrightarrow> (holding_ok s \<longrightarrow> holding_ok s' \<and> T (stored s) (stored s'))"

lemma RL_refl: "RL s s"
  by (simp add: RL_def T_refl)

lemma RL_trans: "RL s t \<Longrightarrow> RL t u \<Longrightarrow> RL s u"
  by (auto simp: RL_def intro: T_trans)

end

sublocale scan_frame \<subseteq> held: act_frame RL
  by unfold_locales (rule RL_refl, rule RL_trans)

context scan_frame
begin

lemma held_exists: "held.framed (cache_exists t key)"
  by (simp add: cache_exists_def held.framed_read)

lemma held_set: "held.framed (cache_set t key ex)"
  by (auto simp: held.framed_def cache_set_def raise_error_def act_do_def RL_def holding_ok_def T_refl)

lemma held_begin:
  assumes "framed k"
  shows "held.framed (act_bind begin_nested (\<lambda>_. k))"
proof (rule held.framedI)
  fix s
  show "RL s (snd (act_bind begin_nested (\<lambda>_. k) s))"
  proof (cases "session_flush s")
    case (Pair r t)
    have "RL s t" "holding_ok s \<Longrightarrow> session_ok t"
      using flush_holding[of s] Pair by (auto simp: RL_def holding_session)
    then show ?thesis using framedD[OF assms, where s = t]
      by (cases r) (auto simp: act_bind_def begin_nested_def Pair RL_def R_def holding_session intro: T_trans)
  qed
qed

lemmas held_rules = held.framed_get held_exists held_set held.framed_finish held.framed_if held_begin held.framed_bind

lemma closes_then: "closes_well f \<Longrightarrow> (\<And>x. held.framed (k x)) \<Longrightarrow> closes_well (act_bind f k)"
  unfolding closes_well_def
proof (intro allI impI)
  fix s assume f: "\<forall>s. session_ok s \<longrightarrow> holding_ok (snd (f s)) \<and> T (stored s) (stored (snd (f s)))"
    and k: "\<And>x. held.framed (k x)" and s: "session_ok s"
  show "holding_ok (snd (act_bind f k s)) \<and> T (stored s) (stored (snd (act_bind f k s)))"
  proof (cases "f s")
    case (Pair r t)
    then have "holding_ok t" "T (stored s) (stored t)" using f s by auto
    then show ?thesis using held.framedD[OF k, where s = t]
      by (cases r) (auto simp: act_bind_def Pair RL_def intro: T_trans)
  qed
qed

lemma closes_change: "(\<And>t t'. f t = Some t' \<Longrightarrow> T t t') \<Longrightarrow> closes_well (change_rows f)"
  by (auto simp: closes_well_def change_rows_def act_do_def session_ok_def holding_ok_def T_refl)

lemma closes_spawnpoints: "closes_well (spawnpoints env p ts)"
proof -
  have f: "closes_well (act_bind (get_spawndef ids) (\<lambda>known. act_bind (get_current_event x True) (\<lambda>ev.
      act_bind (give (sightings env r ev ws known [])) (\<lambda>(known, added). change_rows (put_spawns known added)))))" for ids x r ws
    unfolding closes_well_def
  proof (intro allI impI)
    fix s assume s: "session_ok s"
    define ev where "ev = (case get_current_event x True s of (Inr e, _) \<Rightarrow> e | _ \<Rightarrow> None)"
    have e: "get_current_event x True s = (Inr ev, s)" by (simp add: ev_def get_current_event_def act_read_def)
    show "holding_ok (snd (act_bind (get_spawndef ids) (\<lambda>known. act_bind (get_current_event x True) (\<lambda>ev.
      act_bind (give (sightings env r ev ws known [])) (\<lambda>(known, added). change_rows (put_spawns known added)))) s)) \<and>
      T (stored s) (stored (snd (act_bind (get_spawndef ids) (\<lambda>known. act_bind (get_current_event x True) (\<lambda>ev.
      act_bind (give (sightings env r ev ws known [])) (\<lambda>(known, added). change_rows (put_spawns known added)))) s)))"
    proof (cases "sightings env r ev ws (filter (\<lambda>(k, sp). k \<in> set ids) (t_spawn (live s))) []")
      case (Inl a)
      then show ?thesis using s by (simp add: act_bind_def get_spawndef_def act_read_def e give_def holding_session T_refl)
    next
      case (Inr ka)
      obtain known added where ka: "ka = (known, added)" by (cases ka)
      have "T (live s) t'" if "put_spawns known added (live s) = Some t'" for t'
        using put_sightings[OF Inr[unfolded ka] that] .
      with s show ?thesis
        by (simp add: act_bind_def get_spawndef_def act_read_def e give_def Inr ka change_rows_def act_do_def session_ok_def holding_ok_def T_refl)
    qed
  qed
  show ?thesis
    unfolding spawnpoints_def
    by (intro f closes_get closes_if closes_bind framed_give closes_framed[OF framed_finish])
qed

lemma closes_stop_details: "closes_well (stop_details env p)"
proof -
  have e: "framed (extract_args_single_stop_details env p)"
    unfolding extract_args_single_stop_details_def by (intro submit_rules)
  have c: "closes_well (act_bind (if ex then change_rows (\<lambda>t. Some (t\<lparr>t_stop := AList.update i st (t_stop t)\<rparr>)) else finish ()) (\<lambda>_.
      get_then p k d (\<lambda>m. act_bind (cache_exists x (key m)) (\<lambda>known. if known then finish True else
      act_bind begin_nested (\<lambda>_. act_bind (if ex then finish True else nested_commit (\<lambda>t. t\<lparr>t_stop := AList.update i st (t_stop t)\<rparr>)) (\<lambda>ok.
      act_bind (if ok then cache_set x (key m) n else finish ()) (\<lambda>_. finish True)))))))" for ex i st k d x key n
  proof (cases ex)
    case False
    then show ?thesis by (intro closes_framed) (auto intro!: submit_rules put_stop simp: act_bind_finish)
  next
    case True
    then show ?thesis
      by (auto simp: act_bind_finish put_stop intro!: closes_then closes_change held_rules framed_bind framed_set framed_finish)
  qed
  show ?thesis
    unfolding stop_details_def Let_def
    by (intro closes_bind[OF e] closes_option closes_prod closes_framed[OF framed_finish] c)
qed

section \<open>The consumer of the queue\<close>

definition RP :: "proc_state \<Rightarrow> proc_state \<Rightarrow> bool" where
  "RP s s' \<longleftrightarrow> R (px_db s) (px_db s')"

lemma RP_refl: "RP s s"
  by (simp add: RP_def R_refl)

lemma RP_trans: "RP s t \<Longrightarrow> RP t u \<Longrightarrow> RP s u"
  unfolding RP_def by (rule R_trans)

end

sublocale scan_frame \<subseteq> proc: act_frame RP
  by unfold_locales (rule RP_refl, rule RP_trans)

context scan_frame
begin

lemma proc_db: "framed f \<Longrightarrow> proc.framed (on_db f)"
  by (simp add: proc.framed_def RP_def on_db_def framed_def split_beta)

lemma proc_other: "proc.framed (ask_mitm f)" "proc.framed (on_mitm m)" "proc.framed (on_stats st)"
  "(\<And>s. px_db (h s) = px_db s) \<Longrightarrow> proc.framed (act_do h)"
  by (auto simp: proc.framed_def RP_def ask_mitm_def on_mitm_def on_stats_def act_do_def R_refl split: prod.split)

lemma in_session_snd: "snd (in_session f s) =
    (let s1 = snd (f (s\<lparr>px_db := snd (session_rollback (px_db s))\<rparr>)) in s1\<lparr>px_db := snd (session_rollback (px_db s1))\<rparr>)"
  by (simp add: in_session_def act_bind_def on_db_def act_finally_def session_rollback_def act_do_def Let_def split: prod.split sum.split)

lemma session_at:
  assumes "\<And>d. session_ok d \<Longrightarrow> stored d = stored (px_db s) \<Longrightarrow> T (stored d) (stored (px_db (snd (f (s\<lparr>px_db := d\<rparr>)))))"
  shows "RP s (snd (in_session f s))"
  using assms[OF holding_rollback[of "px_db s"]] holding_rollback
  by (simp add: RP_def R_def in_session_snd Let_def)

lemma proc_session: "proc.framed f \<Longrightarrow> proc.framed (in_session f)"
  by (rule proc.framedI, rule session_at) (metis proc.framedD RP_def R_def proc_state.select_convs(1) proc_state.surjective proc_state.update_convs(1))

lemma proc_logged: "proc.framed f \<Longrightarrow> proc.framed (logged d f)"
  unfolding logged_def by (rule proc.framed_catch) (auto intro: proc.framed_finish)

lemma proc_submitted:
  assumes f: "closes_well f"
  shows "proc.framed (submitted dflt f)"
  unfolding submitted_def
proof (rule proc.framedI, rule session_at)
  fix s d assume d: "session_ok d"
  obtain r t where rt: "f d = (r, t)" by (cases "f d")
  with f d have t: "holding_ok t" "T (stored d) (stored t)" unfolding closes_well_def by force+
  obtain q u where qu: "session_commit t = (q, u)" by (cases "session_commit t")
  with holding_commit[OF t(1)] t(2) have "T (stored d) (stored u)" by (auto intro: T_trans)
  with t(2) show "T (stored d) (stored (px_db (snd (logged dflt (act_bind (on_db f) (\<lambda>r. act_bind (on_db session_commit) (\<lambda>_. finish r))) (s\<lparr>px_db := d\<rparr>)))))"
    by (cases r; cases q) (simp_all add: logged_def act_catch_def act_bind_def on_db_def rt qu finish_def)
qed

lemma closes_payload: "(\<And>p. closes_well (f p)) \<Longrightarrow> closes_well (payload_then data f)"
  unfolding payload_then_def by (rule closes_index)

lemma proc_task: "proc.framed (gmo_run_task env data ts task g)"
  by (cases task)
    (auto intro!: proc.framed_bind proc_submitted closes_payload proc.framed_finish closes_spawnpoints closes_framed[OF framed_weather]
      closes_framed[OF framed_stops] closes_framed[OF framed_gyms] closes_framed[OF framed_raids] closes_framed[OF framed_cells]
      closes_framed[OF framed_mons] closes_framed[OF framed_mons_nearby] closes_framed[OF framed_bind[OF framed_mon_lure_noiv framed_finish]])

lemma proc_tasks: "proc.framed (gmo_run_tasks env data ts order g)"
  by (induction order arbitrary: g) (auto intro: proc.framed_finish proc.framed_bind proc_task)

lemma proc_gmo: "proc.framed (process_gmo env order data w ts)"
  unfolding process_gmo_def by (intro proc.framed_bind proc_tasks proc.framed_option proc.framed_raise proc_other)

lemma proc_fort_search: "proc.framed (process_fort_search env data w ts)"
  unfolding process_fort_search_def
  by (intro proc_session proc_logged proc.framed_rules proc_other proc_db framed_quest framed_commit)

lemma proc_player_stats: "proc.framed (save_player_stats env w key p lv l)"
  unfolding save_player_stats_def
  by (intro proc.framed_rules proc_other proc_db framed_set) (simp split: option.split)

lemma proc_items: "proc.framed (inventory_items env w key items)"
  by (induction items) (auto intro!: proc.framed_rules proc_player_stats)

lemma proc_inventory: "proc.framed (handle_inventory_data env w data)"
  unfolding handle_inventory_data_def by (intro proc.framed_rules proc_items proc_db framed_exists)

lemma proc_data:
  assumes "brings_encounter data \<Longrightarrow> proc.framed (process_encounter env data w ts) \<and> proc.framed (process_lured_encounter env data w ts)"
  shows "proc.framed (process_data env order ts data w)"
  unfolding process_data_def get_then_def[of data "''type''"]
proof (rule proc.framed_known)
  fix t assume "json_get data ''type'' JNull = Inr t"
  with assms have e: "equals_int t 102 \<Longrightarrow> proc.framed (process_encounter env data w ts)"
    "equals_int t 145 \<Longrightarrow> proc.framed (process_lured_encounter env data w ts)"
    by (auto simp: brings_encounter_def)
  show "proc.framed (get_then data ''raw'' (JBool False) (\<lambda>raw.
     if \<not> truthy t \<or> truthy raw then finish ()
     else if too_old env ts then finish ()
     else if equals_int t 106 then process_gmo env order data w ts
     else if equals_int t 102 then process_encounter env data w ts
     else if equals_int t 145 then process_lured_encounter env data w ts
     else if equals_int t 101 then process_fort_search env data w ts
     else if equals_int t 104 then act_bind (submitted False (payload_then data (stop_details (pc_submit env)))) (\<lambda>_. finish ())
     else if equals_int t 4 then index_then data [''payload''] (handle_inventory_data env w)
     else if equals_int t 1405 then index_then data [''payload''] (\<lambda>p. submitted () (routes (pc_submit env) p ts))
     else if equals_int t 156 then act_bind (submitted False (payload_then data submit_gym_info)) (\<lambda>_. finish ())
     else finish ()))"
    by (rule proc.framed_get)
      (auto intro!: proc.framed_finish proc_gmo e proc_fort_search proc.framed_bind proc.framed_index proc_submitted closes_payload
        closes_stop_details proc_inventory closes_framed[OF framed_routes] closes_framed[OF framed_gym_info])
qed

end

section \<open>Encounters\<close>

locale scan_frame_all = scan_frame +
  assumes put_encounter: "encounter_row j data display ts spid looks texts x (map_of (t_pokemon t) enc) = Inr mon \<Longrightarrow> T t (put_pokemon enc mon t)"
    and put_lure_encounter: "lure_encounter_row data display ts looks texts (map_of (t_pokemon t) enc) = Inr mon \<Longrightarrow> T t (put_pokemon enc mon t)"
begin

lemma ditto_frame: "maybe_save_ditto d enc m data = Inr f \<Longrightarrow> T t (f t)"
  by (auto simp: maybe_save_ditto_def res_bind_Inr insert_ignore_display_def put_display T_refl split: if_splits)

text \<open>What is prepared for an encounter may be written to the tables it was prepared from.\<close>

lemma prepared_at:
  "prepare_iv env ts p s = (Inr (Some (enc, wr, key, d, sh)), s') \<Longrightarrow> s' = s \<and> T (live s) (wr (live s))"
proof -
  assume a: "prepare_iv env ts p s = (Inr (Some (enc, wr, key, d, sh)), s')"
  obtain j data display spid looks texts x mon ditto m where
    "encounter_row j data display ts spid looks texts x (map_of (t_pokemon (live s)) enc) = Inr mon"
    "maybe_save_ditto display enc m data = Inr ditto" "wr = (\<lambda>t. ditto (put_pokemon enc mon t))" "s' = s"
    using a
    by (auto simp: prepare_iv_def get_then_def index_then_def encounter_id_then_def act_bind_Inr give_def finish_def find_row_def
        act_read_def cache_exists_def Let_def split: if_splits)
  moreover from this have "T (live s) (put_pokemon enc mon (live s))" by (intro put_encounter)
  ultimately show ?thesis by (auto intro: T_trans ditto_frame)
qed

lemma framed_prepare: "framed (prepare_iv env ts p)"
  unfolding prepare_iv_def by (intro submit_rules)

lemma framed_mon_iv: "framed (mon_iv env ts p)"
proof (rule framedI)
  fix s
  show "R s (snd (mon_iv env ts p s))"
  proof (cases "prepare_iv env ts p s")
    case (Pair r s1)
    then have s1: "R s s1" using framedD[OF framed_prepare, of s env ts p] by simp
    show ?thesis
    proof (cases "\<exists>x. r = Inr (Some x)")
      case True
      then obtain enc wr key d sh where r: "r = Inr (Some (enc, wr, key, d, sh))" by (metis prod_cases5)
      from prepared_at[OF Pair[unfolded r]] have T: "s1 = s" "T (live s) (wr (live s))" by auto
      have "R s (snd (act_bind (change_rows (\<lambda>t. Some (wr t))) (\<lambda>_. act_bind session_commit (\<lambda>_.
          act_bind (cache_until env key d) (\<lambda>_. finish (Some (enc, sh))))) s))"
        unfolding session_commit_def act_bind_assoc
        by (rule change_flush_bind_at) (use T in \<open>auto intro: framed_bind framed_store framed_cache_until framed_finish\<close>)
      then show ?thesis using T by (simp add: mon_iv_def act_bind_def[of "prepare_iv _ _ _"] Pair r)
    next
      case False
      with s1 show ?thesis
        by (auto simp: mon_iv_def act_bind_def[of "prepare_iv _ _ _"] Pair finish_def split: sum.split option.split)
    qed
  qed
qed

lemma framed_mon_lure_iv: "framed (mon_lure_iv env ts p)"
proof -
  have w: "framed (act_bind (find_row t_pokemon enc) (\<lambda>row.
      act_bind (give (lure_encounter_row data display ts looks texts row)) (\<lambda>mon.
      act_bind (give (maybe_save_ditto display enc m data)) (\<lambda>ditto.
      act_bind (nested_commit (\<lambda>t. ditto (put_pokemon enc mon t))) k))))" if k: "\<And>ok. framed (k ok)"
    for enc data display looks texts m and k :: "bool \<Rightarrow> 'x db"
  proof (rule framedI, rule row_at, rule give_at, rule give_at, rule bind_at)
    fix s :: db_session and row mon ditto
    assume a: "map_of (t_pokemon (live s)) enc = row" "lure_encounter_row data display ts looks texts row = Inr mon"
      "maybe_save_ditto display enc m data = Inr ditto"
    have "T (live s) (put_pokemon enc mon (live s))" by (rule put_lure_encounter) (use a in simp)
    then have "T (live s) (ditto (put_pokemon enc mon (live s)))" by (rule T_trans) (rule ditto_frame[OF a(3)])
    then show "R s (snd (nested_commit (\<lambda>t. ditto (put_pokemon enc mon t)) s))"
      unfolding nested_commit_def by (intro try_write_at) simp
  qed (rule k)
  show ?thesis
    unfolding mon_lure_iv_def Let_def
    by (intro w submit_rules)
qed

lemma proc_encounter: "proc.framed (process_encounter env data w ts)"
  unfolding process_encounter_def payload_then_def
  by (intro proc.framed_rules proc_other proc_session proc_db framed_index framed_mon_iv)

lemma proc_lured_encounter: "proc.framed (process_lured_encounter env data w ts)"
  unfolding process_lured_encounter_def payload_then_def
  by (intro proc.framed_rules proc_other proc_session proc_db framed_rules framed_index framed_mon_lure_iv framed_update_seen framed_commit)

lemma proc_data_all: "proc.framed (process_data env order ts data w)"
  by (rule proc_data) (simp add: proc_encounter proc_lured_encounter)

end

end
