(* ===== verification/ScanSafety.thy ===== *)
theory ScanSafety
  imports ScanFrames
begin

text \<open>
  The properties of the submission of scanned data: what holds over every run of the consumer of the queue, each by an
  interpretation of the frames of \<open>ScanFrames\<close>, and what single methods return.
\<close>

section \<open>Runs of the consumer\<close>

text \<open>Between two messages no session is open.\<close>

definition at_rest :: "consumer \<Rightarrow> bool" where
  "at_rest c \<longleftrightarrow> live (px_db (cs_state c)) = stored (px_db (cs_state c)) \<and> unflushed (px_db (cs_state c)) = None"

abbreviation stored_tables :: "consumer \<Rightarrow> tables" where
  "stored_tables c \<equiv> stored (px_db (cs_state c))"

fun no_encounter :: "received_item option \<Rightarrow> bool" where
  "no_encounter None = True"
| "no_encounter (Some (ts, data, w)) = (\<not> brings_encounter data)"

fun op_no_encounter :: "consumer_op \<Rightarrow> bool" where
  "op_no_encounter (Turn e) = True"
| "op_no_encounter (Put x) = no_encounter x"

lemma turn_state:
  "cs_state (consumer_turn e c) = cs_state c \<or>
   (\<exists>ts data w q. cs_queue c = Some (ts, data, w) # q \<and>
      cs_state (consumer_turn e c) = snd (process_data (fst e) (snd e) ts data w (cs_state c)))"
  by (auto simp: consumer_turn_def split: list.split option.split prod.split sum.split py_error.split)

lemma turn_queue: "set (cs_queue (consumer_turn e c)) \<subseteq> set (cs_queue c)"
  by (auto simp: consumer_turn_def split: list.splits option.splits prod.splits sum.splits py_error.splits)

context scan_frame
begin

lemma step_quiet:
  assumes "\<forall>x \<in> set (cs_queue c). no_encounter x" "op_no_encounter op'"
  shows "RP (cs_state c) (cs_state (consumer_step op' c)) \<and> (\<forall>x \<in> set (cs_queue (consumer_step op' c)). no_encounter x)"
proof (cases op')
  case (Turn e)
  have q: "\<forall>x \<in> set (cs_queue (consumer_turn e c)). no_encounter x" using assms(1) turn_queue by blast
  from turn_state[of e c] show ?thesis
  proof (elim disjE exE conjE)
    fix ts data w q assume "cs_queue c = Some (ts, data, w) # q"
      "cs_state (consumer_turn e c) = snd (process_data (fst e) (snd e) ts data w (cs_state c))"
    moreover from this assms(1) have "\<not> brings_encounter data" by simp
    then have "proc.framed (process_data (fst e) (snd e) ts data w)" by (intro proc_data) simp
    ultimately show ?thesis using q Turn proc.framedD by auto
  qed (use q Turn RP_refl in auto)
next
  case (Put x)
  then show ?thesis using assms RP_refl by auto
qed

lemma run_quiet:
  assumes "\<forall>x \<in> set (cs_queue c). no_encounter x" "\<forall>x \<in> set ops. op_no_encounter x" "at_rest c"
  shows "T (stored_tables c) (stored_tables (consumer_run ops c))"
proof -
  have "RP (cs_state c) (cs_state (fold consumer_step ops c))"
    using assms(1,2)
  proof (induction ops arbitrary: c)
    case (Cons x ops)
    with step_quiet[of c x] have "RP (cs_state c) (cs_state (consumer_step x c))"
      "RP (cs_state (consumer_step x c)) (cs_state (fold consumer_step ops (consumer_step x c)))" by simp_all
    then show ?case using RP_trans by simp
  qed (simp add: RP_refl)
  with assms(3) show ?thesis by (auto simp: RP_def R_def consumer_run_def at_rest_def session_ok_def T_refl)
qed

end

context scan_frame_all
begin

lemma step_framed: "RP (cs_state c) (cs_state (consumer_step op' c))"
proof (cases op')
  case (Turn e)
  from turn_state[of e c] show ?thesis
    using proc.framedD[OF proc_data_all] Turn RP_refl by auto
qed (simp add: RP_refl)

lemma run_framed:
  assumes "at_rest c"
  shows "T (stored_tables c) (stored_tables (consumer_run ops c))"
proof -
  have "RP (cs_state c) (cs_state (fold consumer_step ops c))"
  proof (induction ops arbitrary: c)
    case (Cons x ops)
    show ?case using RP_trans[OF step_framed Cons.IH] by simp
  qed (simp add: RP_refl)
  with assms show ?thesis by (auto simp: RP_def R_def consumer_run_def at_rest_def session_ok_def T_refl)
qed

end

section \<open>Encountered mons\<close>

definition encountered :: "pokemon \<Rightarrow> bool" where
  "encountered p \<longleftrightarrow> pk_seen_type p \<in> {Some encounter, Some lure_encounter}"

text \<open>What only an encounter tells.\<close>

definition encounter_data :: "pokemon \<Rightarrow> json list \<times> mon_seen_type option" where
  "encounter_data p = ([pk_individual_attack p, pk_individual_defense p, pk_individual_stamina p, pk_move_1 p, pk_move_2 p, pk_cp p,
     pk_cp_multiplier p, pk_weight p, pk_height p, pk_catch_prob_1 p, pk_catch_prob_2 p, pk_catch_prob_3 p, pk_size p], pk_seen_type p)"

definition mons_related :: "(pokemon \<Rightarrow> pokemon \<Rightarrow> bool) \<Rightarrow> tables \<Rightarrow> tables \<Rightarrow> bool" where
  "mons_related Q t t' \<longleftrightarrow> (\<forall>enc p. map_of (t_pokemon t) enc = Some p \<longrightarrow> (\<exists>p'. map_of (t_pokemon t') enc = Some p' \<and> Q p p'))"

definition keeps_data :: "pokemon \<Rightarrow> pokemon \<Rightarrow> bool" where
  "keeps_data p p' \<longleftrightarrow> (encountered p \<longrightarrow> encounter_data p' = encounter_data p)"

definition stays_encountered :: "pokemon \<Rightarrow> pokemon \<Rightarrow> bool" where
  "stays_encountered p p' \<longleftrightarrow> (encountered p \<longrightarrow> encountered p')"

lemma mons_related_same: "t_pokemon t' = t_pokemon t \<Longrightarrow> (\<And>p. Q p p) \<Longrightarrow> mons_related Q t t'"
  by (auto simp: mons_related_def)

lemma mons_related_trans: "(\<And>p q r. Q p q \<Longrightarrow> Q q r \<Longrightarrow> Q p r) \<Longrightarrow> mons_related Q t u \<Longrightarrow> mons_related Q u v \<Longrightarrow> mons_related Q t v"
  unfolding mons_related_def by meson

lemma mons_related_put:
  "(\<And>p. map_of (t_pokemon t) enc = Some p \<Longrightarrow> Q p mon) \<Longrightarrow> (\<And>p. Q p p) \<Longrightarrow> mons_related Q t (put_pokemon enc mon t)"
  by (auto simp: mons_related_def put_pokemon_def map_of_update)

lemma put_spawns_other: "put_spawns known added t = Some t' \<Longrightarrow> \<exists>d. t' = t\<lparr>t_spawn := d\<rparr>"
  by (auto simp: put_spawns_def split: if_splits)

lemma set_looks_data: "set_looks m d p = Inr p' \<Longrightarrow> encounter_data p' = encounter_data p"
  by (auto simp: set_looks_def res_bind_Inr encounter_data_def split: if_splits)

lemma encountered_data: "encounter_data p' = encounter_data p \<Longrightarrow> encountered p' = encountered p"
  by (simp add: encounter_data_def encountered_def)

lemma wild_row_data: "wild_row env ts j i x (Some p) = Inr p' \<Longrightarrow> encountered p \<Longrightarrow> encounter_data p' = encounter_data p"
  by (auto simp: wild_row_def res_bind_Inr Let_def encountered_def dest!: set_looks_data simp: encounter_data_def)

lemma nearby_row_data: "nearby_row env ts j pl m w (Some p) = Inr p' \<Longrightarrow> encounter_data p' = encounter_data p"
  by (cases pl) (auto simp: nearby_row_def res_bind_Inr Let_def dest!: set_looks_data simp: encounter_data_def)

lemma lure_wild_row_data: "lure_wild_row f m d ts x (Some p) = Inr p' \<Longrightarrow> encounter_data p' = encounter_data p"
  by (auto simp: lure_wild_row_def res_bind_Inr Let_def encounter_data_def)

lemma encounter_row_encountered: "encounter_row w data d ts i looks texts x row = Inr p \<Longrightarrow> encountered p"
  by (auto simp: encounter_row_def res_bind_Inr encountered_def split: prod.splits)

lemma lure_encounter_row_encountered: "lure_encounter_row data d ts looks texts row = Inr p \<Longrightarrow> encountered p"
  by (auto simp: lure_encounter_row_def res_bind_Inr encountered_def split: prod.splits)

lemma keeps_data_rules: "keeps_data p p" "keeps_data p q \<Longrightarrow> keeps_data q r \<Longrightarrow> keeps_data p r"
  by (auto simp: keeps_data_def dest: encountered_data)

lemma stays_encountered_rules: "stays_encountered p p" "stays_encountered p q \<Longrightarrow> stays_encountered q r \<Longrightarrow> stays_encountered p r"
  by (auto simp: stays_encountered_def)

lemma related_spawns: "put_spawns known added t = Some t' \<Longrightarrow> (\<And>p. Q p p) \<Longrightarrow> mons_related Q t t'"
  by (drule put_spawns_other) (auto intro: mons_related_same)

interpretation kept: scan_frame "mons_related keeps_data"
proof unfold_locales
  note put = mons_related_put[of _ _ keeps_data, OF _ keeps_data_rules(1)]
  show "mons_related keeps_data t u \<Longrightarrow> mons_related keeps_data u v \<Longrightarrow> mons_related keeps_data t v" for t u v
    by (rule mons_related_trans[of keeps_data, OF keeps_data_rules(2)])
  show "put_spawns known added t = Some t' \<Longrightarrow> mons_related keeps_data t t'" for known added t t'
    by (erule related_spawns) (rule keeps_data_rules)
  show "wild_row env ts j spid x (map_of (t_pokemon t) enc) = Inr mon \<Longrightarrow> mons_related keeps_data t (put_pokemon enc mon t)"
    for env ts j spid x t enc mon
    by (rule put) (simp add: keeps_data_def wild_row_data)
  show "nearby_row env ts j place j2 j3 (map_of (t_pokemon t) enc) = Inr mon \<Longrightarrow> mons_related keeps_data t (put_pokemon enc mon t)"
    for env ts j place j2 j3 t enc mon
    by (rule put) (simp add: keeps_data_def nearby_row_data)
  show "lure_wild_row j j2 j3 ts x (map_of (t_pokemon t) enc) = Inr mon \<Longrightarrow> mons_related keeps_data t (put_pokemon enc mon t)"
    for j j2 j3 ts x t enc mon
    by (rule put) (simp add: keeps_data_def lure_wild_row_data)
qed (rule mons_related_same; simp add: put_raid_def keeps_data_rules)+

interpretation seen: scan_frame_all "mons_related stays_encountered"
proof unfold_locales
  note put = mons_related_put[of _ _ stays_encountered, OF _ stays_encountered_rules(1)]
  show "mons_related stays_encountered t u \<Longrightarrow> mons_related stays_encountered u v \<Longrightarrow> mons_related stays_encountered t v" for t u v
    by (rule mons_related_trans[of stays_encountered, OF stays_encountered_rules(2)])
  show "put_spawns known added t = Some t' \<Longrightarrow> mons_related stays_encountered t t'" for known added t t'
    by (erule related_spawns) (rule stays_encountered_rules)
  show "wild_row env ts j spid x (map_of (t_pokemon t) enc) = Inr mon \<Longrightarrow> mons_related stays_encountered t (put_pokemon enc mon t)"
    for env ts j spid x t enc mon
    by (rule put) (metis stays_encountered_def wild_row_data encountered_data)
  show "nearby_row env ts j place j2 j3 (map_of (t_pokemon t) enc) = Inr mon \<Longrightarrow> mons_related stays_encountered t (put_pokemon enc mon t)"
    for env ts j place j2 j3 t enc mon
    by (rule put) (metis stays_encountered_def nearby_row_data encountered_data)
  show "lure_wild_row j j2 j3 ts x (map_of (t_pokemon t) enc) = Inr mon \<Longrightarrow> mons_related stays_encountered t (put_pokemon enc mon t)"
    for j j2 j3 ts x t enc mon
    by (rule put) (metis stays_encountered_def lure_wild_row_data encountered_data)
  show "encounter_row j data display ts spid looks texts x (map_of (t_pokemon t) enc) = Inr mon \<Longrightarrow>
      mons_related stays_encountered t (put_pokemon enc mon t)" for j data display ts spid looks texts x t enc mon
    by (rule put) (simp add: stays_encountered_def encounter_row_encountered)
  show "lure_encounter_row data display ts looks texts (map_of (t_pokemon t) enc) = Inr mon \<Longrightarrow>
      mons_related stays_encountered t (put_pokemon enc mon t)" for data display ts looks texts t enc mon
    by (rule put) (simp add: stays_encountered_def lure_encounter_row_encountered)
qed (rule mons_related_same; simp add: put_raid_def stays_encountered_rules)+

section \<open>Raids\<close>

definition raids_newer :: "tables \<Rightarrow> tables \<Rightarrow> bool" where
  "raids_newer t t' \<longleftrightarrow> (\<forall>g old. map_of (t_raid t) g = Some old \<longrightarrow>
     (\<exists>new. map_of (t_raid t') g = Some new \<and> ra_last_scanned old \<le> ra_last_scanned new))"

lemma raids_newer_same: "t_raid t' = t_raid t \<Longrightarrow> raids_newer t t'"
  by (auto simp: raids_newer_def)

interpretation raid: scan_frame_all raids_newer
proof unfold_locales
  show "raids_newer t u \<Longrightarrow> raids_newer u v \<Longrightarrow> raids_newer t v" for t u v
    unfolding raids_newer_def by (meson order_trans)
  show "put_spawns known added t = Some t' \<Longrightarrow> raids_newer t t'" for known added t t'
    by (drule put_spawns_other) (auto intro: raids_newer_same)
  show "(\<And>old. map_of (t_raid t) i = Some old \<Longrightarrow> ra_last_scanned old \<le> ra_last_scanned r) \<Longrightarrow> raids_newer t (put_raid i r t)" for t i r
    by (auto simp: raids_newer_def put_raid_def map_of_update)
qed (rule raids_newer_same; simp add: put_pokemon_def)+

section \<open>Rows\<close>

text \<open>No table ever loses a row.\<close>

definition rows_kept :: "tables \<Rightarrow> tables \<Rightarrow> bool" where
  "rows_kept t t' \<longleftrightarrow> fst ` set (t_pokemon t) \<subseteq> fst ` set (t_pokemon t') \<and> fst ` set (t_display t) \<subseteq> fst ` set (t_display t') \<and>
     fst ` set (t_seen t) \<subseteq> fst ` set (t_seen t') \<and> fst ` set (t_spawn t) \<subseteq> fst ` set (t_spawn t') \<and>
     fst ` set (t_stop t) \<subseteq> fst ` set (t_stop t') \<and> fst ` set (t_incident t) \<subseteq> fst ` set (t_incident t') \<and>
     fst ` set (t_gym t) \<subseteq> fst ` set (t_gym t') \<and> fst ` set (t_gymdetail t) \<subseteq> fst ` set (t_gymdetail t') \<and>
     fst ` set (t_raid t) \<subseteq> fst ` set (t_raid t') \<and> fst ` set (t_quest t) \<subseteq> fst ` set (t_quest t') \<and>
     fst ` set (t_route t) \<subseteq> fst ` set (t_route t') \<and> fst ` set (t_weather t) \<subseteq> fst ` set (t_weather t') \<and>
     fst ` set (t_cell t) \<subseteq> fst ` set (t_cell t')"

lemma keys_put_spawns: "fst ` set d \<subseteq> fst ` set (fold (\<lambda>(k, sp). AList.update k sp) xs d)"
proof (induction xs arbitrary: d)
  case (Cons x xs)
  have "fst ` set d \<subseteq> fst ` set (AList.update (fst x) (snd x) d)" by (auto simp: keys_update)
  with Cons.IH[of "AList.update (fst x) (snd x) d"] show ?case by (simp add: case_prod_beta)
qed simp

interpretation rows: scan_frame_all rows_kept
proof unfold_locales
  show "rows_kept t u \<Longrightarrow> rows_kept u v \<Longrightarrow> rows_kept t v" for t u v
    unfolding rows_kept_def by (elim conjE, intro conjI; erule subset_trans; assumption)
  show "rows_kept t t'" if "put_spawns known added t = Some t'" for known added t t'
  proof -
    from that have "t' = t\<lparr>t_spawn := fold (\<lambda>(k, sp). AList.update k sp) (known @ added) (t_spawn t)\<rparr>"
      by (simp add: put_spawns_def del: fold_append split: if_splits)
    with keys_put_spawns[of "t_spawn t" "known @ added"] show ?thesis by (simp add: rows_kept_def del: fold_append)
  qed
qed (simp add: rows_kept_def put_pokemon_def put_raid_def keys_update subset_insertI)+

section \<open>The bits of spawn points\<close>

text \<open>For every quarter of the hour exactly one of its two bits is set.\<close>

definition seen_in :: "int \<Rightarrow> nat set" where
  "seen_in d = {i. i < 4 \<and> bit d i}"

definition bits_fit :: "int \<Rightarrow> bool" where
  "bits_fit d \<longleftrightarrow> 0 \<le> d \<and> d < 256 \<and> (\<forall>i < 4. bit d (i + 4) \<noteq> bit d i)"

lemma bits_fit_default: "bits_fit default_spawndef" "seen_in default_spawndef = {}"
proof -
  have "\<forall>i < 4. bit (240 :: int) (i + 4) \<and> \<not> bit (240 :: int) i" by (simp add: numeral_eq_Suc All_less_Suc)
  then show "bits_fit default_spawndef" "seen_in default_spawndef = {}"
    by (auto simp: bits_fit_def seen_in_def default_spawndef_def)
qed

lemma bit_clear_and_set:
  "a < 4 \<Longrightarrow> b < 8 \<Longrightarrow> i < 8 \<Longrightarrow> bit (clear_and_set a b w) i = (i = 7 - b \<or> bit w i \<and> i \<noteq> 7 - a)"
  by (auto simp: clear_and_set_def bit_set_bit_iff bit_unset_bit_iff possible_bit_word)

text \<open>A sighting in a quarter: the bits of the others stay.\<close>

lemma minutesgroup_bits:
  assumes "set_spawn_see_minutesgroup d (Some p) = Inr d'" "4 \<le> p" "p \<le> 7"
  shows "0 \<le> d'" "d' < 256" "i < 8 \<Longrightarrow> bit d' i = (i = 7 - p \<or> bit d i \<and> i \<noteq> 11 - p)"
proof -
  have d: "0 \<le> d" "d < 256" using assms(1) by (auto simp: set_spawn_see_minutesgroup_def split: if_splits)
  have p: "p = 4 \<or> p = 5 \<or> p = 6 \<or> p = 7" using assms(2,3) by auto
  have d': "d' = uint (clear_and_set (p - 4) p (word_of_int d))"
    using assms(1) p d by (auto simp: set_spawn_see_minutesgroup_def)
  show "0 \<le> d'" by (simp add: d')
  show "d' < 256" using uint_lt2p[of "clear_and_set (p - 4) p (word_of_int d)"] by (simp add: d')
  show "bit d' i = (i = 7 - p \<or> bit d i \<and> i \<noteq> 11 - p)" if "i < 8"
    using that p by (auto simp: d' bit_uint_iff bit_clear_and_set bit_word_of_int_iff)
qed

lemma minutesgroup_fits:
  assumes "set_spawn_see_minutesgroup d (Some p) = Inr d'" "4 \<le> p" "p \<le> 7" "bits_fit d"
  shows "bits_fit d' \<and> seen_in d' = insert (7 - p) (seen_in d)"
proof -
  note b = minutesgroup_bits[OF assms(1-3)]
  have "bit d' (i + 4) \<noteq> bit d' i" if "i < 4" for i
    using that assms(2,3,4) b(3)[of i] b(3)[of "i + 4"] by (auto simp: bits_fit_def)
  moreover have "bit d' i = (i = 7 - p \<or> bit d i)" if "i < 4" for i
    using that assms(2,3) b(3)[of i] by auto
  ultimately show ?thesis using b(1,2) assms(2,3) by (auto simp: bits_fit_def seen_in_def)
qed

lemma current_pos: "\<exists>p. get_current_spawndef_pos t = Some p \<and> 4 \<le> p \<and> p \<le> 7"
proof -
  have "minute_of \<lfloor>t\<rfloor> < 60" by (simp add: minute_of_def)
  then show ?thesis by (auto simp: get_current_spawndef_pos_def Let_def)
qed

text \<open>Every row of the table fits, and what was seen once stays seen.\<close>

definition spawn_grows :: "spawn option \<Rightarrow> spawn \<Rightarrow> bool" where
  "spawn_grows row sp \<longleftrightarrow> bits_fit (sp_spawndef sp) \<and> (\<forall>old. row = Some old \<longrightarrow> seen_in (sp_spawndef old) \<subseteq> seen_in (sp_spawndef sp))"

definition spawns_fit :: "tables \<Rightarrow> bool" where
  "spawns_fit t \<longleftrightarrow> dict_wf (t_spawn t) \<and> (\<forall>k sp. map_of (t_spawn t) k = Some sp \<longrightarrow> bits_fit (sp_spawndef sp))"

definition spawns_grow :: "tables \<Rightarrow> tables \<Rightarrow> bool" where
  "spawns_grow t t' \<longleftrightarrow> (spawns_fit t \<longrightarrow> spawns_fit t' \<and>
     (\<forall>k old. map_of (t_spawn t) k = Some old \<longrightarrow> (\<exists>new. map_of (t_spawn t') k = Some new \<and> seen_in (sp_spawndef old) \<subseteq> seen_in (sp_spawndef new))))"

lemma sighting_grows:
  assumes "sighting env received ev row w = Inr sp" "\<And>old. row = Some old \<Longrightarrow> bits_fit (sp_spawndef old)"
  shows "spawn_grows row sp"
proof -
  obtain p where p: "get_current_spawndef_pos (sb_now env) = Some p" "4 \<le> p" "p \<le> 7" using current_pos by blast
  define d where "d = (case row of None \<Rightarrow> default_spawndef | Some o' \<Rightarrow> sp_spawndef o')"
  have fit: "bits_fit d" using assms(2) bits_fit_default by (auto simp: d_def split: option.split)
  obtain n where n: "set_spawn_see_minutesgroup d (Some p) = Inr n" "sp_spawndef sp = n \<or> row \<noteq> None \<and> sp_spawndef sp = d"
    using assms(1) by (auto simp: sighting_def res_bind_Inr p d_def event_fits_def split: if_splits option.splits)
  from minutesgroup_fits[OF n(1) p(2,3) fit] n(2) fit show ?thesis
    by (auto simp: spawn_grows_def d_def split: option.splits)
qed

lemma spawn_grows_trans: "spawn_grows (Some sp) sp' \<Longrightarrow> spawn_grows row sp \<Longrightarrow> spawn_grows row sp'"
  by (auto simp: spawn_grows_def)

lemma sightings_grow:
  assumes "sightings env received ev ws known added = Inr (known', added')"
    and "\<And>k sp. map_of known k = Some sp \<Longrightarrow> spawn_grows (Some (f k)) sp" "\<And>k sp. (k, sp) \<in> set added \<Longrightarrow> spawn_grows None sp"
    and "dict_wf known"
  shows "(\<forall>k sp. map_of known' k = Some sp \<longrightarrow> spawn_grows (Some (f k)) sp) \<and> (\<forall>(k, sp) \<in> set added'. spawn_grows None sp) \<and>
    dict_wf known' \<and> fst ` set known' = fst ` set known"
  using assms
proof (induction ws arbitrary: known added)
  case (Cons w ws)
  from Cons.prems(1) obtain i sp where i: "sighting env received ev (map_of known i) w = Inr sp"
    and rest: "(if map_of known i = None then sightings env received ev ws known (added @ [(i, sp)])
      else sightings env received ev ws (AList.update i sp known) added) = Inr (known', added')"
    by (auto simp: res_bind_Inr)
  have g: "spawn_grows (map_of known i) sp"
    by (rule sighting_grows[OF i]) (use Cons.prems(2) in \<open>auto simp: spawn_grows_def\<close>)
  show ?case
  proof (cases "map_of known i")
    case None
    show ?thesis
    proof (rule Cons.IH)
      show "sightings env received ev ws known (added @ [(i, sp)]) = Inr (known', added')" using rest None by simp
      show "spawn_grows None sp'" if "(k, sp') \<in> set (added @ [(i, sp)])" for k sp' using that g None Cons.prems(3) by auto
    qed (use Cons.prems in auto)
  next
    case (Some old)
    have "i \<in> fst ` set known" using Some map_of_None_keys[of known i] by simp
    then have keys: "fst ` set (AList.update i sp known) = fst ` set known" by (simp add: keys_update insert_absorb)
    have "(\<forall>k sp. map_of known' k = Some sp \<longrightarrow> spawn_grows (Some (f k)) sp) \<and> (\<forall>(k, sp) \<in> set added'. spawn_grows None sp) \<and>
      dict_wf known' \<and> fst ` set known' = fst ` set (AList.update i sp known)"
    proof (rule Cons.IH)
      show "sightings env received ev ws (AList.update i sp known) added = Inr (known', added')" using rest Some by simp
      show "spawn_grows (Some (f k)) sp'" if "map_of (AList.update i sp known) k = Some sp'" for k sp'
        using that g Some Cons.prems(2) spawn_grows_trans by (auto simp: map_of_update split: if_splits)
    qed (use Cons.prems in auto)
    with keys show ?thesis by simp
  qed
qed auto

lemma map_of_fold_put:
  "distinct (map fst xs) \<Longrightarrow> map_of (fold (\<lambda>(k, v). AList.update k v) xs d) k = (case map_of xs k of None \<Rightarrow> map_of d k | Some v \<Rightarrow> Some v)"
proof (induction xs arbitrary: d)
  case (Cons x xs)
  then have "map_of xs (fst x) = None" by (auto simp: map_of_eq_None_iff)
  with Cons show ?case by (auto simp: case_prod_beta map_of_update split: option.split)
qed simp

lemma dict_wf_fold_put: "dict_wf d \<Longrightarrow> dict_wf (fold (\<lambda>(k, v). AList.update k v) xs d)"
  by (induction xs arbitrary: d) (auto simp: case_prod_beta)

lemma map_of_filter_keys: "map_of (filter (\<lambda>(k, v). k \<in> K) d) k = (if k \<in> K then map_of d k else None)"
  by (induction d) auto

lemma spawns_grow_sightings:
  assumes "sightings env received ev ws (filter (\<lambda>(k, sp). k \<in> K) (t_spawn t)) [] = Inr (known, added)"
    and "put_spawns known added t = Some t'"
  shows "spawns_grow t t'"
  unfolding spawns_grow_def
proof (intro impI)
  assume fit: "spawns_fit t"
  define f where "f k = the (map_of (t_spawn t) k)" for k
  have wf: "dict_wf (filter (\<lambda>(k, sp). k \<in> K) (t_spawn t))"
    using fit by (auto simp: spawns_fit_def dict_wf_def distinct_map_filter)
  have g: "(\<forall>k sp. map_of known k = Some sp \<longrightarrow> spawn_grows (Some (f k)) sp) \<and> (\<forall>(k, sp) \<in> set added. spawn_grows None sp) \<and>
      dict_wf known \<and> fst ` set known = fst ` set (filter (\<lambda>(k, sp). k \<in> K) (t_spawn t))"
    by (rule sightings_grow[OF assms(1)])
      (use fit wf in \<open>auto simp: map_of_filter_keys f_def spawn_grows_def spawns_fit_def split: if_splits\<close>)
  from assms(2) have added: "distinct (map fst added)" "\<forall>k \<in> fst ` set added. map_of (t_spawn t) k = None"
    and t': "t_spawn t' = fold (\<lambda>(k, sp). AList.update k sp) (known @ added) (t_spawn t)"
    by (auto simp: put_spawns_def simp del: fold_append split: if_splits)
  have sub: "fst ` set known \<subseteq> fst ` set (t_spawn t)" using g by auto
  have "fst ` set known \<inter> fst ` set added = {}" using added(2) sub unfolding map_of_None_keys by blast
  then have "distinct (map fst (known @ added))" using g added(1) by (simp add: dict_wf_def)
  then have at: "map_of (t_spawn t') k = (case map_of (known @ added) k of None \<Rightarrow> map_of (t_spawn t) k | Some v \<Rightarrow> Some v)" for k
    unfolding t' by (rule map_of_fold_put)
  have new: "spawn_grows (map_of (t_spawn t) k) sp" if "map_of (known @ added) k = Some sp" for k sp
  proof (cases "map_of known k")
    case None
    with that have "(k, sp) \<in> set added" by (auto simp: map_add_def split: option.splits dest: map_of_SomeD)
    then show ?thesis using g added by force
  next
    case (Some sp1)
    then have "k \<in> fst ` set (t_spawn t)" using sub map_of_None_keys[of known k] by auto
    then have "map_of (t_spawn t) k = Some (f k)" using map_of_None_keys[of "t_spawn t" k] by (auto simp: f_def)
    moreover have "k \<notin> fst ` set added" using added calculation by auto
    then have "map_of (known @ added) k = map_of known k" using map_of_None_keys[of added k] by (simp add: map_add_def split: option.split)
    ultimately show ?thesis using g Some that by auto
  qed
  have "dict_wf (t_spawn t')" using fit unfolding t' by (intro dict_wf_fold_put) (simp add: spawns_fit_def)
  moreover have "bits_fit (sp_spawndef sp)" if "map_of (t_spawn t') k = Some sp" for k sp
    using that new fit by (auto simp: at spawns_fit_def spawn_grows_def split: option.splits)
  moreover have "\<exists>n. map_of (t_spawn t') k = Some n \<and> seen_in (sp_spawndef old) \<subseteq> seen_in (sp_spawndef n)"
    if "map_of (t_spawn t) k = Some old" for k old
    using that new by (auto simp: at spawn_grows_def split: option.split)
  ultimately show "spawns_fit t' \<and> (\<forall>k old. map_of (t_spawn t) k = Some old \<longrightarrow>
      (\<exists>new. map_of (t_spawn t') k = Some new \<and> seen_in (sp_spawndef old) \<subseteq> seen_in (sp_spawndef new)))"
    by (auto simp: spawns_fit_def)
qed

lemma spawns_grow_same: "t_spawn t' = t_spawn t \<Longrightarrow> spawns_grow t t'"
  by (auto simp: spawns_grow_def spawns_fit_def)

interpretation bits: scan_frame_all spawns_grow
proof unfold_locales
  show "spawns_grow t u \<Longrightarrow> spawns_grow u v \<Longrightarrow> spawns_grow t v" for t u v
    unfolding spawns_grow_def by (meson order_trans)
qed ((rule spawns_grow_same; simp add: put_pokemon_def put_raid_def) | (rule spawns_grow_sightings; assumption))+

section \<open>What holds over every run\<close>

text \<open>
  C2. Over any run of the consumer with messages that bring no encounter (maps, stops, gyms, routes, quests, inventories; in any
  order of their tasks, and whatever writes the database refuses), a mon that has been encountered keeps what the encounter told:
  its IVs, moves, CP, size, catch probabilities and its seen type.
\<close>

theorem iv_data_kept:
  assumes "at_rest c" "\<forall>x \<in> set (cs_queue c). no_encounter x" "\<forall>x \<in> set ops. op_no_encounter x"
    and "map_of (t_pokemon (stored_tables c)) enc = Some p" "encountered p"
  shows "\<exists>p'. map_of (t_pokemon (stored_tables (consumer_run ops c))) enc = Some p' \<and> encounter_data p' = encounter_data p"
  using kept.run_quiet[OF assms(2,3,1)] assms(4,5) by (auto simp: mons_related_def keeps_data_def)

text \<open>
  Over any run of the consumer with any messages a mon that has been encountered counts as encountered for ever: no sighting
  of it in a map, near a stop or at a lure takes this back.
\<close>

theorem encountered_stays:
  assumes "at_rest c" "map_of (t_pokemon (stored_tables c)) enc = Some p" "encountered p"
  shows "\<exists>p'. map_of (t_pokemon (stored_tables (consumer_run ops c))) enc = Some p' \<and> encountered p'"
  using seen.run_framed[OF assms(1), of ops] assms(2,3) by (auto simp: mons_related_def stays_encountered_def)

text \<open>
  C6. Over any run of the consumer the raid of a gym is never replaced by what an older scan saw, in whatever order the maps
  arrive.
\<close>

theorem raids_never_older:
  assumes "at_rest c" "map_of (t_raid (stored_tables c)) g = Some old"
  shows "\<exists>new. map_of (t_raid (stored_tables (consumer_run ops c))) g = Some new \<and> ra_last_scanned old \<le> ra_last_scanned new"
  using raid.run_framed[OF assms(1), of ops] assms(2) by (auto simp: raids_newer_def)

text \<open>
  C7. The table of spawn points is well formed over any run of the consumer: every id has one row, its bits are within a byte, for
  every quarter of the hour exactly one of the two bits is set, and a quarter a spawn point was once seen in stays.
\<close>

theorem spawn_bits_well_formed:
  assumes "at_rest c" "spawns_fit (stored_tables c)"
  shows "spawns_fit (stored_tables (consumer_run ops c)) \<and>
    (\<forall>k old. map_of (t_spawn (stored_tables c)) k = Some old \<longrightarrow> (\<exists>new. map_of (t_spawn (stored_tables (consumer_run ops c))) k = Some new \<and>
       seen_in (sp_spawndef old) \<subseteq> seen_in (sp_spawndef new)))"
  using bits.run_framed[OF assms(1), of ops] assms(2) by (auto simp: spawns_grow_def)

text \<open>No table loses a row, either.\<close>

lemma no_row_is_lost: "at_rest c \<Longrightarrow> rows_kept (stored_tables c) (stored_tables (consumer_run ops c))"
  by (rule rows.run_framed)

section \<open>What single methods do\<close>

text \<open>Sightings at a sequence of positions, from the default bits.\<close>

fun see_at :: "nat list \<Rightarrow> int \<Rightarrow> int result" where
  "see_at [] d = Inr d"
| "see_at (p # ps) d = res_bind (set_spawn_see_minutesgroup d (Some p)) (see_at ps)"

lemma see_at_fits:
  "bits_fit d \<Longrightarrow> set ps \<subseteq> {4..7} \<Longrightarrow> \<exists>d'. see_at ps d = Inr d' \<and> bits_fit d' \<and> seen_in d' = seen_in d \<union> (\<lambda>p. 7 - p) ` set ps"
proof (induction ps arbitrary: d)
  case (Cons p ps)
  from Cons.prems(1) obtain d1 where d1: "set_spawn_see_minutesgroup d (Some p) = Inr d1"
    by (auto simp: set_spawn_see_minutesgroup_def bits_fit_def Let_def)
  with Cons.prems minutesgroup_fits[OF d1] have "bits_fit d1" "seen_in d1 = insert (7 - p) (seen_in d)" by auto
  with Cons.IH[of d1] Cons.prems(2) d1 show ?case by auto
qed simp

lemma bits_fit_15: "bits_fit d \<Longrightarrow> d = 15 \<longleftrightarrow> seen_in d = {0, 1, 2, 3}"
proof -
  assume fit: "bits_fit d"
  have all8: "(\<forall>i < 8. P i) \<longleftrightarrow> P 0 \<and> P 1 \<and> P 2 \<and> P 3 \<and> P 4 \<and> P 5 \<and> P 6 \<and> P (7::nat)" for P
    by (auto simp: numeral_eq_Suc All_less_Suc)
  have all4: "(\<forall>i < 4. P i) \<longleftrightarrow> P 0 \<and> P 1 \<and> P 2 \<and> P (3::nat)" for P
    by (auto simp: numeral_eq_Suc All_less_Suc)
  have "d = 15 \<longleftrightarrow> take_bit 8 d = take_bit 8 15"
    using fit by (simp add: bits_fit_def take_bit_int_eq_self)
  also have "\<dots> \<longleftrightarrow> (\<forall>i < 8. bit d i = bit (15 :: int) i)"
    by (simp only: bit_eq_iff bit_take_bit_iff) auto
  also have "\<dots> \<longleftrightarrow> bit d 0 \<and> bit d 1 \<and> bit d 2 \<and> bit d 3 \<and> \<not> bit d 4 \<and> \<not> bit d 5 \<and> \<not> bit d 6 \<and> \<not> bit d 7"
    unfolding all8 by simp
  also have "\<dots> \<longleftrightarrow> (\<forall>i < 4. bit d i)"
    using fit unfolding all4 bits_fit_def by auto
  also have "\<dots> \<longleftrightarrow> seen_in d = {0, 1, 2, 3}"
    unfolding all4 by (auto simp: seen_in_def)
  finally show ?thesis .
qed

text \<open>
  The bits of a spawn point record the quarters it was seen in: whatever the order and the number of the sightings, they never
  fail, and the value is 15, which the rest of the code takes for a spawn of an hour, exactly when it was seen in all four.
\<close>

theorem spawndef_15_iff_all_quarters:
  assumes "set ps \<subseteq> {4..7}"
  shows "\<exists>d. see_at ps default_spawndef = Inr d \<and> 0 \<le> d \<and> d < 256 \<and> (d = 15 \<longleftrightarrow> {4..7} \<subseteq> set ps)"
proof -
  obtain d where d: "see_at ps default_spawndef = Inr d" "bits_fit d" "seen_in d = (\<lambda>p. 7 - p) ` set ps"
    using see_at_fits[OF bits_fit_default(1) assms] bits_fit_default(2) by auto
  have "inj_on (\<lambda>p. 7 - p) {4..7::nat}" by (auto simp: inj_on_def)
  moreover have "{4..7} = {4, 5, 6, 7::nat}" by auto
  then have "(\<lambda>p. 7 - p) ` {4..7} = {0, 1, 2, 3::nat}" by auto
  ultimately have "(\<lambda>p. 7 - p) ` set ps = {0, 1, 2, 3} \<longleftrightarrow> set ps = {4..7}"
    using inj_on_image_eq_iff[of "\<lambda>p. 7 - p" "{4..7}" "set ps" "{4..7}"] assms by simp
  with assms have "(\<lambda>p. 7 - p) ` set ps = {0, 1, 2, 3} \<longleftrightarrow> {4..7} \<subseteq> set ps" by auto
  then show ?thesis using d by (auto simp: bits_fit_15 bits_fit_def)
qed

section \<open>What a map reports\<close>

text \<open>The ids of the wild mons of a map.\<close>

definition reported :: "json \<Rightarrow> int list \<Rightarrow> bool" where
  "reported map_proto ids \<longleftrightarrow> (\<exists>cells. json_get map_proto ''cells'' JNull = Inr cells \<and>
     (if truthy cells then \<exists>wilds raw. wild_mons_of cells = Inr wilds \<and>
          res_map (\<lambda>w. res_bind (json_index w ''encounter_id'') json_int) wilds = Inr raw \<and> ids = map unsigned_id raw
      else ids = []))"

lemma submit_wild_id:
  "submit_wild env ts w s = (Inr ids, s') \<Longrightarrow> \<exists>e. res_bind (json_index w ''encounter_id'') json_int = Inr e \<and> ids = [unsigned_id e]"
  by (auto simp: submit_wild_def index_then_def encounter_id_then_def act_bind_Inr give_def finish_def Let_def res_bind_Inr split: if_splits)

lemma mons_report:
  assumes "mons env ts p s = (Inr ids, s')"
  shows "reported p ids"
proof -
  obtain cells where cells: "json_get p ''cells'' JNull = Inr cells"
    using assms by (auto simp: mons_def get_then_def act_bind_Inr give_def)
  show ?thesis
  proof (cases "truthy cells")
    case False
    with assms cells show ?thesis by (simp add: mons_def get_then_def act_bind_def give_def finish_def reported_def)
  next
    case True
    define g where "g cell = res_bind (res_bind (json_index cell ''wild_pokemon'') json_iter)
        (\<lambda>ws. res_bind (res_map (\<lambda>w. res_bind (json_index w ''encounter_id'') json_int) ws) (\<lambda>raw. Inr (ws, raw)))" for cell
    obtain cs where cs: "json_iter cells = Inr cs" and gather:
      "act_gather (\<lambda>cell. index_then cell [''wild_pokemon''] (\<lambda>wilds. gather_from wilds (submit_wild env ts))) cs s = (Inr ids, s')"
      using assms cells True by (auto simp: mons_def get_then_def gather_from_def act_bind_Inr give_def)
    have "\<exists>zs. res_map g cs = Inr zs \<and> ids = concat (map (\<lambda>(ws, raw). map unsigned_id raw) zs)"
    proof (rule gather_maps[OF gather])
      fix cell t y u
      assume "index_then cell [''wild_pokemon''] (\<lambda>wilds. gather_from wilds (submit_wild env ts)) t = (Inr y, u)"
      then obtain wilds ws where w: "json_index cell ''wild_pokemon'' = Inr wilds" "json_iter wilds = Inr ws"
        and y: "act_gather (submit_wild env ts) ws t = (Inr y, u)"
        by (auto simp: index_then_def gather_from_def act_bind_Inr give_def res_bind_Inr)
      have "\<exists>raw. res_map (\<lambda>w. res_bind (json_index w ''encounter_id'') json_int) ws = Inr raw \<and> y = concat (map (\<lambda>e. [unsigned_id e]) raw)"
        by (rule gather_maps[OF y]) (rule submit_wild_id)
      with w show "\<exists>z. g cell = Inr z \<and> y = (case z of (ws, raw) \<Rightarrow> map unsigned_id raw)"
        by (auto simp: g_def)
    qed
    then obtain zs where zs: "res_map g cs = Inr zs" "ids = concat (map (\<lambda>(ws, raw). map unsigned_id raw) zs)" by blast
    have "res_map (\<lambda>cell. res_bind (json_index cell ''wild_pokemon'') json_iter) cs = Inr (map fst zs) \<and>
        res_map (\<lambda>w. res_bind (json_index w ''encounter_id'') json_int) (concat (map fst zs)) = Inr (concat (map snd zs))"
      using zs(1)
    proof (induction cs arbitrary: zs)
      case (Cons c cs)
      have app: "res_map f xs = Inr a \<Longrightarrow> res_map f ys = Inr b \<Longrightarrow> res_map f (xs @ ys) = Inr (a @ b)" for f :: "json \<Rightarrow> int result" and xs ys a b
        by (induction xs arbitrary: a) (auto simp: res_bind_Inr)
      from Cons.prems obtain z us where z: "g c = Inr z" and us: "res_map g cs = Inr us" "zs = z # us"
        by (auto simp: res_bind_Inr)
      from z obtain ws raw where "res_bind (json_index c ''wild_pokemon'') json_iter = Inr ws"
        "res_map (\<lambda>w. res_bind (json_index w ''encounter_id'') json_int) ws = Inr raw" "z = (ws, raw)"
        by (auto simp: res_bind_Inr g_def)
      note c = this us
      with Cons.IH[OF us(1)] show ?case by (auto intro: app)
    qed simp
    then show ?thesis
      using cells True cs zs(2) by (auto simp: reported_def wild_mons_of_def case_prod_unfold map_concat o_def)
  qed
qed

lemma submitted_result:
  "submitted d f s = (Inr x, s') \<Longrightarrow> x = d \<or> (\<exists>t u. f t = (Inr x, u))"
  by (auto simp: submitted_def in_session_def logged_def act_bind_def on_db_def act_finally_def act_catch_def finish_def
      session_rollback_def act_do_def split: prod.splits sum.splits)

lemma submitted_returns: "\<exists>x s'. submitted d f s = (Inr x, s')"
  by (auto simp: submitted_def in_session_def logged_def act_bind_def on_db_def act_finally_def act_catch_def finish_def
      session_rollback_def act_do_def split: prod.split sum.split)

lemma submitted_stats: "px_stats (snd (submitted d f s)) = px_stats s"
  by (auto simp: submitted_def in_session_def logged_def act_bind_def on_db_def act_finally_def act_catch_def finish_def
      session_rollback_def act_do_def split: prod.split sum.split)

definition wilds_reported :: "json \<Rightarrow> gmo_found \<Rightarrow> bool" where
  "wilds_reported data g \<longleftrightarrow> gf_wild g = [] \<or> (\<exists>p. json_index data ''payload'' = Inr p \<and> reported p (gf_wild g))"

lemma run_task_reports:
  assumes "wilds_reported data g"
  shows "\<exists>g' s'. gmo_run_task env data ts task g s = (Inr g', s') \<and> wilds_reported data g' \<and> px_stats s' = px_stats s"
proof -
  have step: "\<exists>g' s'. act_bind (submitted d f) (\<lambda>x. finish (k x)) s = (Inr g', s') \<and> wilds_reported data g' \<and> px_stats s' = px_stats s"
    if k: "\<And>x t u. x = d \<or> f t = (Inr x, u) \<Longrightarrow> wilds_reported data (k x)" for d and f :: "'x db" and k
  proof -
    obtain x s' where x: "submitted d f s = (Inr x, s')" using submitted_returns[of d f s] by blast
    with submitted_result[OF x] submitted_stats[of d f s] k show ?thesis by (auto simp: act_bind_def finish_def)
  qed
  have m: "wilds_reported data (g\<lparr>gf_wild := ids\<rparr>)" if "ids = [] \<or> payload_then data (mons e ts) t = (Inr ids, u)" for ids e t u
    using that by (auto simp: wilds_reported_def payload_then_def index_then_def act_bind_Inr give_def res_bind_Inr dest: mons_report)
  have o': "wilds_reported data (g\<lparr>gf_raids := n\<rparr>)" "wilds_reported data (g\<lparr>gf_lured := l\<rparr>)"
      "wilds_reported data (g\<lparr>gf_nearby_cell := c, gf_nearby_stop := st\<rparr>)" for n l c st
    using assms by (auto simp: wilds_reported_def)
  have f: "\<exists>g' s'. finish g s = (Inr g', s') \<and> wilds_reported data g' \<and> px_stats s' = px_stats s" using assms by (simp add: finish_def)
  have pair: "(\<lambda>(c, st). finish (g\<lparr>gf_nearby_cell := c, gf_nearby_stop := st\<rparr>)) =
      (\<lambda>x. finish (g\<lparr>gf_nearby_cell := fst x, gf_nearby_stop := snd x\<rparr>))" by auto
  show ?thesis
    by (cases task) (simp_all only: gmo_run_task.simps pair if_split, auto intro!: step m o' f assms)
qed


section \<open>Refused encounters\<close>

text \<open>What an action does does not depend on the conflicts that lie ahead.\<close>

definition blind :: "'a db \<Rightarrow> bool" where
  "blind f \<longleftrightarrow> (\<forall>s cs. f (s\<lparr>conflicts := cs\<rparr>) = (fst (f s), (snd (f s))\<lparr>conflicts := cs\<rparr>))"

lemma blind_bind: "blind f \<Longrightarrow> (\<And>x. blind (k x)) \<Longrightarrow> blind (act_bind f k)"
  by (simp add: blind_def act_bind_def split_beta split: sum.split)

lemma blind_simple: "blind (give r)" "blind (finish x)" "blind (cache_exists t key)"
  "blind (find_row tab i)"
  by (simp_all add: blind_def give_def finish_def cache_exists_def find_row_def act_read_def)

lemma blind_index: "(\<And>x. blind (k x)) \<Longrightarrow> blind (index_then j ks k)" and blind_get: "(\<And>x. blind (k x)) \<Longrightarrow> blind (get_then j key d k)"
  and blind_id: "(\<And>i. blind (k' i)) \<Longrightarrow> blind (encounter_id_then j k')"
  unfolding index_then_def get_then_def encounter_id_then_def by (intro blind_bind blind_simple; assumption)+

lemma blind_if: "blind f \<Longrightarrow> blind g \<Longrightarrow> blind (if b then f else g)"
  by simp

lemma blind_prepare: "blind (prepare_iv env ts p)"
  unfolding prepare_iv_def Let_def
  by (intro blind_get blind_index blind_id blind_if blind_bind blind_simple)

lemma mon_iv_outcome:
  assumes "prepare_iv env ts p d = (Inr (Some (enc, wr, key, desp, sh)), d)" "live d = stored d" "unflushed d = None"
  shows "mon_iv env ts p (d\<lparr>conflicts := True # cs\<rparr>) = (Inl IntegrityError, d\<lparr>conflicts := cs\<rparr>)"
    and "\<exists>d'. mon_iv env ts p (d\<lparr>conflicts := []\<rparr>) = (Inr (Some (enc, sh)), d') \<and> stored d' = wr (stored d)"
proof -
  have prep: "prepare_iv env ts p (d\<lparr>conflicts := cs\<rparr>) = (Inr (Some (enc, wr, key, desp, sh)), d\<lparr>conflicts := cs\<rparr>)" for cs
    using blind_prepare[of env ts p] assms(1) by (simp add: blind_def)
  show "mon_iv env ts p (d\<lparr>conflicts := True # cs\<rparr>) = (Inl IntegrityError, d\<lparr>conflicts := cs\<rparr>)"
    using assms(2,3)
    by (simp add: mon_iv_def act_bind_def prep change_rows_def act_do_def session_commit_def session_flush_def act_read_def
        try_write_def session_rollback_def raise_error_def)
  show "\<exists>d'. mon_iv env ts p (d\<lparr>conflicts := []\<rparr>) = (Inr (Some (enc, sh)), d') \<and> stored d' = wr (stored d)"
    using assms(2,3)
    by (simp add: mon_iv_def act_bind_def prep change_rows_def act_do_def session_commit_def session_flush_def act_read_def
        try_write_def finish_def cache_until_def Let_def cache_set_def)
qed

text \<open>A message with an encounter the consumer works on.\<close>

definition is_encounter :: "proc_env \<Rightarrow> int \<Rightarrow> json \<Rightarrow> json \<Rightarrow> bool" where
  "is_encounter env ts data p \<longleftrightarrow> (\<exists>t raw. json_get data ''type'' JNull = Inr t \<and> equals_int t 102 \<and> \<not> equals_int t 106 \<and> truthy t \<and>
     json_get data ''raw'' (JBool False) = Inr raw \<and> \<not> truthy raw) \<and> \<not> too_old env ts \<and> json_index data ''payload'' = Inr p"

lemma process_is_encounter:
  "is_encounter env ts data p \<Longrightarrow> process_data env order ts data w = process_encounter env data w ts"
  by (auto simp: is_encounter_def process_data_def get_then_def act_bind_def give_def)

lemma encounter_outcome:
  assumes "is_encounter env ts data p" "30 \<le> pd_level (entry_at PlayerData_init w (px_mitm s))"
    and "prepare_iv (pc_submit env) ts p d = (Inr (Some (enc, wr, key, desp, sh)), d)" "live d = stored d" "unflushed d = None"
  shows "process_data env order ts data w (s\<lparr>px_db := d\<lparr>conflicts := True # cs\<rparr>\<rparr>) =
      (Inl IntegrityError, s\<lparr>px_db := d\<lparr>conflicts := cs\<rparr>, px_mitm := ensure PlayerData_init w (px_mitm s)\<rparr>)"
    and "\<exists>s'. process_data env order ts data w (s\<lparr>px_db := d\<lparr>conflicts := []\<rparr>\<rparr>) = (Inr (), s') \<and> stored (px_db s') = wr (stored d)"
proof -
  have roll: "session_rollback (d\<lparr>conflicts := cs\<rparr>) = (Inr (), d\<lparr>conflicts := cs\<rparr>)" for cs
    using assms(4,5) by (cases d) (simp add: session_rollback_def act_do_def)
  have pay: "payload_then data f = f p" for f :: "json \<Rightarrow> 'x db"
    using assms(1) by (auto simp: is_encounter_def payload_then_def index_then_def act_bind_def give_def fun_eq_iff)
  note m = mon_iv_outcome[OF assms(3-5)]
  show "process_data env order ts data w (s\<lparr>px_db := d\<lparr>conflicts := True # cs\<rparr>\<rparr>) =
      (Inl IntegrityError, s\<lparr>px_db := d\<lparr>conflicts := cs\<rparr>, px_mitm := ensure PlayerData_init w (px_mitm s)\<rparr>)"
    unfolding process_is_encounter[OF assms(1)]
    using assms(2) by (simp add: process_encounter_def act_bind_def ask_mitm_def handler_get_level_def handler_get_def in_session_def
        on_db_def act_finally_def roll pay m(1))
  obtain d' where d': "mon_iv (pc_submit env) ts p (d\<lparr>conflicts := []\<rparr>) = (Inr (Some (enc, sh)), d')" "stored d' = wr (stored d)"
    using m(2) by blast
  have rb: "session_rollback d' = (Inr (), d'\<lparr>live := stored d', unflushed := None\<rparr>)"
    by (simp add: session_rollback_def act_do_def)
  show "\<exists>s'. process_data env order ts data w (s\<lparr>px_db := d\<lparr>conflicts := []\<rparr>\<rparr>) = (Inr (), s') \<and> stored (px_db s') = wr (stored d)"
    unfolding process_is_encounter[OF assms(1)]
    using assms(2) by (simp add: process_encounter_def act_bind_def ask_mitm_def handler_get_level_def handler_get_def in_session_def
        on_db_def act_finally_def roll pay d' rb act_do_def on_stats_def finish_def)
qed

text \<open>
  A refused encounter is not lost: when the database refuses the first \<open>n\<close> writes, the message is back in the queue after
  each of the first \<open>n\<close> turns, with nothing written, and after turn \<open>n + 1\<close> it is gone and the row of the mon is stored.
\<close>

lemma refused_encounter_run:
  assumes "is_encounter env ts data p" "30 \<le> pd_level (entry_at PlayerData_init w (px_mitm s))"
    and "prepare_iv (pc_submit env) ts p (px_db s) = (Inr (Some (enc, wr, key, desp, sh)), px_db s)"
    and "live (px_db s) = stored (px_db s)" "unflushed (px_db s) = None"
    and "c = \<lparr>cs_queue = [Some (ts, data, w)], cs_running = True, cs_state = s\<lparr>px_db := (px_db s)\<lparr>conflicts := replicate n True\<rparr>\<rparr>\<rparr>"
  shows "(\<forall>k \<le> n. cs_queue ((consumer_turn (env, order) ^^ k) c) = [Some (ts, data, w)] \<and>
       stored_tables ((consumer_turn (env, order) ^^ k) c) = stored (px_db s)) \<and>
    cs_queue ((consumer_turn (env, order) ^^ Suc n) c) = [] \<and>
    stored_tables ((consumer_turn (env, order) ^^ Suc n) c) = wr (stored (px_db s))"
proof -
  define M where "M k = (if k = (0::nat) then px_mitm s else ensure PlayerData_init w (px_mitm s))" for k
  define after where "after k = \<lparr>cs_queue = [Some (ts, data, w)], cs_running = True,
      cs_state = s\<lparr>px_mitm := M k, px_db := (px_db s)\<lparr>conflicts := replicate (n - k) True\<rparr>\<rparr>\<rparr>" for k
  have ens: "ensure PlayerData_init w (ensure PlayerData_init w m) = ensure PlayerData_init w m" for m
    by (simp add: ensure_def dict_simps split: option.split)
  have M: "M 0 = px_mitm s" "ensure PlayerData_init w (M k) = M (Suc k)" for k by (simp_all add: M_def ens)
  have lvl: "30 \<le> pd_level (entry_at PlayerData_init w (px_mitm (s\<lparr>px_mitm := M k\<rparr>)))" for k
    using assms(2) by (simp add: M_def entry_at_def map_of_ensure split: option.split)
  note refused = encounter_outcome(1)[OF assms(1) lvl assms(3-5)] and accepted = encounter_outcome(2)[OF assms(1) lvl assms(3-5)]
  have step: "consumer_turn (env, order) (after k) = after (Suc k)" if "Suc k \<le> n" for k
  proof -
    have r: "replicate (n - k) True = True # replicate (n - Suc k) True" using that by (simp add: Suc_diff_Suc flip: replicate_Suc)
    show ?thesis by (simp add: after_def consumer_turn_def r refused M)
  qed
  have turns: "(consumer_turn (env, order) ^^ k) c = after k" if "k \<le> n" for k
    using that
  proof (induction k)
    case 0
    then show ?case by (simp add: assms(6) after_def M)
  next
    case (Suc k)
    then show ?case by (simp add: step)
  qed
  obtain s' where s': "process_data env order ts data w (cs_state (after n)) = (Inr (), s')" "stored (px_db s') = wr (stored (px_db s))"
    using accepted[of order n] by (auto simp: after_def)
  have "(consumer_turn (env, order) ^^ Suc n) c = \<lparr>cs_queue = [], cs_running = True, cs_state = s'\<rparr>"
    using turns[of n] s'(1) by (simp add: consumer_turn_def after_def)
  then show ?thesis using turns s'(2) by (simp add: after_def)
qed

section \<open>Concrete runs\<close>

definition demo_submit :: submit_env where
  "demo_submit = \<lparr>sb_now = 100, sb_unknown_timeleft = 3, sb_nearby_timeleft = 15, sb_disable_nearby_cell = False, sb_show = (\<lambda>_. []),
     sb_cell_position = (\<lambda>_. (1, 2)), sb_cell_of = (\<lambda>_ _. 7), sb_middle_of_cell = (\<lambda>_. (3, 4)), sb_questtask = (\<lambda>_ _ _ _ _. [])\<rparr>"

definition demo_proc :: proc_env where
  "demo_proc = \<lparr>pc_submit = demo_submit, pc_threshold = 60, pc_scan_lured = True, pc_scan_nearby = True, pc_game_stats = True,
     pc_stats_args = \<lparr>game_stats_raw = False, game_stats_mon_seen = False\<rparr>, pc_device_of = (\<lambda>_. None)\<rparr>"

definition demo_mon :: pokemon where
  "demo_mon = new_pokemon\<lparr>pk_pokemon_id := JInt 1, pk_individual_attack := JInt 15, pk_seen_type := Some encounter\<rparr>"

definition demo_raid :: raid where
  "demo_raid = \<lparr>ra_level = JInt 5, ra_spawn = 0, ra_start = 0, ra_end = 0, ra_pokemon_id = JNull, ra_cp = JInt 0, ra_move_1 = JInt 1,
     ra_move_2 = JInt 2, ra_last_scanned = 90, ra_form = JNull, ra_is_exclusive = JNull, ra_gender = JNull, ra_costume = JNull,
     ra_evolution = JInt 0\<rparr>"

definition demo_spawn :: spawn where
  "demo_spawn = \<lparr>sp_latitude = 1, sp_longitude = 2, sp_spawndef = default_spawndef, sp_earliest_unseen = 99999999, sp_last_scanned = None,
     sp_first_detection = None, sp_last_non_scanned = None, sp_calc_endminsec = None, sp_eventid = 1\<rparr>"

definition demo_tables :: tables where
  "demo_tables = \<lparr>t_pokemon = [(5, demo_mon)], t_display = [], t_seen = [], t_spawn = [(16, demo_spawn)], t_event = [], t_stop = [],
     t_incident = [], t_gym = [], t_gymdetail = [], t_raid = [(JStr ''g'', demo_raid)], t_quest = [], t_route = [], t_weather = [], t_cell = []\<rparr>"

definition demo_db :: db_session where
  "demo_db = \<lparr>live = demo_tables, unflushed = None, stored = demo_tables, conflicts = [], cache = []\<rparr>"

definition demo_state :: proc_state where
  "demo_state = \<lparr>px_db = demo_db, px_mitm = [(''w'', pd_set_level 30 (PlayerData_init ''w''))],
     px_stats = \<lparr>worker_stats = [], seen_types = None\<rparr>, px_auths = []\<rparr>"

text \<open>A map with one wild mon, the encountered one, at the known spawn point.\<close>

definition demo_map :: json where
  "demo_map = JDict [(''type'', JInt 106), (''payload'', JDict [(''cells'', JList [JDict [(''id'', JInt 3), (''forts'', JList []),
     (''wild_pokemon'', JList [JDict [(''spawnpoint_id'', JStr ''10''), (''latitude'', JFloat 1), (''longitude'', JFloat 2), (''encounter_id'', JInt 5),
        (''time_till_hidden'', JInt (- 1)),
        (''pokemon_data'', JDict [(''id'', JInt 1), (''display'', JDict [(''gender_value'', JInt 1), (''costume_value'', JInt 0),
            (''form_value'', JInt 0), (''weather_boosted_value'', JInt 0)])])]])]])])]"

definition demo_consumer :: consumer where
  "demo_consumer = \<lparr>cs_queue = [], cs_running = True, cs_state = demo_state\<rparr>"

definition demo_ops :: "consumer_op list" where
  "demo_ops = [Put (Some (99, demo_map, ''w'')), Turn (demo_proc, [MonsTask, SpawnpointsTask, RaidsTask])]"

lemma demo_rest: "at_rest demo_consumer" "cs_queue demo_consumer = []" "\<forall>x \<in> set demo_ops. op_no_encounter x"
  "stored_tables demo_consumer = demo_tables"
  by (auto simp: at_rest_def demo_consumer_def demo_state_def demo_db_def demo_ops_def demo_map_def brings_encounter_def)

lemma demo_mon_stored: "encountered demo_mon" "map_of (t_pokemon demo_tables) 5 = Some demo_mon"
  by (simp_all add: encountered_def demo_mon_def demo_tables_def)

theorem iv_data_kept_witness:
  "at_rest demo_consumer \<and> list_all op_no_encounter demo_ops \<and> encountered demo_mon \<and>
   (\<exists>p'. map_of (t_pokemon (stored_tables (consumer_run demo_ops demo_consumer))) 5 = Some p' \<and> encounter_data p' = encounter_data demo_mon)"
  using iv_data_kept[of demo_consumer demo_ops 5 demo_mon] demo_rest demo_mon_stored by (simp add: list_all_iff)

theorem encountered_stays_witness:
  "at_rest demo_consumer \<and> encountered demo_mon \<and>
   (\<exists>p'. map_of (t_pokemon (stored_tables (consumer_run demo_ops demo_consumer))) 5 = Some p' \<and> encountered p')"
  using encountered_stays[of demo_consumer 5 demo_mon demo_ops] demo_rest demo_mon_stored by simp

theorem raids_never_older_witness:
  "at_rest demo_consumer \<and>
   (\<exists>new. map_of (t_raid (stored_tables (consumer_run demo_ops demo_consumer))) (JStr ''g'') = Some new \<and> 90 \<le> ra_last_scanned new)"
proof -
  have "map_of (t_raid demo_tables) (JStr ''g'') = Some demo_raid" "ra_last_scanned demo_raid = 90"
    by (simp_all add: demo_tables_def demo_raid_def)
  then show ?thesis using raids_never_older[of demo_consumer "JStr ''g''" demo_raid demo_ops] demo_rest by simp
qed

theorem spawn_bits_well_formed_witness:
  "spawns_fit demo_tables \<and> spawns_fit (stored_tables (consumer_run demo_ops demo_consumer))"
proof -
  have "spawns_fit demo_tables"
    using bits_fit_default by (simp add: spawns_fit_def demo_tables_def demo_spawn_def dict_wf_def)
  then show ?thesis using spawn_bits_well_formed[of demo_consumer demo_ops] demo_rest by simp
qed

theorem spawndef_15_iff_all_quarters_witness: "\<exists>d. see_at [5, 4, 7, 6, 4] default_spawndef = Inr d \<and> d = 15"
proof -
  have q: "{4..7} = {4, 5, 6, 7::nat}" by auto
  then show ?thesis using spawndef_15_iff_all_quarters[of "[5, 4, 7, 6, 4]"] by auto
qed


end
