(* ===== verification/EndToEnd.thy ===== *)
theory EndToEnd
  imports Receiver ScanSafety
begin

text \<open>
  The receiver and the consumer together: what devices post is stored, and what is stored survives whatever devices post.
\<close>

section \<open>From the request to the tables\<close>

lemma update_keeps_level: "pd_level (fst (pd_update_latest key v rec retr loc p)) = pd_level p"
  by (auto simp: pd_update_latest_def Let_def parse_gmo_holder split: sum.split)

lemma received_level:
  "pd_level (entry_at PlayerData_init w (fst (handler_update_latest c w k v raw recv loc (handler_set_quests_held w q m)))) =
   pd_level (entry_at PlayerData_init w m)"
  by (simp add: handler_update_latest_table handler_set_quests_held_def entry_at_with_entry update_keeps_level pd_set_quests_held_def)

text \<open>
  C3. An encounter that a device posts is stored. When the queue is empty and the consumer runs, the device is of level 30, and the database
  refuses the first \<open>n\<close> writes, the request is answered with 200, and after \<open>n + 1\<close> turns the queue is empty again and the
  row of the mon is in the tables; after each of the first \<open>n\<close> turns nothing is written and the message is still queued.
\<close>

theorem posted_encounter_is_stored:
  assumes "admitted env mm h w" "well_received env (JDict d) ty ts loc quests payload"
    and "rv_queue r = []" "cs_running (rv_consumer r)" "30 \<le> pd_level (entry_at PlayerData_init w (px_mitm (rv_state r)))"
    and "is_encounter penv ts (JDict d) payload"
    and "prepare_iv (pc_submit penv) ts payload db = (Inr (Some (enc, wr, key, desp, sh)), db)"
    and "px_db (rv_state r) = db\<lparr>conflicts := replicate n True\<rparr>" "live db = stored db" "unflushed db = None" "distinct (rv_visited r)"
  shows "fst (receive_protos env mm h (Inr (JDict d)) r) = (200, Some ()) \<and>
    (\<forall>k \<le> n. rv_queue (recv_run (Request env mm h (Inr (JDict d)) # replicate k (Consume (penv, order))) r) = [Some (ts, JDict d, w)] \<and>
       stored_tables (rv_consumer (recv_run (Request env mm h (Inr (JDict d)) # replicate k (Consume (penv, order))) r)) = stored db) \<and>
    rv_queue (recv_run (Request env mm h (Inr (JDict d)) # replicate (Suc n) (Consume (penv, order))) r) = [] \<and>
    stored_tables (rv_consumer (recv_run (Request env mm h (Inr (JDict d)) # replicate (Suc n) (Consume (penv, order))) r)) = wr (stored db)"
proof -
  define r1 where "r1 = snd (receive_protos env mm h (Inr (JDict d)) r)"
  note posted = posted_message_delivered[OF assms(1,2), of r]
  define s where "s = (cs_state (rv_consumer r1))\<lparr>px_db := db\<rparr>"
  have c1: "rv_consumer r1 = \<lparr>cs_queue = [Some (ts, JDict d, w)], cs_running = True, cs_state = s\<lparr>px_db := (px_db s)\<lparr>conflicts := replicate n True\<rparr>\<rparr>\<rparr>"
    using assms(3,4,8) posted by (simp add: r1_def s_def)
  have lvl: "30 \<le> pd_level (entry_at PlayerData_init w (px_mitm s))"
    using assms(5) posted by (simp add: r1_def s_def received_level)
  have turns: "rv_consumer (fold recv_step (replicate k (Consume e)) x) = (consumer_turn e ^^ k) (rv_consumer x)" for k e x
    by (induction k arbitrary: x) (simp_all add: funpow_swap1)
  have run: "rv_consumer (recv_run (Request env mm h (Inr (JDict d)) # replicate k (Consume (penv, order))) r) =
      (consumer_turn (penv, order) ^^ k) (rv_consumer r1)" for k
    using turns[of k "(penv, order)" r1] by (simp add: recv_run_def r1_def)
  have db: "px_db s = db" by (simp add: s_def)
  note stored = refused_encounter_run[OF assms(6) lvl, unfolded db, OF assms(7,9,10) c1[unfolded db], of order]
  have "fst (receive_protos env mm h (Inr (JDict d)) r) = (200, Some ())" using posted by simp
  with stored show ?thesis unfolding run by blast
qed

section \<open>What is stored survives\<close>

context scan_frame_all
begin

lemma system_step:
  assumes "distinct (rv_visited r)"
  shows "RP (rv_state r) (rv_state (recv_step x r))"
proof -
  have same: "px_db s = px_db t \<Longrightarrow> RP s t" for s t using RP_refl[of s] by (simp add: RP_def)
  show ?thesis
  proof (cases x)
    case (Request env mm h body)
    show ?thesis unfolding Request by (rule same[OF requests_keep_db(1)[OF assms, symmetric]])
  next
    case (Ask env mm h lured)
    show ?thesis unfolding Ask by (rule same[OF requests_keep_db(2)[OF assms, symmetric]])
  next
    case (Consume e)
    show ?thesis using step_framed[of "rv_consumer r" "Turn e"] unfolding Consume by (simp add: rv_state_def)
  qed
qed

lemma system_framed:
  assumes "at_rest (rv_consumer r)" "distinct (rv_visited r)"
  shows "T (stored_tables (rv_consumer r)) (stored_tables (rv_consumer (recv_run ops r)))"
proof -
  have "RP (rv_state r) (rv_state (recv_run ops r))"
    using assms(2)
  proof (induction ops arbitrary: r)
    case (Cons x ops)
    have "distinct (rv_visited (recv_step x r))" using recv_step_keeps(3)[OF Cons.prems] by metis
    then show ?case using RP_trans[OF system_step[OF Cons.prems, of x] Cons.IH] by (simp add: recv_run_Cons)
  qed (simp add: recv_run_def RP_refl)
  with assms(1) show ?thesis by (auto simp: RP_def R_def rv_state_def at_rest_def session_ok_def T_refl)
qed

end

text \<open>
  C5. Whatever devices post and however their requests fall between the turns of the consumer, an encountered mon counts as encountered for
  ever, a raid is never replaced by what an older scan saw, no quarter of the hour of a spawn point is forgotten, and no row is lost.
\<close>

theorem scan_data_survives:
  assumes "at_rest (rv_consumer r)" "distinct (rv_visited r)" "t = stored_tables (rv_consumer r)" "t' = stored_tables (rv_consumer (recv_run ops r))"
  shows "(\<forall>enc p. map_of (t_pokemon t) enc = Some p \<and> encountered p \<longrightarrow> (\<exists>p'. map_of (t_pokemon t') enc = Some p' \<and> encountered p')) \<and>
    (\<forall>g old. map_of (t_raid t) g = Some old \<longrightarrow> (\<exists>new. map_of (t_raid t') g = Some new \<and> ra_last_scanned old \<le> ra_last_scanned new)) \<and>
    (\<forall>k old. spawns_fit t \<and> map_of (t_spawn t) k = Some old \<longrightarrow> (\<exists>new. map_of (t_spawn t') k = Some new \<and> seen_in (sp_spawndef old) \<subseteq> seen_in (sp_spawndef new))) \<and>
    rows_kept t t'"
proof (intro conjI)
  show "rows_kept t t'" unfolding assms(3,4) by (rule rows.system_framed[OF assms(1,2)])
  show "\<forall>enc p. map_of (t_pokemon t) enc = Some p \<and> encountered p \<longrightarrow> (\<exists>p'. map_of (t_pokemon t') enc = Some p' \<and> encountered p')"
    using seen.system_framed[OF assms(1,2), of ops] unfolding assms(3,4) by (auto simp: mons_related_def stays_encountered_def)
  show "\<forall>g old. map_of (t_raid t) g = Some old \<longrightarrow> (\<exists>new. map_of (t_raid t') g = Some new \<and> ra_last_scanned old \<le> ra_last_scanned new)"
    using raid.system_framed[OF assms(1,2), of ops] unfolding assms(3,4) by (auto simp: raids_newer_def)
  show "\<forall>k old. spawns_fit t \<and> map_of (t_spawn t) k = Some old \<longrightarrow> (\<exists>new. map_of (t_spawn t') k = Some new \<and> seen_in (sp_spawndef old) \<subseteq> seen_in (sp_spawndef new))"
    using bits.system_framed[OF assms(1,2), of ops] unfolding assms(3,4) by (auto simp: spawns_grow_def)
qed

section \<open>Concrete runs\<close>

text \<open>A device of level 30 posts the encounter of a wild mon to an instance with one user.\<close>

definition posted_payload :: json where
  "posted_payload = JDict [(''status'', JInt 1), (''wild_pokemon'', JDict [(''spawnpoint_id'', JStr ''10''), (''latitude'', JFloat 1), (''longitude'', JFloat 2),
        (''encounter_id'', JInt (- 1)),
        (''pokemon_data'', JDict [(''id'', JInt 1), (''individual_attack'', JInt 15), (''individual_defense'', JInt 15),
            (''individual_stamina'', JInt 15), (''cp_multiplier'', JFloat (1 / 2)), (''display'', JDict [(''gender_value'', JInt 1),
            (''costume_value'', JInt 0), (''form_value'', JInt 0), (''weather_boosted_value'', JInt 0)])])]),
     (''capture_probability'', JDict [(''capture_probability_list'', JStr ''[1,1,1]'')])]"

definition posted :: "(string \<times> json) list" where
  "posted = [(''type'', JInt 102), (''timestamp'', JInt 99), (''payload'', posted_payload)]"

definition posting_env :: recv_env where
  "posting_env = \<lparr>re_now = 100, re_started = 50, re_ignore_pre_boot = True, re_accounts = \<lparr>my_instance = 1, no_restrict = False\<rparr>,
     re_devices = [], re_auth = \<lparr>ae_decode = (\<lambda>s. Inr ''u:p''), ae_auths = [(''u'', ''p'')], ae_insecure = False, ae_configured = True\<rparr>,
     re_show = (\<lambda>v. [])\<rparr>"

definition posting_mm :: mapping_manager where
  "posting_mm = empty_mapping_manager\<lparr>devicemappings := [(''w'', device_mapping_of_row demo_rows (hd (device_rows demo_rows)))]\<rparr>"

definition posting_headers :: request_headers where
  "posting_headers = \<lparr>hd_origin = Some ''w'', hd_authorization = Some ''Basic dTpw''\<rparr>"

definition posting_receiver :: receiver where
  "posting_receiver = \<lparr>rv_consumer = \<lparr>cs_queue = [], cs_running = True, cs_state = demo_state\<lparr>px_db := demo_db\<lparr>conflicts := replicate 2 True\<rparr>\<rparr>\<rparr>,
     rv_visited = [(''ash'', JStr ''stop'')], rv_pending = [], rv_commit = False\<rparr>"

definition posting_op :: recv_op where
  "posting_op = Request posting_env posting_mm posting_headers (Inr (JDict posted))"

lemma posting_admitted: "admitted posting_env posting_mm posting_headers ''w''"
proof -
  have "check_auth (\<lambda>s. Inr ''u:p'') (Some ''Basic dTpw'') [(''u'', ''p'')]" by code_simp
  then show ?thesis
    by (simp add: admitted_def origin_known_def device_authorised_def posting_env_def posting_mm_def posting_headers_def get_all_loaded_origins_def)
qed

lemma posted_received: "well_received posting_env (JDict posted) (JInt 102) 99 \<lparr>lat = 0, lng = 0\<rparr> None posted_payload"
  by (simp add: well_received_def posted_def posted_payload_def posting_env_def known_protos_def proto_ignored_def Let_def location_of_data_def)

lemma demo_texts: "capture_texts (JStr ''[1,1,1]'') = Inr (Some [''1'', ''1'', ''1''])" "parse_hex ''10'' = Inr 16"
  by code_simp+

lemma demo_float: "parse_float ''1'' = Inr 1"
  by code_simp

lemma posted_prepared:
  "\<exists>wr key desp. prepare_iv demo_submit 99 posted_payload demo_db = (Inr (Some (2 ^ 64 - 1, wr, key, desp, False)), demo_db) \<and>
     map_of (t_pokemon (wr demo_tables)) (2 ^ 64 - 1) \<noteq> None"
proof -
  have i: "ditto_view (JDict [(''id'', JInt 1), (''individual_attack'', JInt 15), (''individual_defense'', JInt 15),
            (''individual_stamina'', JInt 15), (''cp_multiplier'', JFloat (1 / 2)), (''display'', JDict [(''gender_value'', JInt 1),
            (''costume_value'', JInt 0), (''form_value'', JInt 0), (''weather_boosted_value'', JInt 0)])]) =
      Inr \<lparr>weather_boosted_value = Some 0, individual_attack = Some 15, individual_defense = Some 15, individual_stamina = Some 15,
        cp_multiplier = Some (1 / 2)\<rparr>"
    by (simp add: ditto_view_def optional_int_def optional_num_def)
  have d: "is_mon_ditto \<lparr>weather_boosted_value = Some 0, individual_attack = Some 15, individual_defense = Some 15, individual_stamina = Some 15,
        cp_multiplier = Some (1 / 2)\<rparr> = Inr False"
    by (simp add: is_mon_ditto_def lt_opt_def gt_opt_def)
  have l: "live demo_db = demo_tables" "cache demo_db = []" by (simp_all add: demo_db_def)
  have sp: "map_of (t_spawn demo_tables) 16 = Some demo_spawn" "known_endminsec (Some demo_spawn) = None"
    by (simp_all add: demo_tables_def known_endminsec_def demo_spawn_def)
  have row: "map_of (t_pokemon demo_tables) (2 ^ 64 - 1) = None" by (simp add: demo_tables_def)
  show ?thesis
    by (simp add: prepare_iv_def posted_payload_def get_then_def index_then_def act_bind_def give_def finish_def encounter_useless_def
        encounter_id_then_def unsigned_id_def cache_exists_def act_read_def find_row_def l demo_texts sp gen_despawn_timestamp_def
        extract_data_or_set_ditto_def i d encounter_row_def set_iv_data_def set_capture_probs_def capture_prob_def demo_float maybe_save_ditto_def
        put_pokemon_def map_of_update row[simplified] Let_def)
qed

theorem posted_encounter_is_stored_witness:
  "\<exists>r. r = recv_run (posting_op # replicate (Suc 2) (Consume (demo_proc, []))) posting_receiver \<and>
    rv_queue r = [] \<and> map_of (t_pokemon (stored_tables (rv_consumer r))) (2 ^ 64 - 1) \<noteq> None"
proof -
  obtain wr key desp where p: "prepare_iv demo_submit 99 posted_payload demo_db = (Inr (Some (2 ^ 64 - 1, wr, key, desp, False)), demo_db)"
      and r: "map_of (t_pokemon (wr demo_tables)) (2 ^ 64 - 1) \<noteq> None"
    using posted_prepared by blast
  have e: "is_encounter demo_proc 99 (JDict posted) posted_payload"
    by (simp add: is_encounter_def posted_def too_old_def demo_proc_def demo_submit_def)
  have s: "rv_queue posting_receiver = []" "cs_running (rv_consumer posting_receiver)" "distinct (rv_visited posting_receiver)"
      "px_db (rv_state posting_receiver) = demo_db\<lparr>conflicts := replicate 2 True\<rparr>" "live demo_db = stored demo_db" "unflushed demo_db = None"
      "pc_submit demo_proc = demo_submit" "stored demo_db = demo_tables"
    by (simp_all add: posting_receiver_def rv_state_def demo_proc_def demo_db_def)
  have l: "30 \<le> pd_level (entry_at PlayerData_init ''w'' (px_mitm (rv_state posting_receiver)))"
    by (simp add: posting_receiver_def rv_state_def demo_state_def entry_at_def pd_set_level_def)
  note stored = posted_encounter_is_stored[OF posting_admitted posted_received s(1,2) l e p[folded s(7)] s(4,5,6,3), of "[]", folded posting_op_def, unfolded s(8)]
  show ?thesis using stored r by (intro exI[of _ "recv_run (posting_op # replicate (Suc 2) (Consume (demo_proc, []))) posting_receiver"]) metis
qed

theorem scan_data_survives_witness:
  "\<exists>p'. map_of (t_pokemon (stored_tables (rv_consumer (recv_run [posting_op, Consume (demo_proc, [])] posting_receiver)))) 5 = Some p' \<and> encountered p'"
proof -
  have s: "at_rest (rv_consumer posting_receiver)" "distinct (rv_visited posting_receiver)" "stored_tables (rv_consumer posting_receiver) = demo_tables"
    by (simp_all add: posting_receiver_def at_rest_def demo_db_def)
  show ?thesis
    using scan_data_survives[OF s(1,2) refl refl, of "[posting_op, Consume (demo_proc, [])]"] demo_mon_stored unfolding s(3) by blast
qed

theorem queue_holds_admitted_witness:
  "Some (99 :: int, JDict posted, ''w'') \<in> set (rv_queue posting_receiver) \<or> (\<exists>env mm h body w ts data. Request env mm h body \<in> set [posting_op] \<and>
     hd_origin h = Some w \<and> w \<in> get_all_loaded_origins mm \<and> device_authorised (re_auth env) h \<and>
     Some (99 :: int, JDict posted, ''w'') = Some (ts, data, w) \<and> data \<in> set (messages body) \<and> accepted_message data)"
proof (rule queue_holds_admitted)
  show "distinct (rv_visited posting_receiver)" by (simp add: posting_receiver_def)
  show "Some (99, JDict posted, ''w'') \<in> set (rv_queue (recv_run [posting_op] posting_receiver))"
    using posted_message_delivered[OF posting_admitted posted_received, of posting_receiver]
    by (simp add: recv_run_def posting_op_def posting_receiver_def)
qed


lemma failed_request_marks_nothing_witness:
  "rv_visited (snd (receive_protos posting_env posting_mm posting_headers (Inl ValueError) posting_receiver)) = [(''ash'', JStr ''stop'')]"
proof -
  have "fst (fst (receive_protos posting_env posting_mm posting_headers (Inl ValueError) posting_receiver)) = 500"
    using posting_admitted
    by (simp add: receive_protos_def device_request_def admitted_def respond_def post_protos_def act_bind_def give_def)
  then have "fst (fst (receive_protos posting_env posting_mm posting_headers (Inl ValueError) posting_receiver)) \<noteq> 200" by simp
  from failed_request_marks_nothing[OF _ this] show ?thesis by (simp add: posting_receiver_def)
qed

end
