(* ===== verification/Tour.thy ===== *)
theory Tour
  imports PyStr
begin

text \<open>
  \<open>mapadroid/route/routecalc/calculate_route_quick.py\<close>: a short route through points in the plane. A spanning tree of the complete graph is
  grown over a union-find structure, its vertices of odd degree are matched, and a tour along all edges is cut short to a
  route that visits every point once. Points are numbered; a loop of the code that would not end is \<open>None\<close>, an exception the left of a sum.
\<close>

type_synonym edge = "nat \<times> nat \<times> real"
type_synonym 'a looped = "'a result option"

definition loop_bind :: "'a looped \<Rightarrow> ('a \<Rightarrow> 'b looped) \<Rightarrow> 'b looped" where
  "loop_bind m f = (case m of None \<Rightarrow> None | Some (Inl e) \<Rightarrow> Some (Inl e) | Some (Inr x) \<Rightarrow> f x)"

lemma loop_bind_simps [simp]:
  "loop_bind None f = None" "loop_bind (Some (Inl e)) f = Some (Inl e)" "loop_bind (Some (Inr x)) f = f x"
  by (simp_all add: loop_bind_def)

section \<open>The graph\<close>

definition get_length :: "real \<Rightarrow> real \<Rightarrow> real \<Rightarrow> real \<Rightarrow> real" where
  "get_length x1 y1 x2 y2 = sqrt ((x1 - x2) ^ 2 + (y1 - y2) ^ 2)"

type_synonym graph = "(nat, (nat, real) dict) dict"

text \<open>A point has an entry when there is another one.\<close>

definition point_distance :: "(real \<times> real) list \<Rightarrow> nat \<Rightarrow> nat \<Rightarrow> real" where
  "point_distance data i j = get_length (fst (data ! i)) (snd (data ! i)) (fst (data ! j)) (snd (data ! j))"

definition build_graph :: "(real \<times> real) list \<Rightarrow> graph" where
  "build_graph data =
     (let ps = [0..<length data]
      in map (\<lambda>i. (i, map (\<lambda>j. (j, point_distance data i j)) (filter (\<lambda>j. i \<noteq> j) ps)))
           (filter (\<lambda>i. list_ex (\<lambda>j. i \<noteq> j) ps) ps))"

definition graph_at :: "graph \<Rightarrow> nat \<Rightarrow> nat \<Rightarrow> real result" where
  "graph_at g u v =
     (case map_of g u of None \<Rightarrow> Inl KeyError | Some row \<Rightarrow> (case map_of row v of None \<Rightarrow> Inl KeyError | Some d \<Rightarrow> Inr d))"

section \<open>Union-find\<close>

record union_find =
  uf_weights :: "(nat, nat) dict"
  uf_parents :: "(nat, nat) dict"

definition new_union_find :: union_find where
  "new_union_find = \<lparr>uf_weights = [], uf_parents = []\<rparr>"

text \<open>\<open>while root != path[-1]\<close>: up to a vertex that is its own parent; in a circle for ever.\<close>

partial_function (option) climb :: "(nat, nat) dict \<Rightarrow> nat list \<Rightarrow> nat \<Rightarrow> (nat list \<times> nat) looped" where
  "climb parents path r =
     (if r = last path then Some (Inr (path, r))
      else case map_of parents r of
          None \<Rightarrow> Some (Inl KeyError)
        | Some p \<Rightarrow> climb parents (path @ [r]) p)"

text \<open>\<open>subtrees[x]\<close>: the root of \<open>x\<close>, with the path to it compressed; an unknown vertex becomes a tree of its own.\<close>

definition uf_find :: "nat \<Rightarrow> union_find \<Rightarrow> (nat \<times> union_find) looped" where
  "uf_find x uf =
     (case map_of (uf_parents uf) x of
        None \<Rightarrow> Some (Inr (x, \<lparr>uf_weights = AList.update x 1 (uf_weights uf), uf_parents = AList.update x x (uf_parents uf)\<rparr>))
      | Some p \<Rightarrow> loop_bind (climb (uf_parents uf) [x] p) (\<lambda>(path, r).
          Some (Inr (r, uf\<lparr>uf_parents := fold (\<lambda>a d. AList.update a r d) path (uf_parents uf)\<rparr>))))"

definition weight_of :: "nat \<Rightarrow> union_find \<Rightarrow> nat result" where
  "weight_of r uf = (case map_of (uf_weights uf) r of None \<Rightarrow> Inl KeyError | Some w \<Rightarrow> Inr w)"

definition hang_below :: "nat \<Rightarrow> nat \<Rightarrow> union_find \<Rightarrow> union_find result" where
  "hang_below heaviest r uf =
     (if r = heaviest then Inr uf
      else res_bind (weight_of heaviest uf) (\<lambda>wh. res_bind (weight_of r uf) (\<lambda>wr.
        Inr (uf\<lparr>uf_weights := AList.update heaviest (wh + wr) (uf_weights uf), uf_parents := AList.update r heaviest (uf_parents uf)\<rparr>))))"

text \<open>The union of two trees: of equal weights the root with the greater number is the heaviest.\<close>

definition uf_union :: "nat \<Rightarrow> nat \<Rightarrow> union_find \<Rightarrow> union_find looped" where
  "uf_union u v uf =
     loop_bind (uf_find u uf) (\<lambda>(ru, uf1). loop_bind (uf_find v uf1) (\<lambda>(rv, uf2). Some
       (res_bind (weight_of ru uf2) (\<lambda>wu. res_bind (weight_of rv uf2) (\<lambda>wv.
         let heaviest = (if wu < wv \<or> (wu = wv \<and> ru < rv) then rv else ru)
         in res_bind (hang_below heaviest ru uf2) (hang_below heaviest rv))))))"

section \<open>The spanning tree\<close>

text \<open>Sorted by weight and then by the vertices: the edges come in the order of their vertices and the sort is stable.\<close>

definition sorted_edges :: "graph \<Rightarrow> edge list" where
  "sorted_edges g = sort_key (\<lambda>(u, v, w). w) (concat (map (\<lambda>(u, row). map (\<lambda>(v, w). (u, v, w)) row) g))"

fun grow_tree :: "edge list \<Rightarrow> union_find \<Rightarrow> edge list \<Rightarrow> edge list looped" where
  "grow_tree [] uf tree = Some (Inr tree)"
| "grow_tree ((u, v, w) # es) uf tree =
     loop_bind (uf_find u uf) (\<lambda>(ru, uf1). loop_bind (uf_find v uf1) (\<lambda>(rv, uf2).
       if ru \<noteq> rv then loop_bind (uf_union u v uf2) (\<lambda>uf3. grow_tree es uf3 (tree @ [(u, v, w)]))
       else grow_tree es uf2 tree))"

definition minimum_spanning_tree :: "graph \<Rightarrow> edge list looped" where
  "minimum_spanning_tree g = grow_tree (sorted_edges g) new_union_find []"

section \<open>Matching the odd vertices\<close>

definition touch :: "nat \<Rightarrow> (nat, nat) dict \<Rightarrow> (nat, nat) dict" where
  "touch x d = (case map_of d x of None \<Rightarrow> AList.update x 0 d | Some _ \<Rightarrow> d)"

definition bump :: "nat \<Rightarrow> (nat, nat) dict \<Rightarrow> (nat, nat) dict" where
  "bump x d = (case map_of d x of None \<Rightarrow> d | Some n \<Rightarrow> AList.update x (n + 1) d)"

definition degrees :: "edge list \<Rightarrow> (nat, nat) dict" where
  "degrees tree = fold (\<lambda>(a, b, w) d. bump b (bump a (touch b (touch a d)))) tree []"

definition find_odd_vertexes :: "edge list \<Rightarrow> nat list" where
  "find_odd_vertexes tree = map fst (filter (\<lambda>(x, n). n mod 2 = 1) (degrees tree))"

text \<open>The closest of the remaining vertices; without any it is 0 at infinity (\<open>None\<close>).\<close>

fun closest_of :: "graph \<Rightarrow> nat \<Rightarrow> nat list \<Rightarrow> nat \<times> real option \<Rightarrow> (nat \<times> real option) result" where
  "closest_of g v [] best = Inr best"
| "closest_of g v (i # is) best =
     (if v = i then closest_of g v is best
      else res_bind (graph_at g v i) (\<lambda>d. closest_of g v is (if (case snd best of None \<Rightarrow> True | Some l \<Rightarrow> d < l) then (i, Some d) else best)))"

text \<open>The odd vertices from the end of their list; \<open>far\<close> stands for an edge without a length. \<open>odd_vert.remove\<close> raises when there is no partner.\<close>

function match_odd :: "real \<Rightarrow> graph \<Rightarrow> nat list \<Rightarrow> edge list \<Rightarrow> edge list result" where
  "match_odd far g odd_vert tree =
     (if odd_vert = [] then Inr tree
      else let v = last odd_vert; rest = butlast odd_vert in
        res_bind (closest_of g v rest (0, None)) (\<lambda>(c, l).
          if c \<notin> set rest then Inl ValueError
          else match_odd far g (remove1 c rest) (tree @ [(v, c, case l of None \<Rightarrow> far | Some d \<Rightarrow> d)])))"
  by auto
termination
proof (relation "measure (\<lambda>(x, g, odd_vert, tree). length odd_vert)", goal_cases)
  case (2 x g odd_vert tree v rest c l)
  then have "length rest < length odd_vert" by (cases odd_vert) simp_all
  then show ?case by (auto simp: length_remove1)
qed simp

declare match_odd.simps [simp del]

definition minimum_weight_matching :: "real \<Rightarrow> (nat list \<Rightarrow> nat list) \<Rightarrow> edge list \<Rightarrow> graph \<Rightarrow> nat list \<Rightarrow> edge list result" where
  "minimum_weight_matching far shuffle tree g odd_vert = match_odd far g (shuffle odd_vert) tree"

section \<open>The tour\<close>

type_synonym neighbours = "(nat, nat list) dict"

definition add_neighbour :: "nat \<Rightarrow> nat \<Rightarrow> neighbours \<Rightarrow> neighbours" where
  "add_neighbour a b n = (case map_of n a of None \<Rightarrow> n | Some l \<Rightarrow> AList.update a (l @ [b]) n)"

definition open_entry :: "nat \<Rightarrow> neighbours \<Rightarrow> neighbours" where
  "open_entry a n = (case map_of n a of None \<Rightarrow> AList.update a [] n | Some l \<Rightarrow> n)"

definition build_neighbours :: "edge list \<Rightarrow> neighbours" where
  "build_neighbours es = fold (\<lambda>(a, b, w) n. add_neighbour b a (add_neighbour a b (open_entry b (open_entry a n)))) es []"

definition joins :: "nat \<Rightarrow> nat \<Rightarrow> edge \<Rightarrow> bool" where
  "joins a b e = (case e of (x, y, w) \<Rightarrow> (x = b \<and> y = a) \<or> (x = a \<and> y = b))"

text \<open>Deleting from the list that is being iterated over: the entry after a deleted one is skipped.\<close>

fun remove_edge :: "edge list \<Rightarrow> nat \<Rightarrow> nat \<Rightarrow> edge list" where
  "remove_edge [] a b = []"
| "remove_edge (e # es) a b =
     (if joins a b e then (case es of [] \<Rightarrow> [] | f # fs \<Rightarrow> f # remove_edge fs a b) else e # remove_edge es a b)"

definition insert_at :: "nat \<Rightarrow> 'a \<Rightarrow> 'a list \<Rightarrow> 'a list" where
  "insert_at i x xs = take i xs @ x # drop i xs"

fun first_open :: "neighbours \<Rightarrow> nat \<Rightarrow> nat list \<Rightarrow> (nat \<times> nat) option result" where
  "first_open n i [] = Inr None"
| "first_open n i (v # vs) =
     (case map_of n v of None \<Rightarrow> Inl KeyError | Some l \<Rightarrow> if l \<noteq> [] then Inr (Some (i, v)) else first_open n (i + 1) vs)"

definition open_ends :: "neighbours \<Rightarrow> nat" where
  "open_ends n = sum_list (map (\<lambda>(v, l). length l) n)"

lemma open_ends_update: "map_of n v = Some l \<Longrightarrow> open_ends (AList.update v l' n) + length l = open_ends n + length l'"
  by (induction n) (auto simp: open_ends_def split: if_splits)

text \<open>The inner loop: along unused edges until a vertex has none left.\<close>

function walk :: "edge list \<Rightarrow> neighbours \<Rightarrow> nat \<Rightarrow> nat \<Rightarrow> nat list \<Rightarrow> (edge list \<times> neighbours \<times> nat list) result" where
  "walk m n v stop_ind ep =
     (case map_of n v of
        None \<Rightarrow> Inl KeyError
      | Some [] \<Rightarrow> Inr (m, n, ep)
      | Some (w # ws) \<Rightarrow>
          (case map_of (AList.update v ws n) w of
             None \<Rightarrow> Inl KeyError
           | Some ends \<Rightarrow>
               if v \<notin> set ends then Inl ValueError
               else walk (remove_edge m v w) (AList.update w (remove1 v ends) (AList.update v ws n)) w (stop_ind + 1) (insert_at (stop_ind + 1) w ep)))"
  by auto
termination
proof (relation "measure (\<lambda>(m, n, v, s, ep). open_ends n)", goal_cases)
  case (2 m n v s ep l w ws ends)
  have "open_ends (AList.update v ws n) + length (w # ws) = open_ends n + length ws" using open_ends_update 2 by fastforce
  moreover have "open_ends (AList.update w (remove1 v ends) (AList.update v ws n)) + length ends =
      open_ends (AList.update v ws n) + length (remove1 v ends)" using open_ends_update 2 by fastforce
  ultimately show ?case by (simp add: length_remove1 split: if_splits)
qed simp

declare walk.simps [simp del]

text \<open>The outer loop: while edges are left, from the first vertex of the tour with an unused edge; without one nothing changes any more.\<close>

partial_function (option) extend_tour :: "edge list \<Rightarrow> neighbours \<Rightarrow> nat list \<Rightarrow> nat list looped" where
  "extend_tour m n ep =
     (if m = [] then Some (Inr ep)
      else case first_open n 0 ep of
          Inl e \<Rightarrow> Some (Inl e)
        | Inr None \<Rightarrow> extend_tour m n ep
        | Inr (Some (i, v)) \<Rightarrow>
            (case walk m n v i ep of Inl e \<Rightarrow> Some (Inl e) | Inr (m', n', ep') \<Rightarrow> extend_tour m' n' ep'))"

definition find_eulerian_tour :: "edge list \<Rightarrow> nat list looped" where
  "find_eulerian_tour m =
     (let n = build_neighbours m in
      case m of
        [] \<Rightarrow> Some (Inl IndexError)
      | (a, b, w) # es \<Rightarrow> (case map_of n a of None \<Rightarrow> Some (Inl KeyError) | Some [] \<Rightarrow> Some (Inl IndexError) | Some (x # xs) \<Rightarrow> extend_tour m n [x]))"

section \<open>The route\<close>

fun shorten :: "graph \<Rightarrow> nat list \<Rightarrow> nat \<Rightarrow> bool list \<Rightarrow> nat list \<Rightarrow> real \<Rightarrow> (real \<times> nat list) result" where
  "shorten g [] current visited path len = Inr (len, path)"
| "shorten g (x # xs) current visited path len =
     (if length visited \<le> x then Inl IndexError
      else if visited ! x then shorten g xs current visited path len
      else res_bind (graph_at g current x) (\<lambda>d. shorten g xs x (visited[x := True]) (path @ [x]) (len + d)))"

definition tsp :: "real \<Rightarrow> (nat list \<Rightarrow> nat list) \<Rightarrow> (real \<times> real) list \<Rightarrow> (real \<times> nat list) looped" where
  "tsp far shuffle data =
     (let g = build_graph data in
      loop_bind (minimum_spanning_tree g) (\<lambda>tree.
      loop_bind (Some (minimum_weight_matching far shuffle tree g (find_odd_vertexes tree))) (\<lambda>matched.
      loop_bind (find_eulerian_tour matched) (\<lambda>tour. Some
        (case tour of
           [] \<Rightarrow> Inl IndexError
         | c # cs \<Rightarrow> if length tour \<le> c then Inl IndexError else shorten g cs c ((replicate (length tour) False)[c := True]) [c] 0)))))"

definition route_calc_impl :: "real \<Rightarrow> (nat list \<Rightarrow> nat list) \<Rightarrow> (real \<times> real) list \<Rightarrow> nat list looped" where
  "route_calc_impl far shuffle coords = loop_bind (tsp far shuffle coords) (\<lambda>(len, path). Some (Inr path))"


section \<open>The graph is complete\<close>

lemma map_of_map_pair: "map_of (map (\<lambda>x. (x, f x)) xs) k = (if k \<in> set xs then Some (f k) else None)"
  by (induction xs) auto

definition two_points :: "(real \<times> real) list \<Rightarrow> nat \<Rightarrow> nat \<Rightarrow> bool" where
  "two_points data u v \<longleftrightarrow> u < length data \<and> v < length data \<and> u \<noteq> v"

lemma graph_at_build: "two_points data u v \<Longrightarrow> graph_at (build_graph data) u v = Inr (point_distance data u v)"
proof -
  assume "two_points data u v"
  then have uv: "u < length data" "v < length data" "u \<noteq> v" by (simp_all add: two_points_def)
  then have "map_of (build_graph data) u = Some (map (\<lambda>j. (j, point_distance data u j)) (filter (\<lambda>j. u \<noteq> j) [0..<length data]))"
  proof -
    have "list_ex (\<lambda>j. u \<noteq> j) [0..<length data]" unfolding list_ex_iff using uv by (intro bexI[of _ v]) simp_all
    then show ?thesis using uv by (simp add: build_graph_def Let_def map_of_map_pair)
  qed
  then show "graph_at (build_graph data) u v = Inr (point_distance data u v)" using uv by (simp add: graph_at_def map_of_map_pair)
qed

lemma set_sorted_edges: "set (sorted_edges (build_graph data)) = {(u, v, point_distance data u v) |u v. two_points data u v}" (is "?l = ?r")
proof
  show "?l \<subseteq> ?r" by (auto simp: sorted_edges_def build_graph_def Let_def two_points_def)
  have "(u, v, point_distance data u v) \<in> ?l" if "two_points data u v" for u v
  proof -
    let ?row = "(u, map (\<lambda>j. (j, point_distance data u j)) (filter (\<lambda>j. u \<noteq> j) [0..<length data]))"
    have "?row \<in> set (build_graph data)" using that
      unfolding build_graph_def Let_def two_points_def by (auto simp: list_ex_iff intro!: image_eqI[of _ _ u])
    moreover have "(u, v, point_distance data u v) \<in> set ((\<lambda>(u, row). map (\<lambda>(v, w). (u, v, w)) row) ?row)"
      using that by (auto simp: two_points_def)
    ultimately show ?thesis unfolding sorted_edges_def set_sort set_concat set_map by blast
  qed
  then show "?r \<subseteq> ?l" by blast
qed

section \<open>Connected vertices\<close>

definition linked :: "edge list \<Rightarrow> (nat \<times> nat) set" where
  "linked t = {(a, b). \<exists>w. (a, b, w) \<in> set t \<or> (b, a, w) \<in> set t}"

lemma linked_sym: "(a, b) \<in> (linked t)\<^sup>* \<Longrightarrow> (b, a) \<in> (linked t)\<^sup>*"
proof -
  have "sym (linked t)" unfolding sym_def linked_def by blast
  then show "(a, b) \<in> (linked t)\<^sup>* \<Longrightarrow> (b, a) \<in> (linked t)\<^sup>*" by (rule symD[OF sym_rtrancl])
qed

lemma linked_mono: "set t \<subseteq> set t' \<Longrightarrow> (a, b) \<in> (linked t)\<^sup>* \<Longrightarrow> (a, b) \<in> (linked t')\<^sup>*"
  by (erule rtrancl_mono[THEN subsetD, rotated]) (auto simp: linked_def)

section \<open>Union-find\<close>

abbreviation parent_of :: "union_find \<Rightarrow> nat \<Rightarrow> nat option" where
  "parent_of uf x \<equiv> map_of (uf_parents uf) x"

abbreviation wt :: "union_find \<Rightarrow> nat \<Rightarrow> nat" where
  "wt uf x \<equiv> the (map_of (uf_weights uf) x)"

text \<open>
  Parents are known and connected by the tree, and weigh more than their children, so no chain of parents is a circle.
\<close>

definition uf_ok :: "union_find \<Rightarrow> edge list \<Rightarrow> bool" where
  "uf_ok uf t \<longleftrightarrow> (\<forall>x. map_of (uf_weights uf) x = None \<longleftrightarrow> parent_of uf x = None) \<and> (\<forall>x w. map_of (uf_weights uf) x = Some w \<longrightarrow> 0 < w) \<and>
     (\<forall>x p. parent_of uf x = Some p \<longrightarrow> parent_of uf p \<noteq> None \<and> (x, p) \<in> (linked t)\<^sup>* \<and> (x = p \<or> wt uf x < wt uf p))"

definition is_root :: "union_find \<Rightarrow> nat \<Rightarrow> bool" where
  "is_root uf r \<longleftrightarrow> parent_of uf r = Some r"

lemma uf_okD:
  assumes "uf_ok uf t" "parent_of uf x = Some p"
  shows "parent_of uf p \<noteq> None" "(x, p) \<in> (linked t)\<^sup>*" "x = p \<or> wt uf x < wt uf p" "map_of (uf_weights uf) x \<noteq> None" "0 < wt uf x"
proof -
  show "parent_of uf p \<noteq> None" "(x, p) \<in> (linked t)\<^sup>*" "x = p \<or> wt uf x < wt uf p" using assms unfolding uf_ok_def by blast+
  show known: "map_of (uf_weights uf) x \<noteq> None" using assms unfolding uf_ok_def by simp
  then obtain w where "map_of (uf_weights uf) x = Some w" by blast
  then show "0 < wt uf x" using assms(1) unfolding uf_ok_def by simp
qed

lemma wt_bound: "map_of (uf_weights uf) x = Some w \<Longrightarrow> w \<le> sum_list (map snd (uf_weights uf))"
proof -
  assume "map_of (uf_weights uf) x = Some w"
  from map_of_SomeD[OF this] have "w \<in> set (map snd (uf_weights uf))" by force
  then show ?thesis by (rule member_le_sum_list) simp
qed

abbreviation steps :: "union_find \<Rightarrow> (nat \<times> nat) set" where
  "steps uf \<equiv> {(a, p). parent_of uf a = Some p}"

abbreviation known :: "union_find \<Rightarrow> nat set" where
  "known uf \<equiv> dom (map_of (uf_parents uf))"

abbreviation roots :: "union_find \<Rightarrow> nat set" where
  "roots uf \<equiv> {x. is_root uf x}"

definition chain_ok :: "union_find \<Rightarrow> edge list \<Rightarrow> nat list \<Rightarrow> bool" where
  "chain_ok uf t path \<longleftrightarrow> path \<noteq> [] \<and> (\<forall>a \<in> set path. parent_of uf a \<noteq> None \<and> (a, last path) \<in> (linked t)\<^sup>* \<and> (a, last path) \<in> (steps uf)\<^sup>* \<and>
     (a = last path \<or> (wt uf a < wt uf (last path) \<and> \<not> is_root uf a)))"

lemma climb_ends:
  assumes "uf_ok uf t" "chain_ok uf t path" "parent_of uf (last path) = Some p"
  shows "\<exists>path'. climb (uf_parents uf) path p = Some (Inr (path', last path')) \<and> chain_ok uf t path' \<and> is_root uf (last path') \<and> set path \<subseteq> set path'"
  using assms(2,3)
proof (induction "sum_list (map snd (uf_weights uf)) - wt uf (last path)" arbitrary: path p rule: less_induct)
  case less
  note ok = uf_okD[OF assms(1) less.prems(2)]
  show ?case
  proof (cases "p = last path")
    case True
    then show ?thesis using less.prems by (subst climb.simps) (auto simp: is_root_def)
  next
    case False
    then have lt: "wt uf (last path) < wt uf p" using ok(3) by auto
    obtain q where q: "parent_of uf p = Some q" using ok(1) by auto
    have chain: "chain_ok uf t (path @ [p])"
      using less.prems(1) lt ok False q less.prems(2) unfolding chain_ok_def is_root_def
      by (auto intro: rtrancl_trans)
    obtain w where w: "map_of (uf_weights uf) p = Some w" using uf_okD(4)[OF assms(1) q] by auto
    have "wt uf p \<le> sum_list (map snd (uf_weights uf))" using wt_bound[OF w] w by simp
    then have "sum_list (map snd (uf_weights uf)) - wt uf (last (path @ [p])) < sum_list (map snd (uf_weights uf)) - wt uf (last path)"
      using lt by simp
    from less.hyps[OF this chain] q obtain path' where p': "climb (uf_parents uf) (path @ [p]) q = Some (Inr (path', last path'))"
      "chain_ok uf t path'" "is_root uf (last path')" "set (path @ [p]) \<subseteq> set path'" by auto
    have "climb (uf_parents uf) path p = climb (uf_parents uf) (path @ [p]) q" using False q by (subst climb.simps) simp
    then show ?thesis using p' by (intro exI[of _ path']) auto
  qed
qed

lemma compressed: "map_of (fold (\<lambda>a d. AList.update a r d) path d) x = (if x \<in> set path then Some r else map_of d x)"
  by (induction path arbitrary: d) (auto simp: dict_simps)

text \<open>What a look-up keeps: the vertices known and the roots, except for a new vertex, and the vertices that hang directly below a root.\<close>

definition found :: "union_find \<Rightarrow> edge list \<Rightarrow> nat \<Rightarrow> nat \<Rightarrow> union_find \<Rightarrow> bool" where
  "found uf t x r uf' \<longleftrightarrow> uf_ok uf' t \<and> (x, r) \<in> (linked t)\<^sup>* \<and> is_root uf' r \<and> parent_of uf' x = Some r \<and> known uf' = insert x (known uf) \<and>
     (\<forall>y s. parent_of uf y = Some s \<longrightarrow> is_root uf s \<longrightarrow> parent_of uf' y = Some s) \<and> roots uf' = roots uf \<union> ({x} - known uf)"

lemma root_stays: "(r, s) \<in> (steps uf)\<^sup>* \<Longrightarrow> is_root uf r \<Longrightarrow> s = r"
  by (induction rule: rtrancl_induct) (simp_all add: is_root_def)

lemma below_root: "(y, s) \<in> (steps uf)\<^sup>* \<Longrightarrow> parent_of uf y = Some r \<Longrightarrow> is_root uf r \<Longrightarrow> is_root uf s \<Longrightarrow> s = r"
  by (cases rule: converse_rtranclE[of y s]) (auto simp: is_root_def dest: root_stays)

lemma new_vertex:
  assumes "uf_ok uf t" "parent_of uf x = None"
  shows "found uf t x x \<lparr>uf_weights = AList.update x 1 (uf_weights uf), uf_parents = AList.update x x (uf_parents uf)\<rparr>" (is "found _ _ _ _ ?uf")
proof -
  have no: "x \<noteq> p" if "parent_of uf y = Some p" for y p using uf_okD(1)[OF assms(1) that] assms(2) by auto
  have par: "parent_of ?uf y = (if y = x then Some x else parent_of uf y)" for y by (simp add: dict_simps)
  have "uf_ok ?uf t" using assms no unfolding uf_ok_def by (auto simp: dict_simps)
  moreover have "known ?uf = insert x (known uf)" using par by (auto split: if_splits)
  moreover have "parent_of ?uf y = Some s" if "parent_of uf y = Some s" for y s using that assms(2) par by auto
  moreover have "roots ?uf = roots uf \<union> ({x} - known uf)" using assms(2) par by (auto simp: is_root_def dom_def split: if_splits)
  ultimately show ?thesis using par unfolding found_def is_root_def by simp
qed

lemma path_compressed:
  assumes "uf_ok uf t" "chain_ok uf t path" "is_root uf (last path)" "x \<in> set path"
  shows "found uf t x (last path) (uf\<lparr>uf_parents := fold (\<lambda>a d. AList.update a (last path) d) path (uf_parents uf)\<rparr>)" (is "found _ _ _ ?r ?uf")
proof -
  have par: "parent_of ?uf y = (if y \<in> set path then Some ?r else parent_of uf y)" for y by (simp add: compressed)
  have r: "?r \<in> set path" using assms(2) by (simp add: chain_ok_def)
  have chain: "parent_of uf a \<noteq> None" "(a, ?r) \<in> (linked t)\<^sup>*" "(a, ?r) \<in> (steps uf)\<^sup>*"
    "a = ?r \<or> (wt uf a < wt uf ?r \<and> \<not> is_root uf a)" if "a \<in> set path" for a
    using assms(2) that unfolding chain_ok_def by blast+
  have "uf_ok ?uf t"
    unfolding uf_ok_def
  proof (intro conjI allI impI)
    fix y show "(map_of (uf_weights ?uf) y = None) = (parent_of ?uf y = None)"
      using assms(1) chain(1) par by (auto simp: uf_ok_def)
  next
    fix y w show "map_of (uf_weights ?uf) y = Some w \<Longrightarrow> 0 < w" using assms(1) by (simp add: uf_ok_def)
  next
    fix y q assume q: "parent_of ?uf y = Some q"
    show "parent_of ?uf q \<noteq> None" using q par r uf_okD(1)[OF assms(1), of y q] by (auto split: if_splits)
    show "(y, q) \<in> (linked t)\<^sup>*" using q par chain(2) uf_okD(2)[OF assms(1), of y q] by (auto split: if_splits)
    show "y = q \<or> wt ?uf y < wt ?uf q" using q par chain(4) uf_okD(3)[OF assms(1), of y q] by (auto split: if_splits)
  qed
  moreover have "known ?uf = insert x (known uf)" using par chain(1) assms(4) by (auto split: if_splits)
  moreover have "parent_of ?uf y = Some s" if "parent_of uf y = Some s" "is_root uf s" for y s
    using that par below_root[OF chain(3) that assms(3)] by simp
  moreover have "roots ?uf = roots uf \<union> ({x} - known uf)"
  proof -
    have "is_root ?uf y \<longleftrightarrow> is_root uf y" for y using par chain(4) assms(3) by (auto simp: is_root_def)
    moreover have "x \<in> known uf" using chain(1)[OF assms(4)] by auto
    ultimately show ?thesis by simp
  qed
  ultimately show ?thesis using par r assms(4) chain(2) unfolding found_def is_root_def by simp
qed

lemma find_ok:
  assumes "uf_ok uf t"
  shows "\<exists>r uf'. uf_find x uf = Some (Inr (r, uf')) \<and> found uf t x r uf'"
proof (cases "parent_of uf x")
  case None
  then show ?thesis using new_vertex[OF assms None] by (simp add: uf_find_def)
next
  case (Some p)
  have "chain_ok uf t [x]" using Some by (simp add: chain_ok_def)
  from climb_ends[OF assms this] Some obtain path where path: "climb (uf_parents uf) [x] p = Some (Inr (path, last path))" "chain_ok uf t path"
    "is_root uf (last path)" "x \<in> set path" by auto
  show ?thesis using path_compressed[OF assms path(2,3,4)] Some path(1) by (simp add: uf_find_def)
qed

text \<open>Each edge of the tree has joined two trees of the structure.\<close>

definition uf_count :: "union_find \<Rightarrow> edge list \<Rightarrow> bool" where
  "uf_count uf t \<longleftrightarrow> length t + card (roots uf) = card (known uf)"

lemma roots_known: "roots uf \<subseteq> known uf" "finite (known uf)" "finite (roots uf)"
proof -
  show sub: "roots uf \<subseteq> known uf" by (auto simp: is_root_def)
  show fin: "finite (known uf)" by (rule finite_dom_map_of)
  show "finite (roots uf)" by (rule finite_subset[OF sub fin])
qed

lemma find_count: "found uf t x r uf' \<Longrightarrow> uf_count uf t \<Longrightarrow> uf_count uf' t"
proof (cases "x \<in> known uf")
  case True
  then show "found uf t x r uf' \<Longrightarrow> uf_count uf t \<Longrightarrow> uf_count uf' t" by (simp add: found_def uf_count_def insert_absorb)
next
  case False
  then have "x \<notin> roots uf" using roots_known(1) by blast
  then have one: "card (insert x (roots uf)) = Suc (card (roots uf))" "card (insert x (known uf)) = Suc (card (known uf))"
    using card_insert_disjoint[OF roots_known(3)] card_insert_disjoint[OF roots_known(2) False] by blast+
  assume "found uf t x r uf'" "uf_count uf t"
  then have "roots uf' = insert x (roots uf)" "known uf' = insert x (known uf)" using False unfolding found_def by auto
  then show "uf_count uf' t" using \<open>uf_count uf t\<close> one unfolding uf_count_def by simp
qed

lemma hang_ok:
  assumes "uf_ok uf t" "is_root uf h" "is_root uf r" "(r, h) \<in> (linked t')\<^sup>*" "set t \<subseteq> set t'"
  shows "\<exists>uf'. hang_below h r uf = Inr uf' \<and> uf_ok uf' t' \<and> known uf' = known uf \<and> (r \<noteq> h \<longrightarrow> roots uf' = roots uf - {r})"
proof (cases "r = h")
  case True
  have "uf_ok uf t'" using assms(1) linked_mono[OF assms(5)] unfolding uf_ok_def by blast
  then show ?thesis using True assms(2) by (simp add: hang_below_def)
next
  case False
  have par: "parent_of uf h = Some h" "parent_of uf r = Some r" using assms(2,3) by (simp_all add: is_root_def)
  then obtain wh wr where w: "map_of (uf_weights uf) h = Some wh" "map_of (uf_weights uf) r = Some wr"
    using uf_okD(4)[OF assms(1)] by blast
  have pos: "0 < wh" "0 < wr" using assms(1) w unfolding uf_ok_def by simp_all
  let ?uf = "uf\<lparr>uf_weights := AList.update h (wh + wr) (uf_weights uf), uf_parents := AList.update r h (uf_parents uf)\<rparr>"
  have ws: "map_of (uf_weights ?uf) y = (if y = h then Some (wh + wr) else map_of (uf_weights uf) y)" for y
    by (simp add: dict_simps)
  have ps: "parent_of ?uf y = (if y = r then Some h else parent_of uf y)" for y by (simp add: dict_simps)
  have "uf_ok ?uf t'"
    unfolding uf_ok_def
  proof (intro conjI allI impI)
    fix y show "(map_of (uf_weights ?uf) y = None) = (parent_of ?uf y = None)"
      using assms(1) par w unfolding ws ps uf_ok_def by simp
  next
    fix y v show "map_of (uf_weights ?uf) y = Some v \<Longrightarrow> 0 < v"
      using assms(1) pos unfolding ws uf_ok_def by (simp split: if_splits)
  next
    fix y q assume q: "parent_of ?uf y = Some q"
    show "parent_of ?uf q \<noteq> None" using q par uf_okD(1)[OF assms(1), of y q] unfolding ps by (auto split: if_splits)
    show "(y, q) \<in> (linked t')\<^sup>*"
      using q assms(4) linked_mono[OF assms(5) uf_okD(2)[OF assms(1), of y q]] unfolding ps by (auto split: if_splits)
    show "y = q \<or> wt ?uf y < wt ?uf q"
    proof (cases "y = r")
      case True
      then show ?thesis using q w pos False unfolding ps ws by simp
    next
      case other: False
      then have "parent_of uf y = Some q" using q unfolding ps by simp
      then show ?thesis using uf_okD(3)[OF assms(1), of y q] par w unfolding ws by (cases "y = h") auto
    qed
  qed
  moreover have "known ?uf = known uf" using ps par by (auto split: if_splits)
  moreover have "roots ?uf = roots uf - {r}" using ps False by (auto simp: is_root_def split: if_splits)
  ultimately show ?thesis using w False by (simp add: hang_below_def weight_of_def)
qed

lemma hang_root [simp]: "hang_below h h uf = Inr uf"
  by (simp add: hang_below_def)

lemma union_ok:
  assumes "uf_ok uf t" "parent_of uf u = Some ru" "is_root uf ru" "parent_of uf v = Some rv" "is_root uf rv" "ru \<noteq> rv" "uf_count uf t"
  shows "\<exists>uf'. uf_union u v uf = Some (Inr uf') \<and> uf_ok uf' (t @ [(u, v, w)]) \<and> uf_count uf' (t @ [(u, v, w)]) \<and> known uf' = known uf"
proof -
  let ?t = "t @ [(u, v, w)]"
  obtain ru' uf1 where f1: "uf_find u uf = Some (Inr (ru', uf1))" "found uf t u ru' uf1" using find_ok[OF assms(1), of u] by blast
  have "ru' = ru" using f1(2) assms(2,3) unfolding found_def by auto
  note f1 = f1[unfolded this]
  have up1: "parent_of uf1 y = Some s" if "parent_of uf y = Some s" "is_root uf s" for y s using f1(2) that unfolding found_def by blast
  have p1: "parent_of uf1 v = Some rv" "is_root uf1 rv" using up1 assms(4,5) unfolding is_root_def by blast+
  have ok1: "uf_ok uf1 t" using f1(2) by (simp add: found_def)
  obtain rv' uf2 where f2: "uf_find v uf1 = Some (Inr (rv', uf2))" "found uf1 t v rv' uf2" using find_ok[OF ok1, of v] by blast
  have "rv' = rv" using f2(2) p1 unfolding found_def by auto
  note f2 = f2[unfolded this]
  have ok2: "uf_ok uf2 t" "uf_count uf2 t" using f2(2) find_count[OF f2(2) find_count[OF f1(2) assms(7)]] by (simp_all add: found_def)
  have kn: "known uf2 = known uf" using f1(2) f2(2) assms(2,4) unfolding found_def by auto
  have rs: "is_root uf2 ru" "is_root uf2 rv" using f1(2) f2(2) unfolding found_def is_root_def by blast+
  have sub: "set t \<subseteq> set ?t" by auto
  have "(u, v) \<in> linked ?t" by (auto simp: linked_def)
  moreover have "(u, ru) \<in> (linked t)\<^sup>*" "(v, rv) \<in> (linked t)\<^sup>*" using f1(2) f2(2) by (simp_all add: found_def)
  ultimately have "(ru, rv) \<in> (linked ?t)\<^sup>*"
    using linked_mono[OF sub linked_sym] linked_mono[OF sub] by (meson r_into_rtrancl rtrancl_trans)
  note link = this linked_sym[OF this]
  obtain wu wv where w: "map_of (uf_weights uf2) ru = Some wu" "map_of (uf_weights uf2) rv = Some wv"
    using uf_okD(4)[OF ok2(1)] rs unfolding is_root_def by blast
  obtain ufu where hu: "hang_below rv ru uf2 = Inr ufu" "uf_ok ufu ?t" "known ufu = known uf2" "roots ufu = roots uf2 - {ru}"
    using hang_ok[OF ok2(1) rs(2,1) link(1) sub] assms(6) by blast
  obtain ufv where hv: "hang_below ru rv uf2 = Inr ufv" "uf_ok ufv ?t" "known ufv = known uf2" "roots ufv = roots uf2 - {rv}"
    using hang_ok[OF ok2(1) rs link(2) sub] assms(6) by blast
  have one: "card (roots uf2 - {r}) + 1 = card (roots uf2)" if "is_root uf2 r" for r
    using that card_Suc_Diff1[OF roots_known(3)[of uf2], of r] by simp
  have "uf_count ufu ?t" "uf_count ufv ?t"
    using ok2(2) one[OF rs(1)] one[OF rs(2)] unfolding uf_count_def hu(3,4) hv(3,4) by simp_all
  moreover have "uf_union u v uf = Some (Inr (if wu < wv \<or> (wu = wv \<and> ru < rv) then ufu else ufv))"
    using f1(1) f2(1) w hu(1) hv(1) by (simp add: uf_union_def weight_of_def Let_def)
  ultimately show ?thesis using hu(2,3) hv(2,3) kn by (simp split: if_splits)
qed

section \<open>The spanning tree\<close>

abbreviation edge_weight :: "edge \<Rightarrow> real" where
  "edge_weight e \<equiv> snd (snd e)"

definition up_to :: "real \<Rightarrow> edge list \<Rightarrow> edge list" where
  "up_to w t = filter (\<lambda>e. edge_weight e \<le> w) t"

definition grown :: "nat \<Rightarrow> edge list \<Rightarrow> union_find \<Rightarrow> edge list \<Rightarrow> bool" where
  "grown k es uf t \<longleftrightarrow> uf_ok uf t \<and> uf_count uf t \<and> known uf \<subseteq> {..<k} \<and> sorted (map edge_weight es) \<and>
     (\<forall>e \<in> set t. \<forall>f \<in> set es. edge_weight e \<le> edge_weight f) \<and> (\<forall>(u, v, w) \<in> set es. u < k \<and> v < k)"

lemma a_root: "uf_ok uf t \<Longrightarrow> known uf \<noteq> {} \<Longrightarrow> 0 < card (roots uf)"
proof -
  assume ok: "uf_ok uf t" and "known uf \<noteq> {}"
  then obtain x where x: "x \<in> known uf" by blast
  obtain r uf' where "found uf t x r uf'" using find_ok[OF ok] by blast
  then have "r \<in> roots uf" using x unfolding found_def by auto
  then show ?thesis using card_gt_0_iff roots_known(3) by blast
qed

lemma grow_tree_ok:
  assumes "grown k es uf t"
  shows "\<exists>t'. grow_tree es uf t = Some (Inr t') \<and> set t \<subseteq> set t' \<and> set t' \<subseteq> set t \<union> set es \<and>
    (\<forall>(u, v, w) \<in> set es. (u, v) \<in> (linked (up_to w t'))\<^sup>*) \<and> (es \<noteq> [] \<or> known uf \<noteq> {} \<longrightarrow> length t' < k)"
  using assms
proof (induction es arbitrary: uf t)
  case Nil
  have "length t < k" if "known uf \<noteq> {}"
    using a_root[OF _ that, of t] Nil card_mono[of "{..<k}" "known uf"] unfolding grown_def uf_count_def by simp
  then show ?case by simp
next
  case (Cons e es)
  obtain u v w where e: "e = (u, v, w)" by (cases e)
  have ok: "uf_ok uf t" "uf_count uf t" using Cons.prems by (simp_all add: grown_def)
  obtain ru uf1 where f1: "uf_find u uf = Some (Inr (ru, uf1))" "found uf t u ru uf1" using find_ok[OF ok(1), of u] by blast
  have ok1: "uf_ok uf1 t" using f1(2) by (simp add: found_def)
  obtain rv uf2 where f2: "uf_find v uf1 = Some (Inr (rv, uf2))" "found uf1 t v rv uf2" using find_ok[OF ok1, of v] by blast
  have ok2: "uf_ok uf2 t" "uf_count uf2 t" using f2(2) find_count[OF f2(2) find_count[OF f1(2) ok(2)]] by (simp_all add: found_def)
  have kn: "known uf2 \<subseteq> {..<k}" "known uf2 \<noteq> {}" using f1(2) f2(2) Cons.prems unfolding found_def grown_def e by auto
  have light: "edge_weight x \<le> w" if "x \<in> set t" for x using Cons.prems that unfolding grown_def e by auto
  have rest: "sorted (map edge_weight es)" "\<forall>(u, v, w) \<in> set es. u < k \<and> v < k" "\<forall>f \<in> set es. w \<le> edge_weight f"
    "\<forall>e \<in> set t. \<forall>f \<in> set es. edge_weight e \<le> edge_weight f"
    using Cons.prems unfolding grown_def e by auto
  show ?case
  proof (cases "ru = rv")
    case True
    have "grown k es uf2 t" using ok2 kn rest unfolding grown_def by blast
    from Cons.IH[OF this] kn(2) obtain t' where t': "grow_tree es uf2 t = Some (Inr t')" "set t \<subseteq> set t'" "set t' \<subseteq> set t \<union> set es"
      "\<forall>(u, v, w) \<in> set es. (u, v) \<in> (linked (up_to w t'))\<^sup>*" "length t' < k" by blast
    have "(u, ru) \<in> (linked t)\<^sup>*" "(v, rv) \<in> (linked t)\<^sup>*" using f1(2) f2(2) by (simp_all add: found_def)
    then have uv: "(u, v) \<in> (linked t)\<^sup>*" using linked_sym True by (meson rtrancl_trans)
    have "set t \<subseteq> set (up_to w t')" using t'(2) light unfolding up_to_def by auto
    from linked_mono[OF this uv] t' show ?thesis using e f1(1) f2(1) True by (intro exI[of _ t']) auto
  next
    case False
    have p2: "parent_of uf2 u = Some ru" "is_root uf2 ru" "parent_of uf2 v = Some rv" "is_root uf2 rv"
      using f1(2) f2(2) unfolding found_def is_root_def by blast+
    obtain uf3 where u: "uf_union u v uf2 = Some (Inr uf3)" "uf_ok uf3 (t @ [e])" "uf_count uf3 (t @ [e])" "known uf3 = known uf2"
      using union_ok[OF ok2(1) p2 False ok2(2), of w] unfolding e by blast
    have "\<forall>x \<in> set (t @ [e]). \<forall>f \<in> set es. edge_weight x \<le> edge_weight f" using rest(3,4) e by auto
    then have "grown k es uf3 (t @ [e])" using u(2-4) kn rest(1,2) unfolding grown_def by simp
    from Cons.IH[OF this] kn(2) u(4) obtain t' where t': "grow_tree es uf3 (t @ [e]) = Some (Inr t')" "set (t @ [e]) \<subseteq> set t'"
      "set t' \<subseteq> set (t @ [e]) \<union> set es" "\<forall>(u, v, w) \<in> set es. (u, v) \<in> (linked (up_to w t'))\<^sup>*" "length t' < k" by blast
    have "e \<in> set (up_to w t')" using t'(2) e unfolding up_to_def by simp
    then have "(u, v) \<in> linked (up_to w t')" unfolding e linked_def by blast
    then show ?thesis using e f1(1) f2(1) u(1) False t' by (intro exI[of _ t']) auto
  qed
qed

definition tree_over :: "nat \<Rightarrow> edge list \<Rightarrow> bool" where
  "tree_over n t \<longleftrightarrow> (\<forall>(a, b, w) \<in> set t. a < n \<and> b < n \<and> a \<noteq> b) \<and> (\<forall>a < n. \<forall>b < n. (a, b) \<in> (linked t)\<^sup>*)"

lemma tree_grown:
  "\<exists>t. minimum_spanning_tree (build_graph data) = Some (Inr t) \<and>
     set t \<subseteq> {(u, v, point_distance data u v) |u v. two_points data u v} \<and> length t \<le> length data - 1 \<and>
     (\<forall>u v. two_points data u v \<longrightarrow> (u, v) \<in> (linked (up_to (point_distance data u v) t))\<^sup>*)"
proof -
  let ?es = "sorted_edges (build_graph data)"
  have uf: "uf_ok new_union_find []" "uf_count new_union_find []" "known new_union_find = {}"
    by (simp_all add: uf_ok_def new_union_find_def uf_count_def is_root_def)
  have "(\<lambda>(u, v, w). w) = edge_weight" by auto
  then have "sorted (map edge_weight ?es)" unfolding sorted_edges_def by simp
  moreover have "\<forall>(u, v, w) \<in> set ?es. u < length data \<and> v < length data" unfolding set_sorted_edges two_points_def by blast
  ultimately have "grown (length data) ?es new_union_find []" using uf unfolding grown_def by simp
  from grow_tree_ok[OF this] obtain t where t: "grow_tree ?es new_union_find [] = Some (Inr t)" "set t \<subseteq> set ?es"
    "\<forall>(u, v, w) \<in> set ?es. (u, v) \<in> (linked (up_to w t))\<^sup>*" "?es \<noteq> [] \<longrightarrow> length t < length data" by auto
  have "length t \<le> length data - 1" using t(2,4) by (cases "?es = []") auto
  moreover have "(u, v) \<in> (linked (up_to (point_distance data u v) t))\<^sup>*" if "two_points data u v" for u v
  proof -
    have "(u, v, point_distance data u v) \<in> set ?es" using that unfolding set_sorted_edges by blast
    then show ?thesis using t(3) by blast
  qed
  ultimately show ?thesis using t(1,2) unfolding set_sorted_edges minimum_spanning_tree_def by blast
qed

lemma spanning_tree_ok: "\<exists>t. minimum_spanning_tree (build_graph data) = Some (Inr t) \<and> tree_over (length data) t"
proof -
  obtain t where t: "minimum_spanning_tree (build_graph data) = Some (Inr t)"
    "set t \<subseteq> {(u, v, point_distance data u v) |u v. two_points data u v}"
    "\<forall>u v. two_points data u v \<longrightarrow> (u, v) \<in> (linked (up_to (point_distance data u v) t))\<^sup>*" using tree_grown by blast
  have "(a, b) \<in> (linked t)\<^sup>*" if "a < length data" "b < length data" for a b
  proof (cases "a = b")
    case False
    then have "(a, b) \<in> (linked (up_to (point_distance data a b) t))\<^sup>*" using t(3) that unfolding two_points_def by blast
    then show ?thesis using linked_mono[of "up_to (point_distance data a b) t" t] unfolding up_to_def by auto
  qed simp
  moreover have "a < length data \<and> b < length data \<and> a \<noteq> b" if "(a, b, w) \<in> set t" for a b w
    using that t(2) unfolding two_points_def by blast
  ultimately have "tree_over (length data) t" unfolding tree_over_def by blast
  then show ?thesis using t(1) by blast
qed

section \<open>The matching\<close>

definition degree_sum :: "(nat, nat) dict \<Rightarrow> nat" where
  "degree_sum d = sum_list (map snd d)"

lemma degree_sum_update: "map_of d x = Some n \<Longrightarrow> degree_sum (AList.update x k d) + n = degree_sum d + k"
  by (induction d) (auto simp: degree_sum_def split: if_splits)

lemma degree_sum_new: "map_of d x = None \<Longrightarrow> degree_sum (AList.update x k d) = degree_sum d + k"
  by (induction d) (auto simp: degree_sum_def split: if_splits)

lemma touch_facts:
  "degree_sum (touch x d) = degree_sum d" "dom (map_of (touch x d)) = insert x (dom (map_of d))"
  "distinct (map fst d) \<Longrightarrow> distinct (map fst (touch x d))"
  by (auto simp: touch_def degree_sum_new dict_simps distinct_update split: option.splits)

lemma bump_facts:
  "x \<in> dom (map_of d) \<Longrightarrow> degree_sum (bump x d) = degree_sum d + 1" "dom (map_of (bump x d)) = dom (map_of d)"
  "distinct (map fst d) \<Longrightarrow> distinct (map fst (bump x d))"
proof -
  show "degree_sum (bump x d) = degree_sum d + 1" if known: "x \<in> dom (map_of d)"
  proof -
    obtain n where n: "map_of d x = Some n" using known by auto
    show ?thesis using degree_sum_update[OF n, of "n + 1"] n by (simp add: bump_def)
  qed
qed (auto simp: bump_def dict_simps distinct_update split: option.splits if_splits)

lemma degrees_ok:
  assumes "\<forall>(a, b, w) \<in> set t. a < n \<and> b < n"
  shows "even (degree_sum (degrees t))" "distinct (map fst (degrees t))" "dom (map_of (degrees t)) \<subseteq> {..<n}"
proof -
  let ?f = "\<lambda>(a, b, w) d. bump b (bump a (touch b (touch a d)))"
  have step: "even (degree_sum (fold ?f t d)) \<and> distinct (map fst (fold ?f t d)) \<and> dom (map_of (fold ?f t d)) \<subseteq> {..<n}"
    if "even (degree_sum d)" "distinct (map fst d)" "dom (map_of d) \<subseteq> {..<n}" for d
    using assms that
  proof (induction t arbitrary: d)
    case (Cons e t)
    obtain a b w where e: "e = (a, b, w)" by (cases e)
    have "degree_sum (?f e d) = degree_sum d + 2" unfolding e by (simp add: bump_facts touch_facts)
    moreover have "distinct (map fst (?f e d))" using Cons.prems(3) unfolding e by (simp add: bump_facts touch_facts)
    moreover have "dom (map_of (?f e d)) \<subseteq> {..<n}" using Cons.prems(1,4) unfolding e by (simp add: bump_facts touch_facts)
    ultimately show ?case using Cons.IH[of "?f e d"] Cons.prems(1,2) by simp
  qed simp
  show "even (degree_sum (degrees t))" "distinct (map fst (degrees t))" "dom (map_of (degrees t)) \<subseteq> {..<n}"
    using step[of "[]"] unfolding degrees_def by (simp_all add: degree_sum_def)
qed

lemma odd_entries: "even (degree_sum d) = even (length (filter (\<lambda>(x, k). k mod 2 = 1) d))"
  unfolding odd_iff_mod_2_eq_one[symmetric]
proof (induction d)
  case (Cons e d)
  obtain x k where "e = (x, k)" by (cases e)
  then show ?case using Cons by (cases "even k") (simp_all add: degree_sum_def)
qed (simp add: degree_sum_def)

lemma odd_vertexes_ok:
  assumes "\<forall>(a, b, w) \<in> set t. a < n \<and> b < n"
  shows "even (length (find_odd_vertexes t))" "distinct (find_odd_vertexes t)" "set (find_odd_vertexes t) \<subseteq> {..<n}"
proof -
  note ok = degrees_ok[OF assms]
  show "even (length (find_odd_vertexes t))" using ok(1) unfolding odd_entries find_odd_vertexes_def by simp
  show "distinct (find_odd_vertexes t)" unfolding find_odd_vertexes_def by (rule distinct_map_filter[OF ok(2)])
  have "set (find_odd_vertexes t) \<subseteq> dom (map_of (degrees t))" unfolding find_odd_vertexes_def dom_map_of_conv_image_fst by auto
  then show "set (find_odd_vertexes t) \<subseteq> {..<n}" using ok(3) by blast
qed

lemma closest_of_member:
  assumes "v < length data" "set xs \<subseteq> {..<length data} - {v}"
  shows "\<exists>c l. closest_of (build_graph data) v xs best = Inr (c, l) \<and> ((c, l) = best \<or> c \<in> set xs) \<and>
    (snd best = None \<longrightarrow> xs \<noteq> [] \<longrightarrow> c \<in> set xs)"
  using assms
proof (induction xs arbitrary: best)
  case Nil
  then show ?case by (cases best) simp
next
  case (Cons i xs)
  let ?best = "if (case snd best of None \<Rightarrow> True | Some l \<Rightarrow> point_distance data v i < l) then (i, Some (point_distance data v i)) else best"
  have "two_points data v i" using Cons.prems by (auto simp: two_points_def)
  then have "closest_of (build_graph data) v (i # xs) best = closest_of (build_graph data) v xs ?best"
    using graph_at_build[of data v i] Cons.prems(2) by auto
  moreover obtain c l where "closest_of (build_graph data) v xs ?best = Inr (c, l)" "(c, l) = ?best \<or> c \<in> set xs"
    using Cons.IH[of ?best] Cons.prems by auto
  ultimately show ?case by (auto split: if_splits option.splits)
qed

lemma tree_over_more: "tree_over n t \<Longrightarrow> a < n \<Longrightarrow> b < n \<Longrightarrow> a \<noteq> b \<Longrightarrow> tree_over n (t @ [(a, b, w)])"
proof -
  have "set t \<subseteq> set (t @ [(a, b, w)])" by auto
  from linked_mono[OF this] show "tree_over n t \<Longrightarrow> a < n \<Longrightarrow> b < n \<Longrightarrow> a \<noteq> b \<Longrightarrow> ?thesis" unfolding tree_over_def by simp
qed

lemma match_odd_ok:
  assumes "tree_over (length data) t" "distinct xs" "even (length xs)" "set xs \<subseteq> {..<length data}"
  shows "\<exists>t'. match_odd far (build_graph data) xs t = Inr t' \<and> tree_over (length data) t'"
  using assms
proof (induction "length xs" arbitrary: xs t rule: less_induct)
  case less
  show ?case
  proof (cases xs rule: rev_cases)
    case Nil
    then show ?thesis using less.prems(1) by (simp add: match_odd.simps)
  next
    case (snoc ys v)
    have ys: "ys \<noteq> []" "v < length data" "set ys \<subseteq> {..<length data} - {v}" "distinct ys" using less.prems snoc by auto
    obtain c l where c: "closest_of (build_graph data) v ys (0, None) = Inr (c, l)" "c \<in> set ys"
      using closest_of_member[OF ys(2,3), of "(0, None)"] ys(1) by auto
    let ?e = "(v, c, case l of None \<Rightarrow> far | Some d \<Rightarrow> d)"
    have "tree_over (length data) (t @ [?e])" using tree_over_more[OF less.prems(1)] ys c(2) by blast
    moreover have "length (remove1 c ys) < length xs" "even (length (remove1 c ys))" "set (remove1 c ys) \<subseteq> {..<length data}"
      using less.prems(3) snoc c(2) ys(3) set_remove1_subset[of c ys] by (auto simp: length_remove1)
    ultimately obtain t' where "match_odd far (build_graph data) (remove1 c ys) (t @ [?e]) = Inr t'" "tree_over (length data) t'"
      using less.hyps[of "remove1 c ys" "t @ [?e]"] ys(4) by (auto simp: distinct_remove1)
    then show ?thesis using c snoc by (subst match_odd.simps) (simp add: Let_def)
  qed
qed

lemma matching_ok:
  assumes "tree_over (length data) t" "\<And>xs. mset (shuffle xs) = mset xs"
  shows "\<exists>t'. minimum_weight_matching far shuffle t (build_graph data) (find_odd_vertexes t) = Inr t' \<and> tree_over (length data) t'"
proof -
  have "\<forall>(a, b, w) \<in> set t. a < length data \<and> b < length data" using assms(1) unfolding tree_over_def by blast
  note odd = odd_vertexes_ok[OF this]
  have "distinct (shuffle (find_odd_vertexes t))" "even (length (shuffle (find_odd_vertexes t)))"
    "set (shuffle (find_odd_vertexes t)) \<subseteq> {..<length data}"
    using odd assms(2)[of "find_odd_vertexes t"]
    by (metis mset_eq_imp_distinct_iff, metis mset_eq_length, metis mset_eq_setD)
  from match_odd_ok[OF assms(1) this] show ?thesis unfolding minimum_weight_matching_def .
qed


section \<open>The tour\<close>

text \<open>How often two vertices are neighbours, and how many unused edges join them.\<close>

definition cnt :: "neighbours \<Rightarrow> nat \<Rightarrow> nat \<Rightarrow> nat" where
  "cnt n a b = (case map_of n a of None \<Rightarrow> 0 | Some l \<Rightarrow> count_list l b)"

definition joined :: "edge list \<Rightarrow> nat \<Rightarrow> nat \<Rightarrow> nat" where
  "joined m a b = length (filter (joins a b) m)"

definition neighbours_ok :: "nat \<Rightarrow> neighbours \<Rightarrow> bool" where
  "neighbours_ok k n \<longleftrightarrow> dom (map_of n) = {..<k} \<and> (\<forall>a b. cnt n a b = cnt n b a) \<and> (\<forall>a. cnt n a a = 0)"

text \<open>
  The state of the loop for the edges \<open>m0\<close> of the tour: an edge joins vertices that are still neighbours, and an edge of \<open>m0\<close> is unused
  or both its ends are on the tour.
\<close>

definition tour_ok :: "nat \<Rightarrow> edge list \<Rightarrow> edge list \<Rightarrow> neighbours \<Rightarrow> nat list \<Rightarrow> bool" where
  "tour_ok k m0 m n ep \<longleftrightarrow> neighbours_ok k n \<and> (\<forall>a b. joined m a b \<le> cnt n a b) \<and> set ep \<subseteq> {..<k} \<and>
     (\<forall>a b. 0 < joined m0 a b \<longrightarrow> 0 < joined m a b \<or> (a \<in> set ep \<and> b \<in> set ep))"

lemma joins_same: "joins a b e \<Longrightarrow> joins v w e \<Longrightarrow> (a = v \<and> b = w) \<or> (a = w \<and> b = v)"
  by (cases e) (auto simp: joins_def)

lemma joins_sym: "joins a b = joins b a"
  by (auto simp: joins_def fun_eq_iff)

lemma count_pos: "0 < count_list xs x \<longleftrightarrow> x \<in> set xs"
  by (simp add: zero_less_iff_neq_zero count_list_0_iff)

lemma count_remove1: "x \<in> set xs \<Longrightarrow> count_list (remove1 x xs) y + (if x = y then 1 else 0) = count_list xs y"
  by (induction xs) auto

lemma joined_simps [simp]: "joined [] a b = 0" "joined (e # m) a b = (if joins a b e then Suc (joined m a b) else joined m a b)"
  by (simp_all add: joined_def)

lemma joined_sym: "joined m a b = joined m b a"
  unfolding joined_def joins_sym[of a b] ..

lemma remove_edge_other:
  assumes "\<not> ((a = v \<and> b = w) \<or> (a = w \<and> b = v))"
  shows "joined (remove_edge m v w) a b = joined m a b"
  using assms
proof (induction m v w rule: remove_edge.induct)
  case (2 e es v w)
  then show ?case using joins_same[of a b e v w] by (cases "joins v w e") (auto split: list.split)
qed simp

lemma remove_edge_same: "joined (remove_edge m v w) v w \<le> joined m v w - 1"
proof (induction m v w rule: remove_edge.induct)
  case (2 e es v w)
  show ?case
  proof (cases "joins v w e")
    case True
    then show ?thesis using 2(1)[OF True] by (cases es) auto
  next
    case False
    then show ?thesis using 2(2) by simp
  qed
qed simp

lemma set_insert_at [simp]: "set (insert_at i x xs) = insert x (set xs)"
proof -
  have "set xs = set (take i xs) \<union> set (drop i xs)" by (metis append_take_drop_id set_append)
  then show ?thesis by (simp add: insert_at_def)
qed

lemma open_neighbour: "neighbours_ok k n \<Longrightarrow> 0 < cnt n a b \<Longrightarrow> (\<exists>x xs. map_of n a = Some (x # xs)) \<and> a < k \<and> b < k \<and> a \<noteq> b"
proof -
  assume ok: "neighbours_ok k n" and pos: "0 < cnt n a b"
  have "0 < cnt n b a" "a \<noteq> b" using ok pos unfolding neighbours_ok_def by (simp, metis less_irrefl)
  then have "a \<in> dom (map_of n)" "b \<in> dom (map_of n)" using pos unfolding cnt_def by (auto split: option.splits)
  moreover have "\<exists>x xs. map_of n a = Some (x # xs)"
    using pos unfolding cnt_def by (cases "the (map_of n a)") (auto split: option.splits)
  ultimately show ?thesis using ok \<open>a \<noteq> b\<close> unfolding neighbours_ok_def by auto
qed

lemma walk_step:
  assumes "tour_ok k m0 m n ep" "v \<in> set ep" "map_of n v = Some (w # ws)"
  shows "\<exists>ends. map_of (AList.update v ws n) w = Some ends \<and> v \<in> set ends \<and>
    tour_ok k m0 (remove_edge m v w) (AList.update w (remove1 v ends) (AList.update v ws n)) (insert_at i w ep) \<and>
    open_ends (AList.update w (remove1 v ends) (AList.update v ws n)) < open_ends n"
proof -
  have ok: "neighbours_ok k n" using assms(1) by (simp add: tour_ok_def)
  have vw: "0 < cnt n v w" using assms(3) by (simp add: cnt_def)
  have ne: "v \<noteq> w" "w < k" using open_neighbour[OF ok vw] by simp_all
  have wv: "0 < cnt n w v" using ok vw by (simp add: neighbours_ok_def)
  then obtain ends where ends: "map_of n w = Some ends" "v \<in> set ends"
    unfolding cnt_def by (auto simp: count_pos split: option.splits)
  let ?n1 = "AList.update v ws n" and ?n = "AList.update w (remove1 v ends) (AList.update v ws n)"
  have e1: "map_of ?n1 w = Some ends" using ends ne by (simp add: dict_simps)
  have n': "map_of ?n a = (if a = w then Some (remove1 v ends) else if a = v then Some ws else map_of n a)" for a
    by (simp add: dict_simps)
  have c: "cnt ?n a b + (if (a = v \<and> b = w) \<or> (a = w \<and> b = v) then 1 else 0) = cnt n a b" for a b
    using assms(3) ends ne count_remove1[OF ends(2), of b] unfolding cnt_def n' by auto
  have sym: "cnt n a b = cnt n b a" "cnt n a a = 0" for a b using ok by (simp_all add: neighbours_ok_def)
  have "neighbours_ok k ?n"
    unfolding neighbours_ok_def
  proof (intro conjI allI)
    have "dom (map_of ?n) = dom (map_of n)" using ends assms(3) by (auto simp: n' split: if_splits)
    then show "dom (map_of ?n) = {..<k}" using ok by (simp add: neighbours_ok_def)
    show "cnt ?n a b = cnt ?n b a" for a b using c[of a b] c[of b a] sym(1)[of a b] by (auto split: if_splits)
    show "cnt ?n a a = 0" for a using c[of a a] sym(2)[of a] by simp
  qed
  moreover have "joined (remove_edge m v w) a b \<le> cnt ?n a b" for a b
  proof (cases "(a = v \<and> b = w) \<or> (a = w \<and> b = v)")
    case True
    have "joined m v w \<le> cnt n v w" using assms(1) by (simp add: tour_ok_def)
    moreover have "joined (remove_edge m v w) a b = joined (remove_edge m v w) v w" "cnt n a b = cnt n v w"
      using True sym(1) joined_sym by (auto simp: joined_sym)
    ultimately show ?thesis using remove_edge_same[of m v w] c[of a b] True vw by auto
  next
    case False
    have "joined m a b \<le> cnt n a b" using assms(1) by (simp add: tour_ok_def)
    then show ?thesis using remove_edge_other[OF False, of m] c[of a b] False by auto
  qed
  moreover have "0 < joined (remove_edge m v w) a b \<or> (a \<in> set (insert_at i w ep) \<and> b \<in> set (insert_at i w ep))" if "0 < joined m0 a b" for a b
  proof (cases "(a = v \<and> b = w) \<or> (a = w \<and> b = v)")
    case True
    then show ?thesis using assms(2) by auto
  next
    case False
    have "0 < joined m a b \<or> (a \<in> set ep \<and> b \<in> set ep)" using assms(1) that unfolding tour_ok_def by blast
    then show ?thesis using remove_edge_other[OF False, of m] by auto
  qed
  moreover have "set (insert_at i w ep) \<subseteq> {..<k}" using assms(1) ne by (simp add: tour_ok_def)
  ultimately have "tour_ok k m0 (remove_edge m v w) ?n (insert_at i w ep)" unfolding tour_ok_def by blast
  moreover have "open_ends ?n < open_ends n"
    using open_ends_update[OF assms(3), of ws] open_ends_update[OF e1, of "remove1 v ends"] ends(2) by (simp add: length_remove1)
  ultimately show ?thesis using e1 ends(2) by blast
qed

lemma walk_ok:
  assumes "tour_ok k m0 m n ep" "v \<in> set ep"
  shows "\<exists>m' n' ep'. walk m n v i ep = Inr (m', n', ep') \<and> tour_ok k m0 m' n' ep' \<and> set ep \<subseteq> set ep' \<and>
    open_ends n' \<le> open_ends n \<and> (map_of n v = Some [] \<or> open_ends n' < open_ends n)"
  using assms
proof (induction "open_ends n" arbitrary: m n v i ep rule: less_induct)
  case less
  have "v \<in> dom (map_of n)" using less.prems unfolding tour_ok_def neighbours_ok_def by blast
  then obtain l where l: "map_of n v = Some l" by auto
  show ?case
  proof (cases l)
    case Nil
    then show ?thesis using l less.prems by (simp add: walk.simps)
  next
    case (Cons w ws)
    let ?ep = "insert_at (i + 1) w ep"
    obtain ends where s: "map_of (AList.update v ws n) w = Some ends" "v \<in> set ends"
      "tour_ok k m0 (remove_edge m v w) (AList.update w (remove1 v ends) (AList.update v ws n)) ?ep"
      "open_ends (AList.update w (remove1 v ends) (AList.update v ws n)) < open_ends n"
      using walk_step[OF less.prems, of w ws "i + 1"] l Cons by blast
    have "w \<in> set ?ep" by simp
    from less.hyps[OF s(4) s(3) this] obtain m' n' ep' where w: "walk (remove_edge m v w) (AList.update w (remove1 v ends) (AList.update v ws n)) w (i + 1) ?ep =
        Inr (m', n', ep')" "tour_ok k m0 m' n' ep'" "set ?ep \<subseteq> set ep'"
      "open_ends n' \<le> open_ends (AList.update w (remove1 v ends) (AList.update v ws n))" by blast
    have "walk m n v i ep = Inr (m', n', ep')" using l Cons s(1,2) w(1) by (subst walk.simps) simp
    moreover have "set ep \<subseteq> set ep'" "open_ends n' < open_ends n" using w(3,4) s(4) by auto
    ultimately show ?thesis using w(2) by (intro exI[of _ m'] exI[of _ n'] exI[of _ ep']) simp
  qed
qed

lemma first_open_ok:
  assumes "set ep \<subseteq> dom (map_of n)" "\<exists>v \<in> set ep. map_of n v \<noteq> Some []"
  shows "\<exists>i v. first_open n j ep = Inr (Some (i, v)) \<and> v \<in> set ep \<and> map_of n v \<noteq> Some []"
  using assms
proof (induction ep arbitrary: j)
  case (Cons v ep)
  then obtain l where l: "map_of n v = Some l" by auto
  show ?case
  proof (cases "l = []")
    case True
    then show ?thesis using Cons.IH[of "j + 1"] Cons.prems l by auto
  qed (simp add: l)
qed simp

lemma linked_joined: "(a, b) \<in> linked m \<longleftrightarrow> 0 < joined m a b"
  by (auto simp: linked_def joined_def joins_def filter_empty_conv)

lemma leaves_set: "(a, b) \<in> r\<^sup>* \<Longrightarrow> a \<in> S \<Longrightarrow> b \<notin> S \<Longrightarrow> \<exists>x y. (x, y) \<in> r \<and> x \<in> S \<and> y \<notin> S"
  by (induction rule: rtrancl_induct) blast+

lemma tour_not_stuck:
  assumes "tour_ok k m0 m n ep" "tree_over k m0" "ep \<noteq> []" "m \<noteq> []"
  shows "\<exists>v \<in> set ep. map_of n v \<noteq> Some []"
proof -
  have ok: "neighbours_ok k n" and le: "joined m a b \<le> cnt n a b" and ep: "set ep \<subseteq> {..<k}" for a b
    using assms(1) by (simp_all add: tour_ok_def)
  obtain a b w es where m: "m = (a, b, w) # es" using assms(4) by (metis list.exhaust prod_cases3)
  have "0 < cnt n a b" using le[of a b] m by (simp add: joins_def)
  note a = open_neighbour[OF ok this]
  obtain e where e: "e \<in> set ep" using assms(3) by (cases ep) auto
  show ?thesis
  proof (cases "a \<in> set ep")
    case True
    then show ?thesis using a by (intro bexI[of _ a]) auto
  next
    case False
    have "(e, a) \<in> (linked m0)\<^sup>*" using assms(2) e ep a unfolding tree_over_def by blast
    from leaves_set[OF this e False] obtain x y where xy: "0 < joined m0 x y" "x \<in> set ep" "y \<notin> set ep" unfolding linked_joined by blast
    then have "0 < joined m x y" using assms(1) unfolding tour_ok_def by blast
    then have "0 < cnt n x y" using le[of x y] by simp
    from open_neighbour[OF ok this] xy(2) show ?thesis by (intro bexI[of _ x]) auto
  qed
qed

lemma extend_tour_ok:
  assumes "tour_ok k m0 m n ep" "tree_over k m0" "ep \<noteq> []"
  shows "\<exists>ep'. extend_tour m n ep = Some (Inr ep') \<and> set ep' \<subseteq> {..<k} \<and> (\<forall>a b. 0 < joined m0 a b \<longrightarrow> a \<in> set ep' \<and> b \<in> set ep')"
  using assms(1,3)
proof (induction "open_ends n" arbitrary: m n ep rule: less_induct)
  case less
  show ?case
  proof (cases "m = []")
    case True
    then show ?thesis using less.prems unfolding tour_ok_def by (subst extend_tour.simps) auto
  next
    case False
    have "set ep \<subseteq> dom (map_of n)" using less.prems(1) unfolding tour_ok_def neighbours_ok_def by blast
    from first_open_ok[OF this tour_not_stuck[OF less.prems(1) assms(2) less.prems(2) False], of 0]
    obtain i v where v: "first_open n 0 ep = Inr (Some (i, v))" "v \<in> set ep" "map_of n v \<noteq> Some []" by blast
    obtain m' n' ep' where w: "walk m n v i ep = Inr (m', n', ep')" "tour_ok k m0 m' n' ep'" "set ep \<subseteq> set ep'" "open_ends n' < open_ends n"
      using walk_ok[OF less.prems(1) v(2), of i] v(3) by blast
    have "ep' \<noteq> []" using w(3) less.prems(2) by auto
    moreover have "extend_tour m n ep = extend_tour m' n' ep'" using False v(1) w(1) by (subst extend_tour.simps) simp
    ultimately show ?thesis using less.hyps[OF w(4,2)] by simp
  qed
qed


lemma open_entry_facts:
  "cnt (open_entry a n) x y = cnt n x y" "dom (map_of (open_entry a n)) = insert a (dom (map_of n))"
  by (auto simp: open_entry_def cnt_def dict_simps split: option.splits if_splits)

lemma add_neighbour_facts:
  "a \<in> dom (map_of n) \<Longrightarrow> cnt (add_neighbour a b n) x y = cnt n x y + (if x = a \<and> y = b then 1 else 0)"
  "dom (map_of (add_neighbour a b n)) = dom (map_of n)"
  by (auto simp: add_neighbour_def cnt_def dict_simps split: option.splits if_splits)

lemma build_neighbours_counts:
  assumes "\<forall>(a, b, w) \<in> set es. a \<noteq> b"
  shows "cnt (build_neighbours es) x y = joined es x y" "dom (map_of (build_neighbours es)) = fst ` set es \<union> (fst \<circ> snd) ` set es"
proof -
  let ?f = "\<lambda>(a, b, w) n. add_neighbour b a (add_neighbour a b (open_entry b (open_entry a n)))"
  have step: "cnt (fold ?f es n) x y = cnt n x y + joined es x y \<and>
      dom (map_of (fold ?f es n)) = dom (map_of n) \<union> (fst ` set es \<union> (fst \<circ> snd) ` set es)" for n
    using assms
  proof (induction es arbitrary: n)
    case (Cons e es)
    obtain a b w where e: "e = (a, b, w)" by (cases e)
    have "a \<noteq> b" using Cons.prems e by simp
    then have "cnt (?f e n) x y = cnt n x y + (if joins x y e then 1 else 0)"
      unfolding e joins_def by (auto simp: add_neighbour_facts open_entry_facts)
    moreover have "dom (map_of (?f e n)) = dom (map_of n) \<union> {a, b}" unfolding e by (auto simp: add_neighbour_facts open_entry_facts)
    ultimately show ?case using Cons.IH[of "?f e n"] Cons.prems e by auto
  qed simp
  show "cnt (build_neighbours es) x y = joined es x y" "dom (map_of (build_neighbours es)) = fst ` set es \<union> (fst \<circ> snd) ` set es"
    using step[of "[]"] unfolding build_neighbours_def by (simp_all add: cnt_def)
qed

lemma every_vertex_has_an_edge:
  assumes "tree_over k m" "2 \<le> k" "a < k"
  shows "\<exists>b. 0 < joined m a b"
proof -
  obtain b where b: "b < k" "a \<noteq> b" using assms(2,3) by (cases "a = 0") (metis Suc_1 Suc_le_eq zero_neq_one less_trans, metis assms(3) less_trans not_gr_zero)
  then have "(a, b) \<in> (linked m)\<^sup>*" using assms unfolding tree_over_def by blast
  then show ?thesis using b(2) by (cases rule: converse_rtranclE) (auto simp: linked_joined)
qed

lemma joined_edge: "0 < joined m a b \<Longrightarrow> \<exists>w. (a, b, w) \<in> set m \<or> (b, a, w) \<in> set m"
  unfolding linked_joined[symmetric] linked_def by blast

lemma neighbours_built:
  assumes "tree_over k m" "2 \<le> k"
  shows "neighbours_ok k (build_neighbours m)"
proof -
  have "\<forall>(a, b, w) \<in> set m. a \<noteq> b" using assms(1) unfolding tree_over_def by blast
  note built = build_neighbours_counts[OF this]
  have "joined m a a = 0" for a using joined_edge[of m a a] assms(1) unfolding tree_over_def by (cases "joined m a a") auto
  moreover have "dom (map_of (build_neighbours m)) = {..<k}"
  proof
    show "dom (map_of (build_neighbours m)) \<subseteq> {..<k}" using assms(1) unfolding built(2) tree_over_def by auto
    show "{..<k} \<subseteq> dom (map_of (build_neighbours m))"
    proof
      fix a assume "a \<in> {..<k}"
      then obtain b where "0 < joined m a b" using every_vertex_has_an_edge[OF assms] by auto
      then obtain w where "(a, b, w) \<in> set m \<or> (b, a, w) \<in> set m" using joined_edge by blast
      then show "a \<in> dom (map_of (build_neighbours m))" unfolding built(2) by force
    qed
  qed
  ultimately show ?thesis unfolding neighbours_ok_def built(1) using joined_sym by blast
qed

lemma find_tour_ok:
  assumes "tree_over k m" "2 \<le> k"
  shows "\<exists>tour. find_eulerian_tour m = Some (Inr tour) \<and> set tour = {..<k}"
proof -
  let ?n = "build_neighbours m"
  note ok = neighbours_built[OF assms]
  have "\<forall>(a, b, w) \<in> set m. a \<noteq> b" using assms(1) unfolding tree_over_def by blast
  note cnts = build_neighbours_counts(1)[OF this]
  obtain c where "0 < joined m 0 c" using every_vertex_has_an_edge[OF assms, of 0] assms(2) by auto
  then obtain a b w es where m: "m = (a, b, w) # es" by (cases m) auto
  have "0 < joined m a b" unfolding m by (simp add: joins_def)
  then have ab: "0 < cnt ?n a b" by (simp add: cnts)
  obtain x xs where x: "map_of ?n a = Some (x # xs)" using open_neighbour[OF ok ab] by blast
  have "0 < cnt ?n a x" using x by (simp add: cnt_def)
  then have "x < k" using open_neighbour[OF ok] by blast
  then have "tour_ok k m m ?n [x]" using ok unfolding tour_ok_def by (simp add: cnts)
  from extend_tour_ok[OF this assms(1)] obtain tour where t: "extend_tour m ?n [x] = Some (Inr tour)" "set tour \<subseteq> {..<k}"
    "\<forall>a b. 0 < joined m a b \<longrightarrow> a \<in> set tour \<and> b \<in> set tour" by auto
  have "{..<k} \<subseteq> set tour" using every_vertex_has_an_edge[OF assms] t(3) by blast
  moreover have "find_eulerian_tour m = extend_tour m ?n [x]" using x unfolding find_eulerian_tour_def Let_def m by simp
  ultimately show ?thesis using t(1,2) by auto
qed

section \<open>The route\<close>

definition path_length :: "(real \<times> real) list \<Rightarrow> nat list \<Rightarrow> real" where
  "path_length data path = sum_list (map2 (point_distance data) path (tl path))"

lemma path_length_append: "path \<noteq> [] \<Longrightarrow> path_length data (path @ [x]) = path_length data path + point_distance data (last path) x"
proof (induction path)
  case (Cons a path)
  then show ?case by (cases path) (simp_all add: path_length_def)
qed simp

definition shorten_ok :: "nat \<Rightarrow> bool list \<Rightarrow> nat list \<Rightarrow> bool" where
  "shorten_ok k visited path \<longleftrightarrow> k \<le> length visited \<and> path \<noteq> [] \<and> distinct path \<and> set path \<subseteq> {..<k} \<and> (\<forall>i < k. visited ! i \<longleftrightarrow> i \<in> set path)"

lemma shorten_works:
  assumes "shorten_ok (length data) visited path" "set xs \<subseteq> {..<length data}" "len = path_length data path"
  shows "\<exists>path'. shorten (build_graph data) xs (last path) visited path len = Inr (path_length data path', path') \<and> distinct path' \<and>
    set path' = set path \<union> set xs"
  using assms
proof (induction xs arbitrary: visited path len)
  case Nil
  then show ?case by (auto simp: shorten_ok_def)
next
  case (Cons x xs)
  have x: "x < length data" "\<not> length visited \<le> x" "visited ! x \<longleftrightarrow> x \<in> set path" "path \<noteq> []" using Cons.prems(1,2) unfolding shorten_ok_def by auto
  have last: "last path < length data" using Cons.prems(1) last_in_set[OF x(4)] unfolding shorten_ok_def by blast
  show ?case
  proof (cases "visited ! x")
    case True
    then have "insert x (set path) = set path" using x(3) by auto
    then show ?thesis using Cons.IH[OF Cons.prems(1) _ Cons.prems(3)] Cons.prems(2) x True by auto
  next
    case False
    then have new: "x \<notin> set path" using x(3) by simp
    then have "two_points data (last path) x" using x last last_in_set[OF x(4)] unfolding two_points_def by auto
    note d = graph_at_build[OF this]
    have "shorten_ok (length data) (visited[x := True]) (path @ [x])"
      using Cons.prems(1) new x(1,2) unfolding shorten_ok_def by (auto simp: nth_list_update)
    from Cons.IH[OF this, of "len + point_distance data (last path) x"] Cons.prems(2,3) path_length_append[OF x(4)]
    obtain path' where "shorten (build_graph data) xs x (visited[x := True]) (path @ [x]) (len + point_distance data (last path) x) =
        Inr (path_length data path', path')" "distinct path'" "set path' = set (path @ [x]) \<union> set xs" by auto
    then show ?thesis using x(2) False d by (intro exI[of _ path']) auto
  qed
qed

lemma tsp_route:
  assumes "2 \<le> length data" "\<And>xs. mset (shuffle xs) = mset xs"
  shows "\<exists>path. tsp far shuffle data = Some (Inr (path_length data path, path)) \<and> distinct path \<and> set path = {..<length data}"
proof -
  obtain t where t: "minimum_spanning_tree (build_graph data) = Some (Inr t)" "tree_over (length data) t" using spanning_tree_ok by blast
  obtain m where m: "minimum_weight_matching far shuffle t (build_graph data) (find_odd_vertexes t) = Inr m" "tree_over (length data) m"
    using matching_ok[of data t shuffle far, OF t(2) assms(2)] by blast
  obtain tour where tour: "find_eulerian_tour m = Some (Inr tour)" "set tour = {..<length data}" using find_tour_ok[OF m(2) assms(1)] by blast
  obtain c cs where cs: "tour = c # cs" using tour(2) assms(1) by (cases tour) (fastforce simp: lessThan_empty_iff)+
  have c: "c < length data" "set cs \<subseteq> {..<length data}" using tour(2) unfolding cs by auto
  have long: "length data \<le> length tour" using card_length[of tour] tour(2) by simp
  then have "shorten_ok (length data) ((replicate (length tour) False)[c := True]) [c]"
    using c by (auto simp: shorten_ok_def nth_list_update)
  from shorten_works[OF this c(2)] obtain path where p:
    "shorten (build_graph data) cs c ((replicate (length tour) False)[c := True]) [c] 0 = Inr (path_length data path, path)"
    "distinct path" "set path = {c} \<union> set cs" by (auto simp: path_length_def)
  have "tsp far shuffle data = Some (Inr (path_length data path, path))"
    unfolding tsp_def Let_def t(1) loop_bind_simps m(1) tour(1) using p(1) c(1) long cs by simp
  moreover have "set path = {..<length data}" using p(3) tour(2) unfolding cs by simp
  ultimately show ?thesis using p(2) by blast
qed

text \<open>Points in a line or at the same place need no care: two points are enough. With fewer the calculation raises.\<close>

lemma too_few_points:
  assumes "length coords < 2" "shuffle [] = []"
  shows "route_calc_impl far shuffle coords = Some (Inl IndexError)"
proof -
  have "build_graph coords = []" using assms by (cases coords) (simp_all add: build_graph_def Let_def)
  then have "minimum_spanning_tree (build_graph coords) = Some (Inr [])" by (simp add: minimum_spanning_tree_def sorted_edges_def)
  moreover have "minimum_weight_matching far shuffle [] (build_graph coords) (find_odd_vertexes []) = Inr []"
    using assms(2) by (simp add: minimum_weight_matching_def find_odd_vertexes_def degrees_def match_odd.simps)
  moreover have "find_eulerian_tour [] = Some (Inl IndexError)" by (simp add: find_eulerian_tour_def Let_def)
  ultimately show ?thesis unfolding route_calc_impl_def tsp_def Let_def by simp
qed

text \<open>
  C17. The quick calculation of a route ends with a route: for two or more points, wherever they are and however the odd vertices are
  shuffled, none of its loops runs for ever and none of its look-ups fails; the route visits every point exactly once and its length is the
  sum of the distances between the points next to each other.
\<close>

theorem tour_visits_every_point:
  assumes "2 \<le> length data" "\<And>xs. mset (shuffle xs) = mset xs"
  shows "\<exists>path. tsp far shuffle data = Some (Inr (path_length data path, path)) \<and>
    route_calc_impl far shuffle data = Some (Inr path) \<and> mset path = mset [0..<length data]"
proof -
  obtain path where p: "tsp far shuffle data = Some (Inr (path_length data path, path))" "distinct path" "set path = {..<length data}"
    using tsp_route[OF assms] by blast
  have "mset path = mset [0..<length data]" using p(2,3) by (subst set_eq_iff_mset_eq_distinct[symmetric]) (auto simp: atLeast0LessThan)
  then show ?thesis using p(1) by (simp add: route_calc_impl_def)
qed

text \<open>
  C18. The spanning tree is a minimal one: it has an edge less than there are points, and any two points are joined by edges of the tree that
  are no longer than the distance between the two, so no edge of the complete graph can replace a longer one.
\<close>

theorem spanning_tree_is_minimal:
  assumes "data \<noteq> []"
  shows "\<exists>t. minimum_spanning_tree (build_graph data) = Some (Inr t) \<and> length t < length data \<and>
    (\<forall>(u, v, w) \<in> set t. u < length data \<and> v < length data \<and> w = point_distance data u v) \<and>
    (\<forall>u < length data. \<forall>v < length data. (u, v) \<in> (linked (filter (\<lambda>(_, _, w). w \<le> point_distance data u v) t))\<^sup>*)"
proof -
  obtain t where t: "minimum_spanning_tree (build_graph data) = Some (Inr t)"
    "set t \<subseteq> {(u, v, point_distance data u v) |u v. two_points data u v}" "length t \<le> length data - 1"
    "\<forall>u v. two_points data u v \<longrightarrow> (u, v) \<in> (linked (up_to (point_distance data u v) t))\<^sup>*" using tree_grown by blast
  have "(\<lambda>(_, _, w). w \<le> x) = (\<lambda>e. edge_weight e \<le> x)" for x :: real by auto
  then have "(u, v) \<in> (linked (filter (\<lambda>(_, _, w). w \<le> point_distance data u v) t))\<^sup>*" if "u < length data" "v < length data" for u v
    using t(4) that unfolding two_points_def up_to_def by (cases "u = v") auto
  moreover have "length t < length data" using t(3) assms by (cases data) auto
  moreover have "\<forall>(u, v, w) \<in> set t. u < length data \<and> v < length data \<and> w = point_distance data u v"
    using t(2) unfolding two_points_def by blast
  ultimately show ?thesis using t(1) by blast
qed

theorem tour_visits_every_point_witness:
  "\<exists>path. tsp 0 (\<lambda>xs. rev xs) [(0, 0), (3, 4), (6, 8)] = Some (Inr (path_length [(0, 0), (3, 4), (6, 8)] path, path)) \<and>
     route_calc_impl 0 (\<lambda>xs. rev xs) [(0, 0), (3, 4), (6, 8)] = Some (Inr path) \<and> mset path = {#0, 1, 2#}"
proof -
  have "mset [0..<length ([(0, 0), (3, 4), (6, 8)] :: (real \<times> real) list)] = {#0, 1, 2#}" by (simp add: upt_conv_Cons)
  then show ?thesis using tour_visits_every_point[of "[(0, 0), (3, 4), (6, 8)]" "\<lambda>xs. rev xs" 0] by (simp add: numeral_2_eq_2)
qed

theorem spanning_tree_is_minimal_witness:
  "\<exists>t. minimum_spanning_tree (build_graph [(0, 0), (3, 4)]) = Some (Inr t) \<and> length t < 2 \<and>
     (0, 1) \<in> (linked (filter (\<lambda>(_, _, w). w \<le> point_distance [(0, 0), (3, 4)] 0 1) t))\<^sup>*"
  using spanning_tree_is_minimal[of "[(0, 0), (3, 4)]"] by fastforce

end
