(* ===== verification/RouteCalc.thy ===== *)
theory RouteCalc
  imports Clustering Geofence Tour
begin

text \<open>
  \<open>mapadroid/route/routecalc/RoutecalcUtil.py\<close> and \<open>calculate_route_all.py\<close>: the route of an area, loaded from its row of the table
  \<open>settings_routecalc\<close> or calculated by clustering the coordinates and finding a short route through the clusters. A calculation that does
  not end is \<open>None\<close>; the solver of OR-Tools, \<open>random.shuffle\<close>, the cell cover and the text of a float are arguments.
\<close>

section \<open>The row of a route\<close>

record routecalc_row =
  rr_instance :: int
  rr_status :: bool
  rr_updated :: int
  rr_file :: "string option"

type_synonym routecalc_table = "(int, routecalc_row) dict"

text \<open>\<open>str([...]).replace("'", '"')\<close> of the texts of the coordinates.\<close>

definition coord_text :: "(real \<Rightarrow> string) \<Rightarrow> location \<Rightarrow> string" where
  "coord_text show_float c = show_float (lat c) @ CHR '','' # show_float (lng c)"

definition route_to_text :: "(real \<Rightarrow> string) \<Rightarrow> location list \<Rightarrow> string" where
  "route_to_text show_float route = CHR ''['' # quoted_lines (map (coord_text show_float) route) @ [CHR '']'']"

definition write_route_to_db_entry :: "(real \<Rightarrow> string) \<Rightarrow> location list \<Rightarrow> routecalc_row \<Rightarrow> routecalc_row" where
  "write_route_to_db_entry show_float route row = row\<lparr>rr_file := Some (route_to_text show_float route)\<rparr>"

definition clean_entry :: "string \<Rightarrow> string" where
  "clean_entry l = strip (remove_char (CHR ''['') (remove_char (CHR '']'') (remove_char (CHR 0x22) l)))"

definition read_entry :: "string \<Rightarrow> location result" where
  "read_entry line = (case split_char (CHR '','') line of
       a # b # _ \<Rightarrow> res_bind (parse_float (strip a)) (\<lambda>x. res_bind (parse_float (strip b)) (\<lambda>y. Inr (Loc x y)))
     | [a] \<Rightarrow> res_bind (parse_float (strip a)) (\<lambda>x. Inl IndexError)
     | [] \<Rightarrow> Inl IndexError)"

definition read_persisted_route :: "routecalc_row \<Rightarrow> location list result" where
  "read_persisted_route row = (case rr_file row of
       None \<Rightarrow> Inr []
     | Some text \<Rightarrow> if strip text = [] then Inr []
         else res_map read_entry (filter (\<lambda>l. l \<noteq> []) (map clean_entry (split_two (CHR 0x22) (CHR '','') text))))"

definition read_saved_json_route :: "routecalc_row \<Rightarrow> (string, real) dict list result" where
  "read_saved_json_route row = res_bind (read_persisted_route row) (\<lambda>cs. Inr (map (\<lambda>c. [(''lat'', lat c), (''lng'', lng c)]) cs))"

text \<open>\<open>SettingsRoutecalcHelper\<close>.\<close>

definition get_routecalcs :: "int \<Rightarrow> routecalc_table \<Rightarrow> routecalc_table" where
  "get_routecalcs instance_id table = filter (\<lambda>(i, row). rr_instance row = instance_id) table"

definition reset_recalc_status :: "int \<Rightarrow> routecalc_table \<Rightarrow> routecalc_table" where
  "reset_recalc_status instance_id table =
     map (\<lambda>(i, row). (i, if rr_instance row = instance_id then row\<lparr>rr_status := False\<rparr> else row)) table"

section \<open>OR-Tools\<close>

text \<open>The solution of a routing model: where the vehicle starts, the next index, whether an index is the end, and the node of an index.\<close>

record routing =
  rt_start :: nat
  rt_next :: "nat \<Rightarrow> nat"
  rt_is_end :: "nat \<Rightarrow> bool"
  rt_node :: "nat \<Rightarrow> nat"

definition py_trunc :: "real \<Rightarrow> int" where
  "py_trunc x = (if x < 0 then \<lceil>x\<rceil> else \<lfloor>x\<rfloor>)"

definition create_data_model :: "(real \<times> real) list \<Rightarrow> (int \<times> int) list" where
  "create_data_model less_coordinates = map (\<lambda>(x, y). (py_trunc (x * 10 ^ 9), py_trunc (y * 10 ^ 9))) less_coordinates"

definition compute_euclidean_distance_matrix :: "(int \<times> int) list \<Rightarrow> int list list" where
  "compute_euclidean_distance_matrix locations =
     map (\<lambda>i. map (\<lambda>j. if i = j then 0
        else \<lfloor>sqrt (of_int (fst (locations ! i) - fst (locations ! j)) ^ 2 + of_int (snd (locations ! i) - snd (locations ! j)) ^ 2)\<rfloor>)
       [0..<length locations]) [0..<length locations]"

partial_function (option) format_solution :: "routing \<Rightarrow> nat \<Rightarrow> nat list \<Rightarrow> nat list looped" where
  "format_solution r index nodes =
     (if rt_is_end r index then Some (Inr nodes) else format_solution r (rt_next r index) (nodes @ [rt_node r index]))"

text \<open>The solver gets the distances; the one vehicle starts at node 0. Without a solution \<open>None\<close> has no \<open>Value\<close>.\<close>

definition route_calc_ortools :: "(int list list \<Rightarrow> routing option) \<Rightarrow> (real \<times> real) list \<Rightarrow> nat list looped" where
  "route_calc_ortools solver less_coordinates =
     (case solver (compute_euclidean_distance_matrix (create_data_model less_coordinates)) of
        None \<Rightarrow> Some (Inl AttributeError)
      | Some r \<Rightarrow> format_solution r (rt_start r) [])"

section \<open>The calculation\<close>

record rc_env =
  rc_instance :: int
  rc_begin :: int
  rc_end :: int
  first_commit :: bool
  last_commit :: bool
  or_tools :: bool
  or_solver :: "int list list \<Rightarrow> routing option"
  py_shuffle :: "nat list \<Rightarrow> nat list"
  no_length :: real
  cell_cover :: s2_cover
  float_text :: "real \<Rightarrow> string"

text \<open>An exception in the process is logged, and \<open>len\<close> of the missing result raises.\<close>

definition run_in_process :: "nat list looped \<Rightarrow> nat list looped" where
  "run_in_process m = (case m of Some (Inl e) \<Rightarrow> Some (Inl TypeError) | _ \<Rightarrow> m)"

text \<open>\<open>algorithm.OR_TOOLS\<close> is a member of the enumeration whatever \<open>algorithm\<close> is, so only the library decides.\<close>

definition route_calc_all :: "rc_env \<Rightarrow> location list \<Rightarrow> nat list looped" where
  "route_calc_all env coords =
     (let pts = map (\<lambda>c. (lat c, lng c)) coords
      in run_in_process (if or_tools env then route_calc_ortools (or_solver env) pts else route_calc_impl (no_length env) (py_shuffle env) pts))"

record rc_job =
  jb_id :: int
  jb_coords :: "location list"
  jb_radius :: "int option"
  jb_max_coords :: "int option"
  jb_load :: bool
  jb_overwrite :: bool
  jb_s2 :: bool
  jb_s2_level :: int

definition get_less_coords :: "s2_cover \<Rightarrow> location list \<Rightarrow> int \<Rightarrow> int \<Rightarrow> bool \<Rightarrow> int \<Rightarrow> location list option" where
  "get_less_coords cover coords radius max_coords use_s2 s2_level =
     (if 1 < radius \<and> 1 < max_coords
      then map_option (map snd) (get_clustered \<lparr>max_radius = of_int radius, max_count_per_circle = max_coords, max_timedelta_seconds = 0,
             useS2 = use_s2, S2level = s2_level\<rparr> cover (map (Pair 0) coords))
      else Some coords)"

definition less_coords :: "rc_env \<Rightarrow> rc_job \<Rightarrow> location list option" where
  "less_coords env job = (case (jb_radius job, jb_max_coords job) of
       (Some r, Some m) \<Rightarrow>
         if jb_coords job \<noteq> [] \<and> 1 \<le> r \<and> m \<noteq> 0
         then get_less_coords (cell_cover env) (jb_coords job) r m (jb_s2 job) (jb_s2_level job) else Some []
     | _ \<Rightarrow> Some [])"

definition pick :: "'a list \<Rightarrow> nat \<Rightarrow> 'a result" where
  "pick xs i = (if i < length xs then Inr (xs ! i) else Inl IndexError)"

definition compute_route :: "rc_env \<Rightarrow> rc_job \<Rightarrow> location list looped" where
  "compute_route env job = (case less_coords env job of
       None \<Rightarrow> None
     | Some stops \<Rightarrow> if length stops < 3 then Some (Inr stops)
         else loop_bind (route_calc_all env stops) (\<lambda>sol_best. Some (res_map (pick stops) sol_best)))"

definition new_row :: "rc_env \<Rightarrow> routecalc_row" where
  "new_row env = \<lparr>rr_instance = rc_instance env, rr_status = False, rr_updated = rc_begin env, rr_file = None\<rparr>"

definition mark_calculating :: "rc_env \<Rightarrow> rc_job \<Rightarrow> routecalc_table \<Rightarrow> routecalc_table" where
  "mark_calculating env job table =
     (let row = (case map_of table (jb_id job) of None \<Rightarrow> new_row env | Some row \<Rightarrow> row)
      in if first_commit env then AList.update (jb_id job) (row\<lparr>rr_status := True\<rparr>) table else table)"

text \<open>The row is read again; it is missing when the first commit of a new row failed.\<close>

definition store_route :: "rc_env \<Rightarrow> rc_job \<Rightarrow> bool \<Rightarrow> location list \<Rightarrow> routecalc_table \<Rightarrow> location list result \<times> routecalc_table" where
  "store_route env job overwrite route table = (case map_of table (jb_id job) of
       None \<Rightarrow> (Inl AttributeError, table)
     | Some row \<Rightarrow>
         let row = (if overwrite then (write_route_to_db_entry (float_text env) route row)\<lparr>rr_updated := rc_end env\<rparr> else row)
         in (Inr route, if last_commit env then AList.update (jb_id job) (row\<lparr>rr_status := False\<rparr>) table else table))"

definition calculate_and_store :: "rc_env \<Rightarrow> rc_job \<Rightarrow> bool \<Rightarrow> routecalc_table \<Rightarrow> (location list result \<times> routecalc_table) option" where
  "calculate_and_store env job overwrite table =
     (let marked = mark_calculating env job table in
      case compute_route env job of
        None \<Rightarrow> None
      | Some (Inl e) \<Rightarrow> Some (Inl e, marked)
      | Some (Inr route) \<Rightarrow> Some (store_route env job overwrite route marked))"

definition calculate_route_of_area :: "rc_env \<Rightarrow> rc_job \<Rightarrow> routecalc_table \<Rightarrow> (location list result \<times> routecalc_table) option" where
  "calculate_route_of_area env job table = (case (if jb_load job then map_of table (jb_id job) else None) of
       None \<Rightarrow> calculate_and_store env job (jb_overwrite job) table
     | Some row \<Rightarrow> (case read_persisted_route row of
          Inl e \<Rightarrow> Some (Inl e, table)
        | Inr [] \<Rightarrow> calculate_and_store env job True table
        | Inr (c # cs) \<Rightarrow> Some (Inr (c # cs), table)))"

section \<open>The web interface\<close>

text \<open>
  \<open>_recalc_area\<close> of \<open>madmin/endpoints/api/resources/AreaEndpoint.py\<close>: the status of the answer, and whether the route manager is asked to
  recalculate; \<open>started\<close> is what \<open>routemanager_recalculate\<close> returns. An area has a mode and may have a route.
\<close>

definition recalc_area :: "(string \<times> int option) option \<Rightarrow> routecalc_table \<Rightarrow> bool \<Rightarrow> int \<times> bool" where
  "recalc_area area table started = (case area of
       None \<Rightarrow> (422, False)
     | Some (area_mode, routecalc_id) \<Rightarrow>
         if area_mode \<in> {''iv_mitm'', ''idle''} then (422, False)
         else (case (case routecalc_id of None \<Rightarrow> None | Some i \<Rightarrow> if i = 0 then None else map_of table i) of
             None \<Rightarrow> (422, False)
           | Some row \<Rightarrow> if rr_status row then (422, False) else (if started then 204 else 409, True)))"

text \<open>\<open>RecalcStatusEndpoint\<close>: the areas whose route is being calculated.\<close>

definition recalc_status :: "int \<Rightarrow> (int, int option) dict \<Rightarrow> routecalc_table \<Rightarrow> int list" where
  "recalc_status instance_id areas table =
     map fst (filter (\<lambda>(area_id, routecalc_id). case routecalc_id of None \<Rightarrow> False
        | Some i \<Rightarrow> i \<noteq> 0 \<and> (case map_of (get_routecalcs instance_id table) i of None \<Rightarrow> False | Some row \<Rightarrow> rr_status row)) areas)"

section \<open>The stops of a route\<close>

definition cluster_job_ok :: "rc_job \<Rightarrow> bool" where
  "cluster_job_ok job \<longleftrightarrow> \<not> jb_s2 job \<and> (\<exists>r. jb_radius job = Some r \<and> 1 \<le> r \<and> 2 * of_int r < 6373000 * pi) \<and>
     (\<exists>m. jb_max_coords job = Some m \<and> m \<noteq> 0)"

definition stops_cover :: "rc_job \<Rightarrow> location list \<Rightarrow> bool" where
  "stops_cover job stops \<longleftrightarrow> length stops \<le> length (jb_coords job) \<and>
     (\<forall>c \<in> set (jb_coords job). \<exists>s \<in> set stops. dist_loc s c \<le> 2 * of_int (the (jb_radius job)))"

lemma distance_zero [simp]: "dist_loc c c = 0"
  by (simp add: get_distance_of_two_points_in_meters_def)

lemma get_less_coords_cover:
  assumes "1 \<le> r" "2 * of_int r < 6373000 * pi"
  shows "\<exists>stops. get_less_coords cover coords r m False lv = Some stops \<and> length stops \<le> length coords \<and>
    (\<forall>c \<in> set coords. \<exists>s \<in> set stops. dist_loc s c \<le> 2 * of_int r)"
proof (cases "1 < r \<and> 1 < m")
  case True
  let ?self = "\<lparr>max_radius = of_int r, max_count_per_circle = m, max_timedelta_seconds = 0, useS2 = False, S2level = lv\<rparr>"
  obtain out ks where o: "get_clustered ?self cover (map (Pair 0) coords) = Some out" "covered ?self ks out" "distinct ks"
    "set ks = (\<lambda>(t, l). Event t l) ` set (map (Pair 0) coords)"
    using get_clustered_covered[of ?self cover "map (Pair 0) coords"] assms by auto
  have "set ks = Event 0 ` set coords" using o(4) by (simp add: image_image)
  then have ks: "length ks \<le> length coords" "\<forall>c \<in> set coords. Event 0 c \<in> set ks"
    using distinct_card[OF o(3)] card_image_le[of "set coords" "Event 0"] card_length[of coords] by auto
  have "\<exists>s \<in> set (map snd out). dist_loc s c \<le> 2 * of_int r" if "c \<in> set coords" for c
  proof -
    from ks(2) that have "Event 0 c \<in> set ks" by blast
    then obtain ct cl where "(ct, cl) \<in> set out" "dist_loc cl c \<le> 2 * of_int r" using o(2) unfolding covered_def by fastforce
    then show ?thesis by (intro bexI[of _ cl]) force+
  qed
  moreover have "length out \<le> length ks" using o(2) by (simp add: covered_def)
  ultimately show ?thesis using True o(1) ks(1) by (intro exI[of _ "map snd out"]) (simp add: get_less_coords_def)
next
  case False
  then show ?thesis using assms by (force simp: get_less_coords_def)
qed

lemma less_coords_cover:
  assumes "cluster_job_ok job"
  shows "\<exists>stops. less_coords env job = Some stops \<and> stops_cover job stops"
proof -
  obtain r m where j: "\<not> jb_s2 job" "jb_radius job = Some r" "1 \<le> r" "2 * of_int r < 6373000 * pi" "jb_max_coords job = Some m" "m \<noteq> 0"
    using assms unfolding cluster_job_ok_def by blast
  show ?thesis
  proof (cases "jb_coords job = []")
    case False
    then show ?thesis using get_less_coords_cover[OF j(3,4), of "cell_cover env" "jb_coords job" m "jb_s2_level job"] j
      by (simp add: less_coords_def stops_cover_def)
  qed (simp add: less_coords_def stops_cover_def j)
qed

lemma res_map_pick: "set is \<subseteq> {..<length xs} \<Longrightarrow> res_map (pick xs) is = Inr (map ((!) xs) is)"
  by (induction "is") (auto simp: pick_def)

lemma picked_all: "mset is = mset [0..<length xs] \<Longrightarrow> \<exists>ys. res_map (pick xs) is = Inr ys \<and> mset ys = mset xs"
proof -
  assume m: "mset is = mset [0..<length xs]"
  from mset_eq_setD[OF m] have "set is \<subseteq> {..<length xs}" by auto
  moreover have "mset (map ((!) xs) is) = image_mset ((!) xs) (mset [0..<length xs])" using m by simp
  then have "mset (map ((!) xs) is) = mset (map ((!) xs) [0..<length xs])" by simp
  ultimately show ?thesis using res_map_pick by (metis map_nth)
qed

text \<open>What the code relies on: a solution of OR-Tools starts at an index from which the vehicle visits every node once before it ends.\<close>

definition solver_tours :: "(int list list \<Rightarrow> routing option) \<Rightarrow> bool" where
  "solver_tours solver \<longleftrightarrow> (\<forall>m. \<exists>r nodes. solver m = Some r \<and> format_solution r (rt_start r) [] = Some (Inr nodes) \<and>
     mset nodes = mset [0..<length m])"

definition tools_work :: "rc_env \<Rightarrow> bool" where
  "tools_work env \<longleftrightarrow> (\<forall>xs. mset (py_shuffle env xs) = mset xs) \<and> (or_tools env \<longrightarrow> solver_tours (or_solver env))"

lemma quick_tour:
  assumes "2 \<le> length pts" "\<forall>xs. mset (shuffle xs) = mset xs"
  shows "\<exists>sol. route_calc_impl far shuffle pts = Some (Inr sol) \<and> mset sol = mset [0..<length pts]"
proof -
  obtain path where p: "tsp far shuffle pts = Some (Inr (path_length pts path, path))" "distinct path" "set path = {..<length pts}"
    using tsp_route[of pts shuffle far] assms by blast
  have "mset path = mset [0..<length pts]" using p(2,3) by (subst set_eq_iff_mset_eq_distinct[symmetric]) (auto simp: atLeast0LessThan)
  then show ?thesis using p(1) by (simp add: route_calc_impl_def)
qed

lemma route_calc_all_ok:
  assumes "tools_work env" "3 \<le> length stops"
  shows "\<exists>sol. route_calc_all env stops = Some (Inr sol) \<and> mset sol = mset [0..<length stops]"
proof (cases "or_tools env")
  case True
  let ?m = "compute_euclidean_distance_matrix (create_data_model (map (\<lambda>c. (lat c, lng c)) stops))"
  have "length ?m = length stops" by (simp add: compute_euclidean_distance_matrix_def create_data_model_def)
  moreover have "solver_tours (or_solver env)" using assms(1) True by (simp add: tools_work_def)
  ultimately obtain r nodes where "or_solver env ?m = Some r" "format_solution r (rt_start r) [] = Some (Inr nodes)" "mset nodes = mset [0..<length stops]"
    unfolding solver_tours_def by metis
  then show ?thesis using True by (simp add: route_calc_all_def route_calc_ortools_def run_in_process_def)
next
  case False
  obtain sol where "route_calc_impl (no_length env) (py_shuffle env) (map (\<lambda>c. (lat c, lng c)) stops) = Some (Inr sol)" "mset sol = mset [0..<length stops]"
    using quick_tour[of "map (\<lambda>c. (lat c, lng c)) stops" "py_shuffle env" "no_length env"] assms by (auto simp: tools_work_def)
  then show ?thesis using False by (simp add: route_calc_all_def run_in_process_def)
qed

lemma compute_route_ok:
  assumes "tools_work env" "less_coords env job = Some stops"
  shows "\<exists>route. compute_route env job = Some (Inr route) \<and> mset route = mset stops"
proof (cases "length stops < 3")
  case False
  then obtain sol where s: "route_calc_all env stops = Some (Inr sol)" "mset sol = mset [0..<length stops]"
    using route_calc_all_ok[OF assms(1), of stops] by auto
  then show ?thesis using False assms(2) picked_all[OF s(2)] by (simp add: compute_route_def)
qed (use assms in \<open>simp add: compute_route_def\<close>)

lemma compute_route_covers:
  assumes "tools_work env" "cluster_job_ok job"
  shows "\<exists>route. compute_route env job = Some (Inr route) \<and> stops_cover job route"
proof -
  obtain stops where s: "less_coords env job = Some stops" "stops_cover job stops" using less_coords_cover[OF assms(2)] by blast
  obtain route where r: "compute_route env job = Some (Inr route)" "mset route = mset stops" using compute_route_ok[OF assms(1) s(1)] by blast
  have "stops_cover job route" using s(2) mset_eq_setD[OF r(2)] mset_eq_length[OF r(2)] by (simp add: stops_cover_def)
  then show ?thesis using r(1) by blast
qed

section \<open>The stored route\<close>

definition printed :: "(real \<Rightarrow> string) \<Rightarrow> real \<Rightarrow> bool" where
  "printed show_float x \<longleftrightarrow> plain_text (show_float x) \<and> show_float x \<noteq> [] \<and> CHR '','' \<notin> set (show_float x) \<and>
     parse_float (show_float x) = Inr x"

lemma clean_entry_eq:
  "clean_entry (CHR 0x22 # l) = clean_entry l" "clean_entry (l @ [CHR 0x22, CHR '']'']) = clean_entry l"
  "clean_entry (CHR '' '' # l) = clean_entry l" "clean_entry (CHR ''['' # l) = clean_entry l"
  by (simp_all add: clean_entry_def) (simp add: strip_def lstrip_def is_ws_def)

definition coord_printed :: "(real \<Rightarrow> string) \<Rightarrow> location \<Rightarrow> bool" where
  "coord_printed show_float c \<longleftrightarrow> printed show_float (lat c) \<and> printed show_float (lng c)"

lemma strip_plain: "plain_text t \<Longrightarrow> strip t = t"
  by (simp add: plain_text_def strip_id)

lemma coord_text_facts:
  assumes "coord_printed show_float c"
  shows "line_ok (coord_text show_float c)" "clean_entry (coord_text show_float c) = coord_text show_float c"
    "read_entry (coord_text show_float c) = Inr c" "coord_text show_float c \<noteq> []"
proof -
  let ?a = "show_float (lat c)" and ?b = "show_float (lng c)"
  have p: "plain_text ?a" "?a \<noteq> []" "CHR '','' \<notin> set ?a" "parse_float ?a = Inr (lat c)"
    "plain_text ?b" "?b \<noteq> []" "CHR '','' \<notin> set ?b" "parse_float ?b = Inr (lng c)"
    using assms by (simp_all add: coord_printed_def printed_def)
  have "hd ?a \<noteq> CHR '',''" using p(2,3) by (metis hd_in_set)
  then show "line_ok (coord_text show_float c)" using p by (simp add: line_ok_def coord_text_def plain_text_def)
  have plain: "plain_text (coord_text show_float c)" using p(1,5) by (auto simp: plain_text_def coord_text_def is_ws_def)
  show "clean_entry (coord_text show_float c) = coord_text show_float c"
    using plain by (simp add: clean_entry_def remove_char_id plain_text_def strip_id)
  have "split_char (CHR '','') (coord_text show_float c) = [?a, ?b]"
    unfolding coord_text_def using p(3,7) by (simp add: split_char_cons split_char_no_sep)
  then show "read_entry (coord_text show_float c) = Inr c" using p by (simp add: read_entry_def strip_plain)
  show "coord_text show_float c \<noteq> []" by (simp add: coord_text_def)
qed

lemma read_written:
  assumes "\<forall>c \<in> set route. coord_printed show_float c" "route \<noteq> []" "rr_file row = Some (route_to_text show_float route)"
  shows "read_persisted_route row = Inr route"
proof -
  let ?ls = "map (coord_text show_float) route"
  have ok: "\<forall>l \<in> set ?ls. line_ok l" "?ls \<noteq> []" using assms coord_text_facts(1) by auto
  have split: "map clean_entry (split_two (CHR 0x22) (CHR '','') (quoted_lines ?ls @ [CHR '']''])) = map clean_entry ?ls"
    by (rule split_quoted[OF clean_entry_eq(1-3) ok])
  obtain q where q: "quoted_lines ?ls = CHR 0x22 # q" using assms(2) by (cases ?ls rule: quoted_lines.cases) auto
  let ?sp = "split_two (CHR 0x22) (CHR '','') (quoted_lines ?ls @ [CHR '']''])"
  have "split_two (CHR 0x22) (CHR '','') (route_to_text show_float route) = (CHR ''['' # hd ?sp) # tl ?sp"
    unfolding route_to_text_def q append_Cons by (rule split_two_other) simp
  then have "map clean_entry (split_two (CHR 0x22) (CHR '','') (route_to_text show_float route)) = map clean_entry (hd ?sp # tl ?sp)"
    by (simp only: list.map(2) clean_entry_eq(4))
  also have "\<dots> = ?ls" using split coord_text_facts(2) assms(1) by simp
  finally have cleaned: "map clean_entry (split_two (CHR 0x22) (CHR '','') (route_to_text show_float route)) = ?ls" .
  have "filter (\<lambda>l. l \<noteq> []) ?ls = ?ls" using coord_text_facts(4) assms(1) by (auto simp: filter_id_conv)
  moreover have "res_map read_entry ?ls = Inr route" using assms(1) coord_text_facts(3) by (induction route) auto
  moreover have "strip (route_to_text show_float route) \<noteq> []"
    unfolding route_to_text_def strip_def lstrip_def by (simp add: is_ws_def dropWhile_append3)
  ultimately show ?thesis using cleaned assms(3) by (simp add: read_persisted_route_def)
qed

definition commits_work :: "rc_env \<Rightarrow> bool" where
  "commits_work env \<longleftrightarrow> first_commit env \<and> last_commit env"

lemma marked_row: "first_commit env \<Longrightarrow> map_of (mark_calculating env job table) i =
    (if i = jb_id job then Some ((case map_of table i of None \<Rightarrow> new_row env | Some row \<Rightarrow> row)\<lparr>rr_status := True\<rparr>) else map_of table i)"
  by (simp add: mark_calculating_def Let_def dict_simps)

lemma stored_row:
  assumes "commits_work env" "store_route env job overwrite route (mark_calculating env job table) = (res, table')"
  shows "res = Inr route"
    "map_of table' i = (if i = jb_id job then Some (let row = (case map_of table i of None \<Rightarrow> new_row env | Some row \<Rightarrow> row) in
       (if overwrite then row\<lparr>rr_file := Some (route_to_text (float_text env) route), rr_updated := rc_end env\<rparr> else row)\<lparr>rr_status := False\<rparr>)
     else map_of table i)"
  using assms by (auto simp: commits_work_def store_route_def marked_row write_route_to_db_entry_def Let_def dict_simps)

lemma not_loaded: "\<not> jb_load job \<Longrightarrow> calculate_route_of_area env job table = calculate_and_store env job (jb_overwrite job) table"
  by (simp add: calculate_route_of_area_def)

text \<open>
  A calculated route serves its area: whether the stops are clustered or not and whichever solver orders them, the calculation returns,
  every coordinate of the area is within twice the radius of a stop of the route, there are not more stops than coordinates, and the row of the
  route is no longer marked as being calculated.
\<close>

theorem route_covers_area:
  assumes "tools_work env" "commits_work env" "cluster_job_ok job" "\<not> jb_load job"
  shows "\<exists>route table'. calculate_route_of_area env job table = Some (Inr route, table') \<and> length route \<le> length (jb_coords job) \<and>
    (\<forall>c \<in> set (jb_coords job). \<exists>s \<in> set route. dist_loc s c \<le> 2 * of_int (the (jb_radius job))) \<and>
    (\<exists>row. map_of table' (jb_id job) = Some row \<and> \<not> rr_status row)"
proof -
  obtain route where r: "compute_route env job = Some (Inr route)" "stops_cover job route" using compute_route_covers[OF assms(1,3)] by blast
  obtain res table' where st: "store_route env job (jb_overwrite job) route (mark_calculating env job table) = (res, table')"
    by (cases "store_route env job (jb_overwrite job) route (mark_calculating env job table)")
  note row = stored_row[OF assms(2) st]
  have "calculate_route_of_area env job table = Some (Inr route, table')"
    unfolding not_loaded[OF assms(4)] calculate_and_store_def Let_def r(1) using st row(1) by simp
  moreover have "\<exists>row. map_of table' (jb_id job) = Some row \<and> \<not> rr_status row" using row(2)[of "jb_id job"] by (simp add: Let_def)
  ultimately show ?thesis using r(2) unfolding stops_cover_def by blast
qed

text \<open>
  C38. A stored route is loaded back: after a calculation that overwrites the stored route, a later call that may load it returns the same stops
  in the same order, whatever its coordinates and parameters, and changes no row.
\<close>

theorem stored_route_is_loaded:
  assumes "calculate_route_of_area env job table = Some (Inr route, table')" "\<not> jb_load job" "jb_overwrite job" "commits_work env"
    and "\<forall>c \<in> set route. coord_printed (float_text env) c" "route \<noteq> []"
    and "jb_load later" "jb_id later = jb_id job"
  shows "calculate_route_of_area env' later table' = Some (Inr route, table')"
proof -
  obtain route' where r: "compute_route env job = Some (Inr route')"
    "store_route env job True route' (mark_calculating env job table) = (Inr route, table')"
    using assms(1,3) unfolding not_loaded[OF assms(2)] calculate_and_store_def Let_def
    by (cases "compute_route env job") (auto split: sum.splits)
  note row = stored_row[OF assms(4) r(2)]
  have "route' = route" using row(1) by simp
  obtain c cs where c: "route = c # cs" using assms(6) by (cases route) auto
  obtain new where new: "map_of table' (jb_id job) = Some new" "rr_file new = Some (route_to_text (float_text env) route)"
    using row(2)[of "jb_id job"] \<open>route' = route\<close> by (simp add: Let_def)
  show ?thesis
    using read_written[OF assms(5,6) new(2)] new(1) assms(7,8) by (simp add: calculate_route_of_area_def c)
qed


section \<open>Witnesses\<close>

definition straight_solver :: "int list list \<Rightarrow> routing option" where
  "straight_solver m = Some \<lparr>rt_start = 0, rt_next = Suc, rt_is_end = (\<lambda>i. length m \<le> i), rt_node = (\<lambda>i. i)\<rparr>"

lemma straight_solver_tours: "solver_tours straight_solver"
proof -
  have run: "format_solution \<lparr>rt_start = 0, rt_next = Suc, rt_is_end = (\<lambda>i. n \<le> i), rt_node = (\<lambda>i. i)\<rparr> i nodes = Some (Inr (nodes @ [i..<n]))" for n i nodes
  proof (induction "n - i" arbitrary: i nodes)
    case 0
    then show ?case by (subst format_solution.simps) simp
  next
    case (Suc d)
    then have "i < n" by simp
    with Suc.hyps(1)[of "Suc i" "nodes @ [i]"] Suc.hyps(2) show ?case by (subst format_solution.simps) (simp add: upt_conv_Cons)
  qed
  show ?thesis unfolding solver_tours_def straight_solver_def by (auto simp: run)
qed

definition demo_text :: "real \<Rightarrow> string" where
  "demo_text x = (if x = 1 then ''1.0'' else if x = 2 then ''2.0'' else ''3.0'')"

definition demo_rc_env :: "bool \<Rightarrow> rc_env" where
  "demo_rc_env solvable = \<lparr>rc_instance = 7, rc_begin = 10, rc_end = 20, first_commit = True, last_commit = True, or_tools = True,
     or_solver = (if solvable then straight_solver else (\<lambda>_. None)), py_shuffle = rev, no_length = 0, cell_cover = (\<lambda>_ _ _ _ _. False), float_text = demo_text\<rparr>"

definition demo_job :: rc_job where
  "demo_job = \<lparr>jb_id = 5, jb_coords = [Loc 1 1, Loc 2 2, Loc 3 3], jb_radius = Some 1, jb_max_coords = Some 100, jb_load = False, jb_overwrite = True,
     jb_s2 = False, jb_s2_level = 15\<rparr>"

lemma demo_ok: "tools_work (demo_rc_env True)" "commits_work (demo_rc_env b)" "cluster_job_ok demo_job" "\<not> jb_load demo_job"
proof -
  show "tools_work (demo_rc_env True)" by (simp add: tools_work_def demo_rc_env_def straight_solver_tours)
  show "commits_work (demo_rc_env b)" by (simp add: commits_work_def demo_rc_env_def)
  have "2 < 6373000 * pi" using pi_ge_two by simp
  then show "cluster_job_ok demo_job" by (simp add: cluster_job_ok_def demo_job_def)
  show "\<not> jb_load demo_job" by (simp add: demo_job_def)
qed

theorem route_covers_area_witness:
  "\<exists>route table'. calculate_route_of_area (demo_rc_env True) demo_job [] = Some (Inr route, table') \<and> length route \<le> 3 \<and>
     (\<exists>s \<in> set route. dist_loc s (Loc 2 2) \<le> 2)"
  using route_covers_area[OF demo_ok(1) demo_ok(2)[of True] demo_ok(3,4), of "[]"] by (auto simp: demo_job_def)

definition short_job :: rc_job where
  "short_job = demo_job\<lparr>jb_coords := [Loc 1 1, Loc 2 2]\<rparr>"

definition short_row :: routecalc_row where
  "short_row = \<lparr>rr_instance = 7, rr_status = False, rr_updated = 20, rr_file = Some (route_to_text demo_text [Loc 1 1, Loc 2 2])\<rparr>"

lemma demo_printed: "printed demo_text 1" "printed demo_text 2"
  by code_simp+

lemma short_calculated: "calculate_route_of_area (demo_rc_env True) short_job [] = Some (Inr [Loc 1 1, Loc 2 2], [(5, short_row)])"
  by (simp add: calculate_route_of_area_def calculate_and_store_def compute_route_def less_coords_def get_less_coords_def short_job_def demo_job_def
    demo_rc_env_def store_route_def mark_calculating_def new_row_def short_row_def write_route_to_db_entry_def)

theorem stored_route_is_loaded_witness:
  "calculate_route_of_area (demo_rc_env False) (short_job\<lparr>jb_load := True, jb_coords := []\<rparr>) [(5, short_row)] = Some (Inr [Loc 1 1, Loc 2 2], [(5, short_row)])"
proof (rule stored_route_is_loaded[OF short_calculated])
  show "commits_work (demo_rc_env True)" by (rule demo_ok)
  have "float_text (demo_rc_env True) = demo_text" by (simp add: demo_rc_env_def)
  then show "\<forall>c \<in> set [Loc 1 1, Loc 2 2]. coord_printed (float_text (demo_rc_env True)) c" by (simp add: coord_printed_def demo_printed)
qed (simp_all add: short_job_def demo_job_def)

lemma demo_fails: "compute_route (demo_rc_env False) demo_job = Some (Inl TypeError)"
  by (simp add: compute_route_def less_coords_def get_less_coords_def demo_job_def demo_rc_env_def route_calc_all_def route_calc_ortools_def run_in_process_def)


end
