(* ===== verification/RoutePlan.thy ===== *)
theory RoutePlan
  imports RouteManager RouteCalc
begin

text \<open>
  The route managers with the calculation of their routes: what \<open>RouteManagerBase.calculate_route\<close> asks of \<open>RoutecalcUtil.calculate_route\<close>.
\<close>

definition calculated_by :: "rc_env \<Rightarrow> rc_job \<Rightarrow> routecalc_table \<Rightarrow> bool \<Rightarrow> bool \<Rightarrow> location list \<Rightarrow> location list result" where
  "calculated_by renv job table load overwrite coords =
     (case calculate_route_of_area renv (job\<lparr>jb_load := load, jb_overwrite := overwrite, jb_coords := coords\<rparr>) table of
        None \<Rightarrow> Inl RuntimeError
      | Some (res, table') \<Rightarrow> res)"

lemma calculated_covers:
  assumes "tools_work renv" "commits_work renv" "cluster_job_ok job"
  shows "\<exists>new. calculated_by renv job table False overwrite coords = Inr new \<and>
    stops_cover (job\<lparr>jb_load := False, jb_overwrite := overwrite, jb_coords := coords\<rparr>) new"
proof -
  let ?job = "job\<lparr>jb_load := False, jb_overwrite := overwrite, jb_coords := coords\<rparr>"
  have "cluster_job_ok ?job" using assms(3) by (simp add: cluster_job_ok_def)
  then obtain new where new: "compute_route renv ?job = Some (Inr new)" "stops_cover ?job new"
    using compute_route_covers[OF assms(1)] by blast
  obtain res t where st: "store_route renv ?job overwrite new (mark_calculating renv ?job table) = (res, t)"
    by (cases "store_route renv ?job overwrite new (mark_calculating renv ?job table)")
  have "calculate_route_of_area renv ?job table = Some (Inr new, t)"
    using st stored_row(1)[OF assms(2) st] new(1) by (simp add: not_loaded calculate_and_store_def Let_def)
  then show ?thesis using new(2) by (simp add: calculated_by_def)
qed

lemma pool_update_keeps_route:
  assumes "rm_kind rm \<noteq> Leveling"
  shows "\<exists>b. update_routepool env rm = (fst (update_routepool env rm), Inr b) \<and> route (fst (update_routepool env rm)) = route rm"
proof -
  obtain new rm' where m: "mixin_update_routepools rm = (new, rm')" by (cases "mixin_update_routepools rm")
  have "route rm' = route rm"
    using m by (auto simp: mixin_update_routepools_def alloc_pool_def Let_def split: if_splits option.splits)
  then show ?thesis using assms m by (auto simp: update_routepool_def rm_bind_def split: option.split)
qed

text \<open>
  C16. A recalculated route serves its manager: when a manager of quests, mons, raids, encounters or nothing recalculates its route with the
  clustering and the solvers of the program, the call returns and every coordinate the manager fetched afresh is within twice its
  radius of a stop of its new route, which has no more stops than there are coordinates.
\<close>

theorem recalculated_route_covers:
  assumes "calculated env = calculated_by renv job table" "tools_work renv" "commits_work renv" "cluster_job_ok job"
    and "rm_kind rm \<in> {Quests, MonRoute, RaidRoute, IVRoute, IdleRoute}" "rm_max_radius rm = of_int (the (jb_radius job))"
  shows "\<exists>rm'. calculate_route env False True rm = (rm', Inr ()) \<and> length (route rm') \<le> length (get_coords_fresh env False rm) \<and>
    (\<forall>c \<in> set (get_coords_fresh env False rm). \<exists>s \<in> set (route rm'). dist_loc s c \<le> 2 * rm_max_radius rm)"
proof -
  have base: "\<exists>rm'. base_calculate_route env False True rm1 = (rm', Inr ()) \<and> length (route rm') \<le> length (get_coords_fresh env False rm1) \<and>
      (\<forall>c \<in> set (get_coords_fresh env False rm1). \<exists>s \<in> set (route rm'). dist_loc s c \<le> 2 * rm_max_radius rm)"
    if kind: "rm_kind rm1 \<noteq> Leveling" for rm1
  proof -
    let ?cs = "get_coords_fresh env False rm1"
    obtain new where new: "calculated_by renv job table False True ?cs = Inr new"
      "stops_cover (job\<lparr>jb_load := False, jb_overwrite := True, jb_coords := ?cs\<rparr>) new"
      using calculated_covers[OF assms(2-4)] by blast
    let ?rm = "init_route_queue (rm1\<lparr>start_calc := False, route := new, round_coords := new\<rparr>)"
    have "rm_kind ?rm \<noteq> Leveling" "route ?rm = new" using kind by (simp_all add: init_route_queue_def)
    with pool_update_keeps_route[of ?rm env] obtain b where
      up: "update_routepool env ?rm = (fst (update_routepool env ?rm), Inr b)" "route (fst (update_routepool env ?rm)) = new" by auto
    have "base_calculate_route env False True rm1 = rm_bind (update_routepool env ?rm) (\<lambda>_ rm'. (rm', Inr ()))"
      unfolding base_calculate_route_def Let_def assms(1) using new(1) by simp
    also have "\<dots> = (fst (update_routepool env ?rm), Inr ())" by (subst up(1)) (simp add: rm_bind_def)
    finally show ?thesis using up(2) new(2) assms(6) by (simp add: stops_cover_def)
  qed
  show ?thesis
  proof (cases "rm_kind rm = Quests")
    case True
    let ?rm = "rm\<lparr>stoplist := stops_all env\<rparr>"
    have "get_coords_fresh env False ?rm = get_coords_fresh env False rm" using True by (simp add: get_coords_fresh_def)
    then show ?thesis using base[of ?rm] True by (simp add: calculate_route_def quests_calculate_route_def)
  next
    case False
    then have "calculate_route env False True rm = base_calculate_route env False True rm"
      using assms(5) by (auto simp: calculate_route_def)
    then show ?thesis using base[of rm] assms(5) by auto
  qed
qed

definition plan_job :: rc_job where
  "plan_job = demo_job\<lparr>jb_radius := Some 490\<rparr>"

lemma plan_job_ok: "cluster_job_ok plan_job"
proof -
  have "980 < 6373000 * pi" using pi_ge_two by simp
  then show ?thesis by (simp add: cluster_job_ok_def plan_job_def demo_job_def)
qed

definition plan_env :: rm_env where
  "plan_env = witness_env\<lparr>spawns_known := [Loc 1 1, Loc 2 2, Loc 3 3], calculated := calculated_by (demo_rc_env True) plan_job []\<rparr>"

theorem recalculated_route_covers_witness:
  "\<exists>rm'. calculate_route plan_env False True witness_mon = (rm', Inr ()) \<and> length (route rm') \<le> 3 \<and>
     (\<exists>s \<in> set (route rm'). dist_loc s (Loc 3 3) \<le> 980)"
proof -
  have "calculated plan_env = calculated_by (demo_rc_env True) plan_job []" by (simp add: plan_env_def)
  moreover have "rm_kind witness_mon \<in> {Quests, MonRoute, RaidRoute, IVRoute, IdleRoute}"
    "rm_max_radius witness_mon = of_int (the (jb_radius plan_job))"
    by (simp_all add: witness_mon_def new_route_manager_def plan_job_def)
  moreover have "get_coords_fresh plan_env False witness_mon = [Loc 1 1, Loc 2 2, Loc 3 3]"
    by (simp add: get_coords_fresh_def plan_env_def witness_mon_def new_route_manager_def witness_settings_def)
  moreover have "rm_max_radius witness_mon = 490" by (simp add: witness_mon_def new_route_manager_def)
  ultimately show ?thesis
    using recalculated_route_covers[of plan_env "demo_rc_env True" plan_job "[]" witness_mon] demo_ok(1,2) plan_job_ok by auto
qed

end
