(* ===== verification/LoginTracking.thy ===== *)
theory LoginTracking
  imports Communicator
begin

text \<open>
  The limit of logins per address: \<open>increment_login_tracking_by_origin\<close>, \<open>login_tracking_set_ip\<close>, \<open>login_tracking_remove_value\<close> and
  \<open>ip_handle_login_request\<close> of \<open>mapping_manager/MappingManager.py\<close> over a Redis cache, \<open>check_ptc_login_ban\<close> of \<open>ocr/screenPath.py\<close>, and the
  address of a device and the remaining commands of \<open>websocket/communicator.py\<close>. A request suspends between watching the key of an
  address, counting its logins and executing its transaction; requests of any number of processes are steps of one list of operations.
\<close>

section \<open>Commands without a result of interest\<close>

definition get_screensize :: "communicator \<Rightarrow> comm_error + message option" where
  "get_screensize c = run_get_response c ''screen size'' None"

definition get_y_offset :: "communicator \<Rightarrow> comm_error + message option" where
  "get_y_offset c = run_get_response c ''screen offset'' None"

definition uiautomator :: "communicator \<Rightarrow> comm_error + message option" where
  "uiautomator c = run_get_response c ''more uiautomator'' None"

definition back_button :: "communicator \<Rightarrow> comm_error + bool" where
  "back_button c = run_and_ok c (''screen back'' @ crlf) (command_timeout c)"

definition home_button :: "communicator \<Rightarrow> comm_error + bool" where
  "home_button c = run_and_ok c ''touch keyevent 3'' (command_timeout c)"

definition enter_text :: "communicator \<Rightarrow> string \<Rightarrow> comm_error + bool" where
  "enter_text c text = run_and_ok c (''touch text '' @ text) (command_timeout c)"

definition magisk_off :: "communicator \<Rightarrow> comm_error + message option" where
  "magisk_off c = comm_passthrough c ''su -c magiskhide --disable''"

definition magisk_on :: "communicator \<Rightarrow> comm_error + message option" where
  "magisk_on c = comm_passthrough c ''su -c magiskhide --enable''"

text \<open>Whether the connection is closed by force, after the device did not answer in time.\<close>

definition comm_cleanup :: "communicator \<Rightarrow> comm_error + bool" where
  "comm_cleanup c = (case terminate_connection c of
       Inl (WsError ConnectionClosed) \<Rightarrow> Inr False
     | Inl (WsError WorkerTimeout) \<Rightarrow> Inr True
     | Inl e \<Rightarrow> Inl e
     | Inr ok \<Rightarrow> Inr False)"

section \<open>The address of a device\<close>

definition is_digit :: "char \<Rightarrow> bool" where
  "is_digit ch \<longleftrightarrow> digit_val ch \<noteq> None"

definition is_word :: "char \<Rightarrow> bool" where
  "is_word ch \<longleftrightarrow> is_digit ch \<or> ch = CHR ''_'' \<or> (let n = of_char ch :: nat in (65 \<le> n \<and> n \<le> 90) \<or> (97 \<le> n \<and> n \<le> 122))"

text \<open>\<open>\b\<close> after a character.\<close>

definition word_boundary :: "char \<Rightarrow> string \<Rightarrow> bool" where
  "word_boundary prev rest \<longleftrightarrow> is_word prev \<noteq> (case rest of [] \<Rightarrow> False | ch # cs \<Rightarrow> is_word ch)"

text \<open>\<open>25[0-5]|(2[0-4]|1\d|[1-9]|)\d\<close>: the matches at the start of a string in the order they are tried, each with the rest.\<close>

definition octet :: "string \<Rightarrow> (string \<times> string) list" where
  "octet s =
     (case s of a # b # d # r \<Rightarrow>
        (if a = CHR ''2'' \<and> b = CHR ''5'' \<and> d \<in> set ''012345'' then [([a, b, d], r)] else []) @
        (if a = CHR ''2'' \<and> b \<in> set ''01234'' \<and> is_digit d then [([a, b, d], r)] else []) @
        (if a = CHR ''1'' \<and> is_digit b \<and> is_digit d then [([a, b, d], r)] else [])
      | _ \<Rightarrow> []) @
     (case s of a # b # r \<Rightarrow> if is_digit a \<and> a \<noteq> CHR ''0'' \<and> is_digit b then [([a, b], r)] else [] | _ \<Rightarrow> []) @
     (case s of a # r \<Rightarrow> if is_digit a then [([a], r)] else [] | _ \<Rightarrow> [])"

text \<open>\<open>(octet\.?\b){n}\<close>\<close>

fun ip_groups :: "nat \<Rightarrow> string \<Rightarrow> (string \<times> string) list" where
  "ip_groups 0 s = [([], s)]"
| "ip_groups (Suc n) s = concat (map (\<lambda>(oct, r).
       (case r of ch # r' \<Rightarrow>
          if ch = CHR ''.'' \<and> word_boundary ch r' then map (\<lambda>(m, t). (oct @ ch # m, t)) (ip_groups n r') else [] | [] \<Rightarrow> []) @
       (if word_boundary (last oct) r then map (\<lambda>(m, t). (oct @ m, t)) (ip_groups n r) else [])) (octet s))"

fun search_ip :: "string \<Rightarrow> string option" where
  "search_ip s = (case ip_groups 4 s of (m, t) # ms \<Rightarrow> Some m | [] \<Rightarrow> (case s of [] \<Rightarrow> None | ch # cs \<Rightarrow> search_ip cs))"

text \<open>\<open>ip_address\<close> takes four decimal numbers up to 255 without leading zeros.\<close>

definition valid_ipv4 :: "string \<Rightarrow> bool" where
  "valid_ipv4 t \<longleftrightarrow> length (split_char (CHR ''.'') t) = 4 \<and> list_all (\<lambda>p. p \<noteq> [] \<and> length p \<le> 3 \<and> list_all is_digit p \<and>
     (hd p \<noteq> CHR ''0'' \<or> length p = 1) \<and> (case parse_int p of Inl e \<Rightarrow> False | Inr n \<Rightarrow> n \<le> 255)) (split_char (CHR ''.'') t)"

definition get_external_ip :: "communicator \<Rightarrow> string \<Rightarrow> comm_error + string option" where
  "get_external_ip c ip_service = (case run_get_response c (''more http get '' @ ip_service @ crlf) None of
       Inl e \<Rightarrow> Inr None
     | Inr None \<Rightarrow> Inr None
     | Inr (Some (Binary b)) \<Rightarrow> if b = [] then Inr None else Inl (PyError TypeError)
     | Inr (Some (Text s)) \<Rightarrow>
         if s = [] \<or> starts_with ''Failed'' s then Inr None
         else (case search_ip s of None \<Rightarrow> Inr None | Some t \<Rightarrow> if valid_ipv4 t then Inr (Some t) else Inl (PyError ValueError)))"

definition check_ptc_login_ban :: "communicator \<Rightarrow> string \<Rightarrow> (string \<Rightarrow> bool) \<Rightarrow> comm_error + bool" where
  "check_ptc_login_ban c ip_service handle_login_request = comm_bind (get_external_ip c ip_service) (\<lambda>ip. case ip of
       None \<Rightarrow> Inr False
     | Some ip \<Rightarrow> if get_ptc_status c = 200 then Inr (handle_login_request ip) else Inr False)"

section \<open>The cache\<close>

text \<open>
  A request is watching, has watched (with the version of the key), or has counted as well; an increment has taken the address of its
  origin and is about to be added.
\<close>

datatype login_phase = Watching | Watched nat | Counted nat nat | Adding | Answered bool

record login_request =
  lr_ip :: string
  lr_origin :: string
  lr_now :: int
  lr_increment :: bool
  lr_phase :: login_phase

record login_cache =
  lc_logins :: "(string, (string, int) dict) dict"
  lc_expires :: "(string, int) dict"
  lc_versions :: "string \<Rightarrow> nat"
  lc_addresses :: "(string, string \<times> int) dict"
  lc_requests :: "(nat, login_request) dict"

record login_limits =
  ll_enabled :: bool
  ll_seconds :: int
  ll_count :: int

definition new_login_cache :: login_cache where
  "new_login_cache = \<lparr>lc_logins = [], lc_expires = [], lc_versions = (\<lambda>_. 0), lc_addresses = [], lc_requests = []\<rparr>"

definition logins_of :: "login_cache \<Rightarrow> string \<Rightarrow> (string, int) dict" where
  "logins_of lc ip = (case map_of (lc_logins lc) ip of None \<Rightarrow> [] | Some d \<Rightarrow> d)"

text \<open>\<open>zcount(ip, since, "+inf")\<close>\<close>

definition zcount :: "login_cache \<Rightarrow> string \<Rightarrow> int \<Rightarrow> nat" where
  "zcount lc ip since = length (filter (\<lambda>(m, s). since \<le> s) (logins_of lc ip))"

text \<open>The transaction of \<open>zadd\<close> and \<open>expire\<close>.\<close>

definition register_login :: "string \<Rightarrow> string \<Rightarrow> int \<Rightarrow> login_cache \<Rightarrow> login_cache" where
  "register_login ip origin t lc =
     lc\<lparr>lc_logins := AList.update ip (AList.update (origin @ CHR '':'' # show_int t) t (logins_of lc ip)) (lc_logins lc),
        lc_expires := AList.update ip (t + 86400) (lc_expires lc),
        lc_versions := (lc_versions lc)(ip := lc_versions lc ip + 1)\<rparr>"

section \<open>The steps of a request\<close>

definition set_request :: "nat \<Rightarrow> login_request \<Rightarrow> login_cache \<Rightarrow> login_cache" where
  "set_request n r lc = lc\<lparr>lc_requests := AList.update n r (lc_requests lc)\<rparr>"

text \<open>Refused when Redis does not answer or the limit is reached; a key that changed since it was watched is a \<open>WatchError\<close>, and all is tried again.\<close>

definition proceed :: "login_limits \<Rightarrow> nat \<Rightarrow> bool \<Rightarrow> login_request \<Rightarrow> login_cache \<Rightarrow> login_cache" where
  "proceed cfg n fails r lc = (case lr_phase r of
       Watching \<Rightarrow> set_request n (r\<lparr>lr_phase := Watched (lc_versions lc (lr_ip r))\<rparr>) lc
     | Watched ver \<Rightarrow> if fails then set_request n (r\<lparr>lr_phase := Answered False\<rparr>) lc
         else set_request n (r\<lparr>lr_phase := Counted ver (zcount lc (lr_ip r) (lr_now r - ll_seconds cfg))\<rparr>) lc
     | Counted ver ct \<Rightarrow>
         if ll_count cfg \<le> int ct then set_request n (r\<lparr>lr_phase := Answered False\<rparr>) lc
         else if \<not> lr_increment r then set_request n (r\<lparr>lr_phase := Answered True\<rparr>) lc
         else if lc_versions lc (lr_ip r) \<noteq> ver then set_request n (r\<lparr>lr_phase := Watching\<rparr>) lc
         else set_request n (r\<lparr>lr_phase := Answered True\<rparr>) (register_login (lr_ip r) (lr_origin r) (lr_now r) lc)
     | _ \<Rightarrow> lc)"

text \<open>\<open>GET\<close> and \<open>DELETE\<close> happen under the mutex; the addition happens after it, and is not counted against the limit.\<close>

definition address_of :: "string \<Rightarrow> int \<Rightarrow> login_cache \<Rightarrow> string option" where
  "address_of origin t lc = (case map_of (lc_addresses lc) origin of
       None \<Rightarrow> None | Some (ip, expires) \<Rightarrow> if t < expires \<and> ip \<noteq> [] then Some ip else None)"

definition take_address :: "nat \<Rightarrow> string \<Rightarrow> int \<Rightarrow> login_cache \<Rightarrow> login_cache" where
  "take_address n origin t lc = (case address_of origin t lc of
       None \<Rightarrow> lc
     | Some ip \<Rightarrow> set_request n \<lparr>lr_ip = ip, lr_origin = origin, lr_now = t, lr_increment = True, lr_phase = Adding\<rparr>
         (lc\<lparr>lc_addresses := AList.delete origin (lc_addresses lc)\<rparr>))"

definition add_taken :: "nat \<Rightarrow> login_request \<Rightarrow> login_cache \<Rightarrow> login_cache" where
  "add_taken n r lc = (if lr_phase r = Adding
     then set_request n (r\<lparr>lr_phase := Answered True\<rparr>) (register_login (lr_ip r) (lr_origin r) (lr_now r) lc) else lc)"

definition login_tracking_set_ip :: "string \<Rightarrow> string \<Rightarrow> int \<Rightarrow> login_cache \<Rightarrow> login_cache" where
  "login_tracking_set_ip origin ip t lc = lc\<lparr>lc_addresses := AList.update origin (ip, t + 300) (lc_addresses lc)\<rparr>"

definition login_tracking_remove_value :: "string \<Rightarrow> login_cache \<Rightarrow> login_cache" where
  "login_tracking_remove_value origin lc = lc\<lparr>lc_addresses := AList.delete origin (lc_addresses lc)\<rparr>"

text \<open>Redis forgets the logins of an address when their time has come.\<close>

definition expire_logins :: "string \<Rightarrow> int \<Rightarrow> login_cache \<Rightarrow> login_cache" where
  "expire_logins ip t lc = (case map_of (lc_expires lc) ip of
       None \<Rightarrow> lc
     | Some x \<Rightarrow> if x \<le> t then lc\<lparr>lc_logins := AList.delete ip (lc_logins lc), lc_expires := AList.delete ip (lc_expires lc)\<rparr> else lc)"

text \<open>
  One step: a request of its own number for an address, the next step of a request (\<open>zcount\<close> may fail), the two parts of an increment,
  the address of a started device, a forgotten address, an expired key. Numbers are used once.
\<close>

datatype login_op =
    LoginRequest nat string string int bool
  | LoginProceed nat bool
  | LoginTake nat string int
  | LoginAdd nat
  | LoginSetIp string string int
  | LoginForget string
  | LoginExpire string int

fun login_step :: "login_limits \<Rightarrow> login_op \<Rightarrow> login_cache \<Rightarrow> login_cache" where
  "login_step cfg (LoginRequest n ip origin t inc) lc = (if map_of (lc_requests lc) n \<noteq> None then lc
     else if \<not> ll_enabled cfg
     then set_request n \<lparr>lr_ip = ip, lr_origin = origin, lr_now = t, lr_increment = inc, lr_phase = Answered True\<rparr> lc
     else set_request n \<lparr>lr_ip = ip, lr_origin = origin, lr_now = t, lr_increment = inc, lr_phase = Watching\<rparr> lc)"
| "login_step cfg (LoginProceed n fails) lc = (case map_of (lc_requests lc) n of None \<Rightarrow> lc | Some r \<Rightarrow> proceed cfg n fails r lc)"
| "login_step cfg (LoginTake n origin t) lc = (if map_of (lc_requests lc) n \<noteq> None \<or> \<not> ll_enabled cfg then lc else take_address n origin t lc)"
| "login_step cfg (LoginAdd n) lc = (case map_of (lc_requests lc) n of None \<Rightarrow> lc | Some r \<Rightarrow> add_taken n r lc)"
| "login_step cfg (LoginSetIp origin ip t) lc = (if ll_enabled cfg then login_tracking_set_ip origin ip t lc else lc)"
| "login_step cfg (LoginForget origin) lc = (if ll_enabled cfg then login_tracking_remove_value origin lc else lc)"
| "login_step cfg (LoginExpire ip t) lc = expire_logins ip t lc"

definition login_run :: "login_limits \<Rightarrow> login_op list \<Rightarrow> login_cache \<Rightarrow> login_cache" where
  "login_run cfg ops lc = fold (login_step cfg) ops lc"

text \<open>
  A request that runs alone. The limits of a call are the configured ones unless it passes others.
\<close>

definition or_configured :: "int option \<Rightarrow> int \<Rightarrow> int" where
  "or_configured arg configured = (case arg of None \<Rightarrow> configured | Some x \<Rightarrow> if x = 0 then configured else x)"

definition ip_handle_login_request ::
    "login_limits \<Rightarrow> string \<Rightarrow> string \<Rightarrow> int \<Rightarrow> int option \<Rightarrow> int option \<Rightarrow> bool \<Rightarrow> bool \<Rightarrow> login_cache \<Rightarrow> bool \<times> login_cache" where
  "ip_handle_login_request cfg ip origin t limit_seconds limit_count inc fails lc =
     (if \<not> ll_enabled cfg then (True, lc)
      else if fails \<or> or_configured limit_count (ll_count cfg) \<le> int (zcount lc ip (t - or_configured limit_seconds (ll_seconds cfg)))
      then (False, lc)
      else (True, if inc then register_login ip origin t lc else lc))"

section \<open>The limit holds\<close>

definition in_window :: "login_cache \<Rightarrow> string \<Rightarrow> int \<Rightarrow> int \<Rightarrow> nat" where
  "in_window lc ip a b = length (filter (\<lambda>(m, s). a \<le> s \<and> s \<le> b) (logins_of lc ip))"

lemma update_counts: "length (filter (\<lambda>(m, s). P s) (AList.update x t d)) \<le> length (filter (\<lambda>(m, s). P s) d) + (if P t then 1 else 0)"
  by (induction d) auto

lemma logins_simps [simp]:
  "logins_of (set_request n r lc) ip = logins_of lc ip" "lc_versions (set_request n r lc) = lc_versions lc"
  "logins_of (lc\<lparr>lc_addresses := a\<rparr>) ip = logins_of lc ip" "logins_of (lc\<lparr>lc_requests := q\<rparr>) ip = logins_of lc ip"
  "logins_of (register_login ip' origin t lc) ip =
     (if ip = ip' then AList.update (origin @ CHR '':'' # show_int t) t (logins_of lc ip) else logins_of lc ip)"
  "lc_requests (register_login ip' origin t lc) = lc_requests lc"
  by (simp_all add: logins_of_def set_request_def register_login_def dict_simps)

lemma requests_set [simp]: "map_of (lc_requests (set_request n r lc)) m = (if m = n then Some r else map_of (lc_requests lc) m)"
  by (simp add: set_request_def dict_simps)

lemma in_window_register: "in_window (register_login ip' origin t lc) ip a b \<le> in_window lc ip a b + (if ip = ip' \<and> a \<le> t \<and> t \<le> b then 1 else 0)"
proof (cases "ip = ip'")
  case True
  then show ?thesis
    using update_counts[of "\<lambda>s. a \<le> s \<and> s \<le> b" "origin @ CHR '':'' # show_int t" t "logins_of lc ip"] by (simp add: in_window_def)
qed (simp add: in_window_def)

lemma in_window_zcount: "x \<le> a \<Longrightarrow> in_window lc ip a b \<le> zcount lc ip x"
proof -
  have "x \<le> a \<Longrightarrow> length (filter (\<lambda>(m, s). a \<le> s \<and> s \<le> b) d) \<le> length (filter (\<lambda>(m, s). x \<le> s) d)" for d :: "(string, int) dict"
    by (induction d) auto
  then show "x \<le> a \<Longrightarrow> ?thesis" unfolding in_window_def zcount_def .
qed

text \<open>
  No window of the configured length has more logins than the limit and the additions that do not ask; a request that has counted still knows the
  truth as long as the version it watched is the current one.
\<close>

definition phase_ok :: "login_limits \<Rightarrow> login_cache \<Rightarrow> login_request \<Rightarrow> bool" where
  "phase_ok cfg lc r = (case lr_phase r of
       Watched ver \<Rightarrow> ver \<le> lc_versions lc (lr_ip r)
     | Counted ver ct \<Rightarrow> ver \<le> lc_versions lc (lr_ip r) \<and>
         (ver = lc_versions lc (lr_ip r) \<longrightarrow> zcount lc (lr_ip r) (lr_now r - ll_seconds cfg) \<le> ct)
     | _ \<Rightarrow> True)"

definition login_inv :: "login_limits \<Rightarrow> int \<Rightarrow> login_cache \<Rightarrow> bool" where
  "login_inv cfg k lc \<longleftrightarrow> (\<forall>ip t. int (in_window lc ip (t - ll_seconds cfg) t) \<le> max 0 (ll_count cfg) + k) \<and>
     (\<forall>n r. map_of (lc_requests lc) n = Some r \<longrightarrow> phase_ok cfg lc r)"

lemma phase_ok_mono:
  assumes "phase_ok cfg lc r" "lc_versions lc' = lc_versions lc" "\<And>ip x. zcount lc' ip x \<le> zcount lc ip x"
  shows "phase_ok cfg lc' r"
proof (cases "lr_phase r")
  case (Counted ver ct)
  then show ?thesis using assms(1,2) order_trans[OF assms(3)] by (simp add: phase_ok_def)
qed (use assms in \<open>simp_all add: phase_ok_def\<close>)

lemma login_inv_mono:
  assumes "login_inv cfg k lc" "lc_versions lc' = lc_versions lc" "\<And>ip x. zcount lc' ip x \<le> zcount lc ip x"
    "\<And>ip a b. in_window lc' ip a b \<le> in_window lc ip a b" "\<And>n r. map_of (lc_requests lc') n = Some r \<Longrightarrow> phase_ok cfg lc r"
  shows "login_inv cfg k lc'"
proof -
  have "int (in_window lc' ip (t - ll_seconds cfg) t) \<le> max 0 (ll_count cfg) + k" for ip t
    using assms(1) assms(4)[of ip "t - ll_seconds cfg" t] unfolding login_inv_def by (meson of_nat_mono order_trans)
  moreover have "phase_ok cfg lc' r" if "map_of (lc_requests lc') n = Some r" for n r
    using phase_ok_mono[OF assms(5)[OF that] assms(2,3)] .
  ultimately show ?thesis unfolding login_inv_def by blast
qed

lemma login_inv_phase: "login_inv cfg k lc \<Longrightarrow> map_of (lc_requests lc) n = Some r \<Longrightarrow> phase_ok cfg lc r"
  by (simp add: login_inv_def)

lemma login_inv_request:
  assumes "login_inv cfg k lc" "phase_ok cfg lc r"
  shows "login_inv cfg k (set_request n r lc)"
  by (rule login_inv_mono[OF assms(1)]) (use assms(2) login_inv_phase[OF assms(1)] in \<open>auto simp: zcount_def in_window_def split: if_splits\<close>)

lemma phase_register: "phase_ok cfg lc r \<Longrightarrow> phase_ok cfg (register_login ip origin t lc) r"
  unfolding phase_ok_def zcount_def by (auto simp: register_login_def logins_of_def dict_simps split: login_phase.split)

lemma login_inv_register:
  assumes "login_inv cfg k lc" "k \<le> k'" "\<And>u. u - ll_seconds cfg \<le> t \<Longrightarrow> t \<le> u \<Longrightarrow>
    int (in_window lc ip (u - ll_seconds cfg) u) + 1 \<le> max 0 (ll_count cfg) + k'"
  shows "login_inv cfg k' (register_login ip origin t lc)"
  unfolding login_inv_def
proof (intro conjI allI impI)
  fix ip' u
  let ?L = "ll_seconds cfg"
  have old: "int (in_window lc ip' (u - ?L) u) \<le> max 0 (ll_count cfg) + k" using assms(1) by (simp add: login_inv_def)
  show "int (in_window (register_login ip origin t lc) ip' (u - ?L) u) \<le> max 0 (ll_count cfg) + k'"
  proof (cases "ip' = ip \<and> u - ?L \<le> t \<and> t \<le> u")
    case True
    then show ?thesis using assms(3)[of u] in_window_register[of ip origin t lc ip' "u - ?L" u] by auto
  next
    case False
    then have "in_window (register_login ip origin t lc) ip' (u - ?L) u \<le> in_window lc ip' (u - ?L) u"
      using in_window_register[of ip origin t lc ip' "u - ?L" u] by auto
    then show ?thesis using old assms(2) by linarith
  qed
next
  fix n r assume "map_of (lc_requests (register_login ip origin t lc)) n = Some r"
  then show "phase_ok cfg (register_login ip origin t lc) r" using assms(1) by (simp add: login_inv_def phase_register)
qed

lemma proceed_inv:
  assumes "login_inv cfg k lc" "0 \<le> k" "map_of (lc_requests lc) n = Some r"
  shows "login_inv cfg k (proceed cfg n fails r lc)"
proof -
  have ok: "phase_ok cfg lc r" using assms(1,3) by (simp add: login_inv_def)
  note set = login_inv_request[OF assms(1)]
  show ?thesis
  proof (cases "lr_phase r")
    case Watching
    then show ?thesis by (simp add: proceed_def set phase_ok_def)
  next
    case (Watched ver)
    then show ?thesis using ok by (simp add: proceed_def set phase_ok_def)
  next
    case (Counted ver ct)
    show ?thesis
    proof (cases "int ct < ll_count cfg \<and> lr_increment r \<and> lc_versions lc (lr_ip r) = ver")
      case True
      have ct: "zcount lc (lr_ip r) (lr_now r - ll_seconds cfg) \<le> ct" using ok Counted True by (simp add: phase_ok_def)
      have "login_inv cfg k (register_login (lr_ip r) (lr_origin r) (lr_now r) lc)"
      proof (rule login_inv_register[OF assms(1) order_refl])
        fix u assume "u - ll_seconds cfg \<le> lr_now r" "lr_now r \<le> u"
        then have "in_window lc (lr_ip r) (u - ll_seconds cfg) u \<le> zcount lc (lr_ip r) (lr_now r - ll_seconds cfg)"
          by (intro in_window_zcount) simp
        then show "int (in_window lc (lr_ip r) (u - ll_seconds cfg) u) + 1 \<le> max 0 (ll_count cfg) + k" using ct True assms(2) by linarith
      qed
      from login_inv_request[OF this] show ?thesis using Counted True by (simp add: proceed_def phase_ok_def)
    next
      case False
      then show ?thesis using Counted by (auto simp: proceed_def set phase_ok_def)
    qed
  qed (simp_all add: proceed_def assms(1))
qed

lemma login_inv_same: "login_inv cfg k lc \<Longrightarrow> login_inv cfg k (lc\<lparr>lc_addresses := a\<rparr>)"
proof -
  assume inv: "login_inv cfg k lc"
  show ?thesis by (rule login_inv_mono[OF inv]) (use login_inv_phase[OF inv] in \<open>auto simp: zcount_def in_window_def\<close>)
qed

lemma expire_inv:
  assumes "login_inv cfg k lc" "0 \<le> k"
  shows "login_inv cfg k (expire_logins ip t lc)"
proof (cases "\<exists>x. map_of (lc_expires lc) ip = Some x \<and> x \<le> t")
  case True
  let ?lc = "expire_logins ip t lc"
  have l: "logins_of ?lc ip' = (if ip' = ip then [] else logins_of lc ip')" for ip'
    using True by (auto simp: expire_logins_def logins_of_def dict_simps)
  have same: "lc_versions ?lc = lc_versions lc" "lc_requests ?lc = lc_requests lc" using True by (auto simp: expire_logins_def)
  show ?thesis
    by (rule login_inv_mono[OF assms(1)]) (use login_inv_phase[OF assms(1)] in \<open>auto simp: same zcount_def in_window_def l\<close>)
next
  case False
  then show ?thesis using assms(1) by (auto simp: expire_logins_def split: option.split)
qed

definition additions :: "login_op list \<Rightarrow> nat" where
  "additions ops = length (filter (\<lambda>op. case op of LoginAdd n \<Rightarrow> True | _ \<Rightarrow> False) ops)"

lemma login_step_inv:
  assumes "login_inv cfg k lc" "0 \<le> k"
  shows "login_inv cfg (k + int (additions [op])) (login_step cfg op lc)"
proof (cases op)
  case (LoginAdd n)
  have more: "int (in_window lc ip (t - ll_seconds cfg) t) \<le> max 0 (ll_count cfg) + k" for ip t using assms(1) by (simp add: login_inv_def)
  have "int (in_window lc ip (t - ll_seconds cfg) t) \<le> max 0 (ll_count cfg) + (k + 1)" for ip t using more[of ip t] by linarith
  then have grown: "login_inv cfg (k + 1) lc" using login_inv_phase[OF assms(1)] unfolding login_inv_def by blast
  have add: "login_inv cfg (k + 1) (add_taken n r lc)" for r
  proof (cases "lr_phase r = Adding")
    case True
    have "login_inv cfg (k + 1) (register_login (lr_ip r) (lr_origin r) (lr_now r) lc)"
    proof (rule login_inv_register[OF assms(1)])
      show "int (in_window lc (lr_ip r) (u - ll_seconds cfg) u) + 1 \<le> max 0 (ll_count cfg) + (k + 1)" for u
        using more[of "lr_ip r" u] by linarith
    qed simp
    from login_inv_request[OF this] show ?thesis using True by (simp add: add_taken_def phase_ok_def)
  qed (simp add: add_taken_def grown)
  then show ?thesis using LoginAdd grown by (simp add: additions_def split: option.split)
next
  case (LoginRequest n ip origin t inc)
  then show ?thesis using assms(1) by (simp add: additions_def login_inv_request phase_ok_def)
next
  case (LoginProceed n fails)
  then show ?thesis using assms proceed_inv[OF assms] by (simp add: additions_def split: option.split)
next
  case (LoginTake n origin t)
  have "login_inv cfg k (take_address n origin t lc)"
    using assms(1) login_inv_same[OF assms(1)] by (simp add: take_address_def login_inv_request phase_ok_def split: option.split)
  then show ?thesis using LoginTake assms(1) by (simp add: additions_def)
qed (simp_all add: additions_def assms expire_inv login_inv_same login_tracking_set_ip_def login_tracking_remove_value_def)

lemma login_run_inv: "login_inv cfg k lc \<Longrightarrow> 0 \<le> k \<Longrightarrow> login_inv cfg (k + int (additions ops)) (login_run cfg ops lc)"
proof (induction ops arbitrary: k lc)
  case (Cons op ops)
  have "additions (op # ops) = additions [op] + additions ops" by (simp add: additions_def)
  moreover have "login_run cfg (op # ops) lc = login_run cfg ops (login_step cfg op lc)" by (simp add: login_run_def)
  ultimately show ?case using Cons.IH[OF login_step_inv[OF Cons.prems]] Cons.prems(2) by (simp add: add.assoc)
qed (simp add: additions_def login_run_def)

text \<open>
  C28. The limit of logins holds: however the requests of any number of devices and processes are interleaved, whatever fails and however
  the clocks run, no span of the configured length has more logins registered for an address than the limit allows, apart from those that were
  added without asking because a device sent data after a start of the game.
\<close>

theorem login_limit_holds:
  "int (in_window (login_run cfg ops new_login_cache) ip (t - ll_seconds cfg) t) \<le> max 0 (ll_count cfg) + int (additions ops)"
proof -
  have "login_inv cfg 0 new_login_cache" by (simp add: login_inv_def new_login_cache_def in_window_def logins_of_def)
  from login_run_inv[OF this, of ops] show ?thesis by (simp add: login_inv_def)
qed

text \<open>A request that nothing interrupts answers as if it were one step.\<close>

lemma request_alone:
  assumes "map_of (lc_requests lc) n = None"
  shows "\<exists>r lc'. lc' = login_run cfg [LoginRequest n ip origin t inc, LoginProceed n False, LoginProceed n fails, LoginProceed n False] lc \<and>
    map_of (lc_requests lc') n = Some r \<and> lr_phase r = Answered (fst (ip_handle_login_request cfg ip origin t None None inc fails lc)) \<and>
    lc_logins lc' = lc_logins (snd (ip_handle_login_request cfg ip origin t None None inc fails lc))"
  using assms
  by (simp add: login_run_def proceed_def ip_handle_login_request_def or_configured_def zcount_def)
    (simp add: set_request_def register_login_def logins_of_def dict_simps)

text \<open>The search takes the first four numbers it can find: more of them make an address that is none.\<close>

lemma search_examples:
  "search_ip ''87.123.4.255'' = Some ''87.123.4.255''" "search_ip ''999.1.1.1'' = Some ''99.1.1.1''"
  "search_ip ''1.2.3.4.5'' = Some ''1.2.3.4.''" "\<not> valid_ipv4 ''1.2.3.4.''"
  by code_simp+

end
