(* ===== verification/Spec2Isabelle.thy ===== *)
theory Spec2Isabelle
  imports GameMechanics MitmData Stats Clustering PrioQueue Subroutes Account ApkStorage Communicator Scanning Wizard Registry Webhook EndToEnd RoutePlan LoginTracking
begin

text \<open>
  \<^bold>\<open>Map-A-Droid, the server that drives a fleet of scanning devices\<close>

  The program (\<open>src/mapadroid\<close>) connects devices over websockets, gives every device an area and in it one location after
  the other, collects what the devices see, keeps the accounts they log in with, and installs software on
  them. This development models its logic; every definition is translated from the file its theory names.

  \<^bold>\<open>Parts and how they interact\<close>

  A \<^emph>\<open>worker\<close> (\<open>Worker\<close>, of \<open>worker/Worker.py\<close>) stands for a connected device. It asks the factory of strategies (\<open>Walker\<close>, of
  \<open>worker/strategy/StrategyFactory.py\<close> and \<open>utils/routeutil.py\<close>) for the area it is to work on. The factory walks through the areas
  of the device's walker, with the values the mapping manager (\<open>Mappings\<close>, of \<open>mapping_manager/MappingManager.py\<close> and
  \<open>route/RouteManagerFactory.py\<close>) keeps for every device and with what the route managers of the areas say. A \<^emph>\<open>route manager\<close>
  (\<open>RouteManager\<close>, of \<open>route/RouteManagerBase.py\<close>, its subclasses and \<open>SubrouteReplacingMixin.py\<close>) divides its route among
  its workers (\<open>Subroutes\<close>) and hands out locations from it, and before them those of its priority queue (\<open>PrioQueue\<close>, of
  \<open>route/prioq\<close>), whose events are clustered (\<open>Clustering\<close>, of \<open>route/routecalc/ClusteringHelper.py\<close>, over the geometry of
  \<open>Geo\<close>) and kept in a binary heap (\<open>HeapQ\<close>). Its route is calculated by \<open>RouteCalc\<close> (\<open>route/routecalc/RoutecalcUtil.py\<close>,
  \<open>calculate_route_all.py\<close>), which clusters the coordinates, orders the clusters with OR-Tools or with \<open>Tour\<close>
  (\<open>calculate_route_quick.py\<close>) and keeps the route in a row of the database; \<open>RoutePlan\<close> puts the two together. What a device sends is kept by the data handlers: its latest data per message type
  (\<open>MitmData\<close>, of \<open>data_handler/mitm_data\<close>) and its statistics (\<open>Stats\<close>, of \<open>data_handler/stats\<close>); \<open>GameMechanics\<close>
  (\<open>utils/gamemechanicutil.py\<close>) holds the rules of the game both use. \<open>Account\<close> (\<open>account_handler\<close>) assigns accounts to devices, and \<open>LoginTracking\<close> limits the
  logins of an address (\<open>mapping_manager/MappingManager.py\<close>, \<open>ocr/screenPath.py\<close>). What a worker
  does at a location is the work of a strategy (\<open>Scanning\<close>, of \<open>worker/strategy\<close>): it moves the device, waits until the data
  handler has what fits, and restarts the game and at last the device when nothing comes. Commands
  go to a device through \<open>Communicator\<close> (\<open>websocket/communicator.py\<close>) over the request layer \<open>WsClient\<close>
  (\<open>websocket/WebsocketConnectedClientEntry.py\<close>); which connections are accepted, and which worker serves which device, is decided
  by \<open>Registry\<close> (\<open>websocket/WebsocketServer.py\<close>, \<open>utils/authHelper.py\<close>). The device updater (\<open>Updater\<close>, of \<open>updater/updater.py\<close>) runs jobs on devices over the
  same commands; the packages it installs come from one of the two storages of \<open>ApkStorage\<close> (\<open>mad_apk/apk_storage_fs.py\<close>,
  \<open>apk_storage_db.py\<close>), are searched for and imported by \<open>Wizard\<close> (\<open>mad_apk/wizard.py\<close>), and are compared by the rules of \<open>MadApk\<close> (\<open>mad_apk/utils.py\<close>).
  What the devices have seen they post to \<open>Receiver\<close> (\<open>mitm_receiver/endpoints\<close>), which also tells them what to look for. It checks
  them, hands what is new to the data handler and puts it into a queue, and \<open>Processor\<close> (\<open>mitm_receiver/data_processing/SerializedMitmDataProcessor.py\<close>)
  is a consumer of it: it submits every message by its type, reports to the statistics and the data handler, and puts
  back what the database refuses. The submission (\<open>db/DbPogoProtoSubmit.py\<close>) is \<open>SubmitMons\<close> (mons of maps, near stops and at lures, encounters),
  \<open>SubmitSpawns\<close> (spawn points), \<open>SubmitForts\<close> (stops, incidents, quests) and \<open>SubmitGyms\<close> (gyms, raids, routes, weather, cells), over the tables, the
  session and the cache of \<open>Tables\<close> (\<open>db/model.py\<close>, \<open>db/helper\<close>). \<open>ScanFrames\<close> lifts a relation on tables through all of
  these and \<open>ScanSafety\<close> draws what follows for every run of the consumer. What has changed in the tables is read by \<open>WebhookReader\<close>
  (\<open>db/DbWebhookReader.py\<close>), quests are put into words by \<open>QuestGen\<close> (\<open>utils/questGen.py\<close>), and \<open>Webhook\<close> (\<open>webhook/webhookworker.py\<close>,
  \<open>utils/rarity.py\<close>) makes messages of it and sends them to the receivers, but for what is in the areas \<open>Geofence\<close>
  (\<open>geofence/geofenceHelper.py\<close>) says are excluded.
  \<open>MAD_Prelude\<close>, \<open>PyStr\<close> and \<open>Proto\<close> hold what all parts share: exceptions, ordered dictionaries, JSON values and reading them, the string
  methods of Python, methods that may raise.

  \<^bold>\<open>How the code is represented\<close>

  A class is a record, an enum a datatype, a \<open>dict\<close> an association list in insertion order, an \<open>int\<close> an \<open>int\<close>, a \<open>float\<close> a \<open>real\<close>
  (rounding and NaN are not modelled), a \<open>str\<close> a list of ASCII characters, bytes are lists of 8-bit words. A method is a function
  from the state to the state; an exception is the left of a sum (\<open>py_error\<close>, and a type of its own where the code
  has one, as \<open>rm_error\<close>, \<open>ws_error\<close>). Objects several parts hold at once live in an explicit store: the entries of
  a route pool, the jobs of the updater, the messages requests wait on. Time, the answers of the database and of the
  device are arguments. Coroutines run between their suspension points: where these matter the interleavings are lists of operations
  that a step function folds (\<open>rm_run\<close>, \<open>mm_run\<close>, \<open>pool_run\<close>, \<open>ws_run\<close>, \<open>handler_run\<close>, \<open>consumer_run\<close>, \<open>recv_run\<close>, \<open>login_run\<close>), and invariants hold after every such list.
  A session of the database (\<open>db_session\<close>) holds what is committed (\<open>stored\<close>), what is flushed (\<open>live\<close>) and what is still to be flushed
  (\<open>unflushed\<close>); which of its writes the database refuses is the list \<open>conflicts\<close>, and results hold for every such list. A savepoint writes all or nothing.
  Every column that takes a value straight from a message is a JSON value. A turn of the webhooks is given the tables it finds (\<open>poll_env\<close>);
  what it sends is a list of posts, since a post that fails is only logged. Rows come in the order of the tables.

  \<^bold>\<open>What the lemmas show\<close>

  \<^item> \<open>RouteManager\<close>, \<open>Subroutes\<close>: the route pool is well formed over every history (the locale \<open>rm_frame\<close> lifts a frame to all
    operations and is interpreted twice), the subroutes partition the route, what is handed out is to be visited, the
    last worker stops the manager.
  \<^item> \<open>Mappings\<close>: settings are read back as they were set; updates keep positions; every route manager that is
    held has a history of its own, so all results on histories apply to it.
  \<^item> \<open>Walker\<close>, \<open>Worker\<close>: the search for an area ends, with an area that may be used or because none may; periods over
    midnight; progress of a walker; limits of areas; no exception after a pre-check.
  \<^item> \<open>Scanning\<close>: data a worker waited for is fresh and its own, waiting ends, time-outs escalate to a restart of the game and a
    reboot of the device at the counts the thresholds say.
  \<^item> \<open>PrioQueue\<close>, \<open>HeapQ\<close>, \<open>Clustering\<close>: the heap implements the interface \<open>min_queue\<close>, the queue delivers the earliest due
    event, clustering ends and covers its events.
  \<^item> \<open>Tour\<close>, \<open>RouteCalc\<close>, \<open>RoutePlan\<close>: the spanning tree is minimal, none of the loops of the tour runs for ever and the tour visits every
    point; a manager gets a route that covers its coordinates, a stored route is loaded back, a failed calculation blocks the area.
  \<^item> \<open>MitmData\<close>, \<open>Stats\<close>: entries never get older, requests are answered with fresh data, no statistic is lost or counted twice;
    both rest on the locale \<open>entry_table\<close>.
  \<^item> \<open>Account\<close>: accounts that are handed out are eligible and held by one device only; bans expire as they should.
  \<^item> \<open>LoginTracking\<close>: no interleaving of requests registers more logins than the limit, and a request alone is one step.
  \<^item> \<open>WsClient\<close>, \<open>Communicator\<close>: requests get their own answers whatever is in flight, messages round trip, time-outs close the
    connection, a silent device fails its jobs.
  \<^item> \<open>MadApk\<close>, \<open>ApkStorage\<close>: both storages implement the locale \<open>apk_store\<close> and so the same table; file names and
    restarts lose nothing; versions are compared by number.
  \<^item> \<open>Wizard\<close>: the package that is stored is the one that was checked, a download always ends unmarked, the first supported version is
    taken.
  \<^item> \<open>Registry\<close>: no history of connections has two workers for a device; whose connection is accepted.
  \<^item> \<open>Updater\<close>: bounds of jobs over all interleavings, retries end, claims and releases of devices, smart updates.

  \<^item> \<open>ScanFrames\<close>, \<open>ScanSafety\<close>: whatever is received in whatever order and whatever writes are refused, encounters are not undone by
    sightings, raids are not replaced by older scans, the bits of spawn points stay consistent and forget nothing, no row is lost;
    a refused encounter is tried until it is stored; a map is reported once.

  \<^item> \<open>Receiver\<close>, \<open>EndToEnd\<close>: nothing that was not admitted gets into the queue, which stays within its bound; an encounter that is
    posted is stored; what holds over every run of the consumer holds whatever devices post in between.
  \<^item> \<open>Geofence\<close>: the test of a coordinate is the parity of the edges a ray crosses, filtering agrees with testing, fences are
    read back from what the web interface stores.
  \<^item> \<open>Webhook\<close>: receivers get exactly the messages of their types in chunks within the limit, nothing from an excluded area is
    sent, and no raid is missed however the turns and the writes fall.

  Several lemmas state what the code does where this is not what it means to do (a job that frees a device that is busy, a location that is
  delivered twice, a route that can never be recalculated, a period of ids that wraps to 0, a worker that survives being stopped).

  \<^bold>\<open>Bounds and fuel\<close>

  There is no fuel: loops that end are functions with a measure (the walk through the areas, the restarts of the clustering,
  the sifting of the heap), or partial functions that are proved to return (the clustering, the way to the root of a union-find tree, the
  tour through all edges), and waiting is a list of observations that may run out (\<open>await_event\<close>, \<open>idle_loop\<close>). The only bound
  is on the requests in flight: ids repeat after 100000 requests, and \<open>window_ok\<close> says that none waits that long.

  \<^bold>\<open>Not modelled\<close>

  Third-party code is an argument where it decides something: the cells of S2, the time zone of a location, the
  parser of packages, the answers of the download service, the text of the task of a quest and its translations (\<open>questtask\<close> of
  \<open>utils/questGen.py\<close>), \<open>json.loads\<close> and \<open>matplotlib\<close>. Apart from the
  tables of scanned data the database is the rows it returns; the queries of \<open>db/helper\<close> and the constraints of the schema are left out
  (a broken constraint is a refused write). Where a message has a fraction and the code takes an integer, the model reports an error.
  What \<open>json.dumps\<close> writes into a column is kept as the value. The tasks of one map run in sessions of their own; in the model
  each runs without interruption, in any order. Left out are the web interface (\<open>madmin\<close>), the automatic configuration of devices, gRPC plumbing,
  plugins and the recognition of screens (\<open>ocr\<close>). What a strategy does on the screen of a device is
  part of the environment of \<open>Worker\<close> and \<open>Scanning\<close>. Of OR-Tools only what
  \<open>solver_tours\<close> says is used; that two calls calculate the same route at the same time is not modelled.
\<close>

end
